(* ===== verification/Prelude.thy ===== *)
theory Prelude
  imports Main "HOL-Library.List_Lexorder" "HOL-Library.Char_ord"
    "HOL-Library.Product_Lexorder" "HOL-Library.AList" "HOL-Library.Multiset"
begin

text \<open>
  Shared vocabulary of the development.

  \<^item> The result type of fallible code: \<open>'e + 'a\<close>, \<open>Inl\<close> the raised error, \<open>Inr\<close> the
    returned value; \<open>res_bind\<close> is sequencing and \<open>ensure\<close> is an early \<open>raise\<close>.
  \<^item> The parts of Python the sources use: stable sorting (\<open>sorted\<close>, with and without
    \<open>reverse=True\<close>), \<open>max\<close> with a key (the first maximal element), insertion-ordered
    dictionaries (association lists), \<open>str\<close> methods, decimal rendering of integers.
  \<^item> Tables of rows (SQL tables as lists of records) with a keyed update, and their laws.
  \<^item> Transition systems: reachability and the invariant locale every stateful component
    interprets.

  A Python \<open>str\<close> is a \<open>string\<close>: a list of characters, each a code point below 256. Strings
  are compared lexicographically by code point, as Python compares them. A UUID is its
  canonical text (\<open>str(uuid)\<close>), so equality and order of UUIDs are those of their texts.
\<close>

section \<open>Collections of rules\<close>

named_theorems result_simps "rules that expose the branches of fallible code"
named_theorems row_simps "laws of tables of rows"

section \<open>Types\<close>

type_synonym uuid = string
type_synonym ('e, 'a) result = "'e + 'a"

section \<open>Fallible code\<close>

definition res_bind :: "('e, 'a) result \<Rightarrow> ('a \<Rightarrow> ('e, 'b) result) \<Rightarrow> ('e, 'b) result" where
  "res_bind m f = (case m of Inl e \<Rightarrow> Inl e | Inr x \<Rightarrow> f x)"

definition ensure :: "bool \<Rightarrow> 'e \<Rightarrow> ('e, unit) result" where
  "ensure b e = (if b then Inr () else Inl e)"

definition is_ok :: "('e, 'a) result \<Rightarrow> bool" where
  "is_ok r = (case r of Inl _ \<Rightarrow> False | Inr _ \<Rightarrow> True)"

fun res_map :: "('a \<Rightarrow> ('e, 'b) result) \<Rightarrow> 'a list \<Rightarrow> ('e, 'b list) result" where
  "res_map f [] = Inr []"
| "res_map f (x # xs) =
     (case f x of Inl e \<Rightarrow> Inl e
      | Inr y \<Rightarrow> (case res_map f xs of Inl e \<Rightarrow> Inl e | Inr ys \<Rightarrow> Inr (y # ys)))"

fun res_fold :: "('x \<Rightarrow> 's \<Rightarrow> ('e, 's) result) \<Rightarrow> 'x list \<Rightarrow> 's \<Rightarrow> ('e, 's) result" where
  "res_fold f [] s = Inr s"
| "res_fold f (x # xs) s = res_bind (f x s) (res_fold f xs)"

lemma res_bind_simps [simp, result_simps]:
  "res_bind (Inl e) f = Inl e"
  "res_bind (Inr x) f = f x"
  by (simp_all add: res_bind_def)

lemma res_bind_eq_Inr [result_simps]:
  "res_bind m f = Inr y \<longleftrightarrow> (\<exists>x. m = Inr x \<and> f x = Inr y)"
  by (cases m) auto

lemma res_bind_eq_Inl [result_simps]:
  "res_bind m f = Inl e \<longleftrightarrow> m = Inl e \<or> (\<exists>x. m = Inr x \<and> f x = Inl e)"
  by (cases m) auto

lemma ensure_eq [result_simps]:
  "ensure b e = Inr u \<longleftrightarrow> b"
  "ensure b e = Inl e' \<longleftrightarrow> \<not> b \<and> e' = e"
  by (auto simp: ensure_def)

lemma ensure_simps [simp]:
  "b \<Longrightarrow> ensure b e = Inr ()"
  "\<not> b \<Longrightarrow> ensure b e = Inl e"
  by (simp_all add: ensure_def)

lemma is_ok_simps [simp]:
  "is_ok (Inr x)" "\<not> is_ok (Inl e)"
  by (simp_all add: is_ok_def)

lemma is_ok_iff: "is_ok r \<longleftrightarrow> (\<exists>x. r = Inr x)"
  by (cases r) auto

lemma res_map_length: "res_map f xs = Inr ys \<Longrightarrow> length ys = length xs"
  by (induction xs arbitrary: ys) (auto split: sum.splits)

lemma res_map_nth:
  "res_map f xs = Inr ys \<Longrightarrow> i < length xs \<Longrightarrow> f (xs ! i) = Inr (ys ! i)"
proof (induction xs arbitrary: ys i)
  case Nil
  then show ?case by simp
next
  case (Cons x xs)
  then obtain y ys' where y: "f x = Inr y" and ys': "res_map f xs = Inr ys'" and "ys = y # ys'"
    by (auto split: sum.splits)
  with Cons show ?case by (cases i) auto
qed

lemma res_map_Inr_iff:
  "res_map f xs = Inr ys \<longleftrightarrow> list_all2 (\<lambda>x y. f x = Inr y) xs ys"
proof (induction xs arbitrary: ys)
  case (Cons x xs)
  show ?case
  proof (cases "f x")
    case (Inr y)
    then show ?thesis by (cases ys) (auto simp: Cons.IH [symmetric] split: sum.splits)
  qed (auto simp: list_all2_Cons1)
qed auto

lemma res_map_map: "res_map f (map g xs) = res_map (f \<circ> g) xs"
  by (induction xs) (auto split: sum.splits)

lemma res_map_Inl: "res_map f xs = Inl e \<Longrightarrow> \<exists>x \<in> set xs. \<exists>e. f x = Inl e"
  by (induction xs) (auto split: sum.splits)

lemma res_bind_assoc: "res_bind (res_bind m f) h = res_bind m (\<lambda>x. res_bind (f x) h)"
  by (cases m) auto

lemma res_bind_const_Inr: "res_bind m (\<lambda>_. r) = Inr y \<longleftrightarrow> is_ok m \<and> r = Inr y"
  by (cases m) auto

lemma is_ok_res_bind_Inr [simp]: "is_ok (res_bind m (\<lambda>x. Inr (f x))) = is_ok m"
  by (cases m) auto

lemma res_map_ok: "(\<And>x. x \<in> set xs \<Longrightarrow> is_ok (f x)) \<Longrightarrow> is_ok (res_map f xs)"
proof (induction xs)
  case (Cons x xs)
  then have "is_ok (f x)" "is_ok (res_map f xs)" by simp_all
  then show ?case by (auto simp: is_ok_iff)
qed simp

section \<open>Python's sorting and maximum\<close>

text \<open>\<open>sorted(xs, key=f)\<close> is \<open>sort_key f xs\<close>: both are stable. With \<open>reverse=True\<close> Python
  keeps the original order of equal elements.\<close>

definition sorted_reverse :: "('a \<Rightarrow> 'k::linorder) \<Rightarrow> 'a list \<Rightarrow> 'a list" where
  "sorted_reverse f xs = rev (sort_key f (rev xs))"

text \<open>\<open>max(xs, key=f)\<close>: the first element whose key no later element exceeds.\<close>

fun max_by_from :: "('a \<Rightarrow> 'k::linorder) \<Rightarrow> 'a \<Rightarrow> 'a list \<Rightarrow> 'a" where
  "max_by_from f best [] = best"
| "max_by_from f best (x # xs) = max_by_from f (if f best < f x then x else best) xs"

fun max_by :: "('a \<Rightarrow> 'k::linorder) \<Rightarrow> 'a list \<Rightarrow> 'a option" where
  "max_by f [] = None"
| "max_by f (x # xs) = Some (max_by_from f x xs)"

lemma max_by_from_in: "max_by_from f best xs \<in> insert best (set xs)"
  by (induction xs arbitrary: best) (auto split: if_splits)

lemma max_by_from_best: "f best \<le> f (max_by_from f best xs)"
proof (induction xs arbitrary: best)
  case Nil
  then show ?case by simp
next
  case (Cons x xs)
  show ?case
  proof (cases "f best < f x")
    case True
    with Cons[of x] show ?thesis by simp
  next
    case False
    with Cons[of best] show ?thesis by simp
  qed
qed

lemma max_by_from_ge: "x \<in> set xs \<Longrightarrow> f x \<le> f (max_by_from f best xs)"
proof (induction xs arbitrary: best)
  case Nil
  then show ?case by simp
next
  case (Cons y xs)
  show ?case
  proof (cases "x = y")
    case True
    let ?b = "if f best < f y then y else best"
    have "f y \<le> f ?b" by auto
    also have "\<dots> \<le> f (max_by_from f ?b xs)" by (rule max_by_from_best)
    finally show ?thesis using True by simp
  next
    case False
    with Cons.prems Cons.IH show ?thesis by simp
  qed
qed

lemma max_by_None [simp]: "max_by f xs = None \<longleftrightarrow> xs = []"
  by (cases xs) auto

lemma max_by_in: "max_by f xs = Some x \<Longrightarrow> x \<in> set xs"
  using max_by_from_in by (cases xs) fastforce+

lemma max_by_ge: "max_by f xs = Some m \<Longrightarrow> x \<in> set xs \<Longrightarrow> f x \<le> f m"
  by (cases xs) (auto intro: max_by_from_best max_by_from_ge)

lemma set_sorted_reverse [simp]: "set (sorted_reverse f xs) = set xs"
  by (simp add: sorted_reverse_def)

lemma mset_sorted_reverse [simp]: "mset (sorted_reverse f xs) = mset xs"
  by (simp add: sorted_reverse_def)

lemma sorted_reverse_desc:
  "sorted_wrt (\<lambda>x y. f y \<le> f x) (sorted_reverse f xs)"
proof -
  have "sorted_wrt (\<lambda>x y. f x \<le> f y) (sort_key f (rev xs))"
    using sorted_sort_key [of f "rev xs"] by (simp add: sorted_map)
  then show ?thesis by (simp add: sorted_reverse_def sorted_wrt_rev)
qed

text \<open>Two lists with the same elements and pairwise distinct keys sort to the same list: the
  sources sort rows by a key before they hash or render them.\<close>

lemma sort_key_perm_eq:
  assumes "mset xs = mset ys" and "inj_on f (set xs)"
  shows "sort_key f xs = sort_key f ys"
proof (rule sort_key_inj_key_eq)
  show "mset xs = mset (sort_key f ys)" using assms(1) by simp
  show "inj_on f (set xs)" by (rule assms(2))
  show "sorted (map f (sort_key f ys))" by simp
qed

text \<open>\<open>ORDER BY f LIMIT n\<close>: the elements with fewer than \<open>n\<close> predecessors.\<close>

lemma take_sort_key:
  assumes "distinct xs" and "inj_on f (set xs)" and "x \<in> set xs"
  shows "x \<in> set (take n (sort_key f xs)) \<longleftrightarrow> card {y \<in> set xs. f y < f x} < n"
proof -
  let ?s = "sort_key f xs"
  have d: "distinct ?s" "set ?s = set xs" using assms(1) by simp_all
  from assms(3) obtain i where i: "i < length ?s" "?s ! i = x" by (metis d(2) in_set_conv_nth)
  have strict: "f (?s ! j) < f (?s ! k) \<longleftrightarrow> j < k" if "j < length ?s" "k < length ?s" for j k
  proof -
    have inj: "f (?s ! j) = f (?s ! k) \<longleftrightarrow> j = k"
      using that d assms(2) by (metis inj_on_contraD nth_eq_iff_index_eq nth_mem)
    have mono: "a \<le> b \<Longrightarrow> b < length ?s \<Longrightarrow> f (?s ! a) \<le> f (?s ! b)" for a b
      using sorted_nth_mono [OF sorted_sort_key, of a b f xs] by simp
    show ?thesis using inj mono [of j k] mono [of k j] that by (cases "j < k") force+
  qed
  have "{y \<in> set xs. f y < f x} = (!) ?s ` {..<i}"
  proof
    show "{y \<in> set xs. f y < f x} \<subseteq> (!) ?s ` {..<i}"
    proof
      fix y assume "y \<in> {y \<in> set xs. f y < f x}"
      then obtain j where "j < length ?s" "?s ! j = y" "f y < f x" by (metis d(2) in_set_conv_nth mem_Collect_eq)
      with strict [of j i] i show "y \<in> (!) ?s ` {..<i}" by auto
    qed
    show "(!) ?s ` {..<i} \<subseteq> {y \<in> set xs. f y < f x}"
    proof
      fix y assume "y \<in> (!) ?s ` {..<i}"
      then obtain j where j: "j < i" "y = ?s ! j" by auto
      with strict [of j i] i nth_mem [of j ?s] d(2) show "y \<in> {y \<in> set xs. f y < f x}" by simp
    qed
  qed
  moreover have "inj_on ((!) ?s) {..<i}" using d(1) i(1) by (auto simp: inj_on_def nth_eq_iff_index_eq)
  ultimately have card: "card {y \<in> set xs. f y < f x} = i" by (simp add: card_image)
  have "x \<in> set (take n ?s) \<longleftrightarrow> i < n"
  proof
    assume "x \<in> set (take n ?s)"
    then obtain k where "k < n" "k < length ?s" "?s ! k = x" by (auto simp: in_set_conv_nth)
    with i d(1) show "i < n" by (metis nth_eq_iff_index_eq)
  next
    assume "i < n"
    with i show "x \<in> set (take n ?s)" by (auto simp: in_set_conv_nth intro!: exI [of _ i])
  qed
  with card show ?thesis by simp
qed

section \<open>Python's strings\<close>

text \<open>\<open>str.isspace\<close> on the code points below 256.\<close>

definition is_space :: "char \<Rightarrow> bool" where
  "is_space c = (let n = (of_char c :: nat) in
     (9 \<le> n \<and> n \<le> 13) \<or> (28 \<le> n \<and> n \<le> 32) \<or> n = 133 \<or> n = 160)"

definition lstrip :: "string \<Rightarrow> string" where
  "lstrip s = dropWhile is_space s"

definition rstrip :: "string \<Rightarrow> string" where
  "rstrip s = rev (dropWhile is_space (rev s))"

definition strip :: "string \<Rightarrow> string" where
  "strip s = lstrip (rstrip s)"

definition startswith :: "'a list \<Rightarrow> 'a list \<Rightarrow> bool" where
  "startswith s p = (take (length p) s = p)"

fun join :: "'a list \<Rightarrow> 'a list list \<Rightarrow> 'a list" where
  "join sep [] = []"
| "join sep [x] = x"
| "join sep (x # y # xs) = x @ sep @ join sep (y # xs)"

text \<open>\<open>s.split(c)\<close> for a one-character separator: never the empty list.\<close>

fun split_on :: "'a \<Rightarrow> 'a list \<Rightarrow> 'a list list" where
  "split_on c [] = [[]]"
| "split_on c (x # xs) =
     (if x = c then [] # split_on c xs
      else (case split_on c xs of [] \<Rightarrow> [[x]] | p # ps \<Rightarrow> (x # p) # ps))"

definition digit_char :: "nat \<Rightarrow> char" where
  "digit_char d = char_of (48 + d)"

definition is_digit :: "char \<Rightarrow> bool" where
  "is_digit c = (48 \<le> (of_char c :: nat) \<and> (of_char c :: nat) \<le> 57)"

fun show_nat :: "nat \<Rightarrow> string" where
  "show_nat n = (if n < 10 then [digit_char n] else show_nat (n div 10) @ [digit_char (n mod 10)])"

declare show_nat.simps [simp del]

definition show_int :: "int \<Rightarrow> string" where
  "show_int i = (if i < 0 then CHR ''-'' # show_nat (nat (- i)) else show_nat (nat i))"

text \<open>\<open>int(s)\<close> for a text of ASCII digits.\<close>

definition read_nat :: "string \<Rightarrow> nat" where
  "read_nat s = foldl (\<lambda>n c. 10 * n + (of_char c - 48)) 0 s"

lemma split_on_not_Nil [simp]: "split_on c xs \<noteq> []"
  by (cases xs) (auto split: list.splits)

lemma join_Cons: "ps \<noteq> [] \<Longrightarrow> join sep (x # ps) = x @ sep @ join sep ps"
  by (cases ps) auto

lemma join_split_on: "join [c] (split_on c xs) = xs"
proof (induction xs)
  case Nil
  then show ?case by simp
next
  case (Cons x xs)
  obtain p ps where sp: "split_on c xs = p # ps"
    by (cases "split_on c xs") auto
  with Cons show ?case by (cases ps) (auto simp: join_Cons)
qed

lemma split_on_no_sep: "p \<in> set (split_on c xs) \<Longrightarrow> c \<notin> set p"
proof (induction xs arbitrary: p)
  case Nil
  then show ?case by simp
next
  case (Cons x xs)
  obtain q qs where sp: "split_on c xs = q # qs"
    by (cases "split_on c xs") auto
  with Cons show ?case by (auto split: if_splits)
qed

lemma split_on_append_sep: "c \<notin> set p \<Longrightarrow> split_on c (p @ c # xs) = p # split_on c xs"
  by (induction p) auto

lemma split_on_none: "c \<notin> set p \<Longrightarrow> split_on c p = [p]"
  by (induction p) auto

lemma split_on_join:
  "ps \<noteq> [] \<Longrightarrow> (\<And>p. p \<in> set ps \<Longrightarrow> c \<notin> set p) \<Longrightarrow> split_on c (join [c] ps) = ps"
  by (induction ps rule: induct_list012) (simp_all add: split_on_none split_on_append_sep)

lemma of_char_digit_char [simp]: "d < 10 \<Longrightarrow> of_char (digit_char d) = 48 + d"
  by (simp add: digit_char_def)

lemma is_digit_digit_char [simp]: "d < 10 \<Longrightarrow> is_digit (digit_char d)"
  by (simp add: is_digit_def)

lemma read_nat_snoc: "read_nat (s @ [c]) = 10 * read_nat s + (of_char c - 48)"
  by (simp add: read_nat_def)

lemma read_nat_show_nat [simp]: "read_nat (show_nat n) = n"
proof (induction n rule: show_nat.induct)
  case (1 n)
  show ?case
  proof (cases "n < 10")
    case True
    then show ?thesis by (subst show_nat.simps) (simp add: read_nat_def)
  next
    case False
    with 1 show ?thesis
      by (subst show_nat.simps) (simp add: read_nat_snoc)
  qed
qed

lemma show_nat_digits: "list_all is_digit (show_nat n)"
proof (induction n rule: show_nat.induct)
  case (1 n)
  then show ?case by (subst show_nat.simps) simp
qed

lemma show_nat_not_Nil [simp]: "show_nat n \<noteq> []"
  by (subst show_nat.simps) simp

lemma show_nat_inject [simp]: "show_nat m = show_nat n \<longleftrightarrow> m = n"
  by (metis read_nat_show_nat)

section \<open>Insertion-ordered dictionaries\<close>

text \<open>A \<open>dict\<close> is an association list with distinct keys: \<open>AList.update\<close> writes in place or
  appends, as Python does. \<open>dict_append k v d\<close> is \<open>d.setdefault(k, []).append(v)\<close> and
  \<open>group_by\<close> the loop that applies it to every element; \<open>dict_of\<close> is a dictionary comprehension
  over a list of items, a later item replacing the value of an earlier one with its key.\<close>

definition dict_append :: "'k \<Rightarrow> 'v \<Rightarrow> ('k \<times> 'v list) list \<Rightarrow> ('k \<times> 'v list) list" where
  "dict_append k v d = AList.update k ((case map_of d k of None \<Rightarrow> [] | Some vs \<Rightarrow> vs) @ [v]) d"

definition group_by :: "('v \<Rightarrow> 'k) \<Rightarrow> 'v list \<Rightarrow> ('k \<times> 'v list) list" where
  "group_by f vs = fold (\<lambda>v. dict_append (f v) v) vs []"

definition dict_get :: "('k \<times> 'v list) list \<Rightarrow> 'k \<Rightarrow> 'v list" where
  "dict_get d k = (case map_of d k of None \<Rightarrow> [] | Some vs \<Rightarrow> vs)"

definition dict_of :: "('k \<times> 'v) list \<Rightarrow> ('k \<times> 'v) list" where
  "dict_of kvs = fold (\<lambda>(k, v). AList.update k v) kvs []"

lemma map_of_fold_update:
  "map_of (fold (\<lambda>(k, v). AList.update k v) kvs d) = map_of d ++ map_of (rev kvs)"
  by (induction kvs arbitrary: d) (auto simp: update_conv' map_add_def fun_eq_iff split: option.splits)

lemma map_of_dict_of: "map_of (dict_of kvs) = map_of (rev kvs)"
  by (simp add: dict_of_def map_of_fold_update)

lemma distinct_fold_update:
  "distinct (map fst d) \<Longrightarrow> distinct (map fst (fold (\<lambda>(k, v). AList.update k v) kvs d))"
  by (induction kvs arbitrary: d) (auto simp: distinct_update)

lemma distinct_dict_of [simp]: "distinct (map fst (dict_of kvs))"
  by (simp add: dict_of_def distinct_fold_update)

lemma set_dict_of: "x \<in> set (dict_of kvs) \<longleftrightarrow> map_of (rev kvs) (fst x) = Some (snd x)"
  by (cases x) (simp flip: map_of_dict_of)

lemma set_dict_of_distinct: "distinct (map fst kvs) \<Longrightarrow> set (dict_of kvs) = set kvs"
proof (intro set_eqI)
  fix x assume "distinct (map fst kvs)"
  then have "distinct (map fst (rev kvs))" by (simp flip: rev_map)
  then show "x \<in> set (dict_of kvs) \<longleftrightarrow> x \<in> set kvs"
    by (cases x) (simp add: set_dict_of)
qed

lemma keys_dict_of: "fst ` set (dict_of kvs) = fst ` set kvs"
proof -
  have "fst ` set (dict_of kvs) = dom (map_of (dict_of kvs))" by (simp add: dom_map_of_conv_image_fst)
  also have "\<dots> = fst ` set kvs" by (simp add: map_of_dict_of dom_map_of_conv_image_fst)
  finally show ?thesis .
qed

lemma dict_get_append:
  "dict_get (dict_append k v d) k' = (if k = k' then dict_get d k @ [v] else dict_get d k')"
  by (simp add: dict_get_def dict_append_def update_conv')

lemma dict_get_fold:
  "dict_get (fold (\<lambda>v. dict_append (f v) v) vs d) k = dict_get d k @ filter (\<lambda>v. f v = k) vs"
  by (induction vs arbitrary: d) (auto simp: dict_get_append)

lemma dict_get_group_by [simp]: "dict_get (group_by f vs) k = filter (\<lambda>v. f v = k) vs"
  by (simp add: group_by_def dict_get_fold) (simp add: dict_get_def)

lemma keys_fold_append:
  "fst ` set (fold (\<lambda>v. dict_append (f v) v) vs d) = fst ` set d \<union> f ` set vs"
  by (induction vs arbitrary: d) (auto simp: dict_append_def dom_update)

lemma keys_group_by: "fst ` set (group_by f vs) = f ` set vs"
  by (simp add: group_by_def keys_fold_append)

lemma distinct_fold_append:
  "distinct (map fst d) \<Longrightarrow> distinct (map fst (fold (\<lambda>v. dict_append (f v) v) vs d))"
  by (induction vs arbitrary: d) (auto simp: dict_append_def distinct_update)

lemma distinct_group_by [simp]: "distinct (map fst (group_by f vs))"
  by (simp add: group_by_def distinct_fold_append)

lemma map_of_rev_keyed:
  "map_of (rev (map (\<lambda>x. (f x, x)) xs)) k =
     (if filter (\<lambda>x. f x = k) xs = [] then None else Some (last (filter (\<lambda>x. f x = k) xs)))"
  by (induction xs rule: rev_induct) auto

lemma dict_values_card:
  assumes "distinct (map fst d)"
  shows "length (filter P (map snd d)) = card {k. \<exists>v. map_of d k = Some v \<and> P v}"
proof -
  have "length (filter P (map snd d)) = length (map fst (filter (P \<circ> snd) d))"
    by (simp add: filter_map)
  also have "\<dots> = card (set (map fst (filter (P \<circ> snd) d)))"
    using assms by (intro distinct_card [symmetric] distinct_map_filter)
  also have "set (map fst (filter (P \<circ> snd) d)) = {k. \<exists>v. map_of d k = Some v \<and> P v}"
    using assms by force
  finally show ?thesis .
qed

lemma last_sort_key_max:
  assumes "x \<in> set xs"
  shows "f x \<le> f (last (sort_key f xs))"
proof -
  let ?s = "sort_key f xs"
  from assms have ne: "?s \<noteq> []" by (cases xs) auto
  from assms obtain i where i: "i < length ?s" "?s ! i = x"
    by (metis in_set_conv_nth set_sort)
  have "map f ?s ! i \<le> map f ?s ! (length ?s - 1)"
    using i sorted_nth_mono [OF sorted_sort_key, of i "length ?s - 1" f xs] by simp
  with i ne show ?thesis by (simp add: last_conv_nth)
qed

lemma dict_get_delete:
  "dict_get (AList.delete k d) k' = (if k = k' then [] else dict_get d k')"
  by (simp add: dict_get_def delete_conv')

lemma dict_get_fold_delete:
  "dict_get (fold AList.delete ks d) k = (if k \<in> set ks then [] else dict_get d k)"
  by (induction ks arbitrary: d) (auto simp: dict_get_delete)

lemma keys_delete: "fst ` set (AList.delete k d) = fst ` set d - {k}"
  using delete_keys [of k d] by (metis set_map set_removeAll)

lemma keys_fold_delete: "fst ` set (fold AList.delete ks d) = fst ` set d - set ks"
  by (induction ks arbitrary: d) (auto simp: keys_delete)

lemma dict_values_mem: "distinct (map fst d) \<Longrightarrow> v \<in> snd ` set d \<longleftrightarrow> (\<exists>k. map_of d k = Some v)"
  by force

lemma find_distinct_key:
  assumes "distinct (map f xs)" and "x \<in> set xs"
  shows "List.find (\<lambda>y. f y = f x) xs = Some x"
  using assms by (induction xs) auto

lemma fold_update_distinct:
  "distinct (map fst (d @ kvs)) \<Longrightarrow> fold (\<lambda>(k, v). AList.update k v) kvs d = d @ kvs"
proof (induction kvs arbitrary: d)
  case (Cons kv kvs)
  have "AList.update (fst kv) (snd kv) d = d @ [kv]"
    using Cons.prems by (induction d) auto
  with Cons show ?case by (cases kv) simp
qed simp

lemma dict_of_distinct: "distinct (map fst kvs) \<Longrightarrow> dict_of kvs = kvs"
  by (simp add: dict_of_def fold_update_distinct)

lemma map_filter_all_Some:
  "list_all (\<lambda>x. f x \<noteq> None) xs \<Longrightarrow> List.map_filter f xs = map (the \<circ> f) xs"
  by (induction xs) (auto simp: List.map_filter_simps)

lemma map_filter_mem: "x \<in> set (List.map_filter f xs) \<longleftrightarrow> (\<exists>y \<in> set xs. f y = Some x)"
  by (induction xs) (auto simp: List.map_filter_simps split: option.splits)

section \<open>Tables of rows\<close>

text \<open>\<open>UPDATE t SET .. WHERE p\<close> and a lookup by a predicate.\<close>

definition update_rows :: "('r \<Rightarrow> bool) \<Rightarrow> ('r \<Rightarrow> 'r) \<Rightarrow> 'r list \<Rightarrow> 'r list" where
  "update_rows p f rows = map (\<lambda>r. if p r then f r else r) rows"

definition find_row :: "('r \<Rightarrow> bool) \<Rightarrow> 'r list \<Rightarrow> 'r option" where
  "find_row p rows = List.find p rows"

text \<open>A table with a primary key. The provider supplies the key projection and its lookup by
  key; the client lemmas say what a lookup returns after a keyed update.\<close>

locale keyed_table =
  fixes key :: "'r \<Rightarrow> 'k" and get_row :: "'r list \<Rightarrow> 'k \<Rightarrow> 'r option"
  assumes get_row_spec: "get_row rows k = find_row (\<lambda>r. key r = k) rows"
begin

lemma get_row_Some: "get_row rows k = Some r \<Longrightarrow> r \<in> set rows \<and> key r = k"
  by (auto simp: get_row_spec find_row_def find_Some_iff)

lemma get_row_None: "get_row rows k = None \<longleftrightarrow> k \<notin> key ` set rows"
  by (auto simp: get_row_spec find_row_def find_None_iff)

lemma get_row_eqI:
  assumes "distinct (map key rows)" and "r \<in> set rows"
  shows "get_row rows (key r) = Some r"
  using assms by (induction rows) (auto simp: get_row_spec find_row_def)

lemma get_row_update_same:
  assumes "\<And>r. key (f r) = key r" and "get_row rows k = Some r" and "p r"
  shows "get_row (update_rows (\<lambda>x. key x = k \<and> p x) f rows) k = Some (f r)"
  using assms by (induction rows) (auto simp: get_row_spec find_row_def update_rows_def split: if_splits)

lemma get_row_update_other:
  assumes "\<And>r. key (f r) = key r" and "k' \<noteq> k"
  shows "get_row (update_rows (\<lambda>x. key x = k \<and> p x) f rows) k' = get_row rows k'"
  using assms by (induction rows) (auto simp: get_row_spec find_row_def update_rows_def)

lemma keys_update_rows:
  assumes "\<And>r. key (f r) = key r"
  shows "map key (update_rows p f rows) = map key rows"
  using assms by (simp add: update_rows_def)

end

lemma set_update_rows: "set (update_rows p f rows) = f ` {r \<in> set rows. p r} \<union> {r \<in> set rows. \<not> p r}"
  by (auto simp: update_rows_def)

lemma length_update_rows [simp]: "length (update_rows p f rows) = length rows"
  by (simp add: update_rows_def)

lemma update_rows_no_match: "(\<And>r. r \<in> set rows \<Longrightarrow> \<not> p r) \<Longrightarrow> update_rows p f rows = rows"
  by (simp add: update_rows_def map_idI)

lemma find_row_Some: "find_row p rows = Some r \<Longrightarrow> r \<in> set rows \<and> p r"
  by (auto simp: find_row_def find_Some_iff)

lemma find_row_None: "find_row p rows = None \<longleftrightarrow> (\<forall>r \<in> set rows. \<not> p r)"
  by (auto simp: find_row_def find_None_iff)

lemma update_rows_update_rows [row_simps]:
  "(\<And>r. p (f r) = p r) \<Longrightarrow> update_rows p h (update_rows p f rows) = update_rows p (h \<circ> f) rows"
  by (simp add: update_rows_def)

lemma filter_update_rows [row_simps]:
  "(\<And>r. P (f r) = P r) \<Longrightarrow> filter P (update_rows p f rows) = update_rows p f (filter P rows)"
  by (induction rows) (auto simp: update_rows_def)

lemma map_update_rows [row_simps]: "(\<And>r. h (f r) = h r) \<Longrightarrow> map h (update_rows p f rows) = map h rows"
  by (auto simp: update_rows_def)

lemma update_rows_outside: "(\<And>r. r \<in> set rows \<Longrightarrow> p r \<Longrightarrow> f r = r) \<Longrightarrow> update_rows p f rows = rows"
  by (auto simp: update_rows_def intro: map_idI)

lemma length_filter_update_row:
  assumes "distinct (map key rows)" and "r \<in> set rows" and "\<And>x. key (f x) = key x"
  shows "length (filter P (update_rows (\<lambda>x. key x = key r) f rows))
         \<le> length (filter P rows) + (if P (f r) \<and> \<not> P r then 1 else 0)"
  using assms(1,2)
proof (induction rows)
  case (Cons x xs)
  show ?case
  proof (cases "x = r")
    case True
    with Cons.prems have "update_rows (\<lambda>x. key x = key r) f xs = xs"
      by (intro update_rows_no_match) (metis distinct.simps(2) image_eqI list.simps(9) set_map)
    with True show ?thesis by (simp add: update_rows_def)
  next
    case False
    with Cons.prems have "r \<in> set xs" "key x \<noteq> key r" by (auto simp: image_iff)
    with Cons show ?thesis by (auto simp: update_rows_def)
  qed
qed simp

text \<open>A keyed update of rows is a dictionary update of their image.\<close>

lemma map_update_row_dict:
  assumes "distinct (map key rows)" and "r \<in> set rows" and "distinct (map (fst \<circ> h) rows)"
    and "\<And>x. fst (h (f x)) = fst (h x)"
  shows "map h (update_rows (\<lambda>x. key x = key r) f rows) = AList.update (fst (h r)) (snd (h (f r))) (map h rows)"
  using assms(1-3)
proof (induction rows)
  case (Cons x xs)
  show ?case
  proof (cases "x = r")
    case True
    with Cons.prems have "update_rows (\<lambda>x. key x = key r) f xs = xs"
      by (intro update_rows_no_match) (metis distinct.simps(2) image_eqI list.simps(9) set_map)
    with True assms(4) [of r] show ?thesis
      by (cases "h r"; cases "h (f r)") (simp add: update_rows_def)
  next
    case False
    with Cons.prems have r: "r \<in> set xs" "key x \<noteq> key r" "fst (h x) \<noteq> fst (h r)"
      by (auto simp: image_iff)
    with Cons show ?thesis by (cases "h x") (auto simp: update_rows_def)
  qed
qed simp

lemma AList_update_new: "k \<notin> fst ` set d \<Longrightarrow> AList.update k v d = d @ [(k, v)]"
  by (induction d) auto

lemma AList_update_id: "map_of d k = Some v \<Longrightarrow> AList.update k v d = d"
  by (induction d) (auto split: if_splits)

lemma list_all_update_rows:
  "list_all P rows \<Longrightarrow> (\<And>r. r \<in> set rows \<Longrightarrow> p r \<Longrightarrow> P r \<Longrightarrow> P (f r)) \<Longrightarrow> list_all P (update_rows p f rows)"
  by (auto simp: list_all_iff update_rows_def)

section \<open>Transition systems\<close>

inductive reachable :: "('s \<Rightarrow> bool) \<Rightarrow> ('s \<Rightarrow> 's \<Rightarrow> bool) \<Rightarrow> 's \<Rightarrow> bool"
  for start :: "'s \<Rightarrow> bool" and step :: "'s \<Rightarrow> 's \<Rightarrow> bool" where
  reachable_start: "start s \<Longrightarrow> reachable start step s"
| reachable_step: "reachable start step s \<Longrightarrow> step s t \<Longrightarrow> reachable start step t"

locale invariant_system =
  fixes start :: "'s \<Rightarrow> bool" and step :: "'s \<Rightarrow> 's \<Rightarrow> bool" and inv :: "'s \<Rightarrow> bool"
  assumes inv_start: "start s \<Longrightarrow> inv s"
    and inv_step: "inv s \<Longrightarrow> step s t \<Longrightarrow> inv t"
begin

lemma inv_reachable: "reachable start step s \<Longrightarrow> inv s"
  by (induction rule: reachable.induct) (auto intro: inv_start inv_step)

lemma inv_rtranclp: "step\<^sup>*\<^sup>* s t \<Longrightarrow> inv s \<Longrightarrow> inv t"
  by (induction rule: rtranclp_induct) (auto intro: inv_step)

end

end
