(* ===== verification/Sha256.thy ===== *)
theory Sha256
  imports Prelude "HOL-Library.Word"
begin

unbundle bit_operations_syntax

text \<open>
  \<open>hashlib.sha256\<close> of the Python standard library, as FIPS 180-4 defines it, on lists of bytes
  (natural numbers below 256), and its \<open>hexdigest\<close>. The delivery, fact and knowledge components
  hash canonical texts with it; the digest is computed here, not assumed.
\<close>

type_synonym w32 = "32 word"
type_synonym bytes = "nat list"

definition sha256_K :: "w32 list" where
  "sha256_K =
    [1116352408, 1899447441, 3049323471, 3921009573, 961987163, 1508970993, 2453635748, 2870763221,
     3624381080, 310598401, 607225278, 1426881987, 1925078388, 2162078206, 2614888103, 3248222580,
     3835390401, 4022224774, 264347078, 604807628, 770255983, 1249150122, 1555081692, 1996064986,
     2554220882, 2821834349, 2952996808, 3210313671, 3336571891, 3584528711, 113926993, 338241895,
     666307205, 773529912, 1294757372, 1396182291, 1695183700, 1986661051, 2177026350, 2456956037,
     2730485921, 2820302411, 3259730800, 3345764771, 3516065817, 3600352804, 4094571909, 275423344,
     430227734, 506948616, 659060556, 883997877, 958139571, 1322822218, 1537002063, 1747873779,
     1955562222, 2024104815, 2227730452, 2361852424, 2428436474, 2756734187, 3204031479, 3329325298]"

definition sha256_H0 :: "w32 list" where
  "sha256_H0 =
    [1779033703, 3144134277, 1013904242, 2773480762, 1359893119, 2600822924, 528734635, 1541459225]"

definition rotr32 :: "nat \<Rightarrow> w32 \<Rightarrow> w32" where
  "rotr32 n x = drop_bit n x OR push_bit (32 - n) x"

definition sigma0 :: "w32 \<Rightarrow> w32" where
  "sigma0 x = rotr32 7 x XOR rotr32 18 x XOR drop_bit 3 x"

definition sigma1 :: "w32 \<Rightarrow> w32" where
  "sigma1 x = rotr32 17 x XOR rotr32 19 x XOR drop_bit 10 x"

definition Sigma0 :: "w32 \<Rightarrow> w32" where
  "Sigma0 x = rotr32 2 x XOR rotr32 13 x XOR rotr32 22 x"

definition Sigma1 :: "w32 \<Rightarrow> w32" where
  "Sigma1 x = rotr32 6 x XOR rotr32 11 x XOR rotr32 25 x"

definition Ch :: "w32 \<Rightarrow> w32 \<Rightarrow> w32 \<Rightarrow> w32" where
  "Ch x y z = (x AND y) XOR (NOT x AND z)"

definition Maj :: "w32 \<Rightarrow> w32 \<Rightarrow> w32 \<Rightarrow> w32" where
  "Maj x y z = (x AND y) XOR (x AND z) XOR (y AND z)"

text \<open>Padding: the bit 1, zeros, and the length in bits as a 64-bit big-endian integer.\<close>

fun be_bytes :: "nat \<Rightarrow> nat \<Rightarrow> bytes" where
  "be_bytes 0 n = []"
| "be_bytes (Suc k) n = be_bytes k (n div 256) @ [n mod 256]"

definition sha256_pad :: "bytes \<Rightarrow> bytes" where
  "sha256_pad m =
     m @ [128] @ replicate ((119 - length m mod 64) mod 64) 0 @ be_bytes 8 (8 * length m)"

fun be_words :: "bytes \<Rightarrow> w32 list" where
  "be_words (a # b # c # d # rest) =
     of_nat (((a * 256 + b) * 256 + c) * 256 + d) # be_words rest"
| "be_words _ = []"

text \<open>The message schedule keeps the last sixteen words, newest first.\<close>

fun sha256_schedule :: "nat \<Rightarrow> w32 list \<Rightarrow> w32 list" where
  "sha256_schedule 0 ws = []"
| "sha256_schedule (Suc k) ws =
     (let w = sigma1 (ws ! 1) + ws ! 6 + sigma0 (ws ! 14) + ws ! 15
      in w # sha256_schedule k (w # butlast ws))"

fun sha256_round :: "w32 list \<Rightarrow> w32 \<times> w32 \<Rightarrow> w32 list" where
  "sha256_round [a, b, c, d, e, f, g, h] (k, w) =
     (let t1 = h + Sigma1 e + Ch e f g + k + w;
          t2 = Sigma0 a + Maj a b c
      in [t1 + t2, a, b, c, d + t1, e, f, g])"
| "sha256_round s _ = s"

definition sha256_block :: "w32 list \<Rightarrow> w32 list \<Rightarrow> w32 list" where
  "sha256_block h ws =
     map2 (+) h (foldl sha256_round h (zip sha256_K (ws @ sha256_schedule 48 (rev ws))))"

function sha256_blocks :: "w32 list \<Rightarrow> w32 list \<Rightarrow> w32 list" where
  "sha256_blocks h ws =
     (if length ws < 16 then h else sha256_blocks (sha256_block h (take 16 ws)) (drop 16 ws))"
  by pat_completeness auto
termination
  by (relation "measure (\<lambda>(h, ws). length ws)") auto

declare sha256_blocks.simps [simp del]

definition hex_digit :: "nat \<Rightarrow> char" where
  "hex_digit d = (if d < 10 then char_of (48 + d) else char_of (87 + d))"

fun hex_nat :: "nat \<Rightarrow> nat \<Rightarrow> string" where
  "hex_nat 0 n = []"
| "hex_nat (Suc k) n = hex_nat k (n div 16) @ [hex_digit (n mod 16)]"

definition sha256_hex :: "bytes \<Rightarrow> string" where
  "sha256_hex m =
     concat (map (\<lambda>w. hex_nat 8 (unat w)) (sha256_blocks sha256_H0 (be_words (sha256_pad m))))"

section \<open>Shape of a digest\<close>

definition is_hex_char :: "char \<Rightarrow> bool" where
  "is_hex_char c = ((48 \<le> (of_char c :: nat) \<and> (of_char c :: nat) \<le> 57) \<or>
                    (97 \<le> (of_char c :: nat) \<and> (of_char c :: nat) \<le> 102))"

lemma length_hex_nat [simp]: "length (hex_nat k n) = k"
  by (induction k n rule: hex_nat.induct) auto

lemma is_hex_hex_digit: "d < 16 \<Longrightarrow> is_hex_char (hex_digit d)"
  by (simp add: is_hex_char_def hex_digit_def)

lemma hex_nat_chars: "list_all is_hex_char (hex_nat k n)"
  by (induction k n rule: hex_nat.induct) (auto simp: is_hex_hex_digit)

lemma length_sha256_round [simp]: "length (sha256_round s kw) = length s"
  by (induction s kw rule: sha256_round.induct) (auto simp: Let_def)

lemma length_foldl_round [simp]: "length (foldl sha256_round s kws) = length s"
  by (induction kws arbitrary: s) auto

lemma length_sha256_block [simp]: "length (sha256_block h ws) = length h"
  by (simp add: sha256_block_def)

lemma length_sha256_blocks [simp]: "length (sha256_blocks h ws) = length h"
proof (induction h ws rule: sha256_blocks.induct)
  case (1 h ws)
  then show ?case by (cases "length ws < 16") (simp_all add: sha256_blocks.simps[of h ws])
qed

lemma length_concat_const: "(\<And>x. x \<in> set xs \<Longrightarrow> length (f x) = k) \<Longrightarrow>
   length (concat (map f xs)) = k * length xs"
  by (induction xs) auto

lemma length_sha256_hex [simp]: "length (sha256_hex m) = 64"
  by (simp add: sha256_hex_def length_concat_const[where k = 8] sha256_H0_def)

lemma sha256_hex_chars: "list_all is_hex_char (sha256_hex m)"
proof -
  have "list_all is_hex_char (hex_nat 8 (unat w))" for w :: w32
    by (rule hex_nat_chars)
  then show ?thesis
    by (auto simp: sha256_hex_def list_all_iff)
qed

end
