(* ===== verification/Canonical_Json.thy ===== *)
theory Canonical_Json
  imports Sha256
begin

text \<open>
  Canonical JSON texts and their digests.

  \<^item> \<open>pyval\<close> is a Python value as the validators meet it (the payloads are typed \<open>object\<close>): a
    float and an unsupported type are values of their own, a mapping may have a key that is not a
    string. \<open>json\<close> is a value that passed validation.
  \<^item> \<open>src/brain_v42/models/delivery_hashes.py\<close>: the iterative validator
    \<open>_reject_invalid_json_value\<close> (its explicit stack kept) and \<open>canonical_digest\<close>.
  \<^item> \<open>dumps\<close> is \<open>json.dumps(.., sort_keys=True, ensure_ascii=False, separators=(",", ":"))\<close>.

  A text is the list of its Unicode code points, so that surrogates, NUL characters and the UTF-8
  encoding are what they are in the source. The theory shows that the iterative validator
  agrees with a structural definition of the canonical domain, that the canonical text determines
  the value, and that UTF-8 determines the text: two payloads share the bytes that are hashed only
  when they are the same canonical value under the same domain.
\<close>

section \<open>Values and texts\<close>

type_synonym utext = "nat list"

definition codes :: "string \<Rightarrow> utext" where
  "codes s = map of_char s"

datatype pykey = KStr utext | KOther

datatype pyval =
    PNone | PBool bool | PInt int | PFloat | PStr utext
  | PList "pyval list" | PMap "(pykey \<times> pyval) list" | POther

datatype json =
    JNull | JBool bool | JInt int | JStr utext
  | JArr "json list" | JObj "(utext \<times> json) list"

definition is_surrogate :: "nat \<Rightarrow> bool" where
  "is_surrogate c = (55296 \<le> c \<and> c \<le> 57343)"

text \<open>Keyword arguments and dictionary displays of the sources.\<close>

definition pstr :: "string \<Rightarrow> pyval" where
  "pstr s = PStr (codes s)"

definition popt :: "('a \<Rightarrow> pyval) \<Rightarrow> 'a option \<Rightarrow> pyval" where
  "popt f x = (case x of None \<Rightarrow> PNone | Some y \<Rightarrow> f y)"

definition pobj :: "(string \<times> pyval) list \<Rightarrow> pyval" where
  "pobj kvs = PMap (map (\<lambda>(k, v). (KStr (codes k), v)) kvs)"

section \<open>Validation\<close>

datatype canonical_error =
    CannotContainFloats | CannotContainNul | CannotContainSurrogates | NestsTooDeep
  | RequiresStringKeys | UnsupportedValueType | MustBeObject | TooLarge

definition MAX_CANONICAL_JSON_DEPTH :: nat where
  "MAX_CANONICAL_JSON_DEPTH = 64"

fun weight :: "pyval \<Rightarrow> nat" where
  "weight (PList vs) = 1 + sum_list (map weight vs)"
| "weight (PMap kvs) = 1 + sum_list (map (\<lambda>kv. 1 + weight (snd kv)) kvs)"
| "weight _ = 1"

definition check_string :: "utext \<Rightarrow> canonical_error option" where
  "check_string s =
     (if 0 \<in> set s then Some CannotContainNul
      else if list_ex is_surrogate s then Some CannotContainSurrogates else None)"

text \<open>The items of a mapping pushed one by one: the key, then its value; the top of the stack is
  the head of the list.\<close>

fun push_items :: "(pykey \<times> pyval) list \<Rightarrow> nat \<Rightarrow> (pyval \<times> nat) list
    \<Rightarrow> (canonical_error, (pyval \<times> nat) list) result" where
  "push_items [] d st = Inr st"
| "push_items ((KOther, v) # kvs) d st = Inl RequiresStringKeys"
| "push_items ((KStr k, v) # kvs) d st = push_items kvs d ((v, d) # (PStr k, d) # st)"

definition stack_weight :: "(pyval \<times> nat) list \<Rightarrow> nat" where
  "stack_weight st = sum_list (map (weight \<circ> fst) st)"

lemma weight_pos [simp]: "0 < weight v"
  by (cases v) auto

lemma push_items_weight:
  "push_items kvs d st = Inr st' \<Longrightarrow>
   stack_weight st' = stack_weight st + sum_list (map (\<lambda>kv. 1 + weight (snd kv)) kvs)"
  by (induction kvs d st rule: push_items.induct) (auto simp: stack_weight_def)

function reject_loop :: "(pyval \<times> nat) list \<Rightarrow> canonical_error option" where
  "reject_loop [] = None"
| "reject_loop ((PNone, d) # st) = reject_loop st"
| "reject_loop ((PBool b, d) # st) = reject_loop st"
| "reject_loop ((PInt i, d) # st) = reject_loop st"
| "reject_loop ((PFloat, d) # st) = Some CannotContainFloats"
| "reject_loop ((PStr s, d) # st) =
     (case check_string s of Some e \<Rightarrow> Some e | None \<Rightarrow> reject_loop st)"
| "reject_loop ((PList vs, d) # st) =
     (if MAX_CANONICAL_JSON_DEPTH \<le> d then Some NestsTooDeep
      else reject_loop (rev (map (\<lambda>v. (v, Suc d)) vs) @ st))"
| "reject_loop ((PMap kvs, d) # st) =
     (if MAX_CANONICAL_JSON_DEPTH \<le> d then Some NestsTooDeep
      else (case push_items kvs (Suc d) st of Inl e \<Rightarrow> Some e | Inr st' \<Rightarrow> reject_loop st'))"
| "reject_loop ((POther, d) # st) = Some UnsupportedValueType"
  by pat_completeness auto
termination
proof (relation "measure stack_weight", goal_cases)
  case (6 vs d st)
  then show ?case by (simp add: stack_weight_def comp_def sum_list_rev flip: rev_map)
next
  case (7 kvs d st st')
  then show ?case using push_items_weight[of kvs "Suc d" st st'] by (simp add: stack_weight_def)
qed (auto simp: stack_weight_def)

definition reject_invalid_json_value :: "pyval \<Rightarrow> canonical_error option" where
  "reject_invalid_json_value v = reject_loop [(v, 0)]"

text \<open>The canonical domain, structurally: what the loop accepts.\<close>

fun canonical_at :: "nat \<Rightarrow> pyval \<Rightarrow> bool" where
  "canonical_at d PNone = True"
| "canonical_at d (PBool _) = True"
| "canonical_at d (PInt _) = True"
| "canonical_at d PFloat = False"
| "canonical_at d (PStr s) = (check_string s = None)"
| "canonical_at d (PList vs) = (d < MAX_CANONICAL_JSON_DEPTH \<and> list_all (canonical_at (Suc d)) vs)"
| "canonical_at d (PMap kvs) =
     (d < MAX_CANONICAL_JSON_DEPTH \<and>
      list_all (\<lambda>kv. (case fst kv of KStr k \<Rightarrow> check_string k = None | KOther \<Rightarrow> False)
                     \<and> canonical_at (Suc d) (snd kv)) kvs)"
| "canonical_at d POther = False"

section \<open>Texts of values\<close>

fun to_json :: "pyval \<Rightarrow> json option" where
  "to_json PNone = Some JNull"
| "to_json (PBool b) = Some (JBool b)"
| "to_json (PInt i) = Some (JInt i)"
| "to_json PFloat = None"
| "to_json (PStr s) = Some (JStr s)"
| "to_json (PList vs) = map_option JArr (those (map to_json vs))"
| "to_json (PMap kvs) =
     map_option JObj (those (map (\<lambda>kv. case fst kv of
        KStr k \<Rightarrow> map_option (Pair k) (to_json (snd kv)) | KOther \<Rightarrow> None) kvs))"
| "to_json POther = None"

text \<open>\<open>json.dumps\<close> escapes the quote, the backslash and the control characters below 32.\<close>

definition escape_char :: "nat \<Rightarrow> utext" where
  "escape_char c =
     (if c = 34 then [92, 34] else if c = 92 then [92, 92]
      else if c = 8 then [92, 98] else if c = 9 then [92, 116] else if c = 10 then [92, 110]
      else if c = 12 then [92, 102] else if c = 13 then [92, 114]
      else if c < 32 then [92, 117, 48, 48] @ codes (hex_nat 2 c)
      else [c])"

definition dump_str :: "utext \<Rightarrow> utext" where
  "dump_str s = [34] @ concat (map escape_char s) @ [34]"

fun dumps_raw :: "json \<Rightarrow> utext" where
  "dumps_raw JNull = codes ''null''"
| "dumps_raw (JBool b) = (if b then codes ''true'' else codes ''false'')"
| "dumps_raw (JInt i) = codes (show_int i)"
| "dumps_raw (JStr s) = dump_str s"
| "dumps_raw (JArr vs) = [91] @ join [44] (map dumps_raw vs) @ [93]"
| "dumps_raw (JObj kvs) =
     [123] @ join [44] (map (\<lambda>kv. dump_str (fst kv) @ [58] @ dumps_raw (snd kv)) kvs) @ [125]"

text \<open>\<open>sort_keys=True\<close>: the items of every mapping in the order of their keys.\<close>

fun sort_keys :: "json \<Rightarrow> json" where
  "sort_keys (JArr vs) = JArr (map sort_keys vs)"
| "sort_keys (JObj kvs) = JObj (sort_key fst (map (\<lambda>kv. (fst kv, sort_keys (snd kv))) kvs))"
| "sort_keys v = v"

definition dumps :: "json \<Rightarrow> utext" where
  "dumps v = dumps_raw (sort_keys v)"

definition utf8_char :: "nat \<Rightarrow> bytes" where
  "utf8_char c =
     (if c < 128 then [c]
      else if c < 2048 then [192 + c div 64, 128 + c mod 64]
      else if c < 65536 then [224 + c div 4096, 128 + c div 64 mod 64, 128 + c mod 64]
      else [240 + c div 262144, 128 + c div 4096 mod 64, 128 + c div 64 mod 64, 128 + c mod 64])"

definition utf8 :: "utext \<Rightarrow> bytes" where
  "utf8 s = concat (map utf8_char s)"

section \<open>The digest of a payload\<close>

datatype digest_domain = Contract | Request | Result | Assessment | Attestation

definition domain_text :: "digest_domain \<Rightarrow> string" where
  "domain_text d = (case d of Contract \<Rightarrow> ''contract'' | Request \<Rightarrow> ''request''
     | Result \<Rightarrow> ''result'' | Assessment \<Rightarrow> ''assessment'' | Attestation \<Rightarrow> ''attestation'')"

definition digest_preimage :: "digest_domain \<Rightarrow> json \<Rightarrow> bytes" where
  "digest_preimage d v = codes (''brain-delivery-'' @ domain_text d @ '':v1'' @ [char_of (10::nat)]) @ utf8 (dumps v)"

definition canonical_digest :: "pyval \<Rightarrow> digest_domain \<Rightarrow> (canonical_error, string) result" where
  "canonical_digest payload domain =
     (case reject_invalid_json_value payload of
        Some e \<Rightarrow> Inl e
      | None \<Rightarrow> (case to_json payload of
            None \<Rightarrow> Inl UnsupportedValueType
          | Some v \<Rightarrow> Inr (sha256_hex (digest_preimage domain v))))"

section \<open>The iterative validator accepts exactly the canonical domain\<close>

lemma push_items_Inl:
  "push_items kvs d st = Inl e \<Longrightarrow> \<exists>kv \<in> set kvs. fst kv = KOther"
  by (induction kvs d st rule: push_items.induct) auto

lemma push_items_Inr:
  "push_items kvs d st = Inr st' \<Longrightarrow>
   list_all P st' \<longleftrightarrow>
     list_all P st \<and>
     list_all (\<lambda>kv. (case fst kv of KStr k \<Rightarrow> P (PStr k, d) | KOther \<Rightarrow> False) \<and> P (snd kv, d)) kvs"
  by (induction kvs d st rule: push_items.induct) auto

lemma reject_loop_iff:
  "reject_loop st = None \<longleftrightarrow> list_all (\<lambda>vd. canonical_at (snd vd) (fst vd)) st"
proof (induction st rule: reject_loop.induct)
  case (6 s d st)
  then show ?case by (auto split: option.splits)
next
  case (7 vs d st)
  then show ?case by (auto simp: list.pred_map comp_def)
next
  case (8 kvs d st)
  show ?case
  proof (cases "MAX_CANONICAL_JSON_DEPTH \<le> d")
    case True
    then show ?thesis by simp
  next
    case deep: False
    show ?thesis
    proof (cases "push_items kvs (Suc d) st")
      case (Inl e)
      then obtain kv where "kv \<in> set kvs" "fst kv = KOther"
        using push_items_Inl by blast
      with Inl deep show ?thesis by (auto simp: list_all_iff intro!: bexI[of _ kv])
    next
      case (Inr st')
      with 8 deep have "reject_loop st' = None \<longleftrightarrow> list_all (\<lambda>vd. canonical_at (snd vd) (fst vd)) st'"
        by blast
      also have "\<dots> \<longleftrightarrow> list_all (\<lambda>vd. canonical_at (snd vd) (fst vd)) ((PMap kvs, d) # st)"
        using push_items_Inr[OF Inr, of "\<lambda>vd. canonical_at (snd vd) (fst vd)"] deep
        by (auto simp: list_all_iff split: pykey.splits)
      finally show ?thesis using Inr deep by simp
    qed
  qed
qed auto

lemma those_map_Some: "(\<And>x. x \<in> set xs \<Longrightarrow> f x \<noteq> None) \<Longrightarrow> those (map f xs) \<noteq> None"
  by (induction xs) (auto split: option.splits)

lemma canonical_to_json: "canonical_at d v \<Longrightarrow> \<exists>j. to_json v = Some j"
proof (induction d v rule: canonical_at.induct)
  case (6 d vs)
  then have "those (map to_json vs) \<noteq> None"
    by (intro those_map_Some) (auto simp: list_all_iff)
  then show ?case by auto
next
  case (7 d kvs)
  then have "those (map (\<lambda>kv. case fst kv of
      KStr k \<Rightarrow> map_option (Pair k) (to_json (snd kv)) | KOther \<Rightarrow> None) kvs) \<noteq> None"
    by (intro those_map_Some) (fastforce simp: list_all_iff split: pykey.splits)
  then show ?case by auto
qed auto

section \<open>Payloads of the model are canonical unless they hold a NUL\<close>

definition nul_free :: "string \<Rightarrow> bool" where
  "nul_free s = (CHR 0x00 \<notin> set s)"

lemma nul_free_simps [simp]:
  "nul_free []" "nul_free (c # s) \<longleftrightarrow> c \<noteq> CHR 0x00 \<and> nul_free s"
  "nul_free (s @ t) \<longleftrightarrow> nul_free s \<and> nul_free t"
  by (auto simp: nul_free_def)

lemma check_string_codes: "check_string (codes s) = None \<longleftrightarrow> nul_free s"
proof -
  have "(0::nat) = of_char (CHR 0x00)" by simp
  then have "(0::nat) \<in> of_char ` set s \<longleftrightarrow> CHR 0x00 \<in> set s"
    by (metis (no_types, lifting) imageE imageI of_char_eq_iff)
  moreover have "\<not> is_surrogate (of_char c)" for c :: char
    using nat_of_char_less_256 [of c] unfolding is_surrogate_def by linarith
  ultimately show ?thesis
    by (auto simp: check_string_def codes_def nul_free_def list_ex_iff)
qed

lemma canonical_at_pstr [simp]: "canonical_at d (pstr s) \<longleftrightarrow> nul_free s"
  by (simp add: pstr_def check_string_codes)

lemma canonical_at_popt [simp]: "canonical_at d (popt f x) \<longleftrightarrow> pred_option (canonical_at d \<circ> f) x"
  by (cases x) (simp_all add: popt_def)

lemma canonical_at_pobj [simp]:
  "canonical_at d (pobj kvs) \<longleftrightarrow>
     d < 64 \<and> list_all (\<lambda>kv. nul_free (fst kv) \<and> canonical_at (Suc d) (snd kv)) kvs"
  by (simp add: pobj_def MAX_CANONICAL_JSON_DEPTH_def list.pred_map comp_def split_def check_string_codes)

lemma canonical_digest_ok: "is_ok (canonical_digest p dm) \<longleftrightarrow> canonical_at 0 p"
proof (cases "canonical_at 0 p")
  case True
  then obtain j where "to_json p = Some j" using canonical_to_json by blast
  with True show ?thesis
    by (simp add: canonical_digest_def reject_invalid_json_value_def reject_loop_iff [of "[(p, 0)]", simplified, THEN iffD2])
next
  case False
  then obtain e where "reject_loop [(p, 0)] = Some e"
    using reject_loop_iff [of "[(p, 0)]"] by auto
  with False show ?thesis by (simp add: canonical_digest_def reject_invalid_json_value_def)
qed

lemma hex_nul_free: "list_all is_hex_char s \<Longrightarrow> nul_free s"
  by (induction s) (auto simp: is_hex_char_def)

lemma nul_free_show_nat [simp]: "nul_free (show_nat n)"
  using show_nat_digits [of n] by (auto simp: nul_free_def list_all_iff is_digit_def)

lemma nul_free_show_int [simp]: "nul_free (show_int n)"
  by (simp add: show_int_def)

section \<open>The canonical text determines the value\<close>

lemma codes_append [simp]: "codes (s @ t) = codes s @ codes t"
  by (simp add: codes_def)

lemma codes_Nil [simp]: "codes [] = []"
  by (simp add: codes_def)

lemma codes_inject [simp]: "codes s = codes t \<longleftrightarrow> s = t"
  by (simp add: codes_def inj_map_eq_map inj_of_char)

lemma hex_digit_inj: "a < 16 \<Longrightarrow> b < 16 \<Longrightarrow> hex_digit a = hex_digit b \<Longrightarrow> a = b"
  by (auto simp: hex_digit_def split: if_splits dest: arg_cong[where f = "of_char :: char \<Rightarrow> nat"])

lemma hex_nat_inj: "m < 16 ^ k \<Longrightarrow> n < 16 ^ k \<Longrightarrow> hex_nat k m = hex_nat k n \<Longrightarrow> m = n"
proof (induction k arbitrary: m n)
  case 0
  then show ?case by simp
next
  case (Suc k)
  then have "m div 16 = n div 16" and "m mod 16 = n mod 16"
    by (auto simp: less_mult_imp_div_less mult.commute dest: hex_digit_inj[rotated 2])
  then show ?case by (metis div_mult_mod_eq)
qed

text \<open>What may follow a value inside a text: nothing, a comma or a closing bracket.\<close>

definition delimited :: "utext \<Rightarrow> bool" where
  "delimited r = (r = [] \<or> hd r \<in> {44, 93, 125})"

lemma delimited_Cons [simp]: "delimited (c # r) \<longleftrightarrow> c \<in> {44, 93, 125}"
  by (simp add: delimited_def)

definition short_escaped :: "nat set" where
  "short_escaped = {34, 92, 8, 9, 10, 12, 13}"

definition short_escape :: "nat \<Rightarrow> nat" where
  "short_escape c = escape_char c ! 1"

lemma escape_char_eq:
  "escape_char c =
     (if c \<in> short_escaped then [92, short_escape c]
      else if c < 32 then [92, 117, 48, 48] @ codes (hex_nat 2 c) else [c])"
  by (simp add: escape_char_def short_escaped_def short_escape_def)

lemma short_escape_not_u: "c \<in> short_escaped \<Longrightarrow> short_escape c \<noteq> 117"
  by (auto simp: short_escaped_def short_escape_def escape_char_def)

lemma inj_on_short_escape: "inj_on short_escape short_escaped"
  by (simp add: short_escaped_def short_escape_def escape_char_def)

lemma control_codes_inj:
  assumes "a < 32" "b < 32" "codes (hex_nat 2 a) @ x = codes (hex_nat 2 b) @ y"
  shows "a = b \<and> x = y"
  using assms hex_nat_inj[of a 2 b] by (simp add: codes_def inj_map_eq_map inj_of_char)

lemma backslash_short_escaped: "92 \<in> short_escaped"
  by (simp add: short_escaped_def)

lemma escape_char_prefix:
  assumes eq: "escape_char a @ x = escape_char b @ y"
  shows "a = b \<and> x = y"
proof (cases "a \<in> short_escaped")
  case a: True
  with eq have "b \<in> short_escaped"
    by (auto simp: escape_char_eq backslash_short_escaped short_escape_not_u split: if_splits)
  with a eq show ?thesis
    using inj_on_short_escape by (auto simp: escape_char_eq inj_on_def)
next
  case a: False
  show ?thesis
  proof (cases "b \<in> short_escaped")
    case True
    with a eq show ?thesis
      using short_escape_not_u[OF True]
      by (auto simp: escape_char_eq backslash_short_escaped split: if_splits)
  next
    case False
    with a eq show ?thesis
      using control_codes_inj[of a b x y] backslash_short_escaped
      by (auto simp: escape_char_eq split: if_splits)
  qed
qed

lemma escape_char_not_quote: "escape_char a @ x \<noteq> 34 # y"
  by (auto simp: escape_char_eq short_escaped_def)

lemma concat_escape_prefix:
  "concat (map escape_char s) @ 34 # x = concat (map escape_char t) @ 34 # y \<Longrightarrow> s = t \<and> x = y"
proof (induction s arbitrary: t)
  case Nil
  then show ?case
    using escape_char_not_quote by (cases t) (auto, metis append.assoc)
next
  case (Cons a s)
  show ?case
  proof (cases t)
    case Nil
    with Cons.prems escape_char_not_quote[of a "concat (map escape_char s) @ 34 # x" y] show ?thesis
      by simp
  next
    case (Cons b t')
    with Cons.prems escape_char_prefix[of a "concat (map escape_char s) @ 34 # x" b] Cons.IH[of t']
    show ?thesis by auto
  qed
qed

lemma dump_str_prefix: "dump_str s @ x = dump_str t @ y \<Longrightarrow> s = t \<and> x = y"
  using concat_escape_prefix[of s x t y] by (simp add: dump_str_def)

definition int_code :: "nat \<Rightarrow> bool" where
  "int_code c = (c = 45 \<or> (48 \<le> c \<and> c \<le> 57))"

lemma show_nat_codes: "list_all int_code (codes (show_nat n))"
  using show_nat_digits[of n]
  by (auto simp: list_all_iff codes_def int_code_def is_digit_def)

lemma show_int_codes: "list_all int_code (codes (show_int i))"
  using show_nat_codes by (auto simp: show_int_def codes_def int_code_def list_all_iff)

lemma show_nat_no_minus: "show_nat n \<noteq> CHR ''-'' # s"
  using show_nat_digits[of n] by (auto simp: list_all_iff is_digit_def)

lemma show_int_inject [simp]: "show_int i = show_int j \<longleftrightarrow> i = j"
  by (auto simp: show_int_def show_nat_no_minus show_nat_no_minus[symmetric] eq_nat_nat_iff)

lemma takeWhile_int_code:
  "delimited r \<Longrightarrow> takeWhile int_code (codes (show_int i) @ r) = codes (show_int i)"
  using show_int_codes[of i]
  by (cases r) (auto simp: list_all_iff takeWhile_append int_code_def)

lemma show_int_prefix:
  assumes "codes (show_int i) @ x = codes (show_int j) @ y" "delimited x" "delimited y"
  shows "i = j \<and> x = y"
proof -
  have "codes (show_int i) = codes (show_int j)"
    using takeWhile_int_code[OF assms(2), of i] takeWhile_int_code[OF assms(3), of j] assms(1)
    by simp
  with assms(1) show ?thesis by simp
qed

text \<open>What follows the first element of a rendered sequence.\<close>

definition after_first :: "('a \<Rightarrow> utext) \<Rightarrow> nat \<Rightarrow> 'a list \<Rightarrow> utext \<Rightarrow> utext" where
  "after_first f c us z = (if us = [] then c # z else 44 # join [44] (map f us) @ c # z)"

lemma join_first: "join [44] (map f (u # us)) @ c # z = f u @ after_first f c us z"
  by (cases us) (auto simp: after_first_def)

lemma delimited_after_first: "c = 93 \<or> c = 125 \<Longrightarrow> delimited (after_first f c us z)"
  by (auto simp: after_first_def)

lemma join_prefix:
  assumes "join [44] (map f vs) @ c # x = join [44] (map f ws) @ c # y"
    and c: "c = 93 \<or> c = 125"
    and "\<And>v w r r'. v \<in> set vs \<Longrightarrow> delimited r \<Longrightarrow> delimited r' \<Longrightarrow> f v @ r = f w @ r' \<Longrightarrow> v = w \<and> r = r'"
    and open_vs: "\<And>v r z. f v @ r \<noteq> c # z"
  shows "vs = ws \<and> x = y"
  using assms(1,3)
proof (induction vs arbitrary: ws)
  case Nil
  show ?case
  proof (cases ws)
    case Nil
    with Nil.prems show ?thesis by simp
  next
    case (Cons w ws')
    with Nil.prems open_vs[of w "after_first f c ws' y" x] show ?thesis
      using join_first[of f w ws' c y] by simp
  qed
next
  case (Cons v vs)
  note prems = Cons.prems and IH = Cons.IH
  obtain w ws' where ws: "ws = w # ws'"
    using prems(1) open_vs[of v "after_first f c vs x" y] join_first[of f v vs c x] by (cases ws) auto
  have "f v @ after_first f c vs x = f w @ after_first f c ws' y"
    using prems(1) ws join_first by metis
  then have v: "v = w" and rest: "after_first f c vs x = after_first f c ws' y"
    using prems(2)[of v "after_first f c vs x" "after_first f c ws' y" w] delimited_after_first[OF c]
    by auto
  have "vs = ws' \<and> x = y"
  proof (cases "vs = []")
    case True
    with rest c show ?thesis by (auto simp: after_first_def split: if_splits)
  next
    case False
    with rest c have "join [44] (map f vs) @ c # x = join [44] (map f ws') @ c # y"
      by (auto simp: after_first_def split: if_splits)
    then show ?thesis
      by (rule IH) (use prems(2) in auto)
  qed
  with ws v show ?case by simp
qed

definition dump_item :: "utext \<times> json \<Rightarrow> utext" where
  "dump_item kv = dump_str (fst kv) @ [58] @ dumps_raw (snd kv)"

lemma dumps_raw_JObj: "dumps_raw (JObj kvs) = [123] @ join [44] (map dump_item kvs) @ [125]"
  by (simp add: dump_item_def[abs_def])

text \<open>The first code of a rendered value tells its kind.\<close>

fun starts_with_code :: "json \<Rightarrow> nat \<Rightarrow> bool" where
  "starts_with_code JNull c = (c = 110)"
| "starts_with_code (JBool b) c = (c = (if b then 116 else 102))"
| "starts_with_code (JInt i) c = int_code c"
| "starts_with_code (JStr s) c = (c = 34)"
| "starts_with_code (JArr vs) c = (c = 91)"
| "starts_with_code (JObj kvs) c = (c = 123)"

lemma show_int_Cons: "\<exists>c t. codes (show_int i) = c # t \<and> int_code c"
  using show_int_codes[of i]
  by (cases "show_int i") (auto simp: codes_def list_all_iff show_int_def split: if_splits)

lemma dumps_raw_Cons: "\<exists>c t. dumps_raw v = c # t \<and> starts_with_code v c"
  using show_int_Cons[unfolded codes_def] by (cases v) (auto simp: dump_str_def codes_def)

lemma dumps_raw_first: "dumps_raw v @ r \<noteq> 93 # z" "dumps_raw v @ r \<noteq> 125 # z"
  using dumps_raw_Cons[of v] by (cases v; auto simp: int_code_def split: if_splits)+

lemma dump_item_first: "dump_item kv @ r \<noteq> 125 # z"
  by (simp add: dump_item_def dump_str_def)

lemma dumps_raw_prefix:
  "dumps_raw v @ x = dumps_raw w @ y \<Longrightarrow> delimited x \<Longrightarrow> delimited y \<Longrightarrow> v = w \<and> x = y"
proof (induction v arbitrary: w x y)
  case JNull
  then show ?case
    using dumps_raw_Cons[of w] by (cases w) (auto simp: codes_def int_code_def split: if_splits)
next
  case (JBool b)
  then show ?case
    using dumps_raw_Cons[of w] by (cases w) (auto simp: codes_def int_code_def split: if_splits)
next
  case (JInt i)
  then show ?case
    using dumps_raw_Cons[of w] show_int_Cons[of i]
    by (cases w) (auto dest: show_int_prefix simp: int_code_def split: if_splits)
next
  case (JStr t)
  then show ?case
    using dumps_raw_Cons[of w]
    by (cases w) (auto dest: concat_escape_prefix simp: int_code_def dump_str_def split: if_splits)
next
  case (JArr vs)
  then have "starts_with_code w 91" using dumps_raw_Cons[of w] by auto
  then obtain ws where w: "w = JArr ws" by (cases w) (auto simp: int_code_def split: if_splits)
  with JArr.prems have "join [44] (map dumps_raw vs) @ 93 # x = join [44] (map dumps_raw ws) @ 93 # y"
    by simp
  then have "vs = ws \<and> x = y"
    by (rule join_prefix) (use JArr.IH dumps_raw_first in auto)
  with w show ?case by simp
next
  case (JObj kvs)
  then have "starts_with_code w 123" using dumps_raw_Cons[of w] by auto
  then obtain kvs' where w: "w = JObj kvs'" by (cases w) (auto simp: int_code_def split: if_splits)
  with JObj.prems have "join [44] (map dump_item kvs) @ 125 # x = join [44] (map dump_item kvs') @ 125 # y"
    by (simp add: dump_item_def[abs_def])
  then have "kvs = kvs' \<and> x = y"
  proof (rule join_prefix)
    fix kv kv' r r'
    assume kv: "kv \<in> set kvs" and dl: "delimited r" "delimited r'"
      and eq: "dump_item kv @ r = dump_item kv' @ r'"
    from eq have "fst kv = fst kv' \<and> dumps_raw (snd kv) @ r = dumps_raw (snd kv') @ r'"
      using dump_str_prefix[of "fst kv" "58 # dumps_raw (snd kv) @ r" "fst kv'"]
      by (auto simp: dump_item_def)
    with JObj.IH[of kv "snd kv" r "snd kv'" r'] kv dl show "kv = kv' \<and> r = r'"
      by (cases kv; cases kv') auto
  qed (use dump_item_first in auto)
  with w show ?case by simp
qed

lemma dumps_raw_inject [simp]: "dumps_raw v = dumps_raw w \<longleftrightarrow> v = w"
  using dumps_raw_prefix[of v "[]" w "[]"] by (auto simp: delimited_def)

section \<open>The bytes determine the text\<close>

lemma utf8_char_class:
  "hd (utf8_char c) < 128 \<longleftrightarrow> c < 128"
  "hd (utf8_char c) < 224 \<longleftrightarrow> c < 2048"
  "hd (utf8_char c) < 240 \<longleftrightarrow> c < 65536"
proof -
  have "c < 2048 \<Longrightarrow> c div 64 < 32" "c < 65536 \<Longrightarrow> c div 4096 < 16" by simp_all
  then show "hd (utf8_char c) < 128 \<longleftrightarrow> c < 128" "hd (utf8_char c) < 224 \<longleftrightarrow> c < 2048"
    "hd (utf8_char c) < 240 \<longleftrightarrow> c < 65536"
    by (auto simp: utf8_char_def)
qed

lemma rebuild_code:
  "(c::nat) = c div 64 * 64 + c mod 64"
  "(c::nat) = (c div 4096 * 64 + c div 64 mod 64) * 64 + c mod 64"
  "(c::nat) = ((c div 262144 * 64 + c div 4096 mod 64) * 64 + c div 64 mod 64) * 64 + c mod 64"
proof -
  have d: "c div 4096 = c div 64 div 64" "c div 262144 = c div 4096 div 64"
    by (simp_all add: div_mult2_eq[symmetric])
  show "c = c div 64 * 64 + c mod 64" by simp
  show two: "c = (c div 4096 * 64 + c div 64 mod 64) * 64 + c mod 64"
    by (simp only: d div_mult_mod_eq)
  show "c = ((c div 262144 * 64 + c div 4096 mod 64) * 64 + c div 64 mod 64) * 64 + c mod 64"
    by (simp only: d(2) div_mult_mod_eq two[symmetric])
qed

lemma utf8_char_prefix:
  assumes "utf8_char a @ x = utf8_char b @ y"
  shows "a = b \<and> x = y"
proof -
  have "hd (utf8_char a) = hd (utf8_char b)"
    using arg_cong[OF assms, of hd] by (simp add: utf8_char_def split: if_splits)
  then have cls: "a < 128 \<longleftrightarrow> b < 128" "a < 2048 \<longleftrightarrow> b < 2048" "a < 65536 \<longleftrightarrow> b < 65536"
    using utf8_char_class by metis+
  consider "a < 128" | "\<not> a < 128" "a < 2048" | "\<not> a < 2048" "a < 65536" | "\<not> a < 65536"
    by linarith
  then show ?thesis
  proof cases
    case 1
    with assms cls show ?thesis by (simp add: utf8_char_def)
  next
    case 2
    with assms cls show ?thesis
      by (simp add: utf8_char_def) (metis rebuild_code(1))
  next
    case 3
    with assms cls show ?thesis
      by (simp add: utf8_char_def) (metis rebuild_code(2))
  next
    case 4
    with assms cls show ?thesis
      by (simp add: utf8_char_def) (metis rebuild_code(3))
  qed
qed

lemma utf8_char_not_Nil [simp]: "utf8_char c \<noteq> []"
  by (simp add: utf8_char_def)

lemma utf8_inject [simp]: "utf8 s = utf8 t \<longleftrightarrow> s = t"
proof
  show "utf8 s = utf8 t \<Longrightarrow> s = t"
  proof (induction s arbitrary: t)
    case Nil
    then show ?case by (cases t) (auto simp: utf8_def)
  next
    case (Cons a s)
    then obtain b t' where "t = b # t'" by (cases t) (auto simp: utf8_def)
    with Cons utf8_char_prefix[of a "utf8 s" b "utf8 t'"] show ?case by (simp add: utf8_def)
  qed
qed simp

lemma digest_preimage_inject:
  "digest_preimage d v = digest_preimage d' w \<longleftrightarrow> d = d' \<and> sort_keys v = sort_keys w"
proof
  assume eq: "digest_preimage d v = digest_preimage d' w"
  have "d = d'"
    using eq by (cases d; cases d') (auto simp: digest_preimage_def domain_text_def codes_def)
  with eq show "d = d' \<and> sort_keys v = sort_keys w"
    by (simp add: digest_preimage_def dumps_def)
qed (simp add: digest_preimage_def dumps_def)

end
