(* ===== verification/Delivery_Model.thy ===== *)
theory Delivery_Model
  imports Canonical_Json
begin

text \<open>
  The data of observable delivery, \<open>src/brain_v42/models/delivery.py\<close>: one record or datatype per
  pydantic class, with the class's field constraints and model validators as \<open>valid_\<dots>\<close>
  predicates (pydantic raises \<open>ValidationError\<close> where the predicate is false), and the identities,
  digests and content projection of that file and of \<open>models/delivery_hashes.py\<close>.

  Instants are microseconds since the epoch. A field typed \<open>AwareDatetime\<close> is an \<open>instant\<close>; a field
  typed \<open>datetime\<close> may also be naive and is a \<open>pydatetime\<close>. Strict integers are \<open>int\<close>.
\<close>

section \<open>Instants\<close>

type_synonym instant = int

datatype pydatetime = Naive int | Aware instant

fun is_aware :: "pydatetime \<Rightarrow> bool" where
  "is_aware (Aware _) = True"
| "is_aware (Naive _) = False"

fun moment :: "pydatetime \<Rightarrow> int" where
  "moment (Aware t) = t"
| "moment (Naive t) = t"

text \<open>\<open>datetime.isoformat()\<close> in UTC: the proleptic Gregorian date of a day count, then the time
  with its microseconds only when they are not zero.\<close>

definition civil_of_days :: "int \<Rightarrow> int \<times> int \<times> int" where
  "civil_of_days z =
     (let z' = z + 719468; era = z' div 146097; doe = z' mod 146097;
          yoe = (doe - doe div 1460 + doe div 36524 - doe div 146096) div 365;
          doy = doe - (365 * yoe + yoe div 4 - yoe div 100);
          mp = (5 * doy + 2) div 153;
          d = doy - (153 * mp + 2) div 5 + 1;
          m = (if mp < 10 then mp + 3 else mp - 9)
      in (yoe + era * 400 + (if m \<le> 2 then 1 else 0), m, d))"

fun pad_nat :: "nat \<Rightarrow> nat \<Rightarrow> string" where
  "pad_nat 0 n = []"
| "pad_nat (Suc k) n = pad_nat k (n div 10) @ [digit_char (n mod 10)]"

definition isoformat_utc :: "instant \<Rightarrow> string" where
  "isoformat_utc t =
     (let secs = t div 1000000; us = t mod 1000000; sod = secs mod 86400 in
      case civil_of_days (secs div 86400) of (y, m, d) \<Rightarrow>
        pad_nat 4 (nat y) @ ''-'' @ pad_nat 2 (nat m) @ ''-'' @ pad_nat 2 (nat d) @ ''T'' @
        pad_nat 2 (nat (sod div 3600)) @ '':'' @ pad_nat 2 (nat (sod div 60 mod 60)) @ '':'' @
        pad_nat 2 (nat (sod mod 60)) @
        (if us = 0 then [] else ''.'' @ pad_nat 6 (nat us)) @ ''+00:00'')"

section \<open>Field constraints\<close>

definition in_len :: "nat \<Rightarrow> nat \<Rightarrow> 'a list \<Rightarrow> bool" where
  "in_len lo hi s = (lo \<le> length s \<and> length s \<le> hi)"

definition opt_ok :: "('a \<Rightarrow> bool) \<Rightarrow> 'a option \<Rightarrow> bool" where
  "opt_ok p x = (case x of None \<Rightarrow> True | Some y \<Rightarrow> p y)"

definition is_lower :: "char \<Rightarrow> bool" where
  "is_lower c = (97 \<le> (of_char c :: nat) \<and> (of_char c :: nat) \<le> 122)"

definition is_alpha :: "char \<Rightarrow> bool" where
  "is_alpha c = (is_lower c \<or> (65 \<le> (of_char c :: nat) \<and> (of_char c :: nat) \<le> 90))"

text \<open>Surrogates cannot occur in the model's strings, so \<open>_reject_surrogates\<close> accepts them all; the
  canonical JSON layer checks them where texts are code points.\<close>

definition validate_sha :: "string \<Rightarrow> bool" where
  "validate_sha s = (list_all is_hex_char s \<and> (length s = 40 \<or> length s = 64))"

definition validate_digest :: "string \<Rightarrow> bool" where
  "validate_digest s = (list_all is_hex_char s \<and> length s = 64)"

definition validate_relative_path :: "string \<Rightarrow> bool" where
  "validate_relative_path s =
     (s \<noteq> [] \<and> \<not> startswith s ''/'' \<and> char_of (92::nat) \<notin> set s \<and>
      list_all (\<lambda>part. part \<notin> {'''', ''.'', ''..''}) (split_on (CHR ''/'') s))"

definition valid_key :: "string \<Rightarrow> bool" where
  "valid_key s = (case s of [] \<Rightarrow> False
     | c # cs \<Rightarrow> is_lower c \<and> length cs \<le> 63 \<and>
         list_all (\<lambda>x. is_lower x \<or> is_digit x \<or> x = CHR ''_'' \<or> x = CHR ''-'') cs)"

definition repository_part :: "string \<Rightarrow> bool" where
  "repository_part s = (case s of [] \<Rightarrow> False
     | c # cs \<Rightarrow> (is_alpha c \<or> is_digit c) \<and> length cs \<le> 99 \<and>
         list_all (\<lambda>x. is_alpha x \<or> is_digit x \<or> x = CHR ''.'' \<or> x = CHR ''_'' \<or> x = CHR ''-'') cs)"

definition valid_repository :: "string \<Rightarrow> bool" where
  "valid_repository s =
     (case split_on (CHR ''/'') s of [a, b] \<Rightarrow> repository_part a \<and> repository_part b | _ \<Rightarrow> False)"

section \<open>Contracts\<close>

datatype check_kind = CheckRun | CommitStatus

record required_check =
  rc_kind :: check_kind
  rc_name :: string
  rc_app_slug :: "string option"
  rc_provider_id :: "int option"

definition rc_selector :: "required_check \<Rightarrow> check_kind \<times> string \<times> string option \<times> int option" where
  "rc_selector c = (rc_kind c, rc_name c, rc_app_slug c, rc_provider_id c)"

definition valid_required_check :: "required_check \<Rightarrow> bool" where
  "valid_required_check c =
     (in_len 1 200 (rc_name c) \<and> opt_ok (in_len 1 200) (rc_app_slug c) \<and>
      opt_ok (\<lambda>i. 0 < i) (rc_provider_id c) \<and>
      \<not> (rc_app_slug c = None \<and> rc_provider_id c = None))"

record review_policy =
  rp_required_approvals :: int
  rp_allowed_reviewers :: "string list"

definition valid_review_policy :: "review_policy \<Rightarrow> bool" where
  "valid_review_policy p =
     (0 \<le> rp_required_approvals p \<and> rp_required_approvals p \<le> 100 \<and>
      length (rp_allowed_reviewers p) \<le> 200 \<and> distinct (rp_allowed_reviewers p))"

record deliverable =
  dl_key :: string
  dl_repository :: string
  dl_repository_id :: "int option"
  dl_target_branch :: string
  dl_required_checks :: "required_check list"
  dl_no_checks_reason :: "string option"
  dl_review :: review_policy

definition valid_deliverable :: "deliverable \<Rightarrow> bool" where
  "valid_deliverable d =
     (in_len 1 64 (dl_key d) \<and> valid_key (dl_key d) \<and>
      in_len 3 201 (dl_repository d) \<and> valid_repository (dl_repository d) \<and>
      opt_ok (\<lambda>i. 0 < i) (dl_repository_id d) \<and>
      in_len 1 255 (dl_target_branch d) \<and> validate_relative_path (dl_target_branch d) \<and>
      length (dl_required_checks d) \<le> 100 \<and> list_all valid_required_check (dl_required_checks d) \<and>
      opt_ok (in_len 1 2000) (dl_no_checks_reason d) \<and> valid_review_policy (dl_review d) \<and>
      \<not> (dl_required_checks d = [] \<and> dl_no_checks_reason d = None) \<and>
      distinct (map rc_selector (dl_required_checks d)))"

datatype entity_type = EDecision | ELearning | ESnippet | ERunbook | EAdr | EPlan

definition entity_type_text :: "entity_type \<Rightarrow> string" where
  "entity_type_text e = (case e of EDecision \<Rightarrow> ''decision'' | ELearning \<Rightarrow> ''learning''
     | ESnippet \<Rightarrow> ''snippet'' | ERunbook \<Rightarrow> ''runbook'' | EAdr \<Rightarrow> ''adr'' | EPlan \<Rightarrow> ''plan'')"

text \<open>\<open>PinnedContextReference\<close>: the discriminated union of the three stored reference classes.\<close>

datatype context_reference =
    PinnedBrainEntity (br_entity_type: entity_type) (br_entity_id: uuid) (ref_required: bool)
      (br_content_snapshot: string) (br_content_digest: string)
  | RepositoryDocument (rd_repository_id: int) (rd_sha: string) (rd_path: string) (ref_required: bool)
  | UrlReference (ur_url: string) (ref_required: bool)

definition is_repository_document :: "context_reference \<Rightarrow> bool" where
  "is_repository_document r = (case r of RepositoryDocument _ _ _ _ \<Rightarrow> True | _ \<Rightarrow> False)"

text \<open>\<open>urlparse\<close> accepts the two schemes followed by a non-empty authority.\<close>

text \<open>\<open>urlparse\<close> drops leading control characters and spaces and every tab and line break, and lowers the scheme. The
  validity of a bracketed address and the normalization check of a host outside ASCII are not modelled.\<close>

definition ascii_lower :: "char \<Rightarrow> char" where
  "ascii_lower c = (let n = (of_char c :: nat) in if 65 \<le> n \<and> n \<le> 90 then char_of (n + 32) else c)"

definition http_url :: "string \<Rightarrow> bool" where
  "http_url u =
     (let v = filter (\<lambda>c. (of_char c :: nat) \<notin> {9, 10, 13}) (dropWhile (\<lambda>c. (of_char c :: nat) \<le> 32) u);
          rest = (if map ascii_lower (take 7 v) = ''http://'' then drop 7 v
                  else if map ascii_lower (take 8 v) = ''https://'' then drop 8 v else []);
          netloc = takeWhile (\<lambda>c. c \<notin> {CHR ''/'', CHR ''?'', CHR ''#''}) rest
      in netloc \<noteq> [] \<and> (CHR ''['' \<in> set netloc \<longleftrightarrow> CHR '']'' \<in> set netloc))"

definition valid_context_reference :: "context_reference \<Rightarrow> bool" where
  "valid_context_reference r = (case r of
       PinnedBrainEntity _ _ _ snapshot digest \<Rightarrow> in_len 1 65536 snapshot \<and> validate_digest digest
     | RepositoryDocument rid sha path _ \<Rightarrow>
         0 < rid \<and> validate_sha sha \<and> in_len 1 4096 path \<and> validate_relative_path path
     | UrlReference url required \<Rightarrow> in_len 1 4096 url \<and> http_url url \<and> \<not> required)"

definition context_reference_identity :: "context_reference \<Rightarrow> string" where
  "context_reference_identity r = (case r of
       PinnedBrainEntity et eid _ _ _ \<Rightarrow> ''brain_entity:'' @ entity_type_text et @ '':'' @ eid
     | RepositoryDocument rid sha path _ \<Rightarrow>
         ''repository_document:'' @ show_int rid @ '':'' @ sha @ '':'' @ path
     | UrlReference url _ \<Rightarrow> ''url:'' @ url)"

definition context_reference_digest ::
    "context_reference \<Rightarrow> (canonical_error, string option) result" where
  "context_reference_digest r = (case r of
       PinnedBrainEntity _ _ _ _ digest \<Rightarrow> Inr (Some digest)
     | RepositoryDocument rid sha path _ \<Rightarrow>
         res_bind (canonical_digest (pobj [(''repository_id'', PInt rid), (''sha'', pstr sha),
           (''path'', pstr path)]) Result) (\<lambda>d. Inr (Some d))
     | UrlReference _ _ \<Rightarrow> Inr None)"

datatype milestone = Integrated | Accepted

definition milestone_text :: "milestone \<Rightarrow> string" where
  "milestone_text m = (case m of Integrated \<Rightarrow> ''integrated'' | Accepted \<Rightarrow> ''accepted'')"

type_synonym dependency_identity = "uuid \<times> int \<times> int \<times> milestone"

record delivery_dependency =
  dd_ticket_id :: uuid
  dd_contract_revision :: int
  dd_attempt :: int
  dd_milestone :: milestone

definition dd_identity :: "delivery_dependency \<Rightarrow> dependency_identity" where
  "dd_identity d = (dd_ticket_id d, dd_contract_revision d, dd_attempt d, dd_milestone d)"

datatype acceptance_mode = Automatic | Explicit

text \<open>\<open>created_at\<close> is kept as the JSON text pydantic renders it to: the sources only serialise it.\<close>

record contract_revision =
  cr_objective :: string
  cr_constraints :: "string list"
  cr_acceptance_criteria :: "string list"
  cr_priority :: int
  cr_context_refs :: "context_reference list"
  cr_dependencies :: "delivery_dependency list"
  cr_deliverables :: "deliverable list"
  cr_acceptance_mode :: acceptance_mode
  cr_ticket_id :: uuid
  cr_contract_revision :: int
  cr_content_digest :: "string option"
  cr_author_project :: string
  cr_created_at :: string
  cr_amendment_reason :: "string option"

section \<open>Canonical content of a contract\<close>

definition required_check_payload :: "required_check \<Rightarrow> pyval" where
  "required_check_payload c = pobj
     [(''kind'', pstr (case rc_kind c of CheckRun \<Rightarrow> ''check_run'' | CommitStatus \<Rightarrow> ''commit_status'')),
      (''name'', pstr (rc_name c)), (''app_slug'', popt pstr (rc_app_slug c)),
      (''provider_id'', popt PInt (rc_provider_id c))]"

text \<open>The \<open>repository\<close> name is dropped from the projection: the provider identity is what binds.\<close>

definition deliverable_payload :: "deliverable \<Rightarrow> pyval" where
  "deliverable_payload d = pobj
     [(''key'', pstr (dl_key d)), (''repository_id'', popt PInt (dl_repository_id d)),
      (''target_branch'', pstr (dl_target_branch d)),
      (''required_checks'', PList (map required_check_payload (dl_required_checks d))),
      (''no_checks_reason'', popt pstr (dl_no_checks_reason d)),
      (''review'', pobj [(''required_approvals'', PInt (rp_required_approvals (dl_review d))),
         (''allowed_reviewers'', PList (map pstr (rp_allowed_reviewers (dl_review d))))])]"

definition context_reference_payload :: "context_reference \<Rightarrow> pyval" where
  "context_reference_payload r = (case r of
       PinnedBrainEntity et eid req snap dig \<Rightarrow> pobj
         [(''kind'', pstr ''brain_entity''), (''entity_type'', pstr (entity_type_text et)),
          (''entity_id'', pstr eid), (''required'', PBool req),
          (''content_snapshot'', pstr snap), (''content_digest'', pstr dig)]
     | RepositoryDocument rid sha path req \<Rightarrow> pobj
         [(''kind'', pstr ''repository_document''), (''repository_id'', PInt rid),
          (''sha'', pstr sha), (''path'', pstr path), (''required'', PBool req)]
     | UrlReference url req \<Rightarrow> pobj
         [(''kind'', pstr ''url''), (''url'', pstr url), (''required'', PBool req)])"

definition dependency_payload :: "delivery_dependency \<Rightarrow> pyval" where
  "dependency_payload d = pobj
     [(''ticket_id'', pstr (dd_ticket_id d)), (''contract_revision'', PInt (dd_contract_revision d)),
      (''attempt'', PInt (dd_attempt d)), (''milestone'', pstr (milestone_text (dd_milestone d)))]"

datatype contract_error = RepositoryIdNotNormalized | ContractCanonical canonical_error

definition contract_content_payload :: "contract_revision \<Rightarrow> (contract_error, pyval) result" where
  "contract_content_payload c =
     (if list_ex (\<lambda>d. \<not> (\<exists>i. dl_repository_id d = Some i \<and> 0 < i)) (cr_deliverables c)
      then Inl RepositoryIdNotNormalized
      else Inr (pobj
        [(''schema_version'', PInt 1), (''objective'', pstr (cr_objective c)),
         (''constraints'', PList (map pstr (cr_constraints c))),
         (''acceptance_criteria'', PList (map pstr (cr_acceptance_criteria c))),
         (''priority'', PInt (cr_priority c)),
         (''context_refs'', PList (map context_reference_payload (cr_context_refs c))),
         (''dependencies'', PList (map dependency_payload (cr_dependencies c))),
         (''deliverables'', PList (map deliverable_payload (cr_deliverables c))),
         (''acceptance_mode'', pstr (case cr_acceptance_mode c of
            Automatic \<Rightarrow> ''automatic'' | Explicit \<Rightarrow> ''explicit''))]))"

definition contract_digest :: "contract_revision \<Rightarrow> (contract_error, string) result" where
  "contract_digest c =
     res_bind (contract_content_payload c) (\<lambda>p.
       case canonical_digest p Contract of Inl e \<Rightarrow> Inl (ContractCanonical e) | Inr d \<Rightarrow> Inr d)"

text \<open>The size limit is taken over the whole stored revision as it is dumped, the repository names and
  the fields that are not part of the content digest included.\<close>

definition MAX_CONTRACT_BYTES :: nat where
  "MAX_CONTRACT_BYTES = 256 * 1024"

definition deliverable_dump :: "deliverable \<Rightarrow> pyval" where
  "deliverable_dump d = (case deliverable_payload d of
       PMap kvs \<Rightarrow> PMap ((KStr (codes ''repository''), pstr (dl_repository d)) # kvs)
     | v \<Rightarrow> v)"

definition contract_dump :: "contract_revision \<Rightarrow> pyval" where
  "contract_dump c = pobj
     [(''schema_version'', PInt 1), (''objective'', pstr (cr_objective c)),
      (''constraints'', PList (map pstr (cr_constraints c))),
      (''acceptance_criteria'', PList (map pstr (cr_acceptance_criteria c))),
      (''priority'', PInt (cr_priority c)),
      (''context_refs'', PList (map context_reference_payload (cr_context_refs c))),
      (''dependencies'', PList (map dependency_payload (cr_dependencies c))),
      (''deliverables'', PList (map deliverable_dump (cr_deliverables c))),
      (''acceptance_mode'', pstr (case cr_acceptance_mode c of
         Automatic \<Rightarrow> ''automatic'' | Explicit \<Rightarrow> ''explicit'')),
      (''ticket_id'', pstr (cr_ticket_id c)), (''contract_revision'', PInt (cr_contract_revision c)),
      (''content_digest'', popt pstr (cr_content_digest c)),
      (''author_project'', pstr (cr_author_project c)), (''created_at'', pstr (cr_created_at c)),
      (''amendment_reason'', popt pstr (cr_amendment_reason c))]"

definition contract_size_ok :: "contract_revision \<Rightarrow> bool" where
  "contract_size_ok c = (case to_json (contract_dump c) of
       None \<Rightarrow> False | Some j \<Rightarrow> length (utf8 (dumps_raw j)) \<le> MAX_CONTRACT_BYTES)"

definition valid_contract_revision :: "contract_revision \<Rightarrow> bool" where
  "valid_contract_revision c =
     (in_len 1 8000 (cr_objective c) \<and> length (cr_constraints c) \<le> 200 \<and>
      length (cr_acceptance_criteria c) \<le> 200 \<and> 0 \<le> cr_priority c \<and> cr_priority c \<le> 10000 \<and>
      length (cr_context_refs c) \<le> 32 \<and> list_all valid_context_reference (cr_context_refs c) \<and>
      length (cr_dependencies c) \<le> 32 \<and>
      list_all (\<lambda>d. 0 < dd_contract_revision d \<and> 0 < dd_attempt d) (cr_dependencies c) \<and>
      in_len 1 20 (cr_deliverables c) \<and> list_all valid_deliverable (cr_deliverables c) \<and>
      distinct (map dl_key (cr_deliverables c)) \<and> distinct (map dd_identity (cr_dependencies c)) \<and>
      contract_size_ok c \<and>
      0 < cr_contract_revision c \<and> in_len 1 50 (cr_author_project c) \<and>
      opt_ok (in_len 1 4000) (cr_amendment_reason c) \<and>
      list_all (\<lambda>d. dl_repository_id d \<noteq> None) (cr_deliverables c) \<and>
      list_all (\<lambda>d. dd_ticket_id d \<noteq> cr_ticket_id c) (cr_dependencies c) \<and>
      \<not> (1 < cr_contract_revision c \<and> cr_amendment_reason c = None) \<and>
      opt_ok validate_digest (cr_content_digest c) \<and>
      (\<exists>d. contract_digest c = Inr d \<and> cr_content_digest c = Some d))"

section \<open>Bindings and provider evidence\<close>

datatype binding_state = BProposed | BObserved

record artifact_binding =
  ab_id :: uuid
  ab_ticket_id :: uuid
  ab_contract_revision :: int
  ab_attempt :: int
  ab_deliverable_key :: string
  ab_repository_id :: int
  ab_pr_number :: int
  ab_state :: binding_state
  ab_head_sha :: "string option"
  ab_base_sha :: "string option"
  ab_integration_sha :: "string option"
  ab_binding_version :: int

definition valid_artifact_binding :: "artifact_binding \<Rightarrow> bool" where
  "valid_artifact_binding b =
     (0 < ab_contract_revision b \<and> 0 < ab_attempt b \<and>
      in_len 1 64 (ab_deliverable_key b) \<and> valid_key (ab_deliverable_key b) \<and>
      0 < ab_repository_id b \<and> 0 < ab_pr_number b \<and> 0 < ab_binding_version b \<and>
      opt_ok validate_sha (ab_head_sha b) \<and> opt_ok validate_sha (ab_base_sha b) \<and>
      opt_ok validate_sha (ab_integration_sha b) \<and>
      (case ab_state b of
         BProposed \<Rightarrow> ab_head_sha b = None \<and> ab_base_sha b = None \<and> ab_integration_sha b = None
       | BObserved \<Rightarrow> ab_head_sha b \<noteq> None \<and> ab_base_sha b \<noteq> None))"

datatype conclusion = CSuccess | CFailure | CPending | CSkipped | CNeutral | CCancelled

definition conclusion_text :: "conclusion \<Rightarrow> string" where
  "conclusion_text c = (case c of CSuccess \<Rightarrow> ''success'' | CFailure \<Rightarrow> ''failure''
     | CPending \<Rightarrow> ''pending'' | CSkipped \<Rightarrow> ''skipped'' | CNeutral \<Rightarrow> ''neutral''
     | CCancelled \<Rightarrow> ''cancelled'')"

record check_attempt =
  ca_record_id :: int
  ca_provider_id :: int
  ca_kind :: check_kind
  ca_name :: string
  ca_app_slug :: "string option"
  ca_head_sha :: string
  ca_conclusion :: conclusion
  ca_started_at :: "instant option"
  ca_completed_at :: "instant option"
  ca_check_suite_id :: "int option"
  ca_record_url :: "string option"

definition valid_check_attempt :: "check_attempt \<Rightarrow> bool" where
  "valid_check_attempt c =
     (0 < ca_record_id c \<and> 0 < ca_provider_id c \<and> in_len 1 200 (ca_name c) \<and>
      opt_ok (in_len 1 200) (ca_app_slug c) \<and> validate_sha (ca_head_sha c) \<and>
      opt_ok (\<lambda>i. 0 < i) (ca_check_suite_id c) \<and> opt_ok (in_len 1 2048) (ca_record_url c))"

datatype review_decision = Approved | ChangesRequested | Dismissed | Commented

record review_evidence =
  rv_record_id :: int
  rv_provider_id :: int
  rv_reviewer :: string
  rv_head_sha :: string
  rv_decision :: review_decision
  rv_submitted_at :: instant
  rv_record_url :: "string option"

definition valid_review_evidence :: "review_evidence \<Rightarrow> bool" where
  "valid_review_evidence r =
     (0 < rv_record_id r \<and> 0 < rv_provider_id r \<and> in_len 1 200 (rv_reviewer r) \<and>
      validate_sha (rv_head_sha r) \<and> opt_ok (in_len 1 2048) (rv_record_url r))"

record synthetic_merge_association =
  sm_synthetic_sha :: string
  sm_head_sha :: string
  sm_base_sha :: string

definition valid_synthetic_merge :: "synthetic_merge_association \<Rightarrow> bool" where
  "valid_synthetic_merge m =
     (validate_sha (sm_synthetic_sha m) \<and> validate_sha (sm_head_sha m) \<and> validate_sha (sm_base_sha m))"

datatype pr_state = PrOpen | PrMerged | PrClosed

record pull_request_evidence =
  pe_provider_id :: int
  pe_repository_id :: int
  pe_pr_number :: int
  pe_author_id :: string
  pe_head_repository_id :: int
  pe_head_sha :: string
  pe_base_sha :: string
  pe_base_ref :: string
  pe_integration_sha :: "string option"
  pe_state :: pr_state
  pe_draft :: bool
  pe_mergeable :: "bool option"
  pe_complete :: bool
  pe_checks :: "check_attempt list"
  pe_reviews :: "review_evidence list"
  pe_synthetic_merges :: "synthetic_merge_association list"
  pe_integration_revision :: "string option"
  pe_collected_at :: pydatetime

definition valid_pull_request_evidence :: "pull_request_evidence \<Rightarrow> bool" where
  "valid_pull_request_evidence e =
     (0 < pe_provider_id e \<and> 0 < pe_repository_id e \<and> 0 < pe_pr_number e \<and>
      in_len 1 200 (pe_author_id e) \<and> 0 < pe_head_repository_id e \<and>
      validate_sha (pe_head_sha e) \<and> validate_sha (pe_base_sha e) \<and> in_len 1 255 (pe_base_ref e) \<and>
      opt_ok validate_sha (pe_integration_sha e) \<and> opt_ok validate_sha (pe_integration_revision e) \<and>
      length (pe_checks e) \<le> 2000 \<and> list_all valid_check_attempt (pe_checks e) \<and>
      length (pe_reviews e) \<le> 2000 \<and> list_all valid_review_evidence (pe_reviews e) \<and>
      length (pe_synthetic_merges e) \<le> 2000 \<and>
      list_all valid_synthetic_merge (pe_synthetic_merges e))"

definition SAFE_OBSERVATION_ERROR_CODES :: "string list" where
  "SAFE_OBSERVATION_ERROR_CODES =
     [''provider_forbidden'', ''provider_invalid_response'', ''provider_not_found'',
      ''provider_rate_limited'', ''provider_timeout'', ''provider_unavailable'',
      ''observer_internal_error'']"

datatype outcome = OutSuccess | OutError

text \<open>The interval fields are declared \<open>AwareDatetime\<close>; the evaluator tests their zone again, so the
  model keeps them as \<open>pydatetime\<close> and leaves awareness to the validity predicate.\<close>

record observation_confirmation =
  oc_id :: uuid
  oc_evidence :: "pull_request_evidence option"
  oc_collection_started_at :: pydatetime
  oc_collection_finished_at :: pydatetime
  oc_outcome :: outcome
  oc_error_code :: "string option"

definition interval_ok :: "pydatetime \<Rightarrow> pydatetime \<Rightarrow> bool" where
  "interval_ok started finished =
     (is_aware started \<and> is_aware finished \<and> moment started \<le> moment finished)"

definition valid_observation_confirmation :: "observation_confirmation \<Rightarrow> bool" where
  "valid_observation_confirmation c =
     ((case oc_outcome c of
         OutSuccess \<Rightarrow> oc_evidence c \<noteq> None \<and> oc_error_code c = None
       | OutError \<Rightarrow> oc_evidence c = None \<and>
           (\<exists>code \<in> set SAFE_OBSERVATION_ERROR_CODES. oc_error_code c = Some code)) \<and>
      opt_ok valid_pull_request_evidence (oc_evidence c) \<and>
      interval_ok (oc_collection_started_at c) (oc_collection_finished_at c))"

section \<open>Context evidence\<close>

datatype fact_status = FactAvailable | FactMissing | FactError

record repository_document_fact =
  rf_repository_id :: int
  rf_commit_sha :: string
  rf_path :: string
  rf_tree_sha :: "string option"
  rf_blob_sha :: "string option"
  rf_mode :: "string option"
  rf_status :: fact_status

definition rf_identity :: "repository_document_fact \<Rightarrow> int \<times> string \<times> string" where
  "rf_identity f = (rf_repository_id f, rf_commit_sha f, rf_path f)"

definition valid_repository_document_fact :: "repository_document_fact \<Rightarrow> bool" where
  "valid_repository_document_fact f =
     (0 < rf_repository_id f \<and> validate_sha (rf_commit_sha f) \<and>
      in_len 1 4096 (rf_path f) \<and> validate_relative_path (rf_path f) \<and>
      opt_ok validate_sha (rf_tree_sha f) \<and> opt_ok validate_sha (rf_blob_sha f) \<and>
      opt_ok (\<lambda>m. m = ''100644'' \<or> m = ''100755'') (rf_mode f) \<and>
      (rf_status f = FactAvailable \<longrightarrow>
         rf_tree_sha f \<noteq> None \<and> rf_blob_sha f \<noteq> None \<and> rf_mode f \<noteq> None))"

record repository_context_evidence =
  re_facts :: "repository_document_fact list"
  re_complete :: bool

definition valid_repository_context_evidence :: "repository_context_evidence \<Rightarrow> bool" where
  "valid_repository_context_evidence e =
     (length (re_facts e) \<le> 32 \<and> list_all valid_repository_document_fact (re_facts e) \<and>
      distinct (map rf_identity (re_facts e)) \<and>
      (re_complete e \<longrightarrow>
         re_facts e \<noteq> [] \<and> list_all (\<lambda>f. rf_status f = FactAvailable) (re_facts e)))"

record repository_context_confirmation =
  rcc_id :: uuid
  rcc_snapshot_id :: "uuid option"
  rcc_evidence :: "repository_context_evidence option"
  rcc_collection_started_at :: instant
  rcc_collection_finished_at :: instant
  rcc_outcome :: outcome
  rcc_error_code :: "string option"

definition valid_repository_context_confirmation :: "repository_context_confirmation \<Rightarrow> bool" where
  "valid_repository_context_confirmation c =
     ((case rcc_outcome c of
         OutSuccess \<Rightarrow> rcc_snapshot_id c \<noteq> None \<and> rcc_error_code c = None \<and>
           (case rcc_evidence c of None \<Rightarrow> False | Some e \<Rightarrow> re_complete e)
       | OutError \<Rightarrow> rcc_evidence c = None \<and> rcc_snapshot_id c = None \<and> rcc_error_code c \<noteq> None) \<and>
      opt_ok valid_repository_context_evidence (rcc_evidence c) \<and>
      opt_ok (in_len 1 100) (rcc_error_code c) \<and>
      rcc_collection_started_at c \<le> rcc_collection_finished_at c)"

datatype attempt_outcome = AttemptSuccess | AttemptError | AttemptNever

record binding_evidence =
  be_binding :: artifact_binding
  be_confirmation :: "observation_confirmation option"
  be_snapshot_id :: "uuid option"
  be_success_confirmation_id :: "uuid option"
  be_latest_attempt_confirmation_id :: "uuid option"
  be_last_attempt_at :: "pydatetime option"
  be_last_success_at :: "pydatetime option"
  be_last_attempt_outcome :: attempt_outcome

definition valid_binding_evidence :: "binding_evidence \<Rightarrow> bool" where
  "valid_binding_evidence e =
     (valid_artifact_binding (be_binding e) \<and>
      opt_ok valid_observation_confirmation (be_confirmation e) \<and>
      \<not> (be_last_attempt_outcome e = AttemptError \<and> be_latest_attempt_confirmation_id e = None))"

datatype context_status = CtxAvailable | CtxChanged | CtxMissing | CtxError

definition context_status_text :: "context_status \<Rightarrow> string" where
  "context_status_text s = (case s of CtxAvailable \<Rightarrow> ''available'' | CtxChanged \<Rightarrow> ''changed''
     | CtxMissing \<Rightarrow> ''missing'' | CtxError \<Rightarrow> ''error'')"

record context_predicate =
  cp_reference_identity :: string
  cp_current_digest :: "string option"
  cp_status :: context_status
  cp_snapshot_id :: "uuid option"
  cp_success_confirmation_id :: "uuid option"
  cp_latest_attempt_confirmation_id :: "uuid option"
  cp_collection_started_at :: "pydatetime option"
  cp_collection_finished_at :: "pydatetime option"
  cp_last_attempt_at :: "pydatetime option"
  cp_last_success_at :: "pydatetime option"
  cp_evidence :: "repository_context_evidence option"

definition repository_proof_is_explicit :: "context_predicate \<Rightarrow> bool" where
  "repository_proof_is_explicit p =
     (if \<not> startswith (cp_reference_identity p) ''repository_document:'' then True
      else if cp_status p = CtxError \<and> cp_latest_attempt_confirmation_id p = None then False
      else if cp_status p \<noteq> CtxAvailable then True
      else cp_current_digest p \<noteq> None \<and> cp_snapshot_id p \<noteq> None \<and>
        cp_success_confirmation_id p \<noteq> None \<and> cp_latest_attempt_confirmation_id p \<noteq> None \<and>
        (case cp_evidence p of None \<Rightarrow> False | Some e \<Rightarrow> re_complete e) \<and>
        (case (cp_collection_started_at p, cp_collection_finished_at p) of
           (Some s, Some f) \<Rightarrow> interval_ok s f | _ \<Rightarrow> False))"

definition valid_context_predicate :: "context_predicate \<Rightarrow> bool" where
  "valid_context_predicate p =
     (in_len 1 5000 (cp_reference_identity p) \<and> opt_ok validate_digest (cp_current_digest p) \<and>
      opt_ok valid_repository_context_evidence (cp_evidence p) \<and> repository_proof_is_explicit p)"

section \<open>Receipts\<close>

datatype issuer_kind = Observer | Requester

record receipt_issuer =
  ri_issuer_project :: string
  ri_issuer_identity :: string
  ri_issuer_kind :: issuer_kind

record explicit_acceptance_decision =
  ea_requester_project :: string
  ea_rationale :: string

definition valid_explicit_acceptance :: "explicit_acceptance_decision \<Rightarrow> bool" where
  "valid_explicit_acceptance d =
     (in_len 1 50 (ea_requester_project d) \<and> in_len 1 4000 (ea_rationale d) \<and>
      strip (ea_rationale d) \<noteq> [])"

record frozen_artifact_proof =
  fa_binding_id :: uuid
  fa_binding_version :: int
  fa_deliverable_key :: string
  fa_repository_id :: int
  fa_pr_number :: int
  fa_head_sha :: string
  fa_base_sha :: string
  fa_integration_sha :: "string option"
  fa_integration_revision :: "string option"
  fa_snapshot_id :: uuid
  fa_snapshot_digest :: string
  fa_success_confirmation_id :: uuid
  fa_latest_attempt_confirmation_id :: uuid
  fa_collection_started_at :: instant
  fa_collection_finished_at :: instant

definition valid_frozen_artifact_proof :: "frozen_artifact_proof \<Rightarrow> bool" where
  "valid_frozen_artifact_proof p =
     (0 < fa_binding_version p \<and> in_len 1 64 (fa_deliverable_key p) \<and> 0 < fa_repository_id p \<and>
      0 < fa_pr_number p \<and> validate_sha (fa_head_sha p) \<and> validate_sha (fa_base_sha p) \<and>
      opt_ok validate_sha (fa_integration_sha p) \<and> opt_ok validate_sha (fa_integration_revision p) \<and>
      validate_digest (fa_snapshot_digest p) \<and>
      \<not> (fa_integration_sha p = None \<and> fa_integration_revision p = None) \<and>
      fa_success_confirmation_id p = fa_latest_attempt_confirmation_id p \<and>
      fa_collection_started_at p \<le> fa_collection_finished_at p)"

record frozen_brain_context_proof =
  fb_reference_identity :: string
  fb_pinned_digest :: string
  fb_current_digest :: string

definition valid_frozen_brain_context_proof :: "frozen_brain_context_proof \<Rightarrow> bool" where
  "valid_frozen_brain_context_proof p =
     (in_len 1 5000 (fb_reference_identity p) \<and> validate_digest (fb_pinned_digest p) \<and>
      validate_digest (fb_current_digest p) \<and>
      startswith (fb_reference_identity p) ''brain_entity:'' \<and>
      fb_pinned_digest p = fb_current_digest p)"

record frozen_repository_context_proof =
  fr_reference_identity :: string
  fr_required :: bool
  fr_expected_digest :: string
  fr_current_digest :: string
  fr_snapshot_id :: uuid
  fr_snapshot_digest :: string
  fr_success_confirmation_id :: uuid
  fr_latest_attempt_confirmation_id :: uuid
  fr_collection_started_at :: instant
  fr_collection_finished_at :: instant

definition valid_frozen_repository_context_proof :: "frozen_repository_context_proof \<Rightarrow> bool" where
  "valid_frozen_repository_context_proof p =
     (in_len 1 5000 (fr_reference_identity p) \<and> validate_digest (fr_expected_digest p) \<and>
      validate_digest (fr_current_digest p) \<and> validate_digest (fr_snapshot_digest p) \<and>
      startswith (fr_reference_identity p) ''repository_document:'' \<and>
      fr_success_confirmation_id p = fr_latest_attempt_confirmation_id p \<and>
      fr_collection_started_at p \<le> fr_collection_finished_at p \<and>
      (fr_required p \<longrightarrow> fr_expected_digest p = fr_current_digest p))"

record frozen_receipt_proof =
  fp_ticket_id :: uuid
  fp_contract_revision :: int
  fp_contract_digest :: string
  fp_attempt :: int
  fp_workflow_version :: int
  fp_delivery_digest :: string
  fp_assessment_id :: string
  fp_decision_time :: instant
  fp_artifact_proofs :: "frozen_artifact_proof list"
  fp_brain_context_proofs :: "frozen_brain_context_proof list"
  fp_repository_context_proofs :: "frozen_repository_context_proof list"
  fp_upstream_receipt_ids :: "uuid list"
  fp_issuer :: receipt_issuer
  fp_acceptance_basis :: "acceptance_mode option"
  fp_explicit_acceptance :: "explicit_acceptance_decision option"

definition complete_frozen_identity :: "frozen_receipt_proof \<Rightarrow> bool" where
  "complete_frozen_identity p =
     (distinct (map fa_binding_id (fp_artifact_proofs p)) \<and>
      distinct (map fb_reference_identity (fp_brain_context_proofs p) @
                map fr_reference_identity (fp_repository_context_proofs p)) \<and>
      distinct (fp_upstream_receipt_ids p) \<and>
      list_all (\<lambda>a. fa_collection_finished_at a \<le> fp_decision_time p) (fp_artifact_proofs p) \<and>
      list_all (\<lambda>r. fr_collection_finished_at r \<le> fp_decision_time p)
        (fp_repository_context_proofs p) \<and>
      (if fp_acceptance_basis p = Some Explicit then
         (case fp_explicit_acceptance p of
            None \<Rightarrow> False
          | Some d \<Rightarrow> ri_issuer_kind (fp_issuer p) = Requester \<and>
              ri_issuer_project (fp_issuer p) = ea_requester_project d)
       else fp_explicit_acceptance p = None))"

definition valid_frozen_receipt_proof :: "frozen_receipt_proof \<Rightarrow> bool" where
  "valid_frozen_receipt_proof p =
     (0 < fp_contract_revision p \<and> validate_digest (fp_contract_digest p) \<and> 0 < fp_attempt p \<and>
      0 < fp_workflow_version p \<and> validate_digest (fp_delivery_digest p) \<and>
      validate_digest (fp_assessment_id p) \<and>
      in_len 1 20 (fp_artifact_proofs p) \<and> list_all valid_frozen_artifact_proof (fp_artifact_proofs p) \<and>
      length (fp_brain_context_proofs p) \<le> 32 \<and>
      list_all valid_frozen_brain_context_proof (fp_brain_context_proofs p) \<and>
      length (fp_repository_context_proofs p) \<le> 32 \<and>
      list_all valid_frozen_repository_context_proof (fp_repository_context_proofs p) \<and>
      length (fp_upstream_receipt_ids p) \<le> 32 \<and>
      in_len 1 50 (ri_issuer_project (fp_issuer p)) \<and>
      in_len 1 200 (ri_issuer_identity (fp_issuer p)) \<and>
      opt_ok valid_explicit_acceptance (fp_explicit_acceptance p) \<and>
      complete_frozen_identity p)"

datatype receipt_milestone = IntegrationReceipt | FulfilledReceipt

record milestone_receipt =
  mr_id :: uuid
  mr_ticket_id :: uuid
  mr_milestone :: receipt_milestone
  mr_contract_revision :: int
  mr_attempt :: int
  mr_contract_digest :: string
  mr_delivery_digest :: string
  mr_issued_at :: instant
  mr_acceptance_basis :: "acceptance_mode option"
  mr_explicit_acceptance :: "explicit_acceptance_decision option"
  mr_proof :: frozen_receipt_proof

definition valid_receipt_basis :: "milestone_receipt \<Rightarrow> bool" where
  "valid_receipt_basis r =
     (let p = mr_proof r in
      mr_ticket_id r = fp_ticket_id p \<and> mr_contract_revision r = fp_contract_revision p \<and>
      mr_attempt r = fp_attempt p \<and> mr_contract_digest r = fp_contract_digest p \<and>
      mr_delivery_digest r = fp_delivery_digest p \<and> mr_issued_at r = fp_decision_time p \<and>
      mr_acceptance_basis r = fp_acceptance_basis p \<and>
      mr_explicit_acceptance r = fp_explicit_acceptance p \<and>
      (case mr_milestone r of
         IntegrationReceipt \<Rightarrow> mr_acceptance_basis r = None \<and> mr_explicit_acceptance r = None \<and>
           ri_issuer_kind (fp_issuer p) = Observer
       | FulfilledReceipt \<Rightarrow>
           (case mr_acceptance_basis r of
              Some Automatic \<Rightarrow> mr_explicit_acceptance r = None \<and> ri_issuer_kind (fp_issuer p) = Observer
            | Some Explicit \<Rightarrow> mr_explicit_acceptance r \<noteq> None
            | None \<Rightarrow> False)))"

definition valid_milestone_receipt :: "milestone_receipt \<Rightarrow> bool" where
  "valid_milestone_receipt r =
     (0 < mr_contract_revision r \<and> 0 < mr_attempt r \<and> validate_digest (mr_contract_digest r) \<and>
      validate_digest (mr_delivery_digest r) \<and> valid_frozen_receipt_proof (mr_proof r) \<and>
      valid_receipt_basis r)"

section \<open>Attestations\<close>

definition MAX_ATTESTATION_PAYLOAD_BYTES :: nat where
  "MAX_ATTESTATION_PAYLOAD_BYTES = 65536"

definition canonical_attestation_payload :: "pyval \<Rightarrow> (canonical_error, bytes) result" where
  "canonical_attestation_payload v =
     (case v of
        PMap _ \<Rightarrow>
          (case reject_invalid_json_value v of
             Some e \<Rightarrow> Inl e
           | None \<Rightarrow>
               (case to_json v of
                  None \<Rightarrow> Inl UnsupportedValueType
                | Some j \<Rightarrow>
                    let encoded = utf8 (dumps j) in
                    if MAX_ATTESTATION_PAYLOAD_BYTES < length encoded then Inl TooLarge
                    else Inr encoded))
      | _ \<Rightarrow> Inl MustBeObject)"

definition attestation_kind_ok :: "string \<Rightarrow> bool" where
  "attestation_kind_ok s = (case s of [] \<Rightarrow> False
     | c # cs \<Rightarrow> is_lower c \<and> length cs \<le> 63 \<and>
         list_all (\<lambda>x. is_lower x \<or> is_digit x \<or> x = CHR ''_'') cs)"

section \<open>Evaluation facts and assessments\<close>

datatype disposition = DActive | DFulfilled | DCancelled | DWontfix

definition disposition_text :: "disposition \<Rightarrow> string" where
  "disposition_text d = (case d of DActive \<Rightarrow> ''active'' | DFulfilled \<Rightarrow> ''fulfilled''
     | DCancelled \<Rightarrow> ''cancelled'' | DWontfix \<Rightarrow> ''wontfix'')"

record dependency_predicate =
  dp_ticket_id :: uuid
  dp_contract_revision :: int
  dp_attempt :: int
  dp_milestone :: milestone
  dp_current_contract_revision :: int
  dp_current_attempt :: int
  dp_current_contract_digest :: string
  dp_current_delivery_digest :: string
  dp_current_disposition :: disposition
  dp_receipt :: "milestone_receipt option"

definition valid_dependency_predicate :: "dependency_predicate \<Rightarrow> bool" where
  "valid_dependency_predicate d =
     (0 < dp_contract_revision d \<and> 0 < dp_attempt d \<and> 0 < dp_current_contract_revision d \<and>
      0 < dp_current_attempt d \<and> validate_digest (dp_current_contract_digest d) \<and>
      validate_digest (dp_current_delivery_digest d) \<and> opt_ok valid_milestone_receipt (dp_receipt d))"

record claim_state =
  cs_epoch :: int
  cs_owner :: "string option"
  cs_expires_at :: "pydatetime option"

definition valid_claim_state :: "claim_state \<Rightarrow> bool" where
  "valid_claim_state c = (0 \<le> cs_epoch c \<and> opt_ok (in_len 1 200) (cs_owner c))"

datatype completion_action =
  CrossResolve | CrossConfirm | SelfResolvePending | SelfResolve | SelfConfirm

definition completion_action_text :: "completion_action \<Rightarrow> string" where
  "completion_action_text a = (case a of CrossResolve \<Rightarrow> ''cross_resolve''
     | CrossConfirm \<Rightarrow> ''cross_confirm'' | SelfResolvePending \<Rightarrow> ''self_resolve_pending''
     | SelfResolve \<Rightarrow> ''self_resolve'' | SelfConfirm \<Rightarrow> ''self_confirm'')"

record evaluation_input =
  ei_contract :: contract_revision
  ei_attempt :: int
  ei_workflow_version :: int
  ei_coordination_status :: string
  ei_coordination_disposition :: disposition
  ei_is_self_ticket :: bool
  ei_active_bindings :: "binding_evidence list"
  ei_contexts :: "context_predicate list"
  ei_dependencies :: "dependency_predicate list"
  ei_integration_receipt :: "milestone_receipt option"
  ei_fulfillment_receipt :: "milestone_receipt option"
  ei_feature_enabled :: bool
  ei_freshness_seconds :: int
  ei_claim :: "claim_state option"
  ei_requested_completion_action :: "completion_action option"

definition valid_evaluation_input :: "evaluation_input \<Rightarrow> bool" where
  "valid_evaluation_input i =
     (valid_contract_revision (ei_contract i) \<and> 0 < ei_attempt i \<and> 0 < ei_workflow_version i \<and>
      in_len 1 50 (ei_coordination_status i) \<and>
      length (ei_active_bindings i) \<le> 20 \<and> list_all valid_binding_evidence (ei_active_bindings i) \<and>
      length (ei_contexts i) \<le> 32 \<and> list_all valid_context_predicate (ei_contexts i) \<and>
      length (ei_dependencies i) \<le> 32 \<and>
      list_all valid_dependency_predicate (ei_dependencies i) \<and>
      opt_ok valid_milestone_receipt (ei_integration_receipt i) \<and>
      opt_ok valid_milestone_receipt (ei_fulfillment_receipt i) \<and>
      1 \<le> ei_freshness_seconds i \<and> ei_freshness_seconds i \<le> 86400 \<and>
      opt_ok valid_claim_state (ei_claim i))"

record delivery_finding =
  df_code :: string
  df_deliverable_key :: "string option"
  df_detail :: string

datatype work_kind = WImplement | WRepair | WReview | WIntegrate | WAccept

definition work_kind_text :: "work_kind \<Rightarrow> string" where
  "work_kind_text w = (case w of WImplement \<Rightarrow> ''implement'' | WRepair \<Rightarrow> ''repair''
     | WReview \<Rightarrow> ''review'' | WIntegrate \<Rightarrow> ''integrate'' | WAccept \<Rightarrow> ''accept'')"

datatype work_role = ExecutorRole | RequesterRole

record eligible_work =
  ew_kind :: work_kind
  ew_role :: work_role

datatype delivery_stage = AwaitingArtifact | StageProposed | StageVerified | StageIntegrated

datatype health = NeverObserved | Fresh | Stale | HealthError | HealthDisabled

definition health_text :: "health \<Rightarrow> string" where
  "health_text h = (case h of NeverObserved \<Rightarrow> ''never_observed'' | Fresh \<Rightarrow> ''fresh''
     | Stale \<Rightarrow> ''stale'' | HealthError \<Rightarrow> ''error'' | HealthDisabled \<Rightarrow> ''disabled'')"

datatype acceptance_state = NotRequired | AcceptancePending | AcceptanceAccepted | Superseded

record delivery_assessment =
  as_assessment_id :: string
  as_assessment_version :: int
  as_assessed_at :: instant
  as_observed_at :: "instant option"
  as_fresh_until :: "instant option"
  as_coordination_status :: string
  as_delivery_stage :: delivery_stage
  as_observation_health :: health
  as_acceptance_state :: acceptance_state
  as_requirements_satisfied :: bool
  as_integration_receipt_eligible :: bool
  as_completion_eligible_now :: bool
  as_contract_fulfilled :: bool
  as_delivery_digest :: string
  as_blockers :: "delivery_finding list"
  as_deliverables :: "delivery_finding list"
  as_eligible_work :: "eligible_work list"

section \<open>List filters and summaries\<close>

record delivery_list_filters =
  lf_work :: "work_kind option"
  lf_blocker :: "string option"
  lf_stage :: "delivery_stage option"
  lf_ticket_id :: "uuid option"

definition filters_match :: "delivery_list_filters \<Rightarrow> delivery_assessment \<Rightarrow> bool" where
  "filters_match f a =
     (opt_ok (\<lambda>w. list_ex (\<lambda>x. ew_kind x = w) (as_eligible_work a)) (lf_work f) \<and>
      opt_ok (\<lambda>c. list_ex (\<lambda>x. df_code x = c) (as_blockers a)) (lf_blocker f) \<and>
      opt_ok (\<lambda>s. as_delivery_stage a = s) (lf_stage f))"

record delivery_view =
  vw_contract :: contract_revision
  vw_assessment :: delivery_assessment
  vw_bindings :: "binding_evidence list"
  vw_contexts :: "context_predicate list"
  vw_integration_receipt :: "milestone_receipt option"
  vw_fulfillment_receipt :: "milestone_receipt option"

record delivery_binding_summary =
  bs_deliverable_key :: string
  bs_repository_id :: int
  bs_pr_number :: int
  bs_state :: binding_state
  bs_head_sha :: "string option"
  bs_last_success_at :: "pydatetime option"
  bs_last_attempt_outcome :: attempt_outcome

text \<open>The assessment fields a summary copies are kept together as \<open>su_core\<close>: the assessment with
  its two finding lists emptied, since \<open>summarize_view\<close> copies every field but those two.\<close>

record delivery_summary =
  su_ticket_id :: uuid
  su_contract_revision :: int
  su_author_project :: string
  su_core :: delivery_assessment
  su_blockers :: "(string \<times> string option) list"
  su_blockers_omitted :: int
  su_bindings :: "delivery_binding_summary list"
  su_context_count :: nat
  su_contexts_available :: nat
  su_integration_receipt_id :: "uuid option"
  su_fulfillment_receipt_id :: "uuid option"
  su_view :: "delivery_view option"

definition summarize_binding :: "binding_evidence \<Rightarrow> delivery_binding_summary" where
  "summarize_binding e = (let b = be_binding e in
     \<lparr>bs_deliverable_key = ab_deliverable_key b, bs_repository_id = ab_repository_id b,
      bs_pr_number = ab_pr_number b, bs_state = ab_state b, bs_head_sha = ab_head_sha b,
      bs_last_success_at = be_last_success_at e,
      bs_last_attempt_outcome = be_last_attempt_outcome e\<rparr>)"

definition summarize_view :: "delivery_view \<Rightarrow> bool \<Rightarrow> delivery_summary" where
  "summarize_view v include_view = (let a = vw_assessment v in
     \<lparr>su_ticket_id = cr_ticket_id (vw_contract v),
      su_contract_revision = cr_contract_revision (vw_contract v),
      su_author_project = cr_author_project (vw_contract v),
      su_core = a\<lparr>as_blockers := [], as_deliverables := []\<rparr>,
      su_blockers = map (\<lambda>f. (df_code f, df_deliverable_key f)) (take 32 (as_blockers a)),
      su_blockers_omitted = max (int (length (as_blockers a)) - 32) 0,
      su_bindings = map summarize_binding (vw_bindings v),
      su_context_count = length (vw_contexts v),
      su_contexts_available = length (filter (\<lambda>p. cp_status p = CtxAvailable) (vw_contexts v)),
      su_integration_receipt_id = map_option mr_id (vw_integration_receipt v),
      su_fulfillment_receipt_id = map_option mr_id (vw_fulfillment_receipt v),
      su_view = (if include_view then Some v else None)\<rparr>)"

section \<open>The digest of a delivery\<close>

definition current_evidence :: "binding_evidence \<Rightarrow> pull_request_evidence option" where
  "current_evidence e = (case be_confirmation e of None \<Rightarrow> None | Some c \<Rightarrow> oc_evidence c)"

definition delivery_binding_payload :: "binding_evidence \<Rightarrow> pyval" where
  "delivery_binding_payload item = (let b = be_binding item; ev = current_evidence item in pobj
     [(''key'', pstr (ab_deliverable_key b)), (''binding_id'', pstr (ab_id b)),
      (''repository_id'', PInt (ab_repository_id b)), (''pr_number'', PInt (ab_pr_number b)),
      (''head_sha'', (case ev of Some e \<Rightarrow> pstr (pe_head_sha e) | None \<Rightarrow> popt pstr (ab_head_sha b))),
      (''base_sha'', (case ev of Some e \<Rightarrow> pstr (pe_base_sha e) | None \<Rightarrow> popt pstr (ab_base_sha b))),
      (''integration'', (case ev of
         Some e \<Rightarrow> pobj [(''sha'', popt pstr (pe_integration_sha e)),
                         (''revision'', popt pstr (pe_integration_revision e))]
       | None \<Rightarrow> PNone))])"

definition delivery_payload :: "string \<Rightarrow> int \<Rightarrow> binding_evidence list \<Rightarrow> pyval" where
  "delivery_payload digest attempt bindings = pobj
     [(''contract_digest'', pstr digest), (''attempt'', PInt attempt),
      (''bindings'', PList (map delivery_binding_payload
         (sort_key (\<lambda>e. ab_deliverable_key (be_binding e)) bindings)))]"

definition delivery_digest ::
    "string \<Rightarrow> int \<Rightarrow> binding_evidence list \<Rightarrow> (canonical_error, string) result" where
  "delivery_digest digest attempt bindings =
     canonical_digest (delivery_payload digest attempt bindings) Result"

section \<open>Texts of the model\<close>

lemma canonical_digest_Inr:
  "canonical_digest p dm = Inr s \<Longrightarrow> validate_digest s"
  by (auto simp: canonical_digest_def validate_digest_def length_sha256_hex sha256_hex_chars split: option.splits)

lemma nul_free_pad_nat [simp]: "nul_free (pad_nat k n)"
proof (induction k n rule: pad_nat.induct)
  case (2 k n)
  have "is_digit c \<Longrightarrow> c \<noteq> CHR 0x00" for c by (auto simp: is_digit_def)
  then have "digit_char (n mod 10) \<noteq> CHR 0x00" by simp
  with 2 show ?case by simp
qed simp

lemma nul_free_isoformat [simp]: "nul_free (isoformat_utc t)"
  by (simp add: isoformat_utc_def Let_def split: prod.splits)

end
