(* ===== verification/Delivery_Evaluator.thy ===== *)
theory Delivery_Evaluator
  imports Delivery_Model
begin

text \<open>
  The delivery evaluator, \<open>src/brain_v42/models/delivery_evaluator.py\<close>, function by function: the
  observation health, the findings on deliverables, contexts and dependencies, the stage, the
  receipts that match, the work that can be claimed, the assessment identity and
  \<open>evaluate_delivery\<close>.

  The parameter \<open>local_utc\<close> is the zone of the process: \<open>astimezone\<close> reads a naive datetime in it.
  The evaluator raises on a naive \<open>now\<close>, on a contract without its digest, on a claim whose expiry is
  naive (Python refuses the comparison) and on payload texts outside the canonical domain.
\<close>

section \<open>Vocabulary\<close>

definition DELIVERY_FINDING_CODES :: "string list" where
  "DELIVERY_FINDING_CODES =
     [''base_mismatch'', ''binding_identity_invalid'', ''binding_identity_mismatch'',
      ''binding_missing'', ''binding_unobserved'', ''check_cancelled'', ''check_failed'',
      ''check_missing'', ''check_neutral'', ''check_pending'', ''check_skipped'',
      ''completion_action_invalid'', ''context_changed'', ''context_digest_missing'',
      ''context_error'', ''context_missing'', ''context_predicate_duplicate'',
      ''context_predicate_missing'', ''context_predicate_unexpected'', ''context_proof_invalid'',
      ''delivery_disabled'', ''delivery_disposition_terminal'', ''delivery_terminal'',
      ''dependency_generation_mismatch'', ''dependency_predicate_duplicate'',
      ''dependency_predicate_missing'', ''dependency_predicate_unexpected'',
      ''dependency_receipt_mismatch'', ''dependency_receipt_missing'', ''dependency_unsuccessful'',
      ''head_mismatch'', ''integration_identity_missing'', ''merge_conflict'',
      ''mergeability_unknown'', ''observation_error'', ''observation_incomplete'',
      ''observation_missing'', ''observation_stale'', ''pr_draft'', ''pr_not_merged'',
      ''reopen_required'', ''review_approval_missing'', ''review_changes_requested'']"

definition TECHNICAL_CHECK_CODES :: "string list" where
  "TECHNICAL_CHECK_CODES =
     [''binding_missing'', ''binding_unobserved'', ''observation_incomplete'', ''head_mismatch'',
      ''base_mismatch'', ''check_missing'', ''check_pending'', ''check_failed'', ''check_skipped'',
      ''check_neutral'', ''check_cancelled'', ''review_changes_requested'',
      ''review_approval_missing'', ''pr_draft'', ''pr_not_merged'']"

datatype eval_error = NaiveNow | MissingContentDigest | EvalCanonical canonical_error | NaiveComparison

definition lift_canonical :: "(canonical_error, 'a) result \<Rightarrow> (eval_error, 'a) result" where
  "lift_canonical r = (case r of Inl e \<Rightarrow> Inl (EvalCanonical e) | Inr x \<Rightarrow> Inr x)"

definition utc_of :: "(int \<Rightarrow> instant) \<Rightarrow> pydatetime \<Rightarrow> instant" where
  "utc_of local_utc t = (case t of Aware i \<Rightarrow> i | Naive i \<Rightarrow> local_utc i)"

definition timestamp_of :: "instant option \<Rightarrow> string option" where
  "timestamp_of t = map_option isoformat_utc t"

definition finding :: "string \<Rightarrow> string \<Rightarrow> string option \<Rightarrow> delivery_finding" where
  "finding code detail key =
     (let bounded = (if length detail \<le> 1000 then detail else take 997 detail @ ''...'')
      in \<lparr>df_code = code, df_deliverable_key = key, df_detail = bounded\<rparr>)"

definition finding_order :: "delivery_finding \<Rightarrow> string \<times> string \<times> string" where
  "finding_order f =
     ((case df_deliverable_key f of None \<Rightarrow> [] | Some k \<Rightarrow> k), df_code f, df_detail f)"

section \<open>Observation health\<close>

definition aggregate_observation_health :: "health list \<Rightarrow> health" where
  "aggregate_observation_health states =
     (case List.find (\<lambda>s. s \<in> set states) [HealthError, Stale, NeverObserved, Fresh] of
        Some s \<Rightarrow> s | None \<Rightarrow> NeverObserved)"

definition exceeds_freshness :: "instant \<Rightarrow> pydatetime \<Rightarrow> int \<Rightarrow> bool" where
  "exceeds_freshness now finished freshness = (freshness * 1000000 < now - moment finished)"

definition binding_health :: "evaluation_input \<Rightarrow> instant \<Rightarrow> binding_evidence \<Rightarrow> health" where
  "binding_health inputs now item =
     (if be_last_attempt_outcome item = AttemptError then HealthError
      else case be_confirmation item of
        None \<Rightarrow> NeverObserved
      | Some c \<Rightarrow>
          if oc_evidence c = None then NeverObserved
          else if \<not> is_aware (oc_collection_started_at c) \<or> \<not> is_aware (oc_collection_finished_at c)
            \<or> now < moment (oc_collection_finished_at c)
            \<or> moment (oc_collection_finished_at c) < moment (oc_collection_started_at c)
          then HealthError
          else if exceeds_freshness now (oc_collection_finished_at c) (ei_freshness_seconds inputs)
          then Stale
          else Fresh)"

definition binding_health_states :: "evaluation_input \<Rightarrow> instant \<Rightarrow> health list" where
  "binding_health_states inputs now = map (binding_health inputs now) (ei_active_bindings inputs)"

definition context_health :: "evaluation_input \<Rightarrow> instant \<Rightarrow> context_predicate option \<Rightarrow> health" where
  "context_health inputs now predicate =
     (case predicate of
        None \<Rightarrow> NeverObserved
      | Some p \<Rightarrow>
          if cp_status p = CtxMissing then NeverObserved
          else if cp_status p \<noteq> CtxAvailable \<or> cp_evidence p = None then HealthError
          else (case (cp_collection_started_at p, cp_collection_finished_at p) of
            (Some started, Some finished) \<Rightarrow>
              if \<not> is_aware started \<or> \<not> is_aware finished \<or> moment finished < moment started
                \<or> now < moment finished \<or> cp_success_confirmation_id p = None
                \<or> cp_latest_attempt_confirmation_id p = None
              then HealthError
              else if exceeds_freshness now finished (ei_freshness_seconds inputs) then Stale
              else Fresh
          | _ \<Rightarrow> HealthError))"

definition repository_context_health_states :: "evaluation_input \<Rightarrow> instant \<Rightarrow> health list" where
  "repository_context_health_states inputs now =
     (let required = filter (\<lambda>r. ref_required r \<and> is_repository_document r)
                       (cr_context_refs (ei_contract inputs));
          predicates = dict_of (map (\<lambda>p. (cp_reference_identity p, p)) (ei_contexts inputs))
      in map (\<lambda>r. context_health inputs now (map_of predicates (context_reference_identity r)))
           required)"

definition current_health :: "evaluation_input \<Rightarrow> instant \<Rightarrow> health" where
  "current_health inputs now =
     (if \<not> ei_feature_enabled inputs then HealthDisabled
      else aggregate_observation_health
        (binding_health_states inputs now @ repository_context_health_states inputs now))"

section \<open>Findings on deliverables\<close>

definition matching_binding ::
    "evaluation_input \<Rightarrow> deliverable \<Rightarrow> binding_evidence option \<times> bool" where
  "matching_binding inputs d =
     (case filter (\<lambda>e. ab_deliverable_key (be_binding e) = dl_key d) (ei_active_bindings inputs) of
        [candidate] \<Rightarrow>
          (let b = be_binding candidate; c = ei_contract inputs;
               first = the (List.find (\<lambda>x. dl_key x = dl_key d) (cr_deliverables c));
               valid = (ab_ticket_id b = cr_ticket_id c \<and>
                        ab_contract_revision b = cr_contract_revision c \<and>
                        ab_attempt b = ei_attempt inputs \<and>
                        Some (ab_repository_id b) = dl_repository_id first)
           in (if valid then Some candidate else None, \<not> valid))
      | candidates \<Rightarrow> (None, candidates \<noteq> []))"

definition check_applies_to_evidence :: "check_attempt \<Rightarrow> pull_request_evidence \<Rightarrow> bool" where
  "check_applies_to_evidence check ev =
     (if ca_head_sha check = pe_head_sha ev then True
      else list_ex (\<lambda>a. ca_head_sha check = sm_synthetic_sha a \<and> sm_head_sha a = pe_head_sha ev
             \<and> sm_base_sha a = pe_base_sha ev) (pe_synthetic_merges ev))"

definition check_matches :: "required_check \<Rightarrow> check_attempt \<Rightarrow> bool" where
  "check_matches r check =
     (ca_kind check = rc_kind r \<and> ca_name check = rc_name r \<and>
      (rc_app_slug r = None \<or> ca_app_slug check = rc_app_slug r) \<and>
      (rc_provider_id r = None \<or> Some (ca_provider_id check) = rc_provider_id r))"

definition check_order :: "check_attempt \<Rightarrow> int \<times> string" where
  "check_order check =
     (ca_record_id check,
      (case timestamp_of (ca_started_at check) of
         Some s \<Rightarrow> s
       | None \<Rightarrow> (case timestamp_of (ca_completed_at check) of Some s \<Rightarrow> s | None \<Rightarrow> [])))"

definition select_check :: "pull_request_evidence \<Rightarrow> required_check \<Rightarrow> check_attempt option" where
  "select_check ev r =
     max_by check_order
       (filter (\<lambda>c. check_applies_to_evidence c ev \<and> check_matches r c) (pe_checks ev))"

definition countable_review :: "pull_request_evidence \<Rightarrow> review_policy \<Rightarrow> review_evidence \<Rightarrow> bool" where
  "countable_review ev policy r =
     (rv_head_sha r = pe_head_sha ev \<and> rv_reviewer r \<noteq> pe_author_id ev \<and>
      (rp_allowed_reviewers policy = [] \<or> rv_reviewer r \<in> set (rp_allowed_reviewers policy)))"

definition review_order :: "review_evidence \<Rightarrow> string \<times> int" where
  "review_order r = (isoformat_utc (rv_submitted_at r), rv_record_id r)"

definition decided_reviews :: "pull_request_evidence \<Rightarrow> review_policy \<Rightarrow> review_evidence list" where
  "decided_reviews ev policy =
     filter (\<lambda>r. rv_decision r \<noteq> Commented)
       (sort_key review_order (filter (countable_review ev policy) (pe_reviews ev)))"

text \<open>The latest countable decision of each reviewer, \<open>commented\<close> reviews left out.\<close>

definition effective_reviews :: "pull_request_evidence \<Rightarrow> review_policy \<Rightarrow> review_evidence list" where
  "effective_reviews ev policy =
     map snd (dict_of (map (\<lambda>r. (rv_reviewer r, r)) (decided_reviews ev policy)))"

definition review_findings ::
    "review_policy \<Rightarrow> pull_request_evidence \<Rightarrow> string \<Rightarrow> delivery_finding list" where
  "review_findings policy ev key =
     (if rp_required_approvals policy = 0 then []
      else
        let effective = effective_reviews ev policy;
            approvals = length (filter (\<lambda>r. rv_decision r = Approved) effective)
        in (if list_ex (\<lambda>r. rv_decision r = ChangesRequested) effective
            then [finding ''review_changes_requested'' ''an allowed reviewer requested changes'' (Some key)]
            else []) @
           (if int approvals < rp_required_approvals policy
            then [finding ''review_approval_missing'' ''required effective approvals are missing'' (Some key)]
            else []))"

definition check_finding ::
    "pull_request_evidence \<Rightarrow> string \<Rightarrow> required_check \<Rightarrow> delivery_finding list" where
  "check_finding ev key r =
     (case select_check ev r of
        None \<Rightarrow> [finding ''check_missing'' (''required check '' @ rc_name r @ '' is absent'') (Some key)]
      | Some c \<Rightarrow>
          if ca_conclusion c \<noteq> CSuccess then
            [finding (if ca_conclusion c = CFailure then ''check_failed''
                      else ''check_'' @ conclusion_text (ca_conclusion c))
               (''required check '' @ rc_name r @ '' is '' @ conclusion_text (ca_conclusion c)) (Some key)]
          else [])"

definition merge_findings :: "pull_request_evidence \<Rightarrow> string \<Rightarrow> delivery_finding list" where
  "merge_findings ev key =
     (if pe_state ev \<noteq> PrMerged then
        finding ''pr_not_merged'' ''pull request is not merged'' (Some key) #
        (case pe_mergeable ev of
           None \<Rightarrow> [finding ''mergeability_unknown'' ''provider has not determined mergeability'' (Some key)]
         | Some False \<Rightarrow> [finding ''merge_conflict'' ''provider reports the pull request cannot merge'' (Some key)]
         | Some True \<Rightarrow> [])
      else if pe_integration_sha ev = None \<and> pe_integration_revision ev = None then
        [finding ''integration_identity_missing'' ''merged evidence lacks integration revision'' (Some key)]
      else [])"

definition evidence_findings ::
    "evaluation_input \<Rightarrow> deliverable \<Rightarrow> artifact_binding \<Rightarrow> pull_request_evidence \<Rightarrow> delivery_finding list"
where
  "evidence_findings inputs d b ev =
     (let key = dl_key d;
          policy = dl_review (the (List.find (\<lambda>x. dl_key x = key) (cr_deliverables (ei_contract inputs))))
      in (if \<not> pe_complete ev
          then [finding ''observation_incomplete'' ''provider observation is incomplete'' (Some key)]
          else []) @
         (if pe_repository_id ev \<noteq> ab_repository_id b \<or> pe_pr_number ev \<noteq> ab_pr_number b
          then [finding ''binding_identity_mismatch''
                  ''observed provider identity differs from binding'' (Some key)]
          else []) @
         (if Some (pe_head_sha ev) \<noteq> ab_head_sha b
          then [finding ''head_mismatch'' ''observed head differs from bound head'' (Some key)]
          else []) @
         (if Some (pe_base_sha ev) \<noteq> ab_base_sha b
          then [finding ''base_mismatch'' ''observed base differs from bound base'' (Some key)]
          else []) @
         (if pe_draft ev
          then [finding ''pr_draft'' ''pull request remains a draft'' (Some key)]
          else []) @
         concat (map (check_finding ev key) (dl_required_checks d)) @
         review_findings policy ev key @
         merge_findings ev key)"

definition one_deliverable_findings :: "evaluation_input \<Rightarrow> deliverable \<Rightarrow> delivery_finding list" where
  "one_deliverable_findings inputs d =
     (case matching_binding inputs d of
        (None, invalid_binding) \<Rightarrow>
          [if invalid_binding
           then finding ''binding_identity_invalid'' ''binding does not belong to current workflow'' (Some (dl_key d))
           else finding ''binding_missing'' ''no active pull-request binding'' (Some (dl_key d))]
      | (Some current, _) \<Rightarrow>
          if ab_state (be_binding current) \<noteq> BObserved \<or> be_confirmation current = None then
            [finding ''binding_unobserved'' ''binding lacks a successful provider observation'' (Some (dl_key d))]
          else
            let c = the (be_confirmation current) in
            case oc_evidence c of
              None \<Rightarrow> [finding ''observation_error'' ''latest provider collection failed'' (Some (dl_key d))]
            | Some ev \<Rightarrow>
                if oc_outcome c \<noteq> OutSuccess then
                  [finding ''observation_error'' ''latest provider collection failed'' (Some (dl_key d))]
                else evidence_findings inputs d (be_binding current) ev)"

definition deliverable_findings :: "evaluation_input \<Rightarrow> delivery_finding list" where
  "deliverable_findings inputs =
     sort_key finding_order
       (concat (map (one_deliverable_findings inputs)
          (sort_key dl_key (cr_deliverables (ei_contract inputs)))))"

section \<open>Findings on contexts\<close>

definition matches_repository_fact :: "context_predicate \<Rightarrow> context_reference \<Rightarrow> bool" where
  "matches_repository_fact p r =
     (case cp_evidence p of
        None \<Rightarrow> False
      | Some ev \<Rightarrow> re_complete ev \<and>
          list_ex (\<lambda>f. rf_status f = FactAvailable \<and> rf_repository_id f = rd_repository_id r \<and>
            rf_commit_sha f = rd_sha r \<and> rf_path f = rd_path r) (re_facts ev))"

definition context_finding ::
    "string \<Rightarrow> context_reference \<Rightarrow> string option \<Rightarrow> context_predicate list \<Rightarrow> delivery_finding list" where
  "context_finding identity reference digest values =
     (let required = ''required context '' @ identity in
      case values of
        [] \<Rightarrow> [finding ''context_predicate_missing'' (required @ '' is absent'') None]
      | [p] \<Rightarrow>
          if cp_status p = CtxMissing then
            [finding ''context_missing'' (required @ '' is missing'') None]
          else if cp_status p = CtxError then
            [finding ''context_error'' (required @ '' could not be read'') None]
          else if digest = None \<or> cp_current_digest p = None then
            [finding ''context_digest_missing'' (required @ '' has no digest'') None]
          else if cp_status p \<noteq> CtxAvailable \<or> cp_current_digest p \<noteq> digest then
            [finding ''context_changed'' (required @ '' differs from its pin'') None]
          else if is_repository_document reference \<and> \<not> matches_repository_fact p reference then
            [finding ''context_proof_invalid'' (required @ '' lacks exact file proof'') None]
          else []
      | _ \<Rightarrow> [finding ''context_predicate_duplicate'' (required @ '' is duplicated'') None])"

text \<open>The loop over the sorted required references, which pops what it has read.\<close>

fun context_loop ::
    "(string \<times> context_reference \<times> string option) list \<Rightarrow> (string \<times> context_predicate list) list
     \<Rightarrow> delivery_finding list \<times> (string \<times> context_predicate list) list" where
  "context_loop [] provided = ([], provided)"
| "context_loop ((identity, reference, digest) # rest) provided =
     (case context_loop rest (AList.delete identity provided) of (fs, remaining) \<Rightarrow>
        (context_finding identity reference digest (dict_get provided identity) @ fs, remaining))"

definition context_findings ::
    "evaluation_input \<Rightarrow> (canonical_error, delivery_finding list) result" where
  "context_findings inputs =
     (let declared = dict_of (map (\<lambda>r. (context_reference_identity r, r))
                       (cr_context_refs (ei_contract inputs)))
      in res_bind (res_map (\<lambda>(identity, r). res_bind (context_reference_digest r)
                      (\<lambda>dg. Inr (identity, r, dg))) (filter (\<lambda>(_, r). ref_required r) declared))
         (\<lambda>required.
            let provided = group_by cp_reference_identity (ei_contexts inputs);
                (fs, remaining) = context_loop (sort_key fst required) provided;
                optional = map fst (filter (\<lambda>(_, r). \<not> ref_required r) declared);
                unexpected = fold AList.delete optional remaining
            in Inr (fs @ map (\<lambda>identity. finding ''context_predicate_unexpected''
                     (''context '' @ identity @ '' is not declared'') None)
                   (sort (map fst unexpected)))))"

section \<open>Findings on dependencies\<close>

definition dp_identity :: "dependency_predicate \<Rightarrow> dependency_identity" where
  "dp_identity d = (dp_ticket_id d, dp_contract_revision d, dp_attempt d, dp_milestone d)"

text \<open>\<open>str\<close> of the identity tuple, by which the sources sort.\<close>

definition identity_text :: "dependency_identity \<Rightarrow> string" where
  "identity_text i = (case i of (ticket, revision, attempt, m) \<Rightarrow>
     ''(UUID('' @ [CHR 0x27] @ ticket @ [CHR 0x27] @ ''), '' @ show_int revision @ '', '' @
     show_int attempt @ '', '' @ [CHR 0x27] @ milestone_text m @ [CHR 0x27] @ '')'')"

definition receipt_matches_pin :: "milestone_receipt \<Rightarrow> dependency_predicate \<Rightarrow> bool" where
  "receipt_matches_pin r d =
     (mr_milestone r = (case dp_milestone d of Integrated \<Rightarrow> IntegrationReceipt | Accepted \<Rightarrow> FulfilledReceipt) \<and>
      mr_ticket_id r = dp_ticket_id d \<and> mr_contract_revision r = dp_contract_revision d \<and>
      mr_attempt r = dp_attempt d \<and> mr_contract_digest r = dp_current_contract_digest d \<and>
      mr_delivery_digest r = dp_current_delivery_digest d)"

definition dependency_finding :: "dependency_predicate list \<Rightarrow> delivery_finding list" where
  "dependency_finding values =
     (case values of
        [] \<Rightarrow> [finding ''dependency_predicate_missing'' ''required dependency is absent'' None]
      | [d] \<Rightarrow>
          if dp_current_disposition d \<in> {DCancelled, DWontfix} then
            [finding ''dependency_unsuccessful''
               ''upstream dependency has an unsuccessful disposition'' None]
          else if dp_contract_revision d \<noteq> dp_current_contract_revision d
              \<or> dp_attempt d \<noteq> dp_current_attempt d then
            [finding ''dependency_generation_mismatch'' ''upstream dependency generation changed'' None]
          else (case dp_receipt d of
              None \<Rightarrow> [finding ''dependency_receipt_missing''
                         ''upstream dependency has no matching receipt'' None]
            | Some r \<Rightarrow>
                if \<not> receipt_matches_pin r d then
                  [finding ''dependency_receipt_mismatch'' ''upstream receipt does not match its pin'' None]
                else [])
      | _ \<Rightarrow> [finding ''dependency_predicate_duplicate'' ''required dependency is duplicated'' None])"

fun dependency_loop ::
    "dependency_identity list \<Rightarrow> (dependency_identity \<times> dependency_predicate list) list
     \<Rightarrow> delivery_finding list \<times> (dependency_identity \<times> dependency_predicate list) list" where
  "dependency_loop [] provided = ([], provided)"
| "dependency_loop (identity # rest) provided =
     (case dependency_loop rest (AList.delete identity provided) of (fs, remaining) \<Rightarrow>
        (dependency_finding (dict_get provided identity) @ fs, remaining))"

definition dependency_findings :: "evaluation_input \<Rightarrow> delivery_finding list" where
  "dependency_findings inputs =
     (let required = remdups (map dd_identity (cr_dependencies (ei_contract inputs)));
          provided = group_by dp_identity (ei_dependencies inputs);
          (fs, remaining) = dependency_loop (sort_key identity_text required) provided
      in fs @ map (\<lambda>_. finding ''dependency_predicate_unexpected'' ''dependency is not declared'' None)
                (sort_key identity_text (map fst remaining)))"

section \<open>Stage, receipts and work\<close>

definition stage_of :: "evaluation_input \<Rightarrow> delivery_finding list \<Rightarrow> delivery_stage" where
  "stage_of inputs findings =
     (let codes = map df_code findings;
          evidence = List.map_filter current_evidence (ei_active_bindings inputs);
          technical = filter (\<lambda>c. c \<notin> {''pr_not_merged'', ''pr_draft''}) TECHNICAL_CHECK_CODES
      in if ''binding_missing'' \<in> set codes then AwaitingArtifact
         else if evidence \<noteq> [] \<and> list_all (\<lambda>e. pe_state e = PrMerged) evidence
              \<and> length evidence = length (cr_deliverables (ei_contract inputs)) then StageIntegrated
         else if ''pr_draft'' \<in> set codes then StageProposed
         else if evidence \<noteq> [] \<and> \<not> list_ex (\<lambda>c. c \<in> set technical) codes then StageVerified
         else StageProposed)"

definition input_delivery_digest :: "evaluation_input \<Rightarrow> (eval_error, string) result" where
  "input_delivery_digest inputs =
     (case cr_content_digest (ei_contract inputs) of
        None \<Rightarrow> Inl MissingContentDigest
      | Some d \<Rightarrow> lift_canonical (delivery_digest d (ei_attempt inputs) (ei_active_bindings inputs)))"

definition receipt_matches ::
    "milestone_receipt option \<Rightarrow> receipt_milestone \<Rightarrow> evaluation_input \<Rightarrow> string \<Rightarrow> bool" where
  "receipt_matches receipt m inputs digest =
     (case receipt of
        None \<Rightarrow> False
      | Some r \<Rightarrow> mr_milestone r = m \<and> mr_ticket_id r = cr_ticket_id (ei_contract inputs) \<and>
          mr_contract_revision r = cr_contract_revision (ei_contract inputs) \<and>
          mr_attempt r = ei_attempt inputs \<and>
          Some (mr_contract_digest r) = cr_content_digest (ei_contract inputs) \<and>
          mr_delivery_digest r = digest)"

definition executor_work :: "work_kind \<Rightarrow> eligible_work list" where
  "executor_work k = [\<lparr>ew_kind = k, ew_role = ExecutorRole\<rparr>]"

definition work_blocking :: "string \<Rightarrow> bool" where
  "work_blocking code =
     (startswith code ''context_'' \<or> startswith code ''dependency_'' \<or>
      code \<in> {''observation_stale'', ''observation_error'', ''observation_missing'',
              ''delivery_terminal'', ''reopen_required''})"

definition eligible_work_of ::
    "evaluation_input \<Rightarrow> delivery_finding list \<Rightarrow> delivery_stage \<Rightarrow> bool \<Rightarrow> bool \<Rightarrow> eligible_work list" where
  "eligible_work_of inputs findings stage has_integration has_fulfillment =
     (let codes = map df_code findings;
          any_of = (\<lambda>cs. list_ex (\<lambda>c. c \<in> set cs) codes)
      in if ei_coordination_disposition inputs \<in> {DCancelled, DWontfix, DFulfilled}
            \<or> \<not> ei_feature_enabled inputs then []
         else if list_ex work_blocking codes then []
         else if any_of [''binding_missing''] then executor_work WImplement
         else if any_of [''pr_draft'', ''binding_unobserved''] then executor_work WImplement
         else if any_of [''review_changes_requested'', ''review_approval_missing'']
         then executor_work WReview
         else if any_of (filter (\<lambda>c. c \<noteq> ''pr_not_merged'') TECHNICAL_CHECK_CODES)
         then executor_work WRepair
         else if stage \<noteq> StageIntegrated \<and> list_all (\<lambda>c. c = ''pr_not_merged'') codes
         then executor_work WIntegrate
         else if has_integration \<and> cr_acceptance_mode (ei_contract inputs) = Explicit \<and> \<not> has_fulfillment
         then [\<lparr>ew_kind = WAccept, ew_role = RequesterRole\<rparr>]
         else [])"

section \<open>The identity of an assessment\<close>

definition outcome_text :: "binding_evidence \<Rightarrow> string" where
  "outcome_text item = (case be_confirmation item of
       Some c \<Rightarrow> (case oc_outcome c of OutSuccess \<Rightarrow> ''success'' | OutError \<Rightarrow> ''error'')
     | None \<Rightarrow> (case be_last_attempt_outcome item of AttemptSuccess \<Rightarrow> ''success''
         | AttemptError \<Rightarrow> ''error'' | AttemptNever \<Rightarrow> ''never''))"

definition assessment_binding_payload :: "binding_evidence \<Rightarrow> pyval" where
  "assessment_binding_payload item = (let b = be_binding item; ev = current_evidence item in pobj
     [(''key'', pstr (ab_deliverable_key b)), (''id'', pstr (ab_id b)),
      (''version'', PInt (ab_binding_version b)),
      (''head'', (case ev of Some e \<Rightarrow> pstr (pe_head_sha e) | None \<Rightarrow> popt pstr (ab_head_sha b))),
      (''base'', (case ev of Some e \<Rightarrow> pstr (pe_base_sha e) | None \<Rightarrow> popt pstr (ab_base_sha b))),
      (''confirmation'', popt (pstr \<circ> oc_id) (be_confirmation item)),
      (''outcome'', pstr (outcome_text item)),
      (''snapshot_id'', popt pstr (be_snapshot_id item)),
      (''success_confirmation_id'', popt pstr (be_success_confirmation_id item)),
      (''latest_attempt_confirmation_id'', popt pstr (be_latest_attempt_confirmation_id item))])"

definition assessment_context_payload :: "(int \<Rightarrow> instant) \<Rightarrow> context_predicate \<Rightarrow> pyval" where
  "assessment_context_payload local_utc p =
     (let ts = (\<lambda>t. popt pstr (timestamp_of (map_option (utc_of local_utc) t))) in pobj
     [(''identity'', pstr (cp_reference_identity p)),
      (''status'', pstr (context_status_text (cp_status p))),
      (''current_digest'', popt pstr (cp_current_digest p)),
      (''snapshot_id'', popt pstr (cp_snapshot_id p)),
      (''success_confirmation_id'', popt pstr (cp_success_confirmation_id p)),
      (''latest_attempt_confirmation_id'', popt pstr (cp_latest_attempt_confirmation_id p)),
      (''collection_finished_at'', ts (cp_collection_finished_at p)),
      (''last_attempt_at'', ts (cp_last_attempt_at p)),
      (''last_success_at'', ts (cp_last_success_at p))])"

definition assessment_dependency_payload :: "dependency_predicate \<Rightarrow> pyval" where
  "assessment_dependency_payload d = pobj
     [(''ticket_id'', pstr (dp_ticket_id d)), (''revision'', PInt (dp_current_contract_revision d)),
      (''attempt'', PInt (dp_current_attempt d)),
      (''contract_digest'', pstr (dp_current_contract_digest d)),
      (''delivery_digest'', pstr (dp_current_delivery_digest d)),
      (''disposition'', pstr (disposition_text (dp_current_disposition d))),
      (''receipt_id'', popt (pstr \<circ> mr_id) (dp_receipt d))]"

definition claim_active :: "evaluation_input \<Rightarrow> instant \<Rightarrow> (eval_error, bool) result" where
  "claim_active inputs now =
     (case ei_claim inputs of
        None \<Rightarrow> Inr False
      | Some c \<Rightarrow> (case cs_expires_at c of
          None \<Rightarrow> Inr False
        | Some (Naive _) \<Rightarrow> Inl NaiveComparison
        | Some (Aware t) \<Rightarrow> Inr (now < t)))"

definition assessment_payload ::
    "(int \<Rightarrow> instant) \<Rightarrow> evaluation_input \<Rightarrow> health \<Rightarrow> delivery_finding list \<Rightarrow> eligible_work list
     \<Rightarrow> string \<Rightarrow> bool \<Rightarrow> pyval" where
  "assessment_payload local_utc inputs h findings work digest active = (let c = ei_contract inputs in pobj
     [(''contract_revision'', PInt (cr_contract_revision c)),
      (''contract_digest'', popt pstr (cr_content_digest c)),
      (''attempt'', PInt (ei_attempt inputs)),
      (''workflow_version'', PInt (ei_workflow_version inputs)),
      (''coordination_status'', pstr (ei_coordination_status inputs)),
      (''disposition'', pstr (disposition_text (ei_coordination_disposition inputs))),
      (''action'', popt (pstr \<circ> completion_action_text) (ei_requested_completion_action inputs)),
      (''bindings'', PList (map assessment_binding_payload
         (sort_key (\<lambda>e. ab_deliverable_key (be_binding e)) (ei_active_bindings inputs)))),
      (''contexts'', PList (map (assessment_context_payload local_utc)
         (sort_key cp_reference_identity (ei_contexts inputs)))),
      (''dependencies'', PList (map assessment_dependency_payload
         (sort_key (\<lambda>d. (dp_ticket_id d, dp_contract_revision d, dp_attempt d, milestone_text (dp_milestone d)))
            (ei_dependencies inputs)))),
      (''integration_receipt'', popt (pstr \<circ> mr_id) (ei_integration_receipt inputs)),
      (''fulfillment_receipt'', popt (pstr \<circ> mr_id) (ei_fulfillment_receipt inputs)),
      (''claim'', pobj
         [(''epoch'', popt (PInt \<circ> cs_epoch) (ei_claim inputs)),
          (''owner'', popt pstr (Option.bind (ei_claim inputs) cs_owner)),
          (''expires_at'', popt pstr (timestamp_of
             (map_option (utc_of local_utc) (Option.bind (ei_claim inputs) cs_expires_at)))),
          (''active'', PBool active)]),
      (''health'', pstr (health_text h)),
      (''blockers'', PList (map (pstr \<circ> df_code) findings)),
      (''work'', PList (map (pstr \<circ> work_kind_text \<circ> ew_kind) work)),
      (''freshness_seconds'', PInt (ei_freshness_seconds inputs)),
      (''feature_enabled'', PBool (ei_feature_enabled inputs)),
      (''delivery_digest'', pstr digest)])"

definition observed_instants :: "evaluation_input \<Rightarrow> instant list" where
  "observed_instants inputs =
     (let observed = map (\<lambda>c. moment (oc_collection_finished_at c))
            (filter (\<lambda>c. oc_evidence c \<noteq> None \<and> is_aware (oc_collection_finished_at c))
               (List.map_filter be_confirmation (ei_active_bindings inputs)));
          identities = map context_reference_identity
            (filter (\<lambda>r. ref_required r \<and> is_repository_document r) (cr_context_refs (ei_contract inputs)));
          required_context_times = map moment (filter is_aware (List.map_filter cp_collection_finished_at
            (filter (\<lambda>p. cp_reference_identity p \<in> set identities \<and> cp_status p = CtxAvailable)
               (ei_contexts inputs))))
      in observed @ required_context_times)"

definition observation_times :: "evaluation_input \<Rightarrow> instant option \<times> instant option" where
  "observation_times inputs =
     (let all_observed = observed_instants inputs in
      if all_observed = [] then (None, None)
      else (Some (Min (set all_observed)),
            Some (Min (set (map (\<lambda>v. v + ei_freshness_seconds inputs * 1000000) all_observed)))))"

section \<open>\<open>evaluate_delivery\<close>\<close>

definition state_findings :: "evaluation_input \<Rightarrow> health \<Rightarrow> bool \<Rightarrow> delivery_finding list" where
  "state_findings inputs h has_integration =
     (if \<not> ei_feature_enabled inputs then
        [finding ''delivery_disabled'' ''delivery workflow feature is disabled'' None]
      else if h = Stale then
        [finding ''observation_stale'' ''provider observation exceeded freshness limit'' None]
      else if h = HealthError then
        [finding ''observation_error'' ''latest provider observation failed'' None]
      else if h = NeverObserved \<and> ei_active_bindings inputs \<noteq> [] then
        [finding ''observation_missing'' ''active binding has no successful observation'' None]
      else []) @
     (if ei_coordination_disposition inputs \<in> {DCancelled, DWontfix, DFulfilled} then
        [finding ''delivery_disposition_terminal''
           ''coordination disposition permits no further delivery work'' None]
      else []) @
     (if ei_coordination_status inputs \<in> {''wontfix'', ''closed'', ''acked''} then
        [finding ''delivery_terminal'' ''ticket status is terminal'' None]
      else if ei_coordination_status inputs = ''resolved'' \<and> \<not> has_integration then
        [finding ''reopen_required''
           ''resolved ticket requires requester reopen before new executor work'' None]
      else [])"

definition completion_action_valid :: "evaluation_input \<Rightarrow> bool" where
  "completion_action_valid inputs =
     (case ei_requested_completion_action inputs of
        None \<Rightarrow> True
      | Some a \<Rightarrow>
          (ei_is_self_ticket inputs \<and> a \<in> {SelfResolvePending, SelfResolve, SelfConfirm}) \<or>
          (\<not> ei_is_self_ticket inputs \<and> a \<in> {CrossResolve, CrossConfirm}))"

definition acceptance_state_of :: "evaluation_input \<Rightarrow> bool \<Rightarrow> bool \<Rightarrow> acceptance_state" where
  "acceptance_state_of inputs has_integration has_fulfillment =
     (if has_fulfillment then AcceptanceAccepted
      else if ei_fulfillment_receipt inputs \<noteq> None
           \<or> (ei_integration_receipt inputs \<noteq> None \<and> \<not> has_integration) then Superseded
      else if cr_acceptance_mode (ei_contract inputs) = Automatic then NotRequired
      else AcceptancePending)"

definition evaluation_blockers ::
    "evaluation_input \<Rightarrow> health \<Rightarrow> bool \<Rightarrow> delivery_finding list \<Rightarrow> delivery_finding list" where
  "evaluation_blockers inputs h has_integration cfs =
     sort_key finding_order
       (deliverable_findings inputs @ cfs @ dependency_findings inputs @
        state_findings inputs h has_integration @
        (if \<not> completion_action_valid inputs
         then [finding ''completion_action_invalid'' ''completion action does not match ticket ownership'' None]
         else []))"

definition completion_eligible :: "evaluation_input \<Rightarrow> bool \<Rightarrow> bool \<Rightarrow> bool \<Rightarrow> bool" where
  "completion_eligible inputs satisfied has_integration has_fulfillment =
     (if \<not> completion_action_valid inputs then False
      else if ei_requested_completion_action inputs \<in> {Some CrossResolve, Some SelfResolvePending}
      then satisfied \<and> has_integration
      else satisfied \<and> has_fulfillment)"

definition evaluate_delivery ::
    "(int \<Rightarrow> instant) \<Rightarrow> evaluation_input \<Rightarrow> pydatetime \<Rightarrow> (eval_error, delivery_assessment) result" where
  "evaluate_delivery local_utc inputs now_arg =
     res_bind (ensure (is_aware now_arg) NaiveNow) (\<lambda>_.
     let now = moment now_arg; h = current_health inputs now in
     res_bind (input_delivery_digest inputs) (\<lambda>digest.
     let has_integration = receipt_matches (ei_integration_receipt inputs) IntegrationReceipt inputs digest;
         has_fulfillment = receipt_matches (ei_fulfillment_receipt inputs) FulfilledReceipt inputs digest
     in
     res_bind (lift_canonical (context_findings inputs)) (\<lambda>cfs.
     let blockers = evaluation_blockers inputs h has_integration cfs;
         stage = stage_of inputs (deliverable_findings inputs);
         satisfied = (blockers = [] \<and> h = Fresh \<and> ei_coordination_disposition inputs = DActive)
     in
     res_bind (claim_active inputs now) (\<lambda>active.
     let work = (if active then []
                 else eligible_work_of inputs blockers stage has_integration has_fulfillment)
     in
     res_bind (lift_canonical (canonical_digest
       (assessment_payload local_utc inputs h blockers work digest active) Assessment)) (\<lambda>aid.
     Inr \<lparr>as_assessment_id = aid, as_assessment_version = ei_workflow_version inputs,
       as_assessed_at = now, as_observed_at = fst (observation_times inputs),
       as_fresh_until = snd (observation_times inputs),
       as_coordination_status = ei_coordination_status inputs, as_delivery_stage = stage,
       as_observation_health = h,
       as_acceptance_state = acceptance_state_of inputs has_integration has_fulfillment,
       as_requirements_satisfied = satisfied,
       as_integration_receipt_eligible = (stage = StageIntegrated \<and> satisfied),
       as_completion_eligible_now = completion_eligible inputs satisfied has_integration has_fulfillment,
       as_contract_fulfilled = has_fulfillment,
       as_delivery_digest = digest, as_blockers = blockers,
       as_deliverables = deliverable_findings inputs, as_eligible_work = work\<rparr>)))))"

end
