(* ===== verification/Delivery_Assurance.thy ===== *)
theory Delivery_Assurance
  imports Delivery_Evaluator
begin

text \<open>
  What the evaluator's answer means. The \<open>\<dots>_proved\<close> and \<open>\<dots>_fresh\<close> predicates state, over the facts
  alone, when a deliverable, a pinned context, a dependency and an observation are proved; the
  lemmas show that the evaluator's finding lists are empty exactly then, that it returns on every
  input without NUL characters, and that its codes stay in the published vocabulary. The
  properties at the end put them together for \<open>evaluate_delivery\<close>; \<open>sample_input\<close> is a delivery on
  which they are applied.
\<close>

section \<open>What the deliverable findings decide\<close>

lemma df_finding [simp]:
  "df_code (finding c t k) = c" "df_deliverable_key (finding c t k) = k"
  "length (df_detail (finding c t k)) \<le> 1000"
  by (simp_all add: finding_def Let_def)

definition standing_review :: "pull_request_evidence \<Rightarrow> review_policy \<Rightarrow> string \<Rightarrow> review_evidence option" where
  "standing_review ev policy u =
     (let mine = filter (\<lambda>r. rv_reviewer r = u) (decided_reviews ev policy)
      in if mine = [] then None else Some (last mine))"

definition reviews_proved :: "review_policy \<Rightarrow> pull_request_evidence \<Rightarrow> bool" where
  "reviews_proved policy ev =
     (rp_required_approvals policy = 0 \<or>
      (rp_required_approvals policy \<le>
         int (card {u. \<exists>r. standing_review ev policy u = Some r \<and> rv_decision r = Approved}) \<and>
       (\<forall>u r. standing_review ev policy u = Some r \<longrightarrow> rv_decision r \<noteq> ChangesRequested)))"

lemma standing_review_sound:
  assumes "standing_review ev policy u = Some r"
  shows "r \<in> set (pe_reviews ev)" "countable_review ev policy r" "rv_reviewer r = u"
    "rv_decision r \<noteq> Commented"
    "r' \<in> set (pe_reviews ev) \<Longrightarrow> countable_review ev policy r' \<Longrightarrow> rv_reviewer r' = u \<Longrightarrow>
       rv_decision r' \<noteq> Commented \<Longrightarrow> review_order r' \<le> review_order r"
proof -
  let ?xs = "filter (\<lambda>r. rv_reviewer r = u) (filter (\<lambda>r. rv_decision r \<noteq> Commented)
    (filter (countable_review ev policy) (pe_reviews ev)))"
  have "filter (\<lambda>r. rv_reviewer r = u) (decided_reviews ev policy) = sort_key review_order ?xs"
    by (simp only: decided_reviews_def filter_sort)
  with assms have ne: "sort_key review_order ?xs \<noteq> []" and r: "r = last (sort_key review_order ?xs)"
    by (simp_all only: standing_review_def Let_def split: if_splits) simp_all
  have "r \<in> set ?xs" using last_in_set [OF ne] by (simp only: r set_sort)
  then show "r \<in> set (pe_reviews ev)" "countable_review ev policy r" "rv_reviewer r = u"
    "rv_decision r \<noteq> Commented" by simp_all
  show "review_order r' \<le> review_order r" if "r' \<in> set (pe_reviews ev)" "countable_review ev policy r'"
      "rv_reviewer r' = u" "rv_decision r' \<noteq> Commented" for r'
    unfolding r using that by (intro last_sort_key_max) simp
qed

lemma effective_count:
  "length (filter P (effective_reviews ev policy)) =
     card {u. \<exists>r. standing_review ev policy u = Some r \<and> P r}"
  unfolding effective_reviews_def
  by (subst dict_values_card)
    (simp_all add: map_of_dict_of map_of_rev_keyed standing_review_def Let_def)

lemma effective_mem:
  "r \<in> set (effective_reviews ev policy) \<longleftrightarrow> (\<exists>u. standing_review ev policy u = Some r)"
  unfolding effective_reviews_def set_map
  by (simp add: dict_values_mem map_of_dict_of map_of_rev_keyed standing_review_def Let_def)

lemma review_findings_Nil: "review_findings policy ev key = [] \<longleftrightarrow> reviews_proved policy ev"
  by (auto simp: review_findings_def reviews_proved_def Let_def list_ex_iff effective_count effective_mem) blast

definition check_proved :: "pull_request_evidence \<Rightarrow> required_check \<Rightarrow> bool" where
  "check_proved ev r =
     (\<exists>c. select_check ev r = Some c \<and> ca_conclusion c = CSuccess)"

lemma check_finding_Nil: "check_finding ev key r = [] \<longleftrightarrow> check_proved ev r"
  by (auto simp: check_finding_def check_proved_def split: option.splits)

lemma select_check_sound:
  assumes "select_check ev r = Some c"
  shows "c \<in> set (pe_checks ev)" "check_applies_to_evidence c ev" "check_matches r c"
    "c' \<in> set (pe_checks ev) \<Longrightarrow> check_applies_to_evidence c' ev \<Longrightarrow> check_matches r c' \<Longrightarrow>
       ca_record_id c' \<le> ca_record_id c"
proof -
  let ?xs = "filter (\<lambda>c. check_applies_to_evidence c ev \<and> check_matches r c) (pe_checks ev)"
  have m: "max_by check_order ?xs = Some c" using assms by (simp add: select_check_def)
  from max_by_in [OF this] show "c \<in> set (pe_checks ev)" "check_applies_to_evidence c ev" "check_matches r c"
    by auto
  show "ca_record_id c' \<le> ca_record_id c"
    if "c' \<in> set (pe_checks ev)" "check_applies_to_evidence c' ev" "check_matches r c'" for c'
    using max_by_ge [OF m, of c'] that by (auto simp: check_order_def)
qed

definition evidence_proved :: "deliverable \<Rightarrow> artifact_binding \<Rightarrow> pull_request_evidence \<Rightarrow> bool" where
  "evidence_proved d b ev =
     (pe_complete ev \<and> \<not> pe_draft ev \<and>
      pe_repository_id ev = ab_repository_id b \<and> pe_pr_number ev = ab_pr_number b \<and>
      ab_head_sha b = Some (pe_head_sha ev) \<and> ab_base_sha b = Some (pe_base_sha ev) \<and>
      list_all (check_proved ev) (dl_required_checks d) \<and> reviews_proved (dl_review d) ev \<and>
      pe_state ev = PrMerged \<and> (pe_integration_sha ev \<noteq> None \<or> pe_integration_revision ev \<noteq> None))"

definition binding_identifies :: "evaluation_input \<Rightarrow> deliverable \<Rightarrow> artifact_binding \<Rightarrow> bool" where
  "binding_identifies i d b =
     (ab_ticket_id b = cr_ticket_id (ei_contract i) \<and>
      ab_contract_revision b = cr_contract_revision (ei_contract i) \<and>
      ab_attempt b = ei_attempt i \<and> dl_repository_id d = Some (ab_repository_id b))"

definition deliverable_proved :: "evaluation_input \<Rightarrow> deliverable \<Rightarrow> bool" where
  "deliverable_proved i d =
     (\<exists>e c ev. filter (\<lambda>e. ab_deliverable_key (be_binding e) = dl_key d) (ei_active_bindings i) = [e] \<and>
        binding_identifies i d (be_binding e) \<and> ab_state (be_binding e) = BObserved \<and>
        be_confirmation e = Some c \<and> oc_outcome c = OutSuccess \<and> oc_evidence c = Some ev \<and>
        evidence_proved d (be_binding e) ev)"

lemma evidence_findings_Nil:
  assumes "distinct (map dl_key (cr_deliverables (ei_contract i)))" and "d \<in> set (cr_deliverables (ei_contract i))"
  shows "evidence_findings i d b ev = [] \<longleftrightarrow> evidence_proved d b ev"
proof -
  have "merge_findings ev key = [] \<longleftrightarrow>
      pe_state ev = PrMerged \<and> (pe_integration_sha ev \<noteq> None \<or> pe_integration_revision ev \<noteq> None)" for key
    by (auto simp: merge_findings_def split: option.splits)
  moreover have "concat (map (check_finding ev key) cs) = [] \<longleftrightarrow> list_all (check_proved ev) cs" for key cs
    by (simp add: list_all_iff check_finding_Nil)
  ultimately show ?thesis
    by (simp add: evidence_findings_def evidence_proved_def Let_def find_distinct_key [OF assms]
        review_findings_Nil del: concat_eq_Nil_conv) auto
qed

lemma matching_binding_Some:
  assumes "distinct (map dl_key (cr_deliverables (ei_contract i)))" and "d \<in> set (cr_deliverables (ei_contract i))"
  shows "fst (matching_binding i d) = Some e \<longleftrightarrow>
     filter (\<lambda>e. ab_deliverable_key (be_binding e) = dl_key d) (ei_active_bindings i) = [e] \<and>
     binding_identifies i d (be_binding e)"
  by (auto simp: matching_binding_def binding_identifies_def Let_def find_distinct_key [OF assms]
      split: list.splits if_splits)

lemma one_deliverable_findings_Nil:
  assumes "distinct (map dl_key (cr_deliverables (ei_contract i)))" and "d \<in> set (cr_deliverables (ei_contract i))"
  shows "one_deliverable_findings i d = [] \<longleftrightarrow> deliverable_proved i d"
proof (cases "matching_binding i d")
  case (Pair m inv)
  show ?thesis
  proof (cases m)
    case None
    with Pair matching_binding_Some [OF assms] show ?thesis
      by (auto simp: one_deliverable_findings_def deliverable_proved_def)
  next
    case (Some e)
    with Pair matching_binding_Some [OF assms, of e] show ?thesis
      by (auto simp: one_deliverable_findings_def deliverable_proved_def Let_def
          evidence_findings_Nil [OF assms] split: option.splits)
  qed
qed

lemma deliverable_findings_Nil:
  assumes "distinct (map dl_key (cr_deliverables (ei_contract i)))"
  shows "deliverable_findings i = [] \<longleftrightarrow> list_all (deliverable_proved i) (cr_deliverables (ei_contract i))"
proof -
  have "deliverable_findings i = [] \<longleftrightarrow>
      (\<forall>d \<in> set (cr_deliverables (ei_contract i)). one_deliverable_findings i d = [])"
    by (simp add: deliverable_findings_def flip: set_empty)
  then show ?thesis
    using one_deliverable_findings_Nil [OF assms] by (simp add: list_all_iff)
qed

definition context_proved :: "evaluation_input \<Rightarrow> context_reference \<Rightarrow> bool" where
  "context_proved i r =
     (\<exists>p dg. filter (\<lambda>p. cp_reference_identity p = context_reference_identity r) (ei_contexts i) = [p] \<and>
        context_reference_digest r = Inr (Some dg) \<and> cp_current_digest p = Some dg \<and>
        cp_status p = CtxAvailable \<and> (is_repository_document r \<longrightarrow> matches_repository_fact p r))"

text \<open>A contract may declare the same context several times: nothing validates against it. The last
  declaration of an identity governs.\<close>

fun governing :: "context_reference list \<Rightarrow> context_reference list" where
  "governing [] = []"
| "governing (r # rs) =
     (if context_reference_identity r \<in> context_reference_identity ` set rs then governing rs else r # governing rs)"

definition contexts_proved :: "evaluation_input \<Rightarrow> bool" where
  "contexts_proved i =
     (list_all (context_proved i) (filter ref_required (governing (cr_context_refs (ei_contract i)))) \<and>
      cp_reference_identity ` set (ei_contexts i) \<subseteq>
        context_reference_identity ` set (cr_context_refs (ei_contract i)))"

lemma context_loop_eq:
  "distinct (map fst req) \<Longrightarrow>
   context_loop req provided =
     (concat (map (\<lambda>(k, r, dg). context_finding k r dg (dict_get provided k)) req),
      fold AList.delete (map fst req) provided)"
proof (induction req arbitrary: provided)
  case (Cons x req)
  obtain k r dg where x: "x = (k, r, dg)" by (cases x)
  have eq: "map (\<lambda>(k', r, dg). context_finding k' r dg (dict_get (AList.delete k provided) k')) req
      = map (\<lambda>(k', r, dg). context_finding k' r dg (dict_get provided k')) req"
    using Cons.prems by (force simp: x dict_get_delete)
  from Cons show ?case by (simp add: x eq)
qed simp

lemma context_finding_Nil:
  "context_finding k r dg values = [] \<longleftrightarrow>
     (\<exists>p. values = [p] \<and> dg \<noteq> None \<and> cp_current_digest p = dg \<and> cp_status p = CtxAvailable \<and>
        (is_repository_document r \<longrightarrow> matches_repository_fact p r))"
  by (auto simp: context_finding_def Let_def split: list.splits context_status.splits)

definition declared_contexts :: "evaluation_input \<Rightarrow> context_reference list" where
  "declared_contexts i = map snd (dict_of (map (\<lambda>r. (context_reference_identity r, r)) (cr_context_refs (ei_contract i))))"

lemma dict_of_tagged: "dict_of (map (\<lambda>r. (f r, r)) rs) = map (\<lambda>r. (f r, r)) (map snd (dict_of (map (\<lambda>r. (f r, r)) rs)))"
proof -
  have "fst x = f (snd x)" if "x \<in> set (dict_of (map (\<lambda>r. (f r, r)) rs))" for x
    using map_of_SomeD [OF that [unfolded set_dict_of]] by auto
  then show ?thesis by (auto simp: comp_def intro!: map_idI [symmetric] prod_eqI)
qed

lemma declared_contexts_keys:
  "distinct (map context_reference_identity (declared_contexts i))"
  "context_reference_identity ` set (declared_contexts i) = context_reference_identity ` set (cr_context_refs (ei_contract i))"
proof -
  let ?kvs = "map (\<lambda>r. (context_reference_identity r, r)) (cr_context_refs (ei_contract i))"
  have keys: "map context_reference_identity (declared_contexts i) = map fst (dict_of ?kvs)"
    unfolding declared_contexts_def by (subst (2) dict_of_tagged) (simp add: comp_def)
  then show "distinct (map context_reference_identity (declared_contexts i))" by simp
  have "context_reference_identity ` set (declared_contexts i) = fst ` set (dict_of ?kvs)"
    using arg_cong [OF keys, of set] by simp
  then show "context_reference_identity ` set (declared_contexts i) = context_reference_identity ` set (cr_context_refs (ei_contract i))"
    by (simp add: keys_dict_of image_image)
qed

lemma governing_last:
  "map_of (rev (map (\<lambda>r. (context_reference_identity r, r)) rs)) k = Some r \<longleftrightarrow>
     r \<in> set (governing rs) \<and> context_reference_identity r = k"
proof (induction rs)
  case (Cons x rs)
  let ?old = "map_of (rev (map (\<lambda>r. (context_reference_identity r, r)) rs))"
  have dom: "?old k = None \<longleftrightarrow> k \<notin> context_reference_identity ` set rs"
    by (simp add: map_of_eq_None_iff image_image)
  have sub: "set (governing rs) \<subseteq> set rs" for rs by (induction rs) auto
  show ?case
    using Cons dom sub [of rs] by (cases "?old k") (auto simp: map_add_def split: if_splits)
qed simp

lemma dict_values: "r \<in> snd ` set (dict_of kvs) \<longleftrightarrow> (\<exists>k. map_of (rev kvs) k = Some r)"
proof -
  have "r \<in> snd ` set (dict_of kvs) \<longleftrightarrow> (\<exists>k. (k, r) \<in> set (dict_of kvs))" by (simp add: image_iff Bex_def)
  then show ?thesis by (simp add: set_dict_of)
qed

lemma set_declared_contexts: "set (declared_contexts i) = set (governing (cr_context_refs (ei_contract i)))"
proof -
  let ?kvs = "map (\<lambda>r. (context_reference_identity r, r)) (cr_context_refs (ei_contract i))"
  note dict_values [of _ ?kvs]
  then have "r \<in> set (declared_contexts i) \<longleftrightarrow> r \<in> set (governing (cr_context_refs (ei_contract i)))" for r
    unfolding declared_contexts_def set_map governing_last by simp
  then show ?thesis by blast
qed

definition required_items ::
  "evaluation_input \<Rightarrow> (canonical_error, (string \<times> context_reference \<times> string option) list) result" where
  "required_items i = res_map (\<lambda>r. res_bind (context_reference_digest r)
      (\<lambda>dg. Inr (context_reference_identity r, r, dg)))
      (filter ref_required (declared_contexts i))"

lemma required_items_Inr:
  assumes "required_items i = Inr req"
  shows "req = map (\<lambda>r. (context_reference_identity r, r, projr (context_reference_digest r)))
           (filter ref_required (declared_contexts i))"
    and "\<forall>r \<in> set (filter ref_required (declared_contexts i)).
           is_ok (context_reference_digest r)"
proof -
  have "list_all2 (\<lambda>r y. context_reference_digest r = Inr (snd (snd y)) \<and>
      y = (context_reference_identity r, r, snd (snd y)))
      (filter ref_required (declared_contexts i)) req"
    using assms unfolding required_items_def res_map_Inr_iff
    by (rule list_all2_mono) (auto simp: result_simps)
  moreover have "list_all2 (\<lambda>r y. context_reference_digest r = Inr (snd (snd y)) \<and>
      y = (context_reference_identity r, r, snd (snd y))) xs req \<Longrightarrow>
      req = map (\<lambda>r. (context_reference_identity r, r, projr (context_reference_digest r))) xs \<and>
      (\<forall>r \<in> set xs. is_ok (context_reference_digest r))" for xs
  proof (induction rule: list_all2_induct)
    case (Cons x xs y ys)
    then show ?case by (cases y) auto
  qed simp
  ultimately show
    "req = map (\<lambda>r. (context_reference_identity r, r, projr (context_reference_digest r)))
        (filter ref_required (declared_contexts i))"
    "\<forall>r \<in> set (filter ref_required (declared_contexts i)).
        is_ok (context_reference_digest r)" by blast+
qed

lemma context_findings_eq:
  "context_findings i = res_bind (required_items i) (\<lambda>required. Inr
     (concat (map (\<lambda>(k, r, dg). context_finding k r dg
          (filter (\<lambda>p. cp_reference_identity p = k) (ei_contexts i))) (sort_key fst required)) @
      map (\<lambda>identity. finding ''context_predicate_unexpected''
             (''context '' @ identity @ '' is not declared'') None)
        (sort (map fst (fold AList.delete
           (map fst (sort_key fst required) @
            map context_reference_identity (filter (\<lambda>r. \<not> ref_required r) (declared_contexts i)))
           (group_by cp_reference_identity (ei_contexts i)))))))"
proof -
  have "dict_of (map (\<lambda>r. (context_reference_identity r, r)) (cr_context_refs (ei_contract i)))
      = map (\<lambda>r. (context_reference_identity r, r)) (declared_contexts i)"
    unfolding declared_contexts_def by (rule dict_of_tagged)
  moreover have "distinct (map fst (sort_key fst required))" if "required_items i = Inr required" for required
  proof -
    have "map fst required = map context_reference_identity (filter ref_required (declared_contexts i))"
      using required_items_Inr(1) [OF that] by simp
    then have "distinct (map fst required)" using declared_contexts_keys(1) by (simp add: distinct_map_filter)
    then show ?thesis by (metis distinct_map distinct_sort set_sort)
  qed
  ultimately show ?thesis
    unfolding context_findings_def Let_def
    by (cases "required_items i")
      (simp_all add: filter_map comp_def res_map_map required_items_def context_loop_eq fold_append)
qed

lemma context_finding_proved:
  assumes "is_ok (context_reference_digest r)"
  shows "context_finding (context_reference_identity r) r (projr (context_reference_digest r))
      (filter (\<lambda>p. cp_reference_identity p = context_reference_identity r) (ei_contexts i)) = []
    \<longleftrightarrow> context_proved i r"
  using assms by (auto simp: is_ok_iff context_finding_Nil context_proved_def)

lemma context_findings_Nil: "context_findings i = Inr [] \<longleftrightarrow> contexts_proved i"
proof (cases "required_items i")
  case (Inl e)
  then obtain r e' where "r \<in> set (filter ref_required (declared_contexts i))"
    "context_reference_digest r = Inl e'"
    unfolding required_items_def by (auto dest!: res_map_Inl simp: result_simps)
  then have "\<not> contexts_proved i"
    by (auto simp: contexts_proved_def list_all_iff context_proved_def set_declared_contexts)
  with Inl show ?thesis by (simp add: context_findings_eq)
next
  case (Inr req)
  note req = required_items_Inr [OF Inr]
  have keys: "fst ` set req \<union> context_reference_identity ` {r \<in> set (declared_contexts i). \<not> ref_required r}
      = context_reference_identity ` set (declared_contexts i)"
    unfolding req(1) by force
  have found: "(\<forall>x \<in> set req. case x of (k, r, dg) \<Rightarrow> context_finding k r dg
        (filter (\<lambda>p. cp_reference_identity p = k) (ei_contexts i)) = []) \<longleftrightarrow>
      list_all (context_proved i) (filter ref_required (declared_contexts i))"
    unfolding req(1) using req(2) context_finding_proved by (simp add: list_all_iff)
  have "context_findings i = Inr [] \<longleftrightarrow>
      (\<forall>x \<in> set req. case x of (k, r, dg) \<Rightarrow> context_finding k r dg
          (filter (\<lambda>p. cp_reference_identity p = k) (ei_contexts i)) = []) \<and>
      fst ` set (fold AList.delete (map fst (sort_key fst req) @
            map context_reference_identity (filter (\<lambda>r. \<not> ref_required r) (declared_contexts i)))
           (group_by cp_reference_identity (ei_contexts i))) = {}"
    unfolding context_findings_eq Inr by (auto simp flip: set_empty)
  also have "\<dots> \<longleftrightarrow> contexts_proved i"
    unfolding keys_fold_delete keys_group_by found contexts_proved_def
    using keys declared_contexts_keys(2) [of i] set_declared_contexts [of i] by (auto simp: list_all_iff)
  finally show ?thesis .
qed

text \<open>A required declaration that a later optional one of the same identity shadows is not checked.\<close>

lemma shadowed_requirement_is_not_checked:
  assumes "cr_context_refs (ei_contract i) = [r, r']" and "context_reference_identity r = context_reference_identity r'"
    and "ref_required r" and "\<not> ref_required r'" and "ei_contexts i = []"
  shows "context_findings i = Inr []"
  using assms by (simp add: context_findings_Nil contexts_proved_def)

section \<open>What the dependency findings decide\<close>

definition dependency_proved :: "evaluation_input \<Rightarrow> delivery_dependency \<Rightarrow> bool" where
  "dependency_proved i d =
     (\<exists>p r. filter (\<lambda>p. dp_identity p = dd_identity d) (ei_dependencies i) = [p] \<and>
        dp_current_disposition p \<in> {DActive, DFulfilled} \<and>
        dp_current_contract_revision p = dd_contract_revision d \<and>
        dp_current_attempt p = dd_attempt d \<and>
        dp_receipt p = Some r \<and> receipt_matches_pin r p)"

definition dependencies_proved :: "evaluation_input \<Rightarrow> bool" where
  "dependencies_proved i =
     (list_all (dependency_proved i) (cr_dependencies (ei_contract i)) \<and>
      dp_identity ` set (ei_dependencies i) \<subseteq> dd_identity ` set (cr_dependencies (ei_contract i)))"

lemma dependency_loop_eq:
  "distinct req \<Longrightarrow>
   dependency_loop req provided =
     (concat (map (\<lambda>k. dependency_finding (dict_get provided k)) req), fold AList.delete req provided)"
proof (induction req arbitrary: provided)
  case (Cons k req)
  have eq: "map (\<lambda>k'. dependency_finding (dict_get (AList.delete k provided) k')) req
      = map (\<lambda>k'. dependency_finding (dict_get provided k')) req"
    using Cons.prems by (auto simp: dict_get_delete)
  from Cons show ?case by (simp add: eq)
qed simp

lemma dependency_finding_proved:
  "dependency_finding (filter (\<lambda>p. dp_identity p = dd_identity d) (ei_dependencies i)) = []
     \<longleftrightarrow> dependency_proved i d"
proof -
  let ?ps = "filter (\<lambda>p. dp_identity p = dd_identity d) (ei_dependencies i)"
  have *: "dependency_finding ps = [] \<longleftrightarrow> (\<exists>p r. ps = [p] \<and> dp_current_disposition p \<in> {DActive, DFulfilled} \<and>
      dp_contract_revision p = dp_current_contract_revision p \<and> dp_attempt p = dp_current_attempt p \<and>
      dp_receipt p = Some r \<and> receipt_matches_pin r p)" for ps
    by (auto simp: dependency_finding_def split: list.splits option.splits disposition.splits if_splits)
       (metis disposition.exhaust)+
  have pin: "dp_contract_revision p = dd_contract_revision d \<and> dp_attempt p = dd_attempt d"
    if "?ps = [p]" for p
    using arg_cong [OF that, of set] by (auto simp: dp_identity_def dd_identity_def)
  show ?thesis unfolding * dependency_proved_def by (metis pin)
qed

lemma dependency_findings_Nil: "dependency_findings i = [] \<longleftrightarrow> dependencies_proved i"
proof -
  let ?req = "sort_key identity_text (remdups (map dd_identity (cr_dependencies (ei_contract i))))"
  have "dependency_findings i = [] \<longleftrightarrow>
      (\<forall>k \<in> set ?req. dependency_finding (filter (\<lambda>p. dp_identity p = k) (ei_dependencies i)) = []) \<and>
      fst ` set (fold AList.delete ?req (group_by dp_identity (ei_dependencies i))) = {}"
    by (auto simp: dependency_findings_def Let_def dependency_loop_eq simp flip: set_empty)
  also have "\<dots> \<longleftrightarrow> dependencies_proved i"
    unfolding keys_fold_delete keys_group_by dependencies_proved_def
    by (auto simp: list_all_iff dependency_finding_proved)
  finally show ?thesis .
qed

section \<open>Freshness\<close>

definition within_freshness :: "evaluation_input \<Rightarrow> instant \<Rightarrow> pydatetime \<Rightarrow> pydatetime \<Rightarrow> bool" where
  "within_freshness i now started finished =
     (is_aware started \<and> is_aware finished \<and> moment started \<le> moment finished \<and>
      moment finished \<le> now \<and> now \<le> moment finished + ei_freshness_seconds i * 1000000)"

definition binding_fresh :: "evaluation_input \<Rightarrow> instant \<Rightarrow> binding_evidence \<Rightarrow> bool" where
  "binding_fresh i now e =
     (be_last_attempt_outcome e \<noteq> AttemptError \<and>
      (\<exists>c ev. be_confirmation e = Some c \<and> oc_evidence c = Some ev \<and>
         within_freshness i now (oc_collection_started_at c) (oc_collection_finished_at c)))"

definition required_documents :: "evaluation_input \<Rightarrow> context_reference list" where
  "required_documents i =
     filter (\<lambda>r. ref_required r \<and> is_repository_document r) (cr_context_refs (ei_contract i))"

definition predicate_for :: "evaluation_input \<Rightarrow> context_reference \<Rightarrow> context_predicate option" where
  "predicate_for i r =
     map_of (dict_of (map (\<lambda>p. (cp_reference_identity p, p)) (ei_contexts i))) (context_reference_identity r)"

definition predicate_fresh :: "evaluation_input \<Rightarrow> instant \<Rightarrow> context_predicate option \<Rightarrow> bool" where
  "predicate_fresh i now predicate =
     (\<exists>p started finished.
        predicate = Some p \<and> cp_status p = CtxAvailable \<and> cp_evidence p \<noteq> None \<and>
        cp_collection_started_at p = Some started \<and> cp_collection_finished_at p = Some finished \<and>
        cp_success_confirmation_id p \<noteq> None \<and> cp_latest_attempt_confirmation_id p \<noteq> None \<and>
        within_freshness i now started finished)"

definition observations_fresh :: "evaluation_input \<Rightarrow> instant \<Rightarrow> bool" where
  "observations_fresh i now =
     ((ei_active_bindings i \<noteq> [] \<or> required_documents i \<noteq> []) \<and>
      list_all (binding_fresh i now) (ei_active_bindings i) \<and>
      list_all (\<lambda>r. predicate_fresh i now (predicate_for i r)) (required_documents i))"

lemma aggregate_Fresh:
  "aggregate_observation_health states = Fresh \<longleftrightarrow>
     Fresh \<in> set states \<and> HealthError \<notin> set states \<and> Stale \<notin> set states \<and> NeverObserved \<notin> set states"
  by (auto simp: aggregate_observation_health_def)

lemma binding_health_Fresh: "binding_health i now e = Fresh \<longleftrightarrow> binding_fresh i now e"
  by (auto simp: binding_health_def binding_fresh_def within_freshness_def exceeds_freshness_def
      split: option.splits if_splits)

lemma context_health_Fresh: "context_health i now p = Fresh \<longleftrightarrow> predicate_fresh i now p"
  by (auto simp: context_health_def predicate_fresh_def within_freshness_def exceeds_freshness_def
      split: option.splits if_splits)

lemma binding_health_range: "binding_health i now e \<noteq> HealthDisabled"
  by (auto simp: binding_health_def split: option.splits)

lemma context_health_range: "context_health i now p \<noteq> HealthDisabled"
  by (auto simp: context_health_def split: option.splits)

lemma all_states_Fresh:
  "HealthDisabled \<notin> set states \<Longrightarrow>
   aggregate_observation_health states = Fresh \<longleftrightarrow> states \<noteq> [] \<and> list_all (\<lambda>s. s = Fresh) states"
  unfolding aggregate_Fresh list_all_iff
  by (metis (full_types) health.exhaust list.set_intros(1) neq_Nil_conv empty_iff list.set(1) health.distinct)

lemma current_health_Fresh:
  "current_health i now = Fresh \<longleftrightarrow> ei_feature_enabled i \<and> observations_fresh i now"
proof -
  have "HealthDisabled \<notin> set (binding_health_states i now @ repository_context_health_states i now)"
    using binding_health_range context_health_range
    by (simp add: binding_health_states_def repository_context_health_states_def Let_def image_iff) metis
  then show ?thesis
    unfolding current_health_def
    by (simp add: all_states_Fresh binding_health_states_def repository_context_health_states_def Let_def
        list.pred_map comp_def binding_health_Fresh context_health_Fresh observations_fresh_def
        flip: required_documents_def predicate_for_def)
qed

section \<open>The whole evaluation\<close>

abbreviation has_integration :: "evaluation_input \<Rightarrow> delivery_assessment \<Rightarrow> bool" where
  "has_integration i a \<equiv>
     receipt_matches (ei_integration_receipt i) IntegrationReceipt i (as_delivery_digest a)"

abbreviation has_fulfillment :: "evaluation_input \<Rightarrow> delivery_assessment \<Rightarrow> bool" where
  "has_fulfillment i a \<equiv>
     receipt_matches (ei_fulfillment_receipt i) FulfilledReceipt i (as_delivery_digest a)"

lemma lift_canonical_Inr: "lift_canonical r = Inr x \<longleftrightarrow> r = Inr x"
  by (cases r) (auto simp: lift_canonical_def)

lemma evaluate_delivery_elim:
  assumes "evaluate_delivery local_utc i t = Inr a"
  obtains now cfs active where
    "t = Aware now"
    "input_delivery_digest i = Inr (as_delivery_digest a)"
    "context_findings i = Inr cfs"
    "claim_active i now = Inr active"
    "as_assessed_at a = now"
    "as_observation_health a = current_health i now"
    "as_deliverables a = deliverable_findings i"
    "as_blockers a = evaluation_blockers i (current_health i now) (has_integration i a) cfs"
    "as_delivery_stage a = stage_of i (deliverable_findings i)"
    "as_requirements_satisfied a \<longleftrightarrow>
       as_blockers a = [] \<and> as_observation_health a = Fresh \<and> ei_coordination_disposition i = DActive"
    "as_integration_receipt_eligible a \<longleftrightarrow>
       as_delivery_stage a = StageIntegrated \<and> as_requirements_satisfied a"
    "as_contract_fulfilled a \<longleftrightarrow> has_fulfillment i a"
    "as_completion_eligible_now a \<longleftrightarrow>
       completion_eligible i (as_requirements_satisfied a) (has_integration i a) (has_fulfillment i a)"
    "as_eligible_work a = (if active then [] else eligible_work_of i (as_blockers a) (as_delivery_stage a)
       (has_integration i a) (has_fulfillment i a))"
    "canonical_digest (assessment_payload local_utc i (as_observation_health a) (as_blockers a)
       (as_eligible_work a) (as_delivery_digest a) active) Assessment = Inr (as_assessment_id a)"
    "(as_observed_at a, as_fresh_until a) = observation_times i"
proof -
  from assms obtain now where t: "t = Aware now"
    by (cases t) (auto simp: evaluate_delivery_def ensure_def)
  show ?thesis
    using assms unfolding evaluate_delivery_def t Let_def
    by (clarsimp simp: result_simps lift_canonical_Inr) (rule that [OF t]; simp)
qed

section \<open>When the evaluator returns\<close>

definition nul_free_opt :: "string option \<Rightarrow> bool" where
  "nul_free_opt s = pred_option nul_free s"

definition nul_free_binding :: "binding_evidence \<Rightarrow> bool" where
  "nul_free_binding e =
     (let b = be_binding e in
      nul_free (ab_deliverable_key b) \<and> nul_free (ab_id b) \<and>
      nul_free_opt (ab_head_sha b) \<and> nul_free_opt (ab_base_sha b) \<and>
      nul_free_opt (be_snapshot_id e) \<and> nul_free_opt (be_success_confirmation_id e) \<and>
      nul_free_opt (be_latest_attempt_confirmation_id e) \<and>
      pred_option (\<lambda>c. nul_free (oc_id c) \<and> pred_option (\<lambda>ev. nul_free (pe_head_sha ev) \<and>
        nul_free (pe_base_sha ev) \<and> nul_free_opt (pe_integration_sha ev) \<and>
        nul_free_opt (pe_integration_revision ev)) (oc_evidence c)) (be_confirmation e))"

definition nul_free_context :: "context_predicate \<Rightarrow> bool" where
  "nul_free_context p =
     (nul_free (cp_reference_identity p) \<and> nul_free_opt (cp_current_digest p) \<and>
      nul_free_opt (cp_snapshot_id p) \<and> nul_free_opt (cp_success_confirmation_id p) \<and>
      nul_free_opt (cp_latest_attempt_confirmation_id p))"

definition nul_free_dependency :: "dependency_predicate \<Rightarrow> bool" where
  "nul_free_dependency d =
     (nul_free (dp_ticket_id d) \<and> nul_free (dp_current_contract_digest d) \<and>
      nul_free (dp_current_delivery_digest d) \<and> nul_free_opt (map_option mr_id (dp_receipt d)))"

definition nul_free_reference :: "context_reference \<Rightarrow> bool" where
  "nul_free_reference r = (case r of RepositoryDocument _ sha path _ \<Rightarrow> nul_free sha \<and> nul_free path | _ \<Rightarrow> True)"

definition nul_free_input :: "evaluation_input \<Rightarrow> bool" where
  "nul_free_input i =
     (nul_free_opt (cr_content_digest (ei_contract i)) \<and>
      list_all nul_free_reference (cr_context_refs (ei_contract i)) \<and>
      nul_free (ei_coordination_status i) \<and>
      list_all nul_free_binding (ei_active_bindings i) \<and>
      list_all nul_free_context (ei_contexts i) \<and>
      list_all nul_free_dependency (ei_dependencies i) \<and>
      nul_free_opt (map_option mr_id (ei_integration_receipt i)) \<and>
      nul_free_opt (map_option mr_id (ei_fulfillment_receipt i)) \<and>
      nul_free_opt (Option.bind (ei_claim i) cs_owner))"

lemma delivery_digest_ok:
  assumes "nul_free d" and "list_all nul_free_binding bs"
  shows "is_ok (delivery_digest d n bs)"
proof -
  have "canonical_at (Suc (Suc 0)) (delivery_binding_payload e)" if "nul_free_binding e" for e
    using that
    by (cases "be_confirmation e"; cases "current_evidence e")
      (auto simp: delivery_binding_payload_def nul_free_binding_def nul_free_opt_def Let_def current_evidence_def
        comp_def option.pred_set)
  with assms show ?thesis
    by (simp add: delivery_digest_def canonical_digest_ok delivery_payload_def list_all_iff
        MAX_CANONICAL_JSON_DEPTH_def)
qed

lemma context_reference_digest_ok:
  "nul_free_reference r \<Longrightarrow> is_ok (context_reference_digest r)"
  by (cases r) (auto simp: context_reference_digest_def nul_free_reference_def canonical_digest_ok)

section \<open>The vocabulary of findings\<close>

definition well_formed_finding :: "delivery_finding \<Rightarrow> bool" where
  "well_formed_finding f = (df_code f \<in> set DELIVERY_FINDING_CODES \<and> length (df_detail f) \<le> 1000)"

lemma well_formed_finding_finding [simp]:
  "well_formed_finding (finding c t k) \<longleftrightarrow> c \<in> set DELIVERY_FINDING_CODES"
  by (simp add: well_formed_finding_def)

lemma known_codes [simp]:
  "''base_mismatch'' \<in> set DELIVERY_FINDING_CODES"
  "''binding_identity_invalid'' \<in> set DELIVERY_FINDING_CODES"
  "''binding_identity_mismatch'' \<in> set DELIVERY_FINDING_CODES"
  "''binding_missing'' \<in> set DELIVERY_FINDING_CODES"
  "''binding_unobserved'' \<in> set DELIVERY_FINDING_CODES"
  "''check_cancelled'' \<in> set DELIVERY_FINDING_CODES"
  "''check_failed'' \<in> set DELIVERY_FINDING_CODES"
  "''check_missing'' \<in> set DELIVERY_FINDING_CODES"
  "''check_neutral'' \<in> set DELIVERY_FINDING_CODES"
  "''check_pending'' \<in> set DELIVERY_FINDING_CODES"
  "''check_skipped'' \<in> set DELIVERY_FINDING_CODES"
  "''completion_action_invalid'' \<in> set DELIVERY_FINDING_CODES"
  "''context_changed'' \<in> set DELIVERY_FINDING_CODES"
  "''context_digest_missing'' \<in> set DELIVERY_FINDING_CODES"
  "''context_error'' \<in> set DELIVERY_FINDING_CODES"
  "''context_missing'' \<in> set DELIVERY_FINDING_CODES"
  "''context_predicate_duplicate'' \<in> set DELIVERY_FINDING_CODES"
  "''context_predicate_missing'' \<in> set DELIVERY_FINDING_CODES"
  "''context_predicate_unexpected'' \<in> set DELIVERY_FINDING_CODES"
  "''context_proof_invalid'' \<in> set DELIVERY_FINDING_CODES"
  "''delivery_disabled'' \<in> set DELIVERY_FINDING_CODES"
  "''delivery_disposition_terminal'' \<in> set DELIVERY_FINDING_CODES"
  "''delivery_terminal'' \<in> set DELIVERY_FINDING_CODES"
  "''dependency_generation_mismatch'' \<in> set DELIVERY_FINDING_CODES"
  "''dependency_predicate_duplicate'' \<in> set DELIVERY_FINDING_CODES"
  "''dependency_predicate_missing'' \<in> set DELIVERY_FINDING_CODES"
  "''dependency_predicate_unexpected'' \<in> set DELIVERY_FINDING_CODES"
  "''dependency_receipt_mismatch'' \<in> set DELIVERY_FINDING_CODES"
  "''dependency_receipt_missing'' \<in> set DELIVERY_FINDING_CODES"
  "''dependency_unsuccessful'' \<in> set DELIVERY_FINDING_CODES"
  "''head_mismatch'' \<in> set DELIVERY_FINDING_CODES"
  "''integration_identity_missing'' \<in> set DELIVERY_FINDING_CODES"
  "''merge_conflict'' \<in> set DELIVERY_FINDING_CODES"
  "''mergeability_unknown'' \<in> set DELIVERY_FINDING_CODES"
  "''observation_error'' \<in> set DELIVERY_FINDING_CODES"
  "''observation_incomplete'' \<in> set DELIVERY_FINDING_CODES"
  "''observation_missing'' \<in> set DELIVERY_FINDING_CODES"
  "''observation_stale'' \<in> set DELIVERY_FINDING_CODES"
  "''pr_draft'' \<in> set DELIVERY_FINDING_CODES"
  "''pr_not_merged'' \<in> set DELIVERY_FINDING_CODES"
  "''reopen_required'' \<in> set DELIVERY_FINDING_CODES"
  "''review_approval_missing'' \<in> set DELIVERY_FINDING_CODES"
  "''review_changes_requested'' \<in> set DELIVERY_FINDING_CODES"
  by (simp_all add: DELIVERY_FINDING_CODES_def)

lemma check_finding_wf: "list_all well_formed_finding (check_finding ev key r)"
  by (auto simp: check_finding_def conclusion_text_def
      split: option.splits conclusion.splits)

lemma review_findings_wf: "list_all well_formed_finding (review_findings p ev key)"
  by (auto simp: review_findings_def Let_def)

lemma merge_findings_wf: "list_all well_formed_finding (merge_findings ev key)"
  by (auto simp: merge_findings_def split: option.splits bool.splits)

lemma evidence_findings_wf: "list_all well_formed_finding (evidence_findings i d b ev)"
  using check_finding_wf review_findings_wf merge_findings_wf
  by (auto simp: evidence_findings_def Let_def list_all_iff)

lemma one_deliverable_findings_wf: "list_all well_formed_finding (one_deliverable_findings i d)"
  using evidence_findings_wf
  by (auto simp: one_deliverable_findings_def Let_def split: prod.splits option.splits)

lemma deliverable_findings_wf: "list_all well_formed_finding (deliverable_findings i)"
  using one_deliverable_findings_wf by (simp add: deliverable_findings_def list_all_iff)

lemma context_finding_wf: "list_all well_formed_finding (context_finding k r dg vs)"
  by (cases vs; cases "tl vs") (simp_all add: context_finding_def Let_def)

lemma context_loop_wf: "list_all well_formed_finding (fst (context_loop req provided))"
  by (induction req provided rule: context_loop.induct) (auto simp: context_finding_wf split: prod.splits)

lemma context_findings_wf: "context_findings i = Inr cfs \<Longrightarrow> list_all well_formed_finding cfs"
  using context_loop_wf
  by (auto simp: context_findings_def Let_def result_simps list_all_iff split_beta)

lemma dependency_finding_wf: "list_all well_formed_finding (dependency_finding vs)"
  by (auto simp: dependency_finding_def Let_def split: list.splits option.splits)

lemma dependency_loop_wf: "list_all well_formed_finding (fst (dependency_loop req provided))"
  by (induction req provided rule: dependency_loop.induct) (auto simp: dependency_finding_wf split: prod.splits)

lemma dependency_findings_wf: "list_all well_formed_finding (dependency_findings i)"
  using dependency_loop_wf
  by (auto simp: dependency_findings_def Let_def list_all_iff split_beta)

lemma state_findings_wf: "list_all well_formed_finding (state_findings i h b)"
  by (simp add: state_findings_def)

lemma evaluation_blockers_wf:
  "context_findings i = Inr cfs \<Longrightarrow> list_all well_formed_finding (evaluation_blockers i h b cfs)"
  using deliverable_findings_wf context_findings_wf dependency_findings_wf state_findings_wf
  by (auto simp: evaluation_blockers_def list_all_iff)

lemma vocabulary_nul_free: "list_all nul_free DELIVERY_FINDING_CODES"
  by (simp add: DELIVERY_FINDING_CODES_def)

lemma text_nul_free [simp]:
  "nul_free (disposition_text d)" "nul_free (completion_action_text ca)" "nul_free (health_text h)"
  "nul_free (work_kind_text w)" "nul_free (context_status_text cs)" "nul_free (outcome_text e)"
  by (simp_all add: disposition_text_def completion_action_text_def health_text_def work_kind_text_def
      context_status_text_def outcome_text_def
      split: disposition.splits completion_action.splits health.splits work_kind.splits
        context_status.splits option.splits outcome.splits attempt_outcome.splits)

lemma timestamp_nul_free [simp]: "pred_option nul_free (timestamp_of t)"
  by (cases t) (simp_all add: timestamp_of_def)

lemma assessment_binding_payload_ok:
  "nul_free_binding e \<Longrightarrow> canonical_at (Suc (Suc 0)) (assessment_binding_payload e)"
  by (cases "be_confirmation e"; cases "current_evidence e")
    (auto simp: assessment_binding_payload_def nul_free_binding_def nul_free_opt_def Let_def
      current_evidence_def comp_def option.pred_set)

lemma assessment_context_payload_ok:
  "nul_free_context p \<Longrightarrow> canonical_at (Suc (Suc 0)) (assessment_context_payload tz p)"
  by (auto simp: assessment_context_payload_def nul_free_context_def nul_free_opt_def Let_def comp_def)

lemma assessment_dependency_payload_ok:
  "nul_free_dependency d \<Longrightarrow> canonical_at (Suc (Suc 0)) (assessment_dependency_payload d)"
  by (auto simp: assessment_dependency_payload_def nul_free_dependency_def nul_free_opt_def comp_def
      option.pred_map)

lemma assessment_payload_ok:
  assumes "nul_free_input i" and "list_all well_formed_finding fs" and "nul_free digest"
  shows "canonical_at 0 (assessment_payload tz i h fs work digest active)"
proof -
  have "nul_free (df_code f)" if "f \<in> set fs" for f
    using assms(2) that vocabulary_nul_free by (auto simp: list_all_iff well_formed_finding_def)
  with assms show ?thesis
    by (auto simp: assessment_payload_def Let_def nul_free_input_def nul_free_opt_def comp_def option.pred_map
        list_all_iff assessment_binding_payload_ok assessment_context_payload_ok
        assessment_dependency_payload_ok MAX_CANONICAL_JSON_DEPTH_def option.pred_True)
qed

lemma context_findings_ok:
  assumes "list_all nul_free_reference (cr_context_refs (ei_contract i))"
  shows "is_ok (context_findings i)"
proof -
  have "is_ok (res_map (\<lambda>(identity, r). res_bind (context_reference_digest r)
      (\<lambda>dg. Inr (identity, r, dg))) (filter (\<lambda>(_, r). ref_required r)
        (dict_of (map (\<lambda>r. (context_reference_identity r, r)) (cr_context_refs (ei_contract i))))))"
  proof (rule res_map_ok)
    fix x assume "x \<in> set (filter (\<lambda>(_, r). ref_required r)
        (dict_of (map (\<lambda>r. (context_reference_identity r, r)) (cr_context_refs (ei_contract i)))))"
    then have "snd x \<in> set (cr_context_refs (ei_contract i))"
      by (auto simp: set_dict_of dest!: map_of_SomeD)
    then show "is_ok (case x of (identity, r) \<Rightarrow> res_bind (context_reference_digest r)
      (\<lambda>dg. Inr (identity, r, dg)))"
      using assms context_reference_digest_ok by (auto simp: list_all_iff split: prod.splits)
  qed
  then show ?thesis by (auto simp: context_findings_def Let_def is_ok_iff split_beta)
qed

lemma claim_active_returns:
  assumes "\<And>c x. ei_claim i = Some c \<Longrightarrow> cs_expires_at c \<noteq> Some (Naive x)"
  shows "\<exists>active. claim_active i now = Inr active"
proof (cases "ei_claim i")
  case (Some c)
  with assms show ?thesis
    by (cases "cs_expires_at c"; cases "the (cs_expires_at c)") (auto simp: claim_active_def)
qed (auto simp: claim_active_def intro: exI [of _ False])

lemma evaluate_delivery_returns:
  assumes "nul_free_input i" and "cr_content_digest (ei_contract i) \<noteq> None"
    and "\<And>c x. ei_claim i = Some c \<Longrightarrow> cs_expires_at c \<noteq> Some (Naive x)"
  shows "\<exists>a. evaluate_delivery tz i (Aware now) = Inr a"
proof -
  obtain d where d: "cr_content_digest (ei_contract i) = Some d" using assms(2) by auto
  obtain digest where dg: "delivery_digest d (ei_attempt i) (ei_active_bindings i) = Inr digest"
    using delivery_digest_ok [of d "ei_active_bindings i" "ei_attempt i"] assms(1)
    by (auto simp: nul_free_input_def d nul_free_opt_def is_ok_iff)
  have free: "nul_free digest"
    using canonical_digest_Inr dg hex_nul_free by (auto simp: delivery_digest_def validate_digest_def)
  obtain cfs where cfs: "context_findings i = Inr cfs"
    using context_findings_ok assms(1) by (auto simp: nul_free_input_def is_ok_iff)
  obtain active where act: "claim_active i now = Inr active"
    using claim_active_returns assms(3) by blast
  let ?b = "evaluation_blockers i (current_health i now)
    (receipt_matches (ei_integration_receipt i) IntegrationReceipt i digest) cfs"
  have "is_ok (canonical_digest (assessment_payload tz i (current_health i now) ?b w digest active) Assessment)" for w
    using assessment_payload_ok [OF assms(1) evaluation_blockers_wf [OF cfs] free]
    by (simp add: canonical_digest_ok)
  then obtain aid where "canonical_digest (assessment_payload tz i (current_health i now) ?b
      (if active then [] else eligible_work_of i ?b (stage_of i (deliverable_findings i))
        (receipt_matches (ei_integration_receipt i) IntegrationReceipt i digest)
        (receipt_matches (ei_fulfillment_receipt i) FulfilledReceipt i digest)) digest active)
      Assessment = Inr aid" unfolding is_ok_iff by blast
  then show ?thesis
    by (simp add: evaluate_delivery_def Let_def input_delivery_digest_def d dg cfs act lift_canonical_def)
qed

section \<open>The requirements of a delivery\<close>

definition delivery_requirements :: "evaluation_input \<Rightarrow> instant \<Rightarrow> bool \<Rightarrow> bool" where
  "delivery_requirements i now integrated =
     (ei_feature_enabled i \<and> ei_coordination_disposition i = DActive \<and>
      ei_coordination_status i \<notin> {''wontfix'', ''closed'', ''acked''} \<and>
      (ei_coordination_status i = ''resolved'' \<longrightarrow> integrated) \<and>
      completion_action_valid i \<and> observations_fresh i now \<and>
      list_all (deliverable_proved i) (cr_deliverables (ei_contract i)) \<and>
      contexts_proved i \<and> dependencies_proved i)"

lemma state_findings_Nil:
  "state_findings i Fresh b = [] \<longleftrightarrow>
     ei_feature_enabled i \<and> ei_coordination_disposition i = DActive \<and>
     ei_coordination_status i \<notin> {''wontfix'', ''closed'', ''acked''} \<and>
     (ei_coordination_status i = ''resolved'' \<longrightarrow> b)"
  by (cases "ei_coordination_disposition i") (auto simp: state_findings_def)

lemma evaluation_blockers_Nil:
  "evaluation_blockers i h b cfs = [] \<longleftrightarrow>
     deliverable_findings i = [] \<and> cfs = [] \<and> dependency_findings i = [] \<and>
     state_findings i h b = [] \<and> completion_action_valid i"
  by (auto simp: evaluation_blockers_def simp flip: set_empty)

lemma satisfied_stage:
  assumes keys: "distinct (map dl_key (cr_deliverables (ei_contract i)))"
    and proved: "list_all (deliverable_proved i) (cr_deliverables (ei_contract i))"
    and bound: "\<forall>e \<in> set (ei_active_bindings i).
      ab_deliverable_key (be_binding e) \<in> dl_key ` set (cr_deliverables (ei_contract i))"
    and ne: "cr_deliverables (ei_contract i) \<noteq> []"
  shows "stage_of i [] = StageIntegrated"
proof -
  let ?k = "\<lambda>e. ab_deliverable_key (be_binding e)"
  let ?bs = "ei_active_bindings i" and ?ds = "cr_deliverables (ei_contract i)"
  have one: "\<exists>e. filter (\<lambda>e. ?k e = dl_key d) ?bs = [e] \<and> (\<exists>ev. current_evidence e = Some ev \<and> pe_state ev = PrMerged)"
    if "d \<in> set ?ds" for d
    using proved that
    by (auto simp: list_all_iff deliverable_proved_def evidence_proved_def current_evidence_def dest!: bspec)
  have merged: "\<exists>ev. current_evidence e = Some ev \<and> pe_state ev = PrMerged" if "e \<in> set ?bs" for e
  proof -
    obtain d where d: "d \<in> set ?ds" "?k e = dl_key d" using bound \<open>e \<in> set ?bs\<close> by auto
    obtain e' where e': "filter (\<lambda>e. ?k e = dl_key d) ?bs = [e']"
        "\<exists>ev. current_evidence e' = Some ev \<and> pe_state ev = PrMerged" using one [OF d(1)] by blast
    have "e \<in> set (filter (\<lambda>e. ?k e = dl_key d) ?bs)" using that d by simp
    with e' show ?thesis by simp
  qed
  have "mset (map ?k ?bs) = mset (map dl_key ?ds)"
  proof (rule multiset_eqI)
    fix k
    have *: "count (mset (map f xs)) k = length (filter (\<lambda>e. f e = k) xs)"
      for f :: "binding_evidence \<Rightarrow> string" and xs by (induction xs) auto
    show "count (mset (map ?k ?bs)) k = count (mset (map dl_key ?ds)) k"
    proof (cases "k \<in> dl_key ` set ?ds")
      case True
      then obtain d where d: "d \<in> set ?ds" "k = dl_key d" by auto
      then have "count (mset (map dl_key ?ds)) k = 1"
        using keys by (simp add: distinct_count_atmost_1)
      moreover have "length (filter (\<lambda>e. ?k e = k) ?bs) = 1" using one [OF d(1)] d(2) by auto
      ultimately show ?thesis using * by simp
    next
      case False
      then have "filter (\<lambda>e. ?k e = k) ?bs = []" using bound by (auto simp: filter_empty_conv)
      with False * show ?thesis by (simp add: count_eq_zero_iff)
    qed
  qed
  then have len: "length ?bs = length ?ds" by (metis length_map size_mset)
  have all: "list_all (\<lambda>e. current_evidence e \<noteq> None) ?bs" using merged by (auto simp: list_all_iff)
  have "?bs \<noteq> []" using len ne by auto
  with merged len show ?thesis
    by (simp add: stage_of_def Let_def map_filter_all_Some [OF all] list.pred_map list_all_iff comp_def) fastforce
qed

definition receipt_is_current :: "evaluation_input \<Rightarrow> milestone_receipt \<Rightarrow> bool" where
  "receipt_is_current i r =
     (mr_ticket_id r = cr_ticket_id (ei_contract i) \<and>
      mr_contract_revision r = cr_contract_revision (ei_contract i) \<and> mr_attempt r = ei_attempt i \<and>
      cr_content_digest (ei_contract i) = Some (mr_contract_digest r) \<and>
      delivery_digest (mr_contract_digest r) (ei_attempt i) (ei_active_bindings i) = Inr (mr_delivery_digest r))"

lemma receipt_matches_current:
  assumes "input_delivery_digest i = Inr digest"
  shows "receipt_matches receipt m i digest \<longleftrightarrow>
    (\<exists>r. receipt = Some r \<and> mr_milestone r = m \<and> receipt_is_current i r)"
  using assms
  by (auto simp: receipt_matches_def receipt_is_current_def input_delivery_digest_def lift_canonical_Inr
      split: option.splits)

definition work_justified :: "evaluation_input \<Rightarrow> delivery_assessment \<Rightarrow> eligible_work \<Rightarrow> bool" where
  "work_justified i a w =
     (let codes = map df_code (as_blockers a);
          some_of = (\<lambda>cs. list_ex (\<lambda>c. c \<in> set cs) codes)
      in ei_feature_enabled i \<and> ei_coordination_disposition i = DActive \<and>
         \<not> list_ex work_blocking codes \<and>
         ew_role w = (if ew_kind w = WAccept then RequesterRole else ExecutorRole) \<and>
         (case ew_kind w of
            WImplement \<Rightarrow> some_of [''binding_missing''] \<or> some_of [''pr_draft'', ''binding_unobserved'']
          | WReview \<Rightarrow> some_of [''review_changes_requested'', ''review_approval_missing'']
          | WRepair \<Rightarrow> some_of (filter (\<lambda>c. c \<noteq> ''pr_not_merged'') TECHNICAL_CHECK_CODES)
          | WIntegrate \<Rightarrow> as_delivery_stage a \<noteq> StageIntegrated \<and> list_all (\<lambda>c. c = ''pr_not_merged'') codes
          | WAccept \<Rightarrow> has_integration i a \<and> \<not> has_fulfillment i a \<and>
              cr_acceptance_mode (ei_contract i) = Explicit))"

lemma eligible_work_justified:
  assumes "eligible_work_of i (as_blockers a) (as_delivery_stage a) (has_integration i a) (has_fulfillment i a) = ws"
  shows "ws = [] \<or> (\<exists>w. ws = [w] \<and> work_justified i a w)"
  unfolding assms [symmetric] eligible_work_of_def Let_def work_justified_def executor_work_def
  by (cases "ei_coordination_disposition i") (simp_all split: if_splits)

section \<open>Freshness over time\<close>

lemma predicate_for_Some:
  assumes "distinct (map cp_reference_identity (ei_contexts i))"
  shows "predicate_for i r = Some p \<longleftrightarrow>
    p \<in> set (ei_contexts i) \<and> cp_reference_identity p = context_reference_identity r"
  using assms
  by (auto simp: predicate_for_def set_dict_of_distinct comp_def image_iff)

lemma observed_instants_mem:
  "v \<in> set (observed_instants i) \<longleftrightarrow>
     (\<exists>e \<in> set (ei_active_bindings i). \<exists>c. be_confirmation e = Some c \<and> oc_evidence c \<noteq> None \<and>
        is_aware (oc_collection_finished_at c) \<and> v = moment (oc_collection_finished_at c)) \<or>
     (\<exists>r \<in> set (required_documents i). \<exists>p \<in> set (ei_contexts i). \<exists>f.
        cp_reference_identity p = context_reference_identity r \<and> cp_status p = CtxAvailable \<and>
        cp_collection_finished_at p = Some f \<and> is_aware f \<and> v = moment f)"
  by (auto simp: observed_instants_def Let_def map_filter_mem required_documents_def image_iff) blast+

lemma within_freshness_later:
  assumes "within_freshness i now s f" and "now \<le> later"
  shows "within_freshness i later s f \<longleftrightarrow> later \<le> moment f + ei_freshness_seconds i * 1000000"
  using assms by (auto simp: within_freshness_def)

lemma binding_fresh_later:
  assumes "binding_fresh i now e" and "now \<le> later" and "be_confirmation e = Some c"
  shows "oc_evidence c \<noteq> None" "is_aware (oc_collection_finished_at c)"
    "binding_fresh i later e \<longleftrightarrow> later \<le> moment (oc_collection_finished_at c) + ei_freshness_seconds i * 1000000"
  using assms by (auto simp: binding_fresh_def within_freshness_def)

lemma predicate_fresh_later:
  assumes "predicate_fresh i now (Some p)" and "now \<le> later"
  obtains f where "cp_status p = CtxAvailable" "cp_collection_finished_at p = Some f" "is_aware f"
    "predicate_fresh i later (Some p) \<longleftrightarrow> later \<le> moment f + ei_freshness_seconds i * 1000000"
  using assms by (auto simp: predicate_fresh_def within_freshness_def)

lemma observed_binding:
  assumes "observations_fresh i now" and "e \<in> set (ei_active_bindings i)"
  obtains c where "be_confirmation e = Some c" "binding_fresh i now e"
    "moment (oc_collection_finished_at c) \<in> set (observed_instants i)"
proof -
  from assms have fresh: "binding_fresh i now e" by (simp add: observations_fresh_def list_all_iff)
  then obtain c where c: "be_confirmation e = Some c" by (auto simp: binding_fresh_def)
  have "moment (oc_collection_finished_at c) \<in> set (observed_instants i)"
    unfolding observed_instants_mem
    using assms(2) c binding_fresh_later(1,2) [OF fresh order_refl c] by blast
  with fresh c that show ?thesis by blast
qed

lemma observed_document:
  assumes "observations_fresh i now" and "r \<in> set (required_documents i)"
    and "distinct (map cp_reference_identity (ei_contexts i))"
  obtains p f where "predicate_for i r = Some p" "predicate_fresh i now (Some p)"
    "cp_collection_finished_at p = Some f" "moment f \<in> set (observed_instants i)"
proof -
  from assms(1,2) have fresh: "predicate_fresh i now (predicate_for i r)"
    by (simp add: observations_fresh_def list_all_iff)
  then obtain p where p: "predicate_for i r = Some p" by (auto simp: predicate_fresh_def)
  with fresh obtain f where f: "cp_status p = CtxAvailable" "cp_collection_finished_at p = Some f" "is_aware f"
    using predicate_fresh_later [of i now p now] by auto
  have "moment f \<in> set (observed_instants i)"
    unfolding observed_instants_mem
    using assms(2) p [unfolded predicate_for_Some [OF assms(3)]] f by blast
  with fresh p f that show ?thesis by simp
qed

lemma observations_fresh_later:
  assumes fresh: "observations_fresh i now" and le: "now \<le> later"
    and dist: "distinct (map cp_reference_identity (ei_contexts i))"
  shows "observed_instants i \<noteq> []"
    and "observations_fresh i later \<longleftrightarrow>
      (\<forall>v \<in> set (observed_instants i). later \<le> v + ei_freshness_seconds i * 1000000)"
proof -
  have "ei_active_bindings i \<noteq> [] \<or> required_documents i \<noteq> []"
    using fresh by (simp add: observations_fresh_def)
  then obtain v where "v \<in> set (observed_instants i)"
    by (metis observed_binding [OF fresh] observed_document [OF fresh _ dist] list.set_sel(1))
  then show "observed_instants i \<noteq> []" by auto
  let ?ok = "\<lambda>v. later \<le> v + ei_freshness_seconds i * 1000000"
  show "observations_fresh i later \<longleftrightarrow> (\<forall>v \<in> set (observed_instants i). ?ok v)"
  proof
    assume later: "observations_fresh i later"
    show "\<forall>v \<in> set (observed_instants i). ?ok v"
    proof
      fix v assume "v \<in> set (observed_instants i)"
      then consider e c where "e \<in> set (ei_active_bindings i)" "be_confirmation e = Some c"
          "v = moment (oc_collection_finished_at c)"
        | r p f where "r \<in> set (required_documents i)" "p \<in> set (ei_contexts i)"
          "cp_reference_identity p = context_reference_identity r"
          "cp_collection_finished_at p = Some f" "v = moment f"
        unfolding observed_instants_mem by blast
      then show "?ok v"
      proof cases
        case (1 e c)
        with later have "binding_fresh i later e" by (simp add: observations_fresh_def list_all_iff)
        with 1 show ?thesis by (auto simp: binding_fresh_def within_freshness_def)
      next
        case (2 r p f)
        then have "predicate_for i r = Some p" using predicate_for_Some [OF dist] by blast
        with 2 later have "predicate_fresh i later (Some p)"
          by (auto simp: observations_fresh_def list_all_iff dest: bspec)
        with 2 show ?thesis by (auto simp: predicate_fresh_def within_freshness_def)
      qed
    qed
  next
    assume ok: "\<forall>v \<in> set (observed_instants i). ?ok v"
    have "binding_fresh i later e" if "e \<in> set (ei_active_bindings i)" for e
      using observed_binding [OF fresh that] ok binding_fresh_later(3) [OF _ le] by metis
    moreover have "predicate_fresh i later (predicate_for i r)" if "r \<in> set (required_documents i)" for r
      using observed_document [OF fresh that dist] ok predicate_fresh_later [OF _ le]
      by (metis option.inject)
    ultimately show "observations_fresh i later"
      using fresh by (simp add: observations_fresh_def list_all_iff)
  qed
qed

lemma satisfied_iff:
  assumes "evaluate_delivery local_utc i t = Inr a"
    and "distinct (map dl_key (cr_deliverables (ei_contract i)))"
  shows "as_requirements_satisfied a \<longleftrightarrow>
    delivery_requirements i (as_assessed_at a) (has_integration i a)"
  using assms(1)
proof (cases rule: evaluate_delivery_elim)
  case (1 now cfs active)
  have "cfs = [] \<longleftrightarrow> contexts_proved i"
    using context_findings_Nil [of i] 1(3) by simp
  moreover have "as_requirements_satisfied a \<longleftrightarrow> current_health i (as_assessed_at a) = Fresh \<and>
      evaluation_blockers i Fresh (has_integration i a) cfs = [] \<and> ei_coordination_disposition i = DActive"
    using 1 by auto
  ultimately show ?thesis
    by (auto simp: delivery_requirements_def evaluation_blockers_Nil state_findings_Nil current_health_Fresh
        deliverable_findings_Nil [OF assms(2)] dependency_findings_Nil)
qed

lemma completion_iff:
  assumes "evaluate_delivery local_utc i t = Inr a"
  shows "as_completion_eligible_now a \<longleftrightarrow>
    as_requirements_satisfied a \<and> completion_action_valid i \<and>
    (if ei_requested_completion_action i \<in> {Some CrossResolve, Some SelfResolvePending}
     then \<exists>r. ei_integration_receipt i = Some r \<and> mr_milestone r = IntegrationReceipt \<and> receipt_is_current i r
     else \<exists>r. ei_fulfillment_receipt i = Some r \<and> mr_milestone r = FulfilledReceipt \<and> receipt_is_current i r)"
  using assms
proof (cases rule: evaluate_delivery_elim)
  case (1 now cfs active)
  then show ?thesis
    by (simp add: completion_eligible_def receipt_matches_current [OF 1(2)])
qed

section \<open>A sample delivery\<close>

definition sample_sha :: "char \<Rightarrow> string" where
  "sample_sha c = replicate 40 c"

definition sample_evidence :: pull_request_evidence where
  "sample_evidence =
     \<lparr>pe_provider_id = 1, pe_repository_id = 7, pe_pr_number = 12, pe_author_id = ''ada'',
      pe_head_repository_id = 7, pe_head_sha = sample_sha CHR ''a'', pe_base_sha = sample_sha CHR ''b'',
      pe_base_ref = ''main'', pe_integration_sha = Some (sample_sha CHR ''c''), pe_state = PrMerged,
      pe_draft = False, pe_mergeable = None, pe_complete = True,
      pe_checks = [\<lparr>ca_record_id = 1, ca_provider_id = 5, ca_kind = CheckRun, ca_name = ''ci'',
        ca_app_slug = None, ca_head_sha = sample_sha CHR ''a'', ca_conclusion = CSuccess,
        ca_started_at = None, ca_completed_at = None, ca_check_suite_id = None, ca_record_url = None\<rparr>],
      pe_reviews = [\<lparr>rv_record_id = 1, rv_provider_id = 1, rv_reviewer = ''bob'',
        rv_head_sha = sample_sha CHR ''a'', rv_decision = Approved, rv_submitted_at = 5000000,
        rv_record_url = None\<rparr>],
      pe_synthetic_merges = [], pe_integration_revision = None, pe_collected_at = Aware 9000000\<rparr>"

definition sample_binding :: binding_evidence where
  "sample_binding =
     \<lparr>be_binding = \<lparr>ab_id = ''b1'', ab_ticket_id = ''t1'', ab_contract_revision = 1, ab_attempt = 1,
        ab_deliverable_key = ''api'', ab_repository_id = 7, ab_pr_number = 12, ab_state = BObserved,
        ab_head_sha = Some (sample_sha CHR ''a''), ab_base_sha = Some (sample_sha CHR ''b''),
        ab_integration_sha = None, ab_binding_version = 1\<rparr>,
      be_confirmation = Some \<lparr>oc_id = ''o1'', oc_evidence = Some sample_evidence,
        oc_collection_started_at = Aware 8000000, oc_collection_finished_at = Aware 9000000,
        oc_outcome = OutSuccess, oc_error_code = None\<rparr>,
      be_snapshot_id = Some ''s1'', be_success_confirmation_id = Some ''o1'',
      be_latest_attempt_confirmation_id = Some ''o1'', be_last_attempt_at = None,
      be_last_success_at = None, be_last_attempt_outcome = AttemptSuccess\<rparr>"

definition sample_contract :: contract_revision where
  "sample_contract =
     \<lparr>cr_objective = ''ship'', cr_constraints = [], cr_acceptance_criteria = [], cr_priority = 1,
      cr_context_refs = [], cr_dependencies = [],
      cr_deliverables = [\<lparr>dl_key = ''api'', dl_repository = ''acme/api'', dl_repository_id = Some 7,
        dl_target_branch = ''main'',
        dl_required_checks = [\<lparr>rc_kind = CheckRun, rc_name = ''ci'', rc_app_slug = None, rc_provider_id = Some 5\<rparr>],
        dl_no_checks_reason = None,
        dl_review = \<lparr>rp_required_approvals = 1, rp_allowed_reviewers = []\<rparr>\<rparr>],
      cr_acceptance_mode = Explicit, cr_ticket_id = ''t1'', cr_contract_revision = 1,
      cr_content_digest = Some (replicate 64 CHR ''d''), cr_author_project = ''acme'',
      cr_created_at = [], cr_amendment_reason = None\<rparr>"

definition sample_receipt :: milestone_receipt where
  "sample_receipt =
     (let digest = projr (delivery_digest (replicate 64 CHR ''d'') 1 [sample_binding]) in
      \<lparr>mr_id = ''r1'', mr_ticket_id = ''t1'', mr_milestone = IntegrationReceipt, mr_contract_revision = 1,
       mr_attempt = 1, mr_contract_digest = replicate 64 CHR ''d'', mr_delivery_digest = digest,
       mr_issued_at = 9500000, mr_acceptance_basis = None, mr_explicit_acceptance = None,
       mr_proof = \<lparr>fp_ticket_id = ''t1'', fp_contract_revision = 1, fp_contract_digest = replicate 64 CHR ''d'',
         fp_attempt = 1, fp_workflow_version = 1, fp_delivery_digest = digest,
         fp_assessment_id = replicate 64 CHR ''e'', fp_decision_time = 9500000, fp_artifact_proofs = [],
         fp_brain_context_proofs = [], fp_repository_context_proofs = [], fp_upstream_receipt_ids = [],
         fp_issuer = \<lparr>ri_issuer_project = ''brain'', ri_issuer_identity = ''observer'', ri_issuer_kind = Observer\<rparr>,
         fp_acceptance_basis = None, fp_explicit_acceptance = None\<rparr>\<rparr>)"

definition sample_input :: evaluation_input where
  "sample_input =
     \<lparr>ei_contract = sample_contract, ei_attempt = 1, ei_workflow_version = 1,
      ei_coordination_status = ''acknowledged'', ei_coordination_disposition = DActive,
      ei_is_self_ticket = False, ei_active_bindings = [sample_binding], ei_contexts = [],
      ei_dependencies = [], ei_integration_receipt = Some sample_receipt, ei_fulfillment_receipt = None,
      ei_feature_enabled = True, ei_freshness_seconds = 300, ei_claim = None,
      ei_requested_completion_action = Some CrossResolve\<rparr>"

lemmas sample_defs = sample_input_def sample_contract_def sample_binding_def sample_evidence_def sample_sha_def

lemma sample_nul_free: "nul_free_input sample_input"
  by (simp add: nul_free_input_def sample_defs sample_receipt_def nul_free_opt_def nul_free_binding_def Let_def
      nul_free_def)

lemma sample_returns: "\<exists>a. evaluate_delivery (\<lambda>t. t) sample_input (Aware 10000000) = Inr a"
  by (rule evaluate_delivery_returns [OF sample_nul_free]) (simp_all add: sample_input_def sample_contract_def)

lemma sample_delivery_digest:
  "is_ok (delivery_digest (replicate 64 CHR ''d'') 1 [sample_binding])"
  by (rule delivery_digest_ok)
    (simp_all add: nul_free_binding_def sample_defs nul_free_opt_def Let_def nul_free_def)

lemma sample_proved: "list_all (deliverable_proved sample_input) (cr_deliverables sample_contract)"
  by (simp add: deliverable_proved_def sample_defs binding_identifies_def evidence_proved_def check_proved_def
      select_check_def check_applies_to_evidence_def check_matches_def
      review_findings_Nil [symmetric, where key = "''api''"] review_findings_def effective_reviews_def
      decided_reviews_def countable_review_def dict_of_def)

lemma sample_requirements: "delivery_requirements sample_input 10000000 True"
  using sample_proved
  by (simp add: delivery_requirements_def observations_fresh_def required_documents_def binding_fresh_def
      within_freshness_def contexts_proved_def dependencies_proved_def completion_action_valid_def
      sample_input_def) (simp add: sample_defs)

lemma sample_assessed:
  assumes "evaluate_delivery (\<lambda>t. t) sample_input (Aware 10000000) = Inr a"
  shows "as_assessed_at a = 10000000" "has_integration sample_input a"
    "as_observation_health a = current_health sample_input 10000000"
  using assms
proof (atomize (full), cases rule: evaluate_delivery_elim)
  case (1 now cfs active)
  have "delivery_digest (replicate 64 CHR ''d'') 1 [sample_binding] = Inr (as_delivery_digest a)"
    using 1(2) by (simp add: input_delivery_digest_def sample_input_def sample_contract_def lift_canonical_Inr)
  with 1 show "as_assessed_at a = 10000000 \<and> has_integration sample_input a \<and>
      as_observation_health a = current_health sample_input 10000000"
    by (simp add: receipt_matches_def sample_input_def sample_contract_def sample_receipt_def Let_def)
qed

lemma sample_receipt_current: "receipt_is_current sample_input sample_receipt" "mr_milestone sample_receipt = IntegrationReceipt"
  using sample_delivery_digest
  by (auto simp: receipt_is_current_def sample_receipt_def Let_def sample_input_def sample_contract_def is_ok_iff)

lemma sample_fresh: "current_health sample_input 10000000 = Fresh"
  using sample_requirements by (simp add: current_health_Fresh delivery_requirements_def)

lemma sample_disabled_returns:
  "\<exists>a. evaluate_delivery (\<lambda>t. t) (sample_input\<lparr>ei_feature_enabled := False\<rparr>) (Aware 10000000) = Inr a"
proof (rule evaluate_delivery_returns)
  show "nul_free_input (sample_input\<lparr>ei_feature_enabled := False\<rparr>)"
    by (simp add: nul_free_input_def sample_defs sample_receipt_def nul_free_opt_def nul_free_binding_def Let_def
        nul_free_def)
qed (simp_all add: sample_input_def sample_contract_def)

lemma sample_disabled_blocked:
  assumes "evaluate_delivery (\<lambda>t. t) (sample_input\<lparr>ei_feature_enabled := False\<rparr>) (Aware 10000000) = Inr a"
  shows "as_blockers a \<noteq> []"
  using assms
proof (cases rule: evaluate_delivery_elim)
  case (1 now cfs active)
  then show ?thesis by (simp add: evaluation_blockers_Nil state_findings_def)
qed

lemma sample_satisfied:
  "\<exists>a. evaluate_delivery (\<lambda>t. t) sample_input (Aware 10000000) = Inr a \<and> as_requirements_satisfied a"
proof -
  obtain a where a: "evaluate_delivery (\<lambda>t. t) sample_input (Aware 10000000) = Inr a"
    using sample_returns by blast
  from satisfied_iff [OF a] sample_assessed [OF a] sample_requirements a show ?thesis
    by (auto simp: sample_input_def sample_contract_def)
qed

text \<open>The same delivery, resolved and with a fulfilment receipt its requester accepted explicitly.\<close>

definition sample_fulfilment :: milestone_receipt where
  "sample_fulfilment = sample_receipt
     \<lparr>mr_id := ''r2'', mr_milestone := FulfilledReceipt, mr_acceptance_basis := Some Explicit,
      mr_explicit_acceptance := Some \<lparr>ea_requester_project = ''acme'', ea_rationale = ''reviewed''\<rparr>,
      mr_proof := (mr_proof sample_receipt)
        \<lparr>fp_artifact_proofs := [\<lparr>fa_binding_id = ''b1'', fa_binding_version = 1, fa_deliverable_key = ''api'',
           fa_repository_id = 7, fa_pr_number = 12, fa_head_sha = sample_sha CHR ''a'',
           fa_base_sha = sample_sha CHR ''b'', fa_integration_sha = Some (sample_sha CHR ''c''),
           fa_integration_revision = None, fa_snapshot_id = ''s1'', fa_snapshot_digest = replicate 64 CHR ''f'',
           fa_success_confirmation_id = ''o1'', fa_latest_attempt_confirmation_id = ''o1'',
           fa_collection_started_at = 8000000, fa_collection_finished_at = 9000000\<rparr>],
         fp_issuer := \<lparr>ri_issuer_project = ''acme'', ri_issuer_identity = ''lead'', ri_issuer_kind = Requester\<rparr>,
         fp_acceptance_basis := Some Explicit,
         fp_explicit_acceptance := Some \<lparr>ea_requester_project = ''acme'', ea_rationale = ''reviewed''\<rparr>\<rparr>\<rparr>"

lemma sample_fulfilment_valid: "valid_milestone_receipt sample_fulfilment"
proof -
  obtain digest where "delivery_digest (replicate 64 CHR ''d'') 1 [sample_binding] = Inr digest" "validate_digest digest"
    using sample_delivery_digest canonical_digest_Inr by (auto simp: is_ok_iff delivery_digest_def)
  then show ?thesis
    by (simp add: valid_milestone_receipt_def valid_frozen_receipt_proof_def valid_receipt_basis_def
        complete_frozen_identity_def valid_frozen_artifact_proof_def sample_fulfilment_def sample_receipt_def Let_def
        in_len_def opt_ok_def valid_explicit_acceptance_def validate_digest_def [of "replicate n c" for n c] validate_sha_def sample_sha_def
        is_hex_char_def strip_def lstrip_def rstrip_def is_space_def list_all_iff)
qed

definition contracted_input :: evaluation_input where
  "contracted_input = sample_input\<lparr>ei_coordination_status := ''resolved'',
     ei_fulfillment_receipt := Some sample_fulfilment,
     ei_requested_completion_action := Some CrossConfirm\<rparr>"

lemma contracted_returns: "\<exists>a. evaluate_delivery (\<lambda>t. t) contracted_input (Aware 10000000) = Inr a"
proof (rule evaluate_delivery_returns)
  show "nul_free_input contracted_input"
    using sample_nul_free
    by (simp add: nul_free_input_def contracted_input_def sample_input_def sample_receipt_def sample_fulfilment_def nul_free_opt_def Let_def)
qed (simp_all add: contracted_input_def sample_input_def sample_contract_def)

lemma contracted_receipt_current:
  "receipt_is_current contracted_input r \<longleftrightarrow> receipt_is_current sample_input r"
  by (simp add: receipt_is_current_def contracted_input_def)

lemma contracted_requirements: "delivery_requirements contracted_input 10000000 True"
  using sample_requirements
  by (simp add: delivery_requirements_def contracted_input_def observations_fresh_def required_documents_def
      binding_fresh_def [abs_def] within_freshness_def deliverable_proved_def [abs_def] binding_identifies_def
      predicate_for_def predicate_fresh_def [abs_def]
      contexts_proved_def context_proved_def [abs_def] dependencies_proved_def dependency_proved_def [abs_def]
      completion_action_valid_def sample_input_def)

lemma contracted_eligible:
  "\<exists>a. evaluate_delivery (\<lambda>t. t) contracted_input (Aware 10000000) = Inr a \<and> as_completion_eligible_now a"
proof -
  obtain a where a: "evaluate_delivery (\<lambda>t. t) contracted_input (Aware 10000000) = Inr a"
    using contracted_returns by blast
  have dg: "input_delivery_digest contracted_input = Inr (as_delivery_digest a)" and now: "as_assessed_at a = 10000000"
    using a by (auto elim: evaluate_delivery_elim)
  have "has_integration contracted_input a"
    unfolding receipt_matches_current [OF dg]
    using sample_receipt_current by (simp add: contracted_receipt_current) (simp add: contracted_input_def sample_input_def)
  then have "as_requirements_satisfied a"
    using satisfied_iff [OF a] now contracted_requirements
    by (simp add: contracted_input_def sample_input_def sample_contract_def)
  moreover have "receipt_is_current contracted_input sample_fulfilment"
    unfolding contracted_receipt_current using sample_receipt_current
    by (simp add: receipt_is_current_def sample_fulfilment_def)
  ultimately show ?thesis
    using completion_iff [OF a] a
    by (auto simp: contracted_input_def completion_action_valid_def sample_input_def sample_fulfilment_def)
qed

section \<open>Properties of the evaluator\<close>

text \<open>
  C1: The evaluator reports the requirements of a delivery as satisfied exactly when the feature is enabled, the
  workflow is active and not terminal, the requested action fits the ticket, every observation is fresh, every
  deliverable has one identified, observed and merged pull request whose required checks and reviews hold, every
  required context is proved against its pin, no undeclared context is supplied, and every dependency has the pinned
  receipt. The keys of the deliverables are distinct, as the contract model validates. A context that is declared
  several times is judged by its last declaration only.
\<close>

theorem requirements_satisfied_iff:
  assumes "evaluate_delivery local_utc i t = Inr a"
    and "distinct (map dl_key (cr_deliverables (ei_contract i)))"
  shows "as_requirements_satisfied a \<longleftrightarrow>
    delivery_requirements i (as_assessed_at a) (has_integration i a)"
  by (rule satisfied_iff [OF assms])

theorem requirements_satisfied_iff_witness:
  "\<exists>a. evaluate_delivery (\<lambda>t. t) sample_input (Aware 10000000) = Inr a \<and> as_requirements_satisfied a"
proof -
  obtain a where a: "evaluate_delivery (\<lambda>t. t) sample_input (Aware 10000000) = Inr a"
    using sample_returns by blast
  then have "as_requirements_satisfied a \<longleftrightarrow>
      delivery_requirements sample_input (as_assessed_at a) (has_integration sample_input a)"
    by (rule requirements_satisfied_iff) (simp_all add: sample_input_def sample_contract_def)
  with a sample_assessed [OF a] sample_requirements show ?thesis by auto
qed



text \<open>
  C25: When the requirements of a delivery are satisfied, a deliverable that asks for approvals has that
  many distinct reviewers, none of them the author of the pull request, each allowed by the policy,
  whose approval of the observed head is the last thing they decided; and no such reviewer's last
  decision asks for changes.
\<close>

theorem approvals_are_independent:
  assumes "evaluate_delivery local_utc i t = Inr a" and "as_requirements_satisfied a"
    and "distinct (map dl_key (cr_deliverables (ei_contract i)))"
    and "d \<in> set (cr_deliverables (ei_contract i))" and "0 < rp_required_approvals (dl_review d)"
  shows "\<exists>e ev S. e \<in> set (ei_active_bindings i) \<and> current_evidence e = Some ev \<and>
    rp_required_approvals (dl_review d) \<le> int (card S) \<and>
    (\<forall>u \<in> S. u \<noteq> pe_author_id ev \<and>
      (rp_allowed_reviewers (dl_review d) = [] \<or> u \<in> set (rp_allowed_reviewers (dl_review d))) \<and>
      (\<exists>r \<in> set (pe_reviews ev). rv_reviewer r = u \<and> rv_head_sha r = pe_head_sha ev \<and>
         rv_decision r = Approved \<and>
         (\<forall>r' \<in> set (pe_reviews ev). rv_reviewer r' = u \<and> rv_head_sha r' = pe_head_sha ev \<and>
            rv_decision r' \<noteq> Commented \<longrightarrow> review_order r' \<le> review_order r))) \<and>
    (\<forall>u r. standing_review ev (dl_review d) u = Some r \<longrightarrow> rv_decision r \<noteq> ChangesRequested)"
proof -
  let ?p = "dl_review d"
  from assms(1) have "deliverable_findings i = []"
  proof (cases rule: evaluate_delivery_elim)
    case (1 now cfs active)
    with assms(2) show ?thesis by (auto simp: evaluation_blockers_Nil)
  qed
  then have "deliverable_proved i d"
    using deliverable_findings_Nil [OF assms(3)] assms(4) by (simp add: list_all_iff)
  then obtain e ev where f: "filter (\<lambda>e. ab_deliverable_key (be_binding e) = dl_key d) (ei_active_bindings i) = [e]"
    and ev: "current_evidence e = Some ev" and rev: "reviews_proved ?p ev"
    by (auto simp: deliverable_proved_def evidence_proved_def current_evidence_def)
  let ?S = "{u. \<exists>r. standing_review ev ?p u = Some r \<and> rv_decision r = Approved}"
  have "e \<in> set (ei_active_bindings i)" using arg_cong [OF f, of set] by auto
  moreover have "u \<noteq> pe_author_id ev \<and> (rp_allowed_reviewers ?p = [] \<or> u \<in> set (rp_allowed_reviewers ?p)) \<and>
      (\<exists>r \<in> set (pe_reviews ev). rv_reviewer r = u \<and> rv_head_sha r = pe_head_sha ev \<and> rv_decision r = Approved \<and>
         (\<forall>r' \<in> set (pe_reviews ev). rv_reviewer r' = u \<and> rv_head_sha r' = pe_head_sha ev \<and>
            rv_decision r' \<noteq> Commented \<longrightarrow> review_order r' \<le> review_order r))" if "u \<in> ?S" for u
  proof -
    from that obtain r where r: "standing_review ev ?p u = Some r" "rv_decision r = Approved" by blast
    note sound = standing_review_sound [OF r(1)]
    have "countable_review ev ?p r'" if "rv_reviewer r' = u" "rv_head_sha r' = pe_head_sha ev" for r'
      using that sound(2,3) by (simp add: countable_review_def)
    with sound r(2) show ?thesis by (auto simp: countable_review_def)
  qed
  ultimately show ?thesis
    using ev rev assms(5) by (intro exI [of _ e] exI [of _ ev] exI [of _ ?S]) (simp add: reviews_proved_def)
qed

theorem approvals_are_independent_witness:
  "\<exists>e ev S. e \<in> set (ei_active_bindings sample_input) \<and> current_evidence e = Some ev \<and> 1 \<le> int (card S) \<and>
     (\<forall>u \<in> S. u \<noteq> pe_author_id ev)"
proof -
  let ?d = "hd (cr_deliverables sample_contract)"
  obtain a where a: "evaluate_delivery (\<lambda>t. t) sample_input (Aware 10000000) = Inr a" "as_requirements_satisfied a"
    using sample_satisfied by blast
  have "rp_required_approvals (dl_review ?d) = 1" by (simp add: sample_contract_def)
  with approvals_are_independent [OF a, of ?d] show ?thesis
    by (auto simp: sample_input_def sample_contract_def)
qed

text \<open>
  When every active binding belongs to a deliverable of the contract, a delivery is eligible for its integration receipt exactly when its requirements are satisfied: no satisfied delivery is stuck short of the integrated stage.
\<close>

lemma integration_receipt_eligible_iff:
  assumes "evaluate_delivery local_utc i t = Inr a"
    and "distinct (map dl_key (cr_deliverables (ei_contract i)))"
    and "cr_deliverables (ei_contract i) \<noteq> []"
    and "\<forall>e \<in> set (ei_active_bindings i).
      ab_deliverable_key (be_binding e) \<in> dl_key ` set (cr_deliverables (ei_contract i))"
  shows "as_integration_receipt_eligible a \<longleftrightarrow> as_requirements_satisfied a"
  using assms(1)
proof (cases rule: evaluate_delivery_elim)
  case (1 now cfs active)
  have "as_delivery_stage a = StageIntegrated" if "as_requirements_satisfied a"
  proof -
    have nil: "deliverable_findings i = []" using that 1 by (auto simp: evaluation_blockers_Nil)
    then have "list_all (deliverable_proved i) (cr_deliverables (ei_contract i))"
      using deliverable_findings_Nil [OF assms(2)] by simp
    from satisfied_stage [OF assms(2) this assms(4) assms(3)] show ?thesis using 1(9) nil by simp
  qed
  with 1(11) show ?thesis by auto
qed

lemma integration_receipt_eligible_iff_sample:
  "\<exists>a. evaluate_delivery (\<lambda>t. t) sample_input (Aware 10000000) = Inr a \<and>
     (as_integration_receipt_eligible a \<longleftrightarrow> as_requirements_satisfied a)"
proof -
  obtain a where a: "evaluate_delivery (\<lambda>t. t) sample_input (Aware 10000000) = Inr a"
    using sample_returns by blast
  then have "as_integration_receipt_eligible a \<longleftrightarrow> as_requirements_satisfied a"
    by (rule integration_receipt_eligible_iff) (simp_all add: sample_defs)
  with a show ?thesis by blast
qed

text \<open>
  C10: Completion is offered exactly when the requirements are satisfied, the requested action fits the ticket, and the receipt the action needs (integration for a resolve, fulfilment for a confirmation) was issued for the current ticket, revision, attempt, contract digest and delivery digest.
\<close>

theorem completion_eligible_iff:
  assumes "evaluate_delivery local_utc i t = Inr a"
  shows "as_completion_eligible_now a \<longleftrightarrow>
    as_requirements_satisfied a \<and> completion_action_valid i \<and>
    (if ei_requested_completion_action i \<in> {Some CrossResolve, Some SelfResolvePending}
     then \<exists>r. ei_integration_receipt i = Some r \<and> mr_milestone r = IntegrationReceipt \<and> receipt_is_current i r
     else \<exists>r. ei_fulfillment_receipt i = Some r \<and> mr_milestone r = FulfilledReceipt \<and> receipt_is_current i r)"
  by (rule completion_iff [OF assms])

theorem completion_eligible_iff_witness:
  "\<exists>a. evaluate_delivery (\<lambda>t. t) sample_input (Aware 10000000) = Inr a \<and>
     (as_completion_eligible_now a \<longleftrightarrow> as_requirements_satisfied a)"
proof -
  obtain a where a: "evaluate_delivery (\<lambda>t. t) sample_input (Aware 10000000) = Inr a"
    using sample_returns by blast
  from completion_eligible_iff [OF a] sample_receipt_current a show ?thesis
    by (auto simp: sample_input_def completion_action_valid_def)
qed

text \<open>
  Every finding of an assessment has a code of the published vocabulary and a detail of at most 1000 characters.
\<close>

lemma finding_codes_closed:
  assumes "evaluate_delivery local_utc i t = Inr a" and "f \<in> set (as_blockers a) \<union> set (as_deliverables a)"
  shows "df_code f \<in> set DELIVERY_FINDING_CODES \<and> length (df_detail f) \<le> 1000"
  using assms(1)
proof (cases rule: evaluate_delivery_elim)
  case (1 now cfs active)
  then show ?thesis
    using assms(2) evaluation_blockers_wf deliverable_findings_wf
    by (auto simp: list_all_iff well_formed_finding_def)
qed

lemma finding_codes_closed_sample:
  "\<exists>a f. evaluate_delivery (\<lambda>t. t) (sample_input\<lparr>ei_feature_enabled := False\<rparr>) (Aware 10000000) = Inr a \<and>
     f \<in> set (as_blockers a) \<and> df_code f \<in> set DELIVERY_FINDING_CODES \<and> length (df_detail f) \<le> 1000"
proof -
  obtain a where a: "evaluate_delivery (\<lambda>t. t) (sample_input\<lparr>ei_feature_enabled := False\<rparr>) (Aware 10000000) = Inr a"
    using sample_disabled_returns by blast
  then obtain f where f: "f \<in> set (as_blockers a)" using sample_disabled_blocked by (cases "as_blockers a") auto
  then have "df_code f \<in> set DELIVERY_FINDING_CODES \<and> length (df_detail f) \<le> 1000"
    by (intro finding_codes_closed [OF a]) simp
  with a f show ?thesis by blast
qed

text \<open>
  An assessment offers at most one work item, none while a claim is live, and the item it offers is the one its findings justify, for the role that may take it.
\<close>

lemma eligible_work_sound:
  assumes "evaluate_delivery local_utc i t = Inr a"
  shows "as_eligible_work a = [] \<or>
    (\<exists>w. as_eligible_work a = [w] \<and> work_justified i a w \<and>
       \<not> (\<exists>c e. ei_claim i = Some c \<and> cs_expires_at c = Some (Aware e) \<and> as_assessed_at a < e))"
  using assms
proof (cases rule: evaluate_delivery_elim)
  case (1 now cfs active)
  from 1(4,5) have "active \<longleftrightarrow> (\<exists>c e. ei_claim i = Some c \<and> cs_expires_at c = Some (Aware e) \<and> as_assessed_at a < e)"
    by (auto simp: claim_active_def split: option.splits pydatetime.splits)
  with 1(14) eligible_work_justified [OF refl, of i a] show ?thesis by auto
qed

lemma eligible_work_sound_sample:
  "\<exists>a. evaluate_delivery (\<lambda>t. t) sample_input (Aware 10000000) = Inr a \<and>
     (as_eligible_work a = [] \<or> (\<exists>w. as_eligible_work a = [w] \<and> work_justified sample_input a w))"
proof -
  obtain a where a: "evaluate_delivery (\<lambda>t. t) sample_input (Aware 10000000) = Inr a"
    using sample_returns by blast
  from eligible_work_sound [OF a] a show ?thesis by blast
qed

text \<open>
  The reported \<open>fresh_until\<close> is exact: a delivery assessed as fresh stays fresh at a later instant if and only if that instant is not past \<open>fresh_until\<close>.
\<close>

lemma fresh_until_exact:
  assumes "evaluate_delivery local_utc i t = Inr a" and "as_observation_health a = Fresh"
    and "distinct (map cp_reference_identity (ei_contexts i))"
    and "as_assessed_at a \<le> later"
  shows "\<exists>u. as_fresh_until a = Some u \<and> as_assessed_at a \<le> u \<and>
    (current_health i later = Fresh \<longleftrightarrow> later \<le> u)"
  using assms(1)
proof (cases rule: evaluate_delivery_elim)
  case (1 now cfs active)
  have "current_health i (as_assessed_at a) = Fresh" using 1(5,6) assms(2) by simp
  then have en: "ei_feature_enabled i" and fresh: "observations_fresh i (as_assessed_at a)"
    by (simp_all add: current_health_Fresh)
  let ?vs = "(\<lambda>v. v + ei_freshness_seconds i * 1000000) ` set (observed_instants i)"
  note later = observations_fresh_later [OF fresh assms(4) assms(3)]
  note now = observations_fresh_later [OF fresh order_refl assms(3)]
  have "as_fresh_until a = Some (Min ?vs)"
    using 1(16) later(1) by (simp add: observation_times_def Let_def)
  moreover have "x \<le> Min ?vs \<longleftrightarrow> (\<forall>v \<in> set (observed_instants i). x \<le> v + ei_freshness_seconds i * 1000000)" for x
    using later(1) by (subst Min_ge_iff) auto
  ultimately show ?thesis
    using now(2) fresh later(2) en by (simp add: current_health_Fresh)
qed

lemma fresh_until_exact_sample:
  "\<exists>a u. evaluate_delivery (\<lambda>t. t) sample_input (Aware 10000000) = Inr a \<and> as_fresh_until a = Some u \<and>
     (current_health sample_input 20000000 = Fresh \<longleftrightarrow> 20000000 \<le> u)"
proof -
  obtain a where a: "evaluate_delivery (\<lambda>t. t) sample_input (Aware 10000000) = Inr a"
    using sample_returns by blast
  have "\<exists>u. as_fresh_until a = Some u \<and> as_assessed_at a \<le> u \<and>
      (current_health sample_input 20000000 = Fresh \<longleftrightarrow> 20000000 \<le> u)"
    using a by (rule fresh_until_exact) (simp_all add: sample_assessed [OF a] sample_fresh, simp add: sample_input_def)
  with a show ?thesis by blast
qed

text \<open>
  The delivery digest does not depend on the order in which the active bindings are read.
\<close>

lemma delivery_digest_order_independent:
  assumes "mset bs = mset bs'" and "distinct (map (\<lambda>e. ab_deliverable_key (be_binding e)) bs)"
  shows "delivery_digest d n bs = delivery_digest d n bs'"
  using assms by (simp add: delivery_digest_def delivery_payload_def distinct_map cong: sort_key_perm_eq)

lemma delivery_digest_order_independent_sample:
  "let other = sample_binding\<lparr>be_binding := (be_binding sample_binding)\<lparr>ab_deliverable_key := ''web''\<rparr>\<rparr> in
   delivery_digest ''d'' 1 [sample_binding, other] = delivery_digest ''d'' 1 [other, sample_binding]"
  unfolding Let_def by (rule delivery_digest_order_independent) (simp_all add: sample_binding_def)

end
