(* ===== verification/Delivery_Identity.thy ===== *)
theory Delivery_Identity
  imports Delivery_Assurance
begin

text \<open>
  Identities and provenance: what the canonical bytes behind a digest determine, what a stored
  receipt proves about who issued it and when, and what the compact summary of a view keeps.
\<close>

section \<open>Lemmas\<close>

lemma canonical_attestation_payload_Inr:
  assumes "canonical_attestation_payload v = Inr bytes"
  obtains kvs j where "v = PMap kvs" "canonical_at 0 v" "to_json v = Some j" "bytes = utf8 (dumps j)"
    "length bytes \<le> MAX_ATTESTATION_PAYLOAD_BYTES"
  using assms
  by (auto simp: canonical_attestation_payload_def Let_def reject_invalid_json_value_def reject_loop_iff
      split: pyval.splits option.splits if_splits) (use reject_loop_iff [of "[(v, 0)]"] in auto)

lemma canonical_digest_eq:
  "canonical_at 0 v \<Longrightarrow> to_json v = Some j \<Longrightarrow> canonical_digest v d = Inr (sha256_hex (digest_preimage d j))"
  using reject_loop_iff [of "[(v, 0)]"] by (simp add: canonical_digest_def reject_invalid_json_value_def)

lemma valid_receipt_provenance:
  assumes "valid_milestone_receipt r"
  shows "(mr_milestone r = IntegrationReceipt \<longrightarrow> ri_issuer_kind (fp_issuer (mr_proof r)) = Observer) \<and>
    (mr_milestone r = FulfilledReceipt \<longrightarrow>
       (mr_acceptance_basis r = Some Automatic \<and> ri_issuer_kind (fp_issuer (mr_proof r)) = Observer) \<or>
       (\<exists>d. mr_acceptance_basis r = Some Explicit \<and> mr_explicit_acceptance r = Some d \<and>
          ri_issuer_kind (fp_issuer (mr_proof r)) = Requester \<and>
          ri_issuer_project (fp_issuer (mr_proof r)) = ea_requester_project d \<and> strip (ea_rationale d) \<noteq> []))"
proof -
  have v: "valid_receipt_basis r" "complete_frozen_identity (mr_proof r)"
    "opt_ok valid_explicit_acceptance (fp_explicit_acceptance (mr_proof r))"
    using assms by (simp_all add: valid_milestone_receipt_def valid_frozen_receipt_proof_def)
  show ?thesis
  proof (cases "mr_milestone r")
    case IntegrationReceipt
    with v(1) show ?thesis by (simp add: valid_receipt_basis_def Let_def)
  next
    case FulfilledReceipt
    show ?thesis
    proof (cases "mr_acceptance_basis r")
      case None
      with v(1) FulfilledReceipt show ?thesis by (simp add: valid_receipt_basis_def Let_def)
    next
      case (Some basis)
      with v FulfilledReceipt show ?thesis
        by (cases basis) (auto simp: valid_receipt_basis_def complete_frozen_identity_def Let_def opt_ok_def
            valid_explicit_acceptance_def split: option.splits if_splits)
    qed
  qed
qed

section \<open>Properties\<close>

text \<open>
  C39: The iterative validator (a loop over an explicit stack) accepts exactly the canonical JSON domain:
  objects with string keys, arrays, integers, booleans, null and texts without NUL or surrogates,
  nested at most 64 deep; it always terminates.
\<close>

theorem canonical_validator_exact:
  "reject_invalid_json_value v = None \<longleftrightarrow> canonical_at 0 v"
  using reject_loop_iff [of "[(v, 0)]"] by (simp add: reject_invalid_json_value_def)

text \<open>
  C38: The bytes that are hashed identify what was hashed: two payloads give the same bytes only under
  the same digest domain and when they are the same JSON value up to the order of object keys.
\<close>

theorem digest_bytes_identify_payload:
  "digest_preimage d v = digest_preimage d' w \<longleftrightarrow> d = d' \<and> sort_keys v = sort_keys w"
  by (rule digest_preimage_inject)

text \<open>
  A stored attestation payload is a canonical object of at most 65536 bytes, its digest is the
  domain-separated digest of the same value, and two payloads with the same stored bytes are the same
  value up to key order.
\<close>

lemma attestation_payload_identified:
  assumes "canonical_attestation_payload v = Inr bytes" and "canonical_attestation_payload w = Inr bytes"
  shows "length bytes \<le> 65536 \<and>
    (\<exists>j k. to_json v = Some j \<and> to_json w = Some k \<and> sort_keys j = sort_keys k \<and>
       canonical_digest v Attestation = Inr (sha256_hex (digest_preimage Attestation j)) \<and>
       canonical_digest w Attestation = canonical_digest v Attestation)"
proof -
  from assms(1) obtain j where v: "canonical_at 0 v" "to_json v = Some j" "bytes = utf8 (dumps j)" "length bytes \<le> 65536"
    by (rule canonical_attestation_payload_Inr) (simp add: MAX_ATTESTATION_PAYLOAD_BYTES_def)
  from assms(2) obtain k where w: "canonical_at 0 w" "to_json w = Some k" "bytes = utf8 (dumps k)"
    by (rule canonical_attestation_payload_Inr)
  have "sort_keys j = sort_keys k" using v(3) w(3) by (simp add: dumps_def)
  then have "digest_preimage Attestation k = digest_preimage Attestation j"
    by (simp add: digest_preimage_inject)
  with v w \<open>sort_keys j = sort_keys k\<close> show ?thesis by (simp add: canonical_digest_eq)
qed

text \<open>The same object written with its keys in another order.\<close>

lemma attestation_payload_identified_sample:
  "let v = pobj [(''a'', PInt 1), (''b'', PBool True)]; w = pobj [(''b'', PBool True), (''a'', PInt 1)] in
   canonical_digest w Attestation = canonical_digest v Attestation"
proof -
  let ?v = "pobj [(''a'', PInt 1), (''b'', PBool True)]" and ?w = "pobj [(''b'', PBool True), (''a'', PInt 1)]"
  have j: "to_json ?v = Some (JObj [([97], JInt 1), ([98], JBool True)])"
    "to_json ?w = Some (JObj [([98], JBool True), ([97], JInt 1)])" by (simp_all add: pobj_def codes_def)
  have c: "reject_loop [(?v, 0)] = None" "reject_loop [(?w, 0)] = None" by (simp_all add: reject_loop_iff)
  have b: "utf8 (dumps (JObj [([97], JInt 1), ([98], JBool True)])) = utf8 (dumps (JObj [([98], JBool True), ([97], JInt 1)]))"
    "length (utf8 (dumps (JObj [([97], JInt 1), ([98], JBool True)]))) \<le> 65536"
    by (simp_all add: dumps_def)
      (simp add: dump_str_def escape_char_def utf8_def utf8_char_def codes_def show_int_def show_nat.simps digit_char_def)
  have p: "is_ok (canonical_attestation_payload ?v)" "canonical_attestation_payload ?w = canonical_attestation_payload ?v"
    using j c b
    by (simp_all add: canonical_attestation_payload_def reject_invalid_json_value_def MAX_ATTESTATION_PAYLOAD_BYTES_def
        Let_def pobj_def)
  then obtain bytes where "canonical_attestation_payload ?v = Inr bytes" by (auto simp: is_ok_iff)
  with attestation_payload_identified [OF this] p(2) show ?thesis by (simp only: Let_def) blast
qed

text \<open>
  When completion by a confirmation is eligible on stored facts that passed their validators, the
  fulfilment receipt behind it is for this ticket, revision and attempt, and was issued either by the
  observer on an automatic contract's behalf or by the requester, whose project the recorded
  decision names and whose rationale is not blank; its decision is not older than the evidence it
  freezes.
\<close>

lemma completion_receipt_provenance:
  assumes "evaluate_delivery local_utc i t = Inr a" and "as_completion_eligible_now a"
    and "ei_requested_completion_action i = Some CrossConfirm"
    and "opt_ok valid_milestone_receipt (ei_fulfillment_receipt i)"
  shows "\<exists>r. ei_fulfillment_receipt i = Some r \<and> receipt_is_current i r \<and>
    (\<forall>p \<in> set (fp_artifact_proofs (mr_proof r)). fa_collection_finished_at p \<le> mr_issued_at r) \<and>
    ((mr_acceptance_basis r = Some Automatic \<and> ri_issuer_kind (fp_issuer (mr_proof r)) = Observer) \<or>
     (\<exists>d. mr_acceptance_basis r = Some Explicit \<and> mr_explicit_acceptance r = Some d \<and>
        ri_issuer_kind (fp_issuer (mr_proof r)) = Requester \<and>
        ri_issuer_project (fp_issuer (mr_proof r)) = ea_requester_project d \<and> strip (ea_rationale d) \<noteq> []))"
proof -
  obtain r where r: "ei_fulfillment_receipt i = Some r" "mr_milestone r = FulfilledReceipt" "receipt_is_current i r"
    using completion_iff [OF assms(1)] assms(2,3) by auto
  then have v: "valid_milestone_receipt r" using assms(4) by (simp add: opt_ok_def)
  have "fa_collection_finished_at p \<le> mr_issued_at r" if "p \<in> set (fp_artifact_proofs (mr_proof r))" for p
    using v that
    by (auto simp: valid_milestone_receipt_def valid_frozen_receipt_proof_def complete_frozen_identity_def
        valid_receipt_basis_def Let_def list_all_iff)
  with valid_receipt_provenance [OF v] r show ?thesis by auto
qed

lemma completion_receipt_provenance_sample:
  "\<exists>a r. evaluate_delivery (\<lambda>t. t) contracted_input (Aware 10000000) = Inr a \<and>
     ei_fulfillment_receipt contracted_input = Some r \<and> receipt_is_current contracted_input r"
proof -
  obtain a where a: "evaluate_delivery (\<lambda>t. t) contracted_input (Aware 10000000) = Inr a" "as_completion_eligible_now a"
    using contracted_eligible by blast
  have "ei_requested_completion_action contracted_input = Some CrossConfirm"
    "opt_ok valid_milestone_receipt (ei_fulfillment_receipt contracted_input)"
    using sample_fulfilment_valid by (simp_all add: contracted_input_def opt_ok_def)
  from completion_receipt_provenance [OF a this] a show ?thesis by blast
qed

text \<open>
  A summary of a view keeps its assessment identity and every verdict, lists at most 32 blockers in
  order with the exact number left out, and embeds the full view exactly when it was asked for.
\<close>

lemma summary_faithful:
  "let s = summarize_view v full; a = vw_assessment v in
   as_assessment_id (su_core s) = as_assessment_id a \<and>
   as_requirements_satisfied (su_core s) = as_requirements_satisfied a \<and>
   as_completion_eligible_now (su_core s) = as_completion_eligible_now a \<and>
   as_eligible_work (su_core s) = as_eligible_work a \<and>
   length (su_blockers s) \<le> 32 \<and>
   su_blockers s = take 32 (map (\<lambda>f. (df_code f, df_deliverable_key f)) (as_blockers a)) \<and>
   int (length (su_blockers s)) + su_blockers_omitted s = int (length (as_blockers a)) \<and>
   su_contexts_available s \<le> su_context_count s \<and> length (su_bindings s) = length (vw_bindings v) \<and>
   (su_view s = Some v \<longleftrightarrow> full)"
  by (simp add: summarize_view_def Let_def take_map)

end
