(* ===== verification/Project_Key.thy ===== *)
theory Project_Key
  imports Prelude
begin

text \<open>
  Canonical project keys, \<open>src/brain_v42/models/project_key.py\<close>: the alias table, the kebab-case
  test and \<open>canonicalize_project_key\<close> on its write path (\<open>strict\<close>) and its read path.
\<close>

definition is_kebab_char :: "char \<Rightarrow> bool" where
  "is_kebab_char c =
     (let n = (of_char c :: nat) in (97 \<le> n \<and> n \<le> 122) \<or> (48 \<le> n \<and> n \<le> 57))"

text \<open>\<open>[a-z0-9]+([:-][a-z0-9]+)*\<close>: non-empty runs separated by single hyphens or colons.\<close>

definition is_kebab :: "string \<Rightarrow> bool" where
  "is_kebab s =
     list_all (\<lambda>run. run \<noteq> [] \<and> list_all is_kebab_char run)
       (split_on (CHR ''-'') (map (\<lambda>c. if c = CHR '':'' then CHR ''-'' else c) s))"

definition ALIASES :: "(string \<times> string) list" where
  "ALIASES = [(''brain'', ''brain-v42''), (''brain_v42'', ''brain-v42'')]"

text \<open>\<open>None\<close> is the \<open>ValueError\<close> of the strict mode; an absent key passes through at the call sites
  that accept one.\<close>

definition canonicalize_project_key :: "bool \<Rightarrow> string \<Rightarrow> string option" where
  "canonicalize_project_key strict value =
     (let raw = strip value in
      case map_of ALIASES raw of
        Some alias \<Rightarrow> Some alias
      | None \<Rightarrow> if \<not> is_kebab raw then (if \<not> strict then Some raw else None) else Some raw)"

lemma kebab_char_not_space: "is_kebab_char c \<Longrightarrow> \<not> is_space c"
  by (auto simp: is_kebab_char_def is_space_def Let_def)

lemma split_on_all: "(\<forall>p \<in> set (split_on c s). \<forall>x \<in> set p. P x) \<longleftrightarrow> (\<forall>x \<in> set s. x = c \<or> P x)"
proof (induction s)
  case (Cons y ys)
  obtain p ps where "split_on c ys = p # ps" by (cases "split_on c ys") auto
  with Cons show ?case by auto
qed simp

lemma kebab_not_space:
  assumes "is_kebab s" and "c \<in> set s"
  shows "\<not> is_space c"
proof -
  let ?f = "\<lambda>c. if c = CHR '':'' then CHR ''-'' else c"
  have "\<forall>x \<in> set (map ?f s). x = CHR ''-'' \<or> is_kebab_char x"
    using assms(1) unfolding is_kebab_def by (subst split_on_all [symmetric]) (simp add: list_all_iff)
  then have "?f c = CHR ''-'' \<or> is_kebab_char (?f c)" using assms(2) by fastforce
  then show ?thesis
    by (auto simp: is_space_def dest: kebab_char_not_space split: if_splits)
qed

lemma strip_no_space: "(\<And>c. c \<in> set s \<Longrightarrow> \<not> is_space c) \<Longrightarrow> strip s = s"
proof -
  assume "\<And>c. c \<in> set s \<Longrightarrow> \<not> is_space c"
  then have "dropWhile is_space t = t" if "set t \<subseteq> set s" for t
    using that by (cases t) auto
  then show ?thesis by (simp add: strip_def lstrip_def rstrip_def)
qed

lemma strip_kebab: "is_kebab s \<Longrightarrow> strip s = s"
  using kebab_not_space by (intro strip_no_space) blast

lemma canonical_aliases: "map_of ALIASES s = Some a \<Longrightarrow> a = ''brain-v42''"
  by (auto simp: ALIASES_def split: if_splits)

lemma canonicalize_kebab: "canonicalize_project_key True v = Some k \<Longrightarrow> is_kebab k \<and> map_of ALIASES k = None"
  by (auto simp: canonicalize_project_key_def Let_def split: option.splits if_splits dest!: canonical_aliases)
    (simp_all add: is_kebab_def is_kebab_char_def ALIASES_def)

text \<open>
  A key that the write path accepts is kebab-case and is a fixed point: canonicalising it again, on
  the write or the read path, returns it unchanged.
\<close>

lemma canonicalize_idempotent:
  assumes "canonicalize_project_key True v = Some k"
  shows "is_kebab k \<and> canonicalize_project_key strict k = Some k"
  using canonicalize_kebab [OF assms] by (simp add: canonicalize_project_key_def strip_kebab)

end
