(* ===== verification/Tickets.thy ===== *)
theory Tickets
  imports Delivery_Evaluator Project_Key
begin

text \<open>
  Cross-project tickets: \<open>src/brain_v42/models/ticket.py\<close> (the transition tables, release plans),
  \<open>src/brain_v42/services/ticket_service.py\<close> (create, reply, plan, transition),
  \<open>src/brain_v42/repositories/pg_ticket.py\<close> (the compare-and-swap writes and the grouped views) and
  \<open>src/brain_v42/repositories/delivery_ticket_guard.py\<close> (the decision a contracted ticket needs before
  it moves, and the mutation of its workflow).

  The database is a record of tables, each a list of rows. A service call that reads a ticket in one
  session and writes it in another is two operations: the first builds a request from the row it
  read, the second applies the request to the database of that later moment. \<open>pg_now\<close> is the
  server's clock, \<open>fresh_id\<close> a generated identifier.
\<close>

section \<open>Statuses, actions and the transition tables\<close>

datatype ticket_kind = TicketRequest | TicketFyi

datatype ticket_status = SOpen | SInProgress | SResolved | SWontfix | SClosed | SAcked

datatype ticket_action =
  AStart | AResolve | AResolvePending | AWontfix | AConfirm | AReopen | AAck | ACancel

datatype extraction_status = XPending | XProposed | XSkipped | XDone

definition status_text :: "ticket_status \<Rightarrow> string" where
  "status_text s = (case s of SOpen \<Rightarrow> ''open'' | SInProgress \<Rightarrow> ''in_progress'' | SResolved \<Rightarrow> ''resolved''
     | SWontfix \<Rightarrow> ''wontfix'' | SClosed \<Rightarrow> ''closed'' | SAcked \<Rightarrow> ''acked'')"

definition action_text :: "ticket_action \<Rightarrow> string" where
  "action_text a = (case a of AStart \<Rightarrow> ''start'' | AResolve \<Rightarrow> ''resolve''
     | AResolvePending \<Rightarrow> ''resolve_pending'' | AWontfix \<Rightarrow> ''wontfix'' | AConfirm \<Rightarrow> ''confirm''
     | AReopen \<Rightarrow> ''reopen'' | AAck \<Rightarrow> ''ack'' | ACancel \<Rightarrow> ''cancel'')"

definition all_actions :: "ticket_action list" where
  "all_actions = [AStart, AResolve, AResolvePending, AWontfix, AConfirm, AReopen, AAck, ACancel]"

definition action_of_text :: "string \<Rightarrow> ticket_action option" where
  "action_of_text s = List.find (\<lambda>a. action_text a = s) all_actions"

definition TERMINAL_STATUSES :: "ticket_status list" where
  "TERMINAL_STATUSES = [SClosed, SAcked]"

type_synonym transition_key = "ticket_kind \<times> ticket_status \<times> ticket_action"

definition TRANSITIONS :: "(transition_key \<times> work_role \<times> ticket_status) list" where
  "TRANSITIONS =
     [((TicketRequest, SOpen, AStart), (ExecutorRole, SInProgress)),
      ((TicketRequest, SOpen, AResolve), (ExecutorRole, SResolved)),
      ((TicketRequest, SOpen, AWontfix), (ExecutorRole, SWontfix)),
      ((TicketRequest, SInProgress, AResolve), (ExecutorRole, SResolved)),
      ((TicketRequest, SInProgress, AWontfix), (ExecutorRole, SWontfix)),
      ((TicketRequest, SResolved, AConfirm), (RequesterRole, SClosed)),
      ((TicketRequest, SWontfix, AConfirm), (RequesterRole, SClosed)),
      ((TicketRequest, SResolved, AReopen), (RequesterRole, SOpen)),
      ((TicketRequest, SWontfix, AReopen), (RequesterRole, SOpen)),
      ((TicketRequest, SOpen, ACancel), (RequesterRole, SClosed)),
      ((TicketRequest, SInProgress, ACancel), (RequesterRole, SClosed)),
      ((TicketRequest, SResolved, ACancel), (RequesterRole, SClosed)),
      ((TicketRequest, SWontfix, ACancel), (RequesterRole, SClosed)),
      ((TicketFyi, SOpen, AAck), (ExecutorRole, SAcked)),
      ((TicketFyi, SOpen, ACancel), (RequesterRole, SClosed))]"

definition SELF_TRANSITIONS :: "(transition_key \<times> ticket_status) list" where
  "SELF_TRANSITIONS =
     [((TicketRequest, SOpen, AStart), SInProgress),
      ((TicketRequest, SOpen, AResolve), SClosed),
      ((TicketRequest, SOpen, AResolvePending), SResolved),
      ((TicketRequest, SOpen, AWontfix), SClosed),
      ((TicketRequest, SOpen, ACancel), SClosed),
      ((TicketRequest, SInProgress, AResolve), SClosed),
      ((TicketRequest, SInProgress, AResolvePending), SResolved),
      ((TicketRequest, SInProgress, AWontfix), SClosed),
      ((TicketRequest, SInProgress, ACancel), SClosed),
      ((TicketRequest, SResolved, AConfirm), SClosed),
      ((TicketRequest, SResolved, AReopen), SOpen),
      ((TicketRequest, SResolved, ACancel), SClosed),
      ((TicketRequest, SWontfix, AConfirm), SClosed),
      ((TicketRequest, SWontfix, AReopen), SOpen),
      ((TicketRequest, SWontfix, ACancel), SClosed),
      ((TicketFyi, SOpen, AAck), SAcked),
      ((TicketFyi, SOpen, ACancel), SClosed)]"

definition allowed_actions :: "ticket_kind \<Rightarrow> ticket_status \<Rightarrow> bool \<Rightarrow> string list" where
  "allowed_actions kind status self_ticket =
     (if self_ticket
      then sort (map (\<lambda>((k, s, a), _). action_text a)
             (filter (\<lambda>((k, s, a), _). k = kind \<and> s = status) SELF_TRANSITIONS))
      else sort (map (\<lambda>((k, s, a), _). action_text a)
             (filter (\<lambda>((k, s, a), _). k = kind \<and> s = status) TRANSITIONS)))"

section \<open>Release plans\<close>

datatype ticket_error =
    UnknownProject string | TicketNotFound uuid | NotAllowed | IllegalTransition "string list"
  | UnknownAction string | TransitionConflict | PlanConflict | PlanTerminal | PlanUnchanged
  | CorrectionWithoutReason | CorrectionEmpty | CorrectionIdentical
  | InvalidProjectKey | ReleaseIsTag | ReleaseMalformed | InvalidTicket | MessageIncomplete
  | DeliveryRefused string | DeliveryEvaluation eval_error

definition is_release :: "string \<Rightarrow> bool" where
  "is_release s = (let parts = split_on (CHR ''.'') s in
     length parts = 3 \<and> list_all (\<lambda>p. p \<noteq> [] \<and> list_all is_digit p) parts)"

definition parse_target_release :: "string \<Rightarrow> (ticket_error, string) result" where
  "parse_target_release value =
     (if is_release value \<and> value = strip value then Inr value
      else if startswith value ''v'' \<and> is_release (drop 1 value) then Inl ReleaseIsTag
      else Inl ReleaseMalformed)"

definition release_key :: "string \<Rightarrow> nat \<times> nat \<times> nat" where
  "release_key value = (case map read_nat (split_on (CHR ''.'') value) of
       [major, minor, patch] \<Rightarrow> (major, minor, patch) | _ \<Rightarrow> (0, 0, 0))"

record release_lot =
  rl_target_release :: string
  rl_open :: nat
  rl_resolved :: nat
  rl_wontfix :: nat

definition current_and_next :: "release_lot list \<Rightarrow> release_lot option \<times> release_lot option" where
  "current_and_next lots =
     (let pending = sort_key (\<lambda>l. release_key (rl_target_release l)) (filter (\<lambda>l. rl_open l \<noteq> 0) lots)
      in (if pending \<noteq> [] then Some (pending ! 0) else None,
          if 1 < length pending then Some (pending ! 1) else None))"

section \<open>Rows\<close>

record ticket =
  tk_id :: uuid
  tk_kind :: ticket_kind
  tk_title :: string
  tk_body :: string
  tk_from_project :: string
  tk_to_project :: string
  tk_status :: ticket_status
  tk_extraction :: "extraction_status option"
  tk_resolved_at :: "instant option"
  tk_closed_at :: "instant option"
  tk_target_release :: "string option"
  tk_created_at :: instant
  tk_updated_at :: instant

record ticket_message =
  tm_ticket_id :: uuid
  tm_author_project :: string
  tm_body :: string
  tm_status_to :: "ticket_status option"
  tm_created_at :: instant

record workflow_row =
  wf_ticket_id :: uuid
  wf_current_revision :: int
  wf_disposition :: disposition
  wf_row_version :: int
  wf_attempt :: int
  wf_claim_owner :: "string option"
  wf_claim_kind :: "work_kind option"
  wf_claim_digest :: "string option"
  wf_claim_expires_at :: "instant option"
  wf_claim_epoch :: int
  wf_context_set_digest :: string
  wf_context_row_version :: int
  wf_context_due_at :: "instant option"
  wf_context_success_confirmation :: "uuid option"
  wf_context_attempt_confirmation :: "uuid option"
  wf_context_last_attempt_at :: "instant option"
  wf_context_last_attempt_outcome :: "outcome option"
  wf_context_last_error_code :: "string option"
  wf_context_last_success_at :: "instant option"
  wf_updated_at :: instant

text \<open>The columns an \<open>artifact_binding\<close> is read from are kept together as \<open>bw_binding\<close>.\<close>

record binding_row =
  bw_binding :: artifact_binding
  bw_repository_name :: string
  bw_active :: bool
  bw_due_at :: "instant option"
  bw_last_attempt_at :: "instant option"
  bw_last_success_at :: "instant option"
  bw_success_confirmation :: "uuid option"
  bw_attempt_confirmation :: "uuid option"

record ticket_db =
  db_tickets :: "ticket list"
  db_messages :: "ticket_message list"
  db_workflows :: "workflow_row list"
  db_bindings :: "binding_row list"

definition get_ticket :: "ticket list \<Rightarrow> uuid \<Rightarrow> ticket option" where
  "get_ticket rows i = find_row (\<lambda>t. tk_id t = i) rows"

definition get_workflow :: "workflow_row list \<Rightarrow> uuid \<Rightarrow> workflow_row option" where
  "get_workflow rows i = find_row (\<lambda>w. wf_ticket_id w = i) rows"

interpretation tickets: keyed_table tk_id get_ticket
  by unfold_locales (simp add: get_ticket_def)

interpretation workflows: keyed_table wf_ticket_id get_workflow
  by unfold_locales (simp add: get_workflow_def)

section \<open>Creating a ticket\<close>

record ticket_create =
  tc_kind :: ticket_kind
  tc_title :: string
  tc_body :: string
  tc_from_project :: string
  tc_to_project :: string
  tc_extraction :: "extraction_status option"

definition make_ticket_create ::
    "ticket_kind \<Rightarrow> string \<Rightarrow> string \<Rightarrow> string \<Rightarrow> string \<Rightarrow> extraction_status option
     \<Rightarrow> (ticket_error, ticket_create) result" where
  "make_ticket_create kind title body from to extraction =
     (if 200 < length title \<or> 50 < length from \<or> 50 < length to then Inl InvalidTicket
      else case (canonicalize_project_key True from, canonicalize_project_key True to) of
        (Some f, Some t) \<Rightarrow> Inr \<lparr>tc_kind = kind, tc_title = title, tc_body = body, tc_from_project = f,
          tc_to_project = t, tc_extraction = extraction\<rparr>
      | _ \<Rightarrow> Inl InvalidProjectKey)"

definition new_ticket :: "ticket_create \<Rightarrow> uuid \<Rightarrow> instant \<Rightarrow> ticket" where
  "new_ticket data fresh_id pg_now =
     \<lparr>tk_id = fresh_id, tk_kind = tc_kind data, tk_title = tc_title data, tk_body = tc_body data,
      tk_from_project = tc_from_project data, tk_to_project = tc_to_project data, tk_status = SOpen,
      tk_extraction = tc_extraction data, tk_resolved_at = None, tk_closed_at = None,
      tk_target_release = None, tk_created_at = pg_now, tk_updated_at = pg_now\<rparr>"

definition service_create ::
    "string list \<Rightarrow> ticket_db \<Rightarrow> ticket_create \<Rightarrow> uuid \<Rightarrow> instant \<Rightarrow> (ticket_error, ticket_db \<times> ticket) result"
where
  "service_create projects db data fresh_id pg_now =
     (if tc_from_project data \<notin> set projects then Inl (UnknownProject (tc_from_project data))
      else if tc_to_project data \<notin> set projects then Inl (UnknownProject (tc_to_project data))
      else let t = new_ticket data fresh_id pg_now
           in Inr (db\<lparr>db_tickets := db_tickets db @ [t]\<rparr>, t))"

section \<open>Replies and body corrections\<close>

definition add_message ::
    "ticket_db \<Rightarrow> uuid \<Rightarrow> string \<Rightarrow> string \<Rightarrow> ticket_status option \<Rightarrow> string option \<Rightarrow> instant
     \<Rightarrow> ticket_db \<times> ticket_message" where
  "add_message db i author body status_to new_body pg_now =
     (let m = \<lparr>tm_ticket_id = i, tm_author_project = author, tm_body = body, tm_status_to = status_to,
                tm_created_at = pg_now\<rparr>;
          touch = (\<lambda>t. t\<lparr>tk_updated_at := pg_now,
                         tk_body := (case new_body of None \<Rightarrow> tk_body t | Some b \<Rightarrow> b)\<rparr>)
      in (db\<lparr>db_messages := db_messages db @ [m],
             db_tickets := update_rows (\<lambda>t. tk_id t = i) touch (db_tickets db)\<rparr>, m))"

text \<open>The marker is the source's French text; its accented letter is the Latin-1 code point 233.\<close>

definition BODY_CORRECTION_MARKER :: string where
  "BODY_CORRECTION_MARKER =
     ''--- corps pr'' @ [char_of (233::nat)] @ ''c'' @ [char_of (233::nat)] @
     ''dent, remplac'' @ [char_of (233::nat)] @ '' par cette r'' @ [char_of (233::nat)] @ ''ponse ---''"

definition newline :: string where
  "newline = [char_of (10::nat)]"

definition correction_text :: "string \<Rightarrow> string \<Rightarrow> string" where
  "correction_text body old = body @ newline @ newline @ BODY_CORRECTION_MARKER @ newline @ old"

text \<open>What a reply writes, decided on the ticket the service has read.\<close>

definition reply_request ::
    "ticket \<Rightarrow> string \<Rightarrow> string \<Rightarrow> string option \<Rightarrow> (ticket_error, string \<times> string option) result" where
  "reply_request t author body corrects_body =
     (if author \<notin> {tk_from_project t, tk_to_project t} then Inl NotAllowed
      else case corrects_body of
        None \<Rightarrow> Inr (body, None)
      | Some c \<Rightarrow>
          if strip body = [] then Inl CorrectionWithoutReason
          else if strip c = [] then Inl CorrectionEmpty
          else if c = tk_body t then Inl CorrectionIdentical
          else Inr (correction_text body (tk_body t), Some c))"

definition service_reply ::
    "ticket_db \<Rightarrow> uuid \<Rightarrow> string \<Rightarrow> string \<Rightarrow> string option \<Rightarrow> instant
     \<Rightarrow> (ticket_error, ticket_db \<times> ticket_message) result" where
  "service_reply db i author_project body corrects_body pg_now =
     (case canonicalize_project_key True author_project of
        None \<Rightarrow> Inl InvalidProjectKey
      | Some author \<Rightarrow>
          (case get_ticket (db_tickets db) i of
             None \<Rightarrow> Inl (TicketNotFound i)
           | Some t \<Rightarrow>
               res_bind (reply_request t author body corrects_body) (\<lambda>(recorded, new_body).
                 Inr (add_message db i author recorded None new_body pg_now))))"

section \<open>Planning a release\<close>

record plan_request =
  pr_ticket_id :: uuid
  pr_author :: string
  pr_expected :: "string option"
  pr_new :: "string option"
  pr_message :: string

definition plan_of ::
    "ticket \<Rightarrow> string \<Rightarrow> string option \<Rightarrow> (ticket_error, plan_request) result" where
  "plan_of t author new =
     (if author \<noteq> tk_to_project t then Inl NotAllowed
      else if tk_status t \<in> set TERMINAL_STATUSES then Inl PlanTerminal
      else if new = tk_target_release t then Inl PlanUnchanged
      else let message = (case (tk_target_release t, new) of
              (None, Some n) \<Rightarrow> ''planned for '' @ n
            | (None, None) \<Rightarrow> ''planned for None''
            | (Some p, None) \<Rightarrow> ''unplanned (was '' @ p @ '')''
            | (Some p, Some n) \<Rightarrow> ''moved from '' @ p @ '' to '' @ n)
        in Inr \<lparr>pr_ticket_id = tk_id t, pr_author = author, pr_expected = tk_target_release t,
                 pr_new = new, pr_message = message\<rparr>)"

definition plan_request_of ::
    "ticket_db \<Rightarrow> uuid \<Rightarrow> string \<Rightarrow> string option \<Rightarrow> (ticket_error, plan_request) result" where
  "plan_request_of db i author_project target_release =
     (case canonicalize_project_key True author_project of
        None \<Rightarrow> Inl InvalidProjectKey
      | Some author \<Rightarrow>
          res_bind (case target_release of None \<Rightarrow> Inr None
                    | Some v \<Rightarrow> res_bind (parse_target_release v) (\<lambda>r. Inr (Some r))) (\<lambda>new.
          case get_ticket (db_tickets db) i of
            None \<Rightarrow> Inl (TicketNotFound i)
          | Some t \<Rightarrow> plan_of t author new))"

text \<open>\<open>set_target_release\<close>: the compare-and-swap and its thread message, or neither.\<close>

definition set_target_release ::
    "ticket_db \<Rightarrow> plan_request \<Rightarrow> instant \<Rightarrow> (ticket_error, ticket_db \<times> ticket_message) result" where
  "set_target_release db r pg_now =
     (let hit = (\<lambda>t. tk_id t = pr_ticket_id r \<and> tk_target_release t = pr_expected r) in
      if \<not> list_ex hit (db_tickets db) then Inl PlanConflict
      else let m = \<lparr>tm_ticket_id = pr_ticket_id r, tm_author_project = pr_author r, tm_body = pr_message r,
                     tm_status_to = None, tm_created_at = pg_now\<rparr>
           in Inr (db\<lparr>db_tickets := update_rows hit
                    (\<lambda>t. t\<lparr>tk_target_release := pr_new r, tk_updated_at := pg_now\<rparr>) (db_tickets db),
                  db_messages := db_messages db @ [m]\<rparr>, m))"

section \<open>Transitions: what the service asks for\<close>

record transition_request =
  tr_ticket_id :: uuid
  tr_action :: "ticket_action option"
  tr_actor :: "string option"
  tr_expected :: ticket_status
  tr_new_status :: ticket_status
  tr_resolved_at :: "instant option"
  tr_closed_at :: "instant option"
  tr_extraction :: "extraction_status option"
  tr_message :: "(string \<times> string) option"

definition is_self_ticket :: "ticket \<Rightarrow> bool" where
  "is_self_ticket t = (tk_from_project t = tk_to_project t)"

definition rule_for :: "ticket \<Rightarrow> ticket_action \<Rightarrow> (ticket_error, string \<times> ticket_status) result" where
  "rule_for t act =
     (let key = (tk_kind t, tk_status t, act) in
      if is_self_ticket t then
        (case map_of SELF_TRANSITIONS key of
           None \<Rightarrow> Inl (IllegalTransition (allowed_actions (tk_kind t) (tk_status t) True))
         | Some s \<Rightarrow> Inr (tk_from_project t, s))
      else
        (case map_of TRANSITIONS key of
           None \<Rightarrow> Inl (IllegalTransition (allowed_actions (tk_kind t) (tk_status t) False))
         | Some (role, s) \<Rightarrow>
             Inr (if role = ExecutorRole then tk_to_project t else tk_from_project t, s)))"

definition transition_of ::
    "ticket \<Rightarrow> string \<Rightarrow> ticket_action \<Rightarrow> string option \<Rightarrow> instant \<Rightarrow> (ticket_error, transition_request) result"
where
  "transition_of t author act message now =
     (if is_self_ticket t \<and> author \<noteq> tk_from_project t then Inl NotAllowed
      else res_bind (rule_for t act) (\<lambda>(expected, new_status).
        if author \<noteq> expected then Inl NotAllowed
        else
          let said = (case message of None \<Rightarrow> None | Some b \<Rightarrow> if b = [] then None else Some (author, b));
              terminal = new_status \<in> set TERMINAL_STATUSES
          in Inr \<lparr>tr_ticket_id = tk_id t, tr_action = Some act, tr_actor = Some author,
                   tr_expected = tk_status t, tr_new_status = new_status,
                   tr_resolved_at = (if new_status = SResolved then Some now
                                     else if new_status = SOpen then None else tk_resolved_at t),
                   tr_closed_at = (if terminal then Some now else tk_closed_at t),
                   tr_extraction = (if terminal \<and> tk_extraction t \<noteq> Some XSkipped then Some XPending
                                    else tk_extraction t),
                   tr_message = said\<rparr>))"

definition transition_request_of ::
    "ticket_db \<Rightarrow> uuid \<Rightarrow> string \<Rightarrow> string \<Rightarrow> string option \<Rightarrow> instant
     \<Rightarrow> (ticket_error, transition_request) result" where
  "transition_request_of db i author_project action message now =
     (case canonicalize_project_key True author_project of
        None \<Rightarrow> Inl InvalidProjectKey
      | Some author \<Rightarrow>
          (case get_ticket (db_tickets db) i of
             None \<Rightarrow> Inl (TicketNotFound i)
           | Some t \<Rightarrow>
               (case action_of_text action of
                  None \<Rightarrow> Inl (UnknownAction action)
                | Some act \<Rightarrow> transition_of t author act message now)))"

section \<open>Transitions: the delivery guard\<close>

text \<open>\<open>LockedDeliveryDecisionInputs\<close>: what \<open>load_locked_decision_inputs\<close> returns under its locks.\<close>

record locked_decision =
  ld_ticket :: ticket
  ld_inputs :: "evaluation_input option"
  ld_decision_time :: instant

record delivery_mutation =
  dm_disposition :: disposition
  dm_reopen :: bool

definition completion_action_of :: "bool \<Rightarrow> ticket_action \<Rightarrow> completion_action option" where
  "completion_action_of self_ticket act =
     (case act of
        AResolve \<Rightarrow> Some (if self_ticket then SelfResolve else CrossResolve)
      | AConfirm \<Rightarrow> Some (if self_ticket then SelfConfirm else CrossConfirm)
      | AResolvePending \<Rightarrow> (if self_ticket then Some SelfResolvePending else None)
      | _ \<Rightarrow> None)"

definition delivery_mutation_for ::
    "(int \<Rightarrow> instant) \<Rightarrow> locked_decision \<Rightarrow> evaluation_input \<Rightarrow> ticket_action \<Rightarrow> ticket_status
     \<Rightarrow> (ticket_error, delivery_mutation) result" where
  "delivery_mutation_for local_utc locked inputs act new_status =
     (let t = ld_ticket locked in
      if act = AReopen then Inr \<lparr>dm_disposition = DActive, dm_reopen = True\<rparr>
      else if act = ACancel then Inr \<lparr>dm_disposition = DCancelled, dm_reopen = False\<rparr>
      else if act = AWontfix \<or> tk_status t = SWontfix
      then Inr \<lparr>dm_disposition = DWontfix, dm_reopen = False\<rparr>
      else if act \<in> {AResolve, AResolvePending, AConfirm} then
        (case evaluate_delivery local_utc
            (inputs\<lparr>ei_requested_completion_action := completion_action_of (is_self_ticket t) act\<rparr>)
            (Aware (ld_decision_time locked)) of
           Inl e \<Rightarrow> Inl (DeliveryEvaluation e)
         | Inr assessment \<Rightarrow>
             if \<not> as_completion_eligible_now assessment
             then Inl (DeliveryRefused ''delivery_requirements_unsatisfied'')
             else if new_status = SClosed then Inr \<lparr>dm_disposition = DFulfilled, dm_reopen = False\<rparr>
             else Inr \<lparr>dm_disposition = DActive, dm_reopen = False\<rparr>)
      else Inr \<lparr>dm_disposition = DActive, dm_reopen = False\<rparr>)"

definition guard_delivery_transition ::
    "(int \<Rightarrow> instant) \<Rightarrow> (string, locked_decision) result \<Rightarrow> transition_request
     \<Rightarrow> (ticket_error, delivery_mutation option) result" where
  "guard_delivery_transition local_utc loaded r =
     (case loaded of
        Inl code \<Rightarrow> if code = ''ticket_not_found'' then Inr None else Inl (DeliveryRefused code)
      | Inr locked \<Rightarrow>
          (case ld_inputs locked of
             None \<Rightarrow> Inr None
           | Some inputs \<Rightarrow>
               (let t = ld_ticket locked in
                case (tr_action r, tr_actor r) of
                  (Some act, Some actor) \<Rightarrow>
                    if tk_status t \<noteq> tr_expected r then Inl (DeliveryRefused ''delivery_transition_conflict'')
                    else (case rule_for t act of
                        Inl _ \<Rightarrow> Inl (DeliveryRefused ''delivery_transition_invalid'')
                      | Inr (expected_actor, canonical_status) \<Rightarrow>
                          if canonical_status \<noteq> tr_new_status r
                          then Inl (DeliveryRefused ''delivery_transition_invalid'')
                          else if actor \<noteq> expected_actor then Inl (DeliveryRefused ''delivery_not_allowed'')
                          else res_bind (delivery_mutation_for local_utc locked inputs act (tr_new_status r))
                                 (\<lambda>m. Inr (Some m)))
                | _ \<Rightarrow> Inl (DeliveryRefused ''delivery_transition_required''))))"

text \<open>\<open>DeliveryTransitionMutation.apply\<close>.\<close>

definition mutate_workflow :: "delivery_mutation \<Rightarrow> instant \<Rightarrow> workflow_row \<Rightarrow> workflow_row" where
  "mutate_workflow m pg_now w =
     (let w1 = w\<lparr>wf_disposition := dm_disposition m, wf_row_version := wf_row_version w + 1,
                 wf_updated_at := pg_now\<rparr>;
          w2 = (if dm_reopen m \<or> dm_disposition m \<noteq> DActive
                then w1\<lparr>wf_claim_owner := None, wf_claim_kind := None, wf_claim_digest := None,
                        wf_claim_expires_at := None, wf_claim_epoch := wf_claim_epoch w + 1\<rparr>
                else w1)
      in if dm_reopen m
         then w2\<lparr>wf_attempt := wf_attempt w + 1, wf_context_row_version := wf_context_row_version w + 1,
                 wf_context_due_at := Some pg_now, wf_context_success_confirmation := None,
                 wf_context_attempt_confirmation := None, wf_context_last_attempt_at := None,
                 wf_context_last_attempt_outcome := None, wf_context_last_error_code := None,
                 wf_context_last_success_at := None\<rparr>
         else w2)"

definition apply_mutation :: "ticket_db \<Rightarrow> uuid \<Rightarrow> delivery_mutation \<Rightarrow> instant \<Rightarrow> ticket_db" where
  "apply_mutation db i m pg_now =
     db\<lparr>db_bindings := (if dm_reopen m
          then update_rows (\<lambda>b. ab_ticket_id (bw_binding b) = i \<and> bw_active b)
                 (\<lambda>b. b\<lparr>bw_active := False\<rparr>) (db_bindings db)
          else db_bindings db),
        db_workflows := update_rows (\<lambda>w. wf_ticket_id w = i) (mutate_workflow m pg_now) (db_workflows db)\<rparr>"

section \<open>Transitions: the compare-and-swap\<close>

definition apply_transition ::
    "(int \<Rightarrow> instant) \<Rightarrow> ticket_db \<Rightarrow> (string, locked_decision) result \<Rightarrow> transition_request \<Rightarrow> instant
     \<Rightarrow> (ticket_error, ticket_db \<times> ticket) result" where
  "apply_transition local_utc db loaded r pg_now =
     res_bind (guard_delivery_transition local_utc loaded r) (\<lambda>mutation.
       let hit = (\<lambda>t. tk_id t = tr_ticket_id r \<and> tk_status t = tr_expected r);
           write = (\<lambda>t. t\<lparr>tk_status := tr_new_status r, tk_resolved_at := tr_resolved_at r,
                          tk_closed_at := tr_closed_at r, tk_extraction := tr_extraction r,
                          tk_updated_at := pg_now\<rparr>)
       in case find_row hit (db_tickets db) of
            None \<Rightarrow> Inl TransitionConflict
          | Some t \<Rightarrow>
              (let db1 = db\<lparr>db_tickets := update_rows hit write (db_tickets db)\<rparr>;
                   db2 = (case mutation of None \<Rightarrow> db1 | Some m \<Rightarrow> apply_mutation db1 (tr_ticket_id r) m pg_now);
                   db3 = (case tr_message r of
                       None \<Rightarrow> db2
                     | Some (author, body) \<Rightarrow> db2\<lparr>db_messages := db_messages db2 @
                         [\<lparr>tm_ticket_id = tr_ticket_id r, tm_author_project = author, tm_body = body,
                           tm_status_to = Some (tr_new_status r), tm_created_at = pg_now\<rparr>]\<rparr>)
               in Inr (db3, write t)))"

text \<open>The errors of the write as \<open>TicketService.transition\<close> renders them.\<close>

definition rendered_transition_error :: "ticket_error \<Rightarrow> ticket_error" where
  "rendered_transition_error e = (case e of
       DeliveryRefused code \<Rightarrow>
         if code = ''delivery_not_allowed'' then NotAllowed
         else if code \<in> {''delivery_transition_invalid'', ''delivery_transition_required''}
         then IllegalTransition []
         else TransitionConflict
     | other \<Rightarrow> other)"

definition service_transition ::
    "(int \<Rightarrow> instant) \<Rightarrow> ticket_db \<Rightarrow> (string, locked_decision) result \<Rightarrow> uuid \<Rightarrow> string \<Rightarrow> string
     \<Rightarrow> string option \<Rightarrow> instant \<Rightarrow> instant \<Rightarrow> (ticket_error, ticket_db \<times> ticket) result" where
  "service_transition local_utc db loaded i author_project action message now pg_now =
     res_bind (transition_request_of db i author_project action message now) (\<lambda>r.
       case apply_transition local_utc db loaded r pg_now of
         Inl e \<Rightarrow> Inl (rendered_transition_error e)
       | Inr x \<Rightarrow> Inr x)"

section \<open>Views\<close>

definition ACTIONABLE :: "ticket_status list" where
  "ACTIONABLE = [SOpen, SInProgress]"

definition CONFIRMABLE :: "ticket_status list" where
  "CONFIRMABLE = [SResolved, SWontfix]"

record ticket_groups =
  tg_a_traiter :: "ticket list"
  tg_a_confirmer :: "ticket list"
  tg_en_attente :: "ticket list"
  tg_awaiting_requester_confirmation :: "ticket list"

definition view_order :: "ticket \<Rightarrow> int \<times> int \<times> string" where
  "view_order t = (- tk_updated_at t, - tk_created_at t, tk_id t)"

definition group_query ::
    "ticket list \<Rightarrow> (ticket \<Rightarrow> string) \<Rightarrow> string \<Rightarrow> ticket_status list \<Rightarrow> string option \<Rightarrow> (ticket \<Rightarrow> bool)
     \<Rightarrow> ticket list" where
  "group_query rows col project statuses release extra =
     sort_key view_order (filter (\<lambda>t. col t = project \<and> tk_status t \<in> set statuses \<and>
       (release = None \<or> tk_target_release t = release) \<and> extra t) rows)"

definition list_grouped :: "ticket list \<Rightarrow> string \<Rightarrow> string option \<Rightarrow> ticket_groups" where
  "list_grouped rows project release =
     \<lparr>tg_a_traiter = group_query rows tk_to_project project ACTIONABLE release (\<lambda>_. True),
      tg_a_confirmer = group_query rows tk_from_project project CONFIRMABLE release (\<lambda>_. True),
      tg_en_attente = group_query rows tk_from_project project ACTIONABLE release
        (\<lambda>t. tk_from_project t \<noteq> tk_to_project t),
      tg_awaiting_requester_confirmation = group_query rows tk_to_project project CONFIRMABLE release
        (\<lambda>t. tk_from_project t \<noteq> tk_to_project t)\<rparr>"

datatype count_category = CatTodo | CatToConfirm | CatWaiting

record project_counts =
  pc_project :: string
  pc_todo :: nat
  pc_to_confirm :: nat
  pc_waiting :: nat

text \<open>The union of the three selections, grouped by project, most urgent first.\<close>

definition counted_rows :: "ticket list \<Rightarrow> (string \<times> count_category) list" where
  "counted_rows rows =
     map (\<lambda>t. (tk_to_project t, CatTodo)) (filter (\<lambda>t. tk_status t \<in> set ACTIONABLE) rows) @
     map (\<lambda>t. (tk_from_project t, CatToConfirm)) (filter (\<lambda>t. tk_status t \<in> set CONFIRMABLE) rows) @
     map (\<lambda>t. (tk_from_project t, CatWaiting))
       (filter (\<lambda>t. tk_status t \<in> set ACTIONABLE \<and> tk_from_project t \<noteq> tk_to_project t) rows)"

definition count_grouped_by_project :: "ticket list \<Rightarrow> project_counts list" where
  "count_grouped_by_project rows =
     sort_key (\<lambda>c. (- int (pc_todo c), - int (pc_to_confirm c), - int (pc_waiting c), pc_project c))
       (map (\<lambda>(project, cs).
          \<lparr>pc_project = project,
           pc_todo = length (filter (\<lambda>pc. snd pc = CatTodo) cs),
           pc_to_confirm = length (filter (\<lambda>pc. snd pc = CatToConfirm) cs),
           pc_waiting = length (filter (\<lambda>pc. snd pc = CatWaiting) cs)\<rparr>)
        (group_by fst (counted_rows rows)))"

definition release_lots :: "ticket list \<Rightarrow> string \<Rightarrow> release_lot list" where
  "release_lots rows project =
     map (\<lambda>(release, ts).
        \<lparr>rl_target_release = the release,
         rl_open = length (filter (\<lambda>t. tk_status t \<in> {SOpen, SInProgress}) ts),
         rl_resolved = length (filter (\<lambda>t. tk_status t \<in> {SResolved, SClosed}) ts),
         rl_wontfix = length (filter (\<lambda>t. tk_status t = SWontfix) ts)\<rparr>)
       (group_by tk_target_release
          (filter (\<lambda>t. tk_to_project t = project \<and> tk_target_release t \<noteq> None) rows))"

end
