(* ===== verification/Ticket_Lifecycle.thy ===== *)
theory Ticket_Lifecycle
  imports Tickets Delivery_Assurance
begin

text \<open>
  The ticket system as a transition system, and what its operations guarantee. A call that has read
  its ticket and not yet written is in \<open>ts_pending\<close>; steps create tickets, let a call read, let it
  write, or drop it, in any order. \<open>ticket_inv\<close> is the invariant of the reachable states, an instance
  of \<open>invariant_system\<close>: row identities are unique, every row respects the life cycle, and every
  pending transition was computed from a row of the same identity.
\<close>

section \<open>The life cycle of a ticket\<close>

definition lifecycle_ok :: "ticket \<Rightarrow> bool" where
  "lifecycle_ok t =
     ((tk_closed_at t \<noteq> None \<longleftrightarrow> tk_status t \<in> set TERMINAL_STATUSES) \<and>
      (tk_status t = SResolved \<longrightarrow> tk_resolved_at t \<noteq> None) \<and>
      (tk_status t \<in> {SOpen, SInProgress, SWontfix} \<longrightarrow> tk_resolved_at t = None) \<and>
      (tk_kind t = TicketFyi \<longrightarrow> tk_status t \<in> {SOpen, SClosed, SAcked}) \<and>
      (tk_status t = SAcked \<longrightarrow> tk_kind t = TicketFyi) \<and>
      (tk_status t \<in> set TERMINAL_STATUSES \<longrightarrow> tk_extraction t \<noteq> None))"

lemma TRANSITIONS_table:
  "list_all (\<lambda>((k, s, a), (role, s')). s \<notin> set TERMINAL_STATUSES \<and> s' \<noteq> s
    \<and> (s' = SAcked \<longrightarrow> k = TicketFyi) \<and> (k = TicketFyi \<longrightarrow> s' \<in> {SClosed, SAcked})
    \<and> (s' \<in> {SWontfix, SInProgress} \<longrightarrow> s \<in> {SOpen, SInProgress}) \<and> (s' = SOpen \<longrightarrow> a = AReopen)) TRANSITIONS"
  by (simp add: TRANSITIONS_def TERMINAL_STATUSES_def)

lemma SELF_TRANSITIONS_table:
  "list_all (\<lambda>((k, s, a), s'). s \<notin> set TERMINAL_STATUSES \<and> s' \<noteq> s
    \<and> (s' = SAcked \<longrightarrow> k = TicketFyi) \<and> (k = TicketFyi \<longrightarrow> s' \<in> {SClosed, SAcked})
    \<and> (s' \<in> {SWontfix, SInProgress} \<longrightarrow> s \<in> {SOpen, SInProgress}) \<and> (s' = SOpen \<longrightarrow> a = AReopen)) SELF_TRANSITIONS"
  by (simp add: SELF_TRANSITIONS_def TERMINAL_STATUSES_def)

lemma map_of_list_all: "list_all P xs \<Longrightarrow> map_of xs k = Some v \<Longrightarrow> P (k, v)"
  by (auto simp: list_all_iff dest: map_of_SomeD)

lemma rule_for_cases:
  assumes "rule_for t act = Inr (who, s')"
  shows "tk_status t \<notin> set TERMINAL_STATUSES \<and> s' \<noteq> tk_status t \<and>
    who \<in> {tk_from_project t, tk_to_project t} \<and> (s' = SAcked \<longrightarrow> tk_kind t = TicketFyi) \<and>
    (tk_kind t = TicketFyi \<longrightarrow> s' \<in> {SClosed, SAcked}) \<and>
    (s' \<in> {SWontfix, SInProgress} \<longrightarrow> tk_status t \<in> {SOpen, SInProgress}) \<and>
    (s' = SOpen \<longrightarrow> act = AReopen)"
  using assms map_of_list_all [OF TRANSITIONS_table, of "(tk_kind t, tk_status t, act)"]
    map_of_list_all [OF SELF_TRANSITIONS_table, of "(tk_kind t, tk_status t, act)"]
  by (auto simp: rule_for_def Let_def split: if_splits option.splits prod.splits)

definition write_ticket :: "transition_request \<Rightarrow> instant \<Rightarrow> ticket \<Rightarrow> ticket" where
  "write_ticket r pg_now t =
     t\<lparr>tk_status := tr_new_status r, tk_resolved_at := tr_resolved_at r, tk_closed_at := tr_closed_at r,
       tk_extraction := tr_extraction r, tk_updated_at := pg_now\<rparr>"

lemma transition_of_Inr:
  assumes "transition_of t author act m now = Inr r"
  shows "rule_for t act = Inr (author, tr_new_status r)" "tr_ticket_id r = tk_id t"
    "tr_action r = Some act" "tr_actor r = Some author" "tr_expected r = tk_status t"
    "tr_resolved_at r = (if tr_new_status r = SResolved then Some now
       else if tr_new_status r = SOpen then None else tk_resolved_at t)"
    "tr_closed_at r = (if tr_new_status r \<in> set TERMINAL_STATUSES then Some now else tk_closed_at t)"
    "tr_extraction r = (if tr_new_status r \<in> set TERMINAL_STATUSES \<and> tk_extraction t \<noteq> Some XSkipped
       then Some XPending else tk_extraction t)"
    "tr_message r = None \<or> (\<exists>b. m = Some b \<and> b \<noteq> [] \<and> tr_message r = Some (author, b))"
proof -
  from assms obtain new_status where rule: "rule_for t act = Inr (author, new_status)"
    and r: "Inr r = transition_of t author act m now"
    by (auto simp: transition_of_def res_bind_eq_Inr Let_def split: if_splits)
  have "is_self_ticket t \<Longrightarrow> author = tk_from_project t"
    using rule by (auto simp: rule_for_def Let_def split: option.splits)
  then have r: "r = \<lparr>tr_ticket_id = tk_id t, tr_action = Some act, tr_actor = Some author,
      tr_expected = tk_status t, tr_new_status = new_status,
      tr_resolved_at = (if new_status = SResolved then Some now
        else if new_status = SOpen then None else tk_resolved_at t),
      tr_closed_at = (if new_status \<in> set TERMINAL_STATUSES then Some now else tk_closed_at t),
      tr_extraction = (if new_status \<in> set TERMINAL_STATUSES \<and> tk_extraction t \<noteq> Some XSkipped
        then Some XPending else tk_extraction t),
      tr_message = (case m of None \<Rightarrow> None | Some b \<Rightarrow> if b = [] then None else Some (author, b))\<rparr>"
    using r rule by (cases "is_self_ticket t"; cases m) (simp_all add: transition_of_def Let_def)
  show "rule_for t act = Inr (author, tr_new_status r)" "tr_ticket_id r = tk_id t"
    "tr_action r = Some act" "tr_actor r = Some author" "tr_expected r = tk_status t"
    "tr_resolved_at r = (if tr_new_status r = SResolved then Some now
       else if tr_new_status r = SOpen then None else tk_resolved_at t)"
    "tr_closed_at r = (if tr_new_status r \<in> set TERMINAL_STATUSES then Some now else tk_closed_at t)"
    "tr_extraction r = (if tr_new_status r \<in> set TERMINAL_STATUSES \<and> tk_extraction t \<noteq> Some XSkipped
       then Some XPending else tk_extraction t)"
    "tr_message r = None \<or> (\<exists>b. m = Some b \<and> b \<noteq> [] \<and> tr_message r = Some (author, b))"
    unfolding r using rule by (simp_all split: option.splits)
qed

lemma transition_keeps_lifecycle:
  assumes "transition_of t0 author act m now = Inr r" and "lifecycle_ok t0"
    and "tk_kind t = tk_kind t0" and "tk_status t = tr_expected r"
  shows "lifecycle_ok (write_ticket r pg_now t)"
proof -
  note R = transition_of_Inr [OF assms(1)]
  note rule = rule_for_cases [OF R(1)]
  have open0: "tk_closed_at t0 = None"
    using assms(2) rule by (simp add: lifecycle_ok_def)
  show ?thesis
    using assms(2,3) rule open0
    by (cases "tr_new_status r")
      (auto simp: lifecycle_ok_def write_ticket_def R(6-8) TERMINAL_STATUSES_def)
qed

lemma apply_transition_Inr:
  assumes "apply_transition tz db loaded r pg_now = Inr (db', t')"
  obtains t mutation where
    "guard_delivery_transition tz loaded r = Inr mutation"
    "find_row (\<lambda>t. tk_id t = tr_ticket_id r \<and> tk_status t = tr_expected r) (db_tickets db) = Some t"
    "t' = write_ticket r pg_now t"
    "db_tickets db' = update_rows (\<lambda>t. tk_id t = tr_ticket_id r \<and> tk_status t = tr_expected r)
       (write_ticket r pg_now) (db_tickets db)"
    "db_messages db' = db_messages db @ (case tr_message r of None \<Rightarrow> []
       | Some (a, b) \<Rightarrow> [\<lparr>tm_ticket_id = tr_ticket_id r, tm_author_project = a, tm_body = b,
           tm_status_to = Some (tr_new_status r), tm_created_at = pg_now\<rparr>])"
    "(mutation = None \<and> db_workflows db' = db_workflows db \<and> db_bindings db' = db_bindings db) \<or>
     (\<exists>m. mutation = Some m \<and>
        db_workflows db' = update_rows (\<lambda>w. wf_ticket_id w = tr_ticket_id r) (mutate_workflow m pg_now) (db_workflows db) \<and>
        db_bindings db' = (if dm_reopen m then update_rows (\<lambda>b. ab_ticket_id (bw_binding b) = tr_ticket_id r \<and> bw_active b)
                 (\<lambda>b. b\<lparr>bw_active := False\<rparr>) (db_bindings db) else db_bindings db))"
proof -
  from assms obtain mutation where g: "guard_delivery_transition tz loaded r = Inr mutation"
    by (auto simp: apply_transition_def result_simps)
  with assms obtain t where t: "find_row (\<lambda>t. tk_id t = tr_ticket_id r \<and> tk_status t = tr_expected r) (db_tickets db) = Some t"
    by (auto simp: apply_transition_def Let_def split: option.splits)
  show ?thesis
  proof (rule that [OF g t])
  qed (use assms g t in \<open>auto simp: apply_transition_def Let_def write_ticket_def [abs_def] apply_mutation_def
      split: option.splits\<close>)
qed

section \<open>The ticket system with calls in flight\<close>

datatype pending_write =
    PendingTransition transition_request
  | PendingPlan plan_request
  | PendingReply uuid string string "string option"

record ticket_sys =
  ts_db :: ticket_db
  ts_pending :: "pending_write list"

definition loaded_ok :: "ticket_db \<Rightarrow> uuid \<Rightarrow> (string, locked_decision) result \<Rightarrow> bool" where
  "loaded_ok db i loaded = (case get_ticket (db_tickets db) i of
       None \<Rightarrow> loaded = Inl ''ticket_not_found''
     | Some t \<Rightarrow> (case loaded of Inl _ \<Rightarrow> False
         | Inr l \<Rightarrow> ld_ticket l = t \<and> (ld_inputs l = None \<longleftrightarrow> get_workflow (db_workflows db) i = None)))"

inductive ticket_step :: "(int \<Rightarrow> instant) \<Rightarrow> string list \<Rightarrow> ticket_sys \<Rightarrow> ticket_sys \<Rightarrow> bool"
  for tz projects where
  create: "fresh_id \<notin> tk_id ` set (db_tickets (ts_db s)) \<Longrightarrow>
    service_create projects (ts_db s) data fresh_id pg_now = Inr (db', t) \<Longrightarrow>
    ticket_step tz projects s (s\<lparr>ts_db := db'\<rparr>)"
| ask_transition: "transition_request_of (ts_db s) i author action message now = Inr r \<Longrightarrow>
    ticket_step tz projects s (s\<lparr>ts_pending := PendingTransition r # ts_pending s\<rparr>)"
| do_transition: "PendingTransition r \<in> set (ts_pending s) \<Longrightarrow> loaded_ok (ts_db s) (tr_ticket_id r) loaded \<Longrightarrow>
    apply_transition tz (ts_db s) loaded r pg_now = Inr (db', t) \<Longrightarrow>
    ticket_step tz projects s (s\<lparr>ts_db := db', ts_pending := removeAll (PendingTransition r) (ts_pending s)\<rparr>)"
| ask_plan: "plan_request_of (ts_db s) i author release = Inr p \<Longrightarrow>
    ticket_step tz projects s (s\<lparr>ts_pending := PendingPlan p # ts_pending s\<rparr>)"
| do_plan: "PendingPlan p \<in> set (ts_pending s) \<Longrightarrow> set_target_release (ts_db s) p pg_now = Inr (db', m) \<Longrightarrow>
    ticket_step tz projects s (s\<lparr>ts_db := db', ts_pending := removeAll (PendingPlan p) (ts_pending s)\<rparr>)"
| ask_reply: "get_ticket (db_tickets (ts_db s)) i = Some t \<Longrightarrow>
    canonicalize_project_key True author = Some a \<Longrightarrow> reply_request t a body corrects = Inr (recorded, new_body) \<Longrightarrow>
    ticket_step tz projects s (s\<lparr>ts_pending := PendingReply i a recorded new_body # ts_pending s\<rparr>)"
| do_reply: "PendingReply i a recorded new_body \<in> set (ts_pending s) \<Longrightarrow>
    ticket_step tz projects s (s\<lparr>ts_db := fst (add_message (ts_db s) i a recorded None new_body pg_now),
      ts_pending := removeAll (PendingReply i a recorded new_body) (ts_pending s)\<rparr>)"
| forget: "ticket_step tz projects s (s\<lparr>ts_pending := removeAll w (ts_pending s)\<rparr>)"

inductive_cases ticket_stepE: "ticket_step tz projects s s'"

definition ticket_start :: "ticket_sys \<Rightarrow> bool" where
  "ticket_start s = (db_tickets (ts_db s) = [] \<and> ts_pending s = [])"

text \<open>The identity of a ticket never changes: no operation writes these columns.\<close>

definition ticket_identity :: "ticket \<Rightarrow> uuid \<times> ticket_kind \<times> string \<times> string" where
  "ticket_identity t = (tk_id t, tk_kind t, tk_from_project t, tk_to_project t)"

definition request_ok :: "ticket_db \<Rightarrow> transition_request \<Rightarrow> bool" where
  "request_ok db r =
     (\<exists>t0 author act m now. transition_of t0 author act m now = Inr r \<and> lifecycle_ok t0 \<and>
        ticket_identity t0 \<in> ticket_identity ` set (db_tickets db))"

definition ticket_inv :: "ticket_sys \<Rightarrow> bool" where
  "ticket_inv s =
     (distinct (map tk_id (db_tickets (ts_db s))) \<and> (\<forall>t \<in> set (db_tickets (ts_db s)). lifecycle_ok t) \<and>
      (\<forall>r. PendingTransition r \<in> set (ts_pending s) \<longrightarrow> request_ok (ts_db s) r))"

lemma identity_update_rows:
  assumes "\<And>t. ticket_identity (f t) = ticket_identity t"
  shows "map ticket_identity (update_rows p f rows) = map ticket_identity rows"
  using assms by (auto simp: update_rows_def)

lemma identity_ids:
  assumes "map ticket_identity xs = map ticket_identity ys"
  shows "map tk_id xs = map tk_id ys" "ticket_identity ` set xs = ticket_identity ` set ys"
proof -
  have "map tk_id xs = map (fst \<circ> ticket_identity) xs" for xs by (simp add: ticket_identity_def)
  then show "map tk_id xs = map tk_id ys" using assms by (metis map_map)
  show "ticket_identity ` set xs = ticket_identity ` set ys" using assms by (metis set_map)
qed

lemma ticket_inv_keep:
  assumes "ticket_inv s" and "map ticket_identity (db_tickets db') = map ticket_identity (db_tickets (ts_db s))"
    and "\<forall>t \<in> set (db_tickets db'). lifecycle_ok t" and "set pending \<subseteq> set (ts_pending s)"
  shows "ticket_inv (s\<lparr>ts_db := db', ts_pending := pending\<rparr>)"
  using assms identity_ids [OF assms(2)] by (auto simp: ticket_inv_def request_ok_def)

lemma lifecycle_identity_update:
  "lifecycle_ok (t\<lparr>tk_updated_at := u\<rparr>) = lifecycle_ok t"
  "lifecycle_ok (t\<lparr>tk_updated_at := u, tk_body := b\<rparr>) = lifecycle_ok t"
  "lifecycle_ok (t\<lparr>tk_target_release := p\<rparr>) = lifecycle_ok t"
  by (simp_all add: lifecycle_ok_def)

lemma lifecycle_update_rows:
  assumes "\<forall>t \<in> set rows. lifecycle_ok t" and "\<And>t. t \<in> set rows \<Longrightarrow> p t \<Longrightarrow> lifecycle_ok (f t)"
  shows "\<forall>t \<in> set (update_rows p f rows). lifecycle_ok t"
  using assms by (auto simp: update_rows_def)

lemma ticket_inv_touch:
  assumes inv: "ticket_inv s" and db': "db_tickets db' = update_rows p f (db_tickets (ts_db s))"
    and "\<And>t. ticket_identity (f t) = ticket_identity t"
    and "\<And>t. t \<in> set (db_tickets (ts_db s)) \<Longrightarrow> p t \<Longrightarrow> lifecycle_ok t \<Longrightarrow> lifecycle_ok (f t)"
    and "set pending \<subseteq> set (ts_pending s)"
  shows "ticket_inv (s\<lparr>ts_db := db', ts_pending := pending\<rparr>)"
proof (rule ticket_inv_keep [OF inv _ _ assms(5)])
  show "map ticket_identity (db_tickets db') = map ticket_identity (db_tickets (ts_db s))"
    unfolding db' by (rule identity_update_rows) (rule assms(3))
  show "\<forall>t \<in> set (db_tickets db'). lifecycle_ok t"
    unfolding db' using inv assms(4) by (intro lifecycle_update_rows) (auto simp: ticket_inv_def)
qed

lemma identity_distinct:
  assumes "distinct (map tk_id rows)" and "t \<in> set rows" and "tk_id t = tk_id t0"
    and "ticket_identity t0 \<in> ticket_identity ` set rows"
  shows "ticket_identity t = ticket_identity t0"
proof -
  from assms(4) obtain t1 where t1: "t1 \<in> set rows" "ticket_identity t0 = ticket_identity t1" by auto
  then have "tk_id t1 = tk_id t" using assms(3) by (simp add: ticket_identity_def)
  with assms(1,2) t1(1) have "t1 = t" by (metis (no_types) distinct_map inj_onD)
  with t1(2) show ?thesis by simp
qed

lemma do_transition_sound:
  assumes inv: "ticket_inv s" and r: "PendingTransition r \<in> set (ts_pending s)"
    and t: "t \<in> set (db_tickets (ts_db s))" "tk_id t = tr_ticket_id r" "tk_status t = tr_expected r"
  shows "lifecycle_ok (write_ticket r pg_now t)"
    and "\<exists>act actor. tr_action r = Some act \<and> tr_actor r = Some actor \<and> rule_for t act = Inr (actor, tr_new_status r)"
proof -
  from inv r have "request_ok (ts_db s) r" by (simp add: ticket_inv_def)
  then obtain t0 author act m now where t0: "transition_of t0 author act m now = Inr r" "lifecycle_ok t0"
    "ticket_identity t0 \<in> ticket_identity ` set (db_tickets (ts_db s))" by (auto simp: request_ok_def)
  note R = transition_of_Inr [OF t0(1)]
  have id: "ticket_identity t = ticket_identity t0"
    using inv t t0(3) R(2) by (intro identity_distinct) (auto simp: ticket_inv_def)
  then show "lifecycle_ok (write_ticket r pg_now t)"
    using transition_keeps_lifecycle [OF t0(1,2)] t(3) by (simp add: ticket_identity_def)
  have "rule_for t act = rule_for t0 act"
    using id t(3) R(5) by (simp add: rule_for_def is_self_ticket_def ticket_identity_def Let_def
        split: option.splits)
  with R show "\<exists>act actor. tr_action r = Some act \<and> tr_actor r = Some actor \<and>
      rule_for t act = Inr (actor, tr_new_status r)" by auto
qed

lemma ticket_inv_start: "ticket_start s \<Longrightarrow> ticket_inv s"
  by (simp add: ticket_start_def ticket_inv_def)

lemma ticket_inv_create:
  assumes "ticket_inv s" and "fresh_id \<notin> tk_id ` set (db_tickets (ts_db s))"
    and "service_create projects (ts_db s) data fresh_id pg_now = Inr (db', t)"
  shows "ticket_inv (s\<lparr>ts_db := db'\<rparr>)"
proof -
  have "db_tickets db' = db_tickets (ts_db s) @ [new_ticket data fresh_id pg_now]"
    using assms(3) by (auto simp: service_create_def Let_def split: if_splits)
  moreover have "lifecycle_ok (new_ticket data fresh_id pg_now)" "tk_id (new_ticket data fresh_id pg_now) = fresh_id"
    by (simp_all add: new_ticket_def lifecycle_ok_def TERMINAL_STATUSES_def)
  moreover from calculation(1)
  have "ticket_identity ` set (db_tickets (ts_db s)) \<subseteq> ticket_identity ` set (db_tickets db')" by auto
  then have "request_ok db' r" if "request_ok (ts_db s) r" for r
    using that unfolding request_ok_def by blast
  ultimately show ?thesis using assms(1,2) by (auto simp: ticket_inv_def)
qed

lemma ticket_identity_write: "ticket_identity (write_ticket r pg_now t) = ticket_identity t"
  by (simp add: ticket_identity_def write_ticket_def)

lemma ticket_inv_do_transition:
  assumes inv: "ticket_inv s" and r: "PendingTransition r \<in> set (ts_pending s)"
    and ap: "apply_transition tz (ts_db s) loaded r pg_now = Inr (db', t)"
  shows "ticket_inv (s\<lparr>ts_db := db', ts_pending := removeAll (PendingTransition r) (ts_pending s)\<rparr>)"
  using ap
proof (cases rule: apply_transition_Inr)
  case (1 t mutation)
  show ?thesis
    by (rule ticket_inv_touch [OF inv 1(4)])
      (auto intro: do_transition_sound(1) [OF inv r] simp: ticket_identity_write)
qed

lemma ticket_inv_step:
  assumes "ticket_inv s" and "ticket_step tz projects s s'"
  shows "ticket_inv s'"
  using assms(2)
proof (cases rule: ticket_step.cases)
  case (create fresh_id data pg_now db' t)
  then show ?thesis using ticket_inv_create assms(1) by blast
next
  case (ask_transition i author action message now r)
  then obtain t a act where "t \<in> set (db_tickets (ts_db s))" "transition_of t a act message now = Inr r"
    by (auto simp: transition_request_of_def split: option.splits dest: tickets.get_row_Some)
  with assms(1) have "request_ok (ts_db s) r" unfolding request_ok_def ticket_inv_def by blast
  with assms(1) ask_transition(1) show ?thesis by (auto simp: ticket_inv_def)
next
  case (do_transition r loaded pg_now db' t)
  then show ?thesis using ticket_inv_do_transition assms(1) by blast
next
  case (ask_plan i author release p)
  with assms(1) show ?thesis by (auto simp: ticket_inv_def)
next
  case (do_plan p pg_now db' m)
  then have "db_tickets db' = update_rows (\<lambda>t. tk_id t = pr_ticket_id p \<and> tk_target_release t = pr_expected p)
      (\<lambda>t. t\<lparr>tk_target_release := pr_new p, tk_updated_at := pg_now\<rparr>) (db_tickets (ts_db s))"
    by (auto simp: set_target_release_def Let_def split: if_splits)
  then show ?thesis unfolding do_plan(1)
    by (rule ticket_inv_touch [OF assms(1)]) (auto simp: ticket_identity_def lifecycle_identity_update)
next
  case (ask_reply i t author a body corrects recorded new_body)
  with assms(1) show ?thesis by (auto simp: ticket_inv_def)
next
  case (do_reply i a recorded new_body pg_now)
  have "db_tickets (fst (add_message (ts_db s) i a recorded None new_body pg_now)) =
      update_rows (\<lambda>t. tk_id t = i) (\<lambda>t. t\<lparr>tk_updated_at := pg_now,
        tk_body := (case new_body of None \<Rightarrow> tk_body t | Some b \<Rightarrow> b)\<rparr>) (db_tickets (ts_db s))"
    by (simp add: add_message_def Let_def)
  then show ?thesis unfolding do_reply(1)
    by (rule ticket_inv_touch [OF assms(1)]) (auto simp: ticket_identity_def lifecycle_identity_update)
next
  case (forget w)
  with assms(1) show ?thesis by (auto simp: ticket_inv_def)
qed

interpretation ticket_system: invariant_system ticket_start "ticket_step tz projects" ticket_inv
  by unfold_locales (fact ticket_inv_start, fact ticket_inv_step)

lemma find_row_update_status:
  assumes "distinct (map tk_id rows)" and "find_row (\<lambda>t. tk_id t = i \<and> tk_status t = s) rows = Some t"
    and "tk_id (f t) = i" "tk_status (f t) \<noteq> s"
  shows "find_row (\<lambda>t. tk_id t = i \<and> tk_status t = s) (update_rows (\<lambda>t. tk_id t = i \<and> tk_status t = s) f rows) = None"
proof -
  have t: "t \<in> set rows" "tk_id t = i" "tk_status t = s" using find_row_Some [OF assms(2)] by auto
  have "t' = t" if "t' \<in> set rows" "tk_id t' = i" for t'
    using that t assms(1) by (metis (no_types) distinct_map inj_onD)
  then show ?thesis using assms(3,4) by (auto simp: find_row_None set_update_rows)
qed

definition concerns :: "string \<Rightarrow> string option \<Rightarrow> ticket \<Rightarrow> bool" where
  "concerns project release t =
     (project \<in> {tk_from_project t, tk_to_project t} \<and> tk_status t \<in> {SOpen, SInProgress, SResolved, SWontfix} \<and>
      (release = None \<or> tk_target_release t = release))"

lemma set_group_query:
  "t \<in> set (group_query rows col project statuses release extra) \<longleftrightarrow>
     t \<in> set rows \<and> col t = project \<and> tk_status t \<in> set statuses \<and>
     (release = None \<or> tk_target_release t = release) \<and> extra t"
  by (auto simp: group_query_def)

lemma mset_filter_split:
  assumes "\<And>x. (of_bool (P x) :: nat) = of_bool (A x) + of_bool (B x) + of_bool (C x) + of_bool (D x)"
  shows "mset (filter P xs) = mset (filter A xs) + mset (filter B xs) + mset (filter C xs) + mset (filter D xs)"
proof (induction xs)
  case (Cons x xs)
  with assms [of x] show ?case
    by (cases "P x"; cases "A x"; cases "B x"; cases "C x"; cases "D x") simp_all
qed simp

lemma count_rows_todo:
  "length (filter (\<lambda>pc. snd pc = CatTodo) (filter (\<lambda>pc. fst pc = project) (counted_rows rows)))
     = length (tg_a_traiter (list_grouped rows project None))"
  "length (filter (\<lambda>pc. snd pc = CatToConfirm) (filter (\<lambda>pc. fst pc = project) (counted_rows rows)))
     = length (tg_a_confirmer (list_grouped rows project None))"
  "length (filter (\<lambda>pc. snd pc = CatWaiting) (filter (\<lambda>pc. fst pc = project) (counted_rows rows)))
     = length (tg_en_attente (list_grouped rows project None))"
  by (simp_all add: counted_rows_def list_grouped_def group_query_def filter_map comp_def conj_ac)

lemma group_by_items: "(k, vs) \<in> set (group_by f xs) \<Longrightarrow> vs = filter (\<lambda>v. f v = k) xs"
proof -
  assume "(k, vs) \<in> set (group_by f xs)"
  then have "map_of (group_by f xs) k = Some vs" by simp
  then have "dict_get (group_by f xs) k = vs" by (simp add: dict_get_def)
  then show ?thesis by simp
qed

section \<open>A sample system\<close>

definition sample_data :: ticket_create where
  "sample_data = \<lparr>tc_kind = TicketRequest, tc_title = ''api'', tc_body = ''old'', tc_from_project = ''acme'',
     tc_to_project = ''brain-v42'', tc_extraction = None\<rparr>"

definition sample_ticket :: ticket where
  "sample_ticket = new_ticket sample_data ''t1'' 0"

definition sample_db :: ticket_db where
  "sample_db = \<lparr>db_tickets = [sample_ticket], db_messages = [], db_workflows = [], db_bindings = []\<rparr>"

definition sample_request :: transition_request where
  "sample_request = \<lparr>tr_ticket_id = ''t1'', tr_action = Some AResolve, tr_actor = Some ''brain-v42'',
     tr_expected = SOpen, tr_new_status = SResolved, tr_resolved_at = Some 5, tr_closed_at = None,
     tr_extraction = None, tr_message = Some (''brain-v42'', ''done'')\<rparr>"

definition sample_sys :: ticket_sys where
  "sample_sys = \<lparr>ts_db = sample_db, ts_pending = [PendingTransition sample_request]\<rparr>"

definition sample_loaded :: "(string, locked_decision) result" where
  "sample_loaded = Inr \<lparr>ld_ticket = sample_ticket, ld_inputs = None, ld_decision_time = 5\<rparr>"

lemma sample_canonical: "canonicalize_project_key True ''brain-v42'' = Some ''brain-v42''"
  using strip_kebab [of "''brain-v42''"]
  by (simp add: canonicalize_project_key_def is_kebab_def is_kebab_char_def ALIASES_def)

lemma sample_asked:
  "transition_request_of sample_db ''t1'' ''brain-v42'' ''resolve'' (Some ''done'') 5 = Inr sample_request"
  by (simp add: transition_request_of_def sample_canonical sample_db_def sample_ticket_def sample_data_def
      new_ticket_def get_ticket_def find_row_def action_of_text_def all_actions_def action_text_def transition_of_def
      rule_for_def is_self_ticket_def TRANSITIONS_def TERMINAL_STATUSES_def sample_request_def Let_def)

lemma sample_reachable:
  "reachable ticket_start (ticket_step (\<lambda>t. t) [''acme'', ''brain-v42'']) sample_sys"
proof -
  let ?step = "ticket_step (\<lambda>t. t) [''acme'', ''brain-v42'']"
  let ?s0 = "\<lparr>ts_db = sample_db\<lparr>db_tickets := []\<rparr>, ts_pending = []\<rparr>"
  let ?s1 = "\<lparr>ts_db = sample_db, ts_pending = []\<rparr>"
  have "reachable ticket_start ?step ?s0" by (rule reachable_start) (simp add: ticket_start_def)
  moreover have "?step ?s0 (?s0\<lparr>ts_db := sample_db\<rparr>)"
    by (rule ticket_step.create [where fresh_id = "''t1''" and data = sample_data and pg_now = 0 and t = sample_ticket])
      (simp_all add: service_create_def sample_data_def sample_db_def sample_ticket_def Let_def)
  ultimately have "reachable ticket_start ?step ?s1" by (auto intro: reachable_step)
  moreover have "?step ?s1 (?s1\<lparr>ts_pending := PendingTransition sample_request # ts_pending ?s1\<rparr>)"
    by (rule ticket_step.ask_transition) (use sample_asked in simp)
  ultimately show ?thesis by (auto simp: sample_sys_def intro: reachable_step)
qed

lemma sample_applied:
  "apply_transition (\<lambda>t. t) sample_db sample_loaded sample_request 6 =
     Inr (sample_db\<lparr>db_tickets := [write_ticket sample_request 6 sample_ticket],
        db_messages := [\<lparr>tm_ticket_id = ''t1'', tm_author_project = ''brain-v42'', tm_body = ''done'',
          tm_status_to = Some SResolved, tm_created_at = 6\<rparr>]\<rparr>, write_ticket sample_request 6 sample_ticket)"
  by (simp add: apply_transition_def guard_delivery_transition_def sample_loaded_def sample_db_def sample_request_def
      sample_ticket_def sample_data_def new_ticket_def find_row_def update_rows_def write_ticket_def)

text \<open>A contracted ticket, resolved, with its integration and fulfilment receipts.\<close>

definition contracted_ticket :: ticket where
  "contracted_ticket = sample_ticket\<lparr>tk_status := SResolved, tk_resolved_at := Some 5\<rparr>"

definition contracted_workflow :: workflow_row where
  "contracted_workflow = \<lparr>wf_ticket_id = ''t1'', wf_current_revision = 1, wf_disposition = DActive, wf_row_version = 3, wf_attempt = 1,
     wf_claim_owner = None, wf_claim_kind = None, wf_claim_digest = None, wf_claim_expires_at = None,
     wf_claim_epoch = 4, wf_context_set_digest = replicate 64 CHR ''0'', wf_context_row_version = 1, wf_context_due_at = None,
     wf_context_success_confirmation = None, wf_context_attempt_confirmation = None,
     wf_context_last_attempt_at = None, wf_context_last_attempt_outcome = None,
     wf_context_last_error_code = None, wf_context_last_success_at = None, wf_updated_at = 0\<rparr>"

definition contracted_db :: ticket_db where
  "contracted_db = \<lparr>db_tickets = [contracted_ticket], db_messages = [], db_workflows = [contracted_workflow],
     db_bindings = [\<lparr>bw_binding = be_binding sample_binding, bw_repository_name = ''acme/api'', bw_active = True,
       bw_due_at = None, bw_last_attempt_at = None, bw_last_success_at = None, bw_success_confirmation = None,
       bw_attempt_confirmation = None\<rparr>]\<rparr>"

definition contracted_locked :: locked_decision where
  "contracted_locked = \<lparr>ld_ticket = contracted_ticket, ld_inputs = Some contracted_input, ld_decision_time = 10000000\<rparr>"

definition contracted_confirm :: transition_request where
  "contracted_confirm = \<lparr>tr_ticket_id = ''t1'', tr_action = Some AConfirm, tr_actor = Some ''acme'',
     tr_expected = SResolved, tr_new_status = SClosed, tr_resolved_at = Some 5, tr_closed_at = Some 9,
     tr_extraction = Some XPending, tr_message = None\<rparr>"

definition contracted_reopen :: transition_request where
  "contracted_reopen = contracted_confirm\<lparr>tr_action := Some AReopen, tr_new_status := SOpen,
     tr_resolved_at := None, tr_closed_at := None, tr_extraction := None\<rparr>"

lemma contracted_applied:
  "\<exists>db' t'. apply_transition (\<lambda>t. t) contracted_db (Inr contracted_locked) contracted_confirm 10000001 = Inr (db', t') \<and>
     map wf_disposition (db_workflows db') = [DFulfilled] \<and> map wf_ticket_id (db_workflows db') = [''t1'']"
proof -
  obtain a where a: "evaluate_delivery (\<lambda>t. t) contracted_input (Aware 10000000) = Inr a" "as_completion_eligible_now a"
    using contracted_eligible by blast
  have i: "contracted_input\<lparr>ei_requested_completion_action := Some CrossConfirm\<rparr> = contracted_input"
    by (simp add: contracted_input_def)
  have "guard_delivery_transition (\<lambda>t. t) (Inr contracted_locked) contracted_confirm =
      Inr (Some \<lparr>dm_disposition = DFulfilled, dm_reopen = False\<rparr>)"
    using a by (simp add: guard_delivery_transition_def contracted_locked_def contracted_confirm_def contracted_ticket_def
        sample_ticket_def sample_data_def new_ticket_def rule_for_def is_self_ticket_def TRANSITIONS_def
        delivery_mutation_for_def completion_action_of_def Let_def i)
  then show ?thesis
    by (simp add: apply_transition_def contracted_db_def contracted_confirm_def contracted_ticket_def sample_ticket_def
        sample_data_def new_ticket_def find_row_def update_rows_def apply_mutation_def mutate_workflow_def
        contracted_workflow_def Let_def)
qed

lemma contracted_reopened:
  "\<exists>db' t'. apply_transition (\<lambda>t. t) contracted_db (Inr contracted_locked) contracted_reopen 10000001 = Inr (db', t')"
proof -
  have "guard_delivery_transition (\<lambda>t. t) (Inr contracted_locked) contracted_reopen =
      Inr (Some \<lparr>dm_disposition = DActive, dm_reopen = True\<rparr>)"
    by (simp add: guard_delivery_transition_def contracted_locked_def contracted_reopen_def contracted_confirm_def
        contracted_ticket_def sample_ticket_def sample_data_def new_ticket_def rule_for_def is_self_ticket_def
        TRANSITIONS_def delivery_mutation_for_def Let_def)
  then show ?thesis
    by (simp add: apply_transition_def contracted_db_def contracted_reopen_def contracted_confirm_def
        contracted_ticket_def sample_ticket_def sample_data_def new_ticket_def find_row_def Let_def)
qed

section \<open>Properties of tickets\<close>

text \<open>
  C9: In every reachable state, whatever calls interleave, a ticket is closed or acknowledged exactly when it has a closing time, it is resolved only with a resolution time, an open, started or refused ticket has none, only notices are acknowledged and notices are never worked on, and a terminal ticket has an extraction status.
\<close>

theorem tickets_lifecycle:
  assumes "reachable ticket_start (ticket_step tz projects) s" and "t \<in> set (db_tickets (ts_db s))"
  shows "lifecycle_ok t"
  using ticket_system.inv_reachable [OF assms(1)] assms(2) by (simp add: ticket_inv_def)

theorem tickets_lifecycle_witness:
  "sample_ticket \<in> set (db_tickets (ts_db sample_sys)) \<and> lifecycle_ok sample_ticket"
proof -
  have m: "sample_ticket \<in> set (db_tickets (ts_db sample_sys))" by (simp add: sample_sys_def sample_db_def)
  from m tickets_lifecycle [OF sample_reachable m] show ?thesis by blast
qed

text \<open>
  C22: A transition that is applied was asked for by the participant the tables reserve it to, is legal from the status and for the kind the row has at the moment of the write, never leaves a terminal status, keeps the ticket's identity and changes no other ticket.
\<close>

theorem applied_transition_authorised:
  assumes "reachable ticket_start (ticket_step tz projects) s"
    and "PendingTransition r \<in> set (ts_pending s)"
    and "apply_transition tz (ts_db s) loaded r pg_now = Inr (db', t')"
  shows "\<exists>t act actor. get_ticket (db_tickets (ts_db s)) (tr_ticket_id r) = Some t \<and>
    tr_action r = Some act \<and> tr_actor r = Some actor \<and> actor \<in> {tk_from_project t, tk_to_project t} \<and>
    rule_for t act = Inr (actor, tk_status t') \<and> tk_status t \<notin> set TERMINAL_STATUSES \<and>
    ticket_identity t' = ticket_identity t \<and> get_ticket (db_tickets db') (tr_ticket_id r) = Some t' \<and>
    (\<forall>i. i \<noteq> tr_ticket_id r \<longrightarrow> get_ticket (db_tickets db') i = get_ticket (db_tickets (ts_db s)) i)"
  using assms(3)
proof (cases rule: apply_transition_Inr)
  case (1 t mutation)
  have inv: "ticket_inv s" by (rule ticket_system.inv_reachable [OF assms(1)])
  have t: "t \<in> set (db_tickets (ts_db s))" "tk_id t = tr_ticket_id r" "tk_status t = tr_expected r"
    using find_row_Some [OF 1(2)] by auto
  obtain act actor where a: "tr_action r = Some act" "tr_actor r = Some actor" "rule_for t act = Inr (actor, tr_new_status r)"
    using do_transition_sound(2) [OF inv assms(2) t] by blast
  have get: "get_ticket (db_tickets (ts_db s)) (tr_ticket_id r) = Some t"
    using tickets.get_row_eqI [OF _ t(1)] inv t(2) by (simp add: ticket_inv_def)
  have "get_ticket (db_tickets db') (tr_ticket_id r) = Some t'"
    unfolding 1(3,4) using get t(3) by (intro tickets.get_row_update_same) (simp_all add: write_ticket_def)
  moreover have "get_ticket (db_tickets db') i = get_ticket (db_tickets (ts_db s)) i" if "i \<noteq> tr_ticket_id r" for i
    unfolding 1(4) using that by (intro tickets.get_row_update_other) (simp_all add: write_ticket_def)
  moreover have "tk_status t' = tr_new_status r" by (simp add: 1(3) write_ticket_def)
  ultimately show ?thesis
    using a get rule_for_cases [OF a(3)] 1(3) ticket_identity_write by auto
qed

theorem applied_transition_authorised_witness:
  "\<exists>db' t' t act actor. apply_transition (\<lambda>t. t) (ts_db sample_sys) sample_loaded sample_request 6 = Inr (db', t') \<and>
     get_ticket (db_tickets (ts_db sample_sys)) ''t1'' = Some t \<and> rule_for t act = Inr (actor, tk_status t')"
proof -
  have p: "PendingTransition sample_request \<in> set (ts_pending sample_sys)" by (simp add: sample_sys_def)
  obtain db' t' where a: "apply_transition (\<lambda>t. t) (ts_db sample_sys) sample_loaded sample_request 6 = Inr (db', t')"
    using sample_applied by (simp add: sample_sys_def)
  from applied_transition_authorised [OF sample_reachable p a] a show ?thesis
    by (simp add: sample_request_def) blast
qed

text \<open>
  Of two transitions decided on the same status of a ticket, at most one is applied: after the first write the second is refused.
\<close>

lemma no_lost_transition:
  assumes "distinct (map tk_id (db_tickets db))"
    and "apply_transition tz db loaded r pg_now = Inr (db', t')"
    and "tr_new_status r \<noteq> tr_expected r"
    and "tr_ticket_id r' = tr_ticket_id r" "tr_expected r' = tr_expected r"
  shows "\<not> is_ok (apply_transition tz db' loaded' r' pg_now')"
  using assms(2)
proof (cases rule: apply_transition_Inr)
  case (1 t mutation)
  have t: "tk_id t = tr_ticket_id r" using find_row_Some [OF 1(2)] by simp
  have "find_row (\<lambda>t. tk_id t = tr_ticket_id r' \<and> tk_status t = tr_expected r') (db_tickets db') = None"
    unfolding 1(4) assms(4,5) using assms(1,3) 1(2) t
    by (intro find_row_update_status) (simp_all add: write_ticket_def)
  then show ?thesis
    by (cases "guard_delivery_transition tz loaded' r'") (simp_all add: apply_transition_def)
qed

lemma no_lost_transition_sample:
  "\<exists>db' t'. apply_transition (\<lambda>t. t) sample_db sample_loaded sample_request 6 = Inr (db', t') \<and>
     \<not> is_ok (apply_transition (\<lambda>t. t) db' sample_loaded (sample_request\<lparr>tr_new_status := SWontfix\<rparr>) 7)"
proof -
  obtain db' t' where a: "apply_transition (\<lambda>t. t) sample_db sample_loaded sample_request 6 = Inr (db', t')"
    using sample_applied by simp
  have "\<not> is_ok (apply_transition (\<lambda>t. t) db' sample_loaded (sample_request\<lparr>tr_new_status := SWontfix\<rparr>) 7)"
    using _ a by (rule no_lost_transition) (simp_all add: sample_db_def sample_request_def)
  with a show ?thesis by blast
qed

text \<open>A workflow becomes fulfilled only by a closing resolution or confirmation whose completion the
  evaluator reports as eligible.\<close>

lemma fulfilled_transition:
  assumes "apply_transition tz db (Inr locked) r pg_now = Inr (db', t')"
    and "ld_inputs locked = Some inputs"
    and "w \<in> set (db_workflows db')" "wf_ticket_id w = tr_ticket_id r" "wf_disposition w = DFulfilled"
  shows "tr_new_status r = SClosed \<and> tk_status (ld_ticket locked) = tr_expected r \<and>
    (\<exists>act actor a. tr_action r = Some act \<and> act \<in> {AResolve, AResolvePending, AConfirm} \<and>
       rule_for (ld_ticket locked) act = Inr (actor, SClosed) \<and>
       evaluate_delivery tz (inputs\<lparr>ei_requested_completion_action :=
           completion_action_of (is_self_ticket (ld_ticket locked)) act\<rparr>)
         (Aware (ld_decision_time locked)) = Inr a \<and> as_completion_eligible_now a)"
  using assms(1)
proof (cases rule: apply_transition_Inr)
  case (1 t mutation)
  from 1(1) assms(2) obtain m act actor where
    m: "mutation = Some m" "tr_action r = Some act" "tk_status (ld_ticket locked) = tr_expected r"
       "rule_for (ld_ticket locked) act = Inr (actor, tr_new_status r)" "delivery_mutation_for tz locked inputs act (tr_new_status r) = Inr m"
    by (auto simp: guard_delivery_transition_def Let_def result_simps
        split: option.splits if_splits sum.splits)
  from 1(6) m(1) assms(3-5) have "dm_disposition m = DFulfilled"
    by (auto simp: set_update_rows mutate_workflow_def Let_def split: if_splits)
  with m show ?thesis
    by (auto simp: delivery_mutation_for_def Let_def split: if_splits sum.splits)
qed

text \<open>
  Reopening a contracted ticket starts a new attempt: the attempt, the claim epoch and the row version advance by one, the claim is revoked, the collected context evidence is dropped and no binding of the ticket stays active.
\<close>

lemma reopen_starts_a_new_attempt:
  assumes "apply_transition tz db (Inr locked) r pg_now = Inr (db', t')"
    and "ld_inputs locked = Some inputs" and "tr_action r = Some AReopen"
    and "get_workflow (db_workflows db) (tr_ticket_id r) = Some w"
  shows "\<exists>w'. get_workflow (db_workflows db') (tr_ticket_id r) = Some w' \<and>
    wf_disposition w' = DActive \<and> wf_attempt w' = wf_attempt w + 1 \<and>
    wf_claim_epoch w' = wf_claim_epoch w + 1 \<and> wf_row_version w' = wf_row_version w + 1 \<and>
    wf_claim_owner w' = None \<and> wf_claim_digest w' = None \<and> wf_claim_expires_at w' = None \<and>
    wf_context_success_confirmation w' = None \<and>
    (\<forall>b \<in> set (db_bindings db'). ab_ticket_id (bw_binding b) = tr_ticket_id r \<longrightarrow> \<not> bw_active b)"
  using assms(1)
proof (cases rule: apply_transition_Inr)
  case (1 t mutation)
  from 1(1) assms(2,3) have m: "mutation = Some \<lparr>dm_disposition = DActive, dm_reopen = True\<rparr>"
    by (auto simp: guard_delivery_transition_def delivery_mutation_for_def Let_def result_simps
        split: option.splits if_splits sum.splits)
  let ?m = "\<lparr>dm_disposition = DActive, dm_reopen = True\<rparr>"
  have "get_workflow (db_workflows db') (tr_ticket_id r) = Some (mutate_workflow ?m pg_now w)"
    using workflows.get_row_update_same [of "mutate_workflow ?m pg_now" "db_workflows db" "tr_ticket_id r" w "\<lambda>_. True"]
      assms(4) 1(6) m by (simp add: mutate_workflow_def Let_def)
  moreover have "\<forall>b \<in> set (db_bindings db'). ab_ticket_id (bw_binding b) = tr_ticket_id r \<longrightarrow> \<not> bw_active b"
    using 1(6) m by (auto simp: set_update_rows)
  ultimately show ?thesis by (simp add: mutate_workflow_def Let_def)
qed

lemma reopen_starts_a_new_attempt_sample:
  "\<exists>db' t' w'. apply_transition (\<lambda>t. t) contracted_db (Inr contracted_locked) contracted_reopen 10000001 = Inr (db', t') \<and>
     get_workflow (db_workflows db') ''t1'' = Some w' \<and> wf_attempt w' = 2 \<and> wf_claim_epoch w' = 5"
proof -
  obtain db' t' where r: "apply_transition (\<lambda>t. t) contracted_db (Inr contracted_locked) contracted_reopen 10000001 = Inr (db', t')"
    using contracted_reopened by blast
  have "ld_inputs contracted_locked = Some contracted_input" "tr_action contracted_reopen = Some AReopen"
    "get_workflow (db_workflows contracted_db) (tr_ticket_id contracted_reopen) = Some contracted_workflow"
    by (simp_all add: contracted_locked_def contracted_reopen_def contracted_confirm_def contracted_db_def contracted_workflow_def
        get_workflow_def find_row_def)
  from reopen_starts_a_new_attempt [OF r this] r show ?thesis
    by (auto simp: contracted_workflow_def contracted_reopen_def contracted_confirm_def)
qed

text \<open>
  From every non-terminal status a well-formed ticket can reach a terminal one: its requester can cancel it.
\<close>

lemma no_ticket_is_stuck:
  assumes "lifecycle_ok t" and "tk_status t \<notin> set TERMINAL_STATUSES"
  shows "\<exists>r. transition_of t (tk_from_project t) ACancel m now = Inr r \<and> tr_new_status r = SClosed"
  using assms
  by (cases "tk_status t"; cases "tk_kind t"; cases "is_self_ticket t")
    (simp_all add: transition_of_def rule_for_def lifecycle_ok_def TERMINAL_STATUSES_def TRANSITIONS_def
      SELF_TRANSITIONS_def Let_def)

lemma no_ticket_is_stuck_sample:
  "\<exists>r. transition_of sample_ticket ''acme'' ACancel None 9 = Inr r \<and> tr_new_status r = SClosed"
  using no_ticket_is_stuck [of sample_ticket None 9]
  by (simp add: sample_ticket_def sample_data_def new_ticket_def lifecycle_ok_def TERMINAL_STATUSES_def)

text \<open>
  The grouped view shows every live ticket of a project exactly once: its four groups together are a rearrangement of the project's open, started, resolved and refused tickets, the result does not depend on the order the rows are read in, and a group asks its reader for what that reader can do.
\<close>

lemma list_grouped_partition:
  assumes "mset rows = mset rows'" and "inj_on view_order (set rows)"
  shows "let g = list_grouped rows project release in
    mset (tg_a_traiter g @ tg_a_confirmer g @ tg_en_attente g @ tg_awaiting_requester_confirmation g)
      = mset (filter (concerns project release) rows) \<and>
    list_grouped rows' project release = g \<and>
    (\<forall>t \<in> set (tg_a_traiter g). tk_to_project t = project \<and> tk_status t \<in> {SOpen, SInProgress}) \<and>
    (\<forall>t \<in> set (tg_a_confirmer g). tk_from_project t = project \<and> tk_status t \<in> {SResolved, SWontfix})"
proof -
  have perm: "group_query rows' col project statuses release extra = group_query rows col project statuses release extra"
    for col statuses extra
    unfolding group_query_def
    by (rule sort_key_perm_eq [symmetric]) (use assms in \<open>auto simp: inj_on_def mset_filter\<close>)
  have "mset (filter (concerns project release) rows) =
    mset (filter (\<lambda>t. tk_to_project t = project \<and> tk_status t \<in> set ACTIONABLE \<and>
       (release = None \<or> tk_target_release t = release) \<and> True) rows) +
    mset (filter (\<lambda>t. tk_from_project t = project \<and> tk_status t \<in> set CONFIRMABLE \<and>
       (release = None \<or> tk_target_release t = release) \<and> True) rows) +
    mset (filter (\<lambda>t. tk_from_project t = project \<and> tk_status t \<in> set ACTIONABLE \<and>
       (release = None \<or> tk_target_release t = release) \<and> tk_from_project t \<noteq> tk_to_project t) rows) +
    mset (filter (\<lambda>t. tk_to_project t = project \<and> tk_status t \<in> set CONFIRMABLE \<and>
       (release = None \<or> tk_target_release t = release) \<and> tk_from_project t \<noteq> tk_to_project t) rows)"
  proof (rule mset_filter_split, goal_cases)
    case (1 t)
    then show ?case
      by (cases "tk_status t") (auto simp: concerns_def ACTIONABLE_def CONFIRMABLE_def of_bool_def)
  qed
  then have "mset (filter (concerns project release) rows) =
      mset (tg_a_traiter (list_grouped rows project release) @ tg_a_confirmer (list_grouped rows project release) @
        tg_en_attente (list_grouped rows project release) @
        tg_awaiting_requester_confirmation (list_grouped rows project release))"
    by (simp add: list_grouped_def group_query_def add.assoc)
  moreover have "list_grouped rows' project release = list_grouped rows project release"
    by (simp add: list_grouped_def perm)
  moreover have "\<forall>t \<in> set (tg_a_traiter (list_grouped rows project release)).
      tk_to_project t = project \<and> tk_status t \<in> {SOpen, SInProgress}"
    "\<forall>t \<in> set (tg_a_confirmer (list_grouped rows project release)).
      tk_from_project t = project \<and> tk_status t \<in> {SResolved, SWontfix}"
    by (auto simp: list_grouped_def set_group_query ACTIONABLE_def CONFIRMABLE_def)
  ultimately show ?thesis by (simp only: Let_def simp_thms)
qed

lemma list_grouped_partition_sample:
  "mset (let g = list_grouped [sample_ticket] ''acme'' None in
      tg_a_traiter g @ tg_a_confirmer g @ tg_en_attente g @ tg_awaiting_requester_confirmation g)
     = mset [sample_ticket]"
  using list_grouped_partition [of "[sample_ticket]" "[sample_ticket]" "''acme''" None]
  by (simp add: Let_def concerns_def sample_ticket_def sample_data_def new_ticket_def)

text \<open>
  The sidecar's counters of a project are the sizes of the groups of the grouped view.
\<close>

lemma sidecar_counts_agree:
  assumes "c \<in> set (count_grouped_by_project rows)"
  shows "let g = list_grouped rows (pc_project c) None in
    pc_todo c = length (tg_a_traiter g) \<and> pc_to_confirm c = length (tg_a_confirmer g) \<and>
    pc_waiting c = length (tg_en_attente g)"
proof -
  from assms obtain project cs where c: "(project, cs) \<in> set (group_by fst (counted_rows rows))"
    "c = \<lparr>pc_project = project,
           pc_todo = length (filter (\<lambda>pc. snd pc = CatTodo) cs),
           pc_to_confirm = length (filter (\<lambda>pc. snd pc = CatToConfirm) cs),
           pc_waiting = length (filter (\<lambda>pc. snd pc = CatWaiting) cs)\<rparr>"
    by (auto simp: count_grouped_by_project_def)
  from group_by_items [OF c(1)] c(2) show ?thesis using count_rows_todo [of project rows] by (simp add: Let_def)
qed

lemma sidecar_counts_agree_sample:
  "\<exists>c. c \<in> set (count_grouped_by_project [sample_ticket]) \<and> pc_project c = ''brain-v42'' \<and>
     pc_todo c = length (tg_a_traiter (list_grouped [sample_ticket] ''brain-v42'' None))"
proof -
  let ?c = "\<lparr>pc_project = ''brain-v42'', pc_todo = 1, pc_to_confirm = 0, pc_waiting = 0\<rparr>"
  have c: "?c \<in> set (count_grouped_by_project [sample_ticket])"
    by (simp add: count_grouped_by_project_def counted_rows_def group_by_def dict_append_def ACTIONABLE_def
        CONFIRMABLE_def sample_ticket_def sample_data_def new_ticket_def)
  with sidecar_counts_agree [OF c] show ?thesis by (intro exI [of _ ?c]) (simp add: Let_def)
qed

text \<open>
  The current release is the numerically lowest planned release with open tickets, the next one is another such release that is not lower, and it is absent exactly when only one lot is pending.
\<close>

lemma current_and_next_lowest:
  assumes "current_and_next lots = (Some cur, nxt)"
  shows "cur \<in> set lots \<and> rl_open cur \<noteq> 0 \<and>
    (\<forall>l \<in> set lots. rl_open l \<noteq> 0 \<longrightarrow> release_key (rl_target_release cur) \<le> release_key (rl_target_release l)) \<and>
    (\<forall>n. nxt = Some n \<longrightarrow> n \<in> set lots \<and> rl_open n \<noteq> 0 \<and>
       release_key (rl_target_release cur) \<le> release_key (rl_target_release n)) \<and>
    (nxt = None \<longleftrightarrow> length (filter (\<lambda>l. rl_open l \<noteq> 0) lots) = 1)"
proof -
  let ?key = "\<lambda>l. release_key (rl_target_release l)"
  define p where "p = sort_key ?key (filter (\<lambda>l. rl_open l \<noteq> 0) lots)"
  have set_p: "set p = {l \<in> set lots. rl_open l \<noteq> 0}" and sorted: "sorted (map ?key p)"
    and len: "length p = length (filter (\<lambda>l. rl_open l \<noteq> 0) lots)" by (simp_all add: p_def)
  have ne: "p \<noteq> []" and cur: "cur = p ! 0" and nxt: "nxt = (if 1 < length p then Some (p ! 1) else None)"
    using assms unfolding current_and_next_def Let_def p_def [symmetric] by (auto split: if_splits)
  have low: "?key cur \<le> ?key (p ! k)" if "k < length p" for k
    using sorted_nth_mono [OF sorted, of 0 k] that ne by (simp add: cur)
  have "\<forall>l \<in> set p. ?key cur \<le> ?key l" by (metis in_set_conv_nth low)
  moreover have "cur \<in> set p" using ne by (simp add: cur)
  moreover have "n \<in> set p" if "nxt = Some n" for n using that nxt by (auto split: if_splits)
  moreover have "nxt = None \<longleftrightarrow> length p = 1" using nxt ne by (cases p; cases "tl p") auto
  ultimately show ?thesis unfolding len [symmetric] set_p by blast
qed

text \<open>
  A body correction is recorded with its reason and the replaced body in the same write that changes the body, only by a participant, never without a reason and never for an identical body.
\<close>

lemma correction_archives_the_body:
  assumes "service_reply db i author reason (Some c) pg_now = Inr (db', m)"
    and "get_ticket (db_tickets db) i = Some t"
  shows "tm_body m = reason @ newline @ newline @ BODY_CORRECTION_MARKER @ newline @ tk_body t \<and>
    db_messages db' = db_messages db @ [m] \<and> strip reason \<noteq> [] \<and> c \<noteq> tk_body t \<and>
    get_ticket (db_tickets db') i = Some (t\<lparr>tk_updated_at := pg_now, tk_body := c\<rparr>) \<and>
    tm_author_project m \<in> {tk_from_project t, tk_to_project t}"
proof -
  from assms obtain a where a: "canonicalize_project_key True author = Some a"
    "reply_request t a reason (Some c) = Inr (correction_text reason (tk_body t), Some c)"
    "a \<in> {tk_from_project t, tk_to_project t}" "strip reason \<noteq> []" "c \<noteq> tk_body t"
    by (auto simp: service_reply_def reply_request_def result_simps split: option.splits if_splits)
  with assms have e: "(db', m) = add_message db i a (correction_text reason (tk_body t)) None (Some c) pg_now"
    by (simp add: service_reply_def)
  have "get_ticket (db_tickets db') i = Some (t\<lparr>tk_updated_at := pg_now, tk_body := c\<rparr>)"
    using tickets.get_row_update_same [of "\<lambda>t. t\<lparr>tk_updated_at := pg_now, tk_body := c\<rparr>" "db_tickets db" i t "\<lambda>_. True"]
      assms(2) e by (simp add: add_message_def Let_def)
  with e a show ?thesis by (simp add: add_message_def Let_def correction_text_def)
qed

lemma correction_archives_the_body_sample:
  "\<exists>db' m. service_reply sample_db ''t1'' ''brain-v42'' ''typo'' (Some ''new'') 8 = Inr (db', m) \<and>
     tm_body m = ''typo'' @ newline @ newline @ BODY_CORRECTION_MARKER @ newline @ ''old''"
proof -
  have g: "get_ticket (db_tickets sample_db) ''t1'' = Some sample_ticket"
    by (simp add: get_ticket_def find_row_def sample_db_def sample_ticket_def new_ticket_def)
  have b: "tk_body sample_ticket = ''old''" "tk_to_project sample_ticket = ''brain-v42''"
    by (simp_all add: sample_ticket_def new_ticket_def sample_data_def)
  obtain db' m where r: "service_reply sample_db ''t1'' ''brain-v42'' ''typo'' (Some ''new'') 8 = Inr (db', m)"
    by (cases "service_reply sample_db ''t1'' ''brain-v42'' ''typo'' (Some ''new'') 8")
      (auto simp: service_reply_def sample_canonical g reply_request_def b strip_def lstrip_def rstrip_def is_space_def)
  from correction_archives_the_body [OF r g] r b show ?thesis by auto
qed

text \<open>
  A release plan is written with its thread message only where the ticket still has the plan that was read; a second plan decided on the same reading is then refused.
\<close>

lemma plan_compare_and_swap:
  assumes "set_target_release db p pg_now = Inr (db', m)" and "distinct (map tk_id (db_tickets db))"
    and "pr_new p \<noteq> pr_expected p"
    and "pr_ticket_id p' = pr_ticket_id p" and "pr_expected p' = pr_expected p"
  shows "db_messages db' = db_messages db @ [m] \<and>
    (\<exists>t. get_ticket (db_tickets db) (pr_ticket_id p) = Some t \<and> tk_target_release t = pr_expected p \<and>
       get_ticket (db_tickets db') (pr_ticket_id p) = Some (t\<lparr>tk_target_release := pr_new p, tk_updated_at := pg_now\<rparr>)) \<and>
    set_target_release db' p' pg_now' = Inl PlanConflict"
proof -
  let ?hit = "\<lambda>t. tk_id t = pr_ticket_id p \<and> tk_target_release t = pr_expected p"
  let ?f = "\<lambda>t. t\<lparr>tk_target_release := pr_new p, tk_updated_at := pg_now\<rparr>"
  from assms(1) have db': "db_tickets db' = update_rows ?hit ?f (db_tickets db)"
      "db_messages db' = db_messages db @ [m]" and "list_ex ?hit (db_tickets db)"
    by (auto simp: set_target_release_def Let_def split: if_splits)
  then obtain t where t: "t \<in> set (db_tickets db)" "?hit t" by (auto simp: list_ex_iff)
  have get: "get_ticket (db_tickets db) (pr_ticket_id p) = Some t"
    using tickets.get_row_eqI [OF assms(2) t(1)] t(2) by simp
  have "get_ticket (db_tickets db') (pr_ticket_id p) = Some (?f t)"
    unfolding db'(1) using get t(2) by (intro tickets.get_row_update_same) simp_all
  moreover have "\<not> ?hit t'" if "t' \<in> set (db_tickets db')" for t'
  proof -
    have "tk_target_release t = pr_expected p" if "t \<in> set (db_tickets db)" "tk_id t = pr_ticket_id p" for t
      using that t assms(2) by (metis (no_types) distinct_map inj_onD)
    with that assms(3) show ?thesis unfolding db'(1) by (auto simp: set_update_rows)
  qed
  ultimately show ?thesis
    using db' get t(2) assms(4,5) by (auto simp: set_target_release_def Let_def list_ex_iff)
qed

lemma plan_compare_and_swap_sample:
  "let p = \<lparr>pr_ticket_id = ''t1'', pr_author = ''brain-v42'', pr_expected = None, pr_new = Some ''1.0.0'',
            pr_message = ''planned for 1.0.0''\<rparr>
   in \<exists>db' m. set_target_release sample_db p 8 = Inr (db', m) \<and>
        set_target_release db' (p\<lparr>pr_new := Some ''2.0.0''\<rparr>) 9 = Inl PlanConflict"
proof -
  let ?p = "\<lparr>pr_ticket_id = ''t1'', pr_author = ''brain-v42'', pr_expected = None, pr_new = Some ''1.0.0'',
    pr_message = ''planned for 1.0.0''\<rparr>"
  obtain db' m where r: "set_target_release sample_db ?p 8 = Inr (db', m)"
    by (cases "set_target_release sample_db ?p 8")
      (auto simp: set_target_release_def sample_db_def sample_ticket_def sample_data_def new_ticket_def Let_def)
  have "distinct (map tk_id (db_tickets sample_db))" by (simp add: sample_db_def)
  from plan_compare_and_swap [OF r this, of "?p\<lparr>pr_new := Some ''2.0.0''\<rparr>" 9] r show ?thesis
    by (auto simp: Let_def)
qed

text \<open>
  C40: A body correction has no compare-and-swap: two corrections decided on the same reading both archive the
  body they read, so the body the first one wrote is overwritten without being archived.
\<close>

theorem concurrent_corrections_lose_a_body:
  assumes "reply_request t a1 why1 (Some c1) = Inr (m1, Some c1)"
    and "reply_request t a2 why2 (Some c2) = Inr (m2, Some c2)"
    and "get_ticket (db_tickets db) i = Some t"
  shows "let db1 = fst (add_message db i a1 m1 None (Some c1) n1);
             db2 = fst (add_message db1 i a2 m2 None (Some c2) n2)
         in map_option tk_body (get_ticket (db_tickets db2) i) = Some c2 \<and>
            map tm_body (db_messages db2) = map tm_body (db_messages db) @
              [correction_text why1 (tk_body t), correction_text why2 (tk_body t)]"
proof -
  have m: "m1 = correction_text why1 (tk_body t)" "m2 = correction_text why2 (tk_body t)"
    using assms(1,2) by (auto simp: reply_request_def split: if_splits)
  let ?f = "\<lambda>c n t. t\<lparr>tk_updated_at := n, tk_body := c\<rparr>"
  have "get_ticket (update_rows (\<lambda>t. tk_id t = i) (?f c1 n1) (db_tickets db)) i = Some (?f c1 n1 t)"
    using tickets.get_row_update_same [of "?f c1 n1" "db_tickets db" i t "\<lambda>_. True"] assms(3) by simp
  then have "get_ticket (update_rows (\<lambda>t. tk_id t = i) (?f c2 n2)
      (update_rows (\<lambda>t. tk_id t = i) (?f c1 n1) (db_tickets db))) i = Some (?f c2 n2 (?f c1 n1 t))"
    using tickets.get_row_update_same [of "?f c2 n2" _ i _ "\<lambda>_. True"] by simp
  then show ?thesis by (simp add: add_message_def Let_def m)
qed

theorem concurrent_corrections_lose_a_body_witness:
  "\<exists>m1 m2. reply_request sample_ticket ''acme'' ''a'' (Some ''first'') = Inr (m1, Some ''first'') \<and>
     reply_request sample_ticket ''brain-v42'' ''b'' (Some ''second'') = Inr (m2, Some ''second'') \<and>
     map tm_body (db_messages (fst (add_message (fst (add_message sample_db ''t1'' ''acme'' m1 None (Some ''first'') 8))
       ''t1'' ''brain-v42'' m2 None (Some ''second'') 9))) = [correction_text ''a'' ''old'', correction_text ''b'' ''old'']"
proof -
  have g: "get_ticket (db_tickets sample_db) ''t1'' = Some sample_ticket"
    by (simp add: get_ticket_def find_row_def sample_db_def sample_ticket_def new_ticket_def)
  have r: "reply_request sample_ticket ''acme'' ''a'' (Some ''first'') = Inr (correction_text ''a'' ''old'', Some ''first'')"
    "reply_request sample_ticket ''brain-v42'' ''b'' (Some ''second'') = Inr (correction_text ''b'' ''old'', Some ''second'')"
    by (simp_all add: reply_request_def sample_ticket_def new_ticket_def sample_data_def strip_def lstrip_def rstrip_def
        is_space_def)
  from concurrent_corrections_lose_a_body [OF r g, of 8 9] r show ?thesis
    by (auto simp: Let_def sample_db_def sample_ticket_def new_ticket_def sample_data_def)
qed

end
