(* ===== verification/Delivery_Claims.thy ===== *)
theory Delivery_Claims
  imports Ticket_Lifecycle
begin

text \<open>
  Fenced claims on delivery work, \<open>src/brain_v42/repositories/pg_delivery_claims.py\<close>: \<open>acquire\<close>,
  \<open>renew\<close>, \<open>release\<close> and the checks they share. \<open>loaded\<close> is what the decision loader returned under its
  locks, \<open>token\<close> the secret drawn for a new claim; the store keeps its digest only.

  The steps of the claim system are the three operations and the workflow mutation of a ticket
  transition. Epochs never decrease along it (an instance of \<open>invariant_system\<close>), which is what
  makes an old claim stay refused.
\<close>

section \<open>Validation\<close>

datatype claim_error =
    DeliveryDisabled | InvalidClaimTtl | InvalidClaimOwner | InvalidClaimToken | InvalidClaimEpoch
  | InvalidClaimWork | ContractNotFound | ClaimStale | ClaimNotAllowed | ClaimNotEligible
  | ClaimUnavailable | ClaimFenced | ClaimLoad string | ClaimEvaluation eval_error

definition MIN_TTL_SECONDS :: int where
  "MIN_TTL_SECONDS = 60"

definition MAX_TTL_SECONDS :: int where
  "MAX_TTL_SECONDS = 3600"

definition token_digest :: "string \<Rightarrow> string" where
  "token_digest token = sha256_hex (utf8 (codes token))"

definition validate_ttl :: "int \<Rightarrow> (claim_error, unit) result" where
  "validate_ttl ttl = ensure (MIN_TTL_SECONDS \<le> ttl \<and> ttl \<le> MAX_TTL_SECONDS) InvalidClaimTtl"

definition validate_owner :: "string \<Rightarrow> (claim_error, unit) result" where
  "validate_owner owner = ensure (strip owner \<noteq> [] \<and> length owner \<le> 200) InvalidClaimOwner"

definition validate_claim_credentials :: "string \<Rightarrow> string \<Rightarrow> int \<Rightarrow> (claim_error, unit) result" where
  "validate_claim_credentials owner token epoch =
     res_bind (validate_owner owner) (\<lambda>_.
     res_bind (ensure (token \<noteq> [] \<and> length token \<le> 1000) InvalidClaimToken) (\<lambda>_.
     ensure (0 \<le> epoch) InvalidClaimEpoch))"

definition work_kind_of_text :: "string \<Rightarrow> work_kind option" where
  "work_kind_of_text s =
     List.find (\<lambda>k. work_kind_text k = s) [WImplement, WRepair, WReview, WIntegrate, WAccept]"

definition actor_for_work :: "ticket \<Rightarrow> work_kind \<Rightarrow> string" where
  "actor_for_work t k = (if k = WAccept then tk_from_project t else tk_to_project t)"

section \<open>Operations\<close>

record claim_result =
  cl_ticket_id :: uuid
  cl_assessment_id :: string
  cl_work :: eligible_work
  cl_epoch :: int
  cl_expires_at :: instant
  cl_token :: string

record claim_credentials =
  cc_actor :: string
  cc_owner :: string
  cc_token :: string
  cc_epoch :: int

definition claim_row :: "string \<Rightarrow> work_kind \<Rightarrow> string \<Rightarrow> instant \<Rightarrow> instant \<Rightarrow> workflow_row \<Rightarrow> workflow_row" where
  "claim_row owner k digest expires pg_now w =
     w\<lparr>wf_claim_owner := Some owner, wf_claim_kind := Some k, wf_claim_digest := Some digest,
       wf_claim_expires_at := Some expires, wf_claim_epoch := wf_claim_epoch w + 1, wf_updated_at := pg_now\<rparr>"

definition acquire ::
    "(int \<Rightarrow> instant) \<Rightarrow> bool \<Rightarrow> workflow_row list \<Rightarrow> (string, locked_decision) result \<Rightarrow> uuid
     \<Rightarrow> string \<Rightarrow> string \<Rightarrow> string \<Rightarrow> int \<Rightarrow> string \<Rightarrow> int \<Rightarrow> string \<Rightarrow> instant
     \<Rightarrow> (claim_error, workflow_row list \<times> claim_result) result" where
  "acquire local_utc enabled rows loaded i actor owner kind_text expected_version expected_assessment ttl token pg_now =
     res_bind (ensure enabled DeliveryDisabled) (\<lambda>_.
     res_bind (validate_ttl ttl) (\<lambda>_.
     res_bind (validate_owner owner) (\<lambda>_.
     case loaded of
       Inl code \<Rightarrow> Inl (ClaimLoad code)
     | Inr locked \<Rightarrow>
         (case ld_inputs locked of
            None \<Rightarrow> Inl ContractNotFound
          | Some inputs \<Rightarrow>
              (case evaluate_delivery local_utc inputs (Aware (ld_decision_time locked)) of
                 Inl e \<Rightarrow> Inl (ClaimEvaluation e)
               | Inr a \<Rightarrow>
                   res_bind (ensure (expected_version = ei_workflow_version inputs \<and>
                       expected_assessment = as_assessment_id a) ClaimStale) (\<lambda>_.
                   case work_kind_of_text kind_text of
                     None \<Rightarrow> Inl InvalidClaimWork
                   | Some k \<Rightarrow>
                       res_bind (ensure (actor = actor_for_work (ld_ticket locked) k) ClaimNotAllowed) (\<lambda>_.
                       case List.find (\<lambda>w. ew_kind w = k) (as_eligible_work a) of
                         None \<Rightarrow> Inl ClaimNotEligible
                       | Some work \<Rightarrow>
                           (case get_workflow rows i of
                              None \<Rightarrow> Inl ContractNotFound
                            | Some row \<Rightarrow>
                                res_bind (ensure (case wf_claim_expires_at row of None \<Rightarrow> True
                                    | Some e \<Rightarrow> e \<le> ld_decision_time locked) ClaimUnavailable) (\<lambda>_.
                                let expires = ld_decision_time locked + ttl * 1000000 in
                                Inr (update_rows (\<lambda>w. wf_ticket_id w = i)
                                       (claim_row owner k (token_digest token) expires pg_now) rows,
                                     \<lparr>cl_ticket_id = i, cl_assessment_id = as_assessment_id a,
                                      cl_work = \<lparr>ew_kind = k, ew_role = ew_role work\<rparr>,
                                      cl_epoch = wf_claim_epoch row + 1, cl_expires_at = expires,
                                      cl_token = token\<rparr>))))))))))"

definition live_claim :: "workflow_row \<Rightarrow> ticket \<Rightarrow> instant \<Rightarrow> claim_credentials \<Rightarrow> bool" where
  "live_claim w t decision_time c =
     (wf_claim_owner w = Some (cc_owner c) \<and> wf_claim_epoch w = cc_epoch c \<and>
      (case (wf_claim_kind w, wf_claim_digest w, wf_claim_expires_at w) of
         (Some k, Some digest, Some expires) \<Rightarrow>
           decision_time < expires \<and> cc_actor c = actor_for_work t k \<and> digest = token_digest (cc_token c)
       | _ \<Rightarrow> False))"

definition locked_claim ::
    "workflow_row list \<Rightarrow> (string, locked_decision) result \<Rightarrow> uuid
     \<Rightarrow> (claim_error, workflow_row \<times> locked_decision) result" where
  "locked_claim rows loaded i =
     (case loaded of
        Inl code \<Rightarrow> Inl (ClaimLoad code)
      | Inr locked \<Rightarrow>
          (case get_workflow rows i of None \<Rightarrow> Inl ContractNotFound | Some w \<Rightarrow> Inr (w, locked)))"

definition renew ::
    "workflow_row list \<Rightarrow> (string, locked_decision) result \<Rightarrow> uuid \<Rightarrow> claim_credentials \<Rightarrow> int \<Rightarrow> instant
     \<Rightarrow> (claim_error, workflow_row list \<times> claim_state) result" where
  "renew rows loaded i c ttl pg_now =
     res_bind (validate_ttl ttl) (\<lambda>_.
     res_bind (validate_claim_credentials (cc_owner c) (cc_token c) (cc_epoch c)) (\<lambda>_.
     res_bind (locked_claim rows loaded i) (\<lambda>(w, locked).
     res_bind (ensure (live_claim w (ld_ticket locked) (ld_decision_time locked) c) ClaimFenced) (\<lambda>_.
     let expires = ld_decision_time locked + ttl * 1000000 in
     Inr (update_rows (\<lambda>w. wf_ticket_id w = i)
            (\<lambda>w. w\<lparr>wf_claim_expires_at := Some expires, wf_updated_at := pg_now\<rparr>) rows,
          \<lparr>cs_epoch = cc_epoch c, cs_owner = Some (cc_owner c), cs_expires_at = Some (Aware expires)\<rparr>)))))"

definition cleared_claim :: "instant \<Rightarrow> workflow_row \<Rightarrow> workflow_row" where
  "cleared_claim pg_now w =
     w\<lparr>wf_claim_owner := None, wf_claim_kind := None, wf_claim_digest := None, wf_claim_expires_at := None,
       wf_updated_at := pg_now\<rparr>"

definition release ::
    "workflow_row list \<Rightarrow> (string, locked_decision) result \<Rightarrow> uuid \<Rightarrow> claim_credentials \<Rightarrow> instant
     \<Rightarrow> (claim_error, workflow_row list \<times> claim_state) result" where
  "release rows loaded i c pg_now =
     res_bind (validate_claim_credentials (cc_owner c) (cc_token c) (cc_epoch c)) (\<lambda>_.
     res_bind (locked_claim rows loaded i) (\<lambda>(w, locked).
     res_bind (ensure (live_claim w (ld_ticket locked) (ld_decision_time locked) c) ClaimFenced) (\<lambda>_.
     Inr (update_rows (\<lambda>w. wf_ticket_id w = i) (cleared_claim pg_now) rows,
          \<lparr>cs_epoch = cc_epoch c, cs_owner = None, cs_expires_at = None\<rparr>))))"

section \<open>The claim system\<close>

inductive claim_step :: "(int \<Rightarrow> instant) \<Rightarrow> workflow_row list \<Rightarrow> workflow_row list \<Rightarrow> bool" for tz where
  acquired: "acquire tz enabled rows loaded i actor owner kind version assessment ttl token pg_now = Inr (rows', c) \<Longrightarrow>
    claim_step tz rows rows'"
| renewed: "renew rows loaded i cred ttl pg_now = Inr (rows', st) \<Longrightarrow> claim_step tz rows rows'"
| released: "release rows loaded i cred pg_now = Inr (rows', st) \<Longrightarrow> claim_step tz rows rows'"
| mutated: "claim_step tz rows (update_rows (\<lambda>w. wf_ticket_id w = i) (mutate_workflow m pg_now) rows)"

lemma acquire_Inr:
  assumes "acquire tz enabled rows loaded i actor owner kind version assessment ttl token pg_now = Inr (rows', c)"
  obtains locked inputs a k work row where
    "enabled" "loaded = Inr locked" "ld_inputs locked = Some inputs"
    "evaluate_delivery tz inputs (Aware (ld_decision_time locked)) = Inr a"
    "version = ei_workflow_version inputs" "assessment = as_assessment_id a"
    "actor = actor_for_work (ld_ticket locked) k"
    "work \<in> set (as_eligible_work a)" "ew_kind work = k"
    "get_workflow rows i = Some row"
    "\<forall>e. wf_claim_expires_at row = Some e \<longrightarrow> e \<le> ld_decision_time locked"
    "MIN_TTL_SECONDS \<le> ttl" "ttl \<le> MAX_TTL_SECONDS"
    "rows' = update_rows (\<lambda>w. wf_ticket_id w = i)
       (claim_row owner k (token_digest token) (ld_decision_time locked + ttl * 1000000) pg_now) rows"
    "c = \<lparr>cl_ticket_id = i, cl_assessment_id = as_assessment_id a, cl_work = work,
          cl_epoch = wf_claim_epoch row + 1, cl_expires_at = ld_decision_time locked + ttl * 1000000, cl_token = token\<rparr>"
proof -
  from assms obtain locked inputs a k work row where
    *: "enabled" "loaded = Inr locked" "ld_inputs locked = Some inputs"
    "evaluate_delivery tz inputs (Aware (ld_decision_time locked)) = Inr a"
    "work_kind_of_text kind = Some k" "List.find (\<lambda>w. ew_kind w = k) (as_eligible_work a) = Some work"
    "get_workflow rows i = Some row"
    by (auto simp: acquire_def result_simps split: sum.splits option.splits)
  have work: "work \<in> set (as_eligible_work a)" "ew_kind work = k"
    using *(6) by (auto simp: find_Some_iff)
  from work(2) have "\<lparr>ew_kind = k, ew_role = ew_role work\<rparr> = work" by (cases work) simp
  with assms * work show ?thesis
    by (intro that [of locked inputs a k work row])
      (auto simp: acquire_def result_simps validate_ttl_def Let_def split: option.splits)
qed

lemma renew_Inr:
  assumes "renew rows loaded i c ttl pg_now = Inr (rows', st)"
  obtains w locked where "loaded = Inr locked" "get_workflow rows i = Some w"
    "live_claim w (ld_ticket locked) (ld_decision_time locked) c"
    "rows' = update_rows (\<lambda>w. wf_ticket_id w = i)
       (\<lambda>w. w\<lparr>wf_claim_expires_at := Some (ld_decision_time locked + ttl * 1000000), wf_updated_at := pg_now\<rparr>) rows"
  using assms by (auto simp: renew_def locked_claim_def result_simps Let_def split: sum.splits option.splits)

lemma release_Inr:
  assumes "release rows loaded i c pg_now = Inr (rows', st)"
  obtains w locked where "loaded = Inr locked" "get_workflow rows i = Some w"
    "live_claim w (ld_ticket locked) (ld_decision_time locked) c"
    "rows' = update_rows (\<lambda>w. wf_ticket_id w = i) (cleared_claim pg_now) rows"
  using assms by (auto simp: release_def locked_claim_def result_simps split: sum.splits option.splits)

definition epoch_at_least :: "uuid \<Rightarrow> int \<Rightarrow> workflow_row list \<Rightarrow> bool" where
  "epoch_at_least i n rows = (case get_workflow rows i of None \<Rightarrow> False | Some w \<Rightarrow> n \<le> wf_claim_epoch w)"

lemma get_workflow_update:
  assumes "\<And>w. wf_ticket_id (f w) = wf_ticket_id w"
  shows "get_workflow (update_rows (\<lambda>w. wf_ticket_id w = i) f rows) j =
    (if i = j then map_option f (get_workflow rows j) else get_workflow rows j)"
proof (cases "i = j")
  case True
  then show ?thesis
    using workflows.get_row_update_same [of f rows j _ "\<lambda>_. True", OF assms]
      workflows.get_row_None [of rows j] workflows.get_row_None [of "update_rows (\<lambda>w. wf_ticket_id w = i) f rows" j]
      workflows.keys_update_rows [of f "\<lambda>w. wf_ticket_id w = i" rows, OF assms]
    by (cases "get_workflow rows j") (auto simp: simp flip: set_map)
next
  case False
  then show ?thesis using workflows.get_row_update_other [of f j i "\<lambda>_. True" rows, OF assms] by simp
qed

lemma epoch_at_least_update:
  assumes "epoch_at_least j n rows" and "\<And>w. wf_ticket_id (f w) = wf_ticket_id w"
    and "\<And>w. wf_claim_epoch w \<le> wf_claim_epoch (f w)"
  shows "epoch_at_least j n (update_rows (\<lambda>w. wf_ticket_id w = i) f rows)"
  using assms(1) assms(3) order_trans
  by (fastforce simp: epoch_at_least_def get_workflow_update [OF assms(2)] split: option.splits)

lemma epoch_at_least_step:
  assumes "epoch_at_least j n rows" and "claim_step tz rows rows'"
  shows "epoch_at_least j n rows'"
  using assms(2)
proof cases
  case (acquired enabled loaded i actor owner kind version assessment ttl token pg_now c)
  then show ?thesis
  proof (cases rule: acquire_Inr)
    case (1 locked inputs a k work row)
    show ?thesis unfolding 1(14) by (rule epoch_at_least_update [OF assms(1)]) (simp_all add: claim_row_def)
  qed
next
  case (renewed loaded i cred ttl pg_now st)
  then show ?thesis
    by (cases rule: renew_Inr) (simp add: epoch_at_least_update [OF assms(1)])
next
  case (released loaded i cred pg_now st)
  then show ?thesis
    by (cases rule: release_Inr) (simp add: epoch_at_least_update [OF assms(1)] cleared_claim_def)
next
  case (mutated i m pg_now)
  show ?thesis unfolding mutated(1)
    by (rule epoch_at_least_update [OF assms(1)]) (simp_all add: mutate_workflow_def Let_def)
qed

interpretation claim_epochs: invariant_system "epoch_at_least i n" "claim_step tz" "epoch_at_least i n"
  by unfold_locales (auto intro: epoch_at_least_step)

lemma fenced_by_epoch:
  assumes "epoch_at_least i n rows" and "cc_epoch c < n"
  shows "\<not> is_ok (renew rows loaded i c ttl pg_now)" "\<not> is_ok (release rows loaded i c pg_now)"
  using assms
  by (auto simp: is_ok_iff epoch_at_least_def live_claim_def split: option.splits elim!: renew_Inr release_Inr)

section \<open>Runs that record their grants\<close>

inductive granting_step ::
    "(int \<Rightarrow> instant) \<Rightarrow> workflow_row list \<times> claim_result list \<Rightarrow> workflow_row list \<times> claim_result list \<Rightarrow> bool" for tz where
  claim_granted: "acquire tz enabled rows loaded i actor owner kind version assessment ttl token pg_now = Inr (rows', c) \<Longrightarrow>
    granting_step tz (rows, grants) (rows', c # grants)"
| claim_renewed: "renew rows loaded i cred ttl pg_now = Inr (rows', st) \<Longrightarrow> granting_step tz (rows, grants) (rows', grants)"
| claim_released: "release rows loaded i cred pg_now = Inr (rows', st) \<Longrightarrow> granting_step tz (rows, grants) (rows', grants)"
| workflow_mutated: "granting_step tz (rows, grants) (update_rows (\<lambda>w. wf_ticket_id w = i) (mutate_workflow m pg_now) rows, grants)"

definition grant_key :: "claim_result \<Rightarrow> uuid \<times> int" where
  "grant_key c = (cl_ticket_id c, cl_epoch c)"

definition grants_ok :: "workflow_row list \<times> claim_result list \<Rightarrow> bool" where
  "grants_ok s = (distinct (map grant_key (snd s)) \<and> (\<forall>c \<in> set (snd s). epoch_at_least (cl_ticket_id c) (cl_epoch c) (fst s)))"

lemma granting_step_claim: "granting_step tz s t \<Longrightarrow> claim_step tz (fst s) (fst t)"
  by (induction rule: granting_step.induct) (auto intro: claim_step.intros)

lemma granted_epoch:
  assumes "acquire tz enabled rows loaded i actor owner kind version assessment ttl token pg_now = Inr (rows', c)"
  obtains locked k w where "loaded = Inr locked" "get_workflow rows i = Some w" "cl_ticket_id c = i" "cl_epoch c = wf_claim_epoch w + 1"
    "cl_expires_at c = ld_decision_time locked + ttl * 1000000" "ew_kind (cl_work c) = k" "actor = actor_for_work (ld_ticket locked) k"
    "get_workflow rows' i = Some (claim_row owner k (token_digest token) (cl_expires_at c) pg_now w)"
  using assms
proof (cases rule: acquire_Inr)
  case (1 locked inputs a k work row)
  have "get_workflow rows' i = Some (claim_row owner k (token_digest token) (cl_expires_at c) pg_now row)"
    unfolding 1(14) using 1(10,15) by (subst get_workflow_update) (simp_all add: claim_row_def)
  with 1 that show ?thesis by simp
qed

interpretation granted_claims: invariant_system "\<lambda>s. snd s = []" "granting_step tz" grants_ok
proof unfold_locales
  show "grants_ok s" if "snd s = []" for s using that by (simp add: grants_ok_def)
  show "grants_ok t" if ok: "grants_ok s" and step: "granting_step tz s t" for s t
  proof -
    have kept: "epoch_at_least (cl_ticket_id c) (cl_epoch c) (fst t)" if "c \<in> set (snd s)" for c
      using ok that epoch_at_least_step [OF _ granting_step_claim [OF step]] by (simp add: grants_ok_def)
    from step show ?thesis
    proof cases
      case (claim_granted enabled rows loaded i actor owner kind version assessment ttl token pg_now rows' c grants)
      from claim_granted(3) obtain locked k w where w: "get_workflow rows i = Some w" "cl_ticket_id c = i" "cl_epoch c = wf_claim_epoch w + 1"
        "get_workflow rows' i = Some (claim_row owner k (token_digest token) (cl_expires_at c) pg_now w)" by (rule granted_epoch)
      have "grant_key c \<notin> grant_key ` set grants"
        using ok w claim_granted(1) by (fastforce simp: grants_ok_def grant_key_def epoch_at_least_def)
      moreover have "epoch_at_least (cl_ticket_id c) (cl_epoch c) rows'" using w by (simp add: epoch_at_least_def claim_row_def)
      ultimately show ?thesis using kept ok claim_granted(1,2) by (simp add: grants_ok_def)
    qed (use kept ok in \<open>simp_all add: grants_ok_def\<close>)
  qed
qed

lemma passing_claim:
  assumes "is_ok (renew rows loaded i cred ttl pg_now) \<or> is_ok (release rows loaded i cred pg_now)"
  obtains w locked e where "loaded = Inr locked" "get_workflow rows i = Some w" "wf_claim_epoch w = cc_epoch cred"
    "wf_claim_expires_at w = Some e" "ld_decision_time locked < e"
proof -
  from assms obtain w locked where "loaded = Inr locked" "get_workflow rows i = Some w" "live_claim w (ld_ticket locked) (ld_decision_time locked) cred"
    by (auto simp: is_ok_iff elim!: renew_Inr release_Inr)
  with that show ?thesis by (auto simp: live_claim_def split: option.splits)
qed

lemma granted_renews:
  assumes "acquire tz enabled rows loaded i actor owner kind version assessment ttl token pg_now = Inr (rows', c)"
    and "loaded = Inr locked" and "validate_claim_credentials owner token (cl_epoch c) = Inr ()"
    and "cred = \<lparr>cc_actor = actor, cc_owner = owner, cc_token = token, cc_epoch = cl_epoch c\<rparr>" and "validate_ttl ttl' = Inr ()"
    and "ld_decision_time locked < cl_expires_at c"
  shows "is_ok (renew rows' loaded i cred ttl' pg_now')"
proof -
  from assms(1) obtain l k w where "loaded = Inr l" "cl_epoch c = wf_claim_epoch w + 1" "actor = actor_for_work (ld_ticket l) k"
    "get_workflow rows' i = Some (claim_row owner k (token_digest token) (cl_expires_at c) pg_now w)" by (rule granted_epoch)
  with assms(2-6) show ?thesis by (simp add: renew_def locked_claim_def live_claim_def claim_row_def Let_def is_ok_def)
qed

section \<open>A sample claim\<close>

definition claim_input :: evaluation_input where
  "claim_input = sample_input\<lparr>ei_active_bindings := [], ei_integration_receipt := None,
     ei_requested_completion_action := None\<rparr>"

definition claim_locked :: locked_decision where
  "claim_locked = \<lparr>ld_ticket = sample_ticket, ld_inputs = Some claim_input, ld_decision_time = 10000000\<rparr>"

lemma claim_input_work:
  "\<exists>a. evaluate_delivery (\<lambda>t. t) claim_input (Aware 10000000) = Inr a \<and>
     as_eligible_work a = [\<lparr>ew_kind = WImplement, ew_role = ExecutorRole\<rparr>]"
proof -
  have "nul_free_input claim_input"
    using sample_nul_free by (simp add: nul_free_input_def claim_input_def nul_free_opt_def)
  then obtain a where a: "evaluate_delivery (\<lambda>t. t) claim_input (Aware 10000000) = Inr a"
    using evaluate_delivery_returns [of claim_input "\<lambda>t. t" 10000000]
    by (auto simp: claim_input_def sample_input_def sample_contract_def)
  then have "as_eligible_work a = [\<lparr>ew_kind = WImplement, ew_role = ExecutorRole\<rparr>]"
  proof (cases rule: evaluate_delivery_elim)
    case (1 now cfs active)
    have cfs: "cfs = []" using 1(3)
      by (simp add: context_findings_def claim_input_def sample_input_def sample_contract_def dict_of_def group_by_def)
    have h: "current_health claim_input now = NeverObserved"
      by (simp add: current_health_def claim_input_def sample_input_def sample_contract_def binding_health_states_def
          repository_context_health_states_def aggregate_observation_health_def)
    have d: "deliverable_findings claim_input =
        [finding ''binding_missing'' ''no active pull-request binding'' (Some ''api'')]"
      by (simp add: deliverable_findings_def one_deliverable_findings_def matching_binding_def claim_input_def
          sample_input_def sample_contract_def)
    have e: "dependency_findings claim_input = []"
      by (simp add: dependency_findings_def claim_input_def sample_input_def sample_contract_def group_by_def)
    have "as_blockers a = [finding ''binding_missing'' ''no active pull-request binding'' (Some ''api'')]"
      unfolding 1(8) evaluation_blockers_def d e cfs h
      by (simp add: state_findings_def claim_input_def sample_input_def completion_action_valid_def)
    moreover have "\<not> active" using 1(4) by (simp add: claim_active_def claim_input_def sample_input_def)
    ultimately show ?thesis
      using 1(14) by (simp add: eligible_work_of_def claim_input_def sample_input_def work_blocking_def startswith_def
          executor_work_def)
  qed
  with a show ?thesis by blast
qed

lemma sample_acquired:
  "\<exists>assessment rows' c. acquire (\<lambda>t. t) True [contracted_workflow] (Inr claim_locked) ''t1'' ''brain-v42'' ''agent''
     ''implement'' 1 assessment 900 ''secret'' 10000001 = Inr (rows', c) \<and> cl_expires_at c = 910000000"
proof -
  obtain a where a: "evaluate_delivery (\<lambda>t. t) claim_input (Aware 10000000) = Inr a"
    "as_eligible_work a = [\<lparr>ew_kind = WImplement, ew_role = ExecutorRole\<rparr>]" using claim_input_work by blast
  have facts: "ei_workflow_version claim_input = 1" "ld_inputs claim_locked = Some claim_input"
    "ld_decision_time claim_locked = 10000000" "validate_ttl 900 = Inr ()" "validate_owner ''agent'' = Inr ()"
    "work_kind_of_text ''implement'' = Some WImplement"
    "actor_for_work (ld_ticket claim_locked) WImplement = ''brain-v42''"
    "get_workflow [contracted_workflow] ''t1'' = Some contracted_workflow"
    "wf_claim_expires_at contracted_workflow = None"
    by (simp_all add: claim_input_def sample_input_def claim_locked_def validate_ttl_def MIN_TTL_SECONDS_def
        MAX_TTL_SECONDS_def validate_owner_def strip_def lstrip_def rstrip_def is_space_def work_kind_of_text_def
        work_kind_text_def actor_for_work_def sample_ticket_def sample_data_def new_ticket_def get_workflow_def
        find_row_def contracted_workflow_def)
  show ?thesis
    by (rule exI [of _ "as_assessment_id a"]) (simp add: acquire_def facts a Let_def)
qed

section \<open>Properties of claims\<close>

text \<open>
  C26: A claim is granted only while the feature is on, to the project whose role the work needs, for work
  that the current assessment offers and the caller has seen, when no claim is live; it gets the
  next epoch and a lease of one minute to one hour, the store keeps the digest of its token only,
  and no other workflow changes.
\<close>

theorem acquire_grants_offered_work:
  assumes "acquire tz enabled rows loaded i actor owner kind version assessment ttl token pg_now = Inr (rows', c)"
  shows "\<exists>locked inputs a row row'. enabled \<and> loaded = Inr locked \<and> ld_inputs locked = Some inputs \<and>
    evaluate_delivery tz inputs (Aware (ld_decision_time locked)) = Inr a \<and>
    assessment = as_assessment_id a \<and> version = ei_workflow_version inputs \<and> cl_work c \<in> set (as_eligible_work a) \<and>
    actor = actor_for_work (ld_ticket locked) (ew_kind (cl_work c)) \<and>
    get_workflow rows i = Some row \<and> get_workflow rows' i = Some row' \<and>
    (\<forall>e. wf_claim_expires_at row = Some e \<longrightarrow> e \<le> ld_decision_time locked) \<and>
    cl_epoch c = wf_claim_epoch row + 1 \<and> wf_claim_epoch row' = cl_epoch c \<and>
    wf_claim_expires_at row' = Some (cl_expires_at c) \<and> wf_claim_digest row' = Some (token_digest token) \<and>
    ld_decision_time locked + 60 * 1000000 \<le> cl_expires_at c \<and>
    cl_expires_at c \<le> ld_decision_time locked + 3600 * 1000000 \<and>
    (\<forall>j. j \<noteq> i \<longrightarrow> get_workflow rows' j = get_workflow rows j)"
  using assms
proof (cases rule: acquire_Inr)
  case (1 locked inputs a k work row)
  have "get_workflow rows' j = (if i = j then map_option (claim_row owner k (token_digest token)
      (ld_decision_time locked + ttl * 1000000) pg_now) (get_workflow rows j) else get_workflow rows j)" for j
    unfolding 1(14) by (rule get_workflow_update) (simp add: claim_row_def)
  with 1 show ?thesis
    by (auto simp: claim_row_def MIN_TTL_SECONDS_def MAX_TTL_SECONDS_def)
qed

theorem acquire_grants_offered_work_witness:
  "\<exists>assessment rows' c row'. acquire (\<lambda>t. t) True [contracted_workflow] (Inr claim_locked) ''t1'' ''brain-v42'' ''agent''
     ''implement'' 1 assessment 900 ''secret'' 10000001 = Inr (rows', c) \<and>
     get_workflow rows' ''t1'' = Some row' \<and> wf_claim_epoch row' = cl_epoch c"
proof -
  obtain assessment rows' c where r: "acquire (\<lambda>t. t) True [contracted_workflow] (Inr claim_locked) ''t1'' ''brain-v42'' ''agent''
     ''implement'' 1 assessment 900 ''secret'' 10000001 = Inr (rows', c)" using sample_acquired by blast
  obtain row' where "get_workflow rows' ''t1'' = Some row'" "wf_claim_epoch row' = cl_epoch c"
    using acquire_grants_offered_work [OF r] by (elim exE conjE)
  with r show ?thesis by blast
qed

text \<open>
  C20: Claims exclude each other along every run of the claim system. A run records the claims it grants. At any
  point of it, the grants of a workflow have distinct epochs, and when the epoch of a grant still passes the check of
  a renewal or a release, that grant is the newest one of its workflow: no earlier or later grant passes, and a new
  claim on the workflow is refused at this decision time and at every earlier one.
\<close>

theorem claims_exclude_each_other:
  assumes "reachable (\<lambda>s. snd s = []) (granting_step tz) (rows, grants)" and "c \<in> set grants"
    and "is_ok (renew rows (Inr locked) (cl_ticket_id c) cred ttl pg_now) \<or> is_ok (release rows (Inr locked) (cl_ticket_id c) cred pg_now)"
    and "cc_epoch cred = cl_epoch c"
  shows "distinct (map grant_key grants) \<and>
    (\<forall>c' \<in> set grants. cl_ticket_id c' = cl_ticket_id c \<longrightarrow> c' \<noteq> c \<longrightarrow> cl_epoch c' < cl_epoch c) \<and>
    (\<forall>c' \<in> set grants. \<forall>cred' locked' ttl' pg_now'. cl_ticket_id c' = cl_ticket_id c \<and> cc_epoch cred' = cl_epoch c' \<and>
       (is_ok (renew rows locked' (cl_ticket_id c) cred' ttl' pg_now') \<or> is_ok (release rows locked' (cl_ticket_id c) cred' pg_now')) \<longrightarrow> c' = c) \<and>
    (ld_decision_time locked' \<le> ld_decision_time locked \<longrightarrow>
       \<not> is_ok (acquire tz' enabled rows (Inr locked') (cl_ticket_id c) actor owner kind version assessment ttl' token pg_now'))"
proof -
  have inv: "grants_ok (rows, grants)" by (rule granted_claims.inv_reachable [OF assms(1)])
  then have keys: "distinct (map grant_key grants)" and below: "\<And>c. c \<in> set grants \<Longrightarrow> epoch_at_least (cl_ticket_id c) (cl_epoch c) rows"
    by (simp_all add: grants_ok_def)
  from assms(3) obtain w e where w: "get_workflow rows (cl_ticket_id c) = Some w" "wf_claim_epoch w = cl_epoch c"
    "wf_claim_expires_at w = Some e" "ld_decision_time locked < e"
    using assms(4) by (cases rule: passing_claim) auto
  have newest: "cl_epoch c' < cl_epoch c" if "c' \<in> set grants" "cl_ticket_id c' = cl_ticket_id c" "c' \<noteq> c" for c'
  proof -
    have "cl_epoch c' \<le> cl_epoch c" using below [OF that(1)] w that(2) by (simp add: epoch_at_least_def)
    moreover have "grant_key c' \<noteq> grant_key c" using keys that assms(2) by (auto simp: distinct_map inj_on_def)
    ultimately show ?thesis using that(2) by (simp add: grant_key_def)
  qed
  have single: "c' = c" if "c' \<in> set grants" "cl_ticket_id c' = cl_ticket_id c" "cc_epoch cred' = cl_epoch c'"
    "is_ok (renew rows loaded (cl_ticket_id c) cred' ttl' pg_now') \<or> is_ok (release rows loaded (cl_ticket_id c) cred' pg_now')"
    for c' cred' loaded ttl' pg_now'
    using that(4)
  proof (cases rule: passing_claim)
    case (1 w' locked' e')
    then have "cl_epoch c' = cl_epoch c" using w that(3) by simp
    then show ?thesis using newest [OF that(1,2)] by (cases "c' = c") simp_all
  qed
  have "\<not> is_ok (acquire tz' enabled rows (Inr locked') (cl_ticket_id c) actor owner kind version assessment ttl' token pg_now')"
    if "ld_decision_time locked' \<le> ld_decision_time locked"
    using w(1,3,4) that by (fastforce simp: is_ok_iff elim!: acquire_Inr)
  with keys newest single show ?thesis by blast
qed

theorem claims_exclude_each_other_witness:
  "\<exists>rows c cred. reachable (\<lambda>s. snd s = []) (granting_step (\<lambda>t. t)) (rows, [c]) \<and> cc_epoch cred = cl_epoch c \<and>
     is_ok (renew rows (Inr claim_locked) (cl_ticket_id c) cred 900 0) \<and>
     \<not> is_ok (acquire (\<lambda>t. t) True rows (Inr claim_locked) (cl_ticket_id c) ''brain-v42'' ''other'' ''implement'' 1 ''a'' 900 ''token'' 0)"
proof -
  obtain assessment rows c where r: "acquire (\<lambda>t. t) True [contracted_workflow] (Inr claim_locked) ''t1'' ''brain-v42'' ''agent''
     ''implement'' 1 assessment 900 ''secret'' 10000001 = Inr (rows, c)" "cl_expires_at c = 910000000"
    using sample_acquired by blast
  have run: "reachable (\<lambda>s. snd s = []) (granting_step (\<lambda>t. t)) (rows, [c])"
  proof (rule reachable_step)
    show "reachable (\<lambda>s. snd s = []) (granting_step (\<lambda>t. t)) ([contracted_workflow], [])" by (rule reachable_start) simp
  qed (rule claim_granted [OF r(1)])
  define cred where "cred = \<lparr>cc_actor = ''brain-v42'', cc_owner = ''agent'', cc_token = ''secret'', cc_epoch = cl_epoch c\<rparr>"
  from r(1) obtain w where w: "cl_ticket_id c = ''t1''" "cl_epoch c = wf_claim_epoch w + 1" "get_workflow [contracted_workflow] ''t1'' = Some w"
    by (rule granted_epoch)
  have valid: "validate_claim_credentials ''agent'' ''secret'' (cl_epoch c) = Inr ()"
    using w(2,3) by (simp add: validate_claim_credentials_def validate_owner_def strip_def lstrip_def rstrip_def is_space_def get_workflow_def find_row_def
      contracted_workflow_def split: if_splits) auto
  have live: "is_ok (renew rows (Inr claim_locked) (cl_ticket_id c) cred 900 0)"
    unfolding w(1) by (rule granted_renews [OF r(1) refl valid])
      (use r(2) in \<open>simp_all add: cred_def claim_locked_def validate_ttl_def MIN_TTL_SECONDS_def MAX_TTL_SECONDS_def\<close>)
  from claims_exclude_each_other [OF run _ disjI1 [OF live], of claim_locked "\<lambda>t. t" True "''brain-v42''" "''other''" "''implement''" 1 "''a''" 900 "''token''" 0]
  have "\<not> is_ok (acquire (\<lambda>t. t) True rows (Inr claim_locked) (cl_ticket_id c) ''brain-v42'' ''other'' ''implement'' 1 ''a'' 900 ''token'' 0)"
    by (simp add: cred_def)
  with run live show ?thesis by (intro exI [of _ rows] exI [of _ c] exI [of _ cred]) (simp add: cred_def)
qed

text \<open>
  C21: Fencing: once a workflow's epoch has passed the epoch of a claim, that claim can neither be
  renewed nor released, now or after any sequence of later claims, renewals, releases and ticket
  transitions.
\<close>

theorem fenced_claim_stays_fenced:
  assumes "(claim_step tz)\<^sup>*\<^sup>* rows rows'" and "get_workflow rows i = Some w" and "cc_epoch c < wf_claim_epoch w"
  shows "\<not> is_ok (renew rows' loaded i c ttl pg_now) \<and> \<not> is_ok (release rows' loaded i c pg_now)"
proof -
  have "epoch_at_least i (wf_claim_epoch w) rows" using assms(2) by (simp add: epoch_at_least_def)
  then have "epoch_at_least i (wf_claim_epoch w) rows'"
    using claim_epochs.inv_rtranclp assms(1) by blast
  with assms(3) fenced_by_epoch show ?thesis by blast
qed

theorem fenced_claim_stays_fenced_witness:
  "let c = \<lparr>cc_actor = ''brain-v42'', cc_owner = ''agent'', cc_token = ''secret'', cc_epoch = 3\<rparr> in
   wf_claim_epoch contracted_workflow = 4 \<and> \<not> is_ok (renew [contracted_workflow] (Inr claim_locked) ''t1'' c 900 0) \<and>
   \<not> is_ok (release [contracted_workflow] (Inr claim_locked) ''t1'' c 0)"
proof -
  let ?c = "\<lparr>cc_actor = ''brain-v42'', cc_owner = ''agent'', cc_token = ''secret'', cc_epoch = 3\<rparr>"
  have w: "get_workflow [contracted_workflow] ''t1'' = Some contracted_workflow" "cc_epoch ?c < wf_claim_epoch contracted_workflow"
    by (simp_all add: get_workflow_def find_row_def contracted_workflow_def)
  from fenced_claim_stays_fenced [OF rtranclp.rtrancl_refl w] show ?thesis
    by (simp add: Let_def) (simp add: contracted_workflow_def)
qed

end
