(* ===== verification/Dependency_Graph.thy ===== *)
theory Dependency_Graph
  imports Prelude
begin

text \<open>
  The dependency check of programme gates, \<open>acyclic_or_refuse\<close> of
  \<open>src/brain_v42/models/programme.py\<close>: a depth-first search over a dictionary of successor lists,
  with the colours 1 (on the current path) and 2 (finished).

  The recursion of \<open>visit\<close> is bounded by an explicit depth. \<open>acyclic_or_refuse\<close> starts it with one
  more than the number of keys, and \<open>acyclic_or_refuse_cases\<close> shows that this depth is never
  exhausted: the nodes on the current path are distinct keys of the graph. The check accepts exactly
  the graphs whose edge relation is acyclic, and a refusal names a node on a cycle.
\<close>

section \<open>The search\<close>

type_synonym 'k graph = "('k \<times> 'k list) list"
type_synonym 'k colours = "'k \<Rightarrow> int option"

datatype 'k visit_error = CycleThrough 'k | DepthExhausted

definition successors :: "'k graph \<Rightarrow> 'k \<Rightarrow> 'k list" where
  "successors g k = (case map_of g k of None \<Rightarrow> [] | Some ds \<Rightarrow> ds)"

primrec visit :: "nat \<Rightarrow> 'k graph \<Rightarrow> 'k \<Rightarrow> 'k colours \<Rightarrow> ('k visit_error, 'k colours) result" where
  "visit 0 g k st = Inl DepthExhausted"
| "visit (Suc n) g k st =
     (if st k = Some 1 then Inl (CycleThrough k)
      else if st k = Some 2 then Inr st
      else res_bind (res_fold (visit n g) (successors g k) (st(k \<mapsto> 1))) (\<lambda>st'. Inr (st'(k \<mapsto> 2))))"

definition acyclic_or_refuse :: "'k graph \<Rightarrow> ('k visit_error, unit) result" where
  "acyclic_or_refuse g =
     res_bind (res_fold (visit (Suc (length g)) g) (map fst g) Map.empty) (\<lambda>_. Inr ())"

section \<open>Colours and edges\<close>

definition edges :: "'k graph \<Rightarrow> ('k \<times> 'k) set" where
  "edges g = {(k, d). d \<in> set (successors g k)}"

definition grey :: "'k colours \<Rightarrow> 'k set" where
  "grey st = {k. st k = Some 1}"

definition black :: "'k colours \<Rightarrow> 'k set" where
  "black st = {k. st k = Some 2}"

text \<open>What the search maintains: finished nodes have finished successors and lie on no cycle, and the
  nodes of the current path are keys of the graph.\<close>

definition search_ok :: "'k graph \<Rightarrow> 'k colours \<Rightarrow> bool" where
  "search_ok g st =
     (edges g `` black st \<subseteq> black st \<and> (\<forall>k \<in> black st. (k, k) \<notin> (edges g)\<^sup>+) \<and> grey st \<subseteq> fst ` set g)"

definition search_extends :: "'k graph \<Rightarrow> 'k colours \<Rightarrow> 'k colours \<Rightarrow> bool" where
  "search_extends g st st' = (search_ok g st' \<and> grey st' = grey st \<and> black st \<subseteq> black st')"

lemma search_extends_trans:
  "search_extends g st st' \<Longrightarrow> search_extends g st' st'' \<Longrightarrow> search_extends g st st''"
  by (auto simp: search_extends_def)

lemma edges_iff: "(k, d) \<in> edges g \<longleftrightarrow> d \<in> set (successors g k)"
  by (simp add: edges_def)

lemma edge_from_key: "(k, d) \<in> edges g \<Longrightarrow> k \<in> fst ` set g"
  by (force simp: edges_def successors_def split: option.splits dest: map_of_SomeD [OF sym])

lemma grey_upd [simp]:
  "grey (st(k \<mapsto> 1)) = insert k (grey st)" "grey (st(k \<mapsto> 2)) = grey st - {k}"
  by (auto simp: grey_def)

lemma black_upd [simp]:
  "black (st(k \<mapsto> 1)) = black st - {k}" "black (st(k \<mapsto> 2)) = insert k (black st)"
  by (auto simp: black_def)

lemma grey_black_disjoint: "k \<in> grey st \<Longrightarrow> k \<notin> black st"
  by (simp add: grey_def black_def)

lemma grey_bound:
  assumes "search_ok g st"
  shows "card (grey st) \<le> length g" and "finite (grey st)"
proof -
  have sub: "grey st \<subseteq> set (map fst g)" using assms by (simp add: search_ok_def)
  then show "finite (grey st)" by (rule finite_subset) simp
  have "card (grey st) \<le> card (set (map fst g))" using sub by (intro card_mono) simp_all
  also have "\<dots> \<le> length g" using card_length [of "map fst g"] by simp
  finally show "card (grey st) \<le> length g" .
qed

lemma black_closed:
  assumes "search_ok g st" and "k \<in> black st" and "(k, d) \<in> (edges g)\<^sup>*"
  shows "d \<in> black st"
  using assms(3,2) by (induction rule: rtrancl_induct) (use assms(1) in \<open>auto simp: search_ok_def\<close>)

text \<open>A node all of whose successors are finished lies on no cycle: a finished successor would lead
  back to it.\<close>

lemma finished_off_cycle:
  assumes "search_ok g st" and "k \<notin> black st" and "set (successors g k) \<subseteq> black st"
  shows "(k, k) \<notin> (edges g)\<^sup>+"
proof
  assume "(k, k) \<in> (edges g)\<^sup>+"
  then obtain d where "(k, d) \<in> edges g" "(d, k) \<in> (edges g)\<^sup>*" by (blast dest: tranclD)
  with assms(3) have "k \<in> black st" using black_closed [OF assms(1)] by (auto simp: edges_iff)
  with assms(2) show False by simp
qed

section \<open>One visit\<close>

definition visit_spec ::
    "'k graph \<Rightarrow> 'k colours \<Rightarrow> 'k set \<Rightarrow> ('k visit_error, 'k colours) result \<Rightarrow> bool" where
  "visit_spec g st done r =
     (case r of
        Inl (CycleThrough c) \<Rightarrow> (c, c) \<in> (edges g)\<^sup>+
      | Inl DepthExhausted \<Rightarrow> False
      | Inr st' \<Rightarrow> search_extends g st st' \<and> done \<subseteq> black st')"

lemma visit_all_spec:
  assumes "search_ok g st"
    and step: "\<And>d st1. d \<in> set ds \<Longrightarrow> search_extends g st st1 \<Longrightarrow> visit_spec g st1 {d} (f d st1)"
  shows "visit_spec g st (set ds) (res_fold f ds st)"
  using assms
proof (induction ds arbitrary: st)
  case Nil
  then show ?case by (simp add: visit_spec_def search_extends_def)
next
  case (Cons d ds)
  have first: "visit_spec g st {d} (f d st)"
    using Cons.prems by (simp add: search_extends_def)
  show ?case
  proof (cases "f d st")
    case (Inl e)
    with first show ?thesis by (simp add: visit_spec_def split: visit_error.splits)
  next
    case (Inr st1)
    with first have st1: "search_extends g st st1" "d \<in> black st1" by (simp_all add: visit_spec_def)
    have "visit_spec g st1 (set ds) (res_fold f ds st1)"
      using Cons.prems(2) st1(1)
      by (intro Cons.IH) (auto simp: search_extends_def [of g st st1] intro: search_extends_trans [OF st1(1)])
    with st1 Inr show ?thesis
      by (auto simp: visit_spec_def search_extends_def split: sum.splits visit_error.splits)
  qed
qed

lemma visit_spec_finish:
  assumes "visit_spec g (st(k \<mapsto> 1)) (set (successors g k)) r" and "k \<notin> grey st" and "k \<notin> black st"
  shows "visit_spec g st {k} (res_bind r (\<lambda>st'. Inr (st'(k \<mapsto> 2))))"
proof (cases r)
  case (Inl e)
  with assms(1) show ?thesis by (simp add: visit_spec_def split: visit_error.splits)
next
  case (Inr st')
  with assms have st': "search_ok g st'" "grey st' = insert k (grey st)" "black st \<subseteq> black st'"
    "set (successors g k) \<subseteq> black st'"
    by (auto simp: visit_spec_def search_extends_def)
  then have k: "k \<notin> black st'" using grey_black_disjoint [of k st'] by simp
  have "(k, k) \<notin> (edges g)\<^sup>+" by (rule finished_off_cycle [OF st'(1) k st'(4)])
  moreover have "edges g `` insert k (black st') \<subseteq> insert k (black st')"
    using st'(1,4) by (auto simp: search_ok_def edges_iff)
  ultimately have "search_ok g (st'(k \<mapsto> 2))" using st'(1) by (auto simp: search_ok_def)
  with Inr st' assms(2) show ?thesis
    by (auto simp: visit_spec_def search_extends_def)
qed

lemma visit_spec_visit:
  assumes "search_ok g st" and "\<And>x. x \<in> grey st \<Longrightarrow> (x, k) \<in> (edges g)\<^sup>+"
    and "length g < n + card (grey st)"
  shows "visit_spec g st {k} (visit n g k st)"
  using assms
proof (induction n arbitrary: k st)
  case 0
  then show ?case using grey_bound(1) [of g st] by simp
next
  case (Suc n)
  consider "st k = Some 1" | "st k = Some 2" | "st k \<noteq> Some 1" "st k \<noteq> Some 2" by blast
  then show ?case
  proof cases
    case 1
    then show ?thesis using Suc.prems(2) [of k] by (simp add: visit_spec_def grey_def)
  next
    case 2
    then show ?thesis using Suc.prems(1) by (simp add: visit_spec_def search_extends_def black_def)
  next
    case 3
    have white: "k \<notin> grey st" "k \<notin> black st" using 3 by (simp_all add: grey_def black_def)
    let ?st = "st(k \<mapsto> 1)" and ?r = "res_fold (visit n g) (successors g k) (st(k \<mapsto> 1))"
    have "visit (Suc n) g k st = res_bind ?r (\<lambda>st'. Inr (st'(k \<mapsto> 2)))" using 3 by simp
    moreover have "visit_spec g st {k} (res_bind ?r (\<lambda>st'. Inr (st'(k \<mapsto> 2))))"
    proof (cases "successors g k = []")
      case True
      then have "edges g `` {k} = {}" "(k, k) \<notin> (edges g)\<^sup>+" by (auto simp: edges_iff dest: tranclD)
      with True white Suc.prems(1) show ?thesis
        by (auto simp: visit_spec_def search_extends_def search_ok_def)
    next
      case False
      then obtain d where "(k, d) \<in> edges g" by (metis edges_iff list.set_intros(1) neq_Nil_conv)
      then have key: "k \<in> fst ` set g" by (rule edge_from_key)
      have ok: "search_ok g ?st" using Suc.prems(1) white key by (simp add: search_ok_def)
      have "visit_spec g ?st (set (successors g k)) ?r"
      proof (rule visit_all_spec [OF ok])
        fix d st1 assume d: "d \<in> set (successors g k)" and ext: "search_extends g ?st st1"
        have grey: "grey st1 = insert k (grey st)" using ext by (simp add: search_extends_def)
        have "(x, d) \<in> (edges g)\<^sup>+" if "x \<in> grey st1" for x
        proof -
          have "(k, d) \<in> edges g" using d by (simp add: edges_iff)
          with that grey Suc.prems(2) [of x] show ?thesis by (auto intro: trancl_into_trancl)
        qed
        moreover have "card (grey st1) = Suc (card (grey st))"
          using white(1) grey grey_bound(2) [OF Suc.prems(1)] by simp
        ultimately show "visit_spec g st1 {d} (visit n g d st1)"
          using ext Suc.prems(3) by (intro Suc.IH) (simp_all add: search_extends_def)
      qed
      then show ?thesis using white by (rule visit_spec_finish)
    qed
    ultimately show ?thesis by simp
  qed
qed

section \<open>The whole check\<close>

lemma acyclic_or_refuse_cases:
  "(acyclic_or_refuse g = Inr () \<and> acyclic (edges g)) \<or>
   (\<exists>k. acyclic_or_refuse g = Inl (CycleThrough k) \<and> (k, k) \<in> (edges g)\<^sup>+)"
proof -
  let ?r = "res_fold (visit (Suc (length g)) g) (map fst g) Map.empty"
  have start: "search_ok g Map.empty" "grey Map.empty = {}"
    by (simp_all add: search_ok_def grey_def black_def)
  have "visit_spec g Map.empty (set (map fst g)) ?r"
  proof (rule visit_all_spec [OF start(1)])
    fix d st1 assume "search_extends g Map.empty st1"
    with start(2) show "visit_spec g st1 {d} (visit (Suc (length g)) g d st1)"
      by (intro visit_spec_visit) (auto simp: search_extends_def)
  qed
  then show ?thesis
  proof (cases ?r)
    case (Inl e)
    with \<open>visit_spec g Map.empty (set (map fst g)) ?r\<close> show ?thesis
      by (cases e) (auto simp: visit_spec_def acyclic_or_refuse_def)
  next
    case (Inr st')
    with \<open>visit_spec g Map.empty (set (map fst g)) ?r\<close>
    have st': "search_ok g st'" "fst ` set g \<subseteq> black st'"
      by (auto simp: visit_spec_def search_extends_def)
    have "acyclic (edges g)" unfolding acyclic_def
    proof (intro allI notI)
      fix x assume cyc: "(x, x) \<in> (edges g)\<^sup>+"
      then have "x \<in> fst ` set g" by (auto dest!: tranclD intro: edge_from_key)
      with st' cyc show False by (auto simp: search_ok_def)
    qed
    with Inr show ?thesis by (simp add: acyclic_or_refuse_def)
  qed
qed

lemma acyclic_or_refuse_ok_iff: "acyclic_or_refuse g = Inr () \<longleftrightarrow> acyclic (edges g)"
  using acyclic_or_refuse_cases [of g] by (auto simp: acyclic_def)

text \<open>
  C34: The dependency check decides acyclicity: it accepts exactly the graphs without a cycle, refuses
  the others naming a node on a cycle, and its recursion never exceeds the number of keys.
\<close>

theorem acyclic_or_refuse_exact:
  "(acyclic_or_refuse g = Inr () \<and> acyclic (edges g)) \<or>
   (\<exists>k. acyclic_or_refuse g = Inl (CycleThrough k) \<and> (k, k) \<in> (edges g)\<^sup>+)"
  by (rule acyclic_or_refuse_cases)

end
