(* ===== verification/Delivery_Store.thy ===== *)
theory Delivery_Store
  imports Delivery_Claims Dependency_Graph
begin

text \<open>
  The stored contracts and bindings of delivery, \<open>src/brain_v42/repositories/pg_delivery.py\<close> over the
  tables of \<open>src/brain_v42/db/delivery_tables.py\<close>: \<open>set_contract\<close> with its dependency check, \<open>bind_pr\<close>,
  \<open>refresh\<close> and the idempotent replay of both writes.

  \<^item> A JSONB column that holds a dumped model is the value of that model. The columns of a revision that
    repeat its contract are read from the contract.
  \<^item> A call is one step: it runs under the graph lock. The replay check before the lock returns what the
    check under the lock returns, so one of them is modelled.
  \<^item> \<open>now\<close> is the process clock, \<open>pg_now\<close> the transaction's, \<open>fresh_id\<close> the identifier a new binding draws.
\<close>

section \<open>Tables\<close>

record revision_row =
  rw_ticket_id :: uuid
  rw_revision :: int
  rw_contract :: contract_revision
  rw_content_digest :: string
  rw_context_set_digest :: string

record dependency_row =
  dr_ticket_id :: uuid
  dr_revision :: int
  dr_upstream :: delivery_dependency

datatype event_result = ContractStored contract_revision | BindingStored artifact_binding

record event_row =
  ev_operation :: string
  ev_actor_project :: string
  ev_ticket_id :: uuid
  ev_key :: string
  ev_request_digest :: string
  ev_result :: event_result
  ev_payload :: "(string \<times> int) list"

datatype evidence_subject = ArtifactSubject uuid | ContextSubject uuid int int string

datatype snapshot_evidence = PullRequestSnapshot pull_request_evidence | ContextSnapshot repository_context_evidence

record snapshot_row =
  sn_id :: uuid
  sn_subject :: evidence_subject
  sn_semantic_digest :: string
  sn_evidence :: snapshot_evidence

record confirmation_row =
  cf_id :: uuid
  cf_subject :: evidence_subject
  cf_snapshot_id :: "uuid option"
  cf_collection_started_at :: instant
  cf_collection_finished_at :: instant
  cf_outcome :: outcome
  cf_error_code :: "string option"

record receipt_row =
  rx_id :: uuid
  rx_ticket_id :: uuid
  rx_revision :: int
  rx_attempt :: int
  rx_milestone :: receipt_milestone
  rx_delivery_digest :: string
  rx_payload :: milestone_receipt
  rx_issuer :: string
  rx_basis :: "acceptance_mode option"
  rx_issued_at :: instant

text \<open>A row of one of the knowledge tables: its context columns as the JSON text a reference freezes.\<close>

record entity_row =
  en_type :: entity_type
  en_id :: uuid
  en_content :: string

text \<open>A fact an issuer declared. Its payload is the Python mapping.\<close>

record attestation_row =
  at_id :: uuid
  at_ticket_id :: uuid
  at_contract_revision :: "int option"
  at_kind :: string
  at_payload :: pyval
  at_digest :: string
  at_issuer_project :: string
  at_issuer_identity :: string
  at_idempotency_key :: string
  at_emitted_at :: instant
  at_recorded_at :: instant

text \<open>Focus slots, their anchors and their history, and what they read of the sessions.\<close>

datatype anchor_kind = AnchorTicket | AnchorLot | AnchorPr

record slot_anchor =
  sa_kind :: anchor_kind
  sa_ticket_id :: "uuid option"
  sa_target_release :: "string option"
  sa_repository_id :: "int option"
  sa_pr_number :: "int option"

record slot_row =
  sl_id :: uuid
  sl_project_key :: string
  sl_title :: string
  sl_body :: string
  sl_revision :: int
  sl_opened_at :: instant
  sl_body_updated_at :: instant
  sl_closed_at :: "instant option"
  sl_close_reason :: "string option"
  sl_close_note :: "string option"
  sl_author_client_id :: "string option"

record anchor_row =
  an_id :: uuid
  an_slot_id :: uuid
  an_anchor :: slot_anchor
  an_created_at :: instant

record slot_history_row =
  sh_slot_id :: uuid
  sh_revision :: int
  sh_body :: string
  sh_source :: string
  sh_session_id :: "uuid option"
  sh_actor :: "string option"

record bound_session =
  bs_id :: uuid
  bs_slot_id :: "uuid option"
  bs_open :: bool
  bs_ended_at :: "instant option"

record delivery_store =
  ds_db :: ticket_db
  ds_revisions :: "revision_row list"
  ds_dependencies :: "dependency_row list"
  ds_events :: "event_row list"
  ds_snapshots :: "snapshot_row list"
  ds_confirmations :: "confirmation_row list"
  ds_receipts :: "receipt_row list"
  ds_entities :: "entity_row list"
  ds_attestations :: "attestation_row list"
  ds_projects :: "string list"
  ds_slots :: "slot_row list"
  ds_anchors :: "anchor_row list"
  ds_slot_history :: "slot_history_row list"
  ds_sessions :: "bound_session list"

datatype store_error =
    IdempotencyKeyReused | StoreTicketNotFound | TicketNotContractable | StoreNotAllowed | RevisionConflict
  | StoreContractNotFound | UnknownDeliverable | RepositoryMismatch | DependencyUnavailable
  | DependencyNotVisible | StoreDependencyCycle | ContextUnavailable | StoreCanonical canonical_error
  | ConstraintViolated | RowMissing | LacksContentDigest | InvalidStored

definition store_workflows :: "delivery_store \<Rightarrow> workflow_row list" where
  "store_workflows st = db_workflows (ds_db st)"

definition get_revision :: "revision_row list \<Rightarrow> uuid \<times> int \<Rightarrow> revision_row option" where
  "get_revision rows k = find_row (\<lambda>r. (rw_ticket_id r, rw_revision r) = k) rows"

interpretation revisions: keyed_table "\<lambda>r. (rw_ticket_id r, rw_revision r)" get_revision
  by unfold_locales (simp add: get_revision_def)

definition lift_store :: "(canonical_error, 'a) result \<Rightarrow> (store_error, 'a) result" where
  "lift_store r = (case r of Inl e \<Rightarrow> Inl (StoreCanonical e) | Inr x \<Rightarrow> Inr x)"

section \<open>Replay\<close>

definition event_replay ::
    "event_row list \<Rightarrow> string \<Rightarrow> string \<Rightarrow> string \<Rightarrow> string \<Rightarrow> (store_error, event_result option) result" where
  "event_replay events operation actor key digest =
     (case find_row (\<lambda>e. ev_operation e = operation \<and> ev_actor_project e = actor \<and> ev_key e = key) events of
        None \<Rightarrow> Inr None
      | Some e \<Rightarrow> if ev_request_digest e \<noteq> digest then Inl IdempotencyKeyReused else Inr (Some (ev_result e)))"

section \<open>Context sets\<close>

definition context_documents :: "contract_revision \<Rightarrow> context_reference list" where
  "context_documents c = filter (\<lambda>r. is_repository_document r \<and> ref_required r) (cr_context_refs c)"

definition context_set_digest :: "contract_revision \<Rightarrow> (canonical_error, string) result" where
  "context_set_digest c =
     res_bind (res_map (\<lambda>r. res_bind (context_reference_digest r) (\<lambda>d. Inr (context_reference_identity r, d)))
       (context_documents c)) (\<lambda>refs.
     canonical_digest (pobj [(''references'',
       PList (map (\<lambda>(i, d). PList [pstr i, popt pstr d]) (sort_key fst refs)))]) Result)"

section \<open>Dependencies\<close>

text \<open>The edges of the current contracts: the join of a dependency with its workflow's revision.\<close>

definition current_edges :: "delivery_store \<Rightarrow> (uuid \<times> uuid) list" where
  "current_edges st =
     map (\<lambda>d. (dr_ticket_id d, dd_ticket_id (dr_upstream d)))
       (filter (\<lambda>d. list_ex (\<lambda>w. wf_ticket_id w = dr_ticket_id d \<and> wf_current_revision w = dr_revision d)
          (store_workflows st)) (ds_dependencies st))"

definition check_dependency :: "delivery_store \<Rightarrow> string \<Rightarrow> delivery_dependency \<Rightarrow> (store_error, unit) result" where
  "check_dependency st actor d =
     (case get_workflow (store_workflows st) (dd_ticket_id d) of
        None \<Rightarrow> Inl DependencyUnavailable
      | Some w \<Rightarrow>
          if (wf_current_revision w, wf_attempt w) \<noteq> (dd_contract_revision d, dd_attempt d) then Inl DependencyUnavailable
          else (case get_ticket (db_tickets (ds_db st)) (dd_ticket_id d) of
              None \<Rightarrow> Inl RowMissing
            | Some t \<Rightarrow> ensure (actor \<in> {tk_from_project t, tk_to_project t}) DependencyNotVisible))"

definition upstreams :: "(uuid \<times> uuid) list \<Rightarrow> uuid list \<Rightarrow> uuid list" where
  "upstreams es frontier = remdups (map snd (filter (\<lambda>e. fst e \<in> set frontier) es))"

text \<open>The loop over the frontier: sets are lists without duplicates.\<close>

function cycle_search :: "(uuid \<times> uuid) list \<Rightarrow> uuid \<Rightarrow> uuid list \<Rightarrow> uuid list \<Rightarrow> bool" where
  "cycle_search es target seen frontier =
     (if frontier = [] then False
      else if target \<in> set frontier then True
      else let fresh = filter (\<lambda>x. x \<notin> set seen) frontier in
        if fresh = [] then False else cycle_search es target (seen @ fresh) (upstreams es fresh))"
  by pat_completeness auto

termination cycle_search
proof (relation "measure (\<lambda>(es, target, seen, frontier). card ((snd ` set es \<union> set frontier) - set seen))")
  fix es :: "(uuid \<times> uuid) list" and target :: uuid and seen frontier fresh :: "uuid list"
  assume fresh: "fresh = filter (\<lambda>x. x \<notin> set seen) frontier" "fresh \<noteq> []"
  then obtain x where x: "x \<in> set frontier" "x \<notin> set seen" by (auto simp: filter_empty_conv)
  have "(snd ` set es \<union> set (upstreams es fresh)) - set (seen @ fresh) \<subset> (snd ` set es \<union> set frontier) - set seen"
    using x fresh(1) by (auto simp: upstreams_def)
  then show "((es, target, seen @ fresh, upstreams es fresh), es, target, seen, frontier)
      \<in> measure (\<lambda>(es, target, seen, frontier). card ((snd ` set es \<union> set frontier) - set seen))"
    by (simp add: psubset_card_mono)
qed simp

declare cycle_search.simps [simp del]

definition validate_dependencies :: "delivery_store \<Rightarrow> contract_revision \<Rightarrow> string \<Rightarrow> (store_error, unit) result" where
  "validate_dependencies st c actor =
     res_bind (res_map (check_dependency st actor) (cr_dependencies c)) (\<lambda>_.
     ensure (\<not> cycle_search (current_edges st) (cr_ticket_id c) [] (remdups (map dd_ticket_id (cr_dependencies c))))
       StoreDependencyCycle)"

section \<open>Contracts\<close>

definition new_workflow :: "contract_revision \<Rightarrow> string \<Rightarrow> instant \<Rightarrow> instant \<Rightarrow> workflow_row" where
  "new_workflow c digest now pg_now =
     \<lparr>wf_ticket_id = cr_ticket_id c, wf_current_revision = 1, wf_disposition = DActive, wf_row_version = 1, wf_attempt = 1,
      wf_claim_owner = None, wf_claim_kind = None, wf_claim_digest = None, wf_claim_expires_at = None, wf_claim_epoch = 0,
      wf_context_set_digest = digest, wf_context_row_version = 1, wf_context_due_at = Some now,
      wf_context_success_confirmation = None, wf_context_attempt_confirmation = None, wf_context_last_attempt_at = None,
      wf_context_last_attempt_outcome = None, wf_context_last_error_code = None, wf_context_last_success_at = None,
      wf_updated_at = pg_now\<rparr>"

definition amended_workflow :: "contract_revision \<Rightarrow> string \<Rightarrow> instant \<Rightarrow> instant \<Rightarrow> workflow_row \<Rightarrow> workflow_row" where
  "amended_workflow c digest now pg_now w =
     w\<lparr>wf_current_revision := cr_contract_revision c, wf_row_version := wf_row_version w + 1, wf_claim_owner := None,
       wf_claim_kind := None, wf_claim_digest := None, wf_claim_expires_at := None, wf_claim_epoch := wf_claim_epoch w + 1,
       wf_context_row_version := wf_context_row_version w + 1, wf_context_set_digest := digest,
       wf_context_due_at := Some now, wf_context_success_confirmation := None, wf_context_attempt_confirmation := None,
       wf_updated_at := pg_now\<rparr>"

definition put_workflow ::
    "workflow_row list \<Rightarrow> contract_revision \<Rightarrow> int \<Rightarrow> string \<Rightarrow> instant \<Rightarrow> instant \<Rightarrow> (store_error, workflow_row list) result" where
  "put_workflow rows c expected digest now pg_now =
     (case get_workflow rows (cr_ticket_id c) of
        None \<Rightarrow>
          if expected \<noteq> 0 \<or> cr_contract_revision c \<noteq> 1 then Inl RevisionConflict
          else Inr (rows @ [new_workflow c digest now pg_now])
      | Some w \<Rightarrow>
          if expected \<noteq> wf_current_revision w \<or> cr_contract_revision c \<noteq> wf_current_revision w + 1 then Inl RevisionConflict
          else Inr (update_rows (\<lambda>x. wf_ticket_id x = cr_ticket_id c) (amended_workflow c digest now pg_now) rows))"

definition contractable :: "ticket \<Rightarrow> bool" where
  "contractable t = (tk_kind t = TicketRequest \<and> tk_status t \<notin> {SClosed, SAcked})"

definition store_contract ::
    "delivery_store \<Rightarrow> contract_revision \<Rightarrow> string \<Rightarrow> string \<Rightarrow> workflow_row list \<Rightarrow> event_row \<Rightarrow> delivery_store" where
  "store_contract st c content digest rows event =
     st\<lparr>ds_db := (ds_db st)\<lparr>db_workflows := rows\<rparr>,
        ds_revisions := ds_revisions st @
          [\<lparr>rw_ticket_id = cr_ticket_id c, rw_revision = cr_contract_revision c, rw_contract = c,
            rw_content_digest = content, rw_context_set_digest = digest\<rparr>],
        ds_dependencies := ds_dependencies st @
          map (\<lambda>d. \<lparr>dr_ticket_id = cr_ticket_id c, dr_revision = cr_contract_revision c, dr_upstream = d\<rparr>) (cr_dependencies c),
        ds_events := ds_events st @ [event]\<rparr>"

definition set_contract ::
    "delivery_store \<Rightarrow> contract_revision \<Rightarrow> int \<Rightarrow> string \<Rightarrow> string \<Rightarrow> string \<Rightarrow> instant \<Rightarrow> instant
     \<Rightarrow> (store_error, delivery_store \<times> contract_revision) result" where
  "set_contract st c expected actor key request_digest now pg_now =
     res_bind (event_replay (ds_events st) ''set_contract'' actor key request_digest) (\<lambda>replay.
     case replay of
       Some (ContractStored c0) \<Rightarrow> Inr (st, c0)
     | Some (BindingStored _) \<Rightarrow> Inl InvalidStored
     | None \<Rightarrow>
     (case get_ticket (db_tickets (ds_db st)) (cr_ticket_id c) of
        None \<Rightarrow> Inl StoreTicketNotFound
      | Some t \<Rightarrow>
        res_bind (ensure (contractable t) TicketNotContractable) (\<lambda>_.
        res_bind (ensure (actor = tk_from_project t) StoreNotAllowed) (\<lambda>_.
        res_bind (ensure (\<not> (expected = 0 \<and> tk_status t \<notin> {SOpen, SInProgress})) TicketNotContractable) (\<lambda>_.
        res_bind (validate_dependencies st c actor) (\<lambda>_.
        res_bind (lift_store (context_set_digest c)) (\<lambda>digest.
        res_bind (put_workflow (store_workflows st) c expected digest now pg_now) (\<lambda>rows.
        case cr_content_digest c of
          None \<Rightarrow> Inl ConstraintViolated
        | Some content \<Rightarrow>
          res_bind (ensure (get_revision (ds_revisions st) (cr_ticket_id c, cr_contract_revision c) = None \<and>
              distinct (map dd_identity (cr_dependencies c))) ConstraintViolated) (\<lambda>_.
          Inr (store_contract st c content digest rows
                 \<lparr>ev_operation = ''set_contract'', ev_actor_project = actor, ev_ticket_id = cr_ticket_id c, ev_key = key,
                  ev_request_digest = request_digest, ev_result = ContractStored c,
                  ev_payload = [(''expected_revision'', expected)]\<rparr>, c))))))))))"

section \<open>Bindings\<close>

definition same_slot :: "artifact_binding \<Rightarrow> artifact_binding \<Rightarrow> bool" where
  "same_slot a b =
     (ab_ticket_id a = ab_ticket_id b \<and> ab_contract_revision a = ab_contract_revision b \<and>
      ab_attempt a = ab_attempt b \<and> ab_deliverable_key a = ab_deliverable_key b)"

definition bindable :: "ticket \<Rightarrow> bool" where
  "bindable t = (tk_kind t = TicketRequest \<and> tk_status t \<notin> {SWontfix, SClosed, SAcked})"

definition bound_workflow :: "int \<Rightarrow> bool \<Rightarrow> instant \<Rightarrow> workflow_row \<Rightarrow> workflow_row" where
  "bound_workflow expected_version superseding pg_now w =
     (let w1 = w\<lparr>wf_row_version := expected_version + 1, wf_updated_at := pg_now\<rparr> in
      if superseding then w1\<lparr>wf_claim_owner := None, wf_claim_kind := None, wf_claim_digest := None,
        wf_claim_expires_at := None, wf_claim_epoch := wf_claim_epoch w + 1\<rparr> else w1)"

definition retired_binding :: "binding_row \<Rightarrow> binding_row" where
  "retired_binding r = r\<lparr>bw_active := False,
     bw_binding := (bw_binding r)\<lparr>ab_binding_version := ab_binding_version (bw_binding r) + 1\<rparr>\<rparr>"

definition proposed_binding :: "workflow_row \<Rightarrow> artifact_binding \<Rightarrow> uuid \<Rightarrow> artifact_binding" where
  "proposed_binding w b fresh_id =
     \<lparr>ab_id = fresh_id, ab_ticket_id = ab_ticket_id b, ab_contract_revision = wf_current_revision w,
      ab_attempt = wf_attempt w, ab_deliverable_key = ab_deliverable_key b, ab_repository_id = ab_repository_id b,
      ab_pr_number = ab_pr_number b, ab_state = BProposed, ab_head_sha = None, ab_base_sha = None,
      ab_integration_sha = None, ab_binding_version = 1\<rparr>"

definition put_binding ::
    "delivery_store \<Rightarrow> artifact_binding \<Rightarrow> string \<Rightarrow> int \<Rightarrow> int \<Rightarrow> event_row \<Rightarrow> instant \<Rightarrow> instant \<Rightarrow> delivery_store" where
  "put_binding st b repository expected_revision expected_version event now pg_now =
     (let current = find_row (\<lambda>r. same_slot (bw_binding r) b \<and> bw_active r) (db_bindings (ds_db st));
          kept = (case current of
              None \<Rightarrow> db_bindings (ds_db st)
            | Some r \<Rightarrow> update_rows (\<lambda>x. ab_id (bw_binding x) = ab_id (bw_binding r)) retired_binding (db_bindings (ds_db st)));
          row = \<lparr>bw_binding = b, bw_repository_name = repository, bw_active = True, bw_due_at = Some now,
            bw_last_attempt_at = None, bw_last_success_at = None, bw_success_confirmation = None, bw_attempt_confirmation = None\<rparr>
      in st\<lparr>ds_db := (ds_db st)
              \<lparr>db_bindings := kept @ [row],
               db_workflows := update_rows (\<lambda>w. wf_ticket_id w = ab_ticket_id b \<and> wf_current_revision w = expected_revision \<and>
                   wf_row_version w = expected_version)
                 (bound_workflow expected_version (current \<noteq> None) pg_now) (store_workflows st)\<rparr>,
            ds_events := ds_events st @ [event]\<rparr>)"

definition bind_pr ::
    "delivery_store \<Rightarrow> artifact_binding \<Rightarrow> string \<Rightarrow> string \<Rightarrow> int \<Rightarrow> int \<Rightarrow> string \<Rightarrow> string \<Rightarrow> uuid \<Rightarrow> instant \<Rightarrow> instant
     \<Rightarrow> (store_error, delivery_store \<times> artifact_binding) result" where
  "bind_pr st b repository actor expected_revision expected_version key request_digest fresh_id now pg_now =
     res_bind (event_replay (ds_events st) ''bind_pr'' actor key request_digest) (\<lambda>replay.
     case replay of
       Some (BindingStored b0) \<Rightarrow> Inr (st, b0)
     | Some (ContractStored _) \<Rightarrow> Inl InvalidStored
     | None \<Rightarrow>
     (case get_workflow (store_workflows st) (ab_ticket_id b) of
        None \<Rightarrow> Inl StoreContractNotFound
      | Some w \<Rightarrow>
     (case get_ticket (db_tickets (ds_db st)) (ab_ticket_id b) of
        None \<Rightarrow> Inl StoreTicketNotFound
      | Some t \<Rightarrow>
        res_bind (ensure (bindable t) TicketNotContractable) (\<lambda>_.
        res_bind (ensure (actor = tk_to_project t) StoreNotAllowed) (\<lambda>_.
        res_bind (ensure (expected_revision = wf_current_revision w \<and> expected_version = wf_row_version w)
          RevisionConflict) (\<lambda>_.
        case get_revision (ds_revisions st) (ab_ticket_id b, wf_current_revision w) of
          None \<Rightarrow> Inl RowMissing
        | Some rv \<Rightarrow>
        (case List.find (\<lambda>d. dl_key d = ab_deliverable_key b) (cr_deliverables (rw_contract rv)) of
           None \<Rightarrow> Inl UnknownDeliverable
         | Some d \<Rightarrow>
           res_bind (ensure (dl_repository_id d = Some (ab_repository_id b) \<and> dl_repository d = repository)
             RepositoryMismatch) (\<lambda>_.
           let b' = proposed_binding w b fresh_id in
           res_bind (ensure (valid_artifact_binding b') InvalidStored) (\<lambda>_.
           res_bind (ensure (fresh_id \<notin> ab_id ` bw_binding ` set (db_bindings (ds_db st))) ConstraintViolated) (\<lambda>_.
           Inr (put_binding st b' repository expected_revision expected_version
                  \<lparr>ev_operation = ''bind_pr'', ev_actor_project = actor, ev_ticket_id = ab_ticket_id b, ev_key = key,
                   ev_request_digest = request_digest, ev_result = BindingStored b',
                   ev_payload = [(''expected_revision'', expected_revision),
                     (''expected_workflow_version'', expected_version)]\<rparr> now pg_now, b')))))))))))"

definition refresh :: "delivery_store \<Rightarrow> uuid \<Rightarrow> instant \<Rightarrow> instant \<Rightarrow> delivery_store" where
  "refresh st i now pg_now =
     st\<lparr>ds_db := (ds_db st)
          \<lparr>db_workflows := update_rows (\<lambda>w. wf_ticket_id w = i)
             (\<lambda>w. w\<lparr>wf_context_due_at := Some now, wf_updated_at := pg_now\<rparr>) (store_workflows st),
           db_bindings := update_rows (\<lambda>r. ab_ticket_id (bw_binding r) = i \<and> bw_active r)
             (\<lambda>r. r\<lparr>bw_due_at := Some now\<rparr>) (db_bindings (ds_db st))\<rparr>\<rparr>"

section \<open>The dependency search\<close>

lemma leaves_set:
  assumes "(x, t) \<in> R\<^sup>*" and "x \<in> S" and "t \<notin> S"
  obtains y z where "y \<in> S" "(y, z) \<in> R" "z \<notin> S" "(z, t) \<in> R\<^sup>*"
proof -
  have "x \<in> S \<Longrightarrow> \<exists>y z. y \<in> S \<and> (y, z) \<in> R \<and> z \<notin> S \<and> (z, t) \<in> R\<^sup>*"
    using assms(1,3) by (induction rule: converse_rtrancl_induct) auto
  with assms(2) that show ?thesis by blast
qed

lemma set_upstreams: "set (upstreams es frontier) = {y. \<exists>x \<in> set frontier. (x, y) \<in> set es}"
  by (force simp: upstreams_def)

text \<open>The search keeps the target out of the seen nodes, whose successors are seen or in the frontier.\<close>

lemma cycle_search_cases:
  "target \<in> set frontier \<Longrightarrow> cycle_search es target seen frontier"
  "target \<notin> set frontier \<Longrightarrow> set frontier \<subseteq> set seen \<Longrightarrow> \<not> cycle_search es target seen frontier"
  "target \<notin> set frontier \<Longrightarrow> \<not> set frontier \<subseteq> set seen \<Longrightarrow> cycle_search es target seen frontier \<longleftrightarrow>
     cycle_search es target (seen @ filter (\<lambda>x. x \<notin> set seen) frontier) (upstreams es (filter (\<lambda>x. x \<notin> set seen) frontier))"
  by (subst cycle_search.simps, (auto simp: Let_def filter_empty_conv subset_iff) [1])+

lemma cycle_search_from:
  assumes "target \<notin> set seen" and "\<And>x y. x \<in> set seen \<Longrightarrow> (x, y) \<in> set es \<Longrightarrow> y \<in> set seen \<union> set frontier"
  shows "cycle_search es target seen frontier \<longleftrightarrow> (\<exists>x \<in> set frontier. (x, target) \<in> (set es)\<^sup>*)"
  using assms
proof (induction es target seen frontier rule: cycle_search.induct)
  case (1 es target seen frontier)
  let ?fresh = "filter (\<lambda>x. x \<notin> set seen) frontier"
  consider (hit) "target \<in> set frontier" | (over) "target \<notin> set frontier" "set frontier \<subseteq> set seen"
    | (on) "target \<notin> set frontier" "\<not> set frontier \<subseteq> set seen" by blast
  then show ?case
  proof cases
    case hit
    then show ?thesis using cycle_search_cases(1) by blast
  next
    case over
    have "(x, target) \<notin> (set es)\<^sup>*" if x: "x \<in> set frontier" for x
    proof
      assume "(x, target) \<in> (set es)\<^sup>*"
      then obtain y z where "y \<in> set seen" "(y, z) \<in> set es" "z \<notin> set seen"
        by (rule leaves_set [of _ _ _ "set seen"]) (use over x 1(2) in auto)
      with 1(3) over show False by blast
    qed
    with over show ?thesis using cycle_search_cases(2) by blast
  next
    case on
    have seen: "set seen \<union> set frontier = set (seen @ ?fresh)" by auto
    from on have nonempty: "frontier \<noteq> []" "?fresh \<noteq> []" by (auto simp: filter_empty_conv)
    have ih: "cycle_search es target (seen @ ?fresh) (upstreams es ?fresh) \<longleftrightarrow>
        (\<exists>x \<in> set (upstreams es ?fresh). (x, target) \<in> (set es)\<^sup>*)"
    proof (rule 1(1) [OF nonempty(1) on(1) refl nonempty(2)])
      show "target \<notin> set (seen @ ?fresh)" using 1(2) on(1) seen by blast
      fix x y assume "x \<in> set (seen @ ?fresh)" "(x, y) \<in> set es"
      then show "y \<in> set (seen @ ?fresh) \<union> set (upstreams es ?fresh)"
        using 1(3) [of x y] seen unfolding set_upstreams by (auto simp del: set_filter)
    qed
    have "(\<exists>x \<in> set (upstreams es ?fresh). (x, target) \<in> (set es)\<^sup>*)" if x: "x \<in> set frontier" "(x, target) \<in> (set es)\<^sup>*" for x
    proof -
      from x(2) obtain y z where yz: "y \<in> set (seen @ ?fresh)" "(y, z) \<in> set es" "z \<notin> set (seen @ ?fresh)"
          "(z, target) \<in> (set es)\<^sup>*"
        by (rule leaves_set [of _ _ _ "set (seen @ ?fresh)"]) (use x(1) seen on(1) 1(2) in blast)+
      then have "y \<notin> set seen" using 1(3) [of y z] seen by blast
      with yz(1) have "y \<in> set ?fresh" by simp
      with yz(2,4) show ?thesis unfolding set_upstreams by blast
    qed
    moreover have "\<exists>x \<in> set frontier. (x, target) \<in> (set es)\<^sup>*"
      if "x \<in> set (upstreams es ?fresh)" "(x, target) \<in> (set es)\<^sup>*" for x
      using that unfolding set_upstreams by (auto intro: converse_rtrancl_into_rtrancl)
    ultimately show ?thesis using cycle_search_cases(3) [OF on] ih by blast
  qed
qed

lemma cycle_search_iff:
  "cycle_search es target [] frontier \<longleftrightarrow> (\<exists>x \<in> set frontier. (x, target) \<in> (set es)\<^sup>*)"
  by (rule cycle_search_from) simp_all

text \<open>Edges out of a node that its new successors do not reach close no cycle.\<close>

lemma rtrancl_to_target: "(z, t) \<in> (E \<union> {t} \<times> D)\<^sup>* \<Longrightarrow> (z, t) \<in> E\<^sup>*"
  by (induction rule: converse_rtrancl_induct) (auto intro: converse_rtrancl_into_rtrancl)

lemma acyclic_add_edges:
  assumes "acyclic E" and "\<And>d. d \<in> set ds \<Longrightarrow> (d, t) \<notin> E\<^sup>*"
  shows "acyclic (E \<union> {t} \<times> set ds)"
  using assms(2)
proof (induction ds)
  case (Cons d ds)
  have "E \<union> {t} \<times> set (d # ds) = insert (t, d) (E \<union> {t} \<times> set ds)" by auto
  with Cons rtrancl_to_target [of d t E "set ds"] show ?case by (auto simp: acyclic_insert)
qed (use assms(1) in simp)

end
