(* ===== verification/Delivery_Contracts.thy ===== *)
theory Delivery_Contracts
  imports Delivery_Store
begin

text \<open>
  The delivery store as a transition system: its steps are the writes of \<open>Delivery_Store\<close>, the claim
  operations and the ticket transitions. Its invariant \<open>store_ok\<close> (an instance of \<open>invariant_system\<close>)
  says that the revisions of a contract are gapless up to the current one, that dependency rows are
  those of their contract, that the graph of the current contracts is acyclic, that at most one binding
  per slot is active and that an idempotency key names one event.
\<close>

section \<open>Effects of the writes\<close>

lemma set_contract_Inr:
  assumes "set_contract st c expected actor key digest now pg_now = Inr (st', c')"
  obtains (replayed) e where "e \<in> set (ds_events st)" "ev_operation e = ''set_contract''" "ev_actor_project e = actor"
      "ev_key e = key" "ev_request_digest e = digest" "ev_result e = ContractStored c'" "st' = st"
  | (stored) t content ctx rows where "c' = c" "get_ticket (db_tickets (ds_db st)) (cr_ticket_id c) = Some t"
      "contractable t" "actor = tk_from_project t" "validate_dependencies st c actor = Inr ()"
      "context_set_digest c = Inr ctx" "put_workflow (store_workflows st) c expected ctx now pg_now = Inr rows"
      "cr_content_digest c = Some content" "get_revision (ds_revisions st) (cr_ticket_id c, cr_contract_revision c) = None"
      "\<forall>e \<in> set (ds_events st). \<not> (ev_operation e = ''set_contract'' \<and> ev_actor_project e = actor \<and> ev_key e = key)"
      "st' = store_contract st c content ctx rows
         \<lparr>ev_operation = ''set_contract'', ev_actor_project = actor, ev_ticket_id = cr_ticket_id c, ev_key = key,
          ev_request_digest = digest, ev_result = ContractStored c, ev_payload = [(''expected_revision'', expected)]\<rparr>"
proof (cases "find_row (\<lambda>e. ev_operation e = ''set_contract'' \<and> ev_actor_project e = actor \<and> ev_key e = key) (ds_events st)")
  case None
  then have r: "event_replay (ds_events st) ''set_contract'' actor key digest = Inr None" by (simp add: event_replay_def)
  from None have new: "\<forall>e \<in> set (ds_events st).
      \<not> (ev_operation e = ''set_contract'' \<and> ev_actor_project e = actor \<and> ev_key e = key)"
    by (simp add: find_row_None)
  from assms obtain t ctx rows content where "get_ticket (db_tickets (ds_db st)) (cr_ticket_id c) = Some t"
    "contractable t" "actor = tk_from_project t" "validate_dependencies st c actor = Inr ()"
    "context_set_digest c = Inr ctx" "put_workflow (store_workflows st) c expected ctx now pg_now = Inr rows"
    "cr_content_digest c = Some content" "get_revision (ds_revisions st) (cr_ticket_id c, cr_contract_revision c) = None"
    "c' = c" "st' = store_contract st c content ctx rows
         \<lparr>ev_operation = ''set_contract'', ev_actor_project = actor, ev_ticket_id = cr_ticket_id c, ev_key = key,
          ev_request_digest = digest, ev_result = ContractStored c, ev_payload = [(''expected_revision'', expected)]\<rparr>"
    by (auto simp: set_contract_def r lift_store_def result_simps split: option.splits sum.splits)
  with new show ?thesis by (intro stored)
next
  case (Some e)
  then have e: "e \<in> set (ds_events st)" "ev_operation e = ''set_contract''" "ev_actor_project e = actor" "ev_key e = key"
    using find_row_Some by fastforce+
  with assms Some show ?thesis
    by (intro replayed [of e]) (auto simp: set_contract_def event_replay_def result_simps split: if_splits event_result.splits)
qed

lemma bind_pr_Inr:
  assumes "bind_pr st b repository actor expected_revision expected_version key digest fresh_id now pg_now = Inr (st', b')"
  obtains (replayed) e where "e \<in> set (ds_events st)" "ev_operation e = ''bind_pr''" "ev_actor_project e = actor"
      "ev_key e = key" "ev_request_digest e = digest" "ev_result e = BindingStored b'" "st' = st"
  | (stored) w t rv d event where "get_workflow (store_workflows st) (ab_ticket_id b) = Some w"
      "get_ticket (db_tickets (ds_db st)) (ab_ticket_id b) = Some t" "bindable t" "actor = tk_to_project t"
      "expected_revision = wf_current_revision w" "expected_version = wf_row_version w"
      "get_revision (ds_revisions st) (ab_ticket_id b, wf_current_revision w) = Some rv"
      "d \<in> set (cr_deliverables (rw_contract rv))" "dl_key d = ab_deliverable_key b"
      "dl_repository_id d = Some (ab_repository_id b)" "dl_repository d = repository"
      "b' = proposed_binding w b fresh_id" "valid_artifact_binding b'"
      "fresh_id \<notin> ab_id ` bw_binding ` set (db_bindings (ds_db st))"
      "\<forall>e \<in> set (ds_events st). \<not> (ev_operation e = ''bind_pr'' \<and> ev_actor_project e = actor \<and> ev_key e = key)"
      "ev_operation event = ''bind_pr''" "ev_actor_project event = actor" "ev_key event = key"
      "ev_request_digest event = digest" "ev_result event = BindingStored b'"
      "st' = put_binding st b' repository expected_revision expected_version event now pg_now"
proof (cases "find_row (\<lambda>e. ev_operation e = ''bind_pr'' \<and> ev_actor_project e = actor \<and> ev_key e = key) (ds_events st)")
  case None
  then have r: "event_replay (ds_events st) ''bind_pr'' actor key digest = Inr None" by (simp add: event_replay_def)
  from None have new: "\<forall>e \<in> set (ds_events st).
      \<not> (ev_operation e = ''bind_pr'' \<and> ev_actor_project e = actor \<and> ev_key e = key)"
    by (simp add: find_row_None)
  define event where "event = \<lparr>ev_operation = ''bind_pr'', ev_actor_project = actor, ev_ticket_id = ab_ticket_id b, ev_key = key,
     ev_request_digest = digest, ev_result = BindingStored b', ev_payload = [(''expected_revision'', expected_revision),
       (''expected_workflow_version'', expected_version)]\<rparr>"
  from assms obtain w t rv d where "get_workflow (store_workflows st) (ab_ticket_id b) = Some w"
      "get_ticket (db_tickets (ds_db st)) (ab_ticket_id b) = Some t" "bindable t" "actor = tk_to_project t"
      "expected_revision = wf_current_revision w" "expected_version = wf_row_version w"
      "get_revision (ds_revisions st) (ab_ticket_id b, wf_current_revision w) = Some rv"
      "List.find (\<lambda>d. dl_key d = ab_deliverable_key b) (cr_deliverables (rw_contract rv)) = Some d"
      "dl_repository_id d = Some (ab_repository_id b)" "dl_repository d = repository"
      "b' = proposed_binding w b fresh_id" "valid_artifact_binding b'"
      "fresh_id \<notin> ab_id ` bw_binding ` set (db_bindings (ds_db st))"
      "st' = put_binding st b' repository expected_revision expected_version event now pg_now"
    unfolding event_def bind_pr_def r by (auto simp: Let_def result_simps split: option.splits)
  with new show ?thesis by (intro stored) (auto simp: event_def find_Some_iff)
next
  case (Some e)
  then have e: "e \<in> set (ds_events st)" "ev_operation e = ''bind_pr''" "ev_actor_project e = actor" "ev_key e = key"
    using find_row_Some by fastforce+
  with assms Some show ?thesis
    by (intro replayed [of e]) (auto simp: bind_pr_def event_replay_def result_simps split: if_splits event_result.splits)
qed

section \<open>The invariant\<close>

definition generation :: "workflow_row \<Rightarrow> uuid \<times> int" where
  "generation w = (wf_ticket_id w, wf_current_revision w)"

definition revision_key :: "revision_row \<Rightarrow> uuid \<times> int" where
  "revision_key r = (rw_ticket_id r, rw_revision r)"

definition dependency_rows :: "delivery_store \<Rightarrow> uuid \<times> int \<Rightarrow> delivery_dependency list" where
  "dependency_rows st k = map dr_upstream (filter (\<lambda>d. (dr_ticket_id d, dr_revision d) = k) (ds_dependencies st))"

text \<open>Revisions: gapless from 1 to the current one of each workflow, with the dependency rows of their
  contracts, on workflows that exist.\<close>

definition revisions_ok :: "delivery_store \<Rightarrow> bool" where
  "revisions_ok st =
     (distinct (map wf_ticket_id (store_workflows st)) \<and> distinct (map revision_key (ds_revisions st)) \<and>
      (\<forall>t n. (t, n) \<in> generation ` set (store_workflows st) \<longrightarrow> 1 \<le> n) \<and>
      (\<forall>t r. (t, r) \<in> revision_key ` set (ds_revisions st) \<longleftrightarrow> (\<exists>n. (t, n) \<in> generation ` set (store_workflows st) \<and> 1 \<le> r \<and> r \<le> n)) \<and>
      (\<forall>rv \<in> set (ds_revisions st). revision_key rv = (cr_ticket_id (rw_contract rv), cr_contract_revision (rw_contract rv)) \<and>
         dependency_rows st (revision_key rv) = cr_dependencies (rw_contract rv)) \<and>
      (\<forall>d \<in> set (ds_dependencies st). (dr_ticket_id d, dr_revision d) \<in> revision_key ` set (ds_revisions st) \<and>
         dd_ticket_id (dr_upstream d) \<in> wf_ticket_id ` set (store_workflows st)))"

lemma revisions_okD:
  assumes "revisions_ok st"
  shows "distinct (map wf_ticket_id (store_workflows st))"
    and "distinct (map revision_key (ds_revisions st))"
    and "(t, n) \<in> generation ` set (store_workflows st) \<Longrightarrow> 1 \<le> n"
    and "(t, r) \<in> revision_key ` set (ds_revisions st) \<longleftrightarrow> (\<exists>n. (t, n) \<in> generation ` set (store_workflows st) \<and> 1 \<le> r \<and> r \<le> n)"
    and "rv \<in> set (ds_revisions st) \<Longrightarrow> revision_key rv = (cr_ticket_id (rw_contract rv), cr_contract_revision (rw_contract rv))"
    and "rv \<in> set (ds_revisions st) \<Longrightarrow> dependency_rows st (revision_key rv) = cr_dependencies (rw_contract rv)"
    and "d \<in> set (ds_dependencies st) \<Longrightarrow> (dr_ticket_id d, dr_revision d) \<in> revision_key ` set (ds_revisions st)"
    and "d \<in> set (ds_dependencies st) \<Longrightarrow> dd_ticket_id (dr_upstream d) \<in> wf_ticket_id ` set (store_workflows st)"
  using assms unfolding revisions_ok_def by blast+

definition slot :: "artifact_binding \<Rightarrow> uuid \<times> int \<times> int \<times> string" where
  "slot b = (ab_ticket_id b, ab_contract_revision b, ab_attempt b, ab_deliverable_key b)"

definition bindings_ok :: "binding_row list \<Rightarrow> bool" where
  "bindings_ok rows =
     (distinct (map (\<lambda>r. ab_id (bw_binding r)) rows) \<and> distinct (map (\<lambda>r. slot (bw_binding r)) (filter bw_active rows)))"

definition event_key :: "event_row \<Rightarrow> string \<times> string \<times> string" where
  "event_key e = (ev_operation e, ev_actor_project e, ev_key e)"

definition store_ok :: "delivery_store \<Rightarrow> bool" where
  "store_ok st =
     (revisions_ok st \<and> acyclic (set (current_edges st)) \<and> bindings_ok (db_bindings (ds_db st)) \<and>
      distinct (map event_key (ds_events st)))"

lemma current_edges_set:
  "set (current_edges st) = {(t, u). \<exists>d \<in> set (ds_dependencies st). dr_ticket_id d = t \<and> dd_ticket_id (dr_upstream d) = u \<and>
     (t, dr_revision d) \<in> generation ` set (store_workflows st)}"
  by (force simp: current_edges_def generation_def list_ex_iff)

text \<open>Writes that keep the generations and only retire bindings keep the invariant.\<close>

lemma store_ok_frame:
  assumes "store_ok st" and "map generation (db_workflows db) = map generation (store_workflows st)"
    and "bindings_ok (db_bindings db)"
  shows "store_ok (st\<lparr>ds_db := db\<rparr>)"
proof -
  have fst: "wf_ticket_id = fst \<circ> generation" by (simp add: fun_eq_iff generation_def)
  have gens: "generation ` set (db_workflows db) = generation ` set (store_workflows st)" using arg_cong [OF assms(2), of set] by simp
  then have ids: "wf_ticket_id ` set (db_workflows db) = wf_ticket_id ` set (store_workflows st)"
    unfolding fst by (metis image_comp)
  have maps: "map wf_ticket_id (db_workflows db) = map wf_ticket_id (store_workflows st)"
    unfolding fst using assms(2) by (metis map_map)
  have fields: "store_workflows (st\<lparr>ds_db := db\<rparr>) = db_workflows db" "ds_revisions (st\<lparr>ds_db := db\<rparr>) = ds_revisions st"
    "ds_dependencies (st\<lparr>ds_db := db\<rparr>) = ds_dependencies st" by (simp_all add: store_workflows_def)
  have "revisions_ok (st\<lparr>ds_db := db\<rparr>) = revisions_ok st"
    unfolding revisions_ok_def dependency_rows_def fields gens ids maps by (rule refl)
  moreover have "set (current_edges (st\<lparr>ds_db := db\<rparr>)) = set (current_edges st)"
    using gens by (simp add: current_edges_set store_workflows_def)
  ultimately show ?thesis using assms(1,3) by (simp add: store_ok_def)
qed

lemma store_ok_event:
  assumes "store_ok st" and "event_key e \<notin> event_key ` set (ds_events st)"
  shows "store_ok (st\<lparr>ds_events := ds_events st @ [e]\<rparr>)"
proof -
  let ?st = "st\<lparr>ds_events := ds_events st @ [e]\<rparr>"
  have fields: "store_workflows ?st = store_workflows st" "ds_revisions ?st = ds_revisions st"
    "ds_dependencies ?st = ds_dependencies st" by (simp_all add: store_workflows_def)
  have "revisions_ok ?st = revisions_ok st" unfolding revisions_ok_def dependency_rows_def fields by (rule refl)
  moreover have "current_edges ?st = current_edges st" unfolding current_edges_def fields by (rule refl)
  ultimately show ?thesis using assms by (simp add: store_ok_def)
qed

lemma bindings_ok_update:
  assumes "bindings_ok rows" and "\<And>r. ab_id (bw_binding (f r)) = ab_id (bw_binding r)"
    and "\<And>r. slot (bw_binding (f r)) = slot (bw_binding r)" and "\<And>r. bw_active (f r) \<Longrightarrow> bw_active r"
  shows "bindings_ok (update_rows p f rows)"
proof -
  have "distinct (map (\<lambda>r. slot (bw_binding r)) (filter bw_active (update_rows p f rows)))"
    using assms(1) unfolding bindings_ok_def
  proof (elim conjE, induction rows)
    case (Cons r rows)
    have "(\<lambda>r. slot (bw_binding r)) ` set (filter bw_active (update_rows p f rows)) \<subseteq> (\<lambda>r. slot (bw_binding r)) ` set (filter bw_active rows)"
      using assms(3,4) by (force simp: set_update_rows)
    with Cons assms(3,4) show ?case by (auto simp: update_rows_def split: if_splits)
  qed (simp add: update_rows_def)
  with assms(1,2) show ?thesis by (simp add: bindings_ok_def map_update_rows)
qed

section \<open>Contracts keep the invariant\<close>

lemma put_workflow_Inr:
  assumes "put_workflow rows c expected digest now pg_now = Inr rows'" and "distinct (map wf_ticket_id rows)"
  shows "distinct (map wf_ticket_id rows')"
    and "generation ` set rows' = {g \<in> generation ` set rows. fst g \<noteq> cr_ticket_id c} \<union> {(cr_ticket_id c, cr_contract_revision c)}"
    and "(cr_ticket_id c, n) \<in> generation ` set rows \<Longrightarrow> cr_contract_revision c = n + 1"
    and "cr_ticket_id c \<notin> wf_ticket_id ` set rows \<Longrightarrow> cr_contract_revision c = 1"
proof -
  let ?t = "cr_ticket_id c"
  consider (new) "get_workflow rows ?t = None" "cr_contract_revision c = 1" "rows' = rows @ [new_workflow c digest now pg_now]"
    | (amended) w where "get_workflow rows ?t = Some w" "cr_contract_revision c = wf_current_revision w + 1"
      "rows' = update_rows (\<lambda>x. wf_ticket_id x = ?t) (amended_workflow c digest now pg_now) rows"
    using assms(1) by (auto simp: put_workflow_def split: option.splits if_splits)
  then have "distinct (map wf_ticket_id rows') \<and>
    generation ` set rows' = {g \<in> generation ` set rows. fst g \<noteq> ?t} \<union> {(?t, cr_contract_revision c)} \<and>
    (\<forall>n. (?t, n) \<in> generation ` set rows \<longrightarrow> cr_contract_revision c = n + 1) \<and>
    (?t \<notin> wf_ticket_id ` set rows \<longrightarrow> cr_contract_revision c = 1)"
  proof cases
    case new
    then have "?t \<notin> wf_ticket_id ` set rows" by (simp add: workflows.get_row_None)
    then have "{g \<in> generation ` set rows. fst g \<noteq> ?t} = generation ` set rows" "\<forall>n. (?t, n) \<notin> generation ` set rows"
      by (auto simp: generation_def image_iff)
    with new \<open>?t \<notin> wf_ticket_id ` set rows\<close> assms(2) show ?thesis by (simp add: new_workflow_def generation_def)
  next
    case (amended w)
    then have w: "w \<in> set rows" "wf_ticket_id w = ?t" using workflows.get_row_Some by blast+
    have only: "x = w" if "x \<in> set rows" "wf_ticket_id x = ?t" for x
      using workflows.get_row_eqI [OF assms(2) that(1)] that(2) amended(1) by simp
    have "map wf_ticket_id rows' = map wf_ticket_id rows"
      using amended(3) by (simp add: map_update_rows amended_workflow_def)
    moreover have "generation ` set rows' = {g \<in> generation ` set rows. fst g \<noteq> ?t} \<union> {(?t, cr_contract_revision c)}"
    proof -
      have "map generation rows' = map (\<lambda>x. if wf_ticket_id x = ?t then (?t, cr_contract_revision c) else generation x) rows"
        unfolding amended(3) by (simp add: update_rows_def amended_workflow_def generation_def)
      from arg_cong [OF this, of set]
      have "generation ` set rows' = (\<lambda>x. if wf_ticket_id x = ?t then (?t, cr_contract_revision c) else generation x) ` set rows"
        by simp
      also have "\<dots> = {g \<in> generation ` set rows. fst g \<noteq> ?t} \<union> {(?t, cr_contract_revision c)}"
        using w by (force simp: generation_def)
      finally show ?thesis .
    qed
    moreover have "\<forall>n. (?t, n) \<in> generation ` set rows \<longrightarrow> cr_contract_revision c = n + 1"
      using only amended(2) by (auto simp: generation_def)
    moreover have "?t \<in> wf_ticket_id ` set rows" using w by (metis image_eqI)
    ultimately show ?thesis using assms(2) by simp
  qed
  then show "distinct (map wf_ticket_id rows')"
    "generation ` set rows' = {g \<in> generation ` set rows. fst g \<noteq> ?t} \<union> {(?t, cr_contract_revision c)}"
    "(?t, n) \<in> generation ` set rows \<Longrightarrow> cr_contract_revision c = n + 1"
    "?t \<notin> wf_ticket_id ` set rows \<Longrightarrow> cr_contract_revision c = 1" by blast+
qed

lemma validate_dependencies_Inr:
  assumes "validate_dependencies st c actor = Inr ()" and "d \<in> set (cr_dependencies c)"
  shows "dd_ticket_id d \<in> wf_ticket_id ` set (store_workflows st)"
    and "(dd_ticket_id d, cr_ticket_id c) \<notin> (set (current_edges st))\<^sup>*"
proof -
  from assms(1) obtain us where us: "res_map (check_dependency st actor) (cr_dependencies c) = Inr us"
    and search: "\<not> cycle_search (current_edges st) (cr_ticket_id c) [] (remdups (map dd_ticket_id (cr_dependencies c)))"
    by (auto simp: validate_dependencies_def result_simps)
  from us assms(2) have "check_dependency st actor d = Inr ()"
    by (fastforce simp: res_map_Inr_iff list_all2_conv_all_nth in_set_conv_nth)
  then show "dd_ticket_id d \<in> wf_ticket_id ` set (store_workflows st)"
    using workflows.get_row_None [of "store_workflows st" "dd_ticket_id d"]
    by (auto simp: check_dependency_def split: option.splits)
  show "(dd_ticket_id d, cr_ticket_id c) \<notin> (set (current_edges st))\<^sup>*"
    using search assms(2) by (simp add: cycle_search_iff)
qed

lemma store_contract_fields [simp]:
  "store_workflows (store_contract st c content ctx rows event) = rows"
  "db_bindings (ds_db (store_contract st c content ctx rows event)) = db_bindings (ds_db st)"
  "ds_events (store_contract st c content ctx rows event) = ds_events st @ [event]"
  "revision_key ` set (ds_revisions (store_contract st c content ctx rows event)) =
     insert (cr_ticket_id c, cr_contract_revision c) (revision_key ` set (ds_revisions st))"
  "map revision_key (ds_revisions (store_contract st c content ctx rows event)) =
     map revision_key (ds_revisions st) @ [(cr_ticket_id c, cr_contract_revision c)]"
  "set (ds_dependencies (store_contract st c content ctx rows event)) = set (ds_dependencies st) \<union>
     (\<lambda>d. \<lparr>dr_ticket_id = cr_ticket_id c, dr_revision = cr_contract_revision c, dr_upstream = d\<rparr>) ` set (cr_dependencies c)"
  "dependency_rows (store_contract st c content ctx rows event) k = dependency_rows st k @
     (if k = (cr_ticket_id c, cr_contract_revision c) then cr_dependencies c else [])"
  by (auto simp: store_contract_def store_workflows_def revision_key_def dependency_rows_def comp_def filter_map)

lemma revisions_ok_store_contract:
  assumes ok: "revisions_ok st" and deps: "validate_dependencies st c actor = Inr ()"
    and put: "put_workflow (store_workflows st) c expected ctx now pg_now = Inr rows"
    and new: "get_revision (ds_revisions st) (cr_ticket_id c, cr_contract_revision c) = None"
  shows "revisions_ok (store_contract st c content ctx rows event)"
proof -
  let ?t = "cr_ticket_id c" and ?r = "cr_contract_revision c" and ?st = "store_contract st c content ctx rows event"
  let ?gens = "generation ` set (store_workflows st)" and ?keys = "revision_key ` set (ds_revisions st)"
  have ids: "distinct (map wf_ticket_id (store_workflows st))" using ok by (rule revisions_okD)
  note put' = put_workflow_Inr [OF put ids]
  have new_key: "(?t, ?r) \<notin> ?keys" using new by (auto simp: revisions.get_row_None revision_key_def image_iff)
  have keys: "(t, r) \<in> ?keys \<longleftrightarrow> (\<exists>n. (t, n) \<in> ?gens \<and> 1 \<le> r \<and> r \<le> n)" for t r using ok by (rule revisions_okD)
  have gens1: "(t, n) \<in> ?gens \<Longrightarrow> 1 \<le> n" for t n using ok by (rule revisions_okD)
  have fst_gens: "wf_ticket_id ` set ws = fst ` generation ` set ws" for ws by (force simp: generation_def)
  have kept: "wf_ticket_id ` set (store_workflows st) \<subseteq> wf_ticket_id ` set rows" unfolding fst_gens put'(2) by force
  show ?thesis
    unfolding revisions_ok_def store_contract_fields
  proof (intro conjI allI ballI)
    show "distinct (map wf_ticket_id rows)" by (rule put'(1))
    show "distinct (map revision_key (ds_revisions st) @ [(?t, ?r)])"
      using revisions_okD(2) [OF ok] new_key by simp
    show "(t, n) \<in> generation ` set rows \<longrightarrow> 1 \<le> n" for t n
    proof (cases "?t \<in> wf_ticket_id ` set (store_workflows st)")
      case True
      then obtain m where "(?t, m) \<in> ?gens" by (auto simp: generation_def)
      with put'(3) [of m] gens1 show ?thesis unfolding put'(2) by fastforce
    next
      case False
      then show ?thesis using put'(4) gens1 unfolding put'(2) by auto
    qed
    show "(t, r) \<in> insert (?t, ?r) ?keys \<longleftrightarrow> (\<exists>n. (t, n) \<in> generation ` set rows \<and> 1 \<le> r \<and> r \<le> n)" for t r
    proof (cases "t = ?t")
      case True
      show ?thesis
      proof (cases "?t \<in> wf_ticket_id ` set (store_workflows st)")
        case old: True
        then obtain m where m: "(?t, m) \<in> ?gens" by (auto simp: generation_def)
        then have only: "(?t, n) \<in> ?gens \<longleftrightarrow> n = m" for n using put'(3) [of m] put'(3) [of n] by auto
        show ?thesis unfolding put'(2) insert_iff keys True using only put'(3) [OF m] gens1 [OF m] by auto
      next
        case False
        then have "(?t, n) \<notin> ?gens" for n by (force simp: generation_def)
        with put'(4) [OF False] True show ?thesis unfolding put'(2) insert_iff keys by auto
      qed
    next
      case False
      then show ?thesis unfolding put'(2) insert_iff keys by auto
    qed
    fix d assume d: "d \<in> set (ds_dependencies st) \<union>
      (\<lambda>d. \<lparr>dr_ticket_id = ?t, dr_revision = ?r, dr_upstream = d\<rparr>) ` set (cr_dependencies c)"
    with revisions_okD(7) [OF ok] show "(dr_ticket_id d, dr_revision d) \<in> insert (?t, ?r) ?keys" by auto
    from d show "dd_ticket_id (dr_upstream d) \<in> wf_ticket_id ` set rows"
      using revisions_okD(8) [OF ok] kept validate_dependencies_Inr(1) [OF deps] by auto
  next
    fix rv assume rv: "rv \<in> set (ds_revisions ?st)"
    have none: "dependency_rows st (?t, ?r) = []"
      using revisions_okD(7) [OF ok] new_key by (force simp: dependency_rows_def filter_empty_conv)
    from rv consider "rv \<in> set (ds_revisions st)" | "revision_key rv = (?t, ?r)" "rw_contract rv = c"
      by (auto simp: store_contract_def revision_key_def)
    then show "revision_key rv = (cr_ticket_id (rw_contract rv), cr_contract_revision (rw_contract rv))"
      "dependency_rows st (revision_key rv) @ (if revision_key rv = (?t, ?r) then cr_dependencies c else []) = cr_dependencies (rw_contract rv)"
      using revisions_okD(5,6) [OF ok] new_key none by (cases; force)+
  qed
qed

lemma current_edges_store_contract:
  assumes ok: "revisions_ok st" and put: "put_workflow (store_workflows st) c expected ctx now pg_now = Inr rows"
    and new: "get_revision (ds_revisions st) (cr_ticket_id c, cr_contract_revision c) = None"
  shows "set (current_edges (store_contract st c content ctx rows event)) =
    {e \<in> set (current_edges st). fst e \<noteq> cr_ticket_id c} \<union> {cr_ticket_id c} \<times> set (map dd_ticket_id (cr_dependencies c))"
proof -
  have "(cr_ticket_id c, cr_contract_revision c) \<notin> revision_key ` set (ds_revisions st)"
    using new by (auto simp: revisions.get_row_None revision_key_def image_iff)
  then have old: "(dr_ticket_id d, dr_revision d) \<noteq> (cr_ticket_id c, cr_contract_revision c)" if "d \<in> set (ds_dependencies st)" for d
    using revisions_okD(7) [OF ok that] by metis
  show ?thesis
    unfolding current_edges_set store_contract_fields put_workflow_Inr(2) [OF put revisions_okD(1) [OF ok]]
  proof (rule set_eqI, clarsimp)
    fix x y
    show "(\<exists>d \<in> set (ds_dependencies st) \<union>
             (\<lambda>d. \<lparr>dr_ticket_id = cr_ticket_id c, dr_revision = cr_contract_revision c, dr_upstream = d\<rparr>) ` set (cr_dependencies c).
            dr_ticket_id d = x \<and> dd_ticket_id (dr_upstream d) = y \<and>
            (x = cr_ticket_id c \<and> dr_revision d = cr_contract_revision c \<or>
             (x, dr_revision d) \<in> generation ` set (store_workflows st) \<and> x \<noteq> cr_ticket_id c)) \<longleftrightarrow>
          (\<exists>d \<in> set (ds_dependencies st). dr_ticket_id d = x \<and> dd_ticket_id (dr_upstream d) = y \<and>
             (x, dr_revision d) \<in> generation ` set (store_workflows st)) \<and> x \<noteq> cr_ticket_id c \<or>
          x = cr_ticket_id c \<and> y \<in> dd_ticket_id ` set (cr_dependencies c)"
      using old by (cases "x = cr_ticket_id c") (auto simp: bex_Un)
  qed
qed

lemma store_ok_set_contract:
  assumes ok: "store_ok st" and set: "set_contract st c expected actor key digest now pg_now = Inr (st', c')"
  shows "store_ok st'"
  using set
proof (cases rule: set_contract_Inr)
  case (stored t content ctx rows)
  from ok have ok': "revisions_ok st" "acyclic (set (current_edges st))" by (simp_all add: store_ok_def)
  have "acyclic (set (current_edges st) \<union> {cr_ticket_id c} \<times> set (map dd_ticket_id (cr_dependencies c)))"
    using validate_dependencies_Inr(2) [OF stored(5)] by (intro acyclic_add_edges [OF ok'(2)]) auto
  then have "acyclic (set (current_edges st'))"
    unfolding stored(11) current_edges_store_contract [OF ok'(1) stored(7,9)] by (rule acyclic_subset) auto
  moreover have "revisions_ok st'"
    unfolding stored(11) by (rule revisions_ok_store_contract [OF ok'(1) stored(5,7,9)])
  moreover have "distinct (map event_key (ds_events st'))"
    using ok stored(10) unfolding stored(11) by (auto simp: store_ok_def event_key_def)
  ultimately show ?thesis using ok unfolding stored(11) by (simp add: store_ok_def)
qed (use ok in simp)

section \<open>Bindings and the other writes\<close>

lemma same_slot_iff: "same_slot a b \<longleftrightarrow> slot a = slot b"
  by (auto simp: same_slot_def slot_def)

lemma retired_binding_simps [simp]:
  "ab_id (bw_binding (retired_binding r)) = ab_id (bw_binding r)" "slot (bw_binding (retired_binding r)) = slot (bw_binding r)"
  "\<not> bw_active (retired_binding r)"
  by (simp_all add: retired_binding_def slot_def)

lemma bindings_ok_put:
  assumes ok: "bindings_ok rows" and fresh: "ab_id (bw_binding row) \<notin> ab_id ` bw_binding ` set rows"
    and kept: "kept = (case find_row (\<lambda>r. same_slot (bw_binding r) (bw_binding row) \<and> bw_active r) rows of
        None \<Rightarrow> rows | Some r \<Rightarrow> update_rows (\<lambda>x. ab_id (bw_binding x) = ab_id (bw_binding r)) retired_binding rows)"
  shows "bindings_ok (kept @ [row])"
proof -
  have ids: "map (\<lambda>r. ab_id (bw_binding r)) kept = map (\<lambda>r. ab_id (bw_binding r)) rows"
    unfolding kept by (auto simp: map_update_rows split: option.split)
  have "bindings_ok kept" unfolding kept using ok by (auto intro: bindings_ok_update split: option.split)
  moreover have "slot (bw_binding r) \<noteq> slot (bw_binding row)" if r: "r \<in> set kept" "bw_active r" for r
  proof (cases "find_row (\<lambda>r. same_slot (bw_binding r) (bw_binding row) \<and> bw_active r) rows")
    case None
    with r(1) have "r \<in> set rows" unfolding kept by simp
    with None r(2) show ?thesis by (auto simp: find_row_None same_slot_iff)
  next
    case (Some q)
    then have q: "q \<in> set rows" "slot (bw_binding q) = slot (bw_binding row)" "bw_active q"
      using find_row_Some by (fastforce simp: same_slot_iff)+
    have "set kept = retired_binding ` {x \<in> set rows. ab_id (bw_binding x) = ab_id (bw_binding q)} \<union>
        {x \<in> set rows. ab_id (bw_binding x) \<noteq> ab_id (bw_binding q)}"
      using Some by (simp add: kept set_update_rows)
    with r(1) have "r \<in> retired_binding ` {x \<in> set rows. ab_id (bw_binding x) = ab_id (bw_binding q)} \<or>
        r \<in> set rows \<and> ab_id (bw_binding r) \<noteq> ab_id (bw_binding q)" by (simp only: Un_iff mem_Collect_eq)
    moreover have "r \<notin> retired_binding ` X" for X using r(2) by (metis imageE retired_binding_simps(3))
    ultimately have "r \<in> set rows" "r \<noteq> q" by blast+
    moreover have "inj_on (\<lambda>r. slot (bw_binding r)) (set (filter bw_active rows))"
      using ok by (simp add: bindings_ok_def distinct_map)
    ultimately show ?thesis using q r(2) inj_onD [of "\<lambda>r. slot (bw_binding r)" "set (filter bw_active rows)" r q] by auto
  qed
  moreover have "ab_id (bw_binding row) \<notin> (\<lambda>r. ab_id (bw_binding r)) ` set kept"
    using fresh ids by (metis image_image set_map)
  ultimately show ?thesis unfolding bindings_ok_def by (simp add: image_iff) metis
qed

lemma bound_workflow_generation [simp]: "generation (bound_workflow v superseding pg_now w) = generation w"
  by (simp add: bound_workflow_def generation_def Let_def)

lemma store_ok_bind_pr:
  assumes ok: "store_ok st"
    and bind: "bind_pr st b repository actor expected_revision expected_version key digest fresh_id now pg_now = Inr (st', b')"
  shows "store_ok st'"
  using bind
proof (cases rule: bind_pr_Inr)
  case (stored w t rv d event)
  define db where "db = ds_db st'"
  have st': "st' = (st\<lparr>ds_db := db\<rparr>)\<lparr>ds_events := ds_events st @ [event]\<rparr>"
    unfolding db_def stored(21) by (simp add: put_binding_def Let_def)
  have "bindings_ok (db_bindings db)"
    unfolding db_def stored(21) put_binding_def Let_def
    using ok stored(12,14) by (simp, intro bindings_ok_put) (auto simp: store_ok_def proposed_binding_def)
  moreover have "map generation (db_workflows db) = map generation (store_workflows st)"
    unfolding db_def stored(21) by (simp add: put_binding_def Let_def map_update_rows)
  ultimately have "store_ok (st\<lparr>ds_db := db\<rparr>)" by (intro store_ok_frame [OF ok])
  moreover have "event_key event \<notin> event_key ` set (ds_events st)" using stored(15-18) by (auto simp: event_key_def)
  ultimately show ?thesis unfolding st' using store_ok_event [of "st\<lparr>ds_db := db\<rparr>" event] by simp
qed (use ok in simp)

lemma store_ok_refresh: "store_ok st \<Longrightarrow> store_ok (refresh st i now pg_now)"
  unfolding refresh_def
  by (rule store_ok_frame) (auto simp: map_update_rows generation_def store_ok_def intro!: bindings_ok_update)

lemma claim_step_generations:
  assumes "claim_step tz rows rows'"
  shows "map generation rows' = map generation rows"
  using assms
proof cases
  case (acquired enabled loaded i actor owner kind version assessment ttl token pg_now c)
  then show ?thesis by (cases rule: acquire_Inr) (simp add: map_update_rows claim_row_def generation_def)
next
  case (renewed loaded i cred ttl pg_now st)
  then show ?thesis by (cases rule: renew_Inr) (simp add: map_update_rows generation_def)
next
  case (released loaded i cred pg_now st)
  then show ?thesis by (cases rule: release_Inr) (simp add: map_update_rows cleared_claim_def generation_def)
next
  case (mutated i m pg_now)
  then show ?thesis by (simp add: map_update_rows mutate_workflow_def generation_def Let_def)
qed

lemma store_ok_transition:
  assumes "store_ok st" and "apply_transition tz (ds_db st) loaded r pg_now = Inr (db', t)"
  shows "store_ok (st\<lparr>ds_db := db'\<rparr>)"
  using assms(2)
proof (cases rule: apply_transition_Inr)
  case (1 t0 mutation)
  have b: "bindings_ok (db_bindings (ds_db st))" using assms(1) by (simp add: store_ok_def)
  from 1(6) have "map generation (db_workflows db') = map generation (store_workflows st) \<and> bindings_ok (db_bindings db')"
    using b by (auto simp: store_workflows_def map_update_rows mutate_workflow_def generation_def Let_def slot_def
      intro!: bindings_ok_update)
  then show ?thesis by (intro store_ok_frame [OF assms(1)]) simp_all
qed

section \<open>The system\<close>

inductive store_step :: "(int \<Rightarrow> instant) \<Rightarrow> delivery_store \<Rightarrow> delivery_store \<Rightarrow> bool" for tz where
  contract_set: "set_contract st c expected actor key digest now pg_now = Inr (st', c') \<Longrightarrow> store_step tz st st'"
| pr_bound: "bind_pr st b repository actor expected_revision expected_version key digest fresh_id now pg_now = Inr (st', b') \<Longrightarrow>
    store_step tz st st'"
| refreshed: "store_step tz st (refresh st i now pg_now)"
| claim_moved: "claim_step tz (store_workflows st) rows \<Longrightarrow> store_step tz st (st\<lparr>ds_db := (ds_db st)\<lparr>db_workflows := rows\<rparr>\<rparr>)"
| ticket_moved: "apply_transition tz (ds_db st) loaded r pg_now = Inr (db', t) \<Longrightarrow> store_step tz st (st\<lparr>ds_db := db'\<rparr>)"
| ticket_created: "fresh_id \<notin> tk_id ` set (db_tickets (ds_db st)) \<Longrightarrow> service_create projects (ds_db st) data fresh_id pg_now = Inr (db', t) \<Longrightarrow> store_step tz st (st\<lparr>ds_db := db'\<rparr>)"

definition store_start :: "delivery_store \<Rightarrow> bool" where
  "store_start st =
     (db_workflows (ds_db st) = [] \<and> db_bindings (ds_db st) = [] \<and> ds_revisions st = [] \<and> ds_dependencies st = [] \<and>
      ds_events st = [] \<and> ds_snapshots st = [] \<and> ds_confirmations st = [] \<and> ds_receipts st = [] \<and>
      ds_attestations st = [] \<and> ds_slots st = [] \<and> ds_anchors st = [] \<and> ds_slot_history st = [])"

lemma store_ok_step:
  assumes "store_ok st" and "store_step tz st st'"
  shows "store_ok st'"
  using assms(2)
proof cases
  case (claim_moved rows)
  then show ?thesis using assms(1) claim_step_generations [OF claim_moved(2)] unfolding claim_moved(1)
    by (intro store_ok_frame) (simp_all add: store_ok_def)
next
  case (ticket_created projects data fresh_id pg_now db' t)
  then have "db_workflows db' = store_workflows st" "db_bindings db' = db_bindings (ds_db st)"
    by (auto simp: service_create_def store_workflows_def Let_def split: if_splits)
  then show ?thesis using assms(1) unfolding ticket_created(1) by (intro store_ok_frame) (auto simp: store_ok_def)
next
  case contract_set
  then show ?thesis using assms(1) by (rule store_ok_set_contract [rotated])
next
  case pr_bound
  then show ?thesis using assms(1) by (rule store_ok_bind_pr [rotated])
next
  case refreshed
  then show ?thesis using assms(1) by (simp add: store_ok_refresh)
next
  case ticket_moved
  then show ?thesis using assms(1) store_ok_transition by simp
qed

interpretation delivery_stores: invariant_system store_start "store_step tz" store_ok
proof unfold_locales
  show "store_ok st" if "store_start st" for st
    using that by (auto simp: store_start_def store_ok_def revisions_ok_def bindings_ok_def current_edges_def store_workflows_def acyclic_def)
qed (rule store_ok_step)

end
