(* ===== verification/Delivery_Loading.thy ===== *)
theory Delivery_Loading
  imports Delivery_Contracts "HOL-Library.Product_Lexorder"
begin

text \<open>
  The reads of \<open>src/brain_v42/repositories/pg_delivery.py\<close>: \<open>load_inputs\<close> with the hydration of bindings,
  receipts, dependencies and context predicates, \<open>load_locked_decision_inputs\<close>, \<open>get_view\<close> and
  \<open>resolve_context_references\<close>. Together with \<open>Ticket_Lifecycle\<close> and \<open>Delivery_Claims\<close> they give the
  decisions their inputs, which those theories take as an argument.

  \<^item> A query on a key is \<open>find_row\<close>; \<open>one()\<close> on an absent row is \<open>RowMissing\<close>, a stored value that its
    model refuses is \<open>InvalidStored\<close>. A join drops the rows without a partner, as the inner join does.
  \<^item> The context columns of an entity row are held as the JSON text that the code renders.
\<close>

section \<open>Context references\<close>

datatype source_reference =
    BrainEntity entity_type uuid bool
  | SourceDocument int string string bool
  | SourceUrl string bool

text \<open>The order of \<open>_CONTEXT_TABLES\<close>.\<close>

definition context_table_rank :: "entity_type \<Rightarrow> nat" where
  "context_table_rank e = (case e of EDecision \<Rightarrow> 0 | ELearning \<Rightarrow> 1 | ESnippet \<Rightarrow> 2 | ERunbook \<Rightarrow> 3 | EAdr \<Rightarrow> 4 | EPlan \<Rightarrow> 5)"

definition get_entity :: "entity_row list \<Rightarrow> entity_type \<times> uuid \<Rightarrow> entity_row option" where
  "get_entity rows k = find_row (\<lambda>e. (en_type e, en_id e) = k) rows"

interpretation entities: keyed_table "\<lambda>e. (en_type e, en_id e)" get_entity
  by unfold_locales (simp add: get_entity_def)

definition brain_digest :: "entity_type \<Rightarrow> uuid \<Rightarrow> string \<Rightarrow> (canonical_error, string) result" where
  "brain_digest et i content =
     canonical_digest (pobj [(''entity_type'', pstr (entity_type_text et)), (''entity_id'', pstr i),
       (''content'', pstr content)]) Result"

definition brain_references :: "source_reference list \<Rightarrow> (entity_type \<times> uuid \<times> bool) list" where
  "brain_references refs =
     sort_key (\<lambda>(et, i, _). (context_table_rank et, i))
       (List.map_filter (\<lambda>r. case r of BrainEntity et i required \<Rightarrow> Some (et, i, required) | _ \<Rightarrow> None) refs)"

definition pin_reference ::
    "entity_row list \<Rightarrow> entity_type \<times> uuid \<times> bool \<Rightarrow> (store_error, (entity_type \<times> uuid) \<times> context_reference) result" where
  "pin_reference rows = (\<lambda>(et, i, required).
     case get_entity rows (et, i) of
       None \<Rightarrow> Inl ContextUnavailable
     | Some e \<Rightarrow>
         res_bind (lift_store (brain_digest et i (en_content e))) (\<lambda>digest.
         let p = PinnedBrainEntity et i required (en_content e) digest in
         res_bind (ensure (valid_context_reference p) InvalidStored) (\<lambda>_. Inr ((et, i), p))))"

definition resolve_context_references ::
    "entity_row list \<Rightarrow> source_reference list \<Rightarrow> (store_error, context_reference list) result" where
  "resolve_context_references rows refs =
     res_bind (res_map (pin_reference rows) (brain_references refs)) (\<lambda>pinned.
     res_map (\<lambda>r. case r of
         BrainEntity et i _ \<Rightarrow> (case map_of (rev pinned) (et, i) of None \<Rightarrow> Inl RowMissing | Some p \<Rightarrow> Inr p)
       | SourceDocument rid sha path required \<Rightarrow> Inr (RepositoryDocument rid sha path required)
       | SourceUrl url required \<Rightarrow> Inr (UrlReference url required)) refs)"

section \<open>Bindings and receipts\<close>

definition get_confirmation :: "delivery_store \<Rightarrow> uuid option \<Rightarrow> confirmation_row option" where
  "get_confirmation st i = Option.bind i (\<lambda>k. find_row (\<lambda>c. cf_id c = k) (ds_confirmations st))"

text \<open>A confirmation joined with its snapshot.\<close>

definition success_proof :: "delivery_store \<Rightarrow> uuid option \<Rightarrow> (confirmation_row \<times> snapshot_row) option" where
  "success_proof st i =
     Option.bind (get_confirmation st i) (\<lambda>c.
     Option.bind (cf_snapshot_id c) (\<lambda>k.
     map_option (Pair c) (find_row (\<lambda>s. sn_id s = k) (ds_snapshots st))))"

definition observation_of :: "(confirmation_row \<times> snapshot_row) option \<Rightarrow> (store_error, observation_confirmation option) result" where
  "observation_of success = (case success of
       None \<Rightarrow> Inr None
     | Some (c, s) \<Rightarrow> (case sn_evidence s of
           ContextSnapshot _ \<Rightarrow> Inl InvalidStored
         | PullRequestSnapshot ev \<Rightarrow>
             Inr (Some \<lparr>oc_id = cf_id c, oc_evidence = Some ev,
               oc_collection_started_at = Aware (cf_collection_started_at c),
               oc_collection_finished_at = Aware (cf_collection_finished_at c), oc_outcome = OutSuccess, oc_error_code = None\<rparr>)))"

definition attempt_outcome_of :: "confirmation_row option \<Rightarrow> attempt_outcome" where
  "attempt_outcome_of latest = (case latest of
       None \<Rightarrow> AttemptNever
     | Some c \<Rightarrow> (case cf_outcome c of OutSuccess \<Rightarrow> AttemptSuccess | OutError \<Rightarrow> AttemptError))"

definition binding_evidence_of :: "delivery_store \<Rightarrow> binding_row \<Rightarrow> (store_error, binding_evidence) result" where
  "binding_evidence_of st row =
     (let success = success_proof st (bw_success_confirmation row) in
      res_bind (observation_of success) (\<lambda>confirmation.
      let e = \<lparr>be_binding = bw_binding row, be_confirmation = confirmation,
        be_snapshot_id = map_option (\<lambda>(c, s). sn_id s) success,
        be_success_confirmation_id = bw_success_confirmation row,
        be_latest_attempt_confirmation_id = bw_attempt_confirmation row,
        be_last_attempt_at = map_option Aware (bw_last_attempt_at row),
        be_last_success_at = map_option Aware (bw_last_success_at row),
        be_last_attempt_outcome = attempt_outcome_of (get_confirmation st (bw_attempt_confirmation row))\<rparr> in
      res_bind (ensure (valid_binding_evidence e) InvalidStored) (\<lambda>_. Inr e)))"

definition active_bindings :: "delivery_store \<Rightarrow> uuid \<Rightarrow> int \<Rightarrow> int \<Rightarrow> binding_row list" where
  "active_bindings st i revision attempt =
     filter (\<lambda>r. ab_ticket_id (bw_binding r) = i \<and> ab_contract_revision (bw_binding r) = revision \<and>
       ab_attempt (bw_binding r) = attempt \<and> bw_active r) (db_bindings (ds_db st))"

definition stored_contract :: "revision_row \<Rightarrow> (store_error, contract_revision \<times> string) result" where
  "stored_contract rv =
     res_bind (ensure (valid_contract_revision (rw_contract rv)) InvalidStored) (\<lambda>_.
     case cr_content_digest (rw_contract rv) of
       None \<Rightarrow> Inl LacksContentDigest
     | Some digest \<Rightarrow> Inr (rw_contract rv, digest))"

definition matching_receipt ::
    "delivery_store \<Rightarrow> uuid \<Rightarrow> int \<Rightarrow> int \<Rightarrow> receipt_milestone \<Rightarrow> string \<Rightarrow> string
     \<Rightarrow> (store_error, milestone_receipt option) result" where
  "matching_receipt st i revision attempt m digest delivery =
     (case find_row (\<lambda>x. rx_ticket_id x = i \<and> rx_revision x = revision \<and> rx_attempt x = attempt \<and> rx_milestone x = m \<and>
         rx_delivery_digest x = delivery) (ds_receipts st) of
        None \<Rightarrow> Inr None
      | Some x \<Rightarrow>
          (let r = rx_payload x in
           res_bind (ensure (valid_milestone_receipt r) InvalidStored) (\<lambda>_.
           Inr (if mr_id r \<noteq> rx_id x \<or> mr_ticket_id r \<noteq> i \<or> mr_contract_revision r \<noteq> revision \<or> mr_attempt r \<noteq> attempt \<or>
               mr_milestone r \<noteq> m \<or> mr_contract_digest r \<noteq> digest \<or> mr_delivery_digest r \<noteq> delivery \<or>
               mr_issued_at r \<noteq> rx_issued_at x \<or> ri_issuer_identity (fp_issuer (mr_proof r)) \<noteq> rx_issuer x \<or>
               mr_acceptance_basis r \<noteq> rx_basis x
             then None else Some r))))"

text \<open>The bindings of a generation with their delivery digest.\<close>

definition load_generation ::
    "delivery_store \<Rightarrow> uuid \<Rightarrow> int \<Rightarrow> int \<Rightarrow> string \<Rightarrow> (store_error, binding_evidence list \<times> string) result" where
  "load_generation st i revision attempt digest =
     res_bind (res_map (binding_evidence_of st) (active_bindings st i revision attempt)) (\<lambda>bindings.
     res_bind (lift_store (delivery_digest digest attempt bindings)) (\<lambda>delivery. Inr (bindings, delivery)))"

section \<open>Dependencies\<close>

definition dependency_join :: "delivery_store \<Rightarrow> uuid \<Rightarrow> int \<Rightarrow> (delivery_dependency \<times> workflow_row \<times> revision_row) list" where
  "dependency_join st i revision =
     List.map_filter (\<lambda>d. Option.bind (get_workflow (store_workflows st) (dd_ticket_id (dr_upstream d))) (\<lambda>w.
       map_option (\<lambda>rv. (dr_upstream d, w, rv)) (get_revision (ds_revisions st) (dd_ticket_id (dr_upstream d), wf_current_revision w))))
     (filter (\<lambda>d. dr_ticket_id d = i \<and> dr_revision d = revision) (ds_dependencies st))"

definition load_dependency ::
    "delivery_store \<Rightarrow> delivery_dependency \<times> workflow_row \<times> revision_row \<Rightarrow> (store_error, dependency_predicate) result" where
  "load_dependency st = (\<lambda>(d, w, rv).
     res_bind (stored_contract rv) (\<lambda>(_, digest).
     res_bind (load_generation st (dd_ticket_id d) (wf_current_revision w) (wf_attempt w) digest) (\<lambda>(_, delivery).
     res_bind
       (if wf_disposition w \<notin> {DCancelled, DWontfix} \<and> dd_contract_revision d = wf_current_revision w \<and>
          dd_attempt d = wf_attempt w
        then matching_receipt st (dd_ticket_id d) (dd_contract_revision d) (dd_attempt d)
          (case dd_milestone d of Integrated \<Rightarrow> IntegrationReceipt | Accepted \<Rightarrow> FulfilledReceipt) digest delivery
        else Inr None) (\<lambda>receipt.
     let p = \<lparr>dp_ticket_id = dd_ticket_id d, dp_contract_revision = dd_contract_revision d, dp_attempt = dd_attempt d,
       dp_milestone = dd_milestone d, dp_current_contract_revision = wf_current_revision w, dp_current_attempt = wf_attempt w,
       dp_current_contract_digest = rw_content_digest rv, dp_current_delivery_digest = delivery,
       dp_current_disposition = wf_disposition w, dp_receipt = receipt\<rparr> in
     res_bind (ensure (valid_dependency_predicate p) InvalidStored) (\<lambda>_. Inr p)))))"

section \<open>Context predicates\<close>

definition plain_predicate :: "string \<Rightarrow> string option \<Rightarrow> context_status \<Rightarrow> context_predicate" where
  "plain_predicate identity digest status =
     \<lparr>cp_reference_identity = identity, cp_current_digest = digest, cp_status = status, cp_snapshot_id = None,
      cp_success_confirmation_id = None, cp_latest_attempt_confirmation_id = None, cp_collection_started_at = None,
      cp_collection_finished_at = None, cp_last_attempt_at = None, cp_last_success_at = None, cp_evidence = None\<rparr>"

definition context_evidence_of :: "(confirmation_row \<times> snapshot_row) option \<Rightarrow> (store_error, repository_document_fact list) result" where
  "context_evidence_of success = (case success of
       None \<Rightarrow> Inr []
     | Some (c, s) \<Rightarrow> (case sn_evidence s of
           PullRequestSnapshot _ \<Rightarrow> Inl InvalidStored
         | ContextSnapshot e \<Rightarrow> res_bind (ensure (valid_repository_context_evidence e) InvalidStored) (\<lambda>_. Inr (re_facts e))))"

definition document_proof :: "repository_document_fact list \<Rightarrow> int \<times> string \<times> string \<Rightarrow> repository_context_evidence option" where
  "document_proof facts k =
     (case List.find (\<lambda>f. rf_identity f = k) facts of
        None \<Rightarrow> None
      | Some f \<Rightarrow> if rf_status f = FactAvailable then Some \<lparr>re_facts = [f], re_complete = True\<rparr> else None)"

definition document_predicate ::
    "workflow_row \<Rightarrow> (confirmation_row \<times> snapshot_row) option \<Rightarrow> confirmation_row option \<Rightarrow> context_reference
     \<Rightarrow> repository_context_evidence option \<Rightarrow> (store_error, context_predicate) result" where
  "document_predicate w success latest r proof =
     res_bind (if proof = None then Inr None else lift_store (context_reference_digest r)) (\<lambda>digest.
     Inr \<lparr>cp_reference_identity = context_reference_identity r, cp_current_digest = digest,
       cp_status = (if map_option cf_outcome latest = Some OutError then CtxError
         else if proof \<noteq> None \<and> success \<noteq> None then CtxAvailable else CtxMissing),
       cp_snapshot_id = map_option (\<lambda>(c, s). sn_id s) success,
       cp_success_confirmation_id = wf_context_success_confirmation w,
       cp_latest_attempt_confirmation_id = wf_context_attempt_confirmation w,
       cp_collection_started_at = map_option (\<lambda>(c, s). Aware (cf_collection_started_at c)) success,
       cp_collection_finished_at = map_option (\<lambda>(c, s). Aware (cf_collection_finished_at c)) success,
       cp_last_attempt_at = map_option (\<lambda>c. Aware (cf_collection_finished_at c)) latest,
       cp_last_success_at = map_option (\<lambda>(c, s). Aware (cf_collection_finished_at c)) success,
       cp_evidence = proof\<rparr>)"

definition brain_predicate :: "entity_row list \<Rightarrow> entity_type \<Rightarrow> uuid \<Rightarrow> string \<Rightarrow> string \<Rightarrow> (store_error, context_predicate) result" where
  "brain_predicate rows et i digest identity =
     (case get_entity rows (et, i) of
        None \<Rightarrow> Inr (plain_predicate identity None CtxMissing)
      | Some e \<Rightarrow> res_bind (lift_store (brain_digest et i (en_content e))) (\<lambda>current.
          Inr (plain_predicate identity (Some current) (if current = digest then CtxAvailable else CtxChanged))))"

definition context_predicate_of ::
    "delivery_store \<Rightarrow> workflow_row \<Rightarrow> repository_document_fact list \<Rightarrow> context_reference
     \<Rightarrow> (store_error, context_predicate option) result" where
  "context_predicate_of st w facts r =
     (let checked = (\<lambda>loaded. res_bind loaded (\<lambda>p.
            res_bind (ensure (valid_context_predicate p) InvalidStored) (\<lambda>_. Inr (Some p)))) in
      case r of
        RepositoryDocument rid sha path _ \<Rightarrow> checked (document_predicate w
          (success_proof st (wf_context_success_confirmation w)) (get_confirmation st (wf_context_attempt_confirmation w)) r
          (document_proof facts (rid, sha, path)))
      | PinnedBrainEntity et i _ _ digest \<Rightarrow>
          checked (brain_predicate (ds_entities st) et i digest (context_reference_identity r))
      | UrlReference _ _ \<Rightarrow> Inr None)"

definition context_predicates :: "delivery_store \<Rightarrow> contract_revision \<Rightarrow> workflow_row \<Rightarrow> (store_error, context_predicate list) result" where
  "context_predicates st c w =
     res_bind (context_evidence_of (success_proof st (wf_context_success_confirmation w))) (\<lambda>facts.
     res_bind (res_map (context_predicate_of st w facts) (cr_context_refs c)) (\<lambda>ps. Inr (List.map_filter (\<lambda>p. p) ps)))"

section \<open>Inputs and views\<close>

definition load_inputs :: "delivery_store \<Rightarrow> uuid \<Rightarrow> bool \<Rightarrow> int \<Rightarrow> (store_error, evaluation_input option) result" where
  "load_inputs st i enabled freshness =
     (case get_workflow (store_workflows st) i of
        None \<Rightarrow> Inr None
      | Some w \<Rightarrow>
     (case get_ticket (db_tickets (ds_db st)) i of
        None \<Rightarrow> Inl RowMissing
      | Some t \<Rightarrow>
     (case get_revision (ds_revisions st) (i, wf_current_revision w) of
        None \<Rightarrow> Inl RowMissing
      | Some rv \<Rightarrow>
        res_bind (stored_contract rv) (\<lambda>(contract, digest).
        res_bind (load_generation st i (wf_current_revision w) (wf_attempt w) digest) (\<lambda>(bindings, delivery).
        res_bind (matching_receipt st i (wf_current_revision w) (wf_attempt w) IntegrationReceipt digest delivery) (\<lambda>integration.
        res_bind (matching_receipt st i (wf_current_revision w) (wf_attempt w) FulfilledReceipt digest delivery) (\<lambda>fulfillment.
        res_bind (res_map (load_dependency st) (dependency_join st i (wf_current_revision w))) (\<lambda>dependencies.
        res_bind (context_predicates st contract w) (\<lambda>contexts.
        let inputs = \<lparr>ei_contract = contract, ei_attempt = wf_attempt w, ei_workflow_version = wf_row_version w,
          ei_coordination_status = status_text (tk_status t), ei_coordination_disposition = wf_disposition w,
          ei_is_self_ticket = (tk_from_project t = tk_to_project t), ei_active_bindings = bindings, ei_contexts = contexts,
          ei_dependencies = dependencies, ei_integration_receipt = integration, ei_fulfillment_receipt = fulfillment,
          ei_feature_enabled = enabled, ei_freshness_seconds = freshness,
          ei_claim = Some \<lparr>cs_epoch = wf_claim_epoch w, cs_owner = wf_claim_owner w,
            cs_expires_at = map_option Aware (wf_claim_expires_at w)\<rparr>,
          ei_requested_completion_action = None\<rparr> in
        res_bind (ensure (valid_evaluation_input inputs) InvalidStored) (\<lambda>_. Inr (Some inputs)))))))))))"

definition decision_error :: "store_error \<Rightarrow> string" where
  "decision_error e = (case e of
       StoreTicketNotFound \<Rightarrow> ''ticket_not_found''
     | RowMissing \<Rightarrow> ''NoResultFound''
     | InvalidStored \<Rightarrow> ''ValidationError''
     | _ \<Rightarrow> ''ValueError'')"

text \<open>The scope is locked first: it reads the ticket and, when there is a workflow, its current contract.\<close>

definition lock_decision_scope :: "delivery_store \<Rightarrow> uuid \<Rightarrow> (store_error, ticket) result" where
  "lock_decision_scope st i =
     (case get_ticket (db_tickets (ds_db st)) i of
        None \<Rightarrow> Inl StoreTicketNotFound
      | Some t \<Rightarrow>
          (case get_workflow (store_workflows st) i of
             None \<Rightarrow> Inr t
           | Some w \<Rightarrow>
               (case get_revision (ds_revisions st) (i, wf_current_revision w) of
                  None \<Rightarrow> Inl RowMissing
                | Some rv \<Rightarrow> res_bind (ensure (valid_contract_revision (rw_contract rv)) InvalidStored) (\<lambda>_. Inr t))))"

definition load_locked_decision_inputs ::
    "delivery_store \<Rightarrow> uuid \<Rightarrow> bool \<Rightarrow> int \<Rightarrow> instant \<Rightarrow> (string, locked_decision) result" where
  "load_locked_decision_inputs st i enabled freshness decision_time =
     (case res_bind (lock_decision_scope st i) (\<lambda>t.
        res_bind (load_inputs st (tk_id t) enabled freshness) (\<lambda>inputs.
        Inr \<lparr>ld_ticket = t, ld_inputs = inputs, ld_decision_time = decision_time\<rparr>)) of
        Inl e \<Rightarrow> Inl (decision_error e)
      | Inr locked \<Rightarrow> Inr locked)"

datatype view_error = ViewStore store_error | ViewEvaluation eval_error

definition get_view ::
    "(int \<Rightarrow> instant) \<Rightarrow> delivery_store \<Rightarrow> uuid \<Rightarrow> bool \<Rightarrow> int \<Rightarrow> instant \<Rightarrow> (view_error, delivery_view option) result" where
  "get_view local_utc st i enabled freshness assessed_at =
     (case load_inputs st i enabled freshness of
        Inl e \<Rightarrow> Inl (ViewStore e)
      | Inr None \<Rightarrow> Inr None
      | Inr (Some inputs) \<Rightarrow>
          (case evaluate_delivery local_utc inputs (Aware assessed_at) of
             Inl e \<Rightarrow> Inl (ViewEvaluation e)
           | Inr a \<Rightarrow> Inr (Some \<lparr>vw_contract = ei_contract inputs, vw_assessment = a, vw_bindings = ei_active_bindings inputs,
               vw_contexts = ei_contexts inputs, vw_integration_receipt = ei_integration_receipt inputs,
               vw_fulfillment_receipt = ei_fulfillment_receipt inputs\<rparr>)))"

end
