(* ===== verification/Focus_Slots.thy ===== *)
theory Focus_Slots
  imports Delivery_Store Project_Key
begin

text \<open>
  Focus slots (\<open>src/brain_v42/db/focus_slots.py\<close>, \<open>models/focus_slot.py\<close>,
  \<open>repositories/pg_focus_slot.py\<close>, \<open>services/focus_slot_service.py\<close>): a topic in flight, anchored to
  tickets, pull requests or a release, with a revision that every write advances and a history row per
  revision. A slot is closed by a command or by the receipt that satisfies its anchors.

  \<^item> A call is one step: openings hold the shared fence of their project and receipt writers the exclusive
    one, so neither reads between the other's read and write. The retry of an opening that lost the
    insertion race on its title is therefore not reached.
  \<^item> The shape check of the closing reason (a UUID in text form) is not modelled: identifiers are texts.
\<close>

section \<open>Anchors\<close>

datatype slot_error =
    AnchorInvalid | AnchorRequired | AnchorTicketForeign | AnchorUnboundPr | AnchorLotUnplanned | AnchorAlreadyReceived
  | SlotTitleConflict | SlotNotFound | SlotClosed | SlotRevisionConflict | SlotBound | ProjectNotFound | SlotBodyTooLong
  | SessionInput | SlotConstraint

definition anchor_given :: "slot_anchor \<Rightarrow> bool list" where
  "anchor_given a = [sa_ticket_id a \<noteq> None, sa_target_release a \<noteq> None, sa_repository_id a \<noteq> None, sa_pr_number a \<noteq> None]"

definition REQUIRED_FIELDS :: "anchor_kind \<Rightarrow> bool list" where
  "REQUIRED_FIELDS k = (case k of
       AnchorTicket \<Rightarrow> [True, False, False, False]
     | AnchorLot \<Rightarrow> [False, True, False, False]
     | AnchorPr \<Rightarrow> [False, False, True, True])"

definition validate_anchor_shape :: "slot_anchor \<Rightarrow> (slot_error, slot_anchor) result" where
  "validate_anchor_shape a =
     (if anchor_given a \<noteq> REQUIRED_FIELDS (sa_kind a) then Inl AnchorInvalid
      else if sa_kind a = AnchorLot \<and> \<not> is_ok (parse_target_release (case sa_target_release a of None \<Rightarrow> [] | Some r \<Rightarrow> r))
      then Inl AnchorInvalid
      else if sa_kind a = AnchorPr \<and> (case sa_pr_number a of None \<Rightarrow> 0 | Some n \<Rightarrow> n) < 1 then Inl AnchorInvalid
      else Inr a)"

definition load_anchors :: "delivery_store \<Rightarrow> uuid \<Rightarrow> slot_anchor list" where
  "load_anchors st i = map an_anchor (sort_key (\<lambda>a. (an_created_at a, an_id a)) (filter (\<lambda>a. an_slot_id a = i) (ds_anchors st)))"

section \<open>Receipts of an anchor\<close>

definition OBSERVER_IDENTITY :: string where
  "OBSERVER_IDENTITY = ''brain-v42-delivery-observer''"

definition first_row :: "('r \<Rightarrow> 'k::linorder) \<Rightarrow> 'r list \<Rightarrow> 'r option" where
  "first_row key rows = (case sort_key key rows of [] \<Rightarrow> None | r # _ \<Rightarrow> Some r)"

definition current_generation :: "delivery_store \<Rightarrow> uuid \<Rightarrow> int \<Rightarrow> int \<Rightarrow> bool" where
  "current_generation st t revision attempt =
     list_ex (\<lambda>w. wf_ticket_id w = t \<and> wf_current_revision w = revision \<and> wf_attempt w = attempt) (store_workflows st)"

definition targets :: "delivery_store \<Rightarrow> uuid \<Rightarrow> string \<Rightarrow> bool" where
  "targets st t project = list_ex (\<lambda>k. tk_id k = t \<and> tk_to_project k = project) (db_tickets (ds_db st))"

definition integrates :: "delivery_store \<Rightarrow> receipt_row \<Rightarrow> uuid \<Rightarrow> bool" where
  "integrates st x t =
     (rx_ticket_id x = t \<and> rx_milestone x = IntegrationReceipt \<and> current_generation st t (rx_revision x) (rx_attempt x))"

definition ticket_receipt :: "delivery_store \<Rightarrow> uuid \<Rightarrow> uuid option" where
  "ticket_receipt st t =
     map_option rx_id (first_row (\<lambda>x. (rx_issued_at x, rx_id x)) (filter (\<lambda>x. integrates st x t) (ds_receipts st)))"

definition observed_binding_of :: "delivery_store \<Rightarrow> string \<Rightarrow> int \<Rightarrow> int \<Rightarrow> receipt_row \<Rightarrow> binding_row \<Rightarrow> bool" where
  "observed_binding_of st project repository number x b =
     (bw_active b \<and> ab_repository_id (bw_binding b) = repository \<and> ab_pr_number (bw_binding b) = number \<and>
      targets st (ab_ticket_id (bw_binding b)) project \<and>
      rx_revision x = ab_contract_revision (bw_binding b) \<and> rx_attempt x = ab_attempt (bw_binding b) \<and>
      integrates st x (ab_ticket_id (bw_binding b)) \<and>
      list_ex (\<lambda>p. fa_binding_id p = ab_id (bw_binding b)) (fp_artifact_proofs (mr_proof (rx_payload x))))"

definition pr_receipt :: "delivery_store \<Rightarrow> string \<Rightarrow> int \<Rightarrow> int \<Rightarrow> uuid option" where
  "pr_receipt st project repository number =
     map_option rx_id (first_row (\<lambda>x. (rx_issued_at x, rx_id x))
       (filter (\<lambda>x. list_ex (observed_binding_of st project repository number x) (db_bindings (ds_db st))) (ds_receipts st)))"

definition payload_is :: "pyval \<Rightarrow> string \<Rightarrow> string \<Rightarrow> bool" where
  "payload_is payload key text = (case payload of PMap kvs \<Rightarrow> map_of kvs (KStr (codes key)) = Some (pstr text) | _ \<Rightarrow> False)"

definition measures_release :: "delivery_store \<Rightarrow> string \<Rightarrow> string \<Rightarrow> attestation_row \<Rightarrow> bool" where
  "measures_release st project version a =
     (at_kind a = ''released'' \<and> at_issuer_identity a = OBSERVER_IDENTITY \<and> at_issuer_project a = project \<and>
      payload_is (at_payload a) ''tag'' (''v'' @ version) \<and> targets st (at_ticket_id a) project)"

definition lot_release :: "delivery_store \<Rightarrow> string \<Rightarrow> string \<Rightarrow> uuid option" where
  "lot_release st project version =
     map_option at_id (first_row (\<lambda>a. (at_recorded_at a, at_id a)) (filter (measures_release st project version) (ds_attestations st)))"

definition received_anchor :: "delivery_store \<Rightarrow> string \<Rightarrow> slot_anchor \<Rightarrow> uuid option" where
  "received_anchor st project a = (case sa_kind a of
       AnchorTicket \<Rightarrow> Option.bind (sa_ticket_id a) (ticket_receipt st)
     | AnchorPr \<Rightarrow> Option.bind (sa_repository_id a) (\<lambda>r. Option.bind (sa_pr_number a) (pr_receipt st project r))
     | AnchorLot \<Rightarrow> Option.bind (sa_target_release a) (lot_release st project))"

record anchor_state =
  as_kind :: anchor_kind
  as_completing_row_id :: "uuid option"

definition anchor_states :: "delivery_store \<Rightarrow> slot_row \<Rightarrow> anchor_state list" where
  "anchor_states st s =
     map (\<lambda>a. \<lparr>as_kind = sa_kind a, as_completing_row_id = received_anchor st (sl_project_key s) a\<rparr>) (load_anchors st (sl_id s))"

definition decisive :: "anchor_state list \<Rightarrow> anchor_state list" where
  "decisive states = (let lots = filter (\<lambda>a. as_kind a = AnchorLot) states in if lots = [] then states else lots)"

definition slot_satisfied :: "anchor_state list \<Rightarrow> bool" where
  "slot_satisfied states = (decisive states \<noteq> [] \<and> list_all (\<lambda>a. as_completing_row_id a \<noteq> None) (decisive states))"

definition closing_row :: "anchor_state list \<Rightarrow> uuid \<Rightarrow> uuid" where
  "closing_row states hook_row =
     (let completers = List.map_filter as_completing_row_id (decisive states) in
      if hook_row \<in> set completers then hook_row else hd completers)"

section \<open>Writes of a slot\<close>

definition get_slot :: "slot_row list \<Rightarrow> uuid \<Rightarrow> slot_row option" where
  "get_slot rows i = find_row (\<lambda>s. sl_id s = i) rows"

interpretation slots: keyed_table sl_id get_slot
  by unfold_locales (simp add: get_slot_def)

definition record_slot_history :: "delivery_store \<Rightarrow> slot_history_row \<Rightarrow> delivery_store" where
  "record_slot_history st h =
     (if list_ex (\<lambda>x. sh_slot_id x = sh_slot_id h \<and> sh_revision x = sh_revision h) (ds_slot_history st) then st
      else st\<lparr>ds_slot_history := ds_slot_history st @ [h\<lparr>sh_actor := map_option (take 64) (sh_actor h)\<rparr>]\<rparr>)"

definition rewritten_slot :: "string \<Rightarrow> instant \<Rightarrow> slot_row \<Rightarrow> slot_row" where
  "rewritten_slot body pg_now s =
     s\<lparr>sl_body := body, sl_revision := sl_revision s + 1,
       sl_body_updated_at := (if sl_body s \<noteq> body then pg_now else sl_body_updated_at s)\<rparr>"

definition cas_slot_body :: "delivery_store \<Rightarrow> uuid \<Rightarrow> int \<Rightarrow> string \<Rightarrow> instant \<Rightarrow> delivery_store \<times> slot_row option" where
  "cas_slot_body st i expected body pg_now =
     (let hit = (\<lambda>s. sl_id s = i \<and> sl_revision s = expected \<and> sl_closed_at s = None) in
      (st\<lparr>ds_slots := update_rows hit (rewritten_slot body pg_now) (ds_slots st)\<rparr>,
       map_option (rewritten_slot body pg_now) (find_row hit (ds_slots st))))"

definition closed_slot :: "string \<Rightarrow> string option \<Rightarrow> instant \<Rightarrow> slot_row \<Rightarrow> slot_row" where
  "closed_slot reason comment pg_now s =
     s\<lparr>sl_closed_at := Some pg_now, sl_close_reason := Some reason, sl_close_note := comment, sl_revision := sl_revision s + 1\<rparr>"

definition close_slot ::
    "delivery_store \<Rightarrow> uuid \<Rightarrow> string \<Rightarrow> string option \<Rightarrow> instant \<Rightarrow> (slot_error, delivery_store \<times> slot_row) result" where
  "close_slot st i reason comment pg_now =
     (let hit = (\<lambda>s. sl_id s = i \<and> sl_closed_at s = None) in
      case find_row hit (ds_slots st) of
        None \<Rightarrow> Inl SlotClosed
      | Some s \<Rightarrow>
          (let s' = closed_slot reason comment pg_now s in
           Inr (record_slot_history (st\<lparr>ds_slots := update_rows hit (closed_slot reason comment pg_now) (ds_slots st)\<rparr>)
                  \<lparr>sh_slot_id = i, sh_revision = sl_revision s', sh_body = sl_body s', sh_source = ''slot_close'',
                   sh_session_id = None, sh_actor = None\<rparr>, s')))"

section \<open>Closing by receipts\<close>

definition touched :: "delivery_store \<Rightarrow> uuid list \<Rightarrow> slot_row \<Rightarrow> slot_anchor \<Rightarrow> bool" where
  "touched st ids s a = (case sa_kind a of
       AnchorTicket \<Rightarrow> (case sa_ticket_id a of None \<Rightarrow> False | Some t \<Rightarrow> t \<in> set ids)
     | AnchorPr \<Rightarrow> list_ex (\<lambda>b. sa_repository_id a = Some (ab_repository_id (bw_binding b)) \<and>
         sa_pr_number a = Some (ab_pr_number (bw_binding b)) \<and> bw_active b \<and> ab_ticket_id (bw_binding b) \<in> set ids)
         (db_bindings (ds_db st))
     | AnchorLot \<Rightarrow> list_ex (\<lambda>t. tk_id t \<in> set ids \<and> tk_to_project t = sl_project_key s) (db_tickets (ds_db st)))"

definition slot_candidates :: "delivery_store \<Rightarrow> uuid list \<Rightarrow> slot_row list" where
  "slot_candidates st ids =
     sort_key sl_id (filter (\<lambda>s. sl_closed_at s = None \<and> list_ex (touched st ids s) (load_anchors st (sl_id s))) (ds_slots st))"

fun close_each ::
    "delivery_store \<Rightarrow> delivery_store \<Rightarrow> uuid \<Rightarrow> instant \<Rightarrow> slot_row list \<Rightarrow> (slot_error, delivery_store \<times> uuid list) result" where
  "close_each origin st hook pg_now [] = Inr (st, [])"
| "close_each origin st hook pg_now (s # rest) =
     (let states = anchor_states origin s in
      if slot_satisfied states
      then res_bind (close_slot st (sl_id s) (''receipt:'' @ closing_row states hook) None pg_now) (\<lambda>(st', _).
           res_bind (close_each origin st' hook pg_now rest) (\<lambda>(st'', closed). Inr (st'', sl_id s # closed)))
      else close_each origin st hook pg_now rest)"

definition close_slots_satisfied_by ::
    "delivery_store \<Rightarrow> uuid list \<Rightarrow> uuid \<Rightarrow> instant \<Rightarrow> (slot_error, delivery_store \<times> uuid list) result" where
  "close_slots_satisfied_by st ids hook pg_now =
     (if ids = [] then Inr (st, []) else close_each st st hook pg_now (slot_candidates st ids))"

section \<open>Commands\<close>

definition require_project :: "delivery_store \<Rightarrow> string \<Rightarrow> (slot_error, unit) result" where
  "require_project st project = ensure (project \<in> set (ds_projects st)) ProjectNotFound"

definition open_by_title :: "delivery_store \<Rightarrow> string \<Rightarrow> string \<Rightarrow> slot_row option" where
  "open_by_title st project title =
     find_row (\<lambda>s. sl_project_key s = project \<and> sl_title s = title \<and> sl_closed_at s = None) (ds_slots st)"

definition admit_anchor :: "delivery_store \<Rightarrow> string \<Rightarrow> slot_anchor \<Rightarrow> (slot_error, unit) result" where
  "admit_anchor st project a = (case sa_kind a of
       AnchorTicket \<Rightarrow>
         ensure (Option.bind (sa_ticket_id a) (\<lambda>t. map_option tk_to_project (get_ticket (db_tickets (ds_db st)) t)) = Some project)
           AnchorTicketForeign
     | AnchorPr \<Rightarrow>
         ensure (list_ex (\<lambda>b. bw_active b \<and> sa_repository_id a = Some (ab_repository_id (bw_binding b)) \<and>
             sa_pr_number a = Some (ab_pr_number (bw_binding b)) \<and> targets st (ab_ticket_id (bw_binding b)) project)
           (db_bindings (ds_db st))) AnchorUnboundPr
     | AnchorLot \<Rightarrow>
         ensure (list_ex (\<lambda>t. tk_to_project t = project \<and> tk_target_release t = sa_target_release a \<and> sa_target_release a \<noteq> None) (db_tickets (ds_db st)))
           AnchorLotUnplanned)"

definition replay_open :: "delivery_store \<Rightarrow> slot_row \<Rightarrow> string \<Rightarrow> slot_anchor list \<Rightarrow> (slot_error, unit) result" where
  "replay_open st existing body anchors =
     ensure (sl_body existing = body \<and> set (load_anchors st (sl_id existing)) = set anchors) SlotTitleConflict"

definition open_slot ::
    "delivery_store \<Rightarrow> string \<Rightarrow> string \<Rightarrow> string \<Rightarrow> slot_anchor list \<Rightarrow> string option \<Rightarrow> uuid \<Rightarrow> uuid list \<Rightarrow> instant
     \<Rightarrow> (slot_error, delivery_store \<times> slot_row \<times> bool) result" where
  "open_slot st project title body anchors author fresh_id anchor_ids pg_now =
     res_bind (require_project st project) (\<lambda>_.
     case open_by_title st project title of
       Some existing \<Rightarrow> res_bind (replay_open st existing body anchors) (\<lambda>_. Inr (st, existing, True))
     | None \<Rightarrow>
         res_bind (res_map (admit_anchor st project) anchors) (\<lambda>_.
         res_bind (res_map (\<lambda>a. ensure (received_anchor st project a = None) AnchorAlreadyReceived) anchors) (\<lambda>_.
         res_bind (ensure (fresh_id \<notin> sl_id ` set (ds_slots st) \<and> distinct anchors \<and> length anchor_ids = length anchors) SlotConstraint) (\<lambda>_.
         let s = \<lparr>sl_id = fresh_id, sl_project_key = project, sl_title = title, sl_body = body, sl_revision = 0, sl_opened_at = pg_now,
           sl_body_updated_at = pg_now, sl_closed_at = None, sl_close_reason = None, sl_close_note = None, sl_author_client_id = author\<rparr> in
         Inr (record_slot_history
                (st\<lparr>ds_slots := ds_slots st @ [s],
                    ds_anchors := ds_anchors st @ map (\<lambda>(k, a). \<lparr>an_id = k, an_slot_id = fresh_id, an_anchor = a, an_created_at = pg_now\<rparr>)
                      (zip anchor_ids anchors)\<rparr>)
                \<lparr>sh_slot_id = fresh_id, sh_revision = 0, sh_body = body, sh_source = ''slot_open'', sh_session_id = None, sh_actor = None\<rparr>,
              s, False)))))"

definition slot_close :: "delivery_store \<Rightarrow> uuid \<Rightarrow> int \<Rightarrow> string \<Rightarrow> instant \<Rightarrow> (slot_error, delivery_store \<times> slot_row) result" where
  "slot_close st i expected comment pg_now =
     (case get_slot (ds_slots st) i of
        None \<Rightarrow> Inl SlotNotFound
      | Some s \<Rightarrow>
          res_bind (ensure (sl_closed_at s = None) SlotClosed) (\<lambda>_.
          res_bind (ensure (sl_revision s = expected) SlotRevisionConflict) (\<lambda>_.
          res_bind (ensure (\<not> list_ex (\<lambda>b. bs_slot_id b = Some i \<and> bs_open b) (ds_sessions st)) SlotBound) (\<lambda>_.
          close_slot st i ''explicit'' (Some comment) pg_now))))"

section \<open>The service\<close>

definition SLOT_TITLE_MAX_LENGTH :: nat where
  "SLOT_TITLE_MAX_LENGTH = 120"

definition SLOT_BODY_MAX_LENGTH :: nat where
  "SLOT_BODY_MAX_LENGTH = 4000"

definition SLOT_CLOSE_NOTE_MAX_LENGTH :: nat where
  "SLOT_CLOSE_NOTE_MAX_LENGTH = 2000"

definition MAX_SLOT_ANCHORS :: nat where
  "MAX_SLOT_ANCHORS = 10"

definition slot_body :: "string \<Rightarrow> (slot_error, string) result" where
  "slot_body text =
     (if strip text = [] then Inl SessionInput
      else if SLOT_BODY_MAX_LENGTH < length (strip text) then Inl SlotBodyTooLong else Inr (strip text))"

definition slot_text :: "string \<Rightarrow> nat \<Rightarrow> (slot_error, string) result" where
  "slot_text text limit = (if strip text = [] \<or> limit < length (strip text) then Inl SessionInput else Inr (strip text))"

definition slot_project :: "string \<Rightarrow> (slot_error, string) result" where
  "slot_project key = (case canonicalize_project_key True key of None \<Rightarrow> Inl SessionInput | Some k \<Rightarrow> Inr k)"

definition service_slot_open ::
    "delivery_store \<Rightarrow> string \<Rightarrow> string \<Rightarrow> string \<Rightarrow> slot_anchor list \<Rightarrow> string option \<Rightarrow> uuid \<Rightarrow> uuid list \<Rightarrow> instant
     \<Rightarrow> (slot_error, delivery_store \<times> slot_row \<times> bool) result" where
  "service_slot_open st key title body anchors author fresh_id anchor_ids pg_now =
     res_bind (slot_project key) (\<lambda>project.
     res_bind (slot_text title SLOT_TITLE_MAX_LENGTH) (\<lambda>title'.
     res_bind (slot_body body) (\<lambda>body'.
     res_bind (ensure (anchors \<noteq> []) AnchorRequired) (\<lambda>_.
     res_bind (ensure (length anchors \<le> MAX_SLOT_ANCHORS) AnchorInvalid) (\<lambda>_.
     res_bind (res_map validate_anchor_shape anchors) (\<lambda>validated.
     res_bind (ensure (distinct validated) AnchorInvalid) (\<lambda>_.
     open_slot st project title' body' validated author fresh_id anchor_ids pg_now)))))))"

definition service_slot_close :: "delivery_store \<Rightarrow> uuid \<Rightarrow> int \<Rightarrow> string \<Rightarrow> instant \<Rightarrow> (slot_error, delivery_store \<times> slot_row) result" where
  "service_slot_close st i expected comment pg_now =
     res_bind (ensure (0 \<le> expected) SessionInput) (\<lambda>_.
     res_bind (slot_text comment SLOT_CLOSE_NOTE_MAX_LENGTH) (\<lambda>comment'.
     slot_close st i expected comment' pg_now))"

section \<open>Views\<close>

definition SLOT_STALE_AFTER :: int where
  "SLOT_STALE_AFTER = 7 * 86400 * 1000000"

definition slot_is_stale :: "bool \<Rightarrow> bool \<Rightarrow> instant \<Rightarrow> instant option \<Rightarrow> instant \<Rightarrow> bool" where
  "slot_is_stale is_open bound body_updated_at last_bound_ended_at now =
     (let activity = (case last_bound_ended_at of None \<Rightarrow> body_updated_at | Some e \<Rightarrow> max body_updated_at e) in
      is_open \<and> \<not> bound \<and> activity < now - SLOT_STALE_AFTER)"

record slot_view =
  sv_slot :: slot_row
  sv_anchors :: "slot_anchor list"
  sv_bound_session_id :: "uuid option"
  sv_is_stale :: bool
  sv_receipt_pending :: bool

definition slot_view_of :: "delivery_store \<Rightarrow> instant \<Rightarrow> slot_row \<Rightarrow> slot_view" where
  "slot_view_of st now s =
     (let bound = map_option bs_id (find_row (\<lambda>b. bs_slot_id b = Some (sl_id s) \<and> bs_open b) (ds_sessions st));
          ended = List.map_filter bs_ended_at (filter (\<lambda>b. bs_slot_id b = Some (sl_id s)) (ds_sessions st));
          is_open = (sl_closed_at s = None)
      in \<lparr>sv_slot = s, sv_anchors = load_anchors st (sl_id s), sv_bound_session_id = bound,
          sv_is_stale = slot_is_stale is_open (bound \<noteq> None) (sl_body_updated_at s) (max_by (\<lambda>t. t) ended) now,
          sv_receipt_pending = (is_open \<and> slot_satisfied (anchor_states st s))\<rparr>)"

datatype slot_filter = SlotsOpen | SlotsClosed | SlotsAll

definition list_slots ::
    "delivery_store \<Rightarrow> string \<Rightarrow> slot_filter \<Rightarrow> nat \<Rightarrow> nat \<Rightarrow> instant \<Rightarrow> (slot_error, slot_view list \<times> nat) result" where
  "list_slots st project status limit offset now =
     (let hits = filter (\<lambda>s. sl_project_key s = project \<and> (case status of
            SlotsOpen \<Rightarrow> sl_closed_at s = None | SlotsClosed \<Rightarrow> sl_closed_at s \<noteq> None | SlotsAll \<Rightarrow> True)) (ds_slots st) in
      res_bind (require_project st project) (\<lambda>_.
      Inr (map (slot_view_of st now) (take limit (drop offset (sort_key (\<lambda>s. (- sl_opened_at s, sl_id s)) hits))), length hits)))"

end
