(* ===== verification/Delivery_Receipts.thy ===== *)
theory Delivery_Receipts
  imports Delivery_Loading Focus_Slots
begin

text \<open>
  Evidence and receipts, \<open>src/brain_v42/repositories/pg_delivery_evidence.py\<close>: the publication of artifact
  and repository-context observations, the integration receipt that a publication issues, the explicit
  acceptance, and the frozen proof both carry. A receipt is written by one insertion, which closes the
  focus slots that it satisfies.

  \<^item> \<open>render\<close> is the JSON form that pydantic gives a timestamp. Fresh identifiers, the decision clock
    (\<open>clock_timestamp()\<close>) and the transaction clock (\<open>now()\<close>) are arguments.
  \<^item> An error leaves the caller's transaction to be rolled back: an error result has no state.
\<close>

section \<open>Errors and settings\<close>

datatype evidence_error =
    EvidenceSubjectMismatch | InvalidErrorCode | BindingConflict | BindingSuperseded
  | ContextMismatch | ContextConflict | ContextSuperseded
  | EvidenceStore store_error | EvidenceEvaluation eval_error | EvidenceSlot slot_error
  | NoContractDigest | LacksArtifactProof | LacksBrainProof | LacksRepositoryProof | SnapshotUnavailable
  | InvalidReceipt | ReceiptExists
  | EvidenceDisabled | InvalidAcceptance | AcceptanceNotAllowed | AcceptanceNotEligible | EvidenceGenerationConflict
  | IssuerConfiguration

type_synonym receipt_settings = "(int \<times> receipt_issuer) option"

definition valid_receipt_issuer :: "receipt_issuer \<Rightarrow> bool" where
  "valid_receipt_issuer i = (in_len 1 50 (ri_issuer_project i) \<and> in_len 1 200 (ri_issuer_identity i))"

definition evidence_repo :: "(bool \<times> int) option \<Rightarrow> receipt_issuer option \<Rightarrow> (evidence_error, receipt_settings) result" where
  "evidence_repo settings provenance =
     (case settings of
        Some (True, freshness) \<Rightarrow>
          (case provenance of
             None \<Rightarrow> Inl IssuerConfiguration
           | Some i \<Rightarrow> res_bind (ensure (valid_receipt_issuer i \<and> ri_issuer_kind i = Observer) IssuerConfiguration)
               (\<lambda>_. Inr (Some (freshness, i))))
      | _ \<Rightarrow> Inr None)"

definition lift_evidence :: "(store_error, 'a) result \<Rightarrow> (evidence_error, 'a) result" where
  "lift_evidence r = (case r of Inl e \<Rightarrow> Inl (EvidenceStore e) | Inr x \<Rightarrow> Inr x)"

section \<open>Semantic payloads\<close>

definition check_payload :: "(instant \<Rightarrow> string) \<Rightarrow> check_attempt \<Rightarrow> pyval" where
  "check_payload render c = pobj
     [(''record_id'', PInt (ca_record_id c)), (''provider_id'', PInt (ca_provider_id c)),
      (''kind'', pstr (case ca_kind c of CheckRun \<Rightarrow> ''check_run'' | CommitStatus \<Rightarrow> ''commit_status'')),
      (''name'', pstr (ca_name c)), (''app_slug'', popt pstr (ca_app_slug c)), (''head_sha'', pstr (ca_head_sha c)),
      (''conclusion'', pstr (conclusion_text (ca_conclusion c))),
      (''started_at'', popt (\<lambda>t. pstr (render t)) (ca_started_at c)),
      (''completed_at'', popt (\<lambda>t. pstr (render t)) (ca_completed_at c)),
      (''check_suite_id'', popt PInt (ca_check_suite_id c)), (''record_url'', popt pstr (ca_record_url c))]"

definition review_payload :: "(instant \<Rightarrow> string) \<Rightarrow> review_evidence \<Rightarrow> pyval" where
  "review_payload render r = pobj
     [(''record_id'', PInt (rv_record_id r)), (''provider_id'', PInt (rv_provider_id r)), (''reviewer'', pstr (rv_reviewer r)),
      (''head_sha'', pstr (rv_head_sha r)),
      (''decision'', pstr (case rv_decision r of Approved \<Rightarrow> ''approved'' | ChangesRequested \<Rightarrow> ''changes_requested''
         | Dismissed \<Rightarrow> ''dismissed'' | Commented \<Rightarrow> ''commented'')),
      (''submitted_at'', pstr (render (rv_submitted_at r))), (''record_url'', popt pstr (rv_record_url r))]"

definition merge_payload :: "synthetic_merge_association \<Rightarrow> pyval" where
  "merge_payload m = pobj [(''synthetic_sha'', pstr (sm_synthetic_sha m)), (''head_sha'', pstr (sm_head_sha m)),
     (''base_sha'', pstr (sm_base_sha m))]"

text \<open>The dump of the evidence without \<open>collected_at\<close>.\<close>

definition semantic_payload :: "(instant \<Rightarrow> string) \<Rightarrow> pull_request_evidence \<Rightarrow> pyval" where
  "semantic_payload render e = pobj
     [(''provider_id'', PInt (pe_provider_id e)), (''repository_id'', PInt (pe_repository_id e)),
      (''pr_number'', PInt (pe_pr_number e)), (''author_id'', pstr (pe_author_id e)),
      (''head_repository_id'', PInt (pe_head_repository_id e)), (''head_sha'', pstr (pe_head_sha e)),
      (''base_sha'', pstr (pe_base_sha e)), (''base_ref'', pstr (pe_base_ref e)),
      (''integration_sha'', popt pstr (pe_integration_sha e)),
      (''state'', pstr (case pe_state e of PrOpen \<Rightarrow> ''open'' | PrMerged \<Rightarrow> ''merged'' | PrClosed \<Rightarrow> ''closed'')),
      (''draft'', PBool (pe_draft e)), (''mergeable'', popt PBool (pe_mergeable e)), (''complete'', PBool (pe_complete e)),
      (''checks'', PList (map (check_payload render) (pe_checks e))),
      (''reviews'', PList (map (review_payload render) (pe_reviews e))),
      (''synthetic_merges'', PList (map merge_payload (pe_synthetic_merges e))),
      (''integration_revision'', popt pstr (pe_integration_revision e))]"

definition fact_payload :: "repository_document_fact \<Rightarrow> pyval" where
  "fact_payload f = pobj
     [(''repository_id'', PInt (rf_repository_id f)), (''commit_sha'', pstr (rf_commit_sha f)), (''path'', pstr (rf_path f)),
      (''tree_sha'', popt pstr (rf_tree_sha f)), (''blob_sha'', popt pstr (rf_blob_sha f)), (''mode'', popt pstr (rf_mode f)),
      (''status'', pstr (case rf_status f of FactAvailable \<Rightarrow> ''available'' | FactMissing \<Rightarrow> ''missing'' | FactError \<Rightarrow> ''error''))]"

definition sorted_evidence :: "repository_context_evidence \<Rightarrow> repository_context_evidence" where
  "sorted_evidence e = e\<lparr>re_facts := sort_key rf_identity (re_facts e)\<rparr>"

definition context_payload :: "repository_context_evidence \<Rightarrow> pyval" where
  "context_payload e = pobj [(''facts'', PList (map fact_payload (re_facts e))), (''complete'', PBool (re_complete e))]"

section \<open>Frozen proofs\<close>

definition snapshot_digest :: "delivery_store \<Rightarrow> uuid \<Rightarrow> (evidence_error, string) result" where
  "snapshot_digest st i =
     (case find_row (\<lambda>s. sn_id s = i) (ds_snapshots st) of None \<Rightarrow> Inl SnapshotUnavailable | Some s \<Rightarrow> Inr (sn_semantic_digest s))"

definition frozen_artifact :: "delivery_store \<Rightarrow> binding_evidence \<Rightarrow> (evidence_error, frozen_artifact_proof) result" where
  "frozen_artifact st item =
     (case (Option.bind (be_confirmation item) (\<lambda>c. map_option (Pair c) (oc_evidence c)), be_snapshot_id item,
            be_success_confirmation_id item, be_latest_attempt_confirmation_id item) of
        (Some (c, ev), Some sid, Some success, Some latest) \<Rightarrow>
          res_bind (snapshot_digest st sid) (\<lambda>digest.
          let b = be_binding item;
              p = \<lparr>fa_binding_id = ab_id b, fa_binding_version = ab_binding_version b, fa_deliverable_key = ab_deliverable_key b,
                fa_repository_id = ab_repository_id b, fa_pr_number = ab_pr_number b, fa_head_sha = pe_head_sha ev,
                fa_base_sha = pe_base_sha ev, fa_integration_sha = pe_integration_sha ev,
                fa_integration_revision = pe_integration_revision ev, fa_snapshot_id = sid, fa_snapshot_digest = digest,
                fa_success_confirmation_id = success, fa_latest_attempt_confirmation_id = latest,
                fa_collection_started_at = moment (oc_collection_started_at c),
                fa_collection_finished_at = moment (oc_collection_finished_at c)\<rparr> in
          res_bind (ensure (valid_frozen_artifact_proof p) InvalidReceipt) (\<lambda>_. Inr p))
      | _ \<Rightarrow> Inl LacksArtifactProof)"

datatype frozen_context = FrozenBrain frozen_brain_context_proof | FrozenDocument frozen_repository_context_proof

definition frozen_brain :: "context_predicate option \<Rightarrow> string \<Rightarrow> (evidence_error, frozen_brain_context_proof) result" where
  "frozen_brain predicate pinned =
     (case predicate of
        None \<Rightarrow> Inl LacksBrainProof
      | Some p \<Rightarrow> (case cp_current_digest p of
            None \<Rightarrow> Inl LacksBrainProof
          | Some current \<Rightarrow>
              (let f = \<lparr>fb_reference_identity = cp_reference_identity p, fb_pinned_digest = pinned, fb_current_digest = current\<rparr> in
               res_bind (ensure (valid_frozen_brain_context_proof f) InvalidReceipt) (\<lambda>_. Inr f))))"

definition frozen_document ::
    "delivery_store \<Rightarrow> context_predicate option \<Rightarrow> bool \<Rightarrow> string option \<Rightarrow> (evidence_error, frozen_repository_context_proof) result" where
  "frozen_document st predicate required expected =
     (case predicate of
        None \<Rightarrow> Inl LacksRepositoryProof
      | Some p \<Rightarrow>
          (case (expected, cp_current_digest p, cp_snapshot_id p, cp_success_confirmation_id p, cp_latest_attempt_confirmation_id p,
                 cp_collection_started_at p, cp_collection_finished_at p) of
             (Some e, Some current, Some sid, Some success, Some latest, Some started, Some finished) \<Rightarrow>
               res_bind (snapshot_digest st sid) (\<lambda>digest.
               let f = \<lparr>fr_reference_identity = cp_reference_identity p, fr_required = required, fr_expected_digest = e,
                     fr_current_digest = current, fr_snapshot_id = sid, fr_snapshot_digest = digest,
                     fr_success_confirmation_id = success, fr_latest_attempt_confirmation_id = latest,
                     fr_collection_started_at = moment started, fr_collection_finished_at = moment finished\<rparr> in
               res_bind (ensure (valid_frozen_repository_context_proof f) InvalidReceipt) (\<lambda>_. Inr f))
           | _ \<Rightarrow> Inl LacksRepositoryProof))"

definition frozen_context_of :: "delivery_store \<Rightarrow> evaluation_input \<Rightarrow> context_reference \<Rightarrow> (evidence_error, frozen_context option) result" where
  "frozen_context_of st i r = (case r of
       PinnedBrainEntity _ _ _ _ digest \<Rightarrow> res_bind (frozen_brain (predicate_for i r) digest) (\<lambda>f. Inr (Some (FrozenBrain f)))
     | RepositoryDocument _ _ _ required \<Rightarrow>
         res_bind (lift_evidence (lift_store (context_reference_digest r))) (\<lambda>expected.
         res_bind (frozen_document st (predicate_for i r) required expected) (\<lambda>f. Inr (Some (FrozenDocument f))))
     | UrlReference _ _ \<Rightarrow> Inr None)"

definition upstream_receipts :: "evaluation_input \<Rightarrow> uuid list" where
  "upstream_receipts i =
     List.map_filter (\<lambda>d. map_option mr_id (dp_receipt d))
       (sort_key (\<lambda>d. (dp_ticket_id d, dp_contract_revision d, dp_attempt d, milestone_text (dp_milestone d))) (ei_dependencies i))"

definition frozen_receipt_proof_of ::
    "delivery_store \<Rightarrow> evaluation_input \<Rightarrow> string \<Rightarrow> string \<Rightarrow> instant \<Rightarrow> acceptance_mode option \<Rightarrow> receipt_issuer
     \<Rightarrow> explicit_acceptance_decision option \<Rightarrow> (evidence_error, frozen_receipt_proof) result" where
  "frozen_receipt_proof_of st i assessment_id delivery decision_time basis issuer explicit =
     (case cr_content_digest (ei_contract i) of
        None \<Rightarrow> Inl NoContractDigest
      | Some digest \<Rightarrow>
          res_bind (res_map (frozen_artifact st)
            (sort_key (\<lambda>e. ab_deliverable_key (be_binding e)) (ei_active_bindings i))) (\<lambda>artifacts.
          res_bind (res_map (frozen_context_of st i)
            (filter ref_required (sort_key context_reference_identity (cr_context_refs (ei_contract i))))) (\<lambda>contexts.
          let found = List.map_filter (\<lambda>f. f) contexts;
              p = \<lparr>fp_ticket_id = cr_ticket_id (ei_contract i), fp_contract_revision = cr_contract_revision (ei_contract i),
                fp_contract_digest = digest, fp_attempt = ei_attempt i, fp_workflow_version = ei_workflow_version i,
                fp_delivery_digest = delivery, fp_assessment_id = assessment_id, fp_decision_time = decision_time,
                fp_artifact_proofs = artifacts,
                fp_brain_context_proofs = List.map_filter (\<lambda>f. case f of FrozenBrain b \<Rightarrow> Some b | _ \<Rightarrow> None) found,
                fp_repository_context_proofs = List.map_filter (\<lambda>f. case f of FrozenDocument d \<Rightarrow> Some d | _ \<Rightarrow> None) found,
                fp_upstream_receipt_ids = upstream_receipts i, fp_issuer = issuer, fp_acceptance_basis = basis,
                fp_explicit_acceptance = explicit\<rparr> in
          res_bind (ensure (valid_frozen_receipt_proof p) InvalidReceipt) (\<lambda>_. Inr p))))"

section \<open>Receipts\<close>

definition receipt_of ::
    "evaluation_input \<Rightarrow> frozen_receipt_proof \<Rightarrow> receipt_milestone \<Rightarrow> string \<Rightarrow> instant \<Rightarrow> acceptance_mode option
     \<Rightarrow> explicit_acceptance_decision option \<Rightarrow> uuid \<Rightarrow> (evidence_error, milestone_receipt) result" where
  "receipt_of i p m delivery decision_time basis explicit fresh_id =
     (let r = \<lparr>mr_id = fresh_id, mr_ticket_id = cr_ticket_id (ei_contract i), mr_milestone = m,
        mr_contract_revision = cr_contract_revision (ei_contract i), mr_attempt = ei_attempt i,
        mr_contract_digest = fp_contract_digest p, mr_delivery_digest = delivery, mr_issued_at = decision_time,
        mr_acceptance_basis = basis, mr_explicit_acceptance = explicit, mr_proof = p\<rparr> in
      res_bind (ensure (valid_milestone_receipt r) InvalidReceipt) (\<lambda>_. Inr r))"

definition receipt_key :: "receipt_row \<Rightarrow> uuid \<times> int \<times> int \<times> receipt_milestone \<times> string" where
  "receipt_key x = (rx_ticket_id x, rx_revision x, rx_attempt x, rx_milestone x, rx_delivery_digest x)"

definition receipt_row_of :: "milestone_receipt \<Rightarrow> receipt_row" where
  "receipt_row_of r =
     \<lparr>rx_id = mr_id r, rx_ticket_id = mr_ticket_id r, rx_revision = mr_contract_revision r, rx_attempt = mr_attempt r,
      rx_milestone = mr_milestone r, rx_delivery_digest = mr_delivery_digest r, rx_payload = r,
      rx_issuer = ri_issuer_identity (fp_issuer (mr_proof r)), rx_basis = mr_acceptance_basis r, rx_issued_at = mr_issued_at r\<rparr>"

definition insert_receipt :: "delivery_store \<Rightarrow> milestone_receipt \<Rightarrow> instant \<Rightarrow> (evidence_error, delivery_store) result" where
  "insert_receipt st r pg_now =
     (let x = receipt_row_of r; st' = st\<lparr>ds_receipts := ds_receipts st @ [x]\<rparr> in
      res_bind (ensure (rx_id x \<notin> rx_id ` set (ds_receipts st) \<and> receipt_key x \<notin> receipt_key ` set (ds_receipts st)) ReceiptExists) (\<lambda>_.
      if mr_milestone r = IntegrationReceipt
      then (case close_slots_satisfied_by st' [mr_ticket_id r] (mr_id r) pg_now of
              Inl e \<Rightarrow> Inl (EvidenceSlot e) | Inr (st'', _) \<Rightarrow> Inr st'')
      else Inr st'))"

definition issue_under_scope ::
    "(int \<Rightarrow> instant) \<Rightarrow> receipt_settings \<Rightarrow> delivery_store \<Rightarrow> uuid \<Rightarrow> uuid \<times> uuid \<Rightarrow> instant \<Rightarrow> instant
     \<Rightarrow> (evidence_error, delivery_store \<times> milestone_receipt option) result" where
  "issue_under_scope tz settings st t ids decision_time pg_now =
     (case settings of
        None \<Rightarrow> Inr (st, None)
      | Some (freshness, issuer) \<Rightarrow>
          res_bind (lift_evidence (load_inputs st t True freshness)) (\<lambda>loaded.
          case loaded of
            None \<Rightarrow> Inr (st, None)
          | Some i \<Rightarrow>
              (case evaluate_delivery tz i (Aware decision_time) of
                 Inl e \<Rightarrow> Inl (EvidenceEvaluation e)
               | Inr a \<Rightarrow>
                   if \<not> as_integration_receipt_eligible a then Inr (st, None)
                   else (case ei_integration_receipt i of
                       Some r \<Rightarrow> Inr (st, Some r)
                     | None \<Rightarrow>
                         res_bind (frozen_receipt_proof_of st i (as_assessment_id a) (as_delivery_digest a) decision_time None issuer None) (\<lambda>p.
                         res_bind (receipt_of i p IntegrationReceipt (as_delivery_digest a) decision_time None None (fst ids)) (\<lambda>r.
                         res_bind (insert_receipt st r pg_now) (\<lambda>st1.
                         if cr_acceptance_mode (ei_contract i) = Automatic
                         then res_bind (receipt_of i (p\<lparr>fp_acceptance_basis := Some Automatic\<rparr>) FulfilledReceipt (as_delivery_digest a)
                                decision_time (Some Automatic) None (snd ids)) (\<lambda>f.
                              res_bind (insert_receipt st1 f pg_now) (\<lambda>st2. Inr (st2, Some r)))
                         else Inr (st1, Some r))))))))"

definition issue_integration_receipt ::
    "(int \<Rightarrow> instant) \<Rightarrow> receipt_settings \<Rightarrow> delivery_store \<Rightarrow> uuid \<Rightarrow> uuid \<times> uuid \<Rightarrow> instant \<Rightarrow> instant
     \<Rightarrow> (evidence_error, delivery_store \<times> milestone_receipt option) result" where
  "issue_integration_receipt tz settings st t ids decision_time pg_now =
     (if settings = None then Inr (st, None)
      else res_bind (lift_evidence (lock_decision_scope st t)) (\<lambda>k.
        issue_under_scope tz settings st (tk_id k) ids decision_time pg_now))"

record acceptance_call =
  ac_actor_project :: string
  ac_caller_identity :: string
  ac_rationale :: string
  ac_expected_revision :: int
  ac_expected_attempt :: int
  ac_expected_digest :: string

definition accept ::
    "(int \<Rightarrow> instant) \<Rightarrow> bool \<Rightarrow> int \<Rightarrow> delivery_store \<Rightarrow> uuid \<Rightarrow> acceptance_call \<Rightarrow> uuid \<Rightarrow> instant \<Rightarrow> instant
     \<Rightarrow> (evidence_error, delivery_store \<times> milestone_receipt) result" where
  "accept tz enabled freshness st t call fresh_id decision_time pg_now =
     (let issuer = \<lparr>ri_issuer_project = ac_actor_project call, ri_issuer_identity = ac_caller_identity call, ri_issuer_kind = Requester\<rparr>;
          explicit = \<lparr>ea_requester_project = ac_actor_project call, ea_rationale = ac_rationale call\<rparr> in
      res_bind (ensure enabled EvidenceDisabled) (\<lambda>_.
      res_bind (ensure (strip (ac_caller_identity call) \<noteq> []) InvalidAcceptance) (\<lambda>_.
      res_bind (ensure (valid_receipt_issuer issuer \<and> valid_explicit_acceptance explicit) InvalidAcceptance) (\<lambda>_.
      res_bind (lift_evidence (lock_decision_scope st t)) (\<lambda>k.
      res_bind (ensure (tk_from_project k = ac_actor_project call) AcceptanceNotAllowed) (\<lambda>_.
      res_bind (lift_evidence (load_inputs st (tk_id k) True freshness)) (\<lambda>loaded.
      case loaded of
        None \<Rightarrow> Inl AcceptanceNotEligible
      | Some i \<Rightarrow>
          (case evaluate_delivery tz i (Aware decision_time) of
             Inl e \<Rightarrow> Inl (EvidenceEvaluation e)
           | Inr a \<Rightarrow>
               res_bind (ensure (cr_acceptance_mode (ei_contract i) = Explicit) AcceptanceNotEligible) (\<lambda>_.
               res_bind (ensure (cr_contract_revision (ei_contract i) = ac_expected_revision call \<and> ei_attempt i = ac_expected_attempt call \<and>
                   as_delivery_digest a = ac_expected_digest call) EvidenceGenerationConflict) (\<lambda>_.
               case ei_integration_receipt i of
                 None \<Rightarrow> Inl AcceptanceNotEligible
               | Some integration \<Rightarrow>
                   res_bind (ensure (as_integration_receipt_eligible a) AcceptanceNotEligible) (\<lambda>_.
                   res_bind (ensure (mr_contract_revision integration = ac_expected_revision call \<and>
                       mr_attempt integration = ac_expected_attempt call \<and>
                       mr_delivery_digest integration = ac_expected_digest call) AcceptanceNotEligible) (\<lambda>_.
                   case ei_fulfillment_receipt i of
                     Some f \<Rightarrow> Inr (st, f)
                   | None \<Rightarrow>
                       res_bind (frozen_receipt_proof_of st i (as_assessment_id a) (as_delivery_digest a) decision_time (Some Explicit)
                         issuer (Some explicit)) (\<lambda>p.
                       res_bind (receipt_of i p FulfilledReceipt (as_delivery_digest a) decision_time (Some Explicit) (Some explicit) fresh_id) (\<lambda>f.
                       res_bind (insert_receipt st f pg_now) (\<lambda>st1. Inr (st1, f))))))))))))))))"

end
