(* ===== verification/Delivery_Publication.thy ===== *)
theory Delivery_Publication
  imports Delivery_Receipts
begin

text \<open>
  The publications of \<open>pg_delivery_evidence.py\<close>: \<open>publish_observation\<close> and \<open>record_observation_error\<close> for
  an artifact binding, \<open>publish_repository_context\<close> and \<open>record_repository_context_error\<close> for a context
  set. Each validates its input, locks and compares the current generation, appends a confirmation,
  advances the subject, and a successful one issues the integration receipt if it is now due.
\<close>

section \<open>Artifact observations\<close>

definition validated_artifact_success :: "pull_request_evidence \<Rightarrow> pydatetime \<Rightarrow> pydatetime \<Rightarrow> (evidence_error, instant \<times> instant) result" where
  "validated_artifact_success ev started finished =
     res_bind (ensure (valid_pull_request_evidence ev \<and> pe_complete ev \<and> interval_ok started finished) EvidenceSubjectMismatch)
       (\<lambda>_. Inr (moment started, moment finished))"

definition validated_artifact_error :: "string \<Rightarrow> pydatetime \<Rightarrow> pydatetime \<Rightarrow> (evidence_error, instant \<times> instant) result" where
  "validated_artifact_error code started finished =
     res_bind (ensure (code \<in> set SAFE_OBSERVATION_ERROR_CODES) InvalidErrorCode) (\<lambda>_.
     res_bind (ensure (interval_ok started finished) EvidenceSubjectMismatch) (\<lambda>_. Inr (moment started, moment finished)))"

definition EVIDENCE_TERMINAL :: "ticket_status list" where
  "EVIDENCE_TERMINAL = [SWontfix, SClosed, SAcked]"

text \<open>A ticket that is gone turns into the caller's conflict; other errors of the scope pass through.\<close>

definition scope_or :: "evidence_error \<Rightarrow> (store_error, ticket) result \<Rightarrow> (evidence_error, ticket) result" where
  "scope_or conflict r = (case r of Inl e \<Rightarrow> Inl (if e = StoreTicketNotFound then conflict else EvidenceStore e) | Inr t \<Rightarrow> Inr t)"

definition get_binding :: "binding_row list \<Rightarrow> uuid \<Rightarrow> binding_row option" where
  "get_binding rows i = find_row (\<lambda>b. ab_id (bw_binding b) = i) rows"

interpretation binding_rows: keyed_table "\<lambda>b. ab_id (bw_binding b)" get_binding
  by unfold_locales (simp add: get_binding_def)

definition lock_current_subject ::
    "delivery_store \<Rightarrow> uuid \<Rightarrow> int \<Rightarrow> (evidence_error, binding_row \<times> workflow_row \<times> ticket) result" where
  "lock_current_subject st i expected =
     (case get_binding (db_bindings (ds_db st)) i of
        None \<Rightarrow> Inl BindingConflict
      | Some row \<Rightarrow>
          res_bind (scope_or BindingConflict (lock_decision_scope st (ab_ticket_id (bw_binding row)))) (\<lambda>t.
          res_bind (ensure (ab_binding_version (bw_binding row) = expected) BindingConflict) (\<lambda>_.
          res_bind (ensure (bw_active row) BindingConflict) (\<lambda>_.
          case get_workflow (store_workflows st) (ab_ticket_id (bw_binding row)) of
            None \<Rightarrow> Inl BindingSuperseded
          | Some w \<Rightarrow>
              res_bind (ensure (tk_status t \<notin> set EVIDENCE_TERMINAL \<and> wf_disposition w = DActive \<and>
                  wf_current_revision w = ab_contract_revision (bw_binding row) \<and> wf_attempt w = ab_attempt (bw_binding row))
                BindingSuperseded) (\<lambda>_. Inr (row, w, t))))))"

definition target_branch :: "delivery_store \<Rightarrow> artifact_binding \<Rightarrow> (evidence_error, string) result" where
  "target_branch st b =
     (case get_revision (ds_revisions st) (ab_ticket_id b, ab_contract_revision b) of
        None \<Rightarrow> Inl BindingSuperseded
      | Some rv \<Rightarrow> (case List.find (\<lambda>d. dl_key d = ab_deliverable_key b) (cr_deliverables (rw_contract rv)) of
            None \<Rightarrow> Inl BindingSuperseded
          | Some d \<Rightarrow> Inr (dl_target_branch d)))"

definition validate_subject :: "delivery_store \<Rightarrow> artifact_binding \<Rightarrow> pull_request_evidence \<Rightarrow> (evidence_error, unit) result" where
  "validate_subject st b ev =
     res_bind (ensure (pe_repository_id ev = ab_repository_id b \<and> pe_pr_number ev = ab_pr_number b \<and> pe_complete ev)
       EvidenceSubjectMismatch) (\<lambda>_.
     res_bind (target_branch st b) (\<lambda>branch. ensure (pe_base_ref ev = branch) EvidenceSubjectMismatch))"

text \<open>The snapshot of a subject with the same semantic digest is shared; otherwise one is inserted.\<close>

definition put_snapshot :: "delivery_store \<Rightarrow> evidence_subject \<Rightarrow> string \<Rightarrow> snapshot_evidence \<Rightarrow> uuid \<Rightarrow> (evidence_error, delivery_store \<times> uuid) result" where
  "put_snapshot st subject digest evidence fresh_id =
     (case find_row (\<lambda>s. sn_subject s = subject \<and> sn_semantic_digest s = digest) (ds_snapshots st) of
        Some s \<Rightarrow> Inr (st, sn_id s)
      | None \<Rightarrow>
          res_bind (ensure (fresh_id \<notin> sn_id ` set (ds_snapshots st)) (EvidenceStore ConstraintViolated)) (\<lambda>_.
          Inr (st\<lparr>ds_snapshots := ds_snapshots st @
            [\<lparr>sn_id = fresh_id, sn_subject = subject, sn_semantic_digest = digest, sn_evidence = evidence\<rparr>]\<rparr>, fresh_id)))"

definition put_confirmation :: "delivery_store \<Rightarrow> confirmation_row \<Rightarrow> (evidence_error, delivery_store) result" where
  "put_confirmation st c =
     res_bind (ensure (cf_id c \<notin> cf_id ` set (ds_confirmations st)) (EvidenceStore ConstraintViolated)) (\<lambda>_.
     Inr (st\<lparr>ds_confirmations := ds_confirmations st @ [c]\<rparr>))"

definition observed_row :: "uuid \<Rightarrow> instant \<Rightarrow> pull_request_evidence option \<Rightarrow> int \<Rightarrow> binding_row \<Rightarrow> binding_row" where
  "observed_row confirmation finished evidence version r =
     (let r1 = r\<lparr>bw_attempt_confirmation := Some confirmation, bw_last_attempt_at := Some finished,
            bw_binding := (bw_binding r)\<lparr>ab_binding_version := version + 1\<rparr>\<rparr> in
      case evidence of
        None \<Rightarrow> r1
      | Some ev \<Rightarrow> r1\<lparr>bw_success_confirmation := Some confirmation, bw_last_success_at := Some finished,
          bw_binding := (bw_binding r1)\<lparr>ab_state := BObserved, ab_head_sha := Some (pe_head_sha ev),
            ab_base_sha := Some (pe_base_sha ev), ab_integration_sha := pe_integration_sha ev\<rparr>\<rparr>)"

definition advance_subject ::
    "delivery_store \<Rightarrow> binding_row \<Rightarrow> workflow_row \<Rightarrow> uuid \<Rightarrow> instant \<Rightarrow> pull_request_evidence option \<Rightarrow> instant \<Rightarrow> delivery_store" where
  "advance_subject st row w confirmation finished evidence pg_now =
     (let b = bw_binding row in
      st\<lparr>ds_db := (ds_db st)
           \<lparr>db_bindings := update_rows (\<lambda>r. ab_id (bw_binding r) = ab_id b \<and> ab_binding_version (bw_binding r) = ab_binding_version b)
              (observed_row confirmation finished evidence (ab_binding_version b)) (db_bindings (ds_db st)),
            db_workflows := update_rows (\<lambda>x. wf_ticket_id x = wf_ticket_id w \<and> wf_row_version x = wf_row_version w)
              (\<lambda>x. x\<lparr>wf_row_version := wf_row_version w + 1, wf_updated_at := pg_now\<rparr>) (db_workflows (ds_db st))\<rparr>\<rparr>)"

record evidence_ids =
  id_snapshot :: uuid
  id_confirmation :: uuid
  id_receipts :: "uuid \<times> uuid"

definition publish_observation ::
    "(int \<Rightarrow> instant) \<Rightarrow> (instant \<Rightarrow> string) \<Rightarrow> receipt_settings \<Rightarrow> delivery_store \<Rightarrow> uuid \<Rightarrow> int \<Rightarrow> pull_request_evidence
     \<Rightarrow> pydatetime \<Rightarrow> pydatetime \<Rightarrow> evidence_ids \<Rightarrow> instant \<Rightarrow> instant
     \<Rightarrow> (evidence_error, delivery_store \<times> observation_confirmation) result" where
  "publish_observation tz render settings st i expected ev started finished ids decision_time pg_now =
     res_bind (validated_artifact_success ev started finished) (\<lambda>(from, till).
     res_bind (lock_current_subject st i expected) (\<lambda>(row, w, t).
     res_bind (validate_subject st (bw_binding row) ev) (\<lambda>_.
     res_bind (lift_evidence (lift_store (canonical_digest (semantic_payload render ev) Result))) (\<lambda>digest.
     res_bind (put_snapshot st (ArtifactSubject i) digest (PullRequestSnapshot ev) (id_snapshot ids)) (\<lambda>(st1, sid).
     res_bind (put_confirmation st1 \<lparr>cf_id = id_confirmation ids, cf_subject = ArtifactSubject i, cf_snapshot_id = Some sid,
       cf_collection_started_at = from, cf_collection_finished_at = till, cf_outcome = OutSuccess, cf_error_code = None\<rparr>) (\<lambda>st2.
     let st3 = advance_subject st2 row w (id_confirmation ids) till (Some ev) pg_now in
     res_bind (issue_under_scope tz settings st3 (tk_id t) (id_receipts ids) decision_time pg_now) (\<lambda>(st4, _).
     Inr (st4, \<lparr>oc_id = id_confirmation ids, oc_evidence = Some ev, oc_collection_started_at = started,
       oc_collection_finished_at = finished, oc_outcome = OutSuccess, oc_error_code = None\<rparr>))))))))"

definition record_observation_error ::
    "delivery_store \<Rightarrow> uuid \<Rightarrow> int \<Rightarrow> string \<Rightarrow> pydatetime \<Rightarrow> pydatetime \<Rightarrow> uuid \<Rightarrow> instant
     \<Rightarrow> (evidence_error, delivery_store \<times> observation_confirmation) result" where
  "record_observation_error st i expected code started finished fresh_id pg_now =
     res_bind (validated_artifact_error code started finished) (\<lambda>(from, till).
     res_bind (lock_current_subject st i expected) (\<lambda>(row, w, t).
     res_bind (put_confirmation st \<lparr>cf_id = fresh_id, cf_subject = ArtifactSubject i, cf_snapshot_id = None,
       cf_collection_started_at = from, cf_collection_finished_at = till, cf_outcome = OutError, cf_error_code = Some code\<rparr>) (\<lambda>st1.
     Inr (advance_subject st1 row w fresh_id till None pg_now,
       \<lparr>oc_id = fresh_id, oc_evidence = None, oc_collection_started_at = started, oc_collection_finished_at = finished,
        oc_outcome = OutError, oc_error_code = Some code\<rparr>))))"

section \<open>Repository contexts\<close>

record context_expectation =
  ce_revision :: int
  ce_attempt :: int
  ce_set_digest :: string
  ce_row_version :: int

definition validated_context_success ::
    "repository_context_evidence \<Rightarrow> pydatetime \<Rightarrow> pydatetime \<Rightarrow> (evidence_error, instant \<times> instant) result" where
  "validated_context_success e started finished =
     res_bind (ensure (valid_repository_context_evidence e \<and> re_complete e \<and> interval_ok started finished) ContextMismatch)
       (\<lambda>_. Inr (moment started, moment finished))"

definition validated_context_error :: "string \<Rightarrow> pydatetime \<Rightarrow> pydatetime \<Rightarrow> (evidence_error, instant \<times> instant) result" where
  "validated_context_error code started finished =
     res_bind (ensure (in_len 1 100 code \<and> interval_ok started finished) ContextMismatch) (\<lambda>_. Inr (moment started, moment finished))"

definition lock_current_context ::
    "delivery_store \<Rightarrow> uuid \<Rightarrow> context_expectation \<Rightarrow> (evidence_error, workflow_row \<times> ticket) result" where
  "lock_current_context st i expected =
     res_bind (scope_or ContextConflict (lock_decision_scope st i)) (\<lambda>t.
     case get_workflow (store_workflows st) i of
       None \<Rightarrow> Inl ContextConflict
     | Some w \<Rightarrow>
         res_bind (ensure (tk_status t \<notin> set EVIDENCE_TERMINAL \<and> wf_disposition w = DActive \<and>
             wf_current_revision w = ce_revision expected \<and> wf_attempt w = ce_attempt expected \<and>
             wf_context_set_digest w = ce_set_digest expected) ContextSuperseded) (\<lambda>_.
         res_bind (ensure (wf_context_row_version w = ce_row_version expected) ContextConflict) (\<lambda>_. Inr (w, t))))"

definition expected_documents :: "contract_revision \<Rightarrow> (int \<times> string \<times> string) list" where
  "expected_documents c = remdups (map (\<lambda>r. (rd_repository_id r, rd_sha r, rd_path r)) (context_documents c))"

definition validate_context_subject :: "delivery_store \<Rightarrow> workflow_row \<Rightarrow> repository_context_evidence \<Rightarrow> (evidence_error, unit) result" where
  "validate_context_subject st w e =
     (case get_revision (ds_revisions st) (wf_ticket_id w, wf_current_revision w) of
        None \<Rightarrow> Inl ContextSuperseded
      | Some rv \<Rightarrow>
          res_bind (ensure (valid_contract_revision (rw_contract rv)) (EvidenceStore InvalidStored)) (\<lambda>_.
          let expected = expected_documents (rw_contract rv); facts = re_facts e in
          ensure (re_complete e \<and> expected \<noteq> [] \<and> length facts = length expected \<and> distinct (map rf_identity facts) \<and>
              set (map rf_identity facts) = set expected \<and>
              list_all (\<lambda>f. rf_status f = FactAvailable \<and> rf_tree_sha f \<noteq> None \<and> rf_blob_sha f \<noteq> None \<and>
                (rf_mode f = Some ''100644'' \<or> rf_mode f = Some ''100755'')) facts) ContextMismatch))"

definition context_row :: "uuid \<Rightarrow> instant \<Rightarrow> bool \<Rightarrow> string option \<Rightarrow> instant \<Rightarrow> workflow_row \<Rightarrow> workflow_row" where
  "context_row confirmation finished success code pg_now w =
     (let w1 = w\<lparr>wf_context_attempt_confirmation := Some confirmation, wf_context_last_attempt_at := Some finished,
            wf_context_last_attempt_outcome := Some (if success then OutSuccess else OutError),
            wf_context_last_error_code := (if success then None else code),
            wf_context_row_version := wf_context_row_version w + 1, wf_row_version := wf_row_version w + 1, wf_updated_at := pg_now\<rparr> in
      if success then w1\<lparr>wf_context_success_confirmation := Some confirmation, wf_context_last_success_at := Some finished\<rparr> else w1)"

definition advance_context ::
    "delivery_store \<Rightarrow> workflow_row \<Rightarrow> uuid \<Rightarrow> instant \<Rightarrow> bool \<Rightarrow> string option \<Rightarrow> instant \<Rightarrow> delivery_store" where
  "advance_context st w confirmation finished success code pg_now =
     st\<lparr>ds_db := (ds_db st)\<lparr>db_workflows := update_rows (\<lambda>x. wf_ticket_id x = wf_ticket_id w \<and> wf_row_version x = wf_row_version w \<and>
          wf_context_row_version x = wf_context_row_version w) (context_row confirmation finished success code pg_now)
        (db_workflows (ds_db st))\<rparr>\<rparr>"

definition context_subject :: "uuid \<Rightarrow> context_expectation \<Rightarrow> evidence_subject" where
  "context_subject i e = ContextSubject i (ce_revision e) (ce_attempt e) (ce_set_digest e)"

definition publish_repository_context ::
    "(int \<Rightarrow> instant) \<Rightarrow> receipt_settings \<Rightarrow> delivery_store \<Rightarrow> uuid \<Rightarrow> context_expectation \<Rightarrow> repository_context_evidence
     \<Rightarrow> pydatetime \<Rightarrow> pydatetime \<Rightarrow> evidence_ids \<Rightarrow> instant \<Rightarrow> instant
     \<Rightarrow> (evidence_error, delivery_store \<times> repository_context_confirmation) result" where
  "publish_repository_context tz settings st i expected e started finished ids decision_time pg_now =
     res_bind (validated_context_success e started finished) (\<lambda>(from, till).
     res_bind (lock_current_context st i expected) (\<lambda>(w, t).
     res_bind (validate_context_subject st w e) (\<lambda>_.
     res_bind (lift_evidence (lift_store (canonical_digest (context_payload (sorted_evidence e)) Result))) (\<lambda>digest.
     res_bind (put_snapshot st (context_subject i expected) digest (ContextSnapshot (sorted_evidence e)) (id_snapshot ids)) (\<lambda>(st1, sid).
     res_bind (put_confirmation st1 \<lparr>cf_id = id_confirmation ids, cf_subject = context_subject i expected, cf_snapshot_id = Some sid,
       cf_collection_started_at = from, cf_collection_finished_at = till, cf_outcome = OutSuccess, cf_error_code = None\<rparr>) (\<lambda>st2.
     let st3 = advance_context st2 w (id_confirmation ids) till True None pg_now in
     res_bind (issue_under_scope tz settings st3 (tk_id t) (id_receipts ids) decision_time pg_now) (\<lambda>(st4, _).
     Inr (st4, \<lparr>rcc_id = id_confirmation ids, rcc_snapshot_id = Some sid, rcc_evidence = Some e, rcc_collection_started_at = from,
       rcc_collection_finished_at = till, rcc_outcome = OutSuccess, rcc_error_code = None\<rparr>))))))))"

definition record_repository_context_error ::
    "delivery_store \<Rightarrow> uuid \<Rightarrow> context_expectation \<Rightarrow> string \<Rightarrow> pydatetime \<Rightarrow> pydatetime \<Rightarrow> uuid \<Rightarrow> instant
     \<Rightarrow> (evidence_error, delivery_store \<times> repository_context_confirmation) result" where
  "record_repository_context_error st i expected code started finished fresh_id pg_now =
     res_bind (ensure (code \<in> set SAFE_OBSERVATION_ERROR_CODES) InvalidErrorCode) (\<lambda>_.
     res_bind (validated_context_error code started finished) (\<lambda>(from, till).
     res_bind (lock_current_context st i expected) (\<lambda>(w, t).
     res_bind (put_confirmation st \<lparr>cf_id = fresh_id, cf_subject = context_subject i expected, cf_snapshot_id = None,
       cf_collection_started_at = from, cf_collection_finished_at = till, cf_outcome = OutError, cf_error_code = Some code\<rparr>) (\<lambda>st1.
     Inr (advance_context st1 w fresh_id till False (Some code) pg_now,
       \<lparr>rcc_id = fresh_id, rcc_snapshot_id = None, rcc_evidence = None, rcc_collection_started_at = from,
        rcc_collection_finished_at = till, rcc_outcome = OutError, rcc_error_code = Some code\<rparr>)))))"

end
