(* ===== verification/Delivery_Loaded.thy ===== *)
theory Delivery_Loaded
  imports Delivery_Loading
begin

text \<open>
  What the loaded inputs of \<open>Delivery_Loading\<close> say about the stored rows: every binding evidence, receipt,
  dependency and context predicate that a decision reads is a row of the store, of the current
  generation. The properties compose them with the ticket transitions and the evaluator.
\<close>

section \<open>Inversion of the reads\<close>

lemma list_all2_right: "list_all2 P xs ys \<Longrightarrow> y \<in> set ys \<Longrightarrow> \<exists>x \<in> set xs. P x y"
  by (induction rule: list_all2_induct) auto

lemma lift_store_Inr [result_simps]: "lift_store r = Inr x \<longleftrightarrow> r = Inr x"
  by (cases r) (auto simp: lift_store_def)

definition receipt_stored :: "delivery_store \<Rightarrow> milestone_receipt \<Rightarrow> bool" where
  "receipt_stored st r = (\<exists>x \<in> set (ds_receipts st). rx_payload x = r \<and> rx_id x = mr_id r \<and> rx_ticket_id x = mr_ticket_id r \<and>
     rx_revision x = mr_contract_revision r \<and> rx_attempt x = mr_attempt r \<and> rx_milestone x = mr_milestone r \<and>
     rx_delivery_digest x = mr_delivery_digest r \<and> rx_issued_at x = mr_issued_at r)"

lemma matching_receipt_Inr:
  assumes "matching_receipt st i revision attempt m digest delivery = Inr (Some r)"
  shows "receipt_stored st r" "valid_milestone_receipt r" "mr_ticket_id r = i" "mr_contract_revision r = revision" "mr_attempt r = attempt" "mr_milestone r = m"
    "mr_contract_digest r = digest" "mr_delivery_digest r = delivery"
  using assms by (auto simp: matching_receipt_def receipt_stored_def Let_def result_simps dest!: find_row_Some
      split: option.splits if_splits intro!: bexI)

lemma stored_contract_Inr [result_simps]:
  "stored_contract rv = Inr (c, digest) \<longleftrightarrow>
     c = rw_contract rv \<and> valid_contract_revision c \<and> cr_content_digest c = Some digest"
  by (auto simp: stored_contract_def result_simps split: option.splits)

lemma success_proof_Some:
  "success_proof st i = Some (c, s) \<Longrightarrow> i = Some (cf_id c) \<and> c \<in> set (ds_confirmations st) \<and> s \<in> set (ds_snapshots st) \<and>
     cf_snapshot_id c = Some (sn_id s)"
  by (auto simp: success_proof_def get_confirmation_def bind_eq_Some_conv dest!: find_row_Some)

text \<open>A loaded binding with a confirmation has its snapshot in the store.\<close>

definition evidence_stored :: "delivery_store \<Rightarrow> binding_row \<Rightarrow> observation_confirmation \<Rightarrow> pull_request_evidence \<Rightarrow> bool" where
  "evidence_stored st row o' ev = (\<exists>c \<in> set (ds_confirmations st). \<exists>s \<in> set (ds_snapshots st).
     bw_success_confirmation row = Some (cf_id c) \<and> cf_snapshot_id c = Some (sn_id s) \<and>
     sn_evidence s = PullRequestSnapshot ev \<and> oc_collection_started_at o' = Aware (cf_collection_started_at c) \<and>
     oc_collection_finished_at o' = Aware (cf_collection_finished_at c))"

lemma binding_evidence_of_Inr:
  assumes "binding_evidence_of st row = Inr e"
  shows "be_binding e = bw_binding row" "valid_binding_evidence e"
    "be_confirmation e = Some c \<Longrightarrow> oc_evidence c = Some ev \<Longrightarrow> evidence_stored st row c ev"
  using assms by (auto simp: binding_evidence_of_def observation_of_def evidence_stored_def Let_def result_simps
      dest!: success_proof_Some split: option.splits snapshot_evidence.splits) blast

lemma load_generation_Inr:
  assumes "load_generation st i revision attempt digest = Inr (es, delivery)"
  shows "list_all2 (\<lambda>row e. binding_evidence_of st row = Inr e) (active_bindings st i revision attempt) es"
    and "delivery_digest digest attempt es = Inr delivery"
  using assms by (auto simp: load_generation_def result_simps res_map_Inr_iff)

lemma load_inputs_Inr:
  assumes "load_inputs st i enabled freshness = Inr (Some inputs)"
  obtains w t rv digest delivery where "get_workflow (store_workflows st) i = Some w" "get_ticket (db_tickets (ds_db st)) i = Some t"
    "get_revision (ds_revisions st) (i, wf_current_revision w) = Some rv"
    "ei_contract inputs = rw_contract rv" "valid_contract_revision (rw_contract rv)" "cr_content_digest (rw_contract rv) = Some digest"
    "ei_attempt inputs = wf_attempt w" "ei_workflow_version inputs = wf_row_version w"
    "ei_coordination_status inputs = status_text (tk_status t)" "ei_coordination_disposition inputs = wf_disposition w"
    "load_generation st i (wf_current_revision w) (wf_attempt w) digest = Inr (ei_active_bindings inputs, delivery)"
    "matching_receipt st i (wf_current_revision w) (wf_attempt w) IntegrationReceipt digest delivery = Inr (ei_integration_receipt inputs)"
    "matching_receipt st i (wf_current_revision w) (wf_attempt w) FulfilledReceipt digest delivery = Inr (ei_fulfillment_receipt inputs)"
    "list_all2 (\<lambda>x p. load_dependency st x = Inr p) (dependency_join st i (wf_current_revision w)) (ei_dependencies inputs)"
    "context_predicates st (rw_contract rv) w = Inr (ei_contexts inputs)" "ei_freshness_seconds inputs = freshness"
    "valid_evaluation_input inputs" "ei_feature_enabled inputs = enabled"
    "ei_is_self_ticket inputs = (tk_from_project t = tk_to_project t)"
proof -
  from assms obtain w t rv where w: "get_workflow (store_workflows st) i = Some w" "get_ticket (db_tickets (ds_db st)) i = Some t"
    "get_revision (ds_revisions st) (i, wf_current_revision w) = Some rv"
    unfolding load_inputs_def by (auto split: option.splits)
  from assms show ?thesis
    unfolding load_inputs_def w option.case Let_def
    by (clarsimp simp: result_simps res_map_Inr_iff) (rule that [OF w]; simp add: result_simps)
qed

lemma load_dependency_Inr:
  assumes "load_dependency st (d, w, rv) = Inr p"
  shows "dp_identity p = dd_identity d" "dp_receipt p = Some r \<Longrightarrow> receipt_stored st r"
  using assms by (auto simp: load_dependency_def Let_def result_simps dp_identity_def dd_identity_def
      intro: matching_receipt_Inr(1) split: if_splits)

lemma lock_decision_scope_Inr:
  "lock_decision_scope st i = Inr t \<Longrightarrow> get_ticket (db_tickets (ds_db st)) i = Some t"
  by (auto simp: lock_decision_scope_def result_simps split: option.splits)

lemma load_locked_Inr:
  assumes "load_locked_decision_inputs st i enabled freshness now = Inr locked"
  shows "get_ticket (db_tickets (ds_db st)) i = Some (ld_ticket locked)" "tk_id (ld_ticket locked) = i"
    "load_inputs st i enabled freshness = Inr (ld_inputs locked)" "ld_decision_time locked = now"
proof -
  from assms obtain t inputs where t: "lock_decision_scope st i = Inr t" "load_inputs st (tk_id t) enabled freshness = Inr inputs"
    "locked = \<lparr>ld_ticket = t, ld_inputs = inputs, ld_decision_time = now\<rparr>"
    by (auto simp: load_locked_decision_inputs_def result_simps split: sum.splits)
  moreover from tickets.get_row_Some [OF lock_decision_scope_Inr [OF t(1)]] have "tk_id t = i" by simp
  ultimately show "get_ticket (db_tickets (ds_db st)) i = Some (ld_ticket locked)" "tk_id (ld_ticket locked) = i"
    "load_inputs st i enabled freshness = Inr (ld_inputs locked)" "ld_decision_time locked = now"
    using lock_decision_scope_Inr by simp_all
qed


section \<open>Satisfied requirements on loaded inputs\<close>

lemma satisfied_parts:
  assumes "evaluate_delivery local_utc i (Aware now) = Inr a" and "as_requirements_satisfied a"
    and "distinct (map dl_key (cr_deliverables (ei_contract i)))"
  shows "list_all (deliverable_proved i) (cr_deliverables (ei_contract i)) \<and> dependencies_proved i \<and> observations_fresh i now \<and>
    ei_feature_enabled i \<and> ei_coordination_disposition i = DActive"
  using assms(1)
proof (cases rule: evaluate_delivery_elim)
  case (1 now' cfs active)
  from 1(1,6,8,10) assms(2) have "evaluation_blockers i (current_health i now) (has_integration i a) cfs = []" "current_health i now = Fresh"
    "ei_coordination_disposition i = DActive" by auto
  then show ?thesis
    by (simp add: evaluation_blockers_Nil dependency_findings_Nil current_health_Fresh deliverable_findings_Nil [OF assms(3)])
qed

lemma filter_single:
  assumes "filter P xs = [x]"
  shows "x \<in> set xs" "P x"
  using arg_cong [OF assms, of set] by auto

text \<open>The proof of a deliverable in the store: the active binding of its slot, observed, with a stored
  confirmation and snapshot of a merged pull request, no older than the freshness bound.\<close>

definition deliverable_backed :: "delivery_store \<Rightarrow> workflow_row \<Rightarrow> int \<Rightarrow> instant \<Rightarrow> deliverable \<Rightarrow> bool" where
  "deliverable_backed st w freshness now d =
     (\<exists>row \<in> set (db_bindings (ds_db st)). \<exists>c \<in> set (ds_confirmations st). \<exists>s \<in> set (ds_snapshots st). \<exists>ev.
        bw_active row \<and> slot (bw_binding row) = (wf_ticket_id w, wf_current_revision w, wf_attempt w, dl_key d) \<and>
        ab_state (bw_binding row) = BObserved \<and> bw_success_confirmation row = Some (cf_id c) \<and> cf_snapshot_id c = Some (sn_id s) \<and>
        sn_evidence s = PullRequestSnapshot ev \<and> evidence_proved d (bw_binding row) ev \<and>
        cf_collection_finished_at c \<le> now \<and> now \<le> cf_collection_finished_at c + freshness * 1000000)"

lemma deliverable_proved_backed:
  assumes "load_generation st (wf_ticket_id w) (wf_current_revision w) (wf_attempt w) digest = Inr (ei_active_bindings inputs, delivery)"
    and "deliverable_proved inputs d" and "observations_fresh inputs now" and "ei_freshness_seconds inputs = freshness"
  shows "deliverable_backed st w freshness now d"
proof -
  from assms(2) obtain e c ev where e: "filter (\<lambda>e. ab_deliverable_key (be_binding e) = dl_key d) (ei_active_bindings inputs) = [e]"
      "ab_state (be_binding e) = BObserved" "be_confirmation e = Some c" "oc_evidence c = Some ev" "evidence_proved d (be_binding e) ev"
    by (auto simp: deliverable_proved_def)
  then have mem: "e \<in> set (ei_active_bindings inputs)" "ab_deliverable_key (be_binding e) = dl_key d"
    using filter_single [OF e(1)] by simp_all
  then obtain row where row: "row \<in> set (active_bindings st (wf_ticket_id w) (wf_current_revision w) (wf_attempt w))"
      "binding_evidence_of st row = Inr e"
    using list_all2_right [OF load_generation_Inr(1) [OF assms(1)]] by blast
  note loaded = binding_evidence_of_Inr [OF row(2)]
  from loaded(3) [OF e(3,4)] obtain cf s where cf: "cf \<in> set (ds_confirmations st)" "s \<in> set (ds_snapshots st)"
      "bw_success_confirmation row = Some (cf_id cf)" "cf_snapshot_id cf = Some (sn_id s)" "sn_evidence s = PullRequestSnapshot ev"
      "oc_collection_finished_at c = Aware (cf_collection_finished_at cf)"
    by (auto simp: evidence_stored_def)
  from assms(3) mem(1) have "binding_fresh inputs now e" by (simp add: observations_fresh_def list_all_iff)
  with e(3,4) cf(6) assms(4) have "cf_collection_finished_at cf \<le> now" "now \<le> cf_collection_finished_at cf + freshness * 1000000"
    by (auto simp: binding_fresh_def within_freshness_def)
  moreover have "row \<in> set (db_bindings (ds_db st))" "bw_active row"
      "slot (bw_binding row) = (wf_ticket_id w, wf_current_revision w, wf_attempt w, dl_key d)"
    using row(1) mem(2) loaded(1) by (auto simp: active_bindings_def slot_def)
  ultimately show ?thesis unfolding deliverable_backed_def using cf e(2,5) loaded(1) by (intro bexI [of _ row] bexI [of _ cf] bexI [of _ s] exI [of _ ev]) simp_all
qed

definition dependency_backed :: "delivery_store \<Rightarrow> delivery_dependency \<Rightarrow> bool" where
  "dependency_backed st d =
     (\<exists>x \<in> set (ds_receipts st). rx_ticket_id x = dd_ticket_id d \<and> rx_revision x = dd_contract_revision d \<and> rx_attempt x = dd_attempt d \<and>
        rx_milestone x = (case dd_milestone d of Integrated \<Rightarrow> IntegrationReceipt | Accepted \<Rightarrow> FulfilledReceipt))"

lemma dependency_proved_backed:
  assumes "list_all2 (\<lambda>x p. load_dependency st x = Inr p) xs (ei_dependencies inputs)" and "dependency_proved inputs d"
  shows "dependency_backed st d"
proof -
  from assms(2) obtain p r where p: "filter (\<lambda>p. dp_identity p = dd_identity d) (ei_dependencies inputs) = [p]" "dp_receipt p = Some r"
      "receipt_matches_pin r p" by (auto simp: dependency_proved_def)
  then have mem: "p \<in> set (ei_dependencies inputs)" "dp_identity p = dd_identity d"
    using filter_single [OF p(1)] by simp_all
  then obtain x where "load_dependency st x = Inr p" using list_all2_right [OF assms(1)] by blast
  then have "receipt_stored st r" using load_dependency_Inr(2) p(2) by (cases x) auto
  with p(3) mem(2) show ?thesis
    by (auto simp: dependency_backed_def receipt_stored_def receipt_matches_pin_def dp_identity_def dd_identity_def)
qed

lemma loaded_requirements_backed:
  assumes "load_inputs st i enabled freshness = Inr (Some inputs)" and "get_workflow (store_workflows st) i = Some w"
    and "evaluate_delivery local_utc (inputs\<lparr>ei_requested_completion_action := action\<rparr>) (Aware now) = Inr a" and "as_requirements_satisfied a"
  shows "enabled \<and> wf_disposition w = DActive \<and> (\<exists>rv. get_revision (ds_revisions st) (i, wf_current_revision w) = Some rv \<and>
     (\<forall>d \<in> set (cr_deliverables (rw_contract rv)). deliverable_backed st w freshness now d) \<and>
     (\<forall>d \<in> set (cr_dependencies (rw_contract rv)). dependency_backed st d))"
  using assms(1)
proof (cases rule: load_inputs_Inr)
  case (1 w' t rv digest delivery)
  let ?i = "inputs\<lparr>ei_requested_completion_action := action\<rparr>"
  from 1(1) assms(2) have w: "w' = w" "wf_ticket_id w = i" using workflows.get_row_Some [OF assms(2)] by simp_all
  have keys: "distinct (map dl_key (cr_deliverables (ei_contract ?i)))" using 1(4,5) by (simp add: valid_contract_revision_def)
  note parts = satisfied_parts [OF assms(3,4) keys]
  have gen: "load_generation st (wf_ticket_id w) (wf_current_revision w) (wf_attempt w) digest = Inr (ei_active_bindings ?i, delivery)"
    using 1(11) w by simp
  have "deliverable_backed st w freshness now d" if "d \<in> set (cr_deliverables (rw_contract rv))" for d
    by (rule deliverable_proved_backed [OF gen]) (use parts that 1(4,16) in \<open>simp_all add: list_all_iff\<close>)
  moreover have "dependency_backed st d" if "d \<in> set (cr_dependencies (rw_contract rv))" for d
    by (rule dependency_proved_backed [where inputs = ?i]) (use parts that 1(4,14) in \<open>simp_all add: dependencies_proved_def list_all_iff\<close>)
  moreover have "enabled" "wf_disposition w = DActive" using parts 1(10,18) w by simp_all
  ultimately show ?thesis using 1(3) w by blast
qed

lemma loaded_fulfilment_stored:
  assumes "load_inputs st i enabled freshness = Inr (Some inputs)" and "get_workflow (store_workflows st) i = Some w"
    and "ei_fulfillment_receipt inputs = Some r"
  shows "\<exists>x \<in> set (ds_receipts st). rx_payload x = r \<and> rx_ticket_id x = i \<and> rx_revision x = wf_current_revision w \<and>
    rx_attempt x = wf_attempt w \<and> rx_milestone x = FulfilledReceipt"
  using assms(1)
proof (cases rule: load_inputs_Inr)
  case (1 w' t rv digest delivery)
  from 1(1) assms(2) have "w' = w" by simp
  with matching_receipt_Inr [OF 1(13) [unfolded assms(3)]] show ?thesis by (auto simp: receipt_stored_def)
qed

lemma closing_action:
  assumes "rule_for t act = Inr (actor, SClosed)" and "act \<in> {AResolve, AResolvePending, AConfirm}"
  shows "completion_action_of (is_self_ticket t) act \<notin> {Some CrossResolve, Some SelfResolvePending}"
  using assms by (auto simp: rule_for_def Let_def completion_action_of_def TRANSITIONS_def SELF_TRANSITIONS_def split: if_splits option.splits)

end
