(* ===== verification/Focus_Slot_Laws.thy ===== *)
theory Focus_Slot_Laws
  imports Focus_Slots
begin

text \<open>
  Laws of the focus slots. Every change of the slot tables is one of three writes (\<open>slot_write\<close>): an
  opening, a rewriting of the body, a closing. They keep \<open>slots_ok\<close>: one history row per revision, from 0
  to the current one, the last with the current body. The receipt hook closes exactly the open slots that
  its receipt satisfies.
\<close>

section \<open>When an anchor is received\<close>

lemma first_row_None [simp]: "first_row key rows = None \<longleftrightarrow> rows = []"
  by (cases "sort_key key rows") (auto simp: first_row_def dest: arg_cong [of _ _ length])

lemma ticket_receipt_iff: "ticket_receipt st t \<noteq> None \<longleftrightarrow> (\<exists>x \<in> set (ds_receipts st). integrates st x t)"
  by (simp add: ticket_receipt_def filter_empty_conv)

lemma pr_receipt_iff:
  "pr_receipt st project r n \<noteq> None \<longleftrightarrow>
     (\<exists>x \<in> set (ds_receipts st). \<exists>b \<in> set (db_bindings (ds_db st)). observed_binding_of st project r n x b)"
  by (simp add: pr_receipt_def filter_empty_conv list_ex_iff)

lemma lot_release_iff: "lot_release st project v \<noteq> None \<longleftrightarrow> (\<exists>a \<in> set (ds_attestations st). measures_release st project v a)"
  by (simp add: lot_release_def filter_empty_conv)

lemma received_anchor_mono:
  assumes "\<And>t. ticket_receipt st' t \<noteq> None \<Longrightarrow> sa_kind a = AnchorTicket \<Longrightarrow> sa_ticket_id a = Some t \<Longrightarrow> ticket_receipt st t \<noteq> None"
    and "\<And>r n. pr_receipt st' project r n \<noteq> None \<Longrightarrow> sa_kind a = AnchorPr \<Longrightarrow> sa_repository_id a = Some r \<Longrightarrow> sa_pr_number a = Some n \<Longrightarrow>
      pr_receipt st project r n \<noteq> None"
    and "\<And>v. lot_release st' project v \<noteq> None \<Longrightarrow> sa_kind a = AnchorLot \<Longrightarrow> sa_target_release a = Some v \<Longrightarrow> lot_release st project v \<noteq> None"
    and "received_anchor st' project a \<noteq> None"
  shows "received_anchor st project a \<noteq> None"
  using assms by (cases "sa_kind a") (auto simp: received_anchor_def bind_eq_Some_conv)

text \<open>A slot is satisfied when its decisive anchors are all received.\<close>

lemma slot_satisfied_mono:
  assumes "slot_satisfied (anchor_states st' s)" and "load_anchors st' (sl_id s) = load_anchors st (sl_id s)"
    and "\<And>a. a \<in> set (load_anchors st (sl_id s)) \<Longrightarrow> received_anchor st' (sl_project_key s) a \<noteq> None \<Longrightarrow> received_anchor st (sl_project_key s) a \<noteq> None"
  shows "slot_satisfied (anchor_states st s)"
proof -
  have kinds: "filter (\<lambda>x. as_kind x = AnchorLot) (anchor_states st'' s) = [] \<longleftrightarrow> filter (\<lambda>a. sa_kind a = AnchorLot) (load_anchors st'' (sl_id s)) = []" for st''
    by (simp add: anchor_states_def filter_empty_conv)
  have sat: "slot_satisfied (anchor_states st'' s) \<longleftrightarrow> load_anchors st'' (sl_id s) \<noteq> [] \<and>
      (\<forall>a \<in> set (load_anchors st'' (sl_id s)). (\<forall>b \<in> set (load_anchors st'' (sl_id s)). sa_kind b \<noteq> AnchorLot) \<or> sa_kind a = AnchorLot \<longrightarrow>
        received_anchor st'' (sl_project_key s) a \<noteq> None)" for st''
    by (auto simp: slot_satisfied_def decisive_def Let_def list_all_iff kinds filter_empty_conv anchor_states_def)
  show ?thesis using assms unfolding sat by metis
qed

lemma received_anchor_cong:
  assumes "ds_db st' = ds_db st" "ds_receipts st' = ds_receipts st" "ds_attestations st' = ds_attestations st"
  shows "received_anchor st' = received_anchor st"
proof -
  have "ticket_receipt st' = ticket_receipt st" "pr_receipt st' = pr_receipt st" "lot_release st' = lot_release st"
    using assms by (simp_all add: fun_eq_iff ticket_receipt_def pr_receipt_def lot_release_def integrates_def observed_binding_of_def [abs_def]
        measures_release_def [abs_def] targets_def current_generation_def store_workflows_def)
  then show ?thesis by (intro ext) (simp add: received_anchor_def split: anchor_kind.split)
qed

lemma slot_satisfied_cong:
  assumes "ds_db st' = ds_db st" "ds_receipts st' = ds_receipts st" "ds_attestations st' = ds_attestations st" "ds_anchors st' = ds_anchors st"
    and "sl_id s' = sl_id s" "sl_project_key s' = sl_project_key s"
  shows "anchor_states st' s' = anchor_states st s"
  using assms(4-) received_anchor_cong [OF assms(1-3)] by (simp add: anchor_states_def load_anchors_def)

section \<open>The writes\<close>

inductive slot_write :: "delivery_store \<Rightarrow> delivery_store \<Rightarrow> bool" where
  opened: "open_slot st project title body anchors author fresh_id anchor_ids pg_now = Inr (st', s, False) \<Longrightarrow> slot_write st st'"
| rewritten: "cas_slot_body st i expected body pg_now = (st1, Some s) \<Longrightarrow> sh_slot_id h = i \<Longrightarrow> sh_revision h = sl_revision s \<Longrightarrow>
    sh_body h = sl_body s \<Longrightarrow> slot_write st (record_slot_history st1 h)"
| closed: "close_slot st i reason comment pg_now = Inr (st', s) \<Longrightarrow> slot_write st st'"

definition history_key :: "slot_history_row \<Rightarrow> uuid \<times> int" where
  "history_key h = (sh_slot_id h, sh_revision h)"

definition slots_ok :: "delivery_store \<Rightarrow> bool" where
  "slots_ok st =
     (distinct (map sl_id (ds_slots st)) \<and> distinct (map history_key (ds_slot_history st)) \<and>
      (\<forall>s \<in> set (ds_slots st). 0 \<le> sl_revision s \<and>
         (\<exists>h \<in> set (ds_slot_history st). history_key h = (sl_id s, sl_revision s) \<and> sh_body h = sl_body s)) \<and>
      (\<forall>i r. (i, r) \<in> history_key ` set (ds_slot_history st) \<longleftrightarrow> (\<exists>s \<in> set (ds_slots st). sl_id s = i \<and> 0 \<le> r \<and> r \<le> sl_revision s)) \<and>
      (\<forall>a \<in> set (ds_anchors st). an_slot_id a \<in> sl_id ` set (ds_slots st)) \<and>
      (\<forall>s \<in> set (ds_slots st). \<forall>t \<in> set (ds_slots st). sl_closed_at s = None \<and> sl_closed_at t = None \<and>
         sl_project_key s = sl_project_key t \<and> sl_title s = sl_title t \<longrightarrow> s = t))"

lemma slots_okD:
  assumes "slots_ok st"
  shows "distinct (map sl_id (ds_slots st))" "distinct (map history_key (ds_slot_history st))"
    and "s \<in> set (ds_slots st) \<Longrightarrow> 0 \<le> sl_revision s"
    and "s \<in> set (ds_slots st) \<Longrightarrow> \<exists>h \<in> set (ds_slot_history st). history_key h = (sl_id s, sl_revision s) \<and> sh_body h = sl_body s"
    and "(i, r) \<in> history_key ` set (ds_slot_history st) \<longleftrightarrow> (\<exists>s \<in> set (ds_slots st). sl_id s = i \<and> 0 \<le> r \<and> r \<le> sl_revision s)"
    and "a \<in> set (ds_anchors st) \<Longrightarrow> an_slot_id a \<in> sl_id ` set (ds_slots st)"
    and "s \<in> set (ds_slots st) \<Longrightarrow> t \<in> set (ds_slots st) \<Longrightarrow> sl_closed_at s = None \<Longrightarrow> sl_closed_at t = None \<Longrightarrow>
      sl_project_key s = sl_project_key t \<Longrightarrow> sl_title s = sl_title t \<Longrightarrow> s = t"
  using assms unfolding slots_ok_def by blast+

lemma slots_okI:
  assumes "distinct (map sl_id (ds_slots st))" "distinct (map history_key (ds_slot_history st))"
    and "\<And>s. s \<in> set (ds_slots st) \<Longrightarrow> 0 \<le> sl_revision s"
    and "\<And>s. s \<in> set (ds_slots st) \<Longrightarrow> \<exists>h \<in> set (ds_slot_history st). history_key h = (sl_id s, sl_revision s) \<and> sh_body h = sl_body s"
    and "\<And>i r. (i, r) \<in> history_key ` set (ds_slot_history st) \<longleftrightarrow> (\<exists>s \<in> set (ds_slots st). sl_id s = i \<and> 0 \<le> r \<and> r \<le> sl_revision s)"
    and "\<And>a. a \<in> set (ds_anchors st) \<Longrightarrow> an_slot_id a \<in> sl_id ` set (ds_slots st)"
    and "\<And>s t. s \<in> set (ds_slots st) \<Longrightarrow> t \<in> set (ds_slots st) \<Longrightarrow> sl_closed_at s = None \<Longrightarrow> sl_closed_at t = None \<Longrightarrow>
      sl_project_key s = sl_project_key t \<Longrightarrow> sl_title s = sl_title t \<Longrightarrow> s = t"
  shows "slots_ok st"
  using assms unfolding slots_ok_def by blast

text \<open>What a write of one slot does to the tables.\<close>

lemma bex_insert: "(\<exists>x \<in> insert a A. P x) \<longleftrightarrow> P a \<or> (\<exists>x \<in> A. P x)"
  by blast

lemma slots_ok_rewrite:
  assumes "slots_ok st" and "s \<in> set (ds_slots st)" and "sl_closed_at s = None"
    and f: "sl_id (f s) = sl_id s" "sl_project_key (f s) = sl_project_key s" "sl_title (f s) = sl_title s" "sl_revision (f s) = sl_revision s + 1"
    and hit: "\<And>x. x \<in> set (ds_slots st) \<Longrightarrow> p x \<longleftrightarrow> x = s"
    and h: "history_key h = (sl_id s, sl_revision s + 1)" "sh_body h = sl_body (f s)"
  shows "slots_ok (record_slot_history (st\<lparr>ds_slots := update_rows p f (ds_slots st)\<rparr>) h)"
proof -
  let ?h = "h\<lparr>sh_actor := map_option (take 64) (sh_actor h)\<rparr>"
  have ids: "\<And>x y. x \<in> set (ds_slots st) \<Longrightarrow> y \<in> set (ds_slots st) \<Longrightarrow> sl_id x = sl_id y \<Longrightarrow> x = y"
    using assms(1) by (auto simp: slots_ok_def distinct_map inj_on_def)
  have slots: "set (update_rows p f (ds_slots st)) = insert (f s) (set (ds_slots st) - {s})"
    using hit assms(2) by (auto simp: set_update_rows)
  have maps: "map sl_id (update_rows p f (ds_slots st)) = map sl_id (ds_slots st)"
    unfolding update_rows_def using hit f(1) by (simp add: comp_def)
  have new: "history_key h \<notin> history_key ` set (ds_slot_history st)"
  proof
    assume "history_key h \<in> history_key ` set (ds_slot_history st)"
    moreover have "\<forall>i r. (i, r) \<in> history_key ` set (ds_slot_history st) \<longleftrightarrow> (\<exists>s \<in> set (ds_slots st). sl_id s = i \<and> 0 \<le> r \<and> r \<le> sl_revision s)"
      using assms(1) by (simp add: slots_ok_def)
    ultimately obtain x where "x \<in> set (ds_slots st)" "sl_id x = sl_id s" "sl_revision s + 1 \<le> sl_revision x" unfolding h(1) by blast
    with ids [OF _ assms(2)] show False by fastforce
  qed
  then have rec: "record_slot_history (st\<lparr>ds_slots := update_rows p f (ds_slots st)\<rparr>) h =
      st\<lparr>ds_slots := update_rows p f (ds_slots st), ds_slot_history := ds_slot_history st @ [?h]\<rparr>"
    by (simp add: record_slot_history_def list_ex_iff history_key_def image_iff) metis
  have key: "history_key ?h = history_key h" by (simp add: history_key_def)
  have pos: "0 \<le> sl_revision s" using assms(1,2) by (simp add: slots_ok_def)
  have hist: "(i, r) \<in> insert (history_key h) (history_key ` set (ds_slot_history st)) \<longleftrightarrow>
      (\<exists>x \<in> insert (f s) (set (ds_slots st) - {s}). sl_id x = i \<and> 0 \<le> r \<and> r \<le> sl_revision x)" for i r
  proof -
    have old: "(i, r) \<in> history_key ` set (ds_slot_history st) \<longleftrightarrow> (\<exists>s \<in> set (ds_slots st). sl_id s = i \<and> 0 \<le> r \<and> r \<le> sl_revision s)"
      using assms(1) by (simp add: slots_ok_def)
    have split: "(\<exists>x \<in> set (ds_slots st). sl_id x = i \<and> 0 \<le> r \<and> r \<le> sl_revision x) \<longleftrightarrow>
        (sl_id s = i \<and> 0 \<le> r \<and> r \<le> sl_revision s) \<or> (\<exists>x \<in> set (ds_slots st) - {s}. sl_id x = i \<and> 0 \<le> r \<and> r \<le> sl_revision x)"
      using assms(2) by blast
    have "r \<le> sl_revision s + 1 \<longleftrightarrow> r \<le> sl_revision s \<or> r = sl_revision s + 1" by linarith
    then have "(sl_id s = i \<and> 0 \<le> r \<and> r \<le> sl_revision s + 1) \<longleftrightarrow> (i, r) = (sl_id s, sl_revision s + 1) \<or> (sl_id s = i \<and> 0 \<le> r \<and> r \<le> sl_revision s)"
      using pos by auto
    then show ?thesis unfolding insert_iff old split h(1) bex_insert f(1,4) by blast
  qed
  let ?st = "st\<lparr>ds_slots := update_rows p f (ds_slots st), ds_slot_history := ds_slot_history st @ [?h]\<rparr>"
  have fields: "set (ds_slots ?st) = insert (f s) (set (ds_slots st) - {s})" "set (ds_slot_history ?st) = insert ?h (set (ds_slot_history st))"
    "ds_anchors ?st = ds_anchors st" by (simp_all add: slots)
  show ?thesis unfolding rec
  proof (rule slots_okI)
    show "distinct (map sl_id (ds_slots ?st))" using slots_okD(1) [OF assms(1)] by (simp add: maps)
    show "distinct (map history_key (ds_slot_history ?st))" using slots_okD(2) [OF assms(1)] new by (simp add: key)
    show "0 \<le> sl_revision x" if "x \<in> set (ds_slots ?st)" for x
      using that slots_okD(3) [OF assms(1), of x] pos f(4) unfolding fields by auto
    show "\<exists>k \<in> set (ds_slot_history ?st). history_key k = (sl_id x, sl_revision x) \<and> sh_body k = sl_body x" if "x \<in> set (ds_slots ?st)" for x
      using that slots_okD(4) [OF assms(1), of x] h f(1,4) key unfolding fields by auto
    show "(i, r) \<in> history_key ` set (ds_slot_history ?st) \<longleftrightarrow> (\<exists>x \<in> set (ds_slots ?st). sl_id x = i \<and> 0 \<le> r \<and> r \<le> sl_revision x)" for i r
      using hist [of i r] unfolding fields image_insert key .
    show "an_slot_id a \<in> sl_id ` set (ds_slots ?st)" if "a \<in> set (ds_anchors ?st)" for a
    proof -
      have "sl_id ` insert (f s) (set (ds_slots st) - {s}) = sl_id ` set (ds_slots st)" using f(1) assms(2) by auto
      with slots_okD(6) [OF assms(1), of a] that show ?thesis unfolding fields by simp
    qed
    show "x = y" if "x \<in> set (ds_slots ?st)" "y \<in> set (ds_slots ?st)" "sl_closed_at x = None" "sl_closed_at y = None"
        "sl_project_key x = sl_project_key y" "sl_title x = sl_title y" for x y
    proof -
      have other: False if "z \<in> set (ds_slots st) - {s}" "sl_closed_at z = None" "sl_project_key z = sl_project_key (f s)" "sl_title z = sl_title (f s)" for z
        using slots_okD(7) [OF assms(1), of z s] that assms(2,3) f(2,3) by simp
      from that(1,2) consider "x = f s" "y = f s" | "x = f s" "y \<in> set (ds_slots st) - {s}" | "x \<in> set (ds_slots st) - {s}" "y = f s"
        | "x \<in> set (ds_slots st)" "y \<in> set (ds_slots st)" unfolding fields by blast
      then show ?thesis
        by cases (use other [of y] other [of x] slots_okD(7) [OF assms(1), of x y] that(3-6) in simp_all)
    qed
  qed
qed


lemma open_slot_fresh:
  assumes "open_slot st project title body anchors author fresh_id anchor_ids pg_now = Inr (st', s, False)"
  shows "fresh_id \<notin> sl_id ` set (ds_slots st)" "open_by_title st project title = None"
    "\<And>a. a \<in> set anchors \<Longrightarrow> received_anchor st project a = None" "length anchor_ids = length anchors"
    "s = \<lparr>sl_id = fresh_id, sl_project_key = project, sl_title = title, sl_body = body, sl_revision = 0, sl_opened_at = pg_now,
      sl_body_updated_at = pg_now, sl_closed_at = None, sl_close_reason = None, sl_close_note = None, sl_author_client_id = author\<rparr>"
    "st' = record_slot_history (st\<lparr>ds_slots := ds_slots st @ [s],
        ds_anchors := ds_anchors st @ map (\<lambda>(k, a). \<lparr>an_id = k, an_slot_id = fresh_id, an_anchor = a, an_created_at = pg_now\<rparr>) (zip anchor_ids anchors)\<rparr>)
      \<lparr>sh_slot_id = fresh_id, sh_revision = 0, sh_body = body, sh_source = ''slot_open'', sh_session_id = None, sh_actor = None\<rparr>"
proof -
  from assms show *: "open_by_title st project title = None"
    by (auto simp: open_slot_def result_simps split: option.splits)
  from assms obtain us where us: "list_all2 (\<lambda>a u. ensure (received_anchor st project a = None) AnchorAlreadyReceived = Inr u) anchors us"
    by (auto simp: open_slot_def * Let_def result_simps res_map_Inr_iff)
  show "received_anchor st project a = None" if "a \<in> set anchors" for a
    using that us by (auto simp: list_all2_conv_all_nth in_set_conv_nth result_simps)
  show "fresh_id \<notin> sl_id ` set (ds_slots st)" "length anchor_ids = length anchors"
    "s = \<lparr>sl_id = fresh_id, sl_project_key = project, sl_title = title, sl_body = body, sl_revision = 0, sl_opened_at = pg_now,
      sl_body_updated_at = pg_now, sl_closed_at = None, sl_close_reason = None, sl_close_note = None, sl_author_client_id = author\<rparr>"
    "st' = record_slot_history (st\<lparr>ds_slots := ds_slots st @ [s],
        ds_anchors := ds_anchors st @ map (\<lambda>(k, a). \<lparr>an_id = k, an_slot_id = fresh_id, an_anchor = a, an_created_at = pg_now\<rparr>) (zip anchor_ids anchors)\<rparr>)
      \<lparr>sh_slot_id = fresh_id, sh_revision = 0, sh_body = body, sh_source = ''slot_open'', sh_session_id = None, sh_actor = None\<rparr>"
    using assms by (simp_all add: open_slot_def * Let_def result_simps) blast+
qed

lemma slots_ok_open:
  assumes "slots_ok st" and "fresh_id \<notin> sl_id ` set (ds_slots st)" and "open_by_title st (sl_project_key s) (sl_title s) = None"
    and s: "sl_id s = fresh_id" "sl_revision s = 0" "sl_closed_at s = None"
    and h: "history_key h = (fresh_id, 0)" "sh_body h = sl_body s" "sh_actor h = None"
    and anchors: "\<And>a. a \<in> set as \<Longrightarrow> an_slot_id a = fresh_id"
  shows "slots_ok (record_slot_history (st\<lparr>ds_slots := ds_slots st @ [s], ds_anchors := ds_anchors st @ as\<rparr>) h)"
proof -
  note ok = slots_okD [OF assms(1)]
  have new: "(fresh_id, r) \<notin> history_key ` set (ds_slot_history st)" for r
    unfolding ok(5) using assms(2) by auto
  have rec: "record_slot_history (st\<lparr>ds_slots := ds_slots st @ [s], ds_anchors := ds_anchors st @ as\<rparr>) h =
      st\<lparr>ds_slots := ds_slots st @ [s], ds_anchors := ds_anchors st @ as, ds_slot_history := ds_slot_history st @ [h]\<rparr>"
    using new [of 0] h(1,3) by (simp add: record_slot_history_def list_ex_iff history_key_def image_iff)
  let ?st = "st\<lparr>ds_slots := ds_slots st @ [s], ds_anchors := ds_anchors st @ as, ds_slot_history := ds_slot_history st @ [h]\<rparr>"
  have fields: "set (ds_slots ?st) = insert s (set (ds_slots st))" "set (ds_slot_history ?st) = insert h (set (ds_slot_history st))" by simp_all
  have other: False if "z \<in> set (ds_slots st)" "sl_closed_at z = None" "sl_project_key z = sl_project_key s" "sl_title z = sl_title s" for z
    using that assms(3) by (auto simp: open_by_title_def find_row_None)
  show ?thesis unfolding rec
  proof (rule slots_okI)
    show "distinct (map sl_id (ds_slots ?st))" using ok(1) assms(2) s(1) by simp
    show "distinct (map history_key (ds_slot_history ?st))" using ok(2) new [of 0] h(1) by simp
    show "0 \<le> sl_revision x" if "x \<in> set (ds_slots ?st)" for x using that ok(3) [of x] s(2) unfolding fields by auto
    show "\<exists>k \<in> set (ds_slot_history ?st). history_key k = (sl_id x, sl_revision x) \<and> sh_body k = sl_body x" if "x \<in> set (ds_slots ?st)" for x
      using that ok(4) [of x] s h unfolding fields by auto
    show "(i, r) \<in> history_key ` set (ds_slot_history ?st) \<longleftrightarrow> (\<exists>x \<in> set (ds_slots ?st). sl_id x = i \<and> 0 \<le> r \<and> r \<le> sl_revision x)" for i r
      unfolding fields image_insert insert_iff ok(5) bex_insert h(1) s(1,2) by auto
    show "an_slot_id a \<in> sl_id ` set (ds_slots ?st)" if "a \<in> set (ds_anchors ?st)" for a
      using that ok(6) [of a] anchors [of a] s(1) by auto
    show "x = y" if "x \<in> set (ds_slots ?st)" "y \<in> set (ds_slots ?st)" "sl_closed_at x = None" "sl_closed_at y = None"
        "sl_project_key x = sl_project_key y" "sl_title x = sl_title y" for x y
    proof -
      from that(1,2) consider "x = s" "y = s" | "x = s" "y \<in> set (ds_slots st)" | "x \<in> set (ds_slots st)" "y = s"
        | "x \<in> set (ds_slots st)" "y \<in> set (ds_slots st)" unfolding fields by blast
      then show ?thesis by cases (use other [of y] other [of x] ok(7) [of x y] that(3-6) in simp_all)
    qed
  qed
qed

lemma slots_ok_write:
  assumes "slots_ok st" and "slot_write st st'"
  shows "slots_ok st'"
  using assms(2)
proof cases
  case (opened project title body anchors author fresh_id anchor_ids pg_now s)
  note o = open_slot_fresh [OF opened]
  show ?thesis unfolding o(6)
  proof (rule slots_ok_open [OF assms(1) o(1)])
    show "open_by_title st (sl_project_key s) (sl_title s) = None" using o(2) by (simp add: o(5))
  qed (auto simp: o(5) history_key_def)
next
  case (rewritten i expected body pg_now st1 s h)
  from rewritten(2) obtain s0 where s0: "s0 \<in> set (ds_slots st)" "sl_id s0 = i" "sl_revision s0 = expected" "sl_closed_at s0 = None"
      "s = rewritten_slot body pg_now s0"
    by (auto simp: cas_slot_body_def Let_def dest: find_row_Some)
  have st1: "st1 = st\<lparr>ds_slots := update_rows (\<lambda>s. sl_id s = i \<and> sl_revision s = expected \<and> sl_closed_at s = None) (rewritten_slot body pg_now) (ds_slots st)\<rparr>"
    using rewritten(2) by (simp add: cas_slot_body_def Let_def)
  have one: "x = s0" if "x \<in> set (ds_slots st)" "sl_id x = i" for x
    using slots_okD(1) [OF assms(1)] that s0(1,2) by (auto simp: distinct_map inj_on_def)
  have "\<And>x. x \<in> set (ds_slots st) \<Longrightarrow> (sl_id x = i \<and> sl_revision x = expected \<and> sl_closed_at x = None) \<longleftrightarrow> x = s0"
    using one s0 by blast
  then show ?thesis unfolding rewritten(1) st1
    by (rule slots_ok_rewrite [OF assms(1) s0(1,4), rotated 4]) (use s0(2,5) rewritten(3-5) in \<open>simp_all add: rewritten_slot_def history_key_def\<close>)
next
  case (closed i reason comment pg_now s)
  then obtain s0 where s0: "s0 \<in> set (ds_slots st)" "sl_id s0 = i" "sl_closed_at s0 = None" "s = closed_slot reason comment pg_now s0"
    and st': "st' = record_slot_history (st\<lparr>ds_slots := update_rows (\<lambda>s. sl_id s = i \<and> sl_closed_at s = None) (closed_slot reason comment pg_now) (ds_slots st)\<rparr>)
        \<lparr>sh_slot_id = i, sh_revision = sl_revision s, sh_body = sl_body s, sh_source = ''slot_close'', sh_session_id = None, sh_actor = None\<rparr>"
    by (auto simp: close_slot_def Let_def split: option.splits dest!: find_row_Some)
  have one: "x = s0" if "x \<in> set (ds_slots st)" "sl_id x = i" for x
    using slots_okD(1) [OF assms(1)] that s0(1,2) by (auto simp: distinct_map inj_on_def)
  have "\<And>x. x \<in> set (ds_slots st) \<Longrightarrow> (sl_id x = i \<and> sl_closed_at x = None) \<longleftrightarrow> x = s0"
    using one s0 by blast
  then show ?thesis unfolding st'
    by (rule slots_ok_rewrite [OF assms(1) s0(1,3), rotated 4]) (use s0(2,4) in \<open>simp_all add: closed_slot_def history_key_def\<close>)
qed

interpretation slot_tables: invariant_system slots_ok slot_write slots_ok
  by unfold_locales (auto intro: slots_ok_write)

section \<open>The receipt hook\<close>

text \<open>The tables that a write of slots leaves alone.\<close>

definition same_delivery :: "delivery_store \<Rightarrow> delivery_store \<Rightarrow> bool" where
  "same_delivery st st' = (ds_db st' = ds_db st \<and> ds_revisions st' = ds_revisions st \<and> ds_dependencies st' = ds_dependencies st \<and>
     ds_events st' = ds_events st \<and> ds_snapshots st' = ds_snapshots st \<and> ds_confirmations st' = ds_confirmations st \<and>
     ds_receipts st' = ds_receipts st \<and> ds_attestations st' = ds_attestations st \<and> ds_entities st' = ds_entities st)"

lemma same_delivery_trans: "same_delivery st st' \<Longrightarrow> same_delivery st' st'' \<Longrightarrow> same_delivery st st''"
  by (simp add: same_delivery_def)

lemma record_slot_history_same [simp]:
  "ds_slots (record_slot_history st h) = ds_slots st" "ds_anchors (record_slot_history st h) = ds_anchors st"
  "ds_sessions (record_slot_history st h) = ds_sessions st" "ds_projects (record_slot_history st h) = ds_projects st"
  "same_delivery st (record_slot_history st h)"
  by (simp_all add: record_slot_history_def same_delivery_def)

lemma close_slot_Inr:
  assumes "close_slot st i reason comment pg_now = Inr (st', s)"
  shows "same_delivery st st'" "ds_anchors st' = ds_anchors st"
    "ds_slots st' = update_rows (\<lambda>s. sl_id s = i \<and> sl_closed_at s = None) (closed_slot reason comment pg_now) (ds_slots st)"
  using assms by (auto simp: close_slot_def Let_def record_slot_history_def same_delivery_def split: option.splits)

lemma close_slot_open_rows:
  assumes "close_slot st i reason comment pg_now = Inr (st', s)" and "x \<in> set (ds_slots st')" and "sl_closed_at x = None"
  shows "x \<in> set (ds_slots st)" "sl_id x \<noteq> i"
proof -
  obtain y where y: "y \<in> set (ds_slots st)" "x = (if sl_id y = i \<and> sl_closed_at y = None then closed_slot reason comment pg_now y else y)"
    using assms(2) unfolding close_slot_Inr(3) [OF assms(1)] update_rows_def by auto
  with assms(3) have "\<not> (sl_id y = i \<and> sl_closed_at y = None)" "x = y" by (simp_all add: closed_slot_def split: if_splits)
  with y(1) assms(3) show "x \<in> set (ds_slots st)" "sl_id x \<noteq> i" by simp_all
qed

lemma close_each_effect:
  "close_each origin st hook pg_now ss = Inr (st', closed) \<Longrightarrow>
     slot_write\<^sup>*\<^sup>* st st' \<and> same_delivery st st' \<and> ds_anchors st' = ds_anchors st \<and>
     (\<forall>x \<in> set (ds_slots st'). sl_closed_at x = None \<longrightarrow> x \<in> set (ds_slots st) \<and>
       (\<forall>s \<in> set ss. sl_id s = sl_id x \<longrightarrow> \<not> slot_satisfied (anchor_states origin s))) \<and>
     closed = map sl_id (filter (\<lambda>s. slot_satisfied (anchor_states origin s)) ss)"
proof (induction ss arbitrary: st closed)
  case (Cons s ss)
  show ?case
  proof (cases "slot_satisfied (anchor_states origin s)")
    case True
    with Cons.prems obtain st1 s1 closed1 where s1: "close_slot st (sl_id s) (''receipt:'' @ closing_row (anchor_states origin s) hook) None pg_now = Inr (st1, s1)"
        "close_each origin st1 hook pg_now ss = Inr (st', closed1)" "closed = sl_id s # closed1"
      by (auto simp: result_simps)
    note ih = Cons.IH [OF s1(2)]
    have "slot_write\<^sup>*\<^sup>* st st'" using ih slot_write.closed [OF s1(1)] by (simp add: converse_rtranclp_into_rtranclp)
    moreover have "same_delivery st st'" "ds_anchors st' = ds_anchors st"
      using ih close_slot_Inr(1,2) [OF s1(1)] same_delivery_trans [of st st1 st'] by simp_all
    moreover have "x \<in> set (ds_slots st) \<and> (\<forall>z \<in> set (s # ss). sl_id z = sl_id x \<longrightarrow> \<not> slot_satisfied (anchor_states origin z))"
      if "x \<in> set (ds_slots st')" "sl_closed_at x = None" for x
    proof -
      from ih that have "x \<in> set (ds_slots st1)" "\<forall>z \<in> set ss. sl_id z = sl_id x \<longrightarrow> \<not> slot_satisfied (anchor_states origin z)" by blast+
      with close_slot_open_rows [OF s1(1) _ that(2)] show ?thesis by auto
    qed
    ultimately show ?thesis using ih True s1(3) by simp
  next
    case False
    with Cons.prems have "close_each origin st hook pg_now ss = Inr (st', closed)" by simp
    from Cons.IH [OF this] False show ?thesis by simp
  qed
qed (simp add: same_delivery_def)

lemmas close_each_Inr = close_each_effect [THEN conjunct1] close_each_effect [THEN conjunct2, THEN conjunct1]
  close_each_effect [THEN conjunct2, THEN conjunct2, THEN conjunct1]
  close_each_effect [THEN conjunct2, THEN conjunct2, THEN conjunct2, THEN conjunct1, rule_format]

lemma close_each_ok:
  assumes "distinct (map sl_id ss)" and "\<And>s. s \<in> set ss \<Longrightarrow> \<exists>x \<in> set (ds_slots st). sl_id x = sl_id s \<and> sl_closed_at x = None"
  shows "is_ok (close_each origin st hook pg_now ss)"
  using assms
proof (induction ss arbitrary: st)
  case (Cons s ss)
  show ?case
  proof (cases "slot_satisfied (anchor_states origin s)")
    case True
    obtain x where "x \<in> set (ds_slots st)" "sl_id x = sl_id s" "sl_closed_at x = None" using Cons.prems(2) by force
    then obtain st1 s1 where s1: "close_slot st (sl_id s) (''receipt:'' @ closing_row (anchor_states origin s) hook) None pg_now = Inr (st1, s1)"
      by (cases "find_row (\<lambda>z. sl_id z = sl_id s \<and> sl_closed_at z = None) (ds_slots st)") (auto simp: close_slot_def Let_def find_row_None)
    have "is_ok (close_each origin st1 hook pg_now ss)"
    proof (rule Cons.IH)
      show "distinct (map sl_id ss)" using Cons.prems(1) by simp
      fix z assume z: "z \<in> set ss"
      with Cons.prems obtain y where y: "y \<in> set (ds_slots st)" "sl_id y = sl_id z" "sl_closed_at y = None" "sl_id y \<noteq> sl_id s" by fastforce
      then show "\<exists>x \<in> set (ds_slots st1). sl_id x = sl_id z \<and> sl_closed_at x = None"
        unfolding close_slot_Inr(3) [OF s1] by (intro bexI [of _ y]) (auto simp: set_update_rows)
    qed
    with True s1 show ?thesis by (auto simp: is_ok_iff)
  next
    case False
    with Cons show ?thesis by simp
  qed
qed (simp add: is_ok_iff)

lemma close_slots_satisfied_by_ok:
  assumes "distinct (map sl_id (ds_slots st))"
  shows "is_ok (close_slots_satisfied_by st ids hook pg_now)"
proof -
  have "distinct (map sl_id (slot_candidates st ids))"
    using assms distinct_map_filter [OF assms] by (simp add: slot_candidates_def distinct_map)
  then have "is_ok (close_each st st hook pg_now (slot_candidates st ids))"
    by (rule close_each_ok) (auto simp: slot_candidates_def)
  then show ?thesis by (simp add: close_slots_satisfied_by_def is_ok_iff)
qed

text \<open>After the hook no open slot that the tickets touch is satisfied.\<close>

lemma close_slots_satisfied_by_Inr:
  assumes "close_slots_satisfied_by st ids hook pg_now = Inr (st', closed)" and "ids \<noteq> []" and "distinct (map sl_id (ds_slots st))"
  shows "slot_write\<^sup>*\<^sup>* st st'" and "same_delivery st st'" and "ds_anchors st' = ds_anchors st"
    and "x \<in> set (ds_slots st') \<Longrightarrow> sl_closed_at x = None \<Longrightarrow> x \<in> set (ds_slots st)"
    and "x \<in> set (ds_slots st') \<Longrightarrow> sl_closed_at x = None \<Longrightarrow> list_ex (touched st ids x) (load_anchors st (sl_id x)) \<Longrightarrow>
      \<not> slot_satisfied (anchor_states st' x)"
proof -
  from assms(1,2) have c: "close_each st st hook pg_now (slot_candidates st ids) = Inr (st', closed)" by (simp add: close_slots_satisfied_by_def)
  note e = close_each_Inr [OF c]
  show "slot_write\<^sup>*\<^sup>* st st'" "same_delivery st st'" "ds_anchors st' = ds_anchors st" using e(1-3) by simp_all
  show "x \<in> set (ds_slots st)" if "x \<in> set (ds_slots st')" "sl_closed_at x = None" using e(4) [OF that] by blast
  show "\<not> slot_satisfied (anchor_states st' x)" if x: "x \<in> set (ds_slots st')" "sl_closed_at x = None" "list_ex (touched st ids x) (load_anchors st (sl_id x))"
  proof -
    have "x \<in> set (slot_candidates st ids)" using e(4) [OF x(1,2)] x(2,3) by (simp add: slot_candidates_def)
    then have "\<not> slot_satisfied (anchor_states st x)" using e(4) [OF x(1,2)] by blast
    moreover have "anchor_states st' x = anchor_states st x"
      by (rule slot_satisfied_cong) (use e(2,3) in \<open>simp_all add: same_delivery_def\<close>)
    ultimately show ?thesis by simp
  qed
qed

end
