(* ===== verification/Delivery_Attestations.thy ===== *)
theory Delivery_Attestations
  imports Focus_Slots
begin

text \<open>
  The attestation ledger (\<open>src/brain_v42/repositories/pg_delivery_attestations.py\<close> and the form checks of
  \<open>models/delivery.py\<close>) and the release facts that the observer derives into it
  (\<open>repositories/pg_release_derivation.py\<close>).

  \<^item> \<open>fromisoformat\<close> is an argument: the parser of ISO texts.
  \<^item> A page takes and returns the position that a cursor encodes, an emission time and an identifier; the
    base64 text of a cursor and the scope check of its content are not modelled.
\<close>

section \<open>Form\<close>

datatype attest_error =
    InvalidKind | InvalidPayload | InvalidEmittedAt | AttestRevisionNotFound | AttestTicketNotFound | AttestNotAllowed
  | AttestContractNotFound | AttestKeyReused | AttestCanonical canonical_error | AttestInvalid | InvalidLimit | InvalidScope
  | AttestSlot slot_error | AttestDisabled | InvalidIssuer | IssuerIdentityReserved | IssuerNotAllowed

datatype instant_input = InstantValue pydatetime | InstantText string | NoInstant

definition parse_instant :: "(string \<Rightarrow> pydatetime option) \<Rightarrow> instant_input \<Rightarrow> instant option" where
  "parse_instant fromisoformat x =
     Option.bind (case x of InstantValue t \<Rightarrow> Some t | InstantText s \<Rightarrow> fromisoformat s | NoInstant \<Rightarrow> None)
       (\<lambda>t. case t of Aware i \<Rightarrow> Some i | Naive _ \<Rightarrow> None)"

definition MAX_CONTRACT_REVISION :: int where
  "MAX_CONTRACT_REVISION = 2147483647"

definition validate_attestation_form ::
    "(string \<Rightarrow> pydatetime option) \<Rightarrow> string \<Rightarrow> pyval \<Rightarrow> instant_input \<Rightarrow> int option \<Rightarrow> (attest_error, instant) result" where
  "validate_attestation_form fromisoformat kind payload emitted revision =
     res_bind (ensure (attestation_kind_ok kind) InvalidKind) (\<lambda>_.
     res_bind (ensure (is_ok (canonical_attestation_payload payload)) InvalidPayload) (\<lambda>_.
     case parse_instant fromisoformat emitted of
       None \<Rightarrow> Inl InvalidEmittedAt
     | Some t \<Rightarrow> res_bind (ensure (opt_ok (\<lambda>r. 1 \<le> r \<and> r \<le> MAX_CONTRACT_REVISION) revision) AttestRevisionNotFound) (\<lambda>_. Inr t)))"

definition valid_attestation :: "attestation_row \<Rightarrow> bool" where
  "valid_attestation a =
     (opt_ok (\<lambda>r. 0 < r) (at_contract_revision a) \<and> in_len 1 64 (at_kind a) \<and> attestation_kind_ok (at_kind a) \<and>
      is_ok (canonical_attestation_payload (at_payload a)) \<and> validate_digest (at_digest a) \<and>
      in_len 1 50 (at_issuer_project a) \<and> in_len 1 200 (at_issuer_identity a) \<and> in_len 1 200 (at_idempotency_key a))"

section \<open>The ledger\<close>

record attestation_call =
  al_actor_project :: string
  al_caller_identity :: string
  al_kind :: string
  al_payload :: pyval
  al_key :: string
  al_emitted_at :: instant_input
  al_revision :: "int option"

definition attestation_key :: "attestation_row \<Rightarrow> uuid \<times> string \<times> string" where
  "attestation_key a = (at_ticket_id a, at_issuer_project a, at_idempotency_key a)"

definition attest ::
    "(string \<Rightarrow> pydatetime option) \<Rightarrow> delivery_store \<Rightarrow> uuid \<Rightarrow> attestation_call \<Rightarrow> uuid \<Rightarrow> instant
     \<Rightarrow> (attest_error, delivery_store \<times> attestation_row) result" where
  "attest fromisoformat st t call fresh_id pg_now =
     res_bind (validate_attestation_form fromisoformat (al_kind call) (al_payload call) (al_emitted_at call) (al_revision call)) (\<lambda>emitted.
     case get_ticket (db_tickets (ds_db st)) t of
       None \<Rightarrow> Inl AttestTicketNotFound
     | Some k \<Rightarrow>
         res_bind (ensure (al_actor_project call \<in> {tk_from_project k, tk_to_project k}) AttestNotAllowed) (\<lambda>_.
         res_bind (ensure (get_workflow (store_workflows st) t \<noteq> None) AttestContractNotFound) (\<lambda>_.
         res_bind (ensure (opt_ok (\<lambda>r. get_revision (ds_revisions st) (t, r) \<noteq> None) (al_revision call)) AttestRevisionNotFound) (\<lambda>_.
         case canonical_digest (al_payload call) Attestation of
           Inl e \<Rightarrow> Inl (AttestCanonical e)
         | Inr digest \<Rightarrow>
             (case find_row (\<lambda>a. attestation_key a = (t, al_actor_project call, al_key call)) (ds_attestations st) of
                Some a \<Rightarrow>
                  if at_kind a = al_kind call \<and> at_digest a = digest \<and> at_issuer_identity a = al_caller_identity call \<and>
                     at_contract_revision a = al_revision call \<and> at_emitted_at a = emitted
                  then Inr (st, a) else Inl AttestKeyReused
              | None \<Rightarrow>
                  (let a = \<lparr>at_id = fresh_id, at_ticket_id = t, at_contract_revision = al_revision call, at_kind = al_kind call,
                       at_payload = al_payload call, at_digest = digest, at_issuer_project = al_actor_project call,
                       at_issuer_identity = al_caller_identity call, at_idempotency_key = al_key call, at_emitted_at = emitted,
                       at_recorded_at = pg_now\<rparr> in
                   res_bind (ensure (valid_attestation a \<and> fresh_id \<notin> at_id ` set (ds_attestations st)) AttestInvalid) (\<lambda>_.
                   Inr (st\<lparr>ds_attestations := ds_attestations st @ [a]\<rparr>, a))))))))"

section \<open>Pages\<close>

record attestation_query =
  aq_ticket_id :: "uuid option"
  aq_issuer_project :: "string option"
  aq_kind :: "string option"
  aq_since :: "instant option"
  aq_until :: "instant option"

definition attestation_position :: "attestation_row \<Rightarrow> instant \<times> uuid" where
  "attestation_position a = (at_emitted_at a, at_id a)"

definition matches_query :: "attestation_query \<Rightarrow> attestation_row \<Rightarrow> bool" where
  "matches_query q a =
     (opt_ok (\<lambda>t. at_ticket_id a = t) (aq_ticket_id q) \<and> opt_ok (\<lambda>p. at_issuer_project a = p) (aq_issuer_project q) \<and>
      opt_ok (\<lambda>k. at_kind a = k) (aq_kind q) \<and> opt_ok (\<lambda>t. t \<le> at_emitted_at a) (aq_since q) \<and>
      opt_ok (\<lambda>t. at_emitted_at a \<le> t) (aq_until q))"

record attestation_page =
  pg_items :: "attestation_row list"
  pg_next :: "(instant \<times> uuid) option"
  pg_omitted :: nat

definition list_attestations ::
    "attestation_row list \<Rightarrow> attestation_query \<Rightarrow> int \<Rightarrow> (instant \<times> uuid) option \<Rightarrow> (attest_error, attestation_page) result" where
  "list_attestations rows q limit after =
     res_bind (ensure (1 \<le> limit \<and> limit \<le> 100) InvalidLimit) (\<lambda>_.
     res_bind (ensure (opt_ok attestation_kind_ok (aq_kind q)) InvalidKind) (\<lambda>_.
     res_bind (ensure (aq_ticket_id q \<noteq> None \<or> aq_issuer_project q \<noteq> None) InvalidScope) (\<lambda>_.
     let hits = filter (\<lambda>a. matches_query q a \<and> opt_ok (\<lambda>p. attestation_position a < p) after) rows;
         ordered = take (nat limit + 1) (rev (sort_key attestation_position hits));
         selected = take (nat limit) ordered
     in Inr \<lparr>pg_items = selected,
          pg_next = (if nat limit < length ordered then Some (attestation_position (last selected)) else None),
          pg_omitted = length hits - length selected\<rparr>)))"

section \<open>Measured releases\<close>

record release_candidate =
  rc_ticket_id :: uuid
  rc_to_project :: string
  rc_contract_revision :: int
  rc_deliverable_key :: string
  rc_repository_id :: int
  rc_integration_sha :: string

definition current_binding :: "delivery_store \<Rightarrow> binding_row \<Rightarrow> bool" where
  "current_binding st b = (bw_active b \<and>
     current_generation st (ab_ticket_id (bw_binding b)) (ab_contract_revision (bw_binding b)) (ab_attempt (bw_binding b)))"

definition already_released :: "delivery_store \<Rightarrow> binding_row \<Rightarrow> string \<Rightarrow> string \<Rightarrow> bool" where
  "already_released st b project sha =
     list_ex (\<lambda>a. at_ticket_id a = ab_ticket_id (bw_binding b) \<and> at_kind a = ''released'' \<and> at_issuer_project a = project \<and>
         at_issuer_identity a = OBSERVER_IDENTITY \<and>
         startswith (at_idempotency_key a)
           (''released:'' @ ab_ticket_id (bw_binding b) @ '':'' @ ab_deliverable_key (bw_binding b) @ '':'') \<and>
         payload_is (at_payload a) ''integration_sha'' sha) (ds_attestations st)"

definition candidate_of :: "delivery_store \<Rightarrow> binding_row \<Rightarrow> release_candidate option" where
  "candidate_of st b =
     Option.bind (get_ticket (db_tickets (ds_db st)) (ab_ticket_id (bw_binding b))) (\<lambda>t.
     Option.bind (ab_integration_sha (bw_binding b)) (\<lambda>sha.
     if current_binding st b then Some \<lparr>rc_ticket_id = ab_ticket_id (bw_binding b), rc_to_project = tk_to_project t,
       rc_contract_revision = ab_contract_revision (bw_binding b), rc_deliverable_key = ab_deliverable_key (bw_binding b),
       rc_repository_id = ab_repository_id (bw_binding b), rc_integration_sha = sha\<rparr> else None))"

text \<open>\<open>nulls_last\<close>: rows with a success come first, by its time.\<close>

definition success_order :: "binding_row \<Rightarrow> bool \<times> instant \<times> uuid \<times> string" where
  "success_order b = (bw_last_success_at b = None, (case bw_last_success_at b of None \<Rightarrow> 0 | Some t \<Rightarrow> t),
     ab_ticket_id (bw_binding b), ab_deliverable_key (bw_binding b))"

definition unreleased :: "delivery_store \<Rightarrow> int list \<Rightarrow> nat \<Rightarrow> (uuid \<times> string) list \<Rightarrow> release_candidate list" where
  "unreleased st repositories limit exclude =
     take limit (List.map_filter (\<lambda>b. Option.bind (candidate_of st b) (\<lambda>c.
         if rc_repository_id c \<in> set repositories \<and> \<not> already_released st b (rc_to_project c) (rc_integration_sha c) \<and>
            (rc_ticket_id c, rc_deliverable_key c) \<notin> set exclude then Some c else None))
       (sort_key success_order (db_bindings (ds_db st))))"

definition release_payload :: "release_candidate \<Rightarrow> string \<Rightarrow> string \<Rightarrow> pyval" where
  "release_payload c tag_name tag_sha =
     pobj [(''repository_id'', PInt (rc_repository_id c)), (''tag'', pstr tag_name), (''tag_sha'', pstr tag_sha),
       (''integration_sha'', pstr (rc_integration_sha c))]"

definition candidate_is_current :: "delivery_store \<Rightarrow> release_candidate \<Rightarrow> bool" where
  "candidate_is_current st c =
     list_ex (\<lambda>b. ab_ticket_id (bw_binding b) = rc_ticket_id c \<and> ab_deliverable_key (bw_binding b) = rc_deliverable_key c \<and>
       ab_integration_sha (bw_binding b) = Some (rc_integration_sha c) \<and> current_binding st b) (db_bindings (ds_db st))"

definition release_call :: "release_candidate \<Rightarrow> string \<Rightarrow> string \<Rightarrow> pydatetime \<Rightarrow> attestation_call" where
  "release_call c tag_name tag_sha tag_date =
     \<lparr>al_actor_project = rc_to_project c, al_caller_identity = OBSERVER_IDENTITY, al_kind = ''released'',
      al_payload = release_payload c tag_name tag_sha,
      al_key = ''released:'' @ rc_ticket_id c @ '':'' @ rc_deliverable_key c @ '':'' @ tag_name,
      al_emitted_at = InstantValue tag_date, al_revision = Some (rc_contract_revision c)\<rparr>"

definition record_released ::
    "(string \<Rightarrow> pydatetime option) \<Rightarrow> delivery_store \<Rightarrow> release_candidate \<Rightarrow> string \<Rightarrow> string \<Rightarrow> pydatetime \<Rightarrow> uuid \<Rightarrow> instant
     \<Rightarrow> (attest_error, delivery_store) result" where
  "record_released fromisoformat st c tag_name tag_sha tag_date fresh_id pg_now =
     (if \<not> candidate_is_current st c then Inr st
      else res_bind (attest fromisoformat st (rc_ticket_id c) (release_call c tag_name tag_sha tag_date) fresh_id pg_now) (\<lambda>(st1, a).
      case close_slots_satisfied_by st1 [rc_ticket_id c] (at_id a) pg_now of
        Inl e \<Rightarrow> Inl (AttestSlot e)
      | Inr (st2, _) \<Rightarrow> Inr st2))"

section \<open>Measured deployments\<close>

definition deployed_key :: "uuid \<Rightarrow> string \<Rightarrow> string \<Rightarrow> string" where
  "deployed_key t deliverable sha = ''deployed:'' @ t @ '':'' @ deliverable @ '':'' @ sha"

definition already_deployed :: "release_candidate \<Rightarrow> string \<Rightarrow> attestation_row \<Rightarrow> bool" where
  "already_deployed c live_release_sha a =
     (at_ticket_id a = rc_ticket_id c \<and> at_issuer_project a = rc_to_project c \<and> at_issuer_identity a = OBSERVER_IDENTITY \<and>
      at_idempotency_key a = deployed_key (rc_ticket_id c) (rc_deliverable_key c) live_release_sha \<and>
      payload_is (at_payload a) ''integration_sha'' (rc_integration_sha c))"

text \<open>The identifier that \<open>delivery_config.py\<close> gives the program's own repository.\<close>

definition BRAIN_V42_REPOSITORY_ID :: int where
  "BRAIN_V42_REPOSITORY_ID = 1337360966"

definition undeployed :: "delivery_store \<Rightarrow> int \<Rightarrow> string \<Rightarrow> nat \<Rightarrow> (uuid \<times> string) list \<Rightarrow> release_candidate list" where
  "undeployed st repository live_release_sha limit exclude =
     (if repository \<noteq> BRAIN_V42_REPOSITORY_ID then []
      else take limit (List.map_filter (\<lambda>b. Option.bind (candidate_of st b) (\<lambda>c.
         if rc_repository_id c = repository \<and>
            \<not> list_ex (\<lambda>a. at_kind a = ''deployed'' \<and> already_deployed c live_release_sha a) (ds_attestations st) \<and>
            (rc_ticket_id c, rc_deliverable_key c) \<notin> set exclude then Some c else None))
       (sort_key success_order (db_bindings (ds_db st)))))"

definition deployed_payload :: "release_candidate \<Rightarrow> string \<Rightarrow> string \<Rightarrow> pyval" where
  "deployed_payload c release_sha package_version =
     pobj [(''repository_id'', PInt (rc_repository_id c)), (''live_release_sha'', pstr release_sha),
       (''package_version'', pstr package_version), (''integration_sha'', pstr (rc_integration_sha c))]"

definition deployed_call :: "release_candidate \<Rightarrow> string \<Rightarrow> string \<Rightarrow> instant \<Rightarrow> attestation_call" where
  "deployed_call c release_sha package_version now =
     \<lparr>al_actor_project = rc_to_project c, al_caller_identity = OBSERVER_IDENTITY, al_kind = ''deployed'',
      al_payload = deployed_payload c release_sha package_version,
      al_key = deployed_key (rc_ticket_id c) (rc_deliverable_key c) release_sha,
      al_emitted_at = InstantValue (Aware now), al_revision = Some (rc_contract_revision c)\<rparr>"

definition record_deployed ::
    "(string \<Rightarrow> pydatetime option) \<Rightarrow> delivery_store \<Rightarrow> release_candidate \<Rightarrow> string \<Rightarrow> string \<Rightarrow> instant \<Rightarrow> uuid \<Rightarrow> instant
     \<Rightarrow> (attest_error, delivery_store) result" where
  "record_deployed fromisoformat st c release_sha package_version now fresh_id pg_now =
     (if list_ex (already_deployed c release_sha) (ds_attestations st) then Inr st
      else res_bind (attest fromisoformat st (rc_ticket_id c) (deployed_call c release_sha package_version now) fresh_id pg_now)
        (\<lambda>(st1, _). Inr st1))"

section \<open>Declared facts\<close>

text \<open>The issuer checks of the tools: the actor and principal of the request, and the registry's principal
  of its token.\<close>

record issuer_principal =
  ip_client_id :: string
  ip_issuers :: "string list"

record caller_identity =
  ri_actor :: string
  ri_client_id :: "string option"
  ri_principal :: "issuer_principal option"

definition issuer_pattern_matches :: "string \<Rightarrow> string \<Rightarrow> bool" where
  "issuer_pattern_matches pattern caller =
     (pattern \<noteq> ''@project'' \<and>
      (pattern = caller \<or>
       (1 < length pattern \<and> last pattern = CHR ''*'' \<and> length (filter (\<lambda>c. c = CHR ''*'') pattern) = 1 \<and>
        startswith caller (butlast pattern))))"

definition checked_issuer :: "caller_identity \<Rightarrow> string option \<Rightarrow> (attest_error, string) result" where
  "checked_issuer request issuer =
     (let caller = (case issuer of None \<Rightarrow> ri_actor request | Some i \<Rightarrow> i);
          allowed = (case ri_client_id request of
              None \<Rightarrow> caller = ri_actor request
            | Some client \<Rightarrow> (case ri_principal request of
                  None \<Rightarrow> False
                | Some p \<Rightarrow> ip_client_id p = client \<and>
                    (issuer = None \<and> caller = ip_client_id p \<or> list_ex (\<lambda>pattern. issuer_pattern_matches pattern caller) (ip_issuers p))))
      in res_bind (ensure allowed IssuerNotAllowed) (\<lambda>_. Inr caller))"

definition UNKNOWN_ACTOR :: string where
  "UNKNOWN_ACTOR = ''unknown''"

definition UNEXPANDED_ACTOR :: string where
  "UNEXPANDED_ACTOR = ''_unexpanded''"

text \<open>The tool, down to the service's own guard and the repository.\<close>

definition brain_delivery_attest ::
    "(string \<Rightarrow> pydatetime option) \<Rightarrow> bool \<Rightarrow> caller_identity \<Rightarrow> delivery_store \<Rightarrow> uuid \<Rightarrow> attestation_call \<Rightarrow> string option
     \<Rightarrow> uuid \<Rightarrow> instant \<Rightarrow> (attest_error, delivery_store \<times> attestation_row) result" where
  "brain_delivery_attest fromisoformat enabled request st t call issuer fresh_id pg_now =
     (let caller = (case issuer of None \<Rightarrow> ri_actor request | Some i \<Rightarrow> i) in
      res_bind (ensure (strip caller \<noteq> [] \<and> caller \<notin> {UNKNOWN_ACTOR, UNEXPANDED_ACTOR}) InvalidIssuer) (\<lambda>_.
      res_bind (ensure (caller \<noteq> OBSERVER_IDENTITY) IssuerIdentityReserved) (\<lambda>_.
      res_bind (checked_issuer request issuer) (\<lambda>identity.
      res_bind (ensure enabled AttestDisabled) (\<lambda>_.
      attest fromisoformat st t (call\<lparr>al_caller_identity := identity\<rparr>) fresh_id pg_now)))))"

end
