(* ===== verification/Delivery_Moves.thy ===== *)
theory Delivery_Moves
  imports Delivery_Publication Delivery_Loaded Focus_Slot_Laws Delivery_Attestations
begin

text \<open>
  How the writes of the delivery store move what the receipts of an anchor depend on: the generations of
  the workflows only advance, an active binding is an old one or a fresh one, tickets keep their target.
  A write that moves the store this way (\<open>delivery_move\<close>) takes receipts from an anchor and never gives it
  one, so it satisfies no focus slot.
\<close>

section \<open>What the receipts depend on\<close>

definition generations :: "workflow_row list \<Rightarrow> (uuid \<times> int \<times> int) set" where
  "generations rows = (\<lambda>w. (wf_ticket_id w, wf_current_revision w, wf_attempt w)) ` set rows"

definition owners :: "delivery_store \<Rightarrow> (uuid \<times> string) set" where
  "owners st = (\<lambda>t. (tk_id t, tk_to_project t)) ` set (db_tickets (ds_db st))"

definition live_key :: "binding_row \<Rightarrow> uuid \<times> uuid \<times> int \<times> int \<times> int \<times> int" where
  "live_key b = (ab_id (bw_binding b), ab_ticket_id (bw_binding b), ab_contract_revision (bw_binding b), ab_attempt (bw_binding b),
     ab_repository_id (bw_binding b), ab_pr_number (bw_binding b))"

definition binding_ids :: "delivery_store \<Rightarrow> uuid set" where
  "binding_ids st = (\<lambda>b. ab_id (bw_binding b)) ` set (db_bindings (ds_db st))"

definition binding_tickets :: "delivery_store \<Rightarrow> uuid set" where
  "binding_tickets st = (\<lambda>b. ab_ticket_id (bw_binding b)) ` set (db_bindings (ds_db st))"

definition live_bindings :: "binding_row list \<Rightarrow> (uuid \<times> uuid \<times> int \<times> int \<times> int \<times> int) set" where
  "live_bindings rows = live_key ` {b \<in> set rows. bw_active b}"

lemma current_generation_iff: "current_generation st t r n \<longleftrightarrow> (t, r, n) \<in> generations (store_workflows st)"
  by (auto simp: current_generation_def generations_def list_ex_iff)

lemma targets_iff: "targets st t p \<longleftrightarrow> (t, p) \<in> owners st"
  by (auto simp: targets_def owners_def list_ex_iff)

lemma observed_binding_iff:
  "(\<exists>b \<in> set (db_bindings (ds_db st)). observed_binding_of st project repository number x b) \<longleftrightarrow>
     (\<exists>i. (i, rx_ticket_id x, rx_revision x, rx_attempt x, repository, number) \<in> live_bindings (db_bindings (ds_db st)) \<and>
        targets st (rx_ticket_id x) project \<and> integrates st x (rx_ticket_id x) \<and>
        i \<in> fa_binding_id ` set (fp_artifact_proofs (mr_proof (rx_payload x))))"
  by (auto simp: observed_binding_of_def live_bindings_def live_key_def integrates_def list_ex_iff image_iff)

definition gen_mono :: "(uuid \<times> int \<times> int) set \<Rightarrow> (uuid \<times> int \<times> int) set \<Rightarrow> bool" where
  "gen_mono G G' =
     ((\<forall>t r n. (t, r, n) \<in> G' \<longrightarrow> (\<exists>r0 n0. (t, r0, n0) \<in> G \<and> r0 \<le> r \<and> n0 \<le> n) \<or> t \<notin> fst ` G) \<and>
      (\<forall>t r n. (t, r, n) \<in> G \<longrightarrow> (\<exists>r' n'. (t, r', n') \<in> G' \<and> r \<le> r' \<and> n \<le> n')))"

lemma gen_mono_refl [simp]: "gen_mono G G"
  by (auto simp: gen_mono_def)

lemma gen_mono_update:
  assumes "\<And>w. wf_ticket_id (f w) = wf_ticket_id w" "\<And>w. w \<in> set rows \<Longrightarrow> p w \<Longrightarrow> wf_current_revision w \<le> wf_current_revision (f w)"
    "\<And>w. wf_attempt w \<le> wf_attempt (f w)"
  shows "gen_mono (generations rows) (generations (update_rows p f rows))"
proof -
  have g: "generations (update_rows p f rows) = (\<lambda>w. (wf_ticket_id w, wf_current_revision (if p w then f w else w), wf_attempt (if p w then f w else w))) ` set rows"
    unfolding generations_def update_rows_def set_map image_image by (rule image_cong) (simp_all add: assms(1))
  show ?thesis unfolding gen_mono_def
  proof (intro conjI allI impI)
    fix t r n assume "(t, r, n) \<in> generations (update_rows p f rows)"
    then obtain w where "w \<in> set rows" "t = wf_ticket_id w" "r = wf_current_revision (if p w then f w else w)" "n = wf_attempt (if p w then f w else w)"
      unfolding g by auto
    with assms(2,3) have "(t, wf_current_revision w, wf_attempt w) \<in> generations rows" "wf_current_revision w \<le> r" "wf_attempt w \<le> n"
      by (auto simp: generations_def)
    then show "(\<exists>r0 n0. (t, r0, n0) \<in> generations rows \<and> r0 \<le> r \<and> n0 \<le> n) \<or> t \<notin> fst ` generations rows" by blast
  next
    fix t r n assume "(t, r, n) \<in> generations rows"
    then obtain w where w: "w \<in> set rows" "t = wf_ticket_id w" "r = wf_current_revision w" "n = wf_attempt w" by (auto simp: generations_def)
    have "(t, wf_current_revision (if p w then f w else w), wf_attempt (if p w then f w else w)) \<in> generations (update_rows p f rows)"
      unfolding g using w(1,2) by blast
    moreover have "r \<le> wf_current_revision (if p w then f w else w)" "n \<le> wf_attempt (if p w then f w else w)"
      using w assms(2,3) by auto
    ultimately show "\<exists>r' n'. (t, r', n') \<in> generations (update_rows p f rows) \<and> r \<le> r' \<and> n \<le> n'" by blast
  qed
qed

section \<open>Moves\<close>

definition delivery_move :: "delivery_store \<Rightarrow> delivery_store \<Rightarrow> bool" where
  "delivery_move st st' =
     (gen_mono (generations (store_workflows st)) (generations (store_workflows st')) \<and>
      (\<forall>k \<in> live_bindings (db_bindings (ds_db st')). k \<in> live_bindings (db_bindings (ds_db st)) \<or> fst k \<notin> binding_ids st) \<and>
      binding_ids st \<subseteq> binding_ids st' \<and> binding_tickets st' \<subseteq> binding_tickets st \<union> fst ` owners st' \<and> owners st \<subseteq> owners st' \<and>
      (\<forall>k \<in> owners st'. k \<in> owners st \<or> fst k \<notin> fst ` owners st) \<and>
      ds_receipts st' = ds_receipts st \<and> ds_attestations st' = ds_attestations st \<and> ds_anchors st' = ds_anchors st \<and>
      ds_slots st' = ds_slots st \<and> ds_slot_history st' = ds_slot_history st)"

text \<open>Receipts belong to generations that have been reached and cite existing bindings.\<close>

definition receipts_ok :: "delivery_store \<Rightarrow> bool" where
  "receipts_ok st =
     (distinct (map rx_id (ds_receipts st)) \<and> distinct (map receipt_key (ds_receipts st)) \<and>
      (\<forall>x \<in> set (ds_receipts st). receipt_row_of (rx_payload x) = x \<and> valid_milestone_receipt (rx_payload x) \<and>
         (\<exists>r n. (rx_ticket_id x, r, n) \<in> generations (store_workflows st) \<and> rx_revision x \<le> r \<and> rx_attempt x \<le> n) \<and>
         fa_binding_id ` set (fp_artifact_proofs (mr_proof (rx_payload x))) \<subseteq> binding_ids st) \<and>
      (\<forall>a \<in> set (ds_attestations st). at_ticket_id a \<in> fst ` owners st) \<and> binding_tickets st \<subseteq> fst ` owners st)"

definition slots_clear :: "delivery_store \<Rightarrow> bool" where
  "slots_clear st = (\<forall>s \<in> set (ds_slots st). sl_closed_at s = None \<longrightarrow> \<not> slot_satisfied (anchor_states st s))"

lemma receipts_okD:
  assumes "receipts_ok st"
  shows "distinct (map rx_id (ds_receipts st))" "distinct (map receipt_key (ds_receipts st))"
    "x \<in> set (ds_receipts st) \<Longrightarrow> receipt_row_of (rx_payload x) = x"
    "x \<in> set (ds_receipts st) \<Longrightarrow> \<exists>r n. (rx_ticket_id x, r, n) \<in> generations (store_workflows st) \<and> rx_revision x \<le> r \<and> rx_attempt x \<le> n"
    "x \<in> set (ds_receipts st) \<Longrightarrow> fa_binding_id ` set (fp_artifact_proofs (mr_proof (rx_payload x))) \<subseteq> binding_ids st"
    "a \<in> set (ds_attestations st) \<Longrightarrow> at_ticket_id a \<in> fst ` owners st"
    "x \<in> set (ds_receipts st) \<Longrightarrow> valid_milestone_receipt (rx_payload x)" "binding_tickets st \<subseteq> fst ` owners st"
  using assms unfolding receipts_ok_def by blast+

lemma delivery_moveD:
  assumes "delivery_move st st'"
  shows "gen_mono (generations (store_workflows st)) (generations (store_workflows st'))"
    "k \<in> live_bindings (db_bindings (ds_db st')) \<Longrightarrow> k \<in> live_bindings (db_bindings (ds_db st)) \<or> fst k \<notin> binding_ids st"
    "binding_ids st \<subseteq> binding_ids st'" "owners st \<subseteq> owners st'" "k' \<in> owners st' \<Longrightarrow> k' \<in> owners st \<or> fst k' \<notin> fst ` owners st"
    "ds_receipts st' = ds_receipts st" "ds_attestations st' = ds_attestations st" "ds_anchors st' = ds_anchors st"
    "ds_slots st' = ds_slots st" "ds_slot_history st' = ds_slot_history st" "binding_tickets st' \<subseteq> binding_tickets st \<union> fst ` owners st'"
  using assms unfolding delivery_move_def by blast+

lemma receipts_ok_move:
  assumes "receipts_ok st" and "delivery_move st st'"
  shows "receipts_ok st'"
proof -
  note m = delivery_moveD [OF assms(2)] and r = receipts_okD [OF assms(1)]
  have "\<exists>r n. (rx_ticket_id x, r, n) \<in> generations (store_workflows st') \<and> rx_revision x \<le> r \<and> rx_attempt x \<le> n" if "x \<in> set (ds_receipts st)" for x
    using r(4) [OF that] m(1) unfolding gen_mono_def by (meson order_trans)
  moreover have "fa_binding_id ` set (fp_artifact_proofs (mr_proof (rx_payload x))) \<subseteq> binding_ids st'" if "x \<in> set (ds_receipts st)" for x
    using r(5) [OF that] m(3) by (rule subset_trans)
  moreover have "at_ticket_id a \<in> fst ` owners st'" if "a \<in> set (ds_attestations st)" for a
    using r(6) [OF that] m(4) by blast
  moreover have "binding_tickets st' \<subseteq> fst ` owners st'" using m(4,11) r(8) by blast
  ultimately show ?thesis unfolding receipts_ok_def m(6,7) using r(1-3,7) by blast
qed

lemma live_bound: "receipts_ok st \<Longrightarrow> k \<in> live_bindings (db_bindings (ds_db st)) \<Longrightarrow> fst (snd k) \<in> fst ` owners st"
  by (drule receipts_okD(8)) (auto simp: live_bindings_def live_key_def binding_tickets_def)

lemma integrates_move:
  assumes "receipts_ok st" and "delivery_move st st'" and "distinct (map wf_ticket_id (store_workflows st))"
    and "x \<in> set (ds_receipts st)" and "integrates st' x t"
  shows "integrates st x t"
proof -
  from assms(5) have t: "rx_ticket_id x = t" "rx_milestone x = IntegrationReceipt" "(t, rx_revision x, rx_attempt x) \<in> generations (store_workflows st')"
    by (simp_all add: integrates_def current_generation_iff)
  obtain r n where g: "(t, r, n) \<in> generations (store_workflows st)" "rx_revision x \<le> r" "rx_attempt x \<le> n"
    using receipts_okD(4) [OF assms(1,4)] t(1) by blast
  then have "t \<in> fst ` generations (store_workflows st)" by force
  then obtain r0 n0 where g0: "(t, r0, n0) \<in> generations (store_workflows st)" "r0 \<le> rx_revision x" "n0 \<le> rx_attempt x"
    using assms(2) t(3) unfolding delivery_move_def gen_mono_def by blast
  have "r0 = r \<and> n0 = n" using g(1) g0(1) assms(3) by (auto simp: generations_def distinct_map inj_on_def)
  with g g0 have "rx_revision x = r" "rx_attempt x = n" by simp_all
  with g(1) t show ?thesis by (simp add: integrates_def current_generation_iff)
qed

lemma received_anchor_move:
  assumes ok: "receipts_ok st" and move: "delivery_move st st'" and dist: "distinct (map wf_ticket_id (store_workflows st))"
    and "received_anchor st' project a \<noteq> None"
  shows "received_anchor st project a \<noteq> None"
proof (rule received_anchor_mono [OF _ _ _ assms(4)])
  note m = delivery_moveD [OF move]
  note same = m(6,7)
  have target: "targets st t p" if "targets st' t p" "t \<in> fst ` owners st" for t p
    using m(5) [of "(t, p)"] that unfolding targets_iff by simp
  note step = integrates_move [OF ok move dist]
  show "ticket_receipt st t \<noteq> None" if "ticket_receipt st' t \<noteq> None" for t
    using that step unfolding ticket_receipt_iff same by blast
  show "lot_release st project v \<noteq> None" if "lot_release st' project v \<noteq> None" for v
    using that target receipts_okD(6) [OF ok] unfolding lot_release_iff same measures_release_def by blast
  show "pr_receipt st project r n \<noteq> None" if "pr_receipt st' project r n \<noteq> None" for r n
  proof -
    from that obtain x i where x: "x \<in> set (ds_receipts st)" "(i, rx_ticket_id x, rx_revision x, rx_attempt x, r, n) \<in> live_bindings (db_bindings (ds_db st'))"
        "targets st' (rx_ticket_id x) project" "integrates st' x (rx_ticket_id x)" "i \<in> fa_binding_id ` set (fp_artifact_proofs (mr_proof (rx_payload x)))"
      unfolding pr_receipt_iff observed_binding_iff same by blast
    have "i \<in> binding_ids st" using receipts_okD(5) [OF ok x(1)] x(5) by blast
    with x(2) have live: "(i, rx_ticket_id x, rx_revision x, rx_attempt x, r, n) \<in> live_bindings (db_bindings (ds_db st))"
      using m(2) by fastforce
    then have "targets st (rx_ticket_id x) project" using live_bound [OF ok live] x(3) target by simp
    with x(1,5) live step [OF x(1,4)] show ?thesis unfolding pr_receipt_iff observed_binding_iff by blast
  qed
qed

lemma slots_clear_move:
  assumes "slots_clear st" and ok: "receipts_ok st" and move: "delivery_move st st'" and dist: "distinct (map wf_ticket_id (store_workflows st))"
  shows "slots_clear st'"
  unfolding slots_clear_def
proof (intro ballI impI notI)
  fix s assume s: "s \<in> set (ds_slots st')" "sl_closed_at s = None" "slot_satisfied (anchor_states st' s)"
  have "slot_satisfied (anchor_states st s)"
  proof (rule slot_satisfied_mono [OF s(3)])
    show "load_anchors st' (sl_id s) = load_anchors st (sl_id s)" using move by (simp add: load_anchors_def delivery_move_def)
    show "received_anchor st (sl_project_key s) a \<noteq> None" if "received_anchor st' (sl_project_key s) a \<noteq> None" for a
      by (rule received_anchor_move [OF ok move dist that])
  qed
  moreover have "s \<in> set (ds_slots st)" using s(1) move by (simp add: delivery_move_def)
  ultimately show False using assms(1) s(2) by (simp add: slots_clear_def)
qed

section \<open>The store's own writes move it\<close>

lemma gen_mono_append: "wf_ticket_id w \<notin> wf_ticket_id ` set rows \<Longrightarrow> gen_mono (generations rows) (generations (rows @ [w]))"
  by (force simp: gen_mono_def generations_def image_iff)

lemma owners_update:
  assumes "\<And>t. tk_id (f t) = tk_id t" "\<And>t. tk_to_project (f t) = tk_to_project t"
  shows "(\<lambda>t. (tk_id t, tk_to_project t)) ` set (update_rows p f rows) = (\<lambda>t. (tk_id t, tk_to_project t)) ` set rows"
  unfolding update_rows_def set_map image_image by (rule image_cong) (simp_all add: assms)

lemma binding_rows_update:
  assumes "\<And>b. live_key (f b) = live_key b" "\<And>b. bw_active (f b) \<Longrightarrow> bw_active b"
  shows "live_bindings (update_rows p f rows) \<subseteq> live_bindings rows"
    "(\<lambda>b. ab_id (bw_binding b)) ` set (update_rows p f rows) = (\<lambda>b. ab_id (bw_binding b)) ` set rows"
    "(\<lambda>b. ab_ticket_id (bw_binding b)) ` set (update_rows p f rows) = (\<lambda>b. ab_ticket_id (bw_binding b)) ` set rows"
proof -
  have "live_key x \<in> live_bindings rows" if "x \<in> set (update_rows p f rows)" "bw_active x" for x
  proof -
    from that(1) obtain b where "b \<in> set rows" "x = (if p b then f b else b)" by (auto simp: update_rows_def)
    with that(2) assms show ?thesis unfolding live_bindings_def by (intro image_eqI [of _ _ b]) (auto split: if_splits)
  qed
  then show "live_bindings (update_rows p f rows) \<subseteq> live_bindings rows" by (auto simp: live_bindings_def)
  have ids: "ab_id (bw_binding (f b)) = ab_id (bw_binding b)" "ab_ticket_id (bw_binding (f b)) = ab_ticket_id (bw_binding b)" for b
    using assms(1) [of b] by (simp_all add: live_key_def)
  show "(\<lambda>b. ab_id (bw_binding b)) ` set (update_rows p f rows) = (\<lambda>b. ab_id (bw_binding b)) ` set rows"
    "(\<lambda>b. ab_ticket_id (bw_binding b)) ` set (update_rows p f rows) = (\<lambda>b. ab_ticket_id (bw_binding b)) ` set rows"
    unfolding update_rows_def set_map image_image by (rule image_cong; simp add: ids)+
qed

text \<open>A write that updates rows of the workflows and bindings in place.\<close>

lemma delivery_moveI:
  assumes "gen_mono (generations (store_workflows st)) (generations (store_workflows st'))"
    and "live_bindings (db_bindings (ds_db st')) \<subseteq> live_bindings (db_bindings (ds_db st))"
    and "binding_ids st' = binding_ids st" "binding_tickets st' = binding_tickets st" "owners st' = owners st"
    and "ds_receipts st' = ds_receipts st" "ds_attestations st' = ds_attestations st" "ds_anchors st' = ds_anchors st"
      "ds_slots st' = ds_slots st" "ds_slot_history st' = ds_slot_history st"
  shows "delivery_move st st'"
  using assms unfolding delivery_move_def by blast

lemma put_workflow_mono:
  assumes "put_workflow rows c expected digest now pg_now = Inr rows'" and "distinct (map wf_ticket_id rows)"
  shows "gen_mono (generations rows) (generations rows')"
proof (cases "get_workflow rows (cr_ticket_id c)")
  case None
  then have "wf_ticket_id (new_workflow c digest now pg_now) \<notin> wf_ticket_id ` set rows"
    by (simp add: workflows.get_row_None new_workflow_def)
  moreover from None assms(1) have "rows' = rows @ [new_workflow c digest now pg_now]" by (auto simp: put_workflow_def split: if_splits)
  ultimately show ?thesis using gen_mono_append by simp
next
  case (Some w)
  have one: "x = w" if "x \<in> set rows" "wf_ticket_id x = cr_ticket_id c" for x
    using workflows.get_row_eqI [OF assms(2) that(1)] that(2) Some by simp
  from Some assms(1) have "cr_contract_revision c = wf_current_revision w + 1"
      "rows' = update_rows (\<lambda>x. wf_ticket_id x = cr_ticket_id c) (amended_workflow c digest now pg_now) rows"
    by (auto simp: put_workflow_def split: if_splits)
  then show ?thesis using gen_mono_update [of "amended_workflow c digest now pg_now" rows "\<lambda>x. wf_ticket_id x = cr_ticket_id c"] one
    by (simp add: amended_workflow_def)
qed

lemma delivery_move_set_contract:
  assumes "set_contract st c expected actor key digest now pg_now = Inr (st', c')" and "distinct (map wf_ticket_id (store_workflows st))"
  shows "delivery_move st st'"
  using assms(1)
proof (cases rule: set_contract_Inr)
  case (stored t content ctx rows)
  have "store_workflows st' = rows" unfolding stored(11) by (simp add: store_contract_def store_workflows_def)
  with put_workflow_mono [OF stored(7) assms(2)] show ?thesis unfolding stored(11)
    by (intro delivery_moveI) (simp_all add: store_contract_def binding_ids_def binding_tickets_def owners_def)
qed (simp add: delivery_move_def)

lemma delivery_move_bind_pr:
  assumes "bind_pr st b repository actor expected_revision expected_version key digest fresh_id now pg_now = Inr (st', b')"
  shows "delivery_move st st'"
  using assms
proof (cases rule: bind_pr_Inr)
  case (stored w t rv d event)
  let ?rows = "db_bindings (ds_db st)" and ?w = "\<lambda>w. wf_ticket_id w = ab_ticket_id b' \<and> wf_current_revision w = expected_revision \<and> wf_row_version w = expected_version"
  obtain kept row superseding where st': "db_bindings (ds_db st') = kept @ [row]" "bw_binding row = b'"
      "kept = ?rows \<or> (\<exists>q. kept = update_rows q retired_binding ?rows)"
      "store_workflows st' = update_rows ?w (bound_workflow expected_version superseding pg_now) (store_workflows st)"
    unfolding stored(21) put_binding_def Let_def
    by (cases "find_row (\<lambda>r. same_slot (bw_binding r) b' \<and> bw_active r) ?rows") (fastforce simp: store_workflows_def)+
  have same: "owners st' = owners st" "ds_receipts st' = ds_receipts st" "ds_attestations st' = ds_attestations st" "ds_anchors st' = ds_anchors st"
      "ds_slots st' = ds_slots st" "ds_slot_history st' = ds_slot_history st"
    unfolding stored(21) by (simp_all add: put_binding_def Let_def owners_def)
  have "live_key (retired_binding x) = live_key x" for x by (simp add: live_key_def retired_binding_def)
  then have kept: "live_bindings kept \<subseteq> live_bindings ?rows" "(\<lambda>b. ab_id (bw_binding b)) ` set kept = (\<lambda>b. ab_id (bw_binding b)) ` set ?rows"
      "(\<lambda>b. ab_ticket_id (bw_binding b)) ` set kept = (\<lambda>b. ab_ticket_id (bw_binding b)) ` set ?rows"
    using st'(3) binding_rows_update [of retired_binding _ ?rows] by (elim disjE exE; simp)+
  have new: "ab_id b' = fresh_id" "ab_ticket_id b' = ab_ticket_id b" using stored(12) by (simp_all add: proposed_binding_def)
  have "ab_ticket_id b \<in> fst ` owners st" using tickets.get_row_Some [OF stored(2)] by (force simp: owners_def)
  moreover have "gen_mono (generations (store_workflows st)) (generations (store_workflows st'))"
    unfolding st'(4) by (rule gen_mono_update) (simp_all add: bound_workflow_def Let_def)
  moreover have "k \<in> live_bindings ?rows \<or> fst k \<notin> binding_ids st" if "k \<in> live_bindings (db_bindings (ds_db st'))" for k
  proof -
    have "live_bindings (db_bindings (ds_db st')) \<subseteq> insert (live_key row) (live_bindings kept)" unfolding st'(1) live_bindings_def by auto
    with that kept(1) have "k \<in> live_bindings ?rows \<or> k = live_key row" by blast
    moreover have "fst (live_key row) \<notin> binding_ids st" using stored(14) new(1) st'(2) by (simp add: live_key_def binding_ids_def image_image)
    ultimately show ?thesis by blast
  qed
  moreover have "binding_ids st \<subseteq> binding_ids st'" "binding_tickets st' = insert (ab_ticket_id b) (binding_tickets st)"
    using kept(2,3) st'(2) new(2) unfolding binding_ids_def binding_tickets_def st'(1) by (simp_all add: subset_insertI)
  ultimately show ?thesis unfolding delivery_move_def same by (intro conjI ballI) auto
qed (simp add: delivery_move_def)

lemma delivery_move_refresh: "delivery_move st (refresh st i now pg_now)"
proof (rule delivery_moveI)
  let ?f = "\<lambda>r. r\<lparr>bw_due_at := Some now\<rparr>" and ?g = "\<lambda>w. w\<lparr>wf_context_due_at := Some now, wf_updated_at := pg_now\<rparr>"
  note rows = binding_rows_update [of ?f "\<lambda>r. ab_ticket_id (bw_binding r) = i \<and> bw_active r" "db_bindings (ds_db st)"]
  show "gen_mono (generations (store_workflows st)) (generations (store_workflows (refresh st i now pg_now)))"
    using gen_mono_update [of ?g] by (simp add: refresh_def store_workflows_def)
  show "live_bindings (db_bindings (ds_db (refresh st i now pg_now))) \<subseteq> live_bindings (db_bindings (ds_db st))"
    "binding_ids (refresh st i now pg_now) = binding_ids st" "binding_tickets (refresh st i now pg_now) = binding_tickets st"
    using rows by (simp_all add: refresh_def live_key_def binding_ids_def binding_tickets_def)
qed (simp_all add: refresh_def owners_def)

lemma claim_step_mono:
  assumes "claim_step tz rows rows'"
  shows "gen_mono (generations rows) (generations rows')"
  using assms
proof cases
  case (acquired enabled loaded i actor owner kind version assessment ttl token pg_now c)
  then show ?thesis by (cases rule: acquire_Inr) (simp add: gen_mono_update claim_row_def)
next
  case (renewed loaded i cred ttl pg_now st)
  then show ?thesis by (cases rule: renew_Inr) (simp add: gen_mono_update)
next
  case (released loaded i cred pg_now st)
  then show ?thesis by (cases rule: release_Inr) (simp add: gen_mono_update cleared_claim_def)
next
  case (mutated i m pg_now)
  then show ?thesis by (simp add: gen_mono_update mutate_workflow_def Let_def)
qed

lemma delivery_move_transition:
  assumes "apply_transition tz (ds_db st) loaded r pg_now = Inr (db', t)"
  shows "delivery_move st (st\<lparr>ds_db := db'\<rparr>)"
  using assms
proof (cases rule: apply_transition_Inr)
  case (1 t0 mutation)
  let ?f = "\<lambda>b. b\<lparr>bw_active := False\<rparr>"
  have rows: "gen_mono (generations (store_workflows st)) (generations (db_workflows db'))"
    "live_bindings (db_bindings db') \<subseteq> live_bindings (db_bindings (ds_db st))"
    "(\<lambda>b. ab_id (bw_binding b)) ` set (db_bindings db') = (\<lambda>b. ab_id (bw_binding b)) ` set (db_bindings (ds_db st))"
    "(\<lambda>b. ab_ticket_id (bw_binding b)) ` set (db_bindings db') = (\<lambda>b. ab_ticket_id (bw_binding b)) ` set (db_bindings (ds_db st))"
    using 1(6) binding_rows_update [of ?f "\<lambda>b. ab_ticket_id (bw_binding b) = tr_ticket_id r \<and> bw_active b" "db_bindings (ds_db st)"]
    by (auto simp: store_workflows_def live_key_def mutate_workflow_def Let_def intro!: gen_mono_update split: if_splits)
  have "owners (st\<lparr>ds_db := db'\<rparr>) = owners st"
    unfolding owners_def using owners_update [of "write_ticket r pg_now"] 1(4) by (simp add: write_ticket_def)
  with rows show ?thesis by (intro delivery_moveI) (simp_all add: binding_ids_def binding_tickets_def store_workflows_def)
qed

lemma delivery_move_create:
  assumes "fresh_id \<notin> tk_id ` set (db_tickets (ds_db st))" and "service_create projects (ds_db st) data fresh_id pg_now = Inr (db', t)"
  shows "delivery_move st (st\<lparr>ds_db := db'\<rparr>)"
proof -
  from assms(2) have db': "db' = (ds_db st)\<lparr>db_tickets := db_tickets (ds_db st) @ [t]\<rparr>" "tk_id t = fresh_id"
    by (auto simp: service_create_def new_ticket_def Let_def split: if_splits)
  with assms(1) show ?thesis
    by (auto simp: delivery_move_def owners_def binding_ids_def binding_tickets_def store_workflows_def image_iff)
qed

lemma delivery_move_step:
  assumes "store_step tz st st'" and "distinct (map wf_ticket_id (store_workflows st))"
  shows "delivery_move st st'"
  using assms(1)
proof cases
  case contract_set
  then show ?thesis using assms(2) by (rule delivery_move_set_contract)
next
  case (claim_moved rows)
  from claim_step_mono [OF claim_moved(2)] show ?thesis unfolding claim_moved(1)
    by (intro delivery_moveI) (simp_all add: store_workflows_def binding_ids_def binding_tickets_def owners_def)
next
  case ticket_moved
  then show ?thesis using delivery_move_transition by simp
next
  case ticket_created
  then show ?thesis using delivery_move_create by simp
qed (use delivery_move_bind_pr delivery_move_refresh in simp_all)

end
