(* ===== verification/Delivery_Issuing.thy ===== *)
theory Delivery_Issuing
  imports Delivery_Moves
begin

text \<open>
  How receipts keep the invariants. \<open>system_ok\<close> joins the invariants of the contracts, the receipts and the
  focus slots; in particular no open focus slot is satisfied by the receipts (\<open>slots_clear\<close>). The insertion
  of a receipt keeps it, because its hook closes the slots that the receipt satisfies, and so do the
  operations that insert receipts built from loaded inputs: \<open>issue_under_scope\<close> and \<open>accept\<close>.
\<close>

section \<open>Frames\<close>

lemma store_ok_cong:
  assumes "ds_db st' = ds_db st" "ds_revisions st' = ds_revisions st" "ds_dependencies st' = ds_dependencies st" "ds_events st' = ds_events st"
  shows "store_ok st' = store_ok st"
proof -
  have w: "store_workflows st' = store_workflows st" using assms(1) by (simp add: store_workflows_def)
  have "revisions_ok st' = revisions_ok st" unfolding revisions_ok_def dependency_rows_def w assms(2,3) by (rule refl)
  moreover have "current_edges st' = current_edges st" unfolding current_edges_def w assms(3) by (rule refl)
  ultimately show ?thesis unfolding store_ok_def assms(1,4) by simp
qed

lemma slots_ok_cong:
  assumes "ds_slots st' = ds_slots st" "ds_slot_history st' = ds_slot_history st" "ds_anchors st' = ds_anchors st"
  shows "slots_ok st' = slots_ok st"
  unfolding slots_ok_def assms by (rule refl)

lemma receipts_ok_cong:
  assumes "ds_db st' = ds_db st" "ds_receipts st' = ds_receipts st" "ds_attestations st' = ds_attestations st"
  shows "receipts_ok st' = receipts_ok st"
  unfolding receipts_ok_def binding_ids_def binding_tickets_def owners_def store_workflows_def assms by (rule refl)

definition system_ok :: "delivery_store \<Rightarrow> bool" where
  "system_ok st = (store_ok st \<and> receipts_ok st \<and> slots_ok st \<and> slots_clear st)"

lemma system_okD:
  assumes "system_ok st"
  shows "store_ok st" "receipts_ok st" "slots_ok st" "slots_clear st" "distinct (map wf_ticket_id (store_workflows st))"
    "distinct (map sl_id (ds_slots st))"
  using assms by (simp_all add: system_ok_def store_ok_def revisions_okD(1) slots_okD(1))

lemma system_ok_move:
  assumes "system_ok st" and "delivery_move st st'" and "store_ok st'"
  shows "system_ok st'"
proof -
  note ok = system_okD [OF assms(1)] and m = delivery_moveD [OF assms(2)]
  have "slots_ok st'" using ok(3) slots_ok_cong [OF m(9,10,8)] by simp
  with ok assms(2,3) receipts_ok_move [of st st'] slots_clear_move [of st st'] show ?thesis by (simp add: system_ok_def)
qed

section \<open>The hook\<close>

text \<open>A receipt that reaches only slots its tickets touch: the hook restores the invariant.\<close>

lemma system_ok_hook:
  assumes store: "store_ok st1" and receipts: "receipts_ok st1" and slots: "slots_ok st1"
    and hook: "close_slots_satisfied_by st1 ids row pg_now = Inr (st', closed)" and "ids \<noteq> []"
    and untouched: "\<And>s. s \<in> set (ds_slots st1) \<Longrightarrow> sl_closed_at s = None \<Longrightarrow> \<not> list_ex (touched st1 ids s) (load_anchors st1 (sl_id s)) \<Longrightarrow>
      \<not> slot_satisfied (anchor_states st1 s)"
  shows "system_ok st'" "ds_db st' = ds_db st1" "ds_receipts st' = ds_receipts st1"
proof -
  note c = close_slots_satisfied_by_Inr [OF hook assms(5) slots_okD(1) [OF slots]]
  note same = c(2) [unfolded same_delivery_def]
  show db: "ds_db st' = ds_db st1" and rx: "ds_receipts st' = ds_receipts st1" using same by simp_all
  have "slots_ok st'" by (rule slot_tables.inv_rtranclp [OF c(1) slots])
  moreover have "slots_clear st'" unfolding slots_clear_def
  proof (intro ballI impI)
    fix x assume x: "x \<in> set (ds_slots st')" "sl_closed_at x = None"
    have states: "anchor_states st' x = anchor_states st1 x" by (rule slot_satisfied_cong) (use same c(3) in simp_all)
    show "\<not> slot_satisfied (anchor_states st' x)"
      using c(5) [OF x] untouched [OF c(4) [OF x] x(2)] unfolding states by blast
  qed
  moreover have "store_ok st'" using store store_ok_cong [of st' st1] same by simp
  moreover have "receipts_ok st'" using receipts receipts_ok_cong [of st' st1] same by simp
  ultimately show "system_ok st'" by (simp add: system_ok_def)
qed

section \<open>Receipts\<close>

definition reached :: "delivery_store \<Rightarrow> milestone_receipt \<Rightarrow> bool" where
  "reached st r =
     (valid_milestone_receipt r \<and>
      (\<exists>a n. (mr_ticket_id r, a, n) \<in> generations (store_workflows st) \<and> mr_contract_revision r \<le> a \<and> mr_attempt r \<le> n) \<and>
      fa_binding_id ` set (fp_artifact_proofs (mr_proof r)) \<subseteq> binding_ids st)"

lemma receipts_ok_insert:
  assumes "receipts_ok st" and "reached st r" and "mr_id r \<notin> rx_id ` set (ds_receipts st)"
    and "receipt_key (receipt_row_of r) \<notin> receipt_key ` set (ds_receipts st)"
  shows "receipts_ok (st\<lparr>ds_receipts := ds_receipts st @ [receipt_row_of r]\<rparr>)"
proof -
  let ?x = "receipt_row_of r" and ?st = "st\<lparr>ds_receipts := ds_receipts st @ [receipt_row_of r]\<rparr>"
  note ok = receipts_okD [OF assms(1)]
  have x: "rx_payload ?x = r" "rx_id ?x = mr_id r" "rx_ticket_id ?x = mr_ticket_id r" "rx_revision ?x = mr_contract_revision r" "rx_attempt ?x = mr_attempt r"
    by (simp_all add: receipt_row_of_def)
  have fields: "store_workflows ?st = store_workflows st" "binding_ids ?st = binding_ids st" "owners ?st = owners st" "binding_tickets ?st = binding_tickets st"
      "ds_attestations ?st = ds_attestations st" "set (ds_receipts ?st) = insert ?x (set (ds_receipts st))"
    by (simp_all add: store_workflows_def binding_ids_def owners_def binding_tickets_def)
  have "receipt_row_of (rx_payload y) = y \<and> valid_milestone_receipt (rx_payload y) \<and>
      (\<exists>a n. (rx_ticket_id y, a, n) \<in> generations (store_workflows st) \<and> rx_revision y \<le> a \<and> rx_attempt y \<le> n) \<and>
      fa_binding_id ` set (fp_artifact_proofs (mr_proof (rx_payload y))) \<subseteq> binding_ids st" if "y \<in> insert ?x (set (ds_receipts st))" for y
  proof (cases "y = ?x")
    case True
    show ?thesis unfolding True x using assms(2) by (simp add: reached_def)
  next
    case False
    with that show ?thesis using ok(3-5,7) by blast
  qed
  moreover have "distinct (map rx_id (ds_receipts ?st))" "distinct (map receipt_key (ds_receipts ?st))"
    using ok(1,2) assms(3,4) x(2) by simp_all
  ultimately show ?thesis unfolding receipts_ok_def fields using ok(6,8) by blast
qed

lemma integrates_insert:
  assumes "x \<in> set (ds_receipts st) \<union> {receipt_row_of r}" and "integrates (st\<lparr>ds_receipts := xs\<rparr>) x t"
  shows "x \<in> set (ds_receipts st) \<and> integrates st x t \<or> (x = receipt_row_of r \<and> mr_milestone r = IntegrationReceipt \<and> t = mr_ticket_id r)"
  using assms by (auto simp: integrates_def receipt_row_of_def current_generation_def store_workflows_def)

text \<open>What a new receipt receives is an anchor that its ticket touches.\<close>

lemma received_anchor_insert:
  assumes "received_anchor (st\<lparr>ds_receipts := ds_receipts st @ [receipt_row_of r]\<rparr>) project a \<noteq> None"
    and "mr_milestone r = IntegrationReceipt \<Longrightarrow> \<not> touched st [mr_ticket_id r] s a"
  shows "received_anchor st project a \<noteq> None"
proof (rule received_anchor_mono [OF _ _ _ assms(1)])
  let ?st = "st\<lparr>ds_receipts := ds_receipts st @ [receipt_row_of r]\<rparr>"
  show "ticket_receipt st t \<noteq> None" if t: "ticket_receipt ?st t \<noteq> None" "sa_kind a = AnchorTicket" "sa_ticket_id a = Some t" for t
  proof -
    from t(1) obtain x where "x \<in> set (ds_receipts st) \<union> {receipt_row_of r}" "integrates ?st x t" unfolding ticket_receipt_iff by auto
    from integrates_insert [OF this] assms(2) t(2,3) show ?thesis unfolding ticket_receipt_iff by (auto simp: touched_def)
  qed
  show "pr_receipt st project k n \<noteq> None"
    if k: "pr_receipt ?st project k n \<noteq> None" "sa_kind a = AnchorPr" "sa_repository_id a = Some k" "sa_pr_number a = Some n" for k n
  proof -
    from k(1) obtain x b where x: "x \<in> set (ds_receipts st) \<union> {receipt_row_of r}" "b \<in> set (db_bindings (ds_db st))"
        "observed_binding_of ?st project k n x b" unfolding pr_receipt_iff by auto
    then have b: "bw_active b" "ab_repository_id (bw_binding b) = k" "ab_pr_number (bw_binding b) = n" "integrates ?st x (ab_ticket_id (bw_binding b))"
      by (simp_all add: observed_binding_of_def)
    from integrates_insert [OF x(1) b(4)] show ?thesis
    proof (elim disjE conjE)
      assume "x \<in> set (ds_receipts st)" "integrates st x (ab_ticket_id (bw_binding b))"
      with x(2,3) show ?thesis unfolding pr_receipt_iff by (auto simp: observed_binding_of_def targets_def)
    next
      assume "mr_milestone r = IntegrationReceipt" "ab_ticket_id (bw_binding b) = mr_ticket_id r"
      with assms(2) k(2-4) b x(2) show ?thesis by (auto simp: touched_def list_ex_iff)
    qed
  qed
  show "lot_release st project v \<noteq> None" if "lot_release ?st project v \<noteq> None" for v
    using that unfolding lot_release_iff by (simp add: measures_release_def targets_def)
qed

lemma system_ok_insert_receipt:
  assumes ok: "system_ok st" and r: "reached st r" and ins: "insert_receipt st r pg_now = Inr st'"
  shows "system_ok st'" "ds_db st' = ds_db st" "ds_receipts st' = ds_receipts st @ [receipt_row_of r]"
proof -
  let ?st = "st\<lparr>ds_receipts := ds_receipts st @ [receipt_row_of r]\<rparr>"
  note parts = system_okD [OF ok]
  from ins have new: "mr_id r \<notin> rx_id ` set (ds_receipts st)" "receipt_key (receipt_row_of r) \<notin> receipt_key ` set (ds_receipts st)"
    by (auto simp: insert_receipt_def Let_def result_simps receipt_row_of_def)
  have store: "store_ok ?st" using parts(1) store_ok_cong [of ?st st] by simp
  have receipts: "receipts_ok ?st" by (rule receipts_ok_insert [OF parts(2) r new])
  have slots: "slots_ok ?st" using parts(3) slots_ok_cong [of ?st st] by simp
  have anchors: "load_anchors ?st i = load_anchors st i" for i by (simp add: load_anchors_def)
  have clear: "\<not> slot_satisfied (anchor_states ?st s)" if s: "s \<in> set (ds_slots st)" "sl_closed_at s = None"
      "mr_milestone r = IntegrationReceipt \<Longrightarrow> \<not> list_ex (touched st [mr_ticket_id r] s) (load_anchors st (sl_id s))" for s
  proof
    assume sat: "slot_satisfied (anchor_states ?st s)"
    have "slot_satisfied (anchor_states st s)"
    proof (rule slot_satisfied_mono [OF sat anchors])
      fix a assume "a \<in> set (load_anchors st (sl_id s))" and received: "received_anchor ?st (sl_project_key s) a \<noteq> None"
      then have "\<not> touched st [mr_ticket_id r] s a" if "mr_milestone r = IntegrationReceipt" using s(3) [OF that] by (simp add: list_ex_iff)
      then show "received_anchor st (sl_project_key s) a \<noteq> None" by (rule received_anchor_insert [OF received])
    qed
    with parts(4) s(1,2) show False by (simp add: slots_clear_def)
  qed
  have touched: "touched ?st ids = touched st ids" for ids by (intro ext) (simp add: touched_def split: anchor_kind.split)
  show "system_ok st'" "ds_db st' = ds_db st" "ds_receipts st' = ds_receipts st @ [receipt_row_of r]"
  proof -
    have "system_ok st' \<and> ds_db st' = ds_db st \<and> ds_receipts st' = ds_receipts st @ [receipt_row_of r]"
    proof (cases "mr_milestone r = IntegrationReceipt")
      case True
      with ins new obtain closed where hook: "close_slots_satisfied_by ?st [mr_ticket_id r] (mr_id r) pg_now = Inr (st', closed)"
        by (cases "close_slots_satisfied_by ?st [mr_ticket_id r] (mr_id r) pg_now")
          (auto simp: insert_receipt_def Let_def result_simps receipt_row_of_def)
      have untouched: "\<not> slot_satisfied (anchor_states ?st s)" if "s \<in> set (ds_slots ?st)" "sl_closed_at s = None"
          "\<not> list_ex (touched ?st [mr_ticket_id r] s) (load_anchors ?st (sl_id s))" for s
        using clear [of s] that unfolding touched anchors by simp
      have "system_ok st'" by (rule system_ok_hook(1) [OF store receipts slots hook _ untouched]) simp_all
      moreover have "ds_db st' = ds_db ?st" by (rule system_ok_hook(2) [OF store receipts slots hook _ untouched]) simp_all
      moreover have "ds_receipts st' = ds_receipts ?st" by (rule system_ok_hook(3) [OF store receipts slots hook _ untouched]) simp_all
      ultimately show ?thesis by simp
    next
      case False
      with ins new have "st' = ?st" by (auto simp: insert_receipt_def Let_def result_simps)
      moreover have "slots_clear ?st" using clear False by (auto simp: slots_clear_def)
      ultimately show ?thesis using store receipts slots by (simp add: system_ok_def)
    qed
    then show "system_ok st'" "ds_db st' = ds_db st" "ds_receipts st' = ds_receipts st @ [receipt_row_of r]" by simp_all
  qed
qed

section \<open>Issued receipts\<close>

text \<open>A receipt built from loaded inputs is of the current generation and cites its bindings.\<close>

lemma frozen_artifact_id: "frozen_artifact st item = Inr p \<Longrightarrow> fa_binding_id p = ab_id (be_binding item)"
  by (auto simp: frozen_artifact_def Let_def result_simps split: option.splits prod.splits)

lemma frozen_receipt_proof_Inr:
  assumes "frozen_receipt_proof_of st i assessment delivery now basis issuer explicit = Inr p"
  shows "fa_binding_id ` set (fp_artifact_proofs p) = (\<lambda>e. ab_id (be_binding e)) ` set (ei_active_bindings i)"
    "fp_ticket_id p = cr_ticket_id (ei_contract i)" "fp_contract_revision p = cr_contract_revision (ei_contract i)"
    "fp_attempt p = ei_attempt i" "fp_delivery_digest p = delivery" "fp_issuer p = issuer" "fp_explicit_acceptance p = explicit"
    "fp_assessment_id p = assessment" "fp_decision_time p = now"
proof -
  from assms obtain artifacts where artifacts: "fp_artifact_proofs p = artifacts"
      "list_all2 (\<lambda>e f. frozen_artifact st e = Inr f) (sort_key (\<lambda>e. ab_deliverable_key (be_binding e)) (ei_active_bindings i)) artifacts"
    by (auto simp: frozen_receipt_proof_of_def Let_def result_simps res_map_Inr_iff split: option.splits)
  have "fa_binding_id ` set artifacts = (\<lambda>e. ab_id (be_binding e)) ` set (sort_key (\<lambda>e. ab_deliverable_key (be_binding e)) (ei_active_bindings i))"
    using artifacts(2) by (induction rule: list_all2_induct) (simp_all add: frozen_artifact_id)
  then show "fa_binding_id ` set (fp_artifact_proofs p) = (\<lambda>e. ab_id (be_binding e)) ` set (ei_active_bindings i)" by (simp add: artifacts(1))
  show "fp_ticket_id p = cr_ticket_id (ei_contract i)" "fp_contract_revision p = cr_contract_revision (ei_contract i)"
    "fp_attempt p = ei_attempt i" "fp_delivery_digest p = delivery" "fp_issuer p = issuer" "fp_explicit_acceptance p = explicit"
    "fp_assessment_id p = assessment" "fp_decision_time p = now"
    using assms by (auto simp: frozen_receipt_proof_of_def Let_def result_simps split: option.splits)
qed

lemma loaded_generation:
  assumes "store_ok st" and "load_inputs st t enabled freshness = Inr (Some i)"
  shows "\<exists>w. get_workflow (store_workflows st) t = Some w \<and> cr_ticket_id (ei_contract i) = t \<and>
      cr_contract_revision (ei_contract i) = wf_current_revision w \<and> ei_attempt i = wf_attempt w"
    "(\<lambda>e. ab_id (be_binding e)) ` set (ei_active_bindings i) \<subseteq> binding_ids st"
proof -
  from assms(2) have "(\<exists>w. get_workflow (store_workflows st) t = Some w \<and> cr_ticket_id (ei_contract i) = t \<and>
      cr_contract_revision (ei_contract i) = wf_current_revision w \<and> ei_attempt i = wf_attempt w) \<and>
      (\<lambda>e. ab_id (be_binding e)) ` set (ei_active_bindings i) \<subseteq> binding_ids st"
  proof (cases rule: load_inputs_Inr)
    case (1 w k rv digest delivery)
    have rv: "rv \<in> set (ds_revisions st)" "revision_key rv = (t, wf_current_revision w)"
      using revisions.get_row_Some [OF 1(3)] by (simp_all add: revision_key_def)
    have "revisions_ok st" using assms(1) by (simp add: store_ok_def)
    from revisions_okD(5) [OF this rv(1)] rv(2) have "cr_ticket_id (ei_contract i) = t" "cr_contract_revision (ei_contract i) = wf_current_revision w"
      unfolding 1(4) by simp_all
    moreover have "ab_id (be_binding e) \<in> binding_ids st" if "e \<in> set (ei_active_bindings i)" for e
    proof -
      from list_all2_right [OF load_generation_Inr(1) [OF 1(11)] that] obtain row where
        row: "row \<in> set (active_bindings st t (wf_current_revision w) (wf_attempt w))" "binding_evidence_of st row = Inr e" by blast
      with binding_evidence_of_Inr(1) [OF row(2)] show ?thesis by (auto simp: binding_ids_def active_bindings_def)
    qed
    ultimately show ?thesis using 1(1,7) by blast
  qed
  then show "\<exists>w. get_workflow (store_workflows st) t = Some w \<and> cr_ticket_id (ei_contract i) = t \<and>
      cr_contract_revision (ei_contract i) = wf_current_revision w \<and> ei_attempt i = wf_attempt w"
    "(\<lambda>e. ab_id (be_binding e)) ` set (ei_active_bindings i) \<subseteq> binding_ids st" by blast+
qed

lemma receipt_of_Inr:
  assumes "receipt_of i p m delivery now basis explicit fresh_id = Inr r"
  shows "valid_milestone_receipt r" "mr_id r = fresh_id" "mr_ticket_id r = cr_ticket_id (ei_contract i)" "mr_milestone r = m"
    "mr_contract_revision r = cr_contract_revision (ei_contract i)" "mr_attempt r = ei_attempt i" "mr_delivery_digest r = delivery"
    "mr_proof r = p" "mr_explicit_acceptance r = explicit" "mr_acceptance_basis r = basis" "mr_contract_digest r = fp_contract_digest p" "mr_issued_at r = now"
  using assms by (auto simp: receipt_of_def Let_def result_simps)

lemma receipt_reached:
  assumes "store_ok st" and "load_inputs st t enabled freshness = Inr (Some i)"
    and "receipt_of i p m delivery now basis explicit fresh_id = Inr r"
    and "fa_binding_id ` set (fp_artifact_proofs p) = (\<lambda>e. ab_id (be_binding e)) ` set (ei_active_bindings i)"
    and "ds_db st' = ds_db st"
  shows "reached st' r"
proof -
  note g = loaded_generation [OF assms(1,2)] and r = receipt_of_Inr [OF assms(3)]
  from g(1) obtain w where w: "get_workflow (store_workflows st) t = Some w" "mr_ticket_id r = t" "mr_contract_revision r = wf_current_revision w"
      "mr_attempt r = wf_attempt w" unfolding r by blast
  with workflows.get_row_Some [OF w(1)] have "(t, wf_current_revision w, wf_attempt w) \<in> generations (store_workflows st)"
    by (force simp: generations_def)
  moreover have "store_workflows st' = store_workflows st" "binding_ids st' = binding_ids st"
    using assms(5) by (simp_all add: store_workflows_def binding_ids_def)
  ultimately show ?thesis using w r(1) g(2) assms(4) r(8) by (auto simp: reached_def)
qed

lemma issue_under_scope_Inr:
  assumes "issue_under_scope tz settings st t ids now pg_now = Inr (st', out)"
  obtains (nothing) "st' = st"
  | (issued) freshness issuer i a p r st1 where "settings = Some (freshness, issuer)" "load_inputs st t True freshness = Inr (Some i)"
      "evaluate_delivery tz i (Aware now) = Inr a" "as_integration_receipt_eligible a" "ei_integration_receipt i = None" "out = Some r"
      "frozen_receipt_proof_of st i (as_assessment_id a) (as_delivery_digest a) now None issuer None = Inr p"
      "receipt_of i p IntegrationReceipt (as_delivery_digest a) now None None (fst ids) = Inr r"
      "insert_receipt st r pg_now = Inr st1"
      "cr_acceptance_mode (ei_contract i) \<noteq> Automatic \<and> st' = st1 \<or> cr_acceptance_mode (ei_contract i) = Automatic \<and>
        (\<exists>f. receipt_of i (p\<lparr>fp_acceptance_basis := Some Automatic\<rparr>) FulfilledReceipt (as_delivery_digest a) now (Some Automatic) None (snd ids) = Inr f \<and>
           insert_receipt st1 f pg_now = Inr st')"
proof (cases settings)
  case None
  show ?thesis by (rule nothing) (use assms None in \<open>simp add: issue_under_scope_def\<close>)
next
  case (Some x)
  then obtain freshness issuer where settings: "settings = Some (freshness, issuer)" by (cases x) simp
  with assms obtain loaded where loaded: "load_inputs st t True freshness = Inr loaded"
    by (auto simp: issue_under_scope_def lift_evidence_def result_simps split: sum.splits)
  show ?thesis
  proof (cases loaded)
    case None
    show ?thesis by (rule nothing) (use assms None in \<open>simp add: issue_under_scope_def settings loaded lift_evidence_def\<close>)
  next
    case (Some i)
    with assms obtain a where a: "evaluate_delivery tz i (Aware now) = Inr a"
      by (auto simp: issue_under_scope_def settings loaded lift_evidence_def split: sum.splits)
    note body = assms [unfolded issue_under_scope_def settings loaded Some lift_evidence_def option.case sum.case prod.case, simplified, unfolded a sum.case]
    show ?thesis
    proof (cases "as_integration_receipt_eligible a \<and> ei_integration_receipt i = None")
      case False
      then have "st' = st" using body by (cases "as_integration_receipt_eligible a") (auto split: option.splits)
      then show ?thesis by (rule nothing)
    next
      case True
      with body obtain p r st1 where "frozen_receipt_proof_of st i (as_assessment_id a) (as_delivery_digest a) now None issuer None = Inr p"
          "receipt_of i p IntegrationReceipt (as_delivery_digest a) now None None (fst ids) = Inr r" "insert_receipt st r pg_now = Inr st1" "out = Some r"
          "cr_acceptance_mode (ei_contract i) \<noteq> Automatic \<and> st' = st1 \<or> cr_acceptance_mode (ei_contract i) = Automatic \<and>
            (\<exists>f. receipt_of i (p\<lparr>fp_acceptance_basis := Some Automatic\<rparr>) FulfilledReceipt (as_delivery_digest a) now (Some Automatic) None (snd ids) = Inr f \<and>
               insert_receipt st1 f pg_now = Inr st')"
        by (auto simp: result_simps split: if_splits)
      with True a loaded Some settings show ?thesis by (intro issued) simp_all
    qed
  qed
qed

lemma system_ok_issue:
  assumes ok: "system_ok st" and "issue_under_scope tz settings st t ids now pg_now = Inr (st', out)"
  shows "system_ok st'"
  using assms(2)
proof (cases rule: issue_under_scope_Inr)
  case (issued freshness issuer i a p r st1)
  note store = system_okD(1) [OF ok]
  note proofs = frozen_receipt_proof_Inr(1) [OF issued(7)]
  have "reached st r" by (rule receipt_reached [OF store issued(2,8) proofs]) simp
  note first = system_ok_insert_receipt [OF ok this issued(9)]
  from issued(10) show ?thesis
  proof (elim disjE conjE exE)
    fix f assume f: "receipt_of i (p\<lparr>fp_acceptance_basis := Some Automatic\<rparr>) FulfilledReceipt (as_delivery_digest a) now (Some Automatic) None (snd ids) = Inr f"
      "insert_receipt st1 f pg_now = Inr st'"
    have "reached st1 f" by (rule receipt_reached [OF store issued(2) f(1)]) (use proofs first(2) in simp_all)
    from system_ok_insert_receipt(1) [OF first(1) this f(2)] show ?thesis .
  qed (use first in simp)
qed (use ok in simp)

lemma accept_Inr:
  assumes "accept tz enabled freshness st t call fresh_id now pg_now = Inr (st', f)"
  obtains k i a integration where "enabled" "lock_decision_scope st t = Inr k" "tk_from_project k = ac_actor_project call"
      "load_inputs st (tk_id k) True freshness = Inr (Some i)" "evaluate_delivery tz i (Aware now) = Inr a" "as_integration_receipt_eligible a"
      "cr_acceptance_mode (ei_contract i) = Explicit" "ei_integration_receipt i = Some integration"
      "as_delivery_digest a = ac_expected_digest call" "cr_contract_revision (ei_contract i) = ac_expected_revision call" "ei_attempt i = ac_expected_attempt call"
      "st' = st \<and> ei_fulfillment_receipt i = Some f \<or> (ei_fulfillment_receipt i = None \<and>
        (\<exists>p. frozen_receipt_proof_of st i (as_assessment_id a) (as_delivery_digest a) now (Some Explicit)
            \<lparr>ri_issuer_project = ac_actor_project call, ri_issuer_identity = ac_caller_identity call, ri_issuer_kind = Requester\<rparr>
            (Some \<lparr>ea_requester_project = ac_actor_project call, ea_rationale = ac_rationale call\<rparr>) = Inr p \<and>
          receipt_of i p FulfilledReceipt (as_delivery_digest a) now (Some Explicit)
            (Some \<lparr>ea_requester_project = ac_actor_project call, ea_rationale = ac_rationale call\<rparr>) fresh_id = Inr f \<and>
          insert_receipt st f pg_now = Inr st'))"
  using assms unfolding accept_def Let_def
  by (auto simp: result_simps lift_evidence_def split: option.splits sum.splits)

lemma system_ok_accept:
  assumes ok: "system_ok st" and "accept tz enabled freshness st t call fresh_id now pg_now = Inr (st', f)"
  shows "system_ok st'"
  using assms(2)
proof (cases rule: accept_Inr)
  case (1 k i a integration)
  from 1(12) show ?thesis
  proof (elim disjE conjE exE)
    fix p assume p: "frozen_receipt_proof_of st i (as_assessment_id a) (as_delivery_digest a) now (Some Explicit)
            \<lparr>ri_issuer_project = ac_actor_project call, ri_issuer_identity = ac_caller_identity call, ri_issuer_kind = Requester\<rparr>
            (Some \<lparr>ea_requester_project = ac_actor_project call, ea_rationale = ac_rationale call\<rparr>) = Inr p"
        "receipt_of i p FulfilledReceipt (as_delivery_digest a) now (Some Explicit)
            (Some \<lparr>ea_requester_project = ac_actor_project call, ea_rationale = ac_rationale call\<rparr>) fresh_id = Inr f"
        "insert_receipt st f pg_now = Inr st'"
    have "reached st f" by (rule receipt_reached [OF system_okD(1) [OF ok] 1(4) p(2) frozen_receipt_proof_Inr(1) [OF p(1)]]) simp
    from system_ok_insert_receipt(1) [OF ok this p(3)] show ?thesis .
  qed (use ok in simp)
qed

end
