(* ===== verification/Delivery_Retention.thy ===== *)
theory Delivery_Retention
  imports Delivery_Loaded Delivery_Publication
begin

text \<open>
  \<open>repositories/pg_delivery_retention.py\<close>: old successful confirmations that no row refers to are deleted
  in batches. A batch is one transaction; \<open>locked\<close> holds the rows that other transactions have locked,
  which the batch skips. A purge is invisible to every reader of the store.
\<close>

section \<open>References\<close>

definition REFERENCE_KEYS :: "string list" where
  "REFERENCE_KEYS = [''success_confirmation_id'', ''latest_attempt_confirmation_id'']"

text \<open>The members of a stored receipt under these keys, at any depth: those of its frozen proofs.\<close>

definition receipt_references :: "milestone_receipt \<Rightarrow> uuid list" where
  "receipt_references r =
     concat (map (\<lambda>p. [fa_success_confirmation_id p, fa_latest_attempt_confirmation_id p]) (fp_artifact_proofs (mr_proof r))) @
     concat (map (\<lambda>p. [fr_success_confirmation_id p, fr_latest_attempt_confirmation_id p]) (fp_repository_context_proofs (mr_proof r)))"

text \<open>Of an event only the payload could hold such a member; a stored contract or binding has none.\<close>

definition event_references :: "event_row \<Rightarrow> uuid list" where
  "event_references e = map (\<lambda>(k, v). show_int v) (filter (\<lambda>(k, v). k \<in> set REFERENCE_KEYS) (ev_payload e))"

definition protected :: "delivery_store \<Rightarrow> uuid list" where
  "protected st =
     List.map_filter bw_attempt_confirmation (db_bindings (ds_db st)) @ List.map_filter bw_success_confirmation (db_bindings (ds_db st)) @
     List.map_filter wf_context_attempt_confirmation (store_workflows st) @ List.map_filter wf_context_success_confirmation (store_workflows st) @
     concat (map (\<lambda>x. receipt_references (rx_payload x)) (ds_receipts st)) @ concat (map event_references (ds_events st))"

section \<open>The purge\<close>

definition purgeable :: "delivery_store \<Rightarrow> instant \<Rightarrow> confirmation_row \<Rightarrow> bool" where
  "purgeable st cutoff c =
     (cf_outcome c = OutSuccess \<and> cf_collection_finished_at c < cutoff \<and> cf_id c \<notin> set (protected st))"

definition purge_order :: "confirmation_row \<Rightarrow> instant \<times> uuid" where
  "purge_order c = (cf_collection_finished_at c, cf_id c)"

definition purge_selection :: "delivery_store \<Rightarrow> instant \<Rightarrow> nat \<Rightarrow> uuid set \<Rightarrow> uuid list" where
  "purge_selection st cutoff batch locked =
     map cf_id (take batch (sort_key purge_order (filter (\<lambda>c. purgeable st cutoff c \<and> cf_id c \<notin> locked) (ds_confirmations st))))"

definition delete_confirmations :: "delivery_store \<Rightarrow> uuid list \<Rightarrow> delivery_store \<times> uuid list" where
  "delete_confirmations st ids =
     (st\<lparr>ds_confirmations := filter (\<lambda>c. cf_id c \<notin> set ids) (ds_confirmations st)\<rparr>,
      map cf_id (filter (\<lambda>c. cf_id c \<in> set ids) (ds_confirmations st)))"

fun purge_loop :: "instant \<Rightarrow> nat \<Rightarrow> uuid set \<Rightarrow> nat \<Rightarrow> delivery_store \<Rightarrow> delivery_store \<times> nat \<times> nat" where
  "purge_loop cutoff batch locked 0 st = (st, 0, 0)"
| "purge_loop cutoff batch locked (Suc n) st =
     (let ids = purge_selection st cutoff batch locked; (st1, removed) = delete_confirmations st ids in
      if length ids < batch then (st1, length ids, length removed)
      else (let (st2, candidates, deleted) = purge_loop cutoff batch locked n st1 in
            (st2, length ids + candidates, length removed + deleted)))"

record retention_report =
  rr_cutoff :: instant
  rr_candidates :: nat
  rr_deleted :: nat
  rr_dry_run :: bool

datatype retention_error = WindowTooShort | BatchSizeOutOfRange | MaxBatchesNotPositive

definition SEVEN_DAYS :: int where
  "SEVEN_DAYS = 7 * 86400 * 1000000"

definition purge ::
    "delivery_store \<Rightarrow> int \<Rightarrow> int \<Rightarrow> int \<Rightarrow> bool \<Rightarrow> instant \<Rightarrow> uuid set
     \<Rightarrow> (retention_error, delivery_store \<times> retention_report) result" where
  "purge st older_than batch_size max_batches dry_run now locked =
     res_bind (ensure (SEVEN_DAYS \<le> older_than) WindowTooShort) (\<lambda>_.
     res_bind (ensure (1 \<le> batch_size \<and> batch_size \<le> 50000) BatchSizeOutOfRange) (\<lambda>_.
     res_bind (ensure (1 \<le> max_batches) MaxBatchesNotPositive) (\<lambda>_.
     let cutoff = now - older_than in
     if dry_run
     then Inr (st, \<lparr>rr_cutoff = cutoff, rr_candidates = length (filter (purgeable st cutoff) (ds_confirmations st)),
       rr_deleted = 0, rr_dry_run = True\<rparr>)
     else (let (st', candidates, deleted) = purge_loop cutoff (nat batch_size) locked (nat max_batches) st in
       Inr (st', \<lparr>rr_cutoff = cutoff, rr_candidates = candidates, rr_deleted = deleted, rr_dry_run = False\<rparr>)))))"

section \<open>Invisibility\<close>

text \<open>A pruned store differs only in successful confirmations that were old and unreferenced.\<close>

definition pruned :: "instant \<Rightarrow> delivery_store \<Rightarrow> delivery_store \<Rightarrow> bool" where
  "pruned cutoff st st' =
     (\<exists>ids. st' = st\<lparr>ds_confirmations := filter (\<lambda>c. cf_id c \<notin> set ids) (ds_confirmations st)\<rparr> \<and>
        (\<forall>c \<in> set (ds_confirmations st). cf_id c \<in> set ids \<longrightarrow> purgeable st cutoff c) \<and> set ids \<inter> set (protected st) = {})"

lemma protected_confirmations [simp]: "protected (st\<lparr>ds_confirmations := cs\<rparr>) = protected st"
  by (simp add: protected_def store_workflows_def)

lemma pruned_refl: "pruned cutoff st st"
  unfolding pruned_def by (rule exI [of _ "[]"]) simp

lemma pruned_trans:
  assumes "pruned cutoff st st1" and "pruned cutoff st1 st2"
  shows "pruned cutoff st st2"
proof -
  from assms(1) obtain ids where a: "st1 = st\<lparr>ds_confirmations := filter (\<lambda>c. cf_id c \<notin> set ids) (ds_confirmations st)\<rparr>"
    "\<forall>c \<in> set (ds_confirmations st). cf_id c \<in> set ids \<longrightarrow> purgeable st cutoff c" "set ids \<inter> set (protected st) = {}"
    unfolding pruned_def by (elim exE conjE)
  from assms(2) obtain ids' where b: "st2 = st1\<lparr>ds_confirmations := filter (\<lambda>c. cf_id c \<notin> set ids') (ds_confirmations st1)\<rparr>"
    "\<forall>c \<in> set (ds_confirmations st1). cf_id c \<in> set ids' \<longrightarrow> purgeable st1 cutoff c" "set ids' \<inter> set (protected st1) = {}"
    unfolding pruned_def by (elim exE conjE)
  have same: "purgeable (st\<lparr>ds_confirmations := cs\<rparr>) cutoff c = purgeable st cutoff c" for c cs by (simp add: purgeable_def)
  have "st2 = st\<lparr>ds_confirmations := filter (\<lambda>c. cf_id c \<notin> set (ids @ ids')) (ds_confirmations st)\<rparr>"
    by (simp add: a(1) b(1) conj_commute)
  moreover have "\<forall>c \<in> set (ds_confirmations st). cf_id c \<in> set (ids @ ids') \<longrightarrow> purgeable st cutoff c"
    using a(2) b(2) [unfolded a(1) same] by auto
  moreover have "set (ids @ ids') \<inter> set (protected st) = {}" using a(3) b(3) by (auto simp: a(1))
  ultimately show ?thesis unfolding pruned_def by blast
qed

lemma selection_purgeable:
  "i \<in> set (purge_selection st cutoff batch locked) \<Longrightarrow> \<exists>c \<in> set (ds_confirmations st). cf_id c = i \<and> purgeable st cutoff c \<and> i \<notin> locked"
  by (auto simp: purge_selection_def dest!: in_set_takeD)

lemma pruned_batch:
  assumes "distinct (map cf_id (ds_confirmations st))"
  shows "pruned cutoff st (fst (delete_confirmations st (purge_selection st cutoff batch locked)))"
proof -
  have "set (purge_selection st cutoff batch locked) \<inter> set (protected st) = {}"
    using selection_purgeable [of _ st cutoff batch locked] by (fastforce simp: purgeable_def)
  moreover have "purgeable st cutoff c"
    if "c \<in> set (ds_confirmations st)" "cf_id c \<in> set (purge_selection st cutoff batch locked)" for c
    using selection_purgeable [OF that(2)] that(1) assms by (metis distinct_map inj_onD)
  ultimately show ?thesis unfolding pruned_def delete_confirmations_def fst_conv by blast
qed

lemma pruned_loop:
  "distinct (map cf_id (ds_confirmations st)) \<Longrightarrow> purge_loop cutoff batch locked n st = (st', k) \<Longrightarrow> pruned cutoff st st'"
proof (induction n arbitrary: st st' k)
  case (Suc n)
  let ?ids = "purge_selection st cutoff batch locked"
  let ?st1 = "fst (delete_confirmations st ?ids)"
  have first: "pruned cutoff st ?st1" by (rule pruned_batch [OF Suc.prems(1)])
  have "distinct (map cf_id (ds_confirmations ?st1))" using Suc.prems(1) by (simp add: delete_confirmations_def distinct_map_filter)
  from Suc.IH [OF this] have rest: "purge_loop cutoff batch locked n ?st1 = (st', k') \<Longrightarrow> pruned cutoff ?st1 st'" for st' k' .
  show ?case
  proof (cases "length ?ids < batch")
    case True
    with Suc.prems(2) have "st' = ?st1" by (auto simp: Let_def split: prod.splits)
    with first show ?thesis by simp
  next
    case False
    with Suc.prems(2) obtain k' where "purge_loop cutoff batch locked n ?st1 = (st', k')" by (auto simp: Let_def split: prod.splits)
    with first rest show ?thesis by (blast intro: pruned_trans)
  qed
qed (simp add: pruned_refl)

lemma find_filter_other: "(\<And>x. p x \<Longrightarrow> q x) \<Longrightarrow> find_row p (filter q xs) = find_row p xs"
  unfolding find_row_def by (induction xs) auto

text \<open>What the rows point to is found as before.\<close>

lemma pruned_get_confirmation:
  assumes "pruned cutoff st st'" and "\<And>k. i = Some k \<Longrightarrow> k \<in> set (protected st)"
  shows "get_confirmation st' i = get_confirmation st i"
proof (cases i)
  case (Some k)
  from assms(1) obtain ids where st': "st' = st\<lparr>ds_confirmations := filter (\<lambda>c. cf_id c \<notin> set ids) (ds_confirmations st)\<rparr>"
    "set ids \<inter> set (protected st) = {}" unfolding pruned_def by (elim exE conjE)
  with assms(2) [OF Some] have "k \<notin> set ids" by blast
  then show ?thesis unfolding get_confirmation_def st'(1) Some by (auto intro!: find_filter_other)
qed (simp add: get_confirmation_def)

lemma pruned_fields:
  assumes "pruned cutoff st st'"
  shows "ds_db st' = ds_db st" "ds_revisions st' = ds_revisions st" "ds_dependencies st' = ds_dependencies st" "ds_snapshots st' = ds_snapshots st"
    "ds_receipts st' = ds_receipts st" "ds_entities st' = ds_entities st" "store_workflows st' = store_workflows st"
    "ds_attestations st' = ds_attestations st" "ds_slots st' = ds_slots st" "ds_anchors st' = ds_anchors st"
    "ds_slot_history st' = ds_slot_history st" "ds_events st' = ds_events st"
  using assms by (auto simp: pruned_def store_workflows_def)

lemma in_map_filter: "x \<in> set xs \<Longrightarrow> f x = Some y \<Longrightarrow> y \<in> set (List.map_filter f xs)"
  by (force simp: List.map_filter_def)

lemma pruned_success_proof:
  assumes "pruned cutoff st st'" and "get_confirmation st' i = get_confirmation st i"
  shows "success_proof st' i = success_proof st i"
  using assms(2) by (simp add: success_proof_def pruned_fields [OF assms(1)])

lemma pruned_binding_evidence:
  assumes "pruned cutoff st st'" and "row \<in> set (db_bindings (ds_db st))"
  shows "binding_evidence_of st' row = binding_evidence_of st row"
proof -
  have "get_confirmation st' (bw_success_confirmation row) = get_confirmation st (bw_success_confirmation row)"
    using assms(2) by (intro pruned_get_confirmation [OF assms(1)]) (simp add: protected_def in_map_filter)
  moreover have "get_confirmation st' (bw_attempt_confirmation row) = get_confirmation st (bw_attempt_confirmation row)"
    using assms(2) by (intro pruned_get_confirmation [OF assms(1)]) (simp add: protected_def in_map_filter)
  ultimately show ?thesis by (simp add: binding_evidence_of_def pruned_success_proof [OF assms(1)])
qed

lemma pruned_context_predicates:
  assumes "pruned cutoff st st'" and "w \<in> set (store_workflows st)"
  shows "context_predicates st' c w = context_predicates st c w"
proof -
  have latest: "get_confirmation st' (wf_context_attempt_confirmation w) = get_confirmation st (wf_context_attempt_confirmation w)"
    using assms(2) by (intro pruned_get_confirmation [OF assms(1)]) (simp add: protected_def in_map_filter)
  have "get_confirmation st' (wf_context_success_confirmation w) = get_confirmation st (wf_context_success_confirmation w)"
    using assms(2) by (intro pruned_get_confirmation [OF assms(1)]) (simp add: protected_def in_map_filter)
  then have proved: "success_proof st' (wf_context_success_confirmation w) = success_proof st (wf_context_success_confirmation w)"
    by (rule pruned_success_proof [OF assms(1)])
  have "context_predicate_of st' w = context_predicate_of st w"
    unfolding context_predicate_of_def latest proved pruned_fields [OF assms(1)] by (rule refl)
  then show ?thesis by (simp add: context_predicates_def proved)
qed

lemma res_map_cong: "(\<And>x. x \<in> set xs \<Longrightarrow> f x = g x) \<Longrightarrow> res_map f xs = res_map g xs"
  by (induction xs) (auto split: sum.splits)

lemma pruned_load_generation:
  assumes "pruned cutoff st st'"
  shows "load_generation st' i revision attempt digest = load_generation st i revision attempt digest"
proof -
  have "active_bindings st' i revision attempt = active_bindings st i revision attempt"
    by (simp add: active_bindings_def pruned_fields [OF assms])
  moreover have "res_map (binding_evidence_of st') (active_bindings st i revision attempt) = res_map (binding_evidence_of st) (active_bindings st i revision attempt)"
    by (rule res_map_cong) (simp add: active_bindings_def pruned_binding_evidence [OF assms])
  ultimately show ?thesis by (simp add: load_generation_def)
qed

lemma pruned_load_inputs:
  assumes "pruned cutoff st st'"
  shows "load_inputs st' i enabled freshness = load_inputs st i enabled freshness"
proof -
  note fields = pruned_fields [OF assms]
  have receipts: "matching_receipt st' = matching_receipt st" by (intro ext) (simp add: matching_receipt_def fields)
  have dependencies: "load_dependency st' = load_dependency st" "dependency_join st' = dependency_join st"
    unfolding load_dependency_def dependency_join_def fields receipts pruned_load_generation [OF assms] by (rule refl)+
  show ?thesis
  proof (cases "get_workflow (store_workflows st) i")
    case (Some w)
    then have "w \<in> set (store_workflows st)" using workflows.get_row_Some by blast
    then have contexts: "context_predicates st' c w = context_predicates st c w" for c by (rule pruned_context_predicates [OF assms])
    show ?thesis
      unfolding load_inputs_def fields receipts dependencies pruned_load_generation [OF assms] Some option.case contexts by (rule refl)
  qed (simp add: load_inputs_def fields)
qed

section \<open>The report\<close>

lemma length_filter_keys:
  assumes "distinct (map key xs)" and "distinct ks" and "set ks \<subseteq> key ` set xs"
  shows "length (filter (\<lambda>x. key x \<in> set ks) xs) = length ks"
proof -
  have "distinct (map key (filter (\<lambda>x. key x \<in> set ks) xs))" using assms(1) by (rule distinct_map_filter)
  from distinct_card [OF this] have "length (filter (\<lambda>x. key x \<in> set ks) xs) = card (set (map key (filter (\<lambda>x. key x \<in> set ks) xs)))" by simp
  also have "set (map key (filter (\<lambda>x. key x \<in> set ks) xs)) = set ks" using assms(3) by auto
  also have "card (set ks) = length ks" using assms(2) by (rule distinct_card)
  finally show ?thesis .
qed

lemma selection_facts:
  assumes "distinct (map cf_id (ds_confirmations st))" and ids: "ids = purge_selection st cutoff batch locked"
  shows "distinct ids" "set ids \<subseteq> cf_id ` set (ds_confirmations st)" "length ids \<le> batch"
    "length ids < batch \<Longrightarrow> c \<in> set (ds_confirmations st) \<Longrightarrow> purgeable st cutoff c \<Longrightarrow> cf_id c \<notin> locked \<Longrightarrow> cf_id c \<in> set ids"
proof -
  let ?hits = "sort_key purge_order (filter (\<lambda>c. purgeable st cutoff c \<and> cf_id c \<notin> locked) (ds_confirmations st))"
  have "distinct (map cf_id (filter (\<lambda>c. purgeable st cutoff c \<and> cf_id c \<notin> locked) (ds_confirmations st)))"
    using assms(1) by (rule distinct_map_filter)
  then have "distinct (map cf_id ?hits)" by (simp add: distinct_map)
  then show "distinct ids" by (simp add: ids purge_selection_def take_map [symmetric])
  show "set ids \<subseteq> cf_id ` set (ds_confirmations st)" unfolding ids by (auto dest: selection_purgeable)
  show "length ids \<le> batch" by (simp add: ids purge_selection_def)
  assume "length ids < batch"
  then have "ids = map cf_id ?hits" by (simp add: ids purge_selection_def)
  then show "c \<in> set (ds_confirmations st) \<Longrightarrow> purgeable st cutoff c \<Longrightarrow> cf_id c \<notin> locked \<Longrightarrow> cf_id c \<in> set ids" by simp
qed

text \<open>The counters are exact, and a run that stops before its quota leaves no unlocked candidate.\<close>

lemma purge_loop_counts:
  assumes "distinct (map cf_id (ds_confirmations st))" and "purge_loop cutoff batch locked n st = (st', candidates, deleted)"
  shows "candidates = deleted \<and> deleted + length (ds_confirmations st') = length (ds_confirmations st) \<and> deleted \<le> n * batch \<and>
    (deleted < n * batch \<longrightarrow> (\<forall>c \<in> set (ds_confirmations st'). purgeable st' cutoff c \<longrightarrow> cf_id c \<in> locked))"
  using assms
proof (induction n arbitrary: st st' candidates deleted)
  case (Suc n)
  define ids where "ids = purge_selection st cutoff batch locked"
  define st1 where "st1 = fst (delete_confirmations st ids)"
  note facts = selection_facts [OF Suc.prems(1) ids_def]
  have cs: "ds_confirmations st1 = filter (\<lambda>c. cf_id c \<notin> set ids) (ds_confirmations st)" by (simp add: st1_def delete_confirmations_def)
  obtain removed where removed: "delete_confirmations st ids = (st1, removed)" "length removed = length ids"
    using length_filter_keys [OF Suc.prems(1) facts(1,2)] by (simp add: st1_def delete_confirmations_def)
  have kept: "length ids + length (ds_confirmations st1) = length (ds_confirmations st)"
    using length_filter_keys [OF Suc.prems(1) facts(1,2)] sum_length_filter_compl [of "\<lambda>c. cf_id c \<in> set ids" "ds_confirmations st"] by (simp add: cs)
  have run: "purge_loop cutoff batch locked (Suc n) st =
      (if length ids < batch then (st1, length ids, length ids)
       else (let (st2, candidates, deleted) = purge_loop cutoff batch locked n st1 in (st2, length ids + candidates, length ids + deleted)))"
    unfolding purge_loop.simps ids_def [symmetric] Let_def removed prod.case by (rule refl)
  show ?case
  proof (cases "length ids < batch")
    case True
    then have st': "st' = st1" "candidates = length ids" "deleted = length ids" using Suc.prems(2) unfolding run by simp_all
    have "purgeable st1 cutoff c = purgeable st cutoff c" for c by (simp add: st1_def delete_confirmations_def purgeable_def)
    then have "\<forall>c \<in> set (ds_confirmations st1). purgeable st1 cutoff c \<longrightarrow> cf_id c \<in> locked" using facts(4) [OF True] by (auto simp: cs)
    then show ?thesis using st' kept True by simp
  next
    case False
    then obtain k d where rest: "purge_loop cutoff batch locked n st1 = (st', k, d)" "candidates = length ids + k" "deleted = length ids + d"
      using Suc.prems(2) unfolding run by (auto split: prod.splits)
    have full: "length ids = batch" using False facts(3) by simp
    have "distinct (map cf_id (ds_confirmations st1))" using Suc.prems(1) by (simp add: cs distinct_map_filter)
    from Suc.IH [OF this rest(1)] show ?thesis using rest(2,3) kept full by auto
  qed
qed simp

end
