(* ===== verification/Delivery_Queue.thy ===== *)
theory Delivery_Queue
  imports Delivery_Retention
begin

text \<open>
  \<open>repositories/pg_delivery_queue.py\<close>: the observer's due work. \<open>due\<close> joins bindings and workflows of the
  current generation with their contract and ticket, \<open>schedule_after\<close> moves a captured due time, and
  \<open>read_observer_liveness\<close> counts what is overdue. \<open>now\<close> is the clock of the statement; a delay is given in
  microseconds; \<open>lock_held\<close> says whether a process holds the observer's advisory lock.
\<close>

section \<open>Due work\<close>

definition eligible_ticket :: "workflow_row \<Rightarrow> ticket \<Rightarrow> bool" where
  "eligible_ticket w t =
     (wf_disposition w = DActive \<and> tk_kind t = TicketRequest \<and> tk_status t \<in> {SOpen, SInProgress, SResolved})"

definition has_context :: "contract_revision \<Rightarrow> bool" where
  "has_context c = list_ex (\<lambda>r. case r of RepositoryDocument _ _ _ required \<Rightarrow> required | _ \<Rightarrow> False) (cr_context_refs c)"

definition context_due :: "instant \<Rightarrow> workflow_row \<Rightarrow> revision_row \<Rightarrow> bool" where
  "context_due now w rv =
     (has_context (rw_contract rv) \<and> (case wf_context_due_at w of None \<Rightarrow> False | Some d \<Rightarrow> d \<le> now))"

definition failures :: "delivery_store \<Rightarrow> evidence_subject \<Rightarrow> instant option \<Rightarrow> nat" where
  "failures st subject last_success =
     min 6 (length (filter (\<lambda>c. cf_outcome c = OutError \<and> cf_subject c = subject \<and>
       opt_ok (\<lambda>s. s < cf_collection_finished_at c) last_success) (ds_confirmations st)))"

datatype job_kind = ArtifactJob | ContextJob

definition job_kind_text :: "job_kind \<Rightarrow> string" where
  "job_kind_text k = (case k of ArtifactJob \<Rightarrow> ''artifact_binding'' | ContextJob \<Rightarrow> ''repository_context'')"

text \<open>A row of the union of the two selects; the JSON columns hold the stored values.\<close>

record due_row =
  du_kind :: job_kind
  du_subject_id :: uuid
  du_ticket_id :: uuid
  du_attempt :: int
  du_context_set_digest :: string
  du_contract :: contract_revision
  du_project_key :: string
  du_version :: int
  du_due_at :: instant
  du_binding_row :: "artifact_binding option"
  du_previous :: "snapshot_evidence option"
  du_failure_count :: nat

definition work_identity :: "job_kind \<Rightarrow> uuid \<Rightarrow> string" where
  "work_identity k i = job_kind_text k @ '':'' @ i"

text \<open>The join of a workflow with its current revision and its ticket.\<close>

definition observed_workflow :: "delivery_store \<Rightarrow> workflow_row \<Rightarrow> (revision_row \<times> ticket) option" where
  "observed_workflow st w =
     Option.bind (get_revision (ds_revisions st) (wf_ticket_id w, wf_current_revision w)) (\<lambda>rv.
     Option.bind (get_ticket (db_tickets (ds_db st)) (wf_ticket_id w)) (\<lambda>t.
     if eligible_ticket w t then Some (rv, t) else None))"

definition artifact_due :: "delivery_store \<Rightarrow> instant \<Rightarrow> workflow_row \<times> revision_row \<times> ticket \<Rightarrow> binding_row \<Rightarrow> due_row option" where
  "artifact_due st now = (\<lambda>(w, rv, t) r.
     (let b = bw_binding r in
      if ab_ticket_id b = wf_ticket_id w \<and> ab_contract_revision b = wf_current_revision w \<and> ab_attempt b = wf_attempt w \<and>
        bw_active r \<and> \<not> context_due now w rv
      then (case bw_due_at r of
          None \<Rightarrow> None
        | Some d \<Rightarrow>
            if d \<le> now
            then Some \<lparr>du_kind = ArtifactJob, du_subject_id = ab_id b, du_ticket_id = wf_ticket_id w, du_attempt = wf_attempt w,
              du_context_set_digest = wf_context_set_digest w, du_contract = rw_contract rv, du_project_key = tk_to_project t,
              du_version = ab_binding_version b, du_due_at = d, du_binding_row = Some b,
              du_previous = map_option (\<lambda>(c, s). sn_evidence s) (success_proof st (bw_success_confirmation r)),
              du_failure_count = failures st (ArtifactSubject (ab_id b)) (bw_last_success_at r)\<rparr>
            else None)
      else None))"

definition context_job :: "delivery_store \<Rightarrow> instant \<Rightarrow> workflow_row \<times> revision_row \<times> ticket \<Rightarrow> due_row option" where
  "context_job st now = (\<lambda>(w, rv, t).
     if context_due now w rv
     then map_option (\<lambda>d. \<lparr>du_kind = ContextJob, du_subject_id = wf_ticket_id w, du_ticket_id = wf_ticket_id w, du_attempt = wf_attempt w,
       du_context_set_digest = wf_context_set_digest w, du_contract = rw_contract rv, du_project_key = tk_to_project t,
       du_version = wf_context_row_version w, du_due_at = d, du_binding_row = None, du_previous = None,
       du_failure_count = failures st
         (ContextSubject (wf_ticket_id w) (wf_current_revision w) (wf_attempt w) (wf_context_set_digest w))
         (wf_context_last_success_at w)\<rparr>) (wf_context_due_at w)
     else None)"

definition observed_workflows :: "delivery_store \<Rightarrow> (workflow_row \<times> revision_row \<times> ticket) list" where
  "observed_workflows st = List.map_filter (\<lambda>w. map_option (Pair w) (observed_workflow st w)) (store_workflows st)"

definition due_rows :: "delivery_store \<Rightarrow> instant \<Rightarrow> due_row list" where
  "due_rows st now =
     concat (map (\<lambda>x. List.map_filter (artifact_due st now x) (db_bindings (ds_db st))) (observed_workflows st)) @
     List.map_filter (context_job st now) (observed_workflows st)"

definition due_order :: "due_row \<Rightarrow> instant \<times> nat \<times> uuid \<times> uuid" where
  "due_order r = (du_due_at r, case du_kind r of ContextJob \<Rightarrow> 0 | ArtifactJob \<Rightarrow> 1, du_ticket_id r, du_subject_id r)"

section \<open>Jobs\<close>

record observation_job =
  oj_kind :: job_kind
  oj_subject_id :: uuid
  oj_ticket_id :: uuid
  oj_attempt :: int
  oj_version :: int
  oj_due_at :: instant
  oj_captured_at :: instant
  oj_contract :: contract_revision
  oj_project_key :: string
  oj_context_set_digest :: string
  oj_binding :: "artifact_binding option"
  oj_previous :: "pull_request_evidence option"
  oj_failure_count :: nat

definition job_identity :: "observation_job \<Rightarrow> string" where
  "job_identity j = work_identity (oj_kind j) (oj_subject_id j)"

definition decode_previous :: "snapshot_evidence option \<Rightarrow> pull_request_evidence option option" where
  "decode_previous previous = (case previous of
       None \<Rightarrow> Some None
     | Some (PullRequestSnapshot ev) \<Rightarrow> if valid_pull_request_evidence ev then Some (Some ev) else None
     | Some (ContextSnapshot _) \<Rightarrow> None)"

definition decode_job :: "instant \<Rightarrow> due_row \<Rightarrow> observation_job option" where
  "decode_job captured r =
     (if \<not> valid_contract_revision (du_contract r) then None
      else if \<not> opt_ok valid_artifact_binding (du_binding_row r) then None
      else map_option (\<lambda>previous. \<lparr>oj_kind = du_kind r, oj_subject_id = du_subject_id r, oj_ticket_id = du_ticket_id r,
        oj_attempt = du_attempt r, oj_version = du_version r, oj_due_at = du_due_at r, oj_captured_at = captured,
        oj_contract = du_contract r, oj_project_key = du_project_key r, oj_context_set_digest = du_context_set_digest r,
        oj_binding = du_binding_row r, oj_previous = previous, oj_failure_count = du_failure_count r\<rparr>)
        (decode_previous (du_previous r)))"

datatype queue_error = LimitOutOfRange | Undecodable | DelayOutOfRange | ThresholdNegative

text \<open>With a listener a row that cannot be decoded is reported and skipped; without one it raises.\<close>

fun decode_jobs :: "bool \<Rightarrow> instant \<Rightarrow> due_row list \<Rightarrow> (queue_error, observation_job list \<times> string list) result" where
  "decode_jobs listener captured [] = Inr ([], [])"
| "decode_jobs listener captured (r # rows) =
     (case decode_job captured r of
        Some j \<Rightarrow> res_bind (decode_jobs listener captured rows) (\<lambda>(jobs, reported). Inr (j # jobs, reported))
      | None \<Rightarrow>
          if listener
          then res_bind (decode_jobs listener captured rows) (\<lambda>(jobs, reported).
            Inr (jobs, work_identity (du_kind r) (du_subject_id r) # reported))
          else Inl Undecodable)"

definition due_selection :: "delivery_store \<Rightarrow> instant \<Rightarrow> string option \<Rightarrow> int \<Rightarrow> string set \<Rightarrow> due_row list" where
  "due_selection st now project limit exclude =
     take (nat limit) (sort_key due_order (filter (\<lambda>r. opt_ok ((=) (du_project_key r)) project \<and>
       work_identity (du_kind r) (du_subject_id r) \<notin> exclude) (due_rows st now)))"

definition due ::
    "delivery_store \<Rightarrow> instant \<Rightarrow> string option \<Rightarrow> int \<Rightarrow> string set \<Rightarrow> bool \<Rightarrow> (queue_error, observation_job list \<times> string list) result" where
  "due st now project limit exclude listener =
     res_bind (ensure (1 \<le> limit \<and> limit \<le> 100) LimitOutOfRange) (\<lambda>_.
     decode_jobs listener now (due_selection st now project limit exclude))"

section \<open>Rescheduling\<close>

definition generation_open :: "delivery_store \<Rightarrow> observation_job \<Rightarrow> bool" where
  "generation_open st j =
     list_ex (\<lambda>w. wf_ticket_id w = oj_ticket_id j \<and> wf_current_revision w = cr_contract_revision (oj_contract j) \<and>
       wf_attempt w = oj_attempt j \<and> wf_disposition w = DActive) (store_workflows st)"

definition captured_binding :: "observation_job \<Rightarrow> int \<Rightarrow> binding_row \<Rightarrow> bool" where
  "captured_binding j expected r =
     (ab_id (bw_binding r) = oj_subject_id j \<and> ab_binding_version (bw_binding r) = expected \<and> bw_due_at r = Some (oj_due_at j) \<and> bw_active r)"

definition captured_context :: "observation_job \<Rightarrow> int \<Rightarrow> workflow_row \<Rightarrow> bool" where
  "captured_context j expected w =
     (wf_ticket_id w = oj_ticket_id j \<and> wf_current_revision w = cr_contract_revision (oj_contract j) \<and> wf_attempt w = oj_attempt j \<and>
      wf_context_set_digest w = oj_context_set_digest j \<and> wf_context_row_version w = expected \<and>
      wf_context_due_at w = Some (oj_due_at j) \<and> wf_disposition w = DActive)"

definition MAX_DELAY :: int where
  "MAX_DELAY = 86400 * 1000000"

definition schedule_after ::
    "delivery_store \<Rightarrow> observation_job \<Rightarrow> int \<Rightarrow> int \<Rightarrow> instant \<Rightarrow> (queue_error, delivery_store \<times> bool) result" where
  "schedule_after st j delay expected now =
     res_bind (ensure (0 < delay \<and> delay \<le> MAX_DELAY) DelayOutOfRange) (\<lambda>_.
     let next_due = now + delay in
     if oj_binding j \<noteq> None
     then (let hit = (\<lambda>r. captured_binding j expected r \<and> generation_open st j) in
       Inr (st\<lparr>ds_db := (ds_db st)\<lparr>db_bindings := update_rows hit (\<lambda>r. r\<lparr>bw_due_at := Some next_due\<rparr>) (db_bindings (ds_db st))\<rparr>\<rparr>,
            list_ex hit (db_bindings (ds_db st))))
     else Inr (st\<lparr>ds_db := (ds_db st)\<lparr>db_workflows :=
              update_rows (captured_context j expected) (\<lambda>w. w\<lparr>wf_context_due_at := Some next_due\<rparr>) (store_workflows st)\<rparr>\<rparr>,
            list_ex (captured_context j expected) (store_workflows st)))"

section \<open>Liveness of the observer\<close>

record observer_liveness =
  ol_lock_held :: bool
  ol_overdue :: nat
  ol_last_confirmation_age :: "int option"
  ol_healthy :: bool

definition overdue_artifacts :: "delivery_store \<Rightarrow> instant \<Rightarrow> instant \<Rightarrow> uuid list" where
  "overdue_artifacts st now before =
     concat (map (\<lambda>(w, rv, t). List.map_filter (\<lambda>r. let b = bw_binding r in
       if ab_ticket_id b = wf_ticket_id w \<and> ab_contract_revision b = wf_current_revision w \<and> ab_attempt b = wf_attempt w \<and>
         bw_active r \<and> (case bw_due_at r of None \<Rightarrow> False | Some d \<Rightarrow> d < before) \<and> \<not> context_due now w rv
       then Some (ab_id b) else None) (db_bindings (ds_db st))) (observed_workflows st))"

definition overdue_contexts :: "delivery_store \<Rightarrow> instant \<Rightarrow> instant \<Rightarrow> uuid list" where
  "overdue_contexts st now before =
     List.map_filter (\<lambda>(w, rv, t).
       if context_due now w rv \<and> (case wf_context_due_at w of None \<Rightarrow> False | Some d \<Rightarrow> d < before)
       then Some (wf_ticket_id w) else None) (observed_workflows st)"

definition newest_confirmation :: "delivery_store \<Rightarrow> instant option" where
  "newest_confirmation st =
     (if ds_confirmations st = [] then None else Some (Max (set (map cf_collection_finished_at (ds_confirmations st)))))"

definition read_observer_liveness :: "delivery_store \<Rightarrow> instant \<Rightarrow> bool \<Rightarrow> int \<Rightarrow> (queue_error, observer_liveness) result" where
  "read_observer_liveness st now lock_held overdue_after_seconds =
     res_bind (ensure (0 \<le> overdue_after_seconds) ThresholdNegative) (\<lambda>_.
     let before = now - overdue_after_seconds * 1000000;
         overdue = length (overdue_artifacts st now before @ overdue_contexts st now before) in
     Inr \<lparr>ol_lock_held = lock_held, ol_overdue = overdue,
       ol_last_confirmation_age = map_option (\<lambda>f. max 0 ((now - f) div 1000000)) (newest_confirmation st),
       ol_healthy = (lock_held \<and> overdue = 0)\<rparr>)"

section \<open>Laws of the queue\<close>

lemma length_map_filter: "length (List.map_filter f xs) = length (filter (\<lambda>x. f x \<noteq> None) xs)"
  by (simp add: List.map_filter_def)

lemma filter_map_filter: "filter p (List.map_filter f xs) = List.map_filter (\<lambda>x. case f x of None \<Rightarrow> None | Some y \<Rightarrow> if p y then Some y else None) xs"
  by (induction xs) (simp_all add: List.map_filter_simps split: option.splits)

lemma in_map_filter_iff: "y \<in> set (List.map_filter f xs) \<longleftrightarrow> (\<exists>x \<in> set xs. f x = Some y)"
  by (force simp: List.map_filter_def)

lemma distinct_concat_map:
  assumes "distinct xs" and "\<And>x. x \<in> set xs \<Longrightarrow> distinct (f x)"
    and "\<And>x y. x \<in> set xs \<Longrightarrow> y \<in> set xs \<Longrightarrow> x \<noteq> y \<Longrightarrow> set (f x) \<inter> set (f y) = {}"
  shows "distinct (concat (map f xs))"
  using assms
proof (induction xs)
  case (Cons x xs)
  have "set (f x) \<inter> set (f y) = {}" if "y \<in> set xs" for y using Cons.prems(1) Cons.prems(3) [of x y] that by auto
  then have "set (f x) \<inter> set (concat (map f xs)) = {}" by auto
  moreover have "distinct (concat (map f xs))" using Cons.prems by (intro Cons.IH) auto
  ultimately show ?case using Cons.prems(2) [of x] by simp
qed simp

lemma distinct_map_filter_key:
  assumes "distinct (map key xs)" and "\<And>x y. f x = Some y \<Longrightarrow> g y = key x"
  shows "distinct (map g (List.map_filter f xs))"
  using assms(1)
proof (induction xs)
  case (Cons x xs)
  have "g y \<in> key ` set xs" if "y \<in> set (List.map_filter f xs)" for y
    using that assms(2) by (auto simp: in_map_filter_iff)
  with Cons assms(2) show ?case by (auto simp: List.map_filter_simps split: option.splits)
qed (simp add: List.map_filter_simps)

subsection \<open>Liveness counts the queue\<close>

lemma overdue_artifact_rows:
  assumes "before \<le> now"
  shows "length (overdue_artifacts st now before) =
    length (filter (\<lambda>r. du_due_at r < before) (concat (map (\<lambda>x. List.map_filter (artifact_due st now x) (db_bindings (ds_db st))) (observed_workflows st))))"
proof -
  define bs where "bs = db_bindings (ds_db st)"
  let ?over = "\<lambda>(w, rv, t). List.map_filter (\<lambda>r. let b = bw_binding r in
       if ab_ticket_id b = wf_ticket_id w \<and> ab_contract_revision b = wf_current_revision w \<and> ab_attempt b = wf_attempt w \<and>
         bw_active r \<and> (case bw_due_at r of None \<Rightarrow> False | Some d \<Rightarrow> d < before) \<and> \<not> context_due now w rv
       then Some (ab_id b) else None) bs"
  let ?due = "\<lambda>x. filter (\<lambda>r. du_due_at r < before) (List.map_filter (artifact_due st now x) bs)"
  have same: "length (?over x) = length (?due x)" for x
  proof -
    obtain w rv t where x: "x = (w, rv, t)" by (cases x)
    show ?thesis unfolding x prod.case filter_map_filter length_map_filter
      by (rule arg_cong [of _ _ length], rule filter_cong) (use assms in \<open>auto simp: artifact_due_def Let_def split: option.splits\<close>)
  qed
  show ?thesis unfolding overdue_artifacts_def bs_def [symmetric] filter_concat length_concat map_map comp_def same by (rule refl)
qed

lemma overdue_context_rows:
  "length (overdue_contexts st now before) = length (filter (\<lambda>r. du_due_at r < before) (List.map_filter (context_job st now) (observed_workflows st)))"
  unfolding overdue_contexts_def filter_map_filter length_map_filter
  by (rule arg_cong [of _ _ length], rule filter_cong) (auto simp: context_job_def context_due_def split: option.splits if_splits)

lemma overdue_counts_due_rows:
  assumes "before \<le> now"
  shows "length (overdue_artifacts st now before @ overdue_contexts st now before) = length (filter (\<lambda>r. du_due_at r < before) (due_rows st now))"
  by (simp add: due_rows_def overdue_artifact_rows [OF assms] overdue_context_rows)

subsection \<open>What a due row stands for\<close>

lemma observed_workflows_iff:
  "(w, rv, t) \<in> set (observed_workflows st) \<longleftrightarrow> w \<in> set (store_workflows st) \<and>
     get_revision (ds_revisions st) (wf_ticket_id w, wf_current_revision w) = Some rv \<and>
     get_ticket (db_tickets (ds_db st)) (wf_ticket_id w) = Some t \<and> eligible_ticket w t"
  by (auto simp: observed_workflows_def in_map_filter_iff observed_workflow_def bind_eq_Some_conv split: if_splits)

lemma artifact_due_Some:
  assumes "artifact_due st now (w, rv, t) r = Some x"
  shows "du_kind x = ArtifactJob" "du_subject_id x = ab_id (bw_binding r)" "du_ticket_id x = wf_ticket_id w"
    "du_version x = ab_binding_version (bw_binding r)" "bw_due_at r = Some (du_due_at x)" "du_due_at x \<le> now" "bw_active r"
    "ab_ticket_id (bw_binding r) = wf_ticket_id w" "ab_contract_revision (bw_binding r) = wf_current_revision w"
    "ab_attempt (bw_binding r) = wf_attempt w" "du_contract x = rw_contract rv" "du_binding_row x = Some (bw_binding r)" "du_attempt x = wf_attempt w"
  using assms by (auto simp: artifact_due_def Let_def split: if_splits option.splits)

lemma context_job_Some:
  assumes "context_job st now (w, rv, t) = Some x"
  shows "du_kind x = ContextJob" "du_subject_id x = wf_ticket_id w" "du_ticket_id x = wf_ticket_id w"
    "du_version x = wf_context_row_version w" "wf_context_due_at w = Some (du_due_at x)" "du_due_at x \<le> now" "du_attempt x = wf_attempt w"
    "du_context_set_digest x = wf_context_set_digest w" "du_contract x = rw_contract rv" "du_binding_row x = None"
  using assms by (auto simp: context_job_def context_due_def split: if_splits option.splits)

lemma due_rows_cases:
  assumes "x \<in> set (due_rows st now)"
  obtains (binding) w rv t r where "(w, rv, t) \<in> set (observed_workflows st)" "r \<in> set (db_bindings (ds_db st))" "artifact_due st now (w, rv, t) r = Some x"
    | (workflow) w rv t where "(w, rv, t) \<in> set (observed_workflows st)" "context_job st now (w, rv, t) = Some x"
  using assms by (auto simp: due_rows_def in_map_filter_iff)

definition due_identity :: "due_row \<Rightarrow> string" where
  "due_identity x = work_identity (du_kind x) (du_subject_id x)"

lemma work_identity_inject [simp]: "work_identity k i = work_identity k' i' \<longleftrightarrow> k = k' \<and> i = i'"
  by (cases k; cases k') (simp_all add: work_identity_def job_kind_text_def)

lemma distinct_observed_workflows:
  assumes "distinct (map wf_ticket_id (store_workflows st))"
  shows "distinct (map (\<lambda>x. wf_ticket_id (fst x)) (observed_workflows st))"
  unfolding observed_workflows_def by (rule distinct_map_filter_key [OF assms]) auto

lemma due_rows_distinct:
  assumes "store_ok st"
  shows "distinct (map due_identity (due_rows st now))"
proof -
  from assms have ids: "distinct (map (\<lambda>r. ab_id (bw_binding r)) (db_bindings (ds_db st)))"
    and ws: "distinct (map wf_ticket_id (store_workflows st))" by (simp_all add: store_ok_def bindings_ok_def revisions_okD(1))
  note obs = distinct_observed_workflows [OF ws]
  let ?rows = "\<lambda>x. map due_identity (List.map_filter (artifact_due st now x) (db_bindings (ds_db st)))"
  have row: "du_subject_id y = ab_id (bw_binding r) \<and> du_kind y = ArtifactJob \<and> ab_ticket_id (bw_binding r) = wf_ticket_id (fst x)"
    if "artifact_due st now x r = Some y" for x y r
    using that artifact_due_Some [of st now "fst x" "fst (snd x)" "snd (snd x)" r y] by simp
  have "distinct (map due_identity (List.map_filter (artifact_due st now x) (db_bindings (ds_db st))))" for x
    using ids by (intro distinct_map_filter_key [of "\<lambda>r. work_identity ArtifactJob (ab_id (bw_binding r))"])
      (auto simp: due_identity_def distinct_map inj_on_def dest: row)
  moreover have "set (?rows x) \<inter> set (?rows y) = {}"
    if "x \<in> set (observed_workflows st)" "y \<in> set (observed_workflows st)" "x \<noteq> y" for x y
  proof (rule ccontr)
    assume "set (?rows x) \<inter> set (?rows y) \<noteq> {}"
    then obtain r r' a b where *: "r \<in> set (db_bindings (ds_db st))" "artifact_due st now x r = Some a"
      "r' \<in> set (db_bindings (ds_db st))" "artifact_due st now y r' = Some b" "due_identity a = due_identity b"
      by (auto simp: in_map_filter_iff)
    then have "ab_id (bw_binding r) = ab_id (bw_binding r')" using row [OF *(2)] row [OF *(4)] by (simp add: due_identity_def)
    then have "r = r'" using ids *(1,3) by (auto simp: distinct_map dest: inj_onD)
    then have "wf_ticket_id (fst x) = wf_ticket_id (fst y)" using row [OF *(2)] row [OF *(4)] by simp
    with obs that show False by (auto simp: distinct_map dest: inj_onD)
  qed
  moreover have "distinct (observed_workflows st)" using obs by (simp add: distinct_map)
  ultimately have artifacts: "distinct (concat (map ?rows (observed_workflows st)))" by (intro distinct_concat_map) simp_all
  have "du_subject_id y = wf_ticket_id (fst x) \<and> du_kind y = ContextJob" if "context_job st now x = Some y" for x y
    using that context_job_Some [of st now "fst x" "fst (snd x)" "snd (snd x)" y] by simp
  then have "distinct (map due_identity (List.map_filter (context_job st now) (observed_workflows st)))"
    using obs by (intro distinct_map_filter_key [of "\<lambda>x. work_identity ContextJob (wf_ticket_id (fst x))"])
      (auto simp: due_identity_def distinct_map inj_on_def)
  moreover have "du_kind y = ArtifactJob"
    if "y \<in> set (concat (map (\<lambda>x. List.map_filter (artifact_due st now x) (db_bindings (ds_db st))) (observed_workflows st)))" for y
    using that by (auto simp: in_map_filter_iff dest: row)
  moreover have "du_kind z = ContextJob" if "z \<in> set (List.map_filter (context_job st now) (observed_workflows st))" for z
    using that by (auto simp: in_map_filter_iff dest: context_job_Some(1))
  ultimately have apart: "due_identity ` set (concat (map (\<lambda>x. List.map_filter (artifact_due st now x) (db_bindings (ds_db st))) (observed_workflows st))) \<inter>
      due_identity ` set (List.map_filter (context_job st now) (observed_workflows st)) = {}"
    and contexts: "distinct (map due_identity (List.map_filter (context_job st now) (observed_workflows st)))"
    by (force simp: due_identity_def)+
  show ?thesis unfolding due_rows_def map_append distinct_append set_map
    using artifacts apart contexts by (simp only: map_concat map_map comp_def)
qed

subsection \<open>Jobs\<close>

definition job_context :: "observation_job \<Rightarrow> context_expectation" where
  "job_context j = \<lparr>ce_revision = cr_contract_revision (oj_contract j), ce_attempt = oj_attempt j,
     ce_set_digest = oj_context_set_digest j, ce_row_version = oj_version j\<rparr>"

text \<open>A job is current when the generation check of its publication accepts its subject and version.\<close>

definition job_current :: "delivery_store \<Rightarrow> observation_job \<Rightarrow> bool" where
  "job_current st j = (case oj_kind j of
       ArtifactJob \<Rightarrow> is_ok (lock_current_subject st (oj_subject_id j) (oj_version j))
     | ContextJob \<Rightarrow> is_ok (lock_current_context st (oj_ticket_id j) (job_context j)))"

lemma decode_jobs_Inr:
  "decode_jobs listener captured rows = Inr (jobs, reported) \<Longrightarrow>
     jobs = List.map_filter (decode_job captured) rows \<and> reported = map due_identity (filter (\<lambda>r. decode_job captured r = None) rows)"
  by (induction rows arbitrary: jobs reported)
    (auto simp: List.map_filter_simps result_simps due_identity_def split: option.splits if_splits)

lemma decode_job_Some:
  assumes "decode_job captured r = Some j"
  shows "oj_kind j = du_kind r" "oj_subject_id j = du_subject_id r" "oj_ticket_id j = du_ticket_id r" "oj_attempt j = du_attempt r"
    "oj_version j = du_version r" "oj_due_at j = du_due_at r" "oj_contract j = du_contract r" "oj_binding j = du_binding_row r"
    "oj_context_set_digest j = du_context_set_digest r" "valid_contract_revision (du_contract r)" "job_identity j = due_identity r"
  using assms by (auto simp: decode_job_def job_identity_def due_identity_def split: if_splits)

lemma due_Inr:
  assumes "due st now project limit exclude listener = Inr (jobs, reported)"
  shows "jobs = List.map_filter (decode_job now) (due_selection st now project limit exclude)"
    and "reported = map due_identity (filter (\<lambda>r. decode_job now r = None) (due_selection st now project limit exclude))"
  using assms decode_jobs_Inr by (auto simp: due_def result_simps)

lemma due_job_row:
  assumes "due st now project limit exclude listener = Inr (jobs, reported)" and "j \<in> set jobs"
  obtains r where "r \<in> set (due_rows st now)" "decode_job now r = Some j"
  using assms due_Inr(1) [OF assms(1)] by (auto simp: in_map_filter_iff due_selection_def dest!: in_set_takeD)

text \<open>The row that a job of the store stands for.\<close>

lemma due_job_cases:
  assumes "store_ok st" and "r \<in> set (due_rows st now)" and "decode_job now r = Some j"
  obtains (binding) w rv t b where "oj_kind j = ArtifactJob" "get_workflow (store_workflows st) (oj_ticket_id j) = Some w"
      "get_ticket (db_tickets (ds_db st)) (oj_ticket_id j) = Some t" "get_revision (ds_revisions st) (oj_ticket_id j, wf_current_revision w) = Some rv"
      "oj_contract j = rw_contract rv" "cr_contract_revision (oj_contract j) = wf_current_revision w" "valid_contract_revision (rw_contract rv)"
      "eligible_ticket w t" "oj_attempt j = wf_attempt w" "get_binding (db_bindings (ds_db st)) (oj_subject_id j) = Some b" "oj_binding j = Some (bw_binding b)"
      "ab_binding_version (bw_binding b) = oj_version j" "bw_due_at b = Some (oj_due_at j)" "bw_active b" "ab_ticket_id (bw_binding b) = oj_ticket_id j"
      "ab_contract_revision (bw_binding b) = wf_current_revision w" "ab_attempt (bw_binding b) = wf_attempt w"
  | (workflow) w rv t where "oj_kind j = ContextJob" "get_workflow (store_workflows st) (oj_ticket_id j) = Some w"
      "get_ticket (db_tickets (ds_db st)) (oj_ticket_id j) = Some t" "get_revision (ds_revisions st) (oj_ticket_id j, wf_current_revision w) = Some rv"
      "oj_contract j = rw_contract rv" "cr_contract_revision (oj_contract j) = wf_current_revision w" "valid_contract_revision (rw_contract rv)"
      "eligible_ticket w t" "oj_attempt j = wf_attempt w" "oj_subject_id j = oj_ticket_id j" "oj_binding j = None"
      "oj_version j = wf_context_row_version w" "wf_context_due_at w = Some (oj_due_at j)" "oj_context_set_digest j = wf_context_set_digest w"
proof -
  note j = decode_job_Some [OF assms(3)]
  have ws: "distinct (map wf_ticket_id (store_workflows st))" and ids: "distinct (map (\<lambda>r. ab_id (bw_binding r)) (db_bindings (ds_db st)))"
    using assms(1) by (simp_all add: store_ok_def bindings_ok_def revisions_okD(1))
  have revision: "cr_contract_revision (rw_contract rv) = n" if "get_revision (ds_revisions st) (t, n) = Some rv" for t n rv
    using revisions.get_row_Some [OF that] revisions_okD(5) [of st rv] assms(1) by (simp add: store_ok_def revision_key_def)
  from assms(2) show ?thesis
  proof (cases rule: due_rows_cases)
    case (binding w rv t b)
    note x = artifact_due_Some [OF binding(3)]
    from binding(1) have obs: "w \<in> set (store_workflows st)" "get_revision (ds_revisions st) (wf_ticket_id w, wf_current_revision w) = Some rv"
      "get_ticket (db_tickets (ds_db st)) (wf_ticket_id w) = Some t" "eligible_ticket w t" by (simp_all add: observed_workflows_iff)
    show ?thesis
      by (rule that(1) [of w t rv b])
        (use x j obs revision [OF obs(2)] workflows.get_row_eqI [OF ws obs(1)] binding_rows.get_row_eqI [OF ids binding(2)] in simp_all)
  next
    case (workflow w rv t)
    note x = context_job_Some [OF workflow(2)]
    from workflow(1) have obs: "w \<in> set (store_workflows st)" "get_revision (ds_revisions st) (wf_ticket_id w, wf_current_revision w) = Some rv"
      "get_ticket (db_tickets (ds_db st)) (wf_ticket_id w) = Some t" "eligible_ticket w t" by (simp_all add: observed_workflows_iff)
    show ?thesis
      by (rule that(2) [of w t rv]) (use x j obs revision [OF obs(2)] workflows.get_row_eqI [OF ws obs(1)] in simp_all)
  qed
qed

lemma eligible_not_terminal: "eligible_ticket w t \<Longrightarrow> tk_status t \<notin> set EVIDENCE_TERMINAL \<and> wf_disposition w = DActive"
  by (auto simp: eligible_ticket_def EVIDENCE_TERMINAL_def)

lemma lock_decision_scope_ok:
  assumes "get_ticket (db_tickets (ds_db st)) i = Some t" and "get_workflow (store_workflows st) i = Some w"
    and "get_revision (ds_revisions st) (i, wf_current_revision w) = Some rv" and "valid_contract_revision (rw_contract rv)"
  shows "lock_decision_scope st i = Inr t"
  using assms by (simp add: lock_decision_scope_def ensure_def)

lemma due_job_current:
  assumes "store_ok st" and "r \<in> set (due_rows st now)" and "decode_job now r = Some j"
  shows "job_current st j"
  using assms
proof (cases rule: due_job_cases)
  case (binding w rv t b)
  from eligible_not_terminal [OF binding(8)] have e: "tk_status t \<notin> set EVIDENCE_TERMINAL" "wf_disposition w = DActive" by blast+
  have "lock_current_subject st (oj_subject_id j) (oj_version j) = Inr (b, w, t)"
    using lock_decision_scope_ok [OF binding(3,2,4,7)] binding e by (simp add: lock_current_subject_def scope_or_def ensure_def)
  then show ?thesis using binding(1) by (simp add: job_current_def is_ok_def)
next
  case (workflow w rv t)
  from eligible_not_terminal [OF workflow(8)] have e: "tk_status t \<notin> set EVIDENCE_TERMINAL" "wf_disposition w = DActive" by blast+
  have "lock_current_context st (oj_ticket_id j) (job_context j) = Inr (w, t)"
    using lock_decision_scope_ok [OF workflow(3,2,4,7)] workflow e by (simp add: lock_current_context_def scope_or_def ensure_def job_context_def)
  then show ?thesis using workflow(1) by (simp add: job_current_def is_ok_def)
qed

definition job_order :: "observation_job \<Rightarrow> instant \<times> nat \<times> uuid \<times> uuid" where
  "job_order j = (oj_due_at j, case oj_kind j of ContextJob \<Rightarrow> 0 | ArtifactJob \<Rightarrow> 1, oj_ticket_id j, oj_subject_id j)"

lemma map_decoded:
  assumes "\<And>r j. decode_job captured r = Some j \<Longrightarrow> g j = h r"
  shows "map g (List.map_filter (decode_job captured) rows) = map h (filter (\<lambda>r. decode_job captured r \<noteq> None) rows)"
  using assms by (induction rows) (auto simp: List.map_filter_simps split: option.splits)

lemma due_jobs_order:
  assumes "store_ok st" and "due st now project limit exclude listener = Inr (jobs, reported)"
  shows "sorted (map job_order jobs)" "distinct (map job_identity jobs)"
proof -
  let ?rows = "sort_key due_order (filter (\<lambda>r. opt_ok ((=) (du_project_key r)) project \<and>
       work_identity (du_kind r) (du_subject_id r) \<notin> exclude) (due_rows st now))"
  have jobs: "jobs = List.map_filter (decode_job now) (take (nat limit) ?rows)"
    using due_Inr(1) [OF assms(2)] by (simp add: due_selection_def)
  have "job_order j = due_order r" "job_identity j = due_identity r" if "decode_job now r = Some j" for r j
    using decode_job_Some [OF that] by (simp_all add: job_order_def due_order_def)
  then have maps: "map job_order jobs = map due_order (filter (\<lambda>r. decode_job now r \<noteq> None) (take (nat limit) ?rows))"
    "map job_identity jobs = map due_identity (filter (\<lambda>r. decode_job now r \<noteq> None) (take (nat limit) ?rows))"
    unfolding jobs by (simp_all only: map_decoded)
  have "sorted (map due_order (take (nat limit) ?rows))" by (simp add: take_map [symmetric] sorted_wrt_take)
  then show "sorted (map job_order jobs)" unfolding maps by (rule sorted_filter)
  have "distinct (map due_identity ?rows)" using due_rows_distinct [OF assms(1), of now] by (auto simp: distinct_map inj_on_def)
  then have "distinct (map due_identity (take (nat limit) ?rows))" by (simp add: take_map [symmetric])
  then show "distinct (map job_identity jobs)" unfolding maps by (rule distinct_map_filter)
qed

lemma due_complete:
  assumes "due st now project limit exclude listener = Inr (jobs, reported)" and "length jobs + length reported < nat limit"
    and "r \<in> set (due_rows st now)" and "opt_ok ((=) (du_project_key r)) project"
  shows "due_identity r \<in> set (map job_identity jobs) \<union> set reported \<union> exclude"
proof (cases "due_identity r \<in> exclude")
  case False
  let ?rows = "due_selection st now project limit exclude"
  have "length ?rows = length jobs + length reported"
    using sum_length_filter_compl [of "\<lambda>r. decode_job now r \<noteq> None" ?rows] by (simp add: due_Inr [OF assms(1)] length_map_filter)
  then have "length ?rows < nat limit" using assms(2) by simp
  then have "r \<in> set ?rows" using assms(3,4) False by (simp add: due_selection_def due_identity_def)
  then show ?thesis
    by (cases "decode_job now r") (force simp: due_Inr [OF assms(1)] in_map_filter_iff dest: decode_job_Some(11))+
qed simp

subsection \<open>Rescheduling\<close>

lemma schedule_after_binding:
  assumes "schedule_after st j delay expected now = Inr (st', moved)" and "oj_binding j \<noteq> None"
    and "distinct (map (\<lambda>r. ab_id (bw_binding r)) (db_bindings (ds_db st)))" and "get_binding (db_bindings (ds_db st)) (oj_subject_id j) = Some b"
  shows "moved \<longleftrightarrow> captured_binding j expected b \<and> generation_open st j"
    and "moved \<Longrightarrow> r \<in> set (db_bindings (ds_db st')) \<Longrightarrow> ab_id (bw_binding r) = oj_subject_id j \<Longrightarrow> bw_due_at r = Some (now + delay)"
proof -
  let ?hit = "\<lambda>r. captured_binding j expected r \<and> generation_open st j"
  from assms(1,2) have st': "db_bindings (ds_db st') = update_rows ?hit (\<lambda>r. r\<lparr>bw_due_at := Some (now + delay)\<rparr>) (db_bindings (ds_db st))"
    and m: "moved = list_ex ?hit (db_bindings (ds_db st))" by (auto simp: schedule_after_def result_simps Let_def)
  have only: "x = b" if "x \<in> set (db_bindings (ds_db st))" "ab_id (bw_binding x) = oj_subject_id j" for x
    using binding_rows.get_row_eqI [OF assms(3) that(1)] that(2) assms(4) by simp
  have b: "b \<in> set (db_bindings (ds_db st))" using binding_rows.get_row_Some [OF assms(4)] by simp
  show moved: "moved \<longleftrightarrow> captured_binding j expected b \<and> generation_open st j"
    unfolding m using only b by (auto simp: list_ex_iff captured_binding_def)
  show "bw_due_at r = Some (now + delay)" if "moved" "r \<in> set (db_bindings (ds_db st'))" "ab_id (bw_binding r) = oj_subject_id j"
  proof -
    from that(2) obtain x where x: "x \<in> set (db_bindings (ds_db st))" "r = (if ?hit x then x\<lparr>bw_due_at := Some (now + delay)\<rparr> else x)"
      by (auto simp: st' update_rows_def)
    with that(3) have "ab_id (bw_binding x) = oj_subject_id j" by (simp split: if_splits)
    with x(1) have "x = b" by (rule only)
    with x(2) moved that(1) show ?thesis by simp
  qed
qed

lemma schedule_after_context:
  assumes "schedule_after st j delay expected now = Inr (st', moved)" and "oj_binding j = None"
    and "distinct (map wf_ticket_id (store_workflows st))" and "get_workflow (store_workflows st) (oj_ticket_id j) = Some w"
  shows "moved \<longleftrightarrow> captured_context j expected w"
    and "moved \<Longrightarrow> x \<in> set (store_workflows st') \<Longrightarrow> wf_ticket_id x = oj_ticket_id j \<Longrightarrow> wf_context_due_at x = Some (now + delay)"
proof -
  let ?hit = "captured_context j expected"
  from assms(1,2) have st': "store_workflows st' = update_rows ?hit (\<lambda>r. r\<lparr>wf_context_due_at := Some (now + delay)\<rparr>) (store_workflows st)"
    and m: "moved = list_ex ?hit (store_workflows st)" by (auto simp: schedule_after_def result_simps Let_def store_workflows_def)
  have only: "y = w" if "y \<in> set (store_workflows st)" "wf_ticket_id y = oj_ticket_id j" for y
    using workflows.get_row_eqI [OF assms(3) that(1)] that(2) assms(4) by simp
  have w: "w \<in> set (store_workflows st)" using workflows.get_row_Some [OF assms(4)] by simp
  show moved: "moved \<longleftrightarrow> captured_context j expected w" unfolding m using only w by (auto simp: list_ex_iff captured_context_def)
  show "wf_context_due_at x = Some (now + delay)" if "moved" "x \<in> set (store_workflows st')" "wf_ticket_id x = oj_ticket_id j"
  proof -
    from that(2) obtain y where y: "y \<in> set (store_workflows st)" "x = (if ?hit y then y\<lparr>wf_context_due_at := Some (now + delay)\<rparr> else y)"
      by (auto simp: st' update_rows_def)
    with that(3) have "wf_ticket_id y = oj_ticket_id j" by (simp split: if_splits)
    with y(1) have "y = w" by (rule only)
    with y(2) moved that(1) show ?thesis by simp
  qed
qed

text \<open>A rescheduled subject is not due before its new time.\<close>

lemma not_due_before:
  assumes "x \<in> set (due_rows st now')" and "due_identity x = work_identity k i"
    and "k = ArtifactJob \<Longrightarrow> \<forall>r \<in> set (db_bindings (ds_db st)). ab_id (bw_binding r) = i \<longrightarrow> bw_due_at r = Some d"
    and "k = ContextJob \<Longrightarrow> \<forall>w \<in> set (store_workflows st). wf_ticket_id w = i \<longrightarrow> wf_context_due_at w = Some d"
  shows "d \<le> now'"
  using assms(1)
proof (cases rule: due_rows_cases)
  case (binding w rv t r)
  note x = artifact_due_Some [OF binding(3)]
  have "bw_due_at r = Some d" using x assms(2,3) binding(2) by (simp add: due_identity_def)
  with x(5,6) show ?thesis by simp
next
  case (workflow w rv t)
  note x = context_job_Some [OF workflow(2)]
  have "w \<in> set (store_workflows st)" using workflow(1) by (simp add: observed_workflows_iff)
  then have "wf_context_due_at w = Some d" using x assms(2,4) by (simp add: due_identity_def)
  with x(5,6) show ?thesis by simp
qed

end
