(* ===== verification/Delivery_System.thy ===== *)
theory Delivery_System
  imports Delivery_Issuing Delivery_Queue
begin

text \<open>
  The delivery store as one system: contracts, claims and tickets (\<open>store_step\<close>), publications, receipts,
  acceptances, attestations, measured releases and focus slots. Its invariant is \<open>system_ok\<close>: every write
  of a receipt or of a measured release runs the hook that closes the slots it satisfies, and every other
  write can only take receipts from an anchor.
\<close>

section \<open>Publications\<close>

lemma observed_row_same:
  "live_key (observed_row confirmation finished evidence version b) = live_key b"
  "bw_active (observed_row confirmation finished evidence version b) = bw_active b"
  "ab_id (bw_binding (observed_row confirmation finished evidence version b)) = ab_id (bw_binding b)"
  "slot (bw_binding (observed_row confirmation finished evidence version b)) = slot (bw_binding b)"
  by (simp_all add: observed_row_def live_key_def slot_def Let_def split: option.split)

text \<open>Evidence written beside a store that is otherwise the same.\<close>

definition evidence_beside :: "delivery_store \<Rightarrow> delivery_store \<Rightarrow> bool" where
  "evidence_beside st st' = (st' = st\<lparr>ds_snapshots := ds_snapshots st', ds_confirmations := ds_confirmations st'\<rparr>)"

lemma put_evidence_beside:
  "put_snapshot st subject digest evidence fresh_id = Inr (st', sid) \<Longrightarrow> evidence_beside st st'"
  "put_confirmation st c = Inr st' \<Longrightarrow> evidence_beside st st'"
  by (auto simp: put_snapshot_def put_confirmation_def evidence_beside_def result_simps split: option.splits)

lemma system_ok_evidence:
  assumes "system_ok st" and "evidence_beside st st'"
  shows "system_ok st'"
proof -
  obtain sn cf where st': "st' = st\<lparr>ds_snapshots := sn, ds_confirmations := cf\<rparr>" using assms(2) unfolding evidence_beside_def by blast
  have "store_ok st'" using system_okD(1) [OF assms(1)] store_ok_cong [of st' st] st' by simp
  moreover have "delivery_move st st'" unfolding st' by (rule delivery_moveI) (simp_all add: store_workflows_def binding_ids_def binding_tickets_def owners_def)
  ultimately show ?thesis by (intro system_ok_move [OF assms(1)])
qed

lemma system_ok_advance_subject:
  assumes ok: "system_ok st"
  shows "system_ok (advance_subject st row w confirmation finished evidence pg_now)" (is "system_ok ?st")
proof (rule system_ok_move [OF ok])
  let ?f = "observed_row confirmation finished evidence (ab_binding_version (bw_binding row))"
  let ?g = "\<lambda>x. x\<lparr>wf_row_version := wf_row_version w + 1, wf_updated_at := pg_now\<rparr>"
  note rows = binding_rows_update [of ?f "\<lambda>r. ab_id (bw_binding r) = ab_id (bw_binding row) \<and> ab_binding_version (bw_binding r) = ab_binding_version (bw_binding row)" "db_bindings (ds_db st)"]
  show "delivery_move st ?st"
  proof (rule delivery_moveI)
    show "gen_mono (generations (store_workflows st)) (generations (store_workflows ?st))"
      using gen_mono_update [of ?g] by (simp add: advance_subject_def store_workflows_def Let_def)
    show "live_bindings (db_bindings (ds_db ?st)) \<subseteq> live_bindings (db_bindings (ds_db st))" "binding_ids ?st = binding_ids st"
      "binding_tickets ?st = binding_tickets st"
      using rows by (simp_all add: advance_subject_def observed_row_same binding_ids_def binding_tickets_def Let_def)
  qed (simp_all add: advance_subject_def owners_def Let_def)
  have "bindings_ok (db_bindings (ds_db st))" using system_okD(1) [OF ok] by (simp add: store_ok_def)
  then have "bindings_ok (db_bindings (ds_db ?st))"
    unfolding advance_subject_def Let_def by (simp, intro bindings_ok_update) (simp_all add: observed_row_same)
  moreover have "map generation (db_workflows (ds_db ?st)) = map generation (store_workflows st)"
    by (simp add: advance_subject_def Let_def map_update_rows generation_def store_workflows_def)
  ultimately have "store_ok (st\<lparr>ds_db := ds_db ?st\<rparr>)" by (intro store_ok_frame [OF system_okD(1) [OF ok]])
  then show "store_ok ?st" by (simp add: advance_subject_def Let_def)
qed

lemma context_row_same:
  "generation (context_row confirmation finished success code pg_now w) = generation w"
  "wf_ticket_id (context_row confirmation finished success code pg_now w) = wf_ticket_id w"
  "wf_current_revision (context_row confirmation finished success code pg_now w) = wf_current_revision w"
  "wf_attempt (context_row confirmation finished success code pg_now w) = wf_attempt w"
  by (simp_all add: context_row_def generation_def Let_def)

lemma system_ok_advance_context:
  assumes ok: "system_ok st"
  shows "system_ok (advance_context st w confirmation finished success code pg_now)" (is "system_ok ?st")
proof (rule system_ok_move [OF ok])
  show "delivery_move st ?st"
  proof (rule delivery_moveI)
    show "gen_mono (generations (store_workflows st)) (generations (store_workflows ?st))"
      using gen_mono_update [of "context_row confirmation finished success code pg_now"] by (simp add: advance_context_def store_workflows_def context_row_same)
  qed (simp_all add: advance_context_def owners_def binding_ids_def binding_tickets_def)
  have "store_ok (st\<lparr>ds_db := ds_db ?st\<rparr>)"
    by (rule store_ok_frame [OF system_okD(1) [OF ok]])
      (use system_okD(1) [OF ok] in \<open>simp_all add: advance_context_def map_update_rows context_row_same store_workflows_def store_ok_def\<close>)
  then show "store_ok ?st" by (simp add: advance_context_def)
qed

lemma publish_observation_Inr:
  assumes "publish_observation tz render settings st i expected ev started finished ids now pg_now = Inr (st', c)"
  obtains row w t digest st1 sid st2 out where "lock_current_subject st i expected = Inr (row, w, t)" "validate_subject st (bw_binding row) ev = Inr ()"
    "valid_pull_request_evidence ev" "pe_complete ev" "interval_ok started finished"
    "canonical_digest (semantic_payload render ev) Result = Inr digest"
    "put_snapshot st (ArtifactSubject i) digest (PullRequestSnapshot ev) (id_snapshot ids) = Inr (st1, sid)"
    "put_confirmation st1 \<lparr>cf_id = id_confirmation ids, cf_subject = ArtifactSubject i, cf_snapshot_id = Some sid,
       cf_collection_started_at = moment started, cf_collection_finished_at = moment finished, cf_outcome = OutSuccess, cf_error_code = None\<rparr> = Inr st2"
    "issue_under_scope tz settings (advance_subject st2 row w (id_confirmation ids) (moment finished) (Some ev) pg_now) (tk_id t) (id_receipts ids) now pg_now = Inr (st', out)"
  using assms unfolding publish_observation_def validated_artifact_success_def Let_def
  by (auto simp: result_simps lift_evidence_def lift_store_def split: sum.splits)

lemma record_observation_error_Inr:
  assumes "record_observation_error st i expected code started finished fresh_id pg_now = Inr (st', c)"
  obtains row w t st1 where "lock_current_subject st i expected = Inr (row, w, t)" "interval_ok started finished" "code \<in> set SAFE_OBSERVATION_ERROR_CODES"
    "put_confirmation st \<lparr>cf_id = fresh_id, cf_subject = ArtifactSubject i, cf_snapshot_id = None,
       cf_collection_started_at = moment started, cf_collection_finished_at = moment finished, cf_outcome = OutError, cf_error_code = Some code\<rparr> = Inr st1"
    "st' = advance_subject st1 row w fresh_id (moment finished) None pg_now"
  using assms unfolding record_observation_error_def validated_artifact_error_def Let_def by (auto simp: result_simps)

lemma publish_repository_context_Inr:
  assumes "publish_repository_context tz settings st i expected e started finished ids now pg_now = Inr (st', c)"
  obtains w t digest st1 sid st2 out where "lock_current_context st i expected = Inr (w, t)" "validate_context_subject st w e = Inr ()"
    "valid_repository_context_evidence e" "interval_ok started finished"
    "canonical_digest (context_payload (sorted_evidence e)) Result = Inr digest"
    "put_snapshot st (context_subject i expected) digest (ContextSnapshot (sorted_evidence e)) (id_snapshot ids) = Inr (st1, sid)"
    "put_confirmation st1 \<lparr>cf_id = id_confirmation ids, cf_subject = context_subject i expected, cf_snapshot_id = Some sid,
       cf_collection_started_at = moment started, cf_collection_finished_at = moment finished, cf_outcome = OutSuccess, cf_error_code = None\<rparr> = Inr st2"
    "issue_under_scope tz settings (advance_context st2 w (id_confirmation ids) (moment finished) True None pg_now) (tk_id t) (id_receipts ids) now pg_now = Inr (st', out)"
  using assms unfolding publish_repository_context_def validated_context_success_def Let_def
  by (auto simp: result_simps lift_evidence_def lift_store_def split: sum.splits)

lemma record_repository_context_error_Inr:
  assumes "record_repository_context_error st i expected code started finished fresh_id pg_now = Inr (st', c)"
  obtains w t st1 where "lock_current_context st i expected = Inr (w, t)" "interval_ok started finished"
    "put_confirmation st \<lparr>cf_id = fresh_id, cf_subject = context_subject i expected, cf_snapshot_id = None,
       cf_collection_started_at = moment started, cf_collection_finished_at = moment finished, cf_outcome = OutError, cf_error_code = Some code\<rparr> = Inr st1"
    "st' = advance_context st1 w fresh_id (moment finished) False (Some code) pg_now"
  using assms unfolding record_repository_context_error_def validated_context_error_def Let_def by (auto simp: result_simps)

lemma system_ok_publish_observation:
  assumes "system_ok st" and "publish_observation tz render settings st i expected ev started finished ids now pg_now = Inr (st', c)"
  shows "system_ok st'"
  using assms(2)
  by (cases rule: publish_observation_Inr)
    (metis assms(1) put_evidence_beside system_ok_advance_subject system_ok_evidence system_ok_issue)

lemma system_ok_observation_error:
  assumes "system_ok st" and "record_observation_error st i expected code started finished fresh_id pg_now = Inr (st', c)"
  shows "system_ok st'"
  using assms(2) by (cases rule: record_observation_error_Inr) (metis assms(1) put_evidence_beside(2) system_ok_advance_subject system_ok_evidence)

lemma system_ok_publish_context:
  assumes "system_ok st" and "publish_repository_context tz settings st i expected e started finished ids now pg_now = Inr (st', c)"
  shows "system_ok st'"
  using assms(2)
  by (cases rule: publish_repository_context_Inr)
    (metis assms(1) put_evidence_beside system_ok_advance_context system_ok_evidence system_ok_issue)

lemma system_ok_context_error:
  assumes "system_ok st" and "record_repository_context_error st i expected code started finished fresh_id pg_now = Inr (st', c)"
  shows "system_ok st'"
  using assms(2) by (cases rule: record_repository_context_error_Inr) (metis assms(1) put_evidence_beside(2) system_ok_advance_context system_ok_evidence)

section \<open>Attestations\<close>

lemma attest_Inr:
  assumes "attest fromisoformat st t call fresh_id pg_now = Inr (st', a)"
  obtains (replayed) "st' = st" "a \<in> set (ds_attestations st)" "attestation_key a = (t, al_actor_project call, al_key call)"
      "at_kind a = al_kind call" "at_issuer_identity a = al_caller_identity call" "at_contract_revision a = al_revision call"
      "canonical_digest (al_payload call) Attestation = Inr (at_digest a)"
  | (recorded) k where "get_ticket (db_tickets (ds_db st)) t = Some k" "al_actor_project call \<in> {tk_from_project k, tk_to_project k}"
      "st' = st\<lparr>ds_attestations := ds_attestations st @ [a]\<rparr>" "at_ticket_id a = t" "at_kind a = al_kind call" "at_payload a = al_payload call"
      "at_issuer_identity a = al_caller_identity call" "at_issuer_project a = al_actor_project call" "valid_attestation a" "at_id a \<notin> at_id ` set (ds_attestations st)"
      "attestation_key a = (t, al_actor_project call, al_key call)" "attestation_key a \<notin> attestation_key ` set (ds_attestations st)"
      "at_contract_revision a = al_revision call" "canonical_digest (al_payload call) Attestation = Inr (at_digest a)"
proof -
  from assms obtain emitted k digest where pre: "validate_attestation_form fromisoformat (al_kind call) (al_payload call) (al_emitted_at call) (al_revision call) = Inr emitted"
      "get_ticket (db_tickets (ds_db st)) t = Some k" "al_actor_project call \<in> {tk_from_project k, tk_to_project k}"
      "canonical_digest (al_payload call) Attestation = Inr digest"
    unfolding attest_def by (auto simp: result_simps split: option.splits sum.splits)
  let ?hit = "find_row (\<lambda>a. attestation_key a = (t, al_actor_project call, al_key call)) (ds_attestations st)"
  note body = assms [unfolded attest_def pre option.case sum.case Let_def]
  show ?thesis
  proof (cases ?hit)
    case (Some x)
    with body find_row_Some [OF Some] pre(1,4) show ?thesis
      by (intro replayed) (auto simp: pre(1) result_simps split: if_splits)
  next
    case None
    then have "attestation_key x \<noteq> (t, al_actor_project call, al_key call)" if "x \<in> set (ds_attestations st)" for x
      using that by (simp add: find_row_None)
    then have new: "(t, al_actor_project call, al_key call) \<notin> attestation_key ` set (ds_attestations st)" by force
    from body None pre(1) show ?thesis
      by (intro recorded [OF pre(2,3)]) (use new pre(4) in \<open>auto simp: pre(1) result_simps attestation_key_def\<close>)
  qed
qed

lemma received_anchor_attest:
  assumes "received_anchor (st\<lparr>ds_attestations := ds_attestations st @ [a]\<rparr>) (sl_project_key s) k \<noteq> None"
    and "at_kind a = ''released'' \<Longrightarrow> at_issuer_identity a = OBSERVER_IDENTITY \<Longrightarrow> \<not> touched st [at_ticket_id a] s k"
  shows "received_anchor st (sl_project_key s) k \<noteq> None"
proof (rule received_anchor_mono [OF _ _ _ assms(1)])
  let ?st = "st\<lparr>ds_attestations := ds_attestations st @ [a]\<rparr>"
  show "ticket_receipt st t \<noteq> None" if "ticket_receipt ?st t \<noteq> None" for t
    using that unfolding ticket_receipt_iff by (simp add: integrates_def current_generation_def store_workflows_def)
  show "pr_receipt st (sl_project_key s) r n \<noteq> None" if "pr_receipt ?st (sl_project_key s) r n \<noteq> None" for r n
    using that unfolding pr_receipt_iff by (simp add: observed_binding_of_def integrates_def current_generation_def targets_def store_workflows_def)
  show "lot_release st (sl_project_key s) v \<noteq> None"
    if v: "lot_release ?st (sl_project_key s) v \<noteq> None" "sa_kind k = AnchorLot" "sa_target_release k = Some v" for v
  proof -
    from v(1) obtain x where x: "x \<in> set (ds_attestations st) \<union> {a}" "measures_release ?st (sl_project_key s) v x"
      unfolding lot_release_iff by auto
    then have m: "measures_release st (sl_project_key s) v x" by (simp add: measures_release_def targets_def)
    have "x \<noteq> a"
    proof
      assume "x = a"
      with m have "at_kind a = ''released''" "at_issuer_identity a = OBSERVER_IDENTITY" "targets st (at_ticket_id a) (sl_project_key s)"
        by (simp_all add: measures_release_def)
      with assms(2) v(2) show False by (simp add: touched_def targets_def)
    qed
    with x(1) m show ?thesis unfolding lot_release_iff by blast
  qed
qed

lemma attest_parts:
  assumes ok: "system_ok st" and "at_ticket_id a \<in> fst ` owners st"
  defines "st1 \<equiv> st\<lparr>ds_attestations := ds_attestations st @ [a]\<rparr>"
  shows "store_ok st1" "receipts_ok st1" "slots_ok st1"
    "s \<in> set (ds_slots st1) \<Longrightarrow> sl_closed_at s = None \<Longrightarrow>
      (at_kind a = ''released'' \<Longrightarrow> at_issuer_identity a = OBSERVER_IDENTITY \<Longrightarrow> \<not> list_ex (touched st1 [at_ticket_id a] s) (load_anchors st1 (sl_id s))) \<Longrightarrow>
      \<not> slot_satisfied (anchor_states st1 s)"
proof -
  note parts = system_okD [OF ok]
  show "store_ok st1" using parts(1) store_ok_cong [of st1 st] by (simp add: st1_def)
  show "slots_ok st1" using parts(3) slots_ok_cong [of st1 st] by (simp add: st1_def)
  have fields: "store_workflows st1 = store_workflows st" "binding_ids st1 = binding_ids st" "binding_tickets st1 = binding_tickets st" "owners st1 = owners st"
      "ds_receipts st1 = ds_receipts st" "set (ds_attestations st1) = insert a (set (ds_attestations st))"
    by (simp_all add: st1_def store_workflows_def binding_ids_def binding_tickets_def owners_def)
  show "receipts_ok st1" using parts(2) assms(2) unfolding receipts_ok_def fields by blast
  have anchors: "load_anchors st1 i = load_anchors st i" for i by (simp add: st1_def load_anchors_def)
  have touched: "touched st1 ids = touched st ids" for ids by (intro ext) (simp add: st1_def touched_def split: anchor_kind.split)
  assume s: "s \<in> set (ds_slots st1)" "sl_closed_at s = None"
    "at_kind a = ''released'' \<Longrightarrow> at_issuer_identity a = OBSERVER_IDENTITY \<Longrightarrow> \<not> list_ex (touched st1 [at_ticket_id a] s) (load_anchors st1 (sl_id s))"
  show "\<not> slot_satisfied (anchor_states st1 s)"
  proof
    assume "slot_satisfied (anchor_states st1 s)"
    then have "slot_satisfied (anchor_states st s)"
    proof (rule slot_satisfied_mono [OF _ anchors])
      fix k assume k: "k \<in> set (load_anchors st (sl_id s))" "received_anchor st1 (sl_project_key s) k \<noteq> None"
      show "received_anchor st (sl_project_key s) k \<noteq> None"
        by (rule received_anchor_attest [OF k(2) [unfolded st1_def]]) (use s(3) k(1) in \<open>simp add: anchors touched list_ex_iff\<close>)
    qed
    with parts(4) s(1,2) show False by (simp add: slots_clear_def st1_def)
  qed
qed

lemma ticket_owned: "get_ticket (db_tickets (ds_db st)) t = Some k \<Longrightarrow> t \<in> fst ` owners st"
  using tickets.get_row_Some [of "db_tickets (ds_db st)" t k] by (force simp: owners_def)

lemma system_ok_attest:
  assumes ok: "system_ok st" and "attest fromisoformat st t call fresh_id pg_now = Inr (st', a)"
    and "al_caller_identity call \<noteq> OBSERVER_IDENTITY \<or> al_kind call \<noteq> ''released''"
  shows "system_ok st'"
  using assms(2)
proof (cases rule: attest_Inr)
  case (recorded k)
  have "at_ticket_id a \<in> fst ` owners st" using ticket_owned [OF recorded(1)] recorded(4) by simp
  note parts = attest_parts [OF ok this]
  have "slots_clear st'" unfolding slots_clear_def recorded(3)
    using parts(4) assms(3) recorded(5,7) by (intro ballI impI) auto
  with parts(1-3) show ?thesis unfolding recorded(3) system_ok_def by blast
qed (use ok in simp)

lemma record_released_Inr:
  assumes "record_released fromisoformat st c tag_name tag_sha tag_date fresh_id pg_now = Inr st'"
  obtains (outdated) "st' = st"
  | (measured) st1 a closed where "attest fromisoformat st (rc_ticket_id c) (release_call c tag_name tag_sha tag_date) fresh_id pg_now = Inr (st1, a)"
      "close_slots_satisfied_by st1 [rc_ticket_id c] (at_id a) pg_now = Inr (st', closed)"
proof (cases "candidate_is_current st c")
  case True
  with assms obtain st1 a where st1: "attest fromisoformat st (rc_ticket_id c) (release_call c tag_name tag_sha tag_date) fresh_id pg_now = Inr (st1, a)"
      "(case close_slots_satisfied_by st1 [rc_ticket_id c] (at_id a) pg_now of Inl e \<Rightarrow> Inl (AttestSlot e) | Inr (st2, _) \<Rightarrow> Inr st2) = Inr st'"
    by (auto simp: record_released_def result_simps)
  then obtain closed where "close_slots_satisfied_by st1 [rc_ticket_id c] (at_id a) pg_now = Inr (st', closed)"
    by (cases "close_slots_satisfied_by st1 [rc_ticket_id c] (at_id a) pg_now") auto
  with st1(1) show ?thesis by (rule measured)
next
  case False
  with assms outdated show ?thesis by (simp add: record_released_def)
qed

lemma system_ok_record_released:
  assumes ok: "system_ok st" and rec: "record_released fromisoformat st c tag_name tag_sha tag_date fresh_id pg_now = Inr st'"
  shows "system_ok st'"
  using rec
proof (cases rule: record_released_Inr)
  case (measured st1 a closed)
  note parts = system_okD [OF ok]
  from measured(1) show ?thesis
  proof (cases rule: attest_Inr)
    case replayed
    show ?thesis by (rule system_ok_hook(1) [OF parts(1-3) measured(2) [unfolded replayed(1)]]) (use parts(4) in \<open>simp_all add: slots_clear_def\<close>)
  next
    case (recorded k)
    have t: "at_ticket_id a \<in> fst ` owners st" "[rc_ticket_id c] = [at_ticket_id a]" using ticket_owned [OF recorded(1)] recorded(4) by simp_all
    note new = attest_parts [OF ok t(1), folded recorded(3)]
    show ?thesis by (rule system_ok_hook(1) [OF new(1-3) measured(2)]) (use new(4) t(2) in simp_all)
  qed
qed (use ok in simp)

lemma system_ok_record_deployed:
  assumes "system_ok st" and "record_deployed fromisoformat st c release_sha package_version now fresh_id pg_now = Inr st'"
  shows "system_ok st'"
  using assms(2) system_ok_attest [OF assms(1)] assms(1)
  by (auto simp: record_deployed_def deployed_call_def result_simps split: if_splits)

lemma brain_delivery_attest_Inr:
  assumes "brain_delivery_attest fromisoformat enabled request st t call issuer fresh_id pg_now = Inr (st', a)"
  obtains caller where "caller \<noteq> OBSERVER_IDENTITY" "attest fromisoformat st t (call\<lparr>al_caller_identity := caller\<rparr>) fresh_id pg_now = Inr (st', a)"
proof -
  define caller where "caller = (case issuer of None \<Rightarrow> ri_actor request | Some i \<Rightarrow> i)"
  have "caller \<noteq> OBSERVER_IDENTITY" "attest fromisoformat st t (call\<lparr>al_caller_identity := caller\<rparr>) fresh_id pg_now = Inr (st', a)"
    using assms by (auto simp: brain_delivery_attest_def checked_issuer_def caller_def [symmetric] Let_def result_simps)
  then show ?thesis by (rule that)
qed

lemma system_ok_declared:
  assumes "system_ok st" and "brain_delivery_attest fromisoformat enabled request st t call issuer fresh_id pg_now = Inr (st', a)"
  shows "system_ok st'"
  using assms(2)
proof (cases rule: brain_delivery_attest_Inr)
  case (1 caller)
  show ?thesis by (rule system_ok_attest [OF assms(1) 1(2)]) (use 1(1) in simp)
qed

section \<open>Slots\<close>

lemma slot_write_same: "slot_write st st' \<Longrightarrow> same_delivery st st'"
proof (induction rule: slot_write.induct)
  case (opened st project title body anchors author fresh_id anchor_ids pg_now st' s)
  show ?case unfolding open_slot_fresh(6) [OF opened] by (simp add: record_slot_history_def same_delivery_def)
next
  case (rewritten st i expected body pg_now st1 s h)
  then have "same_delivery st st1" by (auto simp: cas_slot_body_def Let_def same_delivery_def)
  then show ?case by (rule same_delivery_trans) simp
next
  case (closed st i reason comment pg_now st' s)
  then show ?case by (rule close_slot_Inr(1))
qed

lemma unreceived_not_satisfied:
  assumes "\<And>a. a \<in> set (load_anchors st (sl_id s)) \<Longrightarrow> received_anchor st (sl_project_key s) a = None"
  shows "\<not> slot_satisfied (anchor_states st s)"
proof
  assume "slot_satisfied (anchor_states st s)"
  moreover have "set (decisive xs) \<subseteq> set xs" for xs by (auto simp: decisive_def Let_def)
  ultimately obtain x where "x \<in> set (anchor_states st s)" "as_completing_row_id x \<noteq> None"
    unfolding slot_satisfied_def list_all_iff by (metis list.set_intros(1) neq_Nil_conv subsetD)
  with assms show False by (auto simp: anchor_states_def)
qed

lemma slots_clear_write:
  assumes "slots_clear st" and "slot_write st st'" and "slots_ok st"
  shows "slots_clear st'"
proof -
  note same = slot_write_same [OF assms(2), unfolded same_delivery_def]
  have cong: "received_anchor st' p a = received_anchor st p a" for p a
    using received_anchor_cong [of st' st] same by simp
  have states: "anchor_states st' x = anchor_states st y"
    if "load_anchors st' (sl_id y) = load_anchors st (sl_id y)" "sl_id x = sl_id y" "sl_project_key x = sl_project_key y" for x y
    using that by (simp add: anchor_states_def cong)
  show ?thesis unfolding slots_clear_def
  proof (intro ballI impI)
    fix x assume x: "x \<in> set (ds_slots st')" "sl_closed_at x = None"
    show "\<not> slot_satisfied (anchor_states st' x)"
      using assms(2)
    proof cases
      case (opened project title body anchors author fresh_id anchor_ids pg_now s)
      note o = open_slot_fresh [OF opened]
      have tables: "ds_slots st' = ds_slots st @ [s]" "ds_anchors st' = ds_anchors st @
          map (\<lambda>(k, a). \<lparr>an_id = k, an_slot_id = fresh_id, an_anchor = a, an_created_at = pg_now\<rparr>) (zip anchor_ids anchors)"
        unfolding o(6) by simp_all
      show ?thesis
      proof (cases "x = s")
        case True
        have s: "sl_id s = fresh_id" "sl_project_key s = project" by (simp_all add: o(5))
        show ?thesis unfolding True
        proof (rule unreceived_not_satisfied)
          fix a assume "a \<in> set (load_anchors st' (sl_id s))"
          then obtain r where r: "r \<in> set (ds_anchors st')" "an_slot_id r = fresh_id" "a = an_anchor r" by (auto simp: load_anchors_def s(1))
          with slots_okD(6) [OF assms(3), of r] o(1) have "r \<notin> set (ds_anchors st)" by auto
          with r(1) have "an_anchor r \<in> set anchors" unfolding tables(2) by (auto dest: set_zip_rightD)
          with o(3) show "received_anchor st' (sl_project_key s) a = None" by (simp add: cong r(3) s(2))
        qed
      next
        case False
        with x(1) tables(1) have x': "x \<in> set (ds_slots st)" by simp
        with o(1) have "sl_id x \<noteq> fresh_id" by blast
        then have "load_anchors st' (sl_id x) = load_anchors st (sl_id x)" unfolding load_anchors_def tables(2)
          by (simp add: filter_map comp_def case_prod_beta)
        with states [of x x] x' x(2) assms(1) show ?thesis by (simp add: slots_clear_def)
      qed
    next
      case (rewritten i expected body pg_now st1 s h)
      then have st1: "st1 = st\<lparr>ds_slots := update_rows (\<lambda>s. sl_id s = i \<and> sl_revision s = expected \<and> sl_closed_at s = None) (rewritten_slot body pg_now) (ds_slots st)\<rparr>"
        by (simp add: cas_slot_body_def Let_def)
      from x(1) obtain y where y: "y \<in> set (ds_slots st)" "sl_id x = sl_id y" "sl_project_key x = sl_project_key y" "sl_closed_at x = sl_closed_at y"
        unfolding rewritten(1) st1 by (auto simp: update_rows_def rewritten_slot_def)
      have "load_anchors st' (sl_id y) = load_anchors st (sl_id y)" unfolding rewritten(1) st1 by (simp add: load_anchors_def)
      from states [OF this y(2,3)] y(1,4) x(2) assms(1) show ?thesis by (simp add: slots_clear_def)
    next
      case (closed i reason comment pg_now s)
      have "load_anchors st' (sl_id x) = load_anchors st (sl_id x)" using close_slot_Inr(2) [OF closed] by (simp add: load_anchors_def)
      from states [OF this] close_slot_open_rows(1) [OF closed x] x(2) assms(1) show ?thesis by (simp add: slots_clear_def)
    qed
  qed
qed

lemma system_ok_slot_write:
  assumes ok: "system_ok st" and wr: "slot_write st st'"
  shows "system_ok st'"
proof -
  note same = slot_write_same [OF wr, unfolded same_delivery_def] and parts = system_okD [OF ok]
  have "store_ok st'" "receipts_ok st'" using parts(1,2) store_ok_cong [of st' st] receipts_ok_cong [of st' st] same by simp_all
  with slots_ok_write [OF parts(3) wr] slots_clear_write [OF parts(4) wr parts(3)] show ?thesis by (simp add: system_ok_def)
qed

lemma service_slot_open_write:
  assumes "service_slot_open st key title body anchors author fresh_id anchor_ids pg_now = Inr (st', s, replay)"
  shows "st' = st \<or> slot_write st st'"
proof -
  from assms obtain project title' body' validated where o: "open_slot st project title' body' validated author fresh_id anchor_ids pg_now = Inr (st', s, replay)"
    by (auto simp: service_slot_open_def result_simps)
  show ?thesis
  proof (cases replay)
    case True
    with o show ?thesis by (auto simp: open_slot_def Let_def result_simps split: option.splits)
  next
    case False
    with o show ?thesis using slot_write.opened by fastforce
  qed
qed

lemma service_slot_close_write:
  assumes "service_slot_close st i expected comment pg_now = Inr (st', s)"
  shows "slot_write st st'"
proof -
  from assms obtain comment' where "close_slot st i ''explicit'' (Some comment') pg_now = Inr (st', s)"
    by (auto simp: service_slot_close_def slot_close_def result_simps split: option.splits)
  then show ?thesis by (rule slot_write.closed)
qed

section \<open>The queue and the retention\<close>

lemma system_ok_schedule:
  assumes ok: "system_ok st" and "schedule_after st j delay expected now = Inr (st', moved)"
  shows "system_ok st'"
proof (cases "oj_binding j = None")
  case True
  let ?g = "\<lambda>w. w\<lparr>wf_context_due_at := Some (now + delay)\<rparr>"
  from assms(2) True have st': "st' = st\<lparr>ds_db := (ds_db st)\<lparr>db_workflows := update_rows (captured_context j expected) ?g (store_workflows st)\<rparr>\<rparr>"
    by (auto simp: schedule_after_def result_simps Let_def)
  show ?thesis
  proof (rule system_ok_move [OF ok])
    show "delivery_move st st'"
      unfolding st' by (rule delivery_moveI) (use gen_mono_update [of ?g] in \<open>simp_all add: store_workflows_def owners_def binding_ids_def binding_tickets_def\<close>)
    show "store_ok st'" unfolding st'
      by (rule store_ok_frame [OF system_okD(1) [OF ok]]) (use system_okD(1) [OF ok] in \<open>simp_all add: map_update_rows generation_def store_ok_def\<close>)
  qed
next
  case False
  let ?hit = "\<lambda>r. captured_binding j expected r \<and> generation_open st j"
  let ?f = "\<lambda>r. r\<lparr>bw_due_at := Some (now + delay)\<rparr>"
  from assms(2) False have st': "st' = st\<lparr>ds_db := (ds_db st)\<lparr>db_bindings := update_rows ?hit ?f (db_bindings (ds_db st))\<rparr>\<rparr>"
    by (auto simp: schedule_after_def result_simps Let_def)
  note rows = binding_rows_update [of ?f ?hit "db_bindings (ds_db st)"]
  show ?thesis
  proof (rule system_ok_move [OF ok])
    show "delivery_move st st'"
    proof (rule delivery_moveI)
      show "live_bindings (db_bindings (ds_db st')) \<subseteq> live_bindings (db_bindings (ds_db st))" "binding_ids st' = binding_ids st"
        "binding_tickets st' = binding_tickets st"
        using rows by (simp_all add: st' live_key_def binding_ids_def binding_tickets_def)
    qed (simp_all add: st' owners_def store_workflows_def)
    have "bindings_ok (db_bindings (ds_db st))" using system_okD(1) [OF ok] by (simp add: store_ok_def)
    then have "bindings_ok (update_rows ?hit ?f (db_bindings (ds_db st)))" by (rule bindings_ok_update) simp_all
    then show "store_ok st'" unfolding st' by (intro store_ok_frame [OF system_okD(1) [OF ok]]) (simp_all add: store_workflows_def)
  qed
qed

lemma system_ok_purged:
  assumes "system_ok st"
  shows "system_ok (fst (delete_confirmations st ids))"
  by (rule system_ok_evidence [OF assms]) (simp add: evidence_beside_def delete_confirmations_def)

section \<open>The system\<close>

text \<open>One step is one transaction. The freshness bound is the one of the settings, which a process that
  issues no receipts does not have. Sessions, projects and knowledge entities change by themselves.\<close>

definition configured :: "int \<Rightarrow> receipt_settings \<Rightarrow> bool" where
  "configured freshness settings = opt_ok (\<lambda>(f, issuer). f = freshness) settings"

inductive delivery_step :: "(int \<Rightarrow> instant) \<Rightarrow> (instant \<Rightarrow> string) \<Rightarrow> (string \<Rightarrow> pydatetime option) \<Rightarrow> int \<Rightarrow> delivery_store \<Rightarrow> delivery_store \<Rightarrow> bool"
  for tz render fromisoformat freshness where
  stored: "store_step tz st st' \<Longrightarrow> delivery_step tz render fromisoformat freshness st st'"
| observed: "configured freshness settings \<Longrightarrow> publish_observation tz render settings st i expected ev started finished ids now pg_now = Inr (st', c) \<Longrightarrow>
    delivery_step tz render fromisoformat freshness st st'"
| observation_failed: "record_observation_error st i expected code started finished fresh_id pg_now = Inr (st', c) \<Longrightarrow>
    delivery_step tz render fromisoformat freshness st st'"
| context_observed: "configured freshness settings \<Longrightarrow> publish_repository_context tz settings st i context e started finished ids now pg_now = Inr (st', rc) \<Longrightarrow>
    delivery_step tz render fromisoformat freshness st st'"
| context_failed: "record_repository_context_error st i context code started finished fresh_id pg_now = Inr (st', rc) \<Longrightarrow>
    delivery_step tz render fromisoformat freshness st st'"
| receipt_issued: "configured freshness settings \<Longrightarrow> issue_integration_receipt tz settings st t receipt_ids now pg_now = Inr (st', r) \<Longrightarrow> delivery_step tz render fromisoformat freshness st st'"
| accepted: "accept tz enabled freshness st t acceptance fresh_id now pg_now = Inr (st', f) \<Longrightarrow> delivery_step tz render fromisoformat freshness st st'"
| attested: "brain_delivery_attest fromisoformat enabled request st t call issuer fresh_id pg_now = Inr (st', a) \<Longrightarrow>
    delivery_step tz render fromisoformat freshness st st'"
| measured: "record_released fromisoformat st candidate tag_name tag_sha tag_date fresh_id pg_now = Inr st' \<Longrightarrow>
    delivery_step tz render fromisoformat freshness st st'"
| deployed: "record_deployed fromisoformat st candidate release_sha package_version now fresh_id pg_now = Inr st' \<Longrightarrow>
    delivery_step tz render fromisoformat freshness st st'"
| slot_opened: "service_slot_open st key title body anchors author fresh_id anchor_ids pg_now = Inr (st', s, replay) \<Longrightarrow>
    delivery_step tz render fromisoformat freshness st st'"
| slot_closed: "service_slot_close st i version comment pg_now = Inr (st', s) \<Longrightarrow> delivery_step tz render fromisoformat freshness st st'"
| slot_rewritten: "cas_slot_body st i version body pg_now = (st1, Some s) \<Longrightarrow> sh_slot_id h = i \<Longrightarrow> sh_revision h = sl_revision s \<Longrightarrow>
    sh_body h = sl_body s \<Longrightarrow> delivery_step tz render fromisoformat freshness st (record_slot_history st1 h)"
| rescheduled: "schedule_after st job delay expected now = Inr (st', moved) \<Longrightarrow> delivery_step tz render fromisoformat freshness st st'"
| purged: "delivery_step tz render fromisoformat freshness st (fst (delete_confirmations st (purge_selection st cutoff batch locked)))"
| elsewhere: "delivery_step tz render fromisoformat freshness st (st\<lparr>ds_sessions := sessions, ds_projects := projects, ds_entities := entities\<rparr>)"

lemma system_ok_step:
  assumes ok: "system_ok st" and "delivery_step tz render fromisoformat freshness st st'"
  shows "system_ok st'"
  using assms(2)
proof cases
  case stored
  show ?thesis by (rule system_ok_move [OF ok delivery_move_step [OF stored system_okD(5) [OF ok]] store_ok_step [OF system_okD(1) [OF ok] stored]])
next
  case receipt_issued
  then show ?thesis using ok by (auto simp: issue_integration_receipt_def result_simps intro: system_ok_issue split: if_splits)
next
  case slot_opened
  then show ?thesis using ok service_slot_open_write system_ok_slot_write by blast
next
  case (slot_rewritten i version body pg_now st1 s h)
  then show ?thesis using slot_write.rewritten [OF slot_rewritten(2-5)] system_ok_slot_write [OF ok] by simp
next
  case (elsewhere entities projects sessions)
  let ?st = "st\<lparr>ds_sessions := sessions, ds_projects := projects, ds_entities := entities\<rparr>"
  have "store_ok ?st" using system_okD(1) [OF ok] store_ok_cong [of ?st st] by simp
  moreover have "delivery_move st ?st" by (rule delivery_moveI) (simp_all add: store_workflows_def binding_ids_def binding_tickets_def owners_def)
  ultimately show ?thesis unfolding elsewhere by (intro system_ok_move [OF ok])
next
  case observed
  show ?thesis by (rule system_ok_publish_observation [OF ok observed(2)])
next
  case observation_failed
  show ?thesis by (rule system_ok_observation_error [OF ok observation_failed])
next
  case context_observed
  show ?thesis by (rule system_ok_publish_context [OF ok context_observed(2)])
next
  case context_failed
  show ?thesis by (rule system_ok_context_error [OF ok context_failed])
next
  case accepted
  show ?thesis by (rule system_ok_accept [OF ok accepted])
next
  case attested
  show ?thesis by (rule system_ok_declared [OF ok attested])
next
  case measured
  show ?thesis by (rule system_ok_record_released [OF ok measured])
next
  case deployed
  show ?thesis by (rule system_ok_record_deployed [OF ok deployed])
next
  case slot_closed
  show ?thesis by (rule system_ok_slot_write [OF ok service_slot_close_write [OF slot_closed]])
next
  case rescheduled
  show ?thesis by (rule system_ok_schedule [OF ok rescheduled])
next
  case purged
  then show ?thesis using system_ok_purged [OF ok] by simp
qed

interpretation delivery_system: invariant_system store_start "delivery_step tz render fromisoformat freshness" system_ok
proof unfold_locales
  fix st assume st: "store_start st"
  then have "store_ok st" by (rule delivery_stores.inv_start)
  with st show "system_ok st"
    by (simp add: store_start_def system_ok_def receipts_ok_def binding_tickets_def slots_ok_def slots_clear_def)
qed (rule system_ok_step)

end
