(* ===== verification/Delivery_Backing.thy ===== *)
theory Delivery_Backing
  imports Delivery_System
begin

text \<open>
  What backs a receipt. Of all steps of the system only \<open>issue_under_scope\<close> and \<open>accept\<close> write receipts;
  they write them at the current generation and the store then holds the proof of every deliverable and
  dependency of the contract (\<open>receipt_backed\<close>). Receipts and attestations are append-only.
\<close>

section \<open>Frames of the receipt writes\<close>

definition same_proofs :: "delivery_store \<Rightarrow> delivery_store \<Rightarrow> bool" where
  "same_proofs st st' = (ds_db st' = ds_db st \<and> ds_revisions st' = ds_revisions st \<and> ds_snapshots st' = ds_snapshots st \<and>
     ds_confirmations st' = ds_confirmations st)"

lemma same_proofs_trans: "same_proofs st st' \<Longrightarrow> same_proofs st' st'' \<Longrightarrow> same_proofs st st''"
  by (simp add: same_proofs_def)

lemma insert_receipt_frame:
  assumes "insert_receipt st r pg_now = Inr st'" and "distinct (map sl_id (ds_slots st))"
  shows "same_proofs st st'" "ds_receipts st' = ds_receipts st @ [receipt_row_of r]" "ds_attestations st' = ds_attestations st"
proof -
  let ?st = "st\<lparr>ds_receipts := ds_receipts st @ [receipt_row_of r]\<rparr>"
  have "same_delivery ?st st'"
  proof (cases "mr_milestone r = IntegrationReceipt")
    case True
    with assms(1) obtain closed where "close_slots_satisfied_by ?st [mr_ticket_id r] (mr_id r) pg_now = Inr (st', closed)"
      by (cases "close_slots_satisfied_by ?st [mr_ticket_id r] (mr_id r) pg_now") (auto simp: insert_receipt_def Let_def result_simps)
    then show ?thesis by (rule close_slots_satisfied_by_Inr(2)) (use assms(2) in simp_all)
  next
    case False
    with assms(1) show ?thesis by (auto simp: insert_receipt_def Let_def result_simps same_delivery_def)
  qed
  then show "same_proofs st st'" "ds_receipts st' = ds_receipts st @ [receipt_row_of r]" "ds_attestations st' = ds_attestations st"
    by (simp_all add: same_delivery_def same_proofs_def)
qed

lemma deliverable_backed_same: "same_proofs st st' \<Longrightarrow> deliverable_backed st' w freshness now d = deliverable_backed st w freshness now d"
  by (simp add: same_proofs_def deliverable_backed_def)

lemma dependency_backed_mono: "set (ds_receipts st) \<subseteq> set (ds_receipts st') \<Longrightarrow> dependency_backed st d \<Longrightarrow> dependency_backed st' d"
  unfolding dependency_backed_def by blast

section \<open>Backing\<close>

text \<open>The generation of a receipt is current and its contract is proved by the store.\<close>

definition generation_backed :: "delivery_store \<Rightarrow> int \<Rightarrow> receipt_row \<Rightarrow> contract_revision \<Rightarrow> bool" where
  "generation_backed st freshness x c =
     (\<exists>w rv. get_workflow (store_workflows st) (rx_ticket_id x) = Some w \<and> wf_current_revision w = rx_revision x \<and> wf_attempt w = rx_attempt x \<and>
        get_revision (ds_revisions st) (rx_ticket_id x, rx_revision x) = Some rv \<and> c = rw_contract rv \<and>
        (\<forall>d \<in> set (cr_deliverables c). deliverable_backed st w freshness (rx_issued_at x) d) \<and>
        (\<forall>d \<in> set (cr_dependencies c). dependency_backed st d))"

text \<open>A fulfilment rests on the integration receipt of the same delivery, under the contract's mode, and an
  explicit one names the requester.\<close>

definition fulfilment_backed :: "delivery_store \<Rightarrow> receipt_row \<Rightarrow> contract_revision \<Rightarrow> bool" where
  "fulfilment_backed st x c =
     (rx_basis x = Some (cr_acceptance_mode c) \<and>
      (\<exists>y \<in> set (ds_receipts st). rx_milestone y = IntegrationReceipt \<and> rx_ticket_id y = rx_ticket_id x \<and> rx_revision y = rx_revision x \<and>
         rx_attempt y = rx_attempt x \<and> rx_delivery_digest y = rx_delivery_digest x) \<and>
      (cr_acceptance_mode c = Explicit \<longrightarrow> (\<exists>k e. get_ticket (db_tickets (ds_db st)) (rx_ticket_id x) = Some k \<and>
         mr_explicit_acceptance (rx_payload x) = Some e \<and> ea_requester_project e = tk_from_project k)))"

definition receipt_backed :: "delivery_store \<Rightarrow> int \<Rightarrow> receipt_row \<Rightarrow> bool" where
  "receipt_backed st freshness x =
     (\<exists>c. generation_backed st freshness x c \<and> (rx_milestone x = FulfilledReceipt \<longrightarrow> fulfilment_backed st x c))"

lemma loaded_generation_backed:
  assumes ok: "store_ok st" and load: "load_inputs st t True freshness = Inr (Some i)"
    and eval: "evaluate_delivery tz i (Aware now) = Inr a" "as_integration_receipt_eligible a"
    and r: "receipt_of i p m delivery now basis explicit fresh_id = Inr r"
    and same: "same_proofs st st'" and receipts: "set (ds_receipts st) \<subseteq> set (ds_receipts st')"
  shows "generation_backed st' freshness (receipt_row_of r) (ei_contract i)"
proof -
  obtain w where w: "get_workflow (store_workflows st) t = Some w" "cr_ticket_id (ei_contract i) = t"
      "cr_contract_revision (ei_contract i) = wf_current_revision w" "ei_attempt i = wf_attempt w"
    using loaded_generation(1) [OF ok load] by blast
  have satisfied: "as_requirements_satisfied a" using eval(1)
  proof (cases rule: evaluate_delivery_elim)
    case (1 now' cfs active)
    from 1(11) eval(2) show ?thesis by blast
  qed
  have i: "i\<lparr>ei_requested_completion_action := ei_requested_completion_action i\<rparr> = i" by simp
  from loaded_requirements_backed [OF load w(1) _ satisfied, of tz "ei_requested_completion_action i" now] eval(1) obtain rv where
      rv: "get_revision (ds_revisions st) (t, wf_current_revision w) = Some rv"
        "\<And>d. d \<in> set (cr_deliverables (rw_contract rv)) \<Longrightarrow> deliverable_backed st w freshness now d"
        "\<And>d. d \<in> set (cr_dependencies (rw_contract rv)) \<Longrightarrow> dependency_backed st d"
    unfolding i by blast
  have c: "ei_contract i = rw_contract rv" using load
  proof (cases rule: load_inputs_Inr)
    case (1 w' k rv' digest delivery)
    with w(1) rv(1) show ?thesis by simp
  qed
  have x: "rx_ticket_id (receipt_row_of r) = t" "rx_revision (receipt_row_of r) = wf_current_revision w"
      "rx_attempt (receipt_row_of r) = wf_attempt w" "rx_issued_at (receipt_row_of r) = now"
    using receipt_of_Inr [OF r] w by (simp_all add: receipt_row_of_def)
  have "store_workflows st' = store_workflows st" "ds_revisions st' = ds_revisions st" using same by (simp_all add: same_proofs_def store_workflows_def)
  then show ?thesis unfolding generation_backed_def x
    using w(1) rv c deliverable_backed_same [OF same] dependency_backed_mono [OF receipts] by (intro exI [of _ w] exI [of _ rv]) simp
qed

lemma receipt_row_fields:
  assumes "receipt_of i p m delivery now basis explicit fresh_id = Inr r"
  shows "rx_milestone (receipt_row_of r) = m" "rx_ticket_id (receipt_row_of r) = cr_ticket_id (ei_contract i)"
    "rx_revision (receipt_row_of r) = cr_contract_revision (ei_contract i)" "rx_attempt (receipt_row_of r) = ei_attempt i"
    "rx_delivery_digest (receipt_row_of r) = delivery" "rx_basis (receipt_row_of r) = basis" "rx_payload (receipt_row_of r) = r"
  using receipt_of_Inr [OF assms] by (simp_all add: receipt_row_of_def)

lemma issued_receipts_backed:
  assumes ok: "system_ok st" and "issue_under_scope tz settings st t ids now pg_now = Inr (st', out)" and "configured freshness settings"
  shows "\<exists>new. ds_receipts st' = ds_receipts st @ new \<and> (\<forall>x \<in> set new. receipt_backed st' freshness x)"
    "same_proofs st st'" "ds_attestations st' = ds_attestations st"
proof -
  have "(\<exists>new. ds_receipts st' = ds_receipts st @ new \<and> (\<forall>x \<in> set new. receipt_backed st' freshness x)) \<and>
      same_proofs st st' \<and> ds_attestations st' = ds_attestations st"
    using assms(2)
  proof (cases rule: issue_under_scope_Inr)
    case nothing
    then show ?thesis by (simp add: same_proofs_def)
  next
    case (issued freshness' issuer i a p r st1)
    have f: "freshness' = freshness" using assms(3) issued(1) by (simp add: configured_def opt_ok_def)
    note load = issued(2) [unfolded f] and store = system_okD(1) [OF ok]
    have "reached st r" by (rule receipt_reached [OF store load issued(8) frozen_receipt_proof_Inr(1) [OF issued(7)]]) simp
    note ok1 = system_ok_insert_receipt(1) [OF ok this issued(9)]
    note first = insert_receipt_frame [OF issued(9) system_okD(6) [OF ok]]
    note backed = loaded_generation_backed [OF store load issued(3,4)]
    from issued(10) show ?thesis
    proof (elim disjE conjE exE)
      assume "st' = st1"
      moreover have "receipt_backed st1 freshness (receipt_row_of r)" unfolding receipt_backed_def
        using backed [OF issued(8) first(1)] first(2) receipt_row_fields(1) [OF issued(8)] by (intro exI [of _ "ei_contract i"]) auto
      ultimately show ?thesis using first by simp
    next
      fix f assume f: "receipt_of i (p\<lparr>fp_acceptance_basis := Some Automatic\<rparr>) FulfilledReceipt (as_delivery_digest a) now (Some Automatic) None (snd ids) = Inr f"
        "insert_receipt st1 f pg_now = Inr st'" and mode: "cr_acceptance_mode (ei_contract i) = Automatic"
      note second = insert_receipt_frame [OF f(2) system_okD(6) [OF ok1]]
      note same = same_proofs_trans [OF first(1) second(1)]
      have receipts: "ds_receipts st' = ds_receipts st @ [receipt_row_of r, receipt_row_of f]" using first(2) second(2) by simp
      then have "set (ds_receipts st) \<subseteq> set (ds_receipts st')" by auto
      then have "generation_backed st' freshness (receipt_row_of r) (ei_contract i)" "generation_backed st' freshness (receipt_row_of f) (ei_contract i)"
        using backed [OF issued(8) same] backed [OF f(1) same] by simp_all
      moreover have "fulfilment_backed st' (receipt_row_of f) (ei_contract i)"
        unfolding fulfilment_backed_def receipts using mode receipt_row_fields [OF issued(8)] receipt_row_fields [OF f(1)] by simp
      ultimately show ?thesis using receipts same first(3) second(3) receipt_row_fields(1) [OF issued(8)]
        by (intro conjI exI [of _ "[receipt_row_of r, receipt_row_of f]"]) (auto simp: receipt_backed_def)
    qed
  qed
  then show "\<exists>new. ds_receipts st' = ds_receipts st @ new \<and> (\<forall>x \<in> set new. receipt_backed st' freshness x)"
    "same_proofs st st'" "ds_attestations st' = ds_attestations st" by simp_all
qed

lemma accepted_receipt_backed:
  assumes ok: "system_ok st" and acc: "accept tz enabled freshness st t call fresh_id now pg_now = Inr (st', f)"
  shows "\<exists>new. ds_receipts st' = ds_receipts st @ new \<and> (\<forall>x \<in> set new. receipt_backed st' freshness x)" "ds_attestations st' = ds_attestations st"
proof -
  have "(\<exists>new. ds_receipts st' = ds_receipts st @ new \<and> (\<forall>x \<in> set new. receipt_backed st' freshness x)) \<and> ds_attestations st' = ds_attestations st"
    using acc
  proof (cases rule: accept_Inr)
    case (1 k i a integration)
    from 1(12) show ?thesis
    proof (elim disjE conjE exE)
      let ?e = "\<lparr>ea_requester_project = ac_actor_project call, ea_rationale = ac_rationale call\<rparr>"
      fix p assume p: "receipt_of i p FulfilledReceipt (as_delivery_digest a) now (Some Explicit) (Some ?e) fresh_id = Inr f" "insert_receipt st f pg_now = Inr st'"
      note store = system_okD(1) [OF ok]
      note frame = insert_receipt_frame [OF p(2) system_okD(6) [OF ok]]
      have sub: "set (ds_receipts st) \<subseteq> set (ds_receipts st')" using frame(2) by auto
      note backed = loaded_generation_backed [OF store 1(4,5,6) p(1) frame(1) sub] and x = receipt_row_fields [OF p(1)]
      obtain w where w: "cr_ticket_id (ei_contract i) = tk_id k" "cr_contract_revision (ei_contract i) = wf_current_revision w" "ei_attempt i = wf_attempt w"
          "get_workflow (store_workflows st) (tk_id k) = Some w"
        using loaded_generation(1) [OF store 1(4)] by blast
      have k: "get_ticket (db_tickets (ds_db st)) t = Some k" "tk_id k = t"
        using lock_decision_scope_Inr [OF 1(2)] tickets.get_row_Some [of "db_tickets (ds_db st)" t k] by simp_all
      have "\<exists>y \<in> set (ds_receipts st). rx_milestone y = IntegrationReceipt \<and> rx_ticket_id y = tk_id k \<and> rx_revision y = wf_current_revision w \<and>
          rx_attempt y = wf_attempt w \<and> rx_delivery_digest y = as_delivery_digest a"
        using 1(4)
      proof (cases rule: load_inputs_Inr)
        case loaded: (1 w' k' rv digest delivery)
        have "input_delivery_digest i = Inr (as_delivery_digest a)" using 1(5) by (cases rule: evaluate_delivery_elim) assumption
        moreover have "delivery_digest digest (wf_attempt w') (ei_active_bindings i) = Inr delivery" using load_generation_Inr(2) [OF loaded(11)] .
        ultimately have "delivery = as_delivery_digest a"
          using loaded(4,6,7) by (simp add: input_delivery_digest_def lift_canonical_Inr)
        moreover have "w' = w" using loaded(1) w(4) by simp
        ultimately show ?thesis using matching_receipt_Inr [OF loaded(12) [unfolded 1(8)]] by (auto simp: receipt_stored_def)
      qed
      then have "fulfilment_backed st' (receipt_row_of f) (ei_contract i)"
        unfolding fulfilment_backed_def x w using sub k 1(3,7) receipt_of_Inr(9) [OF p(1)] frame(1) by (auto simp: same_proofs_def)
      with backed frame(2,3) show ?thesis by (auto simp: receipt_backed_def)
    qed simp
  qed
  then show "\<exists>new. ds_receipts st' = ds_receipts st @ new \<and> (\<forall>x \<in> set new. receipt_backed st' freshness x)" "ds_attestations st' = ds_attestations st" by simp_all
qed

section \<open>Append-only tables\<close>

text \<open>A fact under the identity of the observer is a measurement of one of its candidates.\<close>

definition fact_measured :: "attestation_row \<Rightarrow> bool" where
  "fact_measured a = (\<exists>c x y. at_ticket_id a = rc_ticket_id c \<and> at_issuer_project a = rc_to_project c \<and>
     at_contract_revision a = Some (rc_contract_revision c) \<and>
     (at_kind a = ''released'' \<and> at_payload a = release_payload c x y \<or> at_kind a = ''deployed'' \<and> at_payload a = deployed_payload c x y))"

definition facts_appended :: "attestation_row list \<Rightarrow> attestation_row list \<Rightarrow> bool" where
  "facts_appended old rows =
     (\<exists>new. rows = old @ new \<and> length new \<le> 1 \<and> (\<forall>a \<in> set new. at_id a \<notin> at_id ` set old \<and> attestation_key a \<notin> attestation_key ` set old \<and>
        valid_attestation a \<and> (at_issuer_identity a = OBSERVER_IDENTITY \<longrightarrow> fact_measured a)))"

lemma facts_appended_refl [simp]: "facts_appended rows rows"
  by (simp add: facts_appended_def)

definition appended :: "int \<Rightarrow> delivery_store \<Rightarrow> delivery_store \<Rightarrow> bool" where
  "appended freshness st st' =
     ((\<exists>new. ds_receipts st' = ds_receipts st @ new \<and> (\<forall>x \<in> set new. receipt_backed st' freshness x)) \<and>
      facts_appended (ds_attestations st) (ds_attestations st'))"

lemma appended_same: "ds_receipts st' = ds_receipts st \<Longrightarrow> ds_attestations st' = ds_attestations st \<Longrightarrow> appended freshness st st'"
  by (simp add: appended_def)

lemma attest_appends:
  assumes "attest fromisoformat st t call fresh_id pg_now = Inr (st', a)" and "al_caller_identity call = OBSERVER_IDENTITY \<Longrightarrow> a \<notin> set (ds_attestations st) \<Longrightarrow> fact_measured a"
  shows "facts_appended (ds_attestations st) (ds_attestations st')" "ds_receipts st' = ds_receipts st" "ds_slots st' = ds_slots st"
proof -
  have "facts_appended (ds_attestations st) (ds_attestations st') \<and> ds_receipts st' = ds_receipts st \<and> ds_slots st' = ds_slots st"
    using assms(1)
  proof (cases rule: attest_Inr)
    case (recorded k)
    then show ?thesis using assms(2) unfolding facts_appended_def by (intro conjI exI [of _ "[a]"]) auto
  qed simp
  then show "facts_appended (ds_attestations st) (ds_attestations st')" "ds_receipts st' = ds_receipts st" "ds_slots st' = ds_slots st" by simp_all
qed

lemma measured_call:
  assumes "attest fromisoformat st (rc_ticket_id c) call fresh_id pg_now = Inr (st', a)"
    and "call = release_call c x y z \<or> call = deployed_call c x y u" and "a \<notin> set (ds_attestations st)"
  shows "fact_measured a"
  using assms(1)
proof (cases rule: attest_Inr)
  case (recorded k)
  then show ?thesis using assms(2) unfolding fact_measured_def
    by (intro exI [of _ c] exI [of _ x] exI [of _ y]) (auto simp: release_call_def deployed_call_def)
qed (use assms(3) in simp)

lemma appended_issue:
  assumes "system_ok st1" and "issue_under_scope tz settings st1 t ids now pg_now = Inr (st', out)" and "configured freshness settings"
    and "ds_receipts st1 = ds_receipts st" "ds_attestations st1 = ds_attestations st"
  shows "appended freshness st st'"
  using issued_receipts_backed [OF assms(1-3)] assms(4,5) by (simp add: appended_def)

lemma evidence_frame:
  assumes "evidence_beside st st1"
  shows "ds_receipts st1 = ds_receipts st" "ds_attestations st1 = ds_attestations st"
  using arg_cong [OF assms [unfolded evidence_beside_def], of ds_receipts] arg_cong [OF assms [unfolded evidence_beside_def], of ds_attestations] by simp_all

lemma advance_frame [simp]:
  "ds_receipts (advance_subject st row w confirmation finished evidence pg_now) = ds_receipts st"
  "ds_attestations (advance_subject st row w confirmation finished evidence pg_now) = ds_attestations st"
  "ds_receipts (advance_context st w confirmation finished success code pg_now) = ds_receipts st"
  "ds_attestations (advance_context st w confirmation finished success code pg_now) = ds_attestations st"
  by (simp_all add: advance_subject_def advance_context_def Let_def)

lemma delivery_step_appends:
  assumes ok: "system_ok st" and "delivery_step tz render fromisoformat freshness st st'"
  shows "appended freshness st st'"
  using assms(2)
proof cases
  case stored
  then show ?thesis using delivery_moveD(6,7) [OF delivery_move_step [OF _ system_okD(5) [OF ok]]] by (intro appended_same) blast+
next
  case (observed settings i expected ev started finished ids now pg_now c)
  from observed(2) show ?thesis
  proof (cases rule: publish_observation_Inr)
    case (1 row w t digest st1 sid st2 out)
    note b = put_evidence_beside(1) [OF 1(7)] put_evidence_beside(2) [OF 1(8)]
    have "system_ok (advance_subject st2 row w (id_confirmation ids) (moment finished) (Some ev) pg_now)"
      by (intro system_ok_advance_subject system_ok_evidence [OF _ b(2)] system_ok_evidence [OF _ b(1)] ok)
    from appended_issue [OF this 1(9) observed(1)] evidence_frame [OF b(1)] evidence_frame [OF b(2)] show ?thesis by simp
  qed
next
  case (observation_failed i expected code started finished fresh_id pg_now c)
  then show ?thesis
    by (cases rule: record_observation_error_Inr) (use evidence_frame put_evidence_beside(2) in \<open>fastforce intro: appended_same\<close>)
next
  case (context_observed settings i expected e started finished ids now pg_now c)
  from context_observed(2) show ?thesis
  proof (cases rule: publish_repository_context_Inr)
    case (1 w t digest st1 sid st2 out)
    note b = put_evidence_beside(1) [OF 1(6)] put_evidence_beside(2) [OF 1(7)]
    have "system_ok (advance_context st2 w (id_confirmation ids) (moment finished) True None pg_now)"
      by (intro system_ok_advance_context system_ok_evidence [OF _ b(2)] system_ok_evidence [OF _ b(1)] ok)
    from appended_issue [OF this 1(8) context_observed(1)] evidence_frame [OF b(1)] evidence_frame [OF b(2)] show ?thesis by simp
  qed
next
  case (context_failed i expected code started finished fresh_id pg_now c)
  then show ?thesis
    by (cases rule: record_repository_context_error_Inr) (use evidence_frame put_evidence_beside(2) in \<open>fastforce intro: appended_same\<close>)
next
  case (receipt_issued settings t receipt_ids now pg_now r)
  then show ?thesis
    by (auto simp: issue_integration_receipt_def result_simps intro: appended_same appended_issue [OF ok] split: if_splits)
next
  case accepted
  then show ?thesis using accepted_receipt_backed [OF ok accepted] by (simp add: appended_def)
next
  case attested
  from attested show ?thesis
  proof (cases rule: brain_delivery_attest_Inr)
    case (1 caller)
    from attest_appends [OF 1(2)] 1(1) show ?thesis by (simp add: appended_def)
  qed
next
  case (measured candidate tag_name tag_sha tag_date fresh_id pg_now)
  from measured show ?thesis
  proof (cases rule: record_released_Inr)
    case (measured st1 a closed)
    have m: "a \<notin> set (ds_attestations st) \<Longrightarrow> fact_measured a" by (rule measured_call [OF measured(1) disjI1 [OF refl]])
    note new = attest_appends [OF measured(1) m]
    have "same_delivery st1 st'" using close_slots_satisfied_by_Inr(2) [OF measured(2)] new(3) system_okD(6) [OF ok] by simp
    with new(1,2) show ?thesis by (simp add: appended_def same_delivery_def)
  qed (simp add: appended_def)
next
  case (deployed candidate release_sha package_version now fresh_id pg_now)
  show ?thesis
  proof (cases "list_ex (already_deployed candidate release_sha) (ds_attestations st)")
    case True
    with deployed show ?thesis by (simp add: record_deployed_def appended_def)
  next
    case False
    with deployed obtain a where a: "attest fromisoformat st (rc_ticket_id candidate) (deployed_call candidate release_sha package_version now) fresh_id pg_now = Inr (st', a)"
      by (auto simp: record_deployed_def result_simps)
    have m: "a \<notin> set (ds_attestations st) \<Longrightarrow> fact_measured a" by (rule measured_call [OF a disjI2 [OF refl]])
    from attest_appends [OF a m] show ?thesis by (simp add: appended_def)
  qed
next
  case slot_opened
  then show ?thesis using service_slot_open_write [OF slot_opened] slot_write_same [of st st'] by (auto simp: same_delivery_def intro: appended_same)
next
  case slot_closed
  then show ?thesis using slot_write_same [OF service_slot_close_write [OF slot_closed]] by (auto simp: same_delivery_def intro: appended_same)
next
  case (slot_rewritten i version body pg_now st1 s h)
  then show ?thesis using slot_write_same [OF slot_write.rewritten [OF slot_rewritten(2-5)]] by (auto simp: same_delivery_def intro: appended_same)
next
  case (rescheduled j delay expected now moved)
  then show ?thesis by (auto simp: schedule_after_def result_simps Let_def intro!: appended_same split: if_splits)
next
  case purged
  then show ?thesis by (simp add: appended_def delete_confirmations_def)
next
  case elsewhere
  then show ?thesis by (simp add: appended_def)
qed

end
