(* ===== verification/Delivery_Contract_Properties.thy ===== *)
theory Delivery_Contract_Properties
  imports Delivery_Contracts
begin

text \<open>
  What the stored contracts guarantee, with a concrete store: two tickets, a contract on the first, a
  contract on the second that depends on the first, and an amendment of the first that would close a
  cycle.
\<close>

section \<open>Dependencies\<close>

lemma rtrancl_avoiding_source: "(z, t) \<in> E\<^sup>* \<Longrightarrow> (z, t) \<in> {e \<in> E. fst e \<noteq> t}\<^sup>*"
proof (induction rule: converse_rtrancl_induct)
  case (step y z)
  then show ?case by (cases "y = t") (auto intro: converse_rtrancl_into_rtrancl)
qed simp

lemma validate_dependencies_acyclic:
  assumes "acyclic (set (current_edges st))" and "\<And>d. d \<in> set (cr_dependencies c) \<Longrightarrow> check_dependency st actor d = Inr ()"
  shows "validate_dependencies st c actor =
    (if acyclic ({e \<in> set (current_edges st). fst e \<noteq> cr_ticket_id c} \<union> {cr_ticket_id c} \<times> dd_ticket_id ` set (cr_dependencies c))
     then Inr () else Inl StoreDependencyCycle)"
proof -
  let ?E = "set (current_edges st)" and ?t = "cr_ticket_id c" and ?ds = "map dd_ticket_id (cr_dependencies c)"
  let ?new = "{e \<in> ?E. fst e \<noteq> ?t} \<union> {?t} \<times> set ?ds"
  have "res_map (check_dependency st actor) (cr_dependencies c) = Inr (map (\<lambda>_. ()) (cr_dependencies c))"
    using assms(2) by (simp add: res_map_Inr_iff list_all2_conv_all_nth)
  then have v: "validate_dependencies st c actor = ensure (\<not> (\<exists>d \<in> set ?ds. (d, ?t) \<in> ?E\<^sup>*)) StoreDependencyCycle"
    by (simp add: validate_dependencies_def cycle_search_iff)
  have "acyclic ?new \<longleftrightarrow> \<not> (\<exists>d \<in> set ?ds. (d, ?t) \<in> ?E\<^sup>*)"
  proof
    assume "\<not> (\<exists>d \<in> set ?ds. (d, ?t) \<in> ?E\<^sup>*)"
    then have "acyclic (?E \<union> {?t} \<times> set ?ds)" by (intro acyclic_add_edges [OF assms(1)]) blast
    then show "acyclic ?new" by (rule acyclic_subset) auto
  next
    assume ac: "acyclic ?new"
    show "\<not> (\<exists>d \<in> set ?ds. (d, ?t) \<in> ?E\<^sup>*)"
    proof
      assume "\<exists>d \<in> set ?ds. (d, ?t) \<in> ?E\<^sup>*"
      then obtain d where d: "d \<in> set ?ds" "(d, ?t) \<in> ?E\<^sup>*" by blast
      have "(d, ?t) \<in> ?new\<^sup>*" using rtrancl_avoiding_source [OF d(2)] by (rule rtrancl_mono [THEN subsetD, rotated]) auto
      with d(1) have "(?t, ?t) \<in> ?new\<^sup>+" by (intro rtrancl_into_trancl2 [of _ d]) auto
      with ac show False by (simp add: acyclic_def)
    qed
  qed
  with v show ?thesis by (simp add: ensure_eq ensure_def)
qed

section \<open>Replays\<close>

lemma set_contract_replays:
  assumes "store_ok st" and "e \<in> set (ds_events st)" and "event_key e = (''set_contract'', actor, key)"
    and "ev_result e = ContractStored c0"
  shows "set_contract st c expected actor key digest now pg_now =
    (if digest = ev_request_digest e then Inr (st, c0) else Inl IdempotencyKeyReused)"
proof -
  have "distinct (map event_key (ds_events st))" using assms(1) by (simp add: store_ok_def)
  then have "find_row (\<lambda>x. event_key x = event_key e) (ds_events st) = Some e"
    using assms(2) unfolding find_row_def by (metis find_distinct_key)
  then have "find_row (\<lambda>x. ev_operation x = ''set_contract'' \<and> ev_actor_project x = actor \<and> ev_key x = key) (ds_events st) = Some e"
    using assms(3) by (simp add: event_key_def)
  with assms(4) show ?thesis by (simp add: set_contract_def event_replay_def)
qed

lemma set_contract_recorded:
  assumes "set_contract st c expected actor key digest now pg_now = Inr (st', c')"
  shows "\<exists>e \<in> set (ds_events st'). event_key e = (''set_contract'', actor, key) \<and> ev_result e = ContractStored c' \<and> ev_request_digest e = digest"
  using assms
proof (cases rule: set_contract_Inr)
  case (replayed e)
  then show ?thesis by (intro bexI [of _ e]) (simp_all add: event_key_def)
next
  case (stored t content ctx rows)
  show ?thesis unfolding stored(1,11) by (simp add: store_contract_def event_key_def)
qed

lemma store_step_events: "store_step tz st st' \<Longrightarrow> set (ds_events st) \<subseteq> set (ds_events st')"
  by (induction rule: store_step.induct)
    (auto simp: store_contract_def put_binding_def refresh_def Let_def elim!: set_contract_Inr bind_pr_Inr)

interpretation recorded: invariant_system "\<lambda>st. store_ok st \<and> e \<in> set (ds_events st)" "store_step tz" "\<lambda>st. store_ok st \<and> e \<in> set (ds_events st)"
  by unfold_locales (use store_ok_step store_step_events in blast)+

section \<open>Epochs\<close>

lemma get_workflow_update_any:
  assumes "\<And>w. wf_ticket_id (f w) = wf_ticket_id w"
  shows "get_workflow (update_rows p f rows) i = map_option (\<lambda>w. if p w then f w else w) (get_workflow rows i)"
  using assms by (induction rows) (auto simp: get_workflow_def find_row_def update_rows_def)

lemma get_workflow_append:
  "get_workflow (rows @ [w]) i = (case get_workflow rows i of Some x \<Rightarrow> Some x | None \<Rightarrow> if wf_ticket_id w = i then Some w else None)"
  by (induction rows) (auto simp: get_workflow_def find_row_def)

lemma epoch_at_least_any:
  assumes "epoch_at_least i n rows" and "\<And>w. wf_ticket_id (f w) = wf_ticket_id w" and "\<And>w. wf_claim_epoch w \<le> wf_claim_epoch (f w)"
  shows "epoch_at_least i n (update_rows p f rows)"
  using assms(1) order_trans [OF _ assms(3)]
  by (auto simp: epoch_at_least_def get_workflow_update_any [OF assms(2)] split: option.splits)

lemma epoch_at_least_put:
  assumes "epoch_at_least i n rows" and "put_workflow rows c expected digest now pg_now = Inr rows'"
  shows "epoch_at_least i n rows'"
proof -
  have "epoch_at_least i n (update_rows (\<lambda>x. wf_ticket_id x = cr_ticket_id c) (amended_workflow c digest now pg_now) rows)"
    by (rule epoch_at_least_any [OF assms(1)]) (simp_all add: amended_workflow_def)
  then show ?thesis using assms
    by (auto simp: put_workflow_def epoch_at_least_def get_workflow_append split: option.splits if_splits)
qed

lemma epoch_at_least_store_step:
  assumes "epoch_at_least i n (store_workflows st)" and "store_step tz st st'"
  shows "epoch_at_least i n (store_workflows st')"
  using assms(2)
proof cases
  case (contract_set c expected actor key digest now pg_now c')
  then show ?thesis using assms(1) by (cases rule: set_contract_Inr) (auto intro: epoch_at_least_put)
next
  case (pr_bound b repository actor expected_revision expected_version key digest fresh_id now pg_now b')
  then show ?thesis
  proof (cases rule: bind_pr_Inr)
    case (stored w t rv d event)
    show ?thesis unfolding stored(21) put_binding_def store_workflows_def Let_def
      by (simp, rule epoch_at_least_any) (use assms(1) in \<open>simp_all add: bound_workflow_def Let_def store_workflows_def\<close>)
  qed (use assms(1) in simp)
next
  case (refreshed i' now pg_now)
  show ?thesis unfolding refreshed refresh_def store_workflows_def
    by (simp, rule epoch_at_least_any) (use assms(1) in \<open>simp_all add: store_workflows_def\<close>)
next
  case (claim_moved rows)
  then show ?thesis using assms(1) epoch_at_least_step by (simp add: store_workflows_def)
next
  case (ticket_moved loaded r pg_now db' t)
  from ticket_moved(2) show ?thesis
  proof (cases rule: apply_transition_Inr)
    case (1 t0 mutation)
    from 1(6) show ?thesis unfolding ticket_moved(1)
      by (auto simp: store_workflows_def mutate_workflow_def Let_def intro!: epoch_at_least_any
        assms(1) [unfolded store_workflows_def])
  qed
next
  case (ticket_created projects data fresh_id pg_now db' t)
  then have "db_workflows db' = store_workflows st"
    by (auto simp: service_create_def store_workflows_def Let_def split: if_splits)
  with assms(1) ticket_created(1) show ?thesis by (simp add: store_workflows_def)
qed

interpretation store_epochs: invariant_system "\<lambda>st. epoch_at_least i n (store_workflows st)" "store_step tz" "\<lambda>st. epoch_at_least i n (store_workflows st)"
  by unfold_locales (auto intro: epoch_at_least_store_step)

section \<open>Superseding writes\<close>

lemma amended_epoch:
  assumes "put_workflow rows c expected digest now pg_now = Inr rows'" and "get_workflow rows (cr_ticket_id c) = Some w"
  shows "epoch_at_least (cr_ticket_id c) (wf_claim_epoch w + 1) rows'"
  using assms by (auto simp: put_workflow_def epoch_at_least_def get_workflow_update_any amended_workflow_def
      dest: workflows.get_row_Some split: if_splits)

lemma filter_distinct_key: "distinct (map f xs) \<Longrightarrow> x \<in> set xs \<Longrightarrow> filter (\<lambda>y. f y = f x) xs = [x]"
  by (induction xs) (auto simp: filter_empty_conv image_iff)

lemma put_binding_events: "ds_events (put_binding st b repository er ev event now pg_now) = ds_events st @ [event]"
  by (simp add: put_binding_def Let_def)

text \<open>The row a binding writes is the only active one of its slot.\<close>

lemma put_binding_active:
  assumes "bindings_ok (db_bindings (ds_db (put_binding st b repository er ev event now pg_now)))"
  shows "\<exists>row. filter (\<lambda>r. bw_active r \<and> same_slot (bw_binding r) b) (db_bindings (ds_db (put_binding st b repository er ev event now pg_now))) = [row] \<and>
    bw_binding row = b \<and> bw_repository_name row = repository \<and> bw_success_confirmation row = None \<and> bw_attempt_confirmation row = None"
proof -
  let ?rows = "db_bindings (ds_db (put_binding st b repository er ev event now pg_now))"
  let ?row = "\<lparr>bw_binding = b, bw_repository_name = repository, bw_active = True, bw_due_at = Some now,
            bw_last_attempt_at = None, bw_last_success_at = None, bw_success_confirmation = None, bw_attempt_confirmation = None\<rparr>"
  have "?row \<in> set (filter bw_active ?rows)" by (simp add: put_binding_def Let_def)
  with filter_distinct_key [of "\<lambda>r. slot (bw_binding r)" "filter bw_active ?rows" ?row] assms
  have "filter (\<lambda>r. slot (bw_binding r) = slot b) (filter bw_active ?rows) = [?row]" by (simp add: bindings_ok_def)
  then show ?thesis by (intro exI [of _ ?row]) (simp add: same_slot_iff conj_commute)
qed

lemma superseded_epoch:
  assumes "get_workflow (store_workflows st) (ab_ticket_id b) = Some w" and "ev = wf_row_version w" and "er = wf_current_revision w"
    and "r \<in> set (db_bindings (ds_db st))" and "bw_active r" and "same_slot (bw_binding r) b"
  shows "epoch_at_least (ab_ticket_id b) (wf_claim_epoch w + 1)
    (store_workflows (put_binding st b repository er ev event now pg_now))"
proof -
  have "find_row (\<lambda>r. same_slot (bw_binding r) b \<and> bw_active r) (db_bindings (ds_db st)) \<noteq> None"
    using assms(4-6) by (auto simp: find_row_None)
  moreover have "wf_ticket_id w = ab_ticket_id b" using workflows.get_row_Some [OF assms(1)] by simp
  ultimately show ?thesis using assms(1-3)
    by (simp add: put_binding_def Let_def store_workflows_def epoch_at_least_def get_workflow_update_any bound_workflow_def)
qed

section \<open>A sample store\<close>

definition second_ticket :: ticket where
  "second_ticket = sample_ticket\<lparr>tk_id := ''t2''\<rparr>"

definition empty_store :: delivery_store where
  "empty_store = \<lparr>ds_db = \<lparr>db_tickets = [sample_ticket, second_ticket], db_messages = [], db_workflows = [], db_bindings = []\<rparr>,
     ds_revisions = [], ds_dependencies = [], ds_events = [], ds_snapshots = [], ds_confirmations = [], ds_receipts = [],
     ds_entities = [], ds_attestations = [], ds_projects = [], ds_slots = [], ds_anchors = [], ds_slot_history = [],
     ds_sessions = []\<rparr>"

definition second_contract :: contract_revision where
  "second_contract = sample_contract\<lparr>cr_ticket_id := ''t2'', cr_dependencies :=
     [\<lparr>dd_ticket_id = ''t1'', dd_contract_revision = 1, dd_attempt = 1, dd_milestone = Integrated\<rparr>]\<rparr>"

definition closing_contract :: contract_revision where
  "closing_contract = sample_contract\<lparr>cr_contract_revision := 2, cr_dependencies :=
     [\<lparr>dd_ticket_id = ''t2'', dd_contract_revision = 1, dd_attempt = 1, dd_milestone = Integrated\<rparr>]\<rparr>"

definition sample_context :: string where
  "sample_context = projr (context_set_digest sample_contract)"

lemma sample_contexts:
  "context_set_digest sample_contract = Inr sample_context" "context_set_digest second_contract = Inr sample_context"
proof -
  have "is_ok (context_set_digest sample_contract)"
    by (simp add: context_set_digest_def context_documents_def sample_contract_def canonical_digest_ok MAX_CANONICAL_JSON_DEPTH_def)
  then show "context_set_digest sample_contract = Inr sample_context" by (auto simp: sample_context_def is_ok_iff)
  then show "context_set_digest second_contract = Inr sample_context"
    by (simp add: context_set_digest_def context_documents_def second_contract_def sample_contract_def)
qed

definition set_event :: "contract_revision \<Rightarrow> string \<Rightarrow> event_row" where
  "set_event c key = \<lparr>ev_operation = ''set_contract'', ev_actor_project = ''acme'', ev_ticket_id = cr_ticket_id c, ev_key = key,
     ev_request_digest = ''d'', ev_result = ContractStored c, ev_payload = [(''expected_revision'', 0)]\<rparr>"

definition first_store :: delivery_store where
  "first_store = store_contract empty_store sample_contract (replicate 64 CHR ''d'') sample_context
     [new_workflow sample_contract sample_context 1 1] (set_event sample_contract ''k1'')"

definition second_store :: delivery_store where
  "second_store = store_contract first_store second_contract (replicate 64 CHR ''d'') sample_context
     [new_workflow sample_contract sample_context 1 1, new_workflow second_contract sample_context 2 2]
     (set_event second_contract ''k2'')"

lemma sample_tickets:
  "get_ticket (db_tickets (ds_db empty_store)) ''t1'' = Some sample_ticket"
  "get_ticket (db_tickets (ds_db first_store)) ''t1'' = Some sample_ticket"
  "get_ticket (db_tickets (ds_db first_store)) ''t2'' = Some second_ticket"
  "get_ticket (db_tickets (ds_db second_store)) ''t2'' = Some second_ticket"
  "contractable sample_ticket" "contractable second_ticket" "tk_from_project sample_ticket = ''acme''"
  "tk_from_project second_ticket = ''acme''" "tk_status sample_ticket = SOpen" "tk_status second_ticket = SOpen"
  by (simp_all add: empty_store_def first_store_def second_store_def store_contract_def get_ticket_def find_row_def second_ticket_def sample_ticket_def
      new_ticket_def sample_data_def contractable_def)

lemma sample_set_first:
  "set_contract empty_store sample_contract 0 ''acme'' ''k1'' ''d'' 1 1 = Inr (first_store, sample_contract)"
proof -
  have "store_workflows empty_store = []" "ds_events empty_store = []" "ds_revisions empty_store = []"
    by (simp_all add: store_workflows_def empty_store_def)
  moreover have "validate_dependencies empty_store sample_contract ''acme'' = Inr ()"
    by (simp add: validate_dependencies_def sample_contract_def cycle_search.simps)
  moreover have "cr_ticket_id sample_contract = ''t1''" "cr_contract_revision sample_contract = 1" "cr_dependencies sample_contract = []"
    "cr_content_digest sample_contract = Some (replicate 64 CHR ''d'')" by (simp_all add: sample_contract_def)
  ultimately show ?thesis
    by (simp add: set_contract_def event_replay_def find_row_def sample_tickets sample_contexts lift_store_def put_workflow_def
        get_workflow_def get_revision_def first_store_def set_event_def)
qed

lemma sample_set_second:
  "set_contract first_store second_contract 0 ''acme'' ''k2'' ''d'' 2 2 = Inr (second_store, second_contract)"
proof -
  have w: "store_workflows first_store = [new_workflow sample_contract sample_context 1 1]" by (simp add: first_store_def)
  have e: "event_replay (ds_events first_store) ''set_contract'' ''acme'' ''k2'' ''d'' = Inr None"
    by (simp add: event_replay_def first_store_def store_contract_def empty_store_def find_row_def set_event_def)
  have edges: "current_edges first_store = []"
    by (simp add: current_edges_def first_store_def store_contract_def empty_store_def sample_contract_def)
  have "validate_dependencies first_store second_contract ''acme'' = Inr ()"
    by (simp add: validate_dependencies_def second_contract_def check_dependency_def w get_workflow_def find_row_def
        new_workflow_def sample_contract_def edges cycle_search_iff sample_tickets)
  moreover have "get_workflow (store_workflows first_store) ''t2'' = None"
    by (simp add: w get_workflow_def find_row_def new_workflow_def sample_contract_def)
  moreover have "get_revision (ds_revisions first_store) (''t2'', 1) = None"
    by (simp add: get_revision_def find_row_def first_store_def store_contract_def empty_store_def sample_contract_def)
  moreover have "cr_ticket_id second_contract = ''t2''" "cr_contract_revision second_contract = 1"
    "distinct (map dd_identity (cr_dependencies second_contract))"
    "cr_content_digest second_contract = Some (replicate 64 CHR ''d'')" by (simp_all add: second_contract_def sample_contract_def)
  ultimately show ?thesis
    by (simp add: set_contract_def e sample_tickets sample_contexts lift_store_def put_workflow_def w second_store_def set_event_def)
qed

lemma sample_store_reachable:
  "reachable store_start (store_step (\<lambda>t. t)) first_store" "reachable store_start (store_step (\<lambda>t. t)) second_store"
proof -
  have "reachable store_start (store_step (\<lambda>t. t)) empty_store"
    by (rule reachable_start) (simp add: store_start_def empty_store_def)
  then show "reachable store_start (store_step (\<lambda>t. t)) first_store"
    by (rule reachable_step) (rule store_step.contract_set [OF sample_set_first])
  then show "reachable store_start (store_step (\<lambda>t. t)) second_store"
    by (rule reachable_step) (rule store_step.contract_set [OF sample_set_second])
qed

lemma second_store_edges: "set (current_edges second_store) = {(''t2'', ''t1'')}"
  by (auto simp: current_edges_def second_store_def first_store_def store_contract_def store_workflows_def empty_store_def
      sample_contract_def second_contract_def new_workflow_def)

section \<open>Properties\<close>

text \<open>
  C4: In every state that the writes reach from empty tables, the dependency graph of the current
  contracts is acyclic, the stored revisions of a workflow are exactly 1 to its current one, with the
  dependency rows of their contracts, and at most one binding per contract revision, attempt and
  deliverable is active.
\<close>

theorem stored_contracts_consistent:
  assumes "reachable store_start (store_step tz) st"
  shows "acyclic (set (current_edges st)) \<and>
    (\<forall>w \<in> set (store_workflows st). {r. get_revision (ds_revisions st) (wf_ticket_id w, r) \<noteq> None} = {1..wf_current_revision w}) \<and>
    (\<forall>rv \<in> set (ds_revisions st). dependency_rows st (rw_ticket_id rv, rw_revision rv) = cr_dependencies (rw_contract rv)) \<and>
    (\<forall>a \<in> set (db_bindings (ds_db st)). \<forall>b \<in> set (db_bindings (ds_db st)).
       bw_active a \<and> bw_active b \<and> same_slot (bw_binding a) (bw_binding b) \<longrightarrow> a = b)"
proof -
  from delivery_stores.inv_reachable [OF assms] have ok: "revisions_ok st" "acyclic (set (current_edges st))"
    "bindings_ok (db_bindings (ds_db st))" by (simp_all add: store_ok_def)
  have gen: "(wf_ticket_id w, n) \<in> generation ` set (store_workflows st) \<longleftrightarrow> n = wf_current_revision w"
    if "w \<in> set (store_workflows st)" for w n
    using that revisions_okD(1) [OF ok(1)] by (auto simp: generation_def distinct_map inj_on_def image_iff)
  have rev: "get_revision (ds_revisions st) k \<noteq> None \<longleftrightarrow> k \<in> revision_key ` set (ds_revisions st)" for k
    using revisions.get_row_None [of "ds_revisions st" k] by (simp add: revision_key_def [abs_def])
  have "{r. get_revision (ds_revisions st) (wf_ticket_id w, r) \<noteq> None} = {1..wf_current_revision w}" if "w \<in> set (store_workflows st)" for w
    unfolding rev using revisions_okD(4) [OF ok(1), of "wf_ticket_id w"] gen [OF that] by auto
  moreover have "a = b" if "a \<in> set (db_bindings (ds_db st))" "b \<in> set (db_bindings (ds_db st))" "bw_active a" "bw_active b"
      "same_slot (bw_binding a) (bw_binding b)" for a b
    using ok(3) that inj_onD [of "\<lambda>r. slot (bw_binding r)" "set (filter bw_active (db_bindings (ds_db st)))" a b]
    by (simp add: bindings_ok_def distinct_map same_slot_iff)
  moreover have "dependency_rows st (rw_ticket_id rv, rw_revision rv) = cr_dependencies (rw_contract rv)" if "rv \<in> set (ds_revisions st)" for rv
    using revisions_okD(6) [OF ok(1) that] by (simp add: revision_key_def)
  ultimately show ?thesis using ok(2) by blast
qed

theorem stored_contracts_consistent_witness:
  "set (current_edges second_store) = {(''t2'', ''t1'')} \<and> acyclic (set (current_edges second_store))"
  using stored_contracts_consistent [OF sample_store_reachable(2)] second_store_edges by simp

text \<open>
  C27: The dependency check decides acyclicity: when the upstream generations are current and visible, a
  contract is accepted exactly when replacing the current edges of its ticket by its dependencies leaves
  the graph acyclic, and is refused with the cycle error otherwise.
\<close>

theorem dependency_cycle_refused_exactly:
  assumes "reachable store_start (store_step tz) st" and "\<And>d. d \<in> set (cr_dependencies c) \<Longrightarrow> check_dependency st actor d = Inr ()"
  shows "validate_dependencies st c actor =
    (if acyclic ({e \<in> set (current_edges st). fst e \<noteq> cr_ticket_id c} \<union> {cr_ticket_id c} \<times> dd_ticket_id ` set (cr_dependencies c))
     then Inr () else Inl StoreDependencyCycle)"
  using delivery_stores.inv_reachable [OF assms(1)] by (intro validate_dependencies_acyclic assms(2)) (simp_all add: store_ok_def)

theorem dependency_cycle_refused_exactly_witness:
  "validate_dependencies second_store closing_contract ''acme'' = Inl StoreDependencyCycle"
proof -
  have dep: "cr_dependencies closing_contract = [\<lparr>dd_ticket_id = ''t2'', dd_contract_revision = 1, dd_attempt = 1, dd_milestone = Integrated\<rparr>]"
    "cr_ticket_id closing_contract = ''t1''" by (simp_all add: closing_contract_def sample_contract_def)
  have "get_workflow (store_workflows second_store) ''t2'' = Some (new_workflow second_contract sample_context 2 2)"
    by (simp add: second_store_def get_workflow_def find_row_def new_workflow_def sample_contract_def second_contract_def)
  then have checked: "check_dependency second_store ''acme'' d = Inr ()" if "d \<in> set (cr_dependencies closing_contract)" for d
    using that by (simp add: dep check_dependency_def sample_tickets) (simp add: new_workflow_def)
  have "(''t1'', ''t1'') \<in> {(''t1'', ''t2''), (''t2'', ''t1'')}\<^sup>+"
    by (rule trancl.trancl_into_trancl [OF trancl.r_into_trancl]) auto
  moreover have "{e \<in> set (current_edges second_store). fst e \<noteq> ''t1''} \<union> {''t1''} \<times> {''t2''} = {(''t1'', ''t2''), (''t2'', ''t1'')}"
    unfolding second_store_edges by auto
  ultimately have cycle: "\<not> acyclic ({e \<in> set (current_edges second_store). fst e \<noteq> ''t1''} \<union> {''t1''} \<times> {''t2''})"
    by (auto simp: acyclic_def)
  show ?thesis
    by (subst dependency_cycle_refused_exactly [OF sample_store_reachable(2) checked]) (use cycle in \<open>simp_all add: dep\<close>)
qed

text \<open>
  C28: A contract write is replayed, never repeated: once it has returned, a call with the same actor, key
  and request digest returns the stored contract and writes nothing, in every later state of the store,
  and the key with another digest is refused.
\<close>

theorem contract_writes_are_replayed:
  assumes "reachable store_start (store_step tz) st"
    and "set_contract st c expected actor key digest now pg_now = Inr (st1, c1)"
    and "(store_step tz)\<^sup>*\<^sup>* st1 st2"
  shows "set_contract st2 c' expected' actor key digest' now' pg_now' =
    (if digest' = digest then Inr (st2, c1) else Inl IdempotencyKeyReused)"
proof -
  have ok: "store_ok st1"
    using store_ok_set_contract [OF delivery_stores.inv_reachable [OF assms(1)] assms(2)] .
  obtain e where e: "e \<in> set (ds_events st1)" "event_key e = (''set_contract'', actor, key)"
    "ev_result e = ContractStored c1" "ev_request_digest e = digest"
    using set_contract_recorded [OF assms(2)] by blast
  with recorded.inv_rtranclp [OF assms(3), of e] ok have "store_ok st2" "e \<in> set (ds_events st2)" by blast+
  from set_contract_replays [OF this e(2,3)] e(4) show ?thesis by simp
qed

theorem contract_writes_are_replayed_witness:
  "set_contract second_store second_contract 7 ''acme'' ''k1'' ''d'' 9 9 = Inr (second_store, sample_contract) \<and>
   set_contract second_store second_contract 7 ''acme'' ''k1'' ''other'' 9 9 = Inl IdempotencyKeyReused"
proof -
  have "reachable store_start (store_step (\<lambda>t. t)) empty_store"
    by (rule reachable_start) (simp add: store_start_def empty_store_def)
  moreover have "(store_step (\<lambda>t. t))\<^sup>*\<^sup>* first_store second_store"
    by (rule r_into_rtranclp) (rule store_step.contract_set [OF sample_set_second])
  ultimately show ?thesis using contract_writes_are_replayed [OF _ sample_set_first] by simp
qed

text \<open>
  C29: Amending a contract fences every claim on its workflow: the write advances the revision by one and
  revokes the claim, and no claim granted before it can be renewed or released afterwards, whatever
  calls follow.
\<close>

theorem amendment_fences_claims:
  assumes "set_contract st c expected actor key digest now pg_now = Inr (st1, c1)" and "st1 \<noteq> st"
    and "get_workflow (store_workflows st) (cr_ticket_id c) = Some w" and "cc_epoch cred \<le> wf_claim_epoch w"
    and "(store_step tz)\<^sup>*\<^sup>* st1 st2"
  shows "(\<exists>w1. get_workflow (store_workflows st1) (cr_ticket_id c) = Some w1 \<and> wf_current_revision w1 = wf_current_revision w + 1 \<and>
       expected = wf_current_revision w \<and> wf_claim_owner w1 = None \<and> wf_claim_expires_at w1 = None) \<and>
    \<not> is_ok (renew (store_workflows st2) loaded (cr_ticket_id c) cred ttl pg_now') \<and>
    \<not> is_ok (release (store_workflows st2) loaded (cr_ticket_id c) cred pg_now')"
  using assms(1)
proof (cases rule: set_contract_Inr)
  case (stored t content ctx rows)
  have "wf_ticket_id w = cr_ticket_id c" using workflows.get_row_Some [OF assms(3)] by simp
  with stored(7) assms(3) have w1: "get_workflow rows (cr_ticket_id c) = Some (amended_workflow c ctx now pg_now w)"
    "expected = wf_current_revision w" "cr_contract_revision c = wf_current_revision w + 1"
    by (auto simp: put_workflow_def get_workflow_update_any amended_workflow_def split: if_splits)
  have "epoch_at_least (cr_ticket_id c) (wf_claim_epoch w + 1) (store_workflows st1)"
    unfolding stored(11) using amended_epoch [OF stored(7) assms(3)] by simp
  from store_epochs.inv_rtranclp [OF assms(5) this] fenced_by_epoch assms(4) w1
  show ?thesis unfolding stored(11) by (auto simp: amended_workflow_def)
qed (use assms(2) in simp)

definition amending_contract :: contract_revision where
  "amending_contract = sample_contract\<lparr>cr_contract_revision := 2\<rparr>"

theorem amendment_fences_claims_witness:
  "\<exists>st1 c1. set_contract first_store amending_contract 1 ''acme'' ''k3'' ''d'' 3 3 = Inr (st1, c1) \<and>
     \<not> is_ok (renew (store_workflows st1) (Inr claim_locked) ''t1'' \<lparr>cc_actor = ''brain-v42'', cc_owner = ''agent'', cc_token = ''secret'', cc_epoch = 0\<rparr> 900 4)"
proof -
  have w: "store_workflows first_store = [new_workflow sample_contract sample_context 1 1]" by (simp add: first_store_def)
  have e: "event_replay (ds_events first_store) ''set_contract'' ''acme'' ''k3'' ''d'' = Inr None"
    by (simp add: event_replay_def first_store_def store_contract_def empty_store_def find_row_def set_event_def)
  have c: "cr_ticket_id amending_contract = ''t1''" "cr_contract_revision amending_contract = 2" "cr_dependencies amending_contract = []"
    "cr_content_digest amending_contract = Some (replicate 64 CHR ''d'')" "context_set_digest amending_contract = Inr sample_context"
    using sample_contexts(1)
    by (simp_all add: amending_contract_def context_set_digest_def context_documents_def sample_contract_def)
  have g: "get_workflow (store_workflows first_store) ''t1'' = Some (new_workflow sample_contract sample_context 1 1)"
    by (simp add: w get_workflow_def find_row_def new_workflow_def sample_contract_def)
  have r: "get_revision (ds_revisions first_store) (''t1'', 2) = None"
    by (simp add: get_revision_def find_row_def first_store_def store_contract_def empty_store_def sample_contract_def)
  have "is_ok (set_contract first_store amending_contract 1 ''acme'' ''k3'' ''d'' 3 3)"
    by (simp add: set_contract_def e sample_tickets c g r lift_store_def put_workflow_def validate_dependencies_def cycle_search_iff)
      (simp add: new_workflow_def)
  then obtain st1 c1 where s: "set_contract first_store amending_contract 1 ''acme'' ''k3'' ''d'' 3 3 = Inr (st1, c1)"
    by (auto simp: is_ok_iff)
  moreover have "st1 \<noteq> first_store"
    using s by (cases rule: set_contract_Inr)
      (auto simp: store_contract_def first_store_def empty_store_def set_event_def)
  ultimately show ?thesis
    using amendment_fences_claims [OF s, of "new_workflow sample_contract sample_context 1 1"
        "\<lparr>cc_actor = ''brain-v42'', cc_owner = ''agent'', cc_token = ''secret'', cc_epoch = 0\<rparr>" "\<lambda>t. t" st1 "Inr claim_locked" 900 4] g c(1)
    by (simp add: new_workflow_def)
qed

text \<open>
  Binding a pull request on a fresh key leaves it as the one active binding of its deliverable in the
  current revision and attempt, proposed and without evidence, on the repository the contract names for
  that deliverable; when it supersedes another binding, no claim granted before can be renewed or released.
\<close>

lemma bound_pr_is_the_active_proposal:
  assumes "reachable store_start (store_step tz) st" and "st1 \<noteq> st"
    and "bind_pr st b repository actor er ev key digest fresh_id now pg_now = Inr (st1, b1)"
    and "get_workflow (store_workflows st) (ab_ticket_id b) = Some w"
  shows "(\<exists>row. filter (\<lambda>r. bw_active r \<and> same_slot (bw_binding r) b1) (db_bindings (ds_db st1)) = [row] \<and>
       bw_binding row = b1 \<and> bw_success_confirmation row = None \<and> bw_attempt_confirmation row = None) \<and>
    (ab_ticket_id b1, ab_contract_revision b1, ab_attempt b1) = (ab_ticket_id b, wf_current_revision w, wf_attempt w) \<and>
    ab_state b1 = BProposed \<and> ab_head_sha b1 = None \<and> ab_integration_sha b1 = None \<and>
    (\<exists>rv d. get_revision (ds_revisions st) (ab_ticket_id b, wf_current_revision w) = Some rv \<and> d \<in> set (cr_deliverables (rw_contract rv)) \<and>
       dl_key d = ab_deliverable_key b1 \<and> dl_repository_id d = Some (ab_repository_id b1) \<and> dl_repository d = repository) \<and>
    (list_ex (\<lambda>r. bw_active r \<and> same_slot (bw_binding r) b1) (db_bindings (ds_db st)) \<and> cc_epoch cred \<le> wf_claim_epoch w \<and>
       (store_step tz)\<^sup>*\<^sup>* st1 st2 \<longrightarrow>
     \<not> is_ok (renew (store_workflows st2) loaded (ab_ticket_id b) cred ttl pg_now') \<and>
     \<not> is_ok (release (store_workflows st2) loaded (ab_ticket_id b) cred pg_now'))"
  using assms(3)
proof (cases rule: bind_pr_Inr)
  case (stored w0 t rv d event)
  with assms(4) have w0: "w0 = w" by simp
  have ok: "bindings_ok (db_bindings (ds_db st1))"
    using delivery_stores.inv_reachable [OF reachable_step [OF assms(1) store_step.pr_bound [OF assms(3)]]] by (simp add: store_ok_def)
  have fields: "ab_ticket_id b1 = ab_ticket_id b" "ab_deliverable_key b1 = ab_deliverable_key b" "ab_repository_id b1 = ab_repository_id b"
    "ab_contract_revision b1 = wf_current_revision w" "ab_attempt b1 = wf_attempt w" "ab_state b1 = BProposed"
    "ab_head_sha b1 = None" "ab_integration_sha b1 = None" unfolding stored(12) w0 by (simp_all add: proposed_binding_def)
  have fenced: "\<not> is_ok (renew (store_workflows st2) loaded (ab_ticket_id b) cred ttl pg_now') \<and>
      \<not> is_ok (release (store_workflows st2) loaded (ab_ticket_id b) cred pg_now')"
    if old: "list_ex (\<lambda>r. bw_active r \<and> same_slot (bw_binding r) b1) (db_bindings (ds_db st))" "cc_epoch cred \<le> wf_claim_epoch w"
      "(store_step tz)\<^sup>*\<^sup>* st1 st2"
  proof -
    from old(1) obtain r where r: "r \<in> set (db_bindings (ds_db st))" "bw_active r" "same_slot (bw_binding r) b1" by (auto simp: list_ex_iff)
    have "epoch_at_least (ab_ticket_id b) (wf_claim_epoch w + 1) (store_workflows st1)"
      unfolding stored(21) fields(1) [symmetric]
      by (rule superseded_epoch) (use r assms(4) stored(5,6) w0 fields(1) in simp_all)
    from store_epochs.inv_rtranclp [OF old(3) this] fenced_by_epoch old(2) show ?thesis by fastforce
  qed
  have "\<exists>rv d. get_revision (ds_revisions st) (ab_ticket_id b, wf_current_revision w) = Some rv \<and> d \<in> set (cr_deliverables (rw_contract rv)) \<and>
       dl_key d = ab_deliverable_key b1 \<and> dl_repository_id d = Some (ab_repository_id b1) \<and> dl_repository d = repository"
    using stored(7-11) w0 fields by metis
  with put_binding_active [OF ok [unfolded stored(21)]] fenced fields show ?thesis unfolding stored(21) by auto
qed (use assms(2) in simp)

definition sample_proposal :: artifact_binding where
  "sample_proposal = \<lparr>ab_id = ''n1'', ab_ticket_id = ''t1'', ab_contract_revision = 1, ab_attempt = 1, ab_deliverable_key = ''api'',
     ab_repository_id = 7, ab_pr_number = 12, ab_state = BProposed, ab_head_sha = None, ab_base_sha = None,
     ab_integration_sha = None, ab_binding_version = 1\<rparr>"

lemma sample_bind:
  "is_ok (bind_pr first_store sample_proposal ''acme/api'' ''brain-v42'' 1 1 ''b1'' ''d'' ''n1'' 3 3)"
proof -
  have w: "get_workflow (store_workflows first_store) ''t1'' = Some (new_workflow sample_contract sample_context 1 1)"
    by (simp add: first_store_def get_workflow_def find_row_def new_workflow_def sample_contract_def)
  have rv: "get_revision (ds_revisions first_store) (''t1'', 1) = Some \<lparr>rw_ticket_id = ''t1'', rw_revision = 1, rw_contract = sample_contract,
      rw_content_digest = replicate 64 CHR ''d'', rw_context_set_digest = sample_context\<rparr>"
    by (simp add: get_revision_def find_row_def first_store_def store_contract_def empty_store_def sample_contract_def)
  have "event_replay (ds_events first_store) ''bind_pr'' ''brain-v42'' ''b1'' ''d'' = Inr None" "db_bindings (ds_db first_store) = []"
    by (simp_all add: event_replay_def first_store_def store_contract_def empty_store_def find_row_def set_event_def)
  moreover have "bindable sample_ticket" "tk_to_project sample_ticket = ''brain-v42''"
    by (simp_all add: bindable_def sample_ticket_def new_ticket_def sample_data_def)
  moreover have "wf_current_revision (new_workflow sample_contract sample_context 1 1) = 1"
    "wf_row_version (new_workflow sample_contract sample_context 1 1) = 1" by (simp_all add: new_workflow_def)
  moreover have "proposed_binding (new_workflow sample_contract sample_context 1 1) sample_proposal ''n1'' = sample_proposal"
    by (simp add: proposed_binding_def new_workflow_def sample_proposal_def)
  moreover have "valid_artifact_binding sample_proposal" by (simp add: valid_artifact_binding_def sample_proposal_def in_len_def valid_key_def opt_ok_def is_lower_def)
  moreover have "ab_ticket_id sample_proposal = ''t1''" "ab_deliverable_key sample_proposal = ''api''" "ab_repository_id sample_proposal = 7"
    by (simp_all add: sample_proposal_def)
  moreover have "cr_deliverables sample_contract = [d] \<Longrightarrow> dl_key d = ''api'' \<and> dl_repository_id d = Some 7 \<and> dl_repository d = ''acme/api''" for d
    by (auto simp: sample_contract_def)
  moreover obtain d where "cr_deliverables sample_contract = [d]" by (simp add: sample_contract_def)
  ultimately show ?thesis by (simp add: bind_pr_def w rv sample_tickets is_ok_iff Let_def)
qed

lemma bound_pr_is_the_active_proposal_sample:
  "\<exists>st1 row. bind_pr first_store sample_proposal ''acme/api'' ''brain-v42'' 1 1 ''b1'' ''d'' ''n1'' 3 3 = Inr (st1, bw_binding row) \<and>
     filter (\<lambda>r. bw_active r \<and> same_slot (bw_binding r) (bw_binding row)) (db_bindings (ds_db st1)) = [row]"
proof -
  obtain st1 b1 where s: "bind_pr first_store sample_proposal ''acme/api'' ''brain-v42'' 1 1 ''b1'' ''d'' ''n1'' 3 3 = Inr (st1, b1)"
    using sample_bind by (auto simp: is_ok_iff)
  have "st1 \<noteq> first_store"
    using s
  proof (cases rule: bind_pr_Inr)
    case (replayed e)
    then show ?thesis by (simp add: first_store_def store_contract_def empty_store_def set_event_def)
  next
    case (stored w t rv d event)
    show ?thesis unfolding stored(21) by (metis put_binding_events not_Cons_self2 append_self_conv)
  qed
  moreover have "get_workflow (store_workflows first_store) (ab_ticket_id sample_proposal) = Some (new_workflow sample_contract sample_context 1 1)"
    by (simp add: first_store_def get_workflow_def find_row_def new_workflow_def sample_contract_def sample_proposal_def)
  ultimately show ?thesis
    using bound_pr_is_the_active_proposal [OF sample_store_reachable(1) _ s] s by blast
qed

end
