(* ===== verification/Delivery_Run.thy ===== *)
theory Delivery_Run
  imports Delivery_Backing Delivery_Contract_Properties
begin

text \<open>
  One delivery followed through the system, for the witnesses: a contract is set, a pull request bound, a
  merged observation published, which issues the integration receipt, and the requester accepts it.
\<close>

section \<open>The contract\<close>

definition run_digest :: string where
  "run_digest = projr (contract_digest sample_contract)"

definition run_contract :: contract_revision where
  "run_contract = sample_contract\<lparr>cr_content_digest := Some run_digest\<rparr>"

lemma run_contract_fields [simp]:
  "cr_ticket_id run_contract = ''t1''" "cr_contract_revision run_contract = 1" "cr_content_digest run_contract = Some run_digest"
  "cr_dependencies run_contract = []" "cr_context_refs run_contract = []" "cr_deliverables run_contract = cr_deliverables sample_contract"
  "cr_acceptance_mode run_contract = Explicit"
  by (simp_all add: run_contract_def sample_contract_def)

lemma run_digests: "contract_digest run_contract = Inr run_digest" "validate_digest run_digest" "nul_free run_digest"
proof -
  obtain p where p: "contract_content_payload sample_contract = Inr p" "canonical_at 0 p"
    by (simp add: contract_content_payload_def sample_contract_def deliverable_payload_def required_check_payload_def MAX_CANONICAL_JSON_DEPTH_def)
  then have "is_ok (canonical_digest p Contract)" by (simp add: canonical_digest_ok)
  with p(1) have "is_ok (contract_digest sample_contract)" by (auto simp: contract_digest_def is_ok_iff)
  then have d: "contract_digest sample_contract = Inr run_digest" by (auto simp: run_digest_def is_ok_iff)
  have "contract_content_payload run_contract = contract_content_payload sample_contract"
    by (simp add: contract_content_payload_def run_contract_def)
  with d show "contract_digest run_contract = Inr run_digest" by (simp add: contract_digest_def)
  from d p(1) have "canonical_digest p Contract = Inr run_digest" by (simp add: contract_digest_def split: sum.splits)
  then show "validate_digest run_digest" by (rule canonical_digest_Inr)
  then show "nul_free run_digest" using hex_nul_free by (auto simp: validate_digest_def)
qed

lemma length_utf8: "length (utf8 s) \<le> 4 * length s"
  by (induction s) (auto simp: utf8_def utf8_char_def)

lemma length_dump_str: "length (dump_str s) \<le> 6 * length s + 2"
proof -
  have "length (escape_char c) \<le> 6" for c by (auto simp: escape_char_def codes_def numeral_2_eq_2)
  then have "length (concat (map escape_char s)) \<le> 6 * length s" by (induction s) (auto simp: add_mono)
  then show ?thesis by (simp add: dump_str_def)
qed


lemma run_contract_valid: "valid_contract_revision run_contract"
proof -
  have d: "length (concat (map escape_char (codes run_digest))) \<le> 400"
    using length_dump_str [of "codes run_digest"] run_digests(2) by (simp add: validate_digest_def codes_def dump_str_def)
  obtain j where j: "to_json (contract_dump run_contract) = Some j" "length (dumps_raw j) \<le> 4000"
  proof -
    define q where "q = codes run_digest"
    show ?thesis
      using that d unfolding q_def [symmetric]
      by (simp add: contract_dump_def run_contract_def sample_contract_def deliverable_dump_def deliverable_payload_def required_check_payload_def
          pobj_def pstr_def popt_def q_def [symmetric] dump_str_def)
        (simp add: codes_def escape_char_def show_int_def show_nat.simps)
  qed
  have "contract_size_ok run_contract"
    using length_utf8 [of "dumps_raw j"] j by (simp add: contract_size_ok_def MAX_CONTRACT_BYTES_def)
  moreover have "valid_repository ''acme/api''" "validate_relative_path ''main''" by code_simp+
  ultimately show ?thesis using run_digests
    by (simp add: valid_contract_revision_def opt_ok_def)
      (simp add: run_contract_def sample_contract_def in_len_def valid_deliverable_def valid_required_check_def valid_review_policy_def valid_key_def is_lower_def opt_ok_def)
qed


section \<open>The contract is set and a pull request bound\<close>

definition run_work :: "int \<Rightarrow> instant \<Rightarrow> workflow_row" where
  "run_work version now = (new_workflow run_contract sample_context 1 1)\<lparr>wf_row_version := version, wf_updated_at := now\<rparr>"

definition run_row :: binding_row where
  "run_row = \<lparr>bw_binding = sample_proposal, bw_repository_name = ''acme/api'', bw_active = True, bw_due_at = Some 3,
     bw_last_attempt_at = None, bw_last_success_at = None, bw_success_confirmation = None, bw_attempt_confirmation = None\<rparr>"

definition run_revision :: revision_row where
  "run_revision = \<lparr>rw_ticket_id = ''t1'', rw_revision = 1, rw_contract = run_contract, rw_content_digest = run_digest,
     rw_context_set_digest = sample_context\<rparr>"

definition run_bind_event :: event_row where
  "run_bind_event = \<lparr>ev_operation = ''bind_pr'', ev_actor_project = ''brain-v42'', ev_ticket_id = ''t1'', ev_key = ''b1'', ev_request_digest = ''d'',
     ev_result = BindingStored sample_proposal, ev_payload = [(''expected_revision'', 1), (''expected_workflow_version'', 1)]\<rparr>"

text \<open>The store of the run, with the rows that its steps change.\<close>

definition run_store ::
    "ticket \<Rightarrow> workflow_row \<Rightarrow> binding_row list \<Rightarrow> snapshot_row list \<Rightarrow> confirmation_row list \<Rightarrow> receipt_row list \<Rightarrow> event_row list \<Rightarrow> delivery_store" where
  "run_store t w bs sn cf rx es = \<lparr>ds_db = \<lparr>db_tickets = [t, second_ticket], db_messages = [], db_workflows = [w], db_bindings = bs\<rparr>,
     ds_revisions = [run_revision], ds_dependencies = [], ds_events = es, ds_snapshots = sn, ds_confirmations = cf, ds_receipts = rx,
     ds_entities = [], ds_attestations = [], ds_projects = [], ds_slots = [], ds_anchors = [], ds_slot_history = [], ds_sessions = []\<rparr>"

lemma run_store_fields [simp]:
  "ds_db (run_store t w bs sn cf rx es) = \<lparr>db_tickets = [t, second_ticket], db_messages = [], db_workflows = [w], db_bindings = bs\<rparr>"
  "ds_revisions (run_store t w bs sn cf rx es) = [run_revision]" "ds_dependencies (run_store t w bs sn cf rx es) = []"
  "ds_events (run_store t w bs sn cf rx es) = es" "ds_snapshots (run_store t w bs sn cf rx es) = sn"
  "ds_confirmations (run_store t w bs sn cf rx es) = cf" "ds_receipts (run_store t w bs sn cf rx es) = rx"
  "ds_slots (run_store t w bs sn cf rx es) = []" "store_workflows (run_store t w bs sn cf rx es) = [w]"
  "(run_store t w bs sn cf rx es)\<lparr>ds_receipts := rx'\<rparr> = run_store t w bs sn cf rx' es"
  "(run_store t w bs sn cf rx es)\<lparr>ds_snapshots := sn'\<rparr> = run_store t w bs sn' cf rx es"
  "(run_store t w bs sn cf rx es)\<lparr>ds_confirmations := cf'\<rparr> = run_store t w bs sn cf' rx es"
  by (simp_all add: run_store_def store_workflows_def)

lemma run_rows [simp]:
  "wf_ticket_id (run_work v n) = ''t1''" "wf_current_revision (run_work v n) = 1" "wf_attempt (run_work v n) = 1" "wf_row_version (run_work v n) = v"
  "wf_disposition (run_work v n) = DActive" "wf_claim_owner (run_work v n) = None" "wf_claim_expires_at (run_work v n) = None" "wf_claim_epoch (run_work v n) = 0"
  "wf_context_success_confirmation (run_work v n) = None" "wf_context_attempt_confirmation (run_work v n) = None"
  "rw_contract run_revision = run_contract" "rw_ticket_id run_revision = ''t1''" "rw_revision run_revision = 1"
  "tk_id sample_ticket = ''t1''" "tk_from_project sample_ticket = ''acme''" "tk_to_project sample_ticket = ''brain-v42''" "tk_status sample_ticket = SOpen"
  "tk_id second_ticket = ''t2''" "ab_id sample_proposal = ''n1''" "ab_ticket_id sample_proposal = ''t1''" "ab_contract_revision sample_proposal = 1"
  "ab_attempt sample_proposal = 1" "ab_deliverable_key sample_proposal = ''api''" "ab_repository_id sample_proposal = 7" "ab_pr_number sample_proposal = 12"
  "ab_binding_version sample_proposal = 1" "bw_binding run_row = sample_proposal" "bw_active run_row"
  by (simp_all add: run_work_def new_workflow_def run_revision_def sample_ticket_def new_ticket_def sample_data_def second_ticket_def sample_proposal_def run_row_def)

lemma run_set:
  "set_contract empty_store run_contract 0 ''acme'' ''k1'' ''d'' 1 1 =
     Inr (run_store sample_ticket (run_work 1 1) [] [] [] [] [set_event run_contract ''k1''], run_contract)"
proof -
  have "store_workflows empty_store = []" "ds_events empty_store = []" "ds_revisions empty_store = []"
    by (simp_all add: store_workflows_def empty_store_def)
  moreover have "validate_dependencies empty_store run_contract ''acme'' = Inr ()"
    by (simp add: validate_dependencies_def cycle_search.simps)
  moreover have "context_set_digest run_contract = Inr sample_context"
    using sample_contexts(1) by (simp add: context_set_digest_def context_documents_def) (simp add: sample_contract_def)
  moreover have "store_contract empty_store run_contract run_digest sample_context [new_workflow run_contract sample_context 1 1] (set_event run_contract ''k1'') =
      run_store sample_ticket (run_work 1 1) [] [] [] [] [set_event run_contract ''k1'']"
    by (simp add: store_contract_def empty_store_def run_store_def run_revision_def) (simp add: run_work_def new_workflow_def)
  ultimately show ?thesis
    by (simp add: set_contract_def event_replay_def find_row_def sample_tickets lift_store_def put_workflow_def get_workflow_def get_revision_def set_event_def)
qed

definition run_events :: "event_row list" where
  "run_events = [set_event run_contract ''k1'', run_bind_event]"

lemma run_lookups:
  "wf_ticket_id w = ''t1'' \<Longrightarrow> get_workflow [w] ''t1'' = Some w" "tk_id t = ''t1'' \<Longrightarrow> get_ticket [t, second_ticket] ''t1'' = Some t"
  "get_revision [run_revision] (''t1'', 1) = Some run_revision"
  by (simp_all add: get_workflow_def get_ticket_def get_revision_def find_row_def)

lemma run_deliverable:
  obtains d where "cr_deliverables sample_contract = [d]" "dl_key d = ''api''" "dl_repository_id d = Some 7" "dl_repository d = ''acme/api''" "dl_target_branch d = ''main''"
  by (simp add: sample_contract_def)

lemma run_bind:
  "bind_pr (run_store sample_ticket (run_work 1 1) [] [] [] [] [set_event run_contract ''k1'']) sample_proposal ''acme/api'' ''brain-v42'' 1 1 ''b1'' ''d'' ''n1'' 3 3 =
     Inr (run_store sample_ticket (run_work 2 3) [run_row] [] [] [] run_events, sample_proposal)"
proof -
  obtain d where d: "cr_deliverables sample_contract = [d]" "dl_key d = ''api''" "dl_repository_id d = Some 7" "dl_repository d = ''acme/api''"
    using run_deliverable by blast
  have "event_replay [set_event run_contract ''k1''] ''bind_pr'' ''brain-v42'' ''b1'' ''d'' = Inr None"
    by (simp add: event_replay_def find_row_def set_event_def)
  moreover have "bindable sample_ticket" by (simp add: bindable_def sample_ticket_def new_ticket_def sample_data_def)
  moreover have "proposed_binding (run_work 1 1) sample_proposal ''n1'' = sample_proposal"
    by (simp add: proposed_binding_def) (simp add: sample_proposal_def)
  moreover have "valid_artifact_binding sample_proposal"
    by (simp add: valid_artifact_binding_def sample_proposal_def in_len_def valid_key_def opt_ok_def is_lower_def)
  moreover have "bound_workflow 1 False 3 (run_work 1 1) = run_work 2 3" by (simp add: bound_workflow_def run_work_def)
  then have "put_binding (run_store sample_ticket (run_work 1 1) [] [] [] [] [set_event run_contract ''k1'']) sample_proposal ''acme/api'' 1 1 run_bind_event 3 3 =
      run_store sample_ticket (run_work 2 3) [run_row] [] [] [] run_events"
    by (simp add: put_binding_def find_row_def update_rows_def run_store_def store_workflows_def run_events_def run_row_def Let_def)
  ultimately show ?thesis by (simp add: bind_pr_def run_lookups d Let_def run_bind_event_def)
qed


section \<open>The observation\<close>

definition run_evidence_digest :: string where
  "run_evidence_digest = projr (canonical_digest (semantic_payload (\<lambda>_. ''t'') sample_evidence) Result)"

definition run_snapshot :: snapshot_row where
  "run_snapshot = \<lparr>sn_id = ''s1'', sn_subject = ArtifactSubject ''n1'', sn_semantic_digest = run_evidence_digest,
     sn_evidence = PullRequestSnapshot sample_evidence\<rparr>"

definition run_confirmation :: confirmation_row where
  "run_confirmation = \<lparr>cf_id = ''o1'', cf_subject = ArtifactSubject ''n1'', cf_snapshot_id = Some ''s1'', cf_collection_started_at = 8000000,
     cf_collection_finished_at = 9000000, cf_outcome = OutSuccess, cf_error_code = None\<rparr>"

definition run_binding :: artifact_binding where
  "run_binding = sample_proposal\<lparr>ab_state := BObserved, ab_head_sha := Some (sample_sha CHR ''a''), ab_base_sha := Some (sample_sha CHR ''b''),
     ab_integration_sha := Some (sample_sha CHR ''c''), ab_binding_version := 2\<rparr>"

definition run_observed :: binding_row where
  "run_observed = run_row\<lparr>bw_binding := run_binding, bw_last_attempt_at := Some 9000000, bw_last_success_at := Some 9000000,
     bw_success_confirmation := Some ''o1'', bw_attempt_confirmation := Some ''o1''\<rparr>"

definition run_item :: binding_evidence where
  "run_item = \<lparr>be_binding = run_binding, be_confirmation = Some \<lparr>oc_id = ''o1'', oc_evidence = Some sample_evidence,
       oc_collection_started_at = Aware 8000000, oc_collection_finished_at = Aware 9000000, oc_outcome = OutSuccess, oc_error_code = None\<rparr>,
     be_snapshot_id = Some ''s1'', be_success_confirmation_id = Some ''o1'', be_latest_attempt_confirmation_id = Some ''o1'',
     be_last_attempt_at = Some (Aware 9000000), be_last_success_at = Some (Aware 9000000), be_last_attempt_outcome = AttemptSuccess\<rparr>"

definition run_delivery :: string where
  "run_delivery = projr (delivery_digest run_digest 1 [run_item])"

lemma sample_evidence_valid: "valid_pull_request_evidence sample_evidence" "pe_complete sample_evidence"
  by (simp_all add: valid_pull_request_evidence_def sample_evidence_def in_len_def opt_ok_def validate_sha_def sample_sha_def is_hex_char_def
      valid_check_attempt_def valid_review_evidence_def list_all_iff)

lemma run_evidence_digests: "canonical_digest (semantic_payload (\<lambda>_. ''t'') sample_evidence) Result = Inr run_evidence_digest" "validate_digest run_evidence_digest"
proof -
  have "is_ok (canonical_digest (semantic_payload (\<lambda>_. ''t'') sample_evidence) Result)"
    by (simp add: canonical_digest_ok semantic_payload_def sample_evidence_def check_payload_def review_payload_def MAX_CANONICAL_JSON_DEPTH_def
        conclusion_text_def sample_sha_def nul_free_def)
  then show "canonical_digest (semantic_payload (\<lambda>_. ''t'') sample_evidence) Result = Inr run_evidence_digest"
    by (auto simp: run_evidence_digest_def is_ok_iff)
  then show "validate_digest run_evidence_digest" by (rule canonical_digest_Inr)
qed

lemma run_item_free: "nul_free_binding run_item"
  by (simp add: nul_free_binding_def run_item_def run_binding_def sample_proposal_def sample_evidence_def sample_sha_def nul_free_opt_def Let_def nul_free_def)

lemma run_deliveries: "delivery_digest run_digest 1 [run_item] = Inr run_delivery" "validate_digest run_delivery"
proof -
  have "is_ok (delivery_digest run_digest 1 [run_item])" by (rule delivery_digest_ok) (simp_all add: run_digests run_item_free)
  then show "delivery_digest run_digest 1 [run_item] = Inr run_delivery" by (auto simp: run_delivery_def is_ok_iff)
  then show "validate_digest run_delivery" by (auto simp: delivery_digest_def intro: canonical_digest_Inr)
qed

definition run_input :: "ticket \<Rightarrow> int \<Rightarrow> milestone_receipt option \<Rightarrow> milestone_receipt option \<Rightarrow> evaluation_input" where
  "run_input t v integration fulfilment =
     \<lparr>ei_contract = run_contract, ei_attempt = 1, ei_workflow_version = v, ei_coordination_status = status_text (tk_status t),
      ei_coordination_disposition = DActive, ei_is_self_ticket = False, ei_active_bindings = [run_item], ei_contexts = [], ei_dependencies = [],
      ei_integration_receipt = integration, ei_fulfillment_receipt = fulfilment, ei_feature_enabled = True, ei_freshness_seconds = 300,
      ei_claim = Some \<lparr>cs_epoch = 0, cs_owner = None, cs_expires_at = None\<rparr>, ei_requested_completion_action = None\<rparr>"

lemma run_input_fields [simp]:
  "ei_contract (run_input t v r f) = run_contract" "ei_integration_receipt (run_input t v r f) = r" "ei_fulfillment_receipt (run_input t v r f) = f"
  "ei_attempt (run_input t v r f) = 1"
  by (simp_all add: run_input_def)

definition run_published :: "ticket \<Rightarrow> int \<Rightarrow> instant \<Rightarrow> receipt_row list \<Rightarrow> delivery_store" where
  "run_published t v n rx = run_store t (run_work v n) [run_observed] [run_snapshot] [run_confirmation] rx run_events"

definition matching_in :: "receipt_row list \<Rightarrow> receipt_milestone \<Rightarrow> milestone_receipt option" where
  "matching_in rx m = map_option rx_payload (find_row (\<lambda>x. rx_milestone x = m) rx)"

definition run_receipts_ok :: "receipt_row list \<Rightarrow> bool" where
  "run_receipts_ok rx = list_all (\<lambda>x. receipt_row_of (rx_payload x) = x \<and> valid_milestone_receipt (rx_payload x) \<and> rx_ticket_id x = ''t1'' \<and>
     rx_revision x = 1 \<and> rx_attempt x = 1 \<and> mr_contract_digest (rx_payload x) = run_digest \<and> rx_delivery_digest x = run_delivery) rx"

lemma run_matching:
  assumes "run_receipts_ok rx"
  shows "matching_receipt (run_published t v n rx) ''t1'' 1 1 m run_digest run_delivery = Inr (matching_in rx m)"
proof -
  have "find_row (\<lambda>x. rx_ticket_id x = ''t1'' \<and> rx_revision x = 1 \<and> rx_attempt x = 1 \<and> rx_milestone x = m \<and> rx_delivery_digest x = run_delivery) rx =
      find_row (\<lambda>x. rx_milestone x = m) rx"
    using assms unfolding find_row_def run_receipts_ok_def by (induction rx) auto
  moreover have "valid_milestone_receipt (rx_payload x) \<and> mr_id (rx_payload x) = rx_id x \<and> mr_ticket_id (rx_payload x) = ''t1'' \<and>
      mr_contract_revision (rx_payload x) = 1 \<and> mr_attempt (rx_payload x) = 1 \<and> mr_milestone (rx_payload x) = m \<and>
      mr_contract_digest (rx_payload x) = run_digest \<and> mr_delivery_digest (rx_payload x) = run_delivery \<and> mr_issued_at (rx_payload x) = rx_issued_at x \<and>
      ri_issuer_identity (fp_issuer (mr_proof (rx_payload x))) = rx_issuer x \<and> mr_acceptance_basis (rx_payload x) = rx_basis x"
    if "find_row (\<lambda>x. rx_milestone x = m) rx = Some x" for x
  proof -
    have x: "x \<in> set rx" "rx_milestone x = m" using find_row_Some [OF that] by simp_all
    then have "receipt_row_of (rx_payload x) = x" using assms by (simp add: run_receipts_ok_def list_all_iff)
    then obtain r where "x = receipt_row_of r" by metis
    with x assms show ?thesis by (auto simp: run_receipts_ok_def list_all_iff receipt_row_of_def)
  qed
  ultimately show ?thesis
    by (cases "find_row (\<lambda>x. rx_milestone x = m) rx") (simp_all add: matching_receipt_def matching_in_def run_published_def Let_def)
qed

lemma run_item_loaded: "binding_evidence_of (run_published t v n rx) run_observed = Inr run_item"
  using sample_evidence_valid
  by (simp add: binding_evidence_of_def success_proof_def get_confirmation_def find_row_def run_published_def run_observed_def run_confirmation_def
      run_snapshot_def observation_of_def attempt_outcome_of_def run_item_def Let_def)
    (simp add: valid_binding_evidence_def valid_artifact_binding_def run_binding_def sample_proposal_def in_len_def valid_key_def is_lower_def opt_ok_def
      validate_sha_def sample_sha_def is_hex_char_def list_all_iff valid_observation_confirmation_def interval_ok_def)


lemma run_loaded:
  assumes t: "tk_id t = ''t1''" "tk_from_project t = ''acme''" "tk_to_project t = ''brain-v42''" and "0 < v" and rx: "run_receipts_ok rx"
  shows "load_inputs (run_published t v n rx) ''t1'' True 300 = Inr (Some (run_input t v (matching_in rx IntegrationReceipt) (matching_in rx FulfilledReceipt)))"
proof -
  let ?st = "run_published t v n rx"
  have rows: "store_workflows ?st = [run_work v n]" "db_tickets (ds_db ?st) = [t, second_ticket]" "ds_revisions ?st = [run_revision]"
      "ds_dependencies ?st = []" "db_bindings (ds_db ?st) = [run_observed]"
    by (simp_all add: run_published_def)
  have active: "active_bindings ?st ''t1'' 1 1 = [run_observed]"
    unfolding active_bindings_def rows by (simp add: run_observed_def run_binding_def)
  have gen: "load_generation ?st ''t1'' 1 1 run_digest = Inr ([run_item], run_delivery)"
    by (simp add: load_generation_def active run_item_loaded run_deliveries lift_store_def)
  have payload: "opt_ok valid_milestone_receipt (matching_in rx m)" for m
    using rx by (cases "find_row (\<lambda>x. rx_milestone x = m) rx")
      (auto simp: matching_in_def opt_ok_def run_receipts_ok_def list_all_iff dest!: find_row_Some)
  have item: "valid_binding_evidence run_item"
    using run_item_loaded [of t v n rx] by (auto simp: binding_evidence_of_def Let_def result_simps)
  have "valid_evaluation_input (run_input t v (matching_in rx IntegrationReceipt) (matching_in rx FulfilledReceipt))"
    using payload item \<open>0 < v\<close> run_contract_valid
    by (simp add: valid_evaluation_input_def run_input_def opt_ok_def valid_claim_state_def in_len_def) (cases "tk_status t"; simp add: status_text_def)
  then show ?thesis
    using t by (simp add: load_inputs_def rows run_lookups stored_contract_def run_contract_valid gen run_matching [OF rx] dependency_join_def
        context_predicates_def success_proof_def get_confirmation_def context_evidence_of_def run_input_def)
qed

section \<open>The assessment\<close>

lemma run_proved: "list_all (deliverable_proved (run_input t v r f)) (cr_deliverables run_contract)"
  by (simp add: deliverable_proved_def run_input_def run_item_def run_binding_def sample_proposal_def sample_defs binding_identifies_def evidence_proved_def
      check_proved_def select_check_def check_applies_to_evidence_def check_matches_def
      review_findings_Nil [symmetric, where key = "''api''"] review_findings_def effective_reviews_def
      decided_reviews_def countable_review_def dict_of_def)

definition run_action :: "completion_action option \<Rightarrow> evaluation_input \<Rightarrow> evaluation_input" where
  "run_action action i = i\<lparr>ei_requested_completion_action := action\<rparr>"

lemma run_requirements:
  assumes "tk_status t \<notin> {SWontfix, SClosed, SAcked}" and "tk_status t = SResolved \<longrightarrow> integrated"
    and "action = None \<or> action = Some CrossConfirm \<and> tk_status t = SResolved"
  shows "delivery_requirements (run_action action (run_input t v r f)) 10000000 integrated"
proof -
  let ?i = "run_action action (run_input t v r f)"
  have c: "ei_contract ?i = run_contract" by (simp add: run_action_def run_input_def)
  have "deliverable_proved (run_action action i) = deliverable_proved i" for i
    by (simp add: fun_eq_iff deliverable_proved_def run_action_def binding_identifies_def)
  with run_proved [of t v r f] have "list_all (deliverable_proved ?i) (cr_deliverables (ei_contract ?i))" unfolding c by metis
  moreover have "observations_fresh ?i 10000000" "contexts_proved ?i" "dependencies_proved ?i"
    by (simp_all add: run_action_def observations_fresh_def required_documents_def binding_fresh_def within_freshness_def contexts_proved_def
        dependencies_proved_def run_input_def run_item_def)
  moreover have "completion_action_valid ?i" "ei_coordination_status ?i \<notin> {''wontfix'', ''closed'', ''acked''}" "ei_coordination_status ?i = ''resolved'' \<longrightarrow> integrated"
    using assms by (cases "tk_status t"; auto simp: completion_action_valid_def run_action_def run_input_def status_text_def)+
  moreover have "ei_feature_enabled ?i" "ei_coordination_disposition ?i = DActive" by (simp_all add: run_action_def run_input_def)
  ultimately show ?thesis unfolding delivery_requirements_def by blast
qed

lemma run_evaluated:
  assumes "\<And>x. r = Some x \<Longrightarrow> nul_free (mr_id x)" and "\<And>x. f = Some x \<Longrightarrow> nul_free (mr_id x)"
  obtains a where "evaluate_delivery (\<lambda>t. t) (run_action action (run_input t v r f)) (Aware 10000000) = Inr a" "as_delivery_digest a = run_delivery"
    "as_assessed_at a = 10000000" "validate_digest (as_assessment_id a)"
proof -
  have "nul_free_input (run_action action (run_input t v r f))"
    using run_item_free run_digests(3) assms
    by (cases "tk_status t"; cases r; cases f) (simp_all add: nul_free_input_def run_action_def run_input_def nul_free_opt_def status_text_def nul_free_def)
  then have "\<exists>a. evaluate_delivery (\<lambda>t. t) (run_action action (run_input t v r f)) (Aware 10000000) = Inr a"
    by (rule evaluate_delivery_returns) (auto simp: run_action_def run_input_def)
  then obtain a where a: "evaluate_delivery (\<lambda>t. t) (run_action action (run_input t v r f)) (Aware 10000000) = Inr a" by blast
  from a show ?thesis
  proof (cases rule: evaluate_delivery_elim)
    case (1 now cfs active)
    have "as_delivery_digest a = run_delivery"
      using 1(2) by (simp add: input_delivery_digest_def run_action_def run_input_def lift_canonical_Inr run_deliveries)
    with a 1(1,5) canonical_digest_Inr [OF 1(15)] show ?thesis by (intro that) simp_all
  qed
qed

lemma run_satisfied:
  assumes "evaluate_delivery (\<lambda>t. t) (run_action action (run_input t v r f)) (Aware 10000000) = Inr a" and "as_assessed_at a = 10000000"
    and "tk_status t \<notin> {SWontfix, SClosed, SAcked}" and "tk_status t = SResolved \<longrightarrow> has_integration (run_action action (run_input t v r f)) a"
    and "action = None \<or> action = Some CrossConfirm \<and> tk_status t = SResolved"
  shows "as_requirements_satisfied a"
  using satisfied_iff [OF assms(1)] run_requirements [OF assms(3-5), of v r f] assms(2)
  by (simp add: run_action_def run_input_def) (simp add: sample_contract_def)


lemma run_eligible:
  assumes "evaluate_delivery (\<lambda>t. t) (run_input t v r f) (Aware 10000000) = Inr a" and "as_requirements_satisfied a"
  shows "as_integration_receipt_eligible a"
  using assms(1)
proof (cases rule: evaluate_delivery_elim)
  case (1 now cfs active)
  let ?i = "run_input t v r f"
  have c: "ei_contract ?i = run_contract" "ei_active_bindings ?i = [run_item]" by (simp_all add: run_input_def)
  have keys: "distinct (map dl_key (cr_deliverables (ei_contract ?i)))" by (simp add: c) (simp add: sample_contract_def)
  have proved: "list_all (deliverable_proved ?i) (cr_deliverables (ei_contract ?i))" using run_proved by (simp add: c)
  have "stage_of ?i [] = StageIntegrated"
    by (rule satisfied_stage [OF keys proved]) (simp_all add: c, simp_all add: sample_contract_def run_item_def run_binding_def)
  moreover have "deliverable_findings ?i = []" using deliverable_findings_Nil [OF keys] proved by simp
  ultimately show ?thesis using 1(9,11) assms(2) by simp
qed

section \<open>Receipts\<close>

definition run_artifact :: frozen_artifact_proof where
  "run_artifact = \<lparr>fa_binding_id = ''n1'', fa_binding_version = 2, fa_deliverable_key = ''api'', fa_repository_id = 7, fa_pr_number = 12,
     fa_head_sha = sample_sha CHR ''a'', fa_base_sha = sample_sha CHR ''b'', fa_integration_sha = Some (sample_sha CHR ''c''),
     fa_integration_revision = None, fa_snapshot_id = ''s1'', fa_snapshot_digest = run_evidence_digest, fa_success_confirmation_id = ''o1'',
     fa_latest_attempt_confirmation_id = ''o1'', fa_collection_started_at = 8000000, fa_collection_finished_at = 9000000\<rparr>"

definition run_receipt ::
    "receipt_milestone \<Rightarrow> int \<Rightarrow> string \<Rightarrow> acceptance_mode option \<Rightarrow> receipt_issuer \<Rightarrow> explicit_acceptance_decision option \<Rightarrow> uuid \<Rightarrow> milestone_receipt" where
  "run_receipt m v assessment basis issuer explicit i =
     \<lparr>mr_id = i, mr_ticket_id = ''t1'', mr_milestone = m, mr_contract_revision = 1, mr_attempt = 1, mr_contract_digest = run_digest,
      mr_delivery_digest = run_delivery, mr_issued_at = 10000000, mr_acceptance_basis = basis, mr_explicit_acceptance = explicit,
      mr_proof = \<lparr>fp_ticket_id = ''t1'', fp_contract_revision = 1, fp_contract_digest = run_digest, fp_attempt = 1, fp_workflow_version = v,
        fp_delivery_digest = run_delivery, fp_assessment_id = assessment, fp_decision_time = 10000000, fp_artifact_proofs = [run_artifact],
        fp_brain_context_proofs = [], fp_repository_context_proofs = [], fp_upstream_receipt_ids = [], fp_issuer = issuer,
        fp_acceptance_basis = basis, fp_explicit_acceptance = explicit\<rparr>\<rparr>"

definition run_observer :: receipt_issuer where
  "run_observer = \<lparr>ri_issuer_project = ''brain-v42'', ri_issuer_identity = ''observer'', ri_issuer_kind = Observer\<rparr>"

definition run_requester :: receipt_issuer where
  "run_requester = \<lparr>ri_issuer_project = ''acme'', ri_issuer_identity = ''lead'', ri_issuer_kind = Requester\<rparr>"

definition run_decision :: explicit_acceptance_decision where
  "run_decision = \<lparr>ea_requester_project = ''acme'', ea_rationale = ''reviewed''\<rparr>"

definition run_integration :: "int \<Rightarrow> string \<Rightarrow> milestone_receipt" where
  "run_integration v assessment = run_receipt IntegrationReceipt v assessment None run_observer None ''r1''"

definition run_fulfilment :: "int \<Rightarrow> string \<Rightarrow> milestone_receipt" where
  "run_fulfilment v assessment = run_receipt FulfilledReceipt v assessment (Some Explicit) run_requester (Some run_decision) ''r2''"

lemma run_artifact_valid: "valid_frozen_artifact_proof run_artifact"
  using run_evidence_digests(2)
  by (simp add: valid_frozen_artifact_proof_def run_artifact_def in_len_def validate_sha_def sample_sha_def is_hex_char_def list_all_iff opt_ok_def)

lemma run_receipts_valid:
  assumes "0 < v" and "validate_digest assessment"
  shows "valid_milestone_receipt (run_integration v assessment)" "valid_milestone_receipt (run_fulfilment v assessment)"
  using assms run_artifact_valid run_digests(2) run_deliveries(2)
  by (simp_all add: valid_milestone_receipt_def run_integration_def run_fulfilment_def run_receipt_def valid_frozen_receipt_proof_def valid_receipt_basis_def
      complete_frozen_identity_def run_observer_def run_requester_def run_decision_def in_len_def opt_ok_def valid_explicit_acceptance_def Let_def
      strip_def lstrip_def rstrip_def is_space_def)
    (simp_all add: run_artifact_def)

lemma run_frozen:
  assumes "0 < v" and "validate_digest assessment" and "mr_proof r = p"
    and "r = run_integration v assessment \<and> (basis, issuer, explicit) = (None, run_observer, None) \<or>
      r = run_fulfilment v assessment \<and> (basis, issuer, explicit) = (Some Explicit, run_requester, Some run_decision)"
  shows "frozen_receipt_proof_of (run_published t w n rx) (run_input t v i f) assessment run_delivery 10000000 basis issuer explicit = Inr p"
proof -
  have artifact: "frozen_artifact (run_published t w n rx) run_item = Inr run_artifact"
    using run_artifact_valid
    by (simp add: frozen_artifact_def run_item_def snapshot_digest_def find_row_def run_published_def run_snapshot_def run_artifact_def
        run_binding_def sample_evidence_def Let_def)
  have "valid_frozen_receipt_proof p"
    using run_receipts_valid [OF assms(1,2)] assms(3,4) by (auto simp: valid_milestone_receipt_def)
  then show ?thesis using assms(3,4) artifact
    by (auto simp: frozen_receipt_proof_of_def run_input_def run_integration_def run_fulfilment_def run_receipt_def upstream_receipts_def
        map_filter_simps Let_def)
qed

lemma run_receipt_of:
  assumes "0 < v" and "validate_digest assessment"
  shows "receipt_of (run_input t v i f) (mr_proof (run_integration v assessment)) IntegrationReceipt run_delivery 10000000 None None ''r1'' = Inr (run_integration v assessment)"
    "receipt_of (run_input t v i f) (mr_proof (run_fulfilment v assessment)) FulfilledReceipt run_delivery 10000000 (Some Explicit) (Some run_decision) ''r2'' = Inr (run_fulfilment v assessment)"
  using run_receipts_valid [OF assms] by (simp_all add: receipt_of_def run_input_def run_integration_def run_fulfilment_def run_receipt_def Let_def)

lemma run_insert:
  assumes "mr_id r \<notin> rx_id ` set rx" and "receipt_key (receipt_row_of r) \<notin> receipt_key ` set rx"
  shows "insert_receipt (run_published t v n rx) r pg_now = Inr (run_published t v n (rx @ [receipt_row_of r]))"
proof -
  have "close_slots_satisfied_by (run_published t v n rx) ids k pg_now = Inr (run_published t v n rx, [])" for rx ids k
    by (simp add: close_slots_satisfied_by_def slot_candidates_def run_published_def)
  moreover have "(run_published t v n rx)\<lparr>ds_receipts := ds_receipts (run_published t v n rx) @ [receipt_row_of r]\<rparr> = run_published t v n (rx @ [receipt_row_of r])"
    "ds_receipts (run_published t v n rx) = rx"
    by (simp_all add: run_published_def)
  moreover have "rx_id (receipt_row_of r) = mr_id r" by (simp add: receipt_row_of_def)
  ultimately show ?thesis using assms by (simp add: insert_receipt_def Let_def)
qed

definition run_assessment :: string where
  "run_assessment = as_assessment_id (projr (evaluate_delivery (\<lambda>t. t) (run_input sample_ticket 3 None None) (Aware 10000000)))"

definition run_receipt_row :: receipt_row where
  "run_receipt_row = receipt_row_of (run_integration 3 run_assessment)"

lemma run_action_None [simp]: "run_action None (run_input t v r f) = run_input t v r f"
  by (simp add: run_action_def run_input_def)

lemma run_issued:
  "issue_under_scope (\<lambda>t. t) (Some (300, run_observer)) (run_published sample_ticket 3 10000000 []) ''t1'' (''r1'', ''r2'') 10000000 10000000 =
     Inr (run_published sample_ticket 3 10000000 [run_receipt_row], Some (run_integration 3 run_assessment))" "validate_digest run_assessment"
proof -
  obtain a where a: "evaluate_delivery (\<lambda>t. t) (run_input sample_ticket 3 None None) (Aware 10000000) = Inr a" "as_delivery_digest a = run_delivery"
    "as_assessed_at a = 10000000" "validate_digest (as_assessment_id a)"
    using run_evaluated [of None None None sample_ticket 3] by auto
  then have id: "as_assessment_id a = run_assessment" by (simp add: run_assessment_def)
  with a(4) show "validate_digest run_assessment" by simp
  have "as_requirements_satisfied a" by (rule run_satisfied [of None sample_ticket 3 None None]) (use a in simp_all)
  with run_eligible [OF a(1)] have eligible: "as_integration_receipt_eligible a" by simp
  have "load_inputs (run_published sample_ticket 3 10000000 []) ''t1'' True 300 = Inr (Some (run_input sample_ticket 3 None None))"
    using run_loaded [of sample_ticket 3 "[]" 10000000] by (simp add: run_receipts_ok_def matching_in_def find_row_def)
  moreover have "frozen_receipt_proof_of (run_published sample_ticket 3 10000000 []) (run_input sample_ticket 3 None None) run_assessment run_delivery 10000000 None run_observer None =
      Inr (mr_proof (run_integration 3 run_assessment))"
    by (rule run_frozen) (use a(4) id in simp_all)
  moreover have "insert_receipt (run_published sample_ticket 3 10000000 []) (run_integration 3 run_assessment) 10000000 =
      Inr (run_published sample_ticket 3 10000000 [run_receipt_row])"
    by (simp add: run_insert run_receipt_row_def)
  ultimately show "issue_under_scope (\<lambda>t. t) (Some (300, run_observer)) (run_published sample_ticket 3 10000000 []) ''t1'' (''r1'', ''r2'') 10000000 10000000 =
     Inr (run_published sample_ticket 3 10000000 [run_receipt_row], Some (run_integration 3 run_assessment))"
    using a eligible id run_receipt_of(1) [of 3 run_assessment sample_ticket None None] by (simp add: issue_under_scope_def lift_evidence_def)
qed


lemma run_observe:
  "\<exists>c. publish_observation (\<lambda>t. t) (\<lambda>_. ''t'') (Some (300, run_observer)) (run_store sample_ticket (run_work 2 3) [run_row] [] [] [] run_events) ''n1'' 1
     sample_evidence (Aware 8000000) (Aware 9000000) \<lparr>id_snapshot = ''s1'', id_confirmation = ''o1'', id_receipts = (''r1'', ''r2'')\<rparr> 10000000 10000000 =
     Inr (run_published sample_ticket 3 10000000 [run_receipt_row], c)"
proof -
  let ?st = "run_store sample_ticket (run_work 2 3) [run_row] [] [] [] run_events"
  obtain d where d: "cr_deliverables sample_contract = [d]" "dl_key d = ''api''" "dl_target_branch d = ''main''" using run_deliverable by blast
  have "lock_decision_scope ?st ''t1'' = Inr sample_ticket"
    by (simp add: lock_decision_scope_def run_lookups run_contract_valid)
  then have "lock_current_subject ?st ''n1'' 1 = Inr (run_row, run_work 2 3, sample_ticket)"
    by (simp add: lock_current_subject_def get_binding_def find_row_def scope_or_def run_lookups EVIDENCE_TERMINAL_def)
  moreover have "validate_subject ?st sample_proposal sample_evidence = Inr ()"
    by (simp add: validate_subject_def target_branch_def run_lookups d) (simp add: sample_evidence_def)
  moreover have "put_snapshot ?st (ArtifactSubject ''n1'') run_evidence_digest (PullRequestSnapshot sample_evidence) ''s1'' =
      Inr (run_store sample_ticket (run_work 2 3) [run_row] [run_snapshot] [] [] run_events, ''s1'')"
    by (simp add: put_snapshot_def find_row_def run_snapshot_def)
  moreover have "put_confirmation (run_store sample_ticket (run_work 2 3) [run_row] [run_snapshot] [] [] run_events)
      \<lparr>cf_id = ''o1'', cf_subject = ArtifactSubject ''n1'', cf_snapshot_id = Some ''s1'', cf_collection_started_at = 8000000,
       cf_collection_finished_at = 9000000, cf_outcome = OutSuccess, cf_error_code = None\<rparr> =
      Inr (run_store sample_ticket (run_work 2 3) [run_row] [run_snapshot] [run_confirmation] [] run_events)"
    by (simp add: put_confirmation_def run_confirmation_def)
  moreover have "advance_subject (run_store sample_ticket (run_work 2 3) [run_row] [run_snapshot] [run_confirmation] [] run_events) run_row (run_work 2 3) ''o1''
      9000000 (Some sample_evidence) 10000000 = run_published sample_ticket 3 10000000 []"
    by (simp add: advance_subject_def update_rows_def Let_def run_published_def)
      (simp add: run_store_def run_work_def observed_row_def run_observed_def run_binding_def sample_evidence_def Let_def)
  ultimately show ?thesis
    using sample_evidence_valid run_evidence_digests(1) run_issued(1)
    by (simp add: publish_observation_def validated_artifact_success_def interval_ok_def lift_evidence_def lift_store_def Let_def)
qed

lemma run_reachable:
  "reachable store_start (delivery_step (\<lambda>t. t) (\<lambda>_. ''t'') f 300) (run_store sample_ticket (run_work 2 3) [run_row] [] [] [] run_events)"
  "delivery_step (\<lambda>t. t) (\<lambda>_. ''t'') f 300 (run_store sample_ticket (run_work 2 3) [run_row] [] [] [] run_events)
     (run_published sample_ticket 3 10000000 [run_receipt_row])"
  "reachable store_start (delivery_step (\<lambda>t. t) (\<lambda>_. ''t'') f 300) (run_published sample_ticket 3 10000000 [run_receipt_row])"
proof -
  let ?step = "delivery_step (\<lambda>t. t) (\<lambda>_. ''t'') f 300"
  have "reachable store_start ?step empty_store" by (rule reachable_start) (simp add: store_start_def empty_store_def)
  from reachable_step [OF this delivery_step.stored [OF store_step.contract_set [OF run_set]]]
  have "reachable store_start ?step (run_store sample_ticket (run_work 1 1) [] [] [] [] [set_event run_contract ''k1''])" .
  from reachable_step [OF this delivery_step.stored [OF store_step.pr_bound [OF run_bind]]]
  show r: "reachable store_start ?step (run_store sample_ticket (run_work 2 3) [run_row] [] [] [] run_events)" .
  have "configured 300 (Some (300, run_observer))" by (simp add: configured_def opt_ok_def)
  with run_observe show s: "?step (run_store sample_ticket (run_work 2 3) [run_row] [] [] [] run_events) (run_published sample_ticket 3 10000000 [run_receipt_row])"
    by (auto intro: delivery_step.observed)
  from reachable_step [OF r s] show "reachable store_start ?step (run_published sample_ticket 3 10000000 [run_receipt_row])" .
qed


section \<open>The closure\<close>

definition run_fulfilment_row :: receipt_row where
  "run_fulfilment_row = receipt_row_of (run_fulfilment 3 run_assessment)"

definition run_resolved :: ticket where
  "run_resolved = sample_ticket\<lparr>tk_status := SResolved, tk_resolved_at := Some 5\<rparr>"

definition run_accepted :: delivery_store where
  "run_accepted = run_published run_resolved 3 10000000 [run_receipt_row, run_fulfilment_row]"

definition run_confirm :: transition_request where
  "run_confirm = \<lparr>tr_ticket_id = ''t1'', tr_action = Some AConfirm, tr_actor = Some ''acme'', tr_expected = SResolved, tr_new_status = SClosed,
     tr_resolved_at = Some 5, tr_closed_at = Some 9, tr_extraction = Some XPending, tr_message = None\<rparr>"

lemma run_resolved_fields [simp]:
  "tk_id run_resolved = ''t1''" "tk_from_project run_resolved = ''acme''" "tk_to_project run_resolved = ''brain-v42''" "tk_status run_resolved = SResolved"
  "tk_kind run_resolved = TicketRequest"
  using run_rows(14-16) by (simp_all add: run_resolved_def) (simp add: sample_ticket_def new_ticket_def sample_data_def)

lemma run_locked:
  "load_locked_decision_inputs run_accepted ''t1'' True 300 10000000 =
     Inr \<lparr>ld_ticket = run_resolved, ld_inputs = Some (run_input run_resolved 3 (Some (run_integration 3 run_assessment)) (Some (run_fulfilment 3 run_assessment))),
       ld_decision_time = 10000000\<rparr>"
proof -
  have "run_receipts_ok [run_receipt_row, run_fulfilment_row]"
    using run_receipts_valid [OF _ run_issued(2), of 3]
    by (simp add: run_receipts_ok_def run_receipt_row_def run_fulfilment_row_def receipt_row_of_def run_integration_def run_fulfilment_def run_receipt_def)
  moreover have "matching_in [run_receipt_row, run_fulfilment_row] IntegrationReceipt = Some (run_integration 3 run_assessment)"
    "matching_in [run_receipt_row, run_fulfilment_row] FulfilledReceipt = Some (run_fulfilment 3 run_assessment)"
    by (simp_all add: matching_in_def find_row_def run_receipt_row_def run_fulfilment_row_def receipt_row_of_def run_integration_def run_fulfilment_def run_receipt_def)
  ultimately have "load_inputs run_accepted ''t1'' True 300 =
      Inr (Some (run_input run_resolved 3 (Some (run_integration 3 run_assessment)) (Some (run_fulfilment 3 run_assessment))))"
    using run_loaded [of run_resolved 3 "[run_receipt_row, run_fulfilment_row]" 10000000] by (simp add: run_accepted_def)
  moreover have "lock_decision_scope run_accepted ''t1'' = Inr run_resolved"
    by (simp add: lock_decision_scope_def run_accepted_def run_published_def run_lookups run_contract_valid)
  ultimately show ?thesis by (simp add: load_locked_decision_inputs_def)
qed

lemma run_closed:
  "\<exists>db' t'. apply_transition (\<lambda>t. t) (ds_db run_accepted) (load_locked_decision_inputs run_accepted ''t1'' True 300 10000000) run_confirm 10000001 = Inr (db', t') \<and>
     map wf_disposition (db_workflows db') = [DFulfilled] \<and> map wf_ticket_id (db_workflows db') = [''t1'']"
proof -
  let ?r = "run_integration 3 run_assessment" and ?f = "run_fulfilment 3 run_assessment"
  let ?i = "run_action (Some CrossConfirm) (run_input run_resolved 3 (Some ?r) (Some ?f))"
  have "mr_id ?r = ''r1''" "mr_id ?f = ''r2''" by (simp_all add: run_integration_def run_fulfilment_def run_receipt_def)
  then have free: "nul_free (mr_id ?r)" "nul_free (mr_id ?f)" by (simp_all add: nul_free_def)
  obtain a where a: "evaluate_delivery (\<lambda>t. t) ?i (Aware 10000000) = Inr a" "as_assessed_at a = 10000000"
    by (rule run_evaluated [of "Some ?r" "Some ?f" "Some CrossConfirm" run_resolved 3]) (use free in auto)
  have current: "receipt_is_current ?i ?r" "receipt_is_current ?i ?f"
    by (simp_all add: receipt_is_current_def run_action_def run_input_def run_integration_def run_fulfilment_def run_receipt_def run_deliveries)
  have dg: "input_delivery_digest ?i = Inr (as_delivery_digest a)" using a(1) by (auto elim: evaluate_delivery_elim)
  have "has_integration ?i a"
    unfolding receipt_matches_current [OF dg] using current(1) by (simp add: run_action_def) (simp add: run_integration_def run_receipt_def)
  then have "as_requirements_satisfied a"
    by (intro run_satisfied [OF a]) simp_all
  moreover have "completion_action_valid ?i" by (simp add: completion_action_valid_def run_action_def run_input_def status_text_def)
  ultimately have eligible: "as_completion_eligible_now a"
    unfolding completion_iff [OF a(1)] using current(2) by (simp add: run_action_def) (simp add: run_fulfilment_def run_receipt_def)
  have "guard_delivery_transition (\<lambda>t. t) (load_locked_decision_inputs run_accepted ''t1'' True 300 10000000) run_confirm =
      Inr (Some \<lparr>dm_disposition = DFulfilled, dm_reopen = False\<rparr>)"
    using a(1) eligible
    by (simp add: guard_delivery_transition_def run_locked run_confirm_def rule_for_def is_self_ticket_def TRANSITIONS_def
        delivery_mutation_for_def completion_action_of_def run_action_def Let_def)
  then show ?thesis
    by (simp add: apply_transition_def run_confirm_def run_accepted_def run_published_def find_row_def update_rows_def apply_mutation_def mutate_workflow_def Let_def)
qed

end
