(* ===== verification/Delivery_System_Properties.thy ===== *)
theory Delivery_System_Properties
  imports Delivery_Run "HOL-Library.Multiset"
begin

text \<open>
  Properties of the delivery system: what closes a ticket as fulfilled, what backs a receipt, which facts
  stand under the identity of the observer, how the focus slots follow the receipts, and the pages of the
  attestation ledger.
\<close>

section \<open>Closure and receipts\<close>

text \<open>
  C2: A ticket transition decided on the inputs that the repository loads closes a contracted ticket as
  fulfilled only when the store backs it: every deliverable of the current contract has its one active
  binding with a stored snapshot of a merged pull request that proves it, collected within the freshness
  bound, every dependency has the stored receipt of its pinned generation, and a fulfilled receipt of the
  current generation is stored.
\<close>

theorem fulfilled_closure_is_backed_by_the_store:
  assumes "apply_transition tz (ds_db st) (load_locked_decision_inputs st (tr_ticket_id r) enabled freshness now) r pg_now = Inr (db', t')"
    and "distinct (map wf_ticket_id (store_workflows st))"
    and "get_workflow (store_workflows st) (tr_ticket_id r) = Some w" and "wf_disposition w \<noteq> DFulfilled"
    and "w' \<in> set (db_workflows db')" "wf_ticket_id w' = tr_ticket_id r" "wf_disposition w' = DFulfilled"
  shows "enabled \<and> tr_new_status r = SClosed \<and> wf_disposition w = DActive \<and>
    (\<exists>rv. get_revision (ds_revisions st) (tr_ticket_id r, wf_current_revision w) = Some rv \<and>
       (\<forall>d \<in> set (cr_deliverables (rw_contract rv)). deliverable_backed st w freshness now d) \<and>
       (\<forall>d \<in> set (cr_dependencies (rw_contract rv)). dependency_backed st d)) \<and>
    (\<exists>x \<in> set (ds_receipts st). rx_ticket_id x = tr_ticket_id r \<and> rx_revision x = wf_current_revision w \<and>
       rx_attempt x = wf_attempt w \<and> rx_milestone x = FulfilledReceipt)"
proof -
  have changed: "db_workflows db' \<noteq> db_workflows (ds_db st)"
  proof
    assume "db_workflows db' = db_workflows (ds_db st)"
    with assms(5,6) workflows.get_row_eqI [OF assms(2), of w'] assms(3) have "w' = w" by (simp add: store_workflows_def)
    with assms(4,7) show False by simp
  qed
  obtain locked inputs where l: "load_locked_decision_inputs st (tr_ticket_id r) enabled freshness now = Inr locked" "ld_inputs locked = Some inputs"
    using assms(1)
  proof (cases rule: apply_transition_Inr)
    case (1 t mutation)
    with changed have "mutation \<noteq> None" by auto
    with 1(1) that show ?thesis by (auto simp: guard_delivery_transition_def split: sum.splits option.splits if_splits)
  qed
  note loaded = load_locked_Inr [OF l(1)]
  from fulfilled_transition [OF assms(1) [unfolded l(1)] l(2) assms(5-7)] obtain act actor a where act: "tr_new_status r = SClosed"
      "act \<in> {AResolve, AResolvePending, AConfirm}" "rule_for (ld_ticket locked) act = Inr (actor, SClosed)"
      "evaluate_delivery tz (inputs\<lparr>ei_requested_completion_action := completion_action_of (is_self_ticket (ld_ticket locked)) act\<rparr>) (Aware now) = Inr a"
      "as_completion_eligible_now a"
    unfolding loaded(4) by blast
  from completion_iff [OF act(4)] act(5) closing_action [OF act(3,2)] obtain rc where rc: "as_requirements_satisfied a" "ei_fulfillment_receipt inputs = Some rc"
    by auto
  from loaded_requirements_backed [OF loaded(3) [unfolded l(2)] assms(3) act(4) rc(1)]
    loaded_fulfilment_stored [OF loaded(3) [unfolded l(2)] assms(3) rc(2)] act(1)
  show ?thesis by blast
qed

theorem fulfilled_closure_is_backed_by_the_store_witness:
  "\<exists>x \<in> set (ds_receipts run_accepted). rx_ticket_id x = ''t1'' \<and> rx_revision x = 1 \<and> rx_milestone x = FulfilledReceipt"
proof -
  obtain db' t' where c: "apply_transition (\<lambda>t. t) (ds_db run_accepted) (load_locked_decision_inputs run_accepted ''t1'' True 300 10000000) run_confirm 10000001 = Inr (db', t')"
      "map wf_disposition (db_workflows db') = [DFulfilled]" "map wf_ticket_id (db_workflows db') = [''t1'']"
    using run_closed by (elim exE conjE)
  then obtain w' where w': "w' \<in> set (db_workflows db')" "wf_ticket_id w' = ''t1''" "wf_disposition w' = DFulfilled" by (cases "db_workflows db'") auto
  have st: "store_workflows run_accepted = [run_work 3 10000000]" by (simp add: run_accepted_def run_published_def)
  have id: "tr_ticket_id run_confirm = ''t1''" by (simp add: run_confirm_def)
  show ?thesis
    using fulfilled_closure_is_backed_by_the_store [of "\<lambda>t. t" run_accepted run_confirm True 300 10000000 10000001 db' t' "run_work 3 10000000" w'] c(1) w'
    unfolding id st by (simp add: run_lookups) blast
qed

text \<open>
  C3: Receipts are never changed or removed, and whatever step writes one (a publication, the issue of an
  integration receipt, an acceptance), the receipt is of the current generation and the store then backs
  it: every deliverable of that contract revision has its active binding with the stored snapshot of a
  merged pull request that proves it, collected within the freshness bound before the receipt's issue, and
  every dependency has the receipt of its pinned generation. A fulfilled receipt stands on the integration
  receipt of the same delivery digest, under the acceptance mode of the contract, and an explicit one names
  the ticket's requester.
\<close>

theorem receipts_are_backed:
  assumes "reachable store_start (delivery_step tz render fromisoformat freshness) st"
    and "delivery_step tz render fromisoformat freshness st st'"
  shows "\<exists>new. ds_receipts st' = ds_receipts st @ new \<and> (\<forall>x \<in> set new. receipt_backed st' freshness x)"
  using delivery_step_appends [OF delivery_system.inv_reachable [OF assms(1)] assms(2)] by (simp add: appended_def)

theorem receipts_are_backed_witness:
  "receipt_backed (run_published sample_ticket 3 10000000 [run_receipt_row]) 300 run_receipt_row"
  using receipts_are_backed [OF run_reachable(1,2)] by (simp add: run_published_def)

text \<open>
  C5: In every reachable store an idempotency key names one fact per ticket and issuer project, and a fact
  under the identity of the delivery observer is a release or a deployment that the observer measured for
  one of its candidates, on the candidate's ticket and revision: a caller cannot declare one.
\<close>

theorem observer_facts_are_measured:
  assumes "reachable store_start (delivery_step tz render fromisoformat freshness) st"
  shows "distinct (map at_id (ds_attestations st)) \<and> distinct (map attestation_key (ds_attestations st)) \<and>
    (\<forall>a \<in> set (ds_attestations st). valid_attestation a \<and> (at_issuer_identity a = OBSERVER_IDENTITY \<longrightarrow> fact_measured a))"
  using assms
proof (induction rule: reachable.induct)
  case (reachable_start st)
  then show ?case by (simp add: store_start_def)
next
  case (reachable_step st st')
  from delivery_step_appends [OF delivery_system.inv_reachable [OF reachable_step(1)] reachable_step(2)] obtain new where
    new: "ds_attestations st' = ds_attestations st @ new" "length new \<le> 1" "\<forall>a \<in> set new. at_id a \<notin> at_id ` set (ds_attestations st) \<and>
      attestation_key a \<notin> attestation_key ` set (ds_attestations st) \<and> valid_attestation a \<and> (at_issuer_identity a = OBSERVER_IDENTITY \<longrightarrow> fact_measured a)"
    by (auto simp: appended_def facts_appended_def)
  from new(2) consider "new = []" | a where "new = [a]" by (cases new) auto
  then show ?case by cases (use new(1,3) reachable_step(3) in auto)
qed

definition run_candidate :: release_candidate where
  "run_candidate = \<lparr>rc_ticket_id = ''t1'', rc_to_project = ''brain-v42'', rc_contract_revision = 1, rc_deliverable_key = ''api'', rc_repository_id = 7,
     rc_integration_sha = sample_sha CHR ''c''\<rparr>"

lemma run_candidate_fields [simp]:
  "rc_ticket_id run_candidate = ''t1''" "rc_to_project run_candidate = ''brain-v42''" "rc_contract_revision run_candidate = 1"
  "rc_deliverable_key run_candidate = ''api''" "rc_repository_id run_candidate = 7" "rc_integration_sha run_candidate = sample_sha CHR ''c''"
  by (simp_all add: run_candidate_def)

lemma run_release:
  "\<exists>st' a. record_released f (run_published sample_ticket 3 10000000 [run_receipt_row]) run_candidate ''v1.0.0'' (sample_sha CHR ''e'') (Aware 10000000) ''a1'' 10000002 =
     Inr st' \<and> ds_attestations st' = [a] \<and> at_issuer_identity a = OBSERVER_IDENTITY"
proof -
  let ?st = "run_published sample_ticket 3 10000000 [run_receipt_row]" and ?payload = "release_payload run_candidate ''v1.0.0'' (sample_sha CHR ''e'')"
  have q: "length (concat (map (escape_char \<circ> of_char) (sample_sha c))) \<le> 240" for c
    using length_dump_str [of "codes (sample_sha c)"] by (simp add: dump_str_def codes_def sample_sha_def)
  obtain j where j: "to_json ?payload = Some j" "length (dumps j) \<le> 2000"
    using q [of "CHR ''c''"] q [of "CHR ''e''"]
    by (simp add: release_payload_def run_candidate_def pobj_def pstr_def dumps_def dump_str_def codes_def)
      (simp add: escape_char_def show_int_def show_nat.simps codes_def)
  have canonical: "canonical_at 0 ?payload"
    by (simp add: release_payload_def run_candidate_def sample_sha_def nul_free_def MAX_CANONICAL_JSON_DEPTH_def)
  have checked: "reject_invalid_json_value ?payload = None" using canonical reject_loop_iff [of "[(?payload, 0)]"] by (simp add: reject_invalid_json_value_def)
  obtain kvs where map: "?payload = PMap kvs" by (simp add: release_payload_def pobj_def)
  have payload: "is_ok (canonical_attestation_payload ?payload)"
    using length_utf8 [of "dumps j"] j checked unfolding map by (simp add: canonical_attestation_payload_def MAX_ATTESTATION_PAYLOAD_BYTES_def Let_def del: to_json.simps)
  have "is_ok (canonical_digest ?payload Attestation)" using canonical by (simp add: canonical_digest_ok)
  then obtain digest where digest: "canonical_digest ?payload Attestation = Inr digest" "validate_digest digest"
    using canonical_digest_Inr by (auto simp: is_ok_iff)
  define a where "a = \<lparr>at_id = ''a1'', at_ticket_id = ''t1'', at_contract_revision = Some 1, at_kind = ''released'', at_payload = ?payload, at_digest = digest,
     at_issuer_project = ''brain-v42'', at_issuer_identity = OBSERVER_IDENTITY, at_idempotency_key = ''released:t1:api:v1.0.0'',
     at_emitted_at = 10000000, at_recorded_at = 10000002\<rparr>"
  have valid: "valid_attestation a"
    using payload digest(2) by (simp add: valid_attestation_def a_def opt_ok_def in_len_def attestation_kind_ok_def is_lower_def OBSERVER_IDENTITY_def)
  have rows: "db_tickets (ds_db ?st) = [sample_ticket, second_ticket]" "store_workflows ?st = [run_work 3 10000000]" "ds_revisions ?st = [run_revision]"
      "ds_attestations ?st = []" "db_bindings (ds_db ?st) = [run_observed]" "ds_slots ?st = []"
    by (simp_all add: run_published_def) (simp add: run_store_def)
  have current: "candidate_is_current ?st run_candidate"
    by (simp add: candidate_is_current_def current_binding_def current_generation_def rows)
      (simp add: run_observed_def run_binding_def)
  have "attest f ?st ''t1'' (release_call run_candidate ''v1.0.0'' (sample_sha CHR ''e'') (Aware 10000000)) ''a1'' 10000002 =
      Inr (?st\<lparr>ds_attestations := [a]\<rparr>, a)"
    using payload digest(1) valid
    by (simp add: attest_def validate_attestation_form_def release_call_def rows run_lookups find_row_def parse_instant_def opt_ok_def
        attestation_kind_ok_def is_lower_def MAX_CONTRACT_REVISION_def Let_def a_def [symmetric])
  then have "record_released f ?st run_candidate ''v1.0.0'' (sample_sha CHR ''e'') (Aware 10000000) ''a1'' 10000002 = Inr (?st\<lparr>ds_attestations := [a]\<rparr>)"
    using current by (simp add: record_released_def close_slots_satisfied_by_def slot_candidates_def rows)
  then show ?thesis by (intro exI [of _ "?st\<lparr>ds_attestations := [a]\<rparr>"] exI [of _ a]) (simp add: a_def)
qed

theorem observer_facts_are_measured_witness:
  "\<exists>st' a. reachable store_start (delivery_step (\<lambda>t. t) (\<lambda>_. ''t'') (\<lambda>_. None) 300) st' \<and> ds_attestations st' = [a] \<and> fact_measured a"
proof -
  obtain st' a where st': "record_released (\<lambda>_. None) (run_published sample_ticket 3 10000000 [run_receipt_row]) run_candidate ''v1.0.0'' (sample_sha CHR ''e'')
      (Aware 10000000) ''a1'' 10000002 = Inr st'" "ds_attestations st' = [a]" "at_issuer_identity a = OBSERVER_IDENTITY"
    using run_release [of "\<lambda>_. None"] by (elim exE conjE)
  from reachable_step [OF run_reachable(3) delivery_step.measured [OF st'(1)]]
  have r: "reachable store_start (delivery_step (\<lambda>t. t) (\<lambda>_. ''t'') (\<lambda>_. None) 300) st'" .
  with observer_facts_are_measured [OF r] st'(2,3) show ?thesis by simp blast
qed

section \<open>Focus slots\<close>

text \<open>
  C30: In every reachable store no open focus slot is satisfied by the receipts: no view shows a pending
  receipt. A write of a receipt or of a measured release closes the slots it satisfies in its own
  transaction, no other write can satisfy one, and none is opened satisfied.
\<close>

theorem receipts_close_their_slots:
  assumes "reachable store_start (delivery_step tz render fromisoformat freshness) st" and "s \<in> set (ds_slots st)"
  shows "\<not> sv_receipt_pending (slot_view_of st now s)"
  using system_okD(4) [OF delivery_system.inv_reachable [OF assms(1)]] assms(2) by (auto simp: slot_view_of_def slots_clear_def Let_def)

text \<open>
  C31: In every reachable store the history of a focus slot has exactly one row for each of its revisions,
  from 0 to the current one, and the row of the current revision holds the current body; a project has at
  most one open slot of a title.
\<close>

theorem slot_history_is_complete:
  assumes "reachable store_start (delivery_step tz render fromisoformat freshness) st" and "s \<in> set (ds_slots st)"
  shows "(\<forall>r. 0 \<le> r \<and> r \<le> sl_revision s \<longrightarrow> (\<exists>!h. h \<in> set (ds_slot_history st) \<and> history_key h = (sl_id s, r))) \<and>
    (\<forall>h \<in> set (ds_slot_history st). sh_slot_id h = sl_id s \<longrightarrow> 0 \<le> sh_revision h \<and> sh_revision h \<le> sl_revision s) \<and>
    (\<forall>h \<in> set (ds_slot_history st). history_key h = (sl_id s, sl_revision s) \<longrightarrow> sh_body h = sl_body s) \<and>
    (\<forall>t \<in> set (ds_slots st). sl_closed_at s = None \<and> sl_closed_at t = None \<and> sl_project_key t = sl_project_key s \<and> sl_title t = sl_title s \<longrightarrow> t = s)"
proof -
  note ok = slots_okD [OF system_okD(3) [OF delivery_system.inv_reachable [OF assms(1)]]]
  have one: "h = k" if "h \<in> set (ds_slot_history st)" "k \<in> set (ds_slot_history st)" "history_key h = history_key k" for h k
    using ok(2) that by (auto simp: distinct_map inj_on_def)
  have ids: "x = s" if "x \<in> set (ds_slots st)" "sl_id x = sl_id s" for x
    using ok(1) that assms(2) by (auto simp: distinct_map inj_on_def)
  have "\<exists>!h. h \<in> set (ds_slot_history st) \<and> history_key h = (sl_id s, r)" if "0 \<le> r" "r \<le> sl_revision s" for r
  proof -
    have "(sl_id s, r) \<in> history_key ` set (ds_slot_history st)" unfolding ok(5) using assms(2) that by blast
    then obtain h where "h \<in> set (ds_slot_history st)" "history_key h = (sl_id s, r)" by force
    then show ?thesis by (intro ex1I [of _ h]) (auto intro: one)
  qed
  moreover have "0 \<le> sh_revision h \<and> sh_revision h \<le> sl_revision s" if h: "h \<in> set (ds_slot_history st)" "sh_slot_id h = sl_id s" for h
  proof -
    have "(sl_id s, sh_revision h) \<in> history_key ` set (ds_slot_history st)" using h by (force simp: history_key_def)
    then show ?thesis unfolding ok(5) using ids by blast
  qed
  moreover have "sh_body h = sl_body s" if h: "h \<in> set (ds_slot_history st)" "history_key h = (sl_id s, sl_revision s)" for h
  proof -
    obtain k where "k \<in> set (ds_slot_history st)" "history_key k = (sl_id s, sl_revision s)" "sh_body k = sl_body s" using ok(4) [OF assms(2)] by blast
    with one [of h k] h show ?thesis by simp
  qed
  moreover have "t = s" if "t \<in> set (ds_slots st)" "sl_closed_at s = None" "sl_closed_at t = None" "sl_project_key t = sl_project_key s" "sl_title t = sl_title s" for t
    using ok(7) [of t s] that assms(2) by simp
  ultimately show ?thesis by blast
qed

definition slot_store :: delivery_store where
  "slot_store = empty_store\<lparr>ds_projects := [''brain-v42'']\<rparr>"

definition ticket_anchor :: slot_anchor where
  "ticket_anchor = \<lparr>sa_kind = AnchorTicket, sa_ticket_id = Some ''t1'', sa_target_release = None, sa_repository_id = None, sa_pr_number = None\<rparr>"

lemma sample_slot:
  obtains st s where "service_slot_open slot_store ''brain-v42'' ''api'' ''next: review'' [ticket_anchor] None ''f1'' [''n1''] 7 = Inr (st, s, False)"
    "reachable store_start (delivery_step tz render f freshness) st" "s \<in> set (ds_slots st)" "sl_revision s = 0" "sl_body s = ''next: review''" "sl_id s = ''f1''"
proof -
  have "get_ticket (db_tickets (ds_db slot_store)) ''t1'' = Some sample_ticket" using sample_tickets(1) by (simp add: slot_store_def)
  moreover have "strip ''api'' = ''api''" "strip ''next: review'' = ''next: review''" by code_simp+
  moreover have "received_anchor slot_store ''brain-v42'' ticket_anchor = None"
    by (simp add: received_anchor_def ticket_anchor_def ticket_receipt_def slot_store_def empty_store_def first_row_def)
  moreover have "validate_anchor_shape ticket_anchor = Inr ticket_anchor"
    by (simp add: validate_anchor_shape_def ticket_anchor_def anchor_given_def REQUIRED_FIELDS_def)
  moreover have "admit_anchor slot_store ''brain-v42'' ticket_anchor = Inr ()"
    using calculation(1) by (simp add: admit_anchor_def ticket_anchor_def)
  moreover have "ds_slots slot_store = []" "ds_projects slot_store = [''brain-v42'']" by (simp_all add: slot_store_def empty_store_def)
  ultimately have "is_ok (service_slot_open slot_store ''brain-v42'' ''api'' ''next: review'' [ticket_anchor] None ''f1'' [''n1''] 7)"
    by (simp add: service_slot_open_def slot_project_def sample_canonical slot_text_def slot_body_def SLOT_TITLE_MAX_LENGTH_def SLOT_BODY_MAX_LENGTH_def
        MAX_SLOT_ANCHORS_def open_slot_def require_project_def open_by_title_def find_row_def is_ok_iff Let_def) blast
  then obtain st s replay where o: "service_slot_open slot_store ''brain-v42'' ''api'' ''next: review'' [ticket_anchor] None ''f1'' [''n1''] 7 = Inr (st, s, replay)"
    by (auto simp: is_ok_iff)
  have new: "replay = False \<and> s \<in> set (ds_slots st) \<and> sl_revision s = 0 \<and> sl_body s = ''next: review'' \<and> sl_id s = ''f1''"
    using o \<open>strip ''next: review'' = ''next: review''\<close>
    by (auto simp: service_slot_open_def slot_body_def open_slot_def open_by_title_def find_row_def slot_store_def empty_store_def Let_def result_simps split: if_splits)
  have "reachable store_start (delivery_step tz render f freshness) slot_store"
    by (rule reachable_start) (simp add: store_start_def slot_store_def empty_store_def)
  from reachable_step [OF this delivery_step.slot_opened [OF o]] have "reachable store_start (delivery_step tz render f freshness) st" .
  with o new show ?thesis by (intro that [of st s]) (elim conjE; simp)+
qed

theorem receipts_close_their_slots_witness:
  "\<exists>(st :: delivery_store) s. s \<in> set (ds_slots st) \<and> sl_id s = ''f1'' \<and> \<not> sv_receipt_pending (slot_view_of st 9 s)"
proof -
  obtain st s where s: "reachable store_start (delivery_step (\<lambda>t. t) (\<lambda>_. []) (\<lambda>_. None) 300) st" "s \<in> set (ds_slots st)" "sl_id s = ''f1''"
    using sample_slot by metis
  from receipts_close_their_slots [OF s(1,2)] s(2,3) show ?thesis by blast
qed

theorem slot_history_is_complete_witness:
  "\<exists>(st :: delivery_store) h. h \<in> set (ds_slot_history st) \<and> history_key h = (''f1'', 0) \<and> sh_body h = ''next: review''"
proof -
  obtain st s where s: "reachable store_start (delivery_step (\<lambda>t. t) (\<lambda>_. []) (\<lambda>_. None) 300) st" "s \<in> set (ds_slots st)" "sl_revision s = 0"
      "sl_body s = ''next: review''" "sl_id s = ''f1''"
    using sample_slot by metis
  from slot_history_is_complete [OF s(1,2)] s(3-5) have "\<exists>!h. h \<in> set (ds_slot_history st) \<and> history_key h = (''f1'', 0)"
      "\<forall>h \<in> set (ds_slot_history st). history_key h = (''f1'', 0) \<longrightarrow> sh_body h = ''next: review''" by simp_all
  then show ?thesis by blast
qed

section \<open>Pages of the ledger\<close>

text \<open>A reader that follows the position each page returns, at most \<open>n\<close> times.\<close>

fun attestation_walk :: "nat \<Rightarrow> attestation_row list \<Rightarrow> attestation_query \<Rightarrow> int \<Rightarrow> (instant \<times> uuid) option \<Rightarrow> attestation_row list option" where
  "attestation_walk n rows q limit after =
     (case list_attestations rows q limit after of
        Inl _ \<Rightarrow> None
      | Inr p \<Rightarrow> (case pg_next p of
            None \<Rightarrow> Some (pg_items p)
          | Some pos \<Rightarrow> (case n of 0 \<Rightarrow> None | Suc m \<Rightarrow> map_option ((@) (pg_items p)) (attestation_walk m rows q limit (Some pos)))))"

declare attestation_walk.simps [simp del]

definition attestations_of :: "attestation_row list \<Rightarrow> attestation_query \<Rightarrow> attestation_row list" where
  "attestations_of rows q = rev (sort_key attestation_position (filter (matches_query q) rows))"

lemma sort_key_filter: "sort_key f (filter P xs) = filter P (sort_key f xs)"
  by (simp add: filter_sort)

lemma attestations_after:
  "rev (sort_key attestation_position (filter (\<lambda>a. matches_query q a \<and> P (attestation_position a)) rows)) =
     filter (\<lambda>a. P (attestation_position a)) (attestations_of rows q)"
proof -
  have "filter (\<lambda>a. matches_query q a \<and> P (attestation_position a)) rows = filter (\<lambda>a. P (attestation_position a)) (filter (matches_query q) rows)"
    by (simp add: conj_commute)
  then show ?thesis unfolding attestations_of_def by (simp only: sort_key_filter rev_filter)
qed

lemma attestations_strict:
  assumes "distinct (map at_id rows)"
  shows "sorted_wrt (\<lambda>a b. attestation_position b < attestation_position a) (attestations_of rows q)"
proof -
  let ?xs = "sort_key attestation_position (filter (matches_query q) rows)"
  have "inj_on attestation_position (set rows)" using assms by (auto simp: distinct_map attestation_position_def inj_on_def)
  then have "inj_on attestation_position (set ?xs)" by (auto simp: inj_on_def)
  moreover have "distinct ?xs" using assms by (simp add: distinct_map)
  ultimately have "distinct (map attestation_position ?xs)" by (simp add: distinct_map)
  then have "sorted_wrt (<) (map attestation_position ?xs)" by (simp add: strict_sorted_iff)
  then show ?thesis by (simp add: attestations_of_def sorted_wrt_rev sorted_wrt_map)
qed

text \<open>In a strictly decreasing list, what is below the last of a prefix is the rest.\<close>

lemma filter_below_prefix:
  assumes "sorted_wrt (\<lambda>a b. f b < f a) (xs @ ys)" and "xs \<noteq> []"
  shows "filter (\<lambda>a. f a < (f (last xs) :: 'k::linorder)) (xs @ ys) = ys"
proof -
  from assms have "\<forall>a \<in> set ys. f a < f (last xs)" by (auto simp: sorted_wrt_append)
  moreover have "\<not> f a < f (last xs)" if "a \<in> set xs" for a
  proof -
    obtain zs where zs: "xs = zs @ [last xs]" using assms(2) by (metis append_butlast_last_id)
    have "sorted_wrt (\<lambda>a b. f b < f a) (zs @ [last xs])" using assms(1) zs by (metis sorted_wrt_append)
    with that zs show ?thesis by (metis (no_types, lifting) Un_iff list.set_intros(1) not_less_iff_gr_or_eq order.strict_trans set_append set_ConsD sorted_wrt_append empty_iff list.set(1) less_irrefl)
  qed
  ultimately show ?thesis by (simp add: filter_id_conv filter_empty_conv)
qed

definition after_position :: "(instant \<times> uuid) option \<Rightarrow> attestation_row list \<Rightarrow> attestation_row list" where
  "after_position after rows = filter (\<lambda>a. opt_ok (\<lambda>p. attestation_position a < p) after) rows"

lemma list_attestations_page:
  assumes "1 \<le> limit" "limit \<le> 100" "opt_ok attestation_kind_ok (aq_kind q)" "aq_ticket_id q \<noteq> None \<or> aq_issuer_project q \<noteq> None"
    and L: "L = after_position after (attestations_of rows q)"
  shows "list_attestations rows q limit after = Inr \<lparr>pg_items = take (nat limit) L,
    pg_next = (if nat limit < length L then Some (attestation_position (last (take (nat limit) L))) else None), pg_omitted = length L - min (nat limit) (length L)\<rparr>"
proof -
  let ?hits = "filter (\<lambda>a. matches_query q a \<and> opt_ok (\<lambda>p. attestation_position a < p) after) rows"
  have hits: "rev (sort_key attestation_position ?hits) = L"
    using attestations_after [of q "\<lambda>k. opt_ok (\<lambda>p. k < p) after" rows] by (simp add: L after_position_def)
  moreover have "length ?hits = length L" unfolding hits [symmetric] by simp
  ultimately show ?thesis using assms(1-4) by (simp add: list_attestations_def Let_def min.commute)
qed

lemma attestation_walk_from:
  assumes query: "1 \<le> limit" "limit \<le> 100" "opt_ok attestation_kind_ok (aq_kind q)" "aq_ticket_id q \<noteq> None \<or> aq_issuer_project q \<noteq> None"
    and dist: "distinct (map at_id rows)"
  shows "length (after_position after (attestations_of rows q)) \<le> n \<Longrightarrow>
    attestation_walk n rows q limit after = Some (after_position after (attestations_of rows q))"
proof (induction n arbitrary: after)
  case (0 after)
  then show ?case using query(1) by (subst attestation_walk.simps) (simp add: list_attestations_page [OF query refl])
next
  case (Suc n after)
  define L where "L = after_position after (attestations_of rows q)"
  let ?items = "take (nat limit) L"
  note page = list_attestations_page [OF query L_def]
  show ?case
  proof (cases "nat limit < length L")
    case False
    then show ?thesis unfolding L_def [symmetric] by (subst attestation_walk.simps) (simp add: page)
  next
    case True
    have items: "?items \<noteq> []" using True query(1) by auto
    have strict: "sorted_wrt (\<lambda>a b. attestation_position b < attestation_position a) L"
      unfolding L_def after_position_def using attestations_strict [OF dist] by (rule sorted_wrt_filter)
    have "last ?items \<in> set L" using items by (meson in_set_takeD last_in_set)
    then have upto: "opt_ok (\<lambda>p. attestation_position (last ?items) < p) after" unfolding L_def after_position_def by simp
    define k where "k = attestation_position (last ?items)"
    have "opt_ok (\<lambda>p. attestation_position a < p) after" if "attestation_position a < k" for a
      using upto that unfolding k_def [symmetric] by (cases after) (simp_all add: opt_ok_def order.strict_trans [OF that])
    then have "opt_ok (\<lambda>p. attestation_position a < p) (Some k) \<longleftrightarrow> opt_ok (\<lambda>p. attestation_position a < p) after \<and> attestation_position a < k" for a
      by (auto simp: opt_ok_def)
    then have "after_position (Some k) (attestations_of rows q) = filter (\<lambda>a. attestation_position a < k) L"
      unfolding L_def after_position_def filter_filter by (intro filter_cong) simp_all
    also have "\<dots> = drop (nat limit) L"
      using filter_below_prefix [of attestation_position ?items "drop (nat limit) L"] strict items unfolding append_take_drop_id k_def by blast
    finally have "after_position (Some k) (attestations_of rows q) = drop (nat limit) L" .
    moreover have "length (drop (nat limit) L) \<le> n" using Suc.prems query(1) by (simp add: L_def [symmetric])
    ultimately have "attestation_walk n rows q limit (Some (attestation_position (last ?items))) = Some (drop (nat limit) L)"
      using Suc.IH [of "Some k"] by (simp only: k_def)
    then show ?thesis unfolding L_def [symmetric] using True by (subst attestation_walk.simps) (simp add: page)
  qed
qed

text \<open>
  C32: Following the position that each page of \<open>list_attestations\<close> returns ends, and yields every attestation
  that matches the query exactly once, the latest emission first, whatever the page size.
\<close>

theorem attestation_pages_are_complete:
  assumes "1 \<le> limit" and "limit \<le> 100" and "opt_ok attestation_kind_ok (aq_kind q)" and "aq_ticket_id q \<noteq> None \<or> aq_issuer_project q \<noteq> None"
    and "distinct (map at_id rows)"
  shows "\<exists>ys. attestation_walk (length rows) rows q limit None = Some ys \<and> mset ys = mset (filter (matches_query q) rows) \<and>
    sorted_wrt (\<lambda>a b. attestation_position b < attestation_position a) ys"
proof -
  have "after_position None (attestations_of rows q) = attestations_of rows q" by (simp add: after_position_def opt_ok_def)
  moreover have "length (attestations_of rows q) \<le> length rows" by (simp add: attestations_of_def)
  moreover have "mset (attestations_of rows q) = mset (filter (matches_query q) rows)" by (simp add: attestations_of_def)
  ultimately show ?thesis
    using attestation_walk_from [OF assms, of None "length rows"] attestations_strict [OF assms(5), of q] by simp
qed

definition sample_fact :: "uuid \<Rightarrow> instant \<Rightarrow> attestation_row" where
  "sample_fact i t = \<lparr>at_id = i, at_ticket_id = ''t1'', at_contract_revision = None, at_kind = ''verified'', at_payload = pobj [], at_digest = [],
     at_issuer_project = ''acme'', at_issuer_identity = ''ci'', at_idempotency_key = i, at_emitted_at = t, at_recorded_at = t\<rparr>"

lemma sample_fact_fields [simp]:
  "at_id (sample_fact i t) = i" "at_ticket_id (sample_fact i t) = ''t1''"
  by (simp_all add: sample_fact_def)

theorem attestation_pages_are_complete_witness:
  "\<exists>ys. attestation_walk 2 [sample_fact ''a'' 1, sample_fact ''b'' 2] \<lparr>aq_ticket_id = Some ''t1'', aq_issuer_project = None, aq_kind = None, aq_since = None, aq_until = None\<rparr> 1 None =
     Some ys \<and> mset ys = mset [sample_fact ''a'' 1, sample_fact ''b'' 2]"
proof -
  let ?q = "\<lparr>aq_ticket_id = Some ''t1'', aq_issuer_project = None, aq_kind = None, aq_since = None, aq_until = None\<rparr>"
  let ?rows = "[sample_fact ''a'' 1, sample_fact ''b'' 2]"
  have rows: "filter (matches_query ?q) ?rows = ?rows" by (simp add: matches_query_def opt_ok_def)
  have two: "length ?rows = 2" by simp
  have "distinct (map at_id ?rows)" by simp
  then have "\<exists>ys. attestation_walk (length ?rows) ?rows ?q 1 None = Some ys \<and> mset ys = mset (filter (matches_query ?q) ?rows) \<and>
      sorted_wrt (\<lambda>a b. attestation_position b < attestation_position a) ys"
    by (intro attestation_pages_are_complete) (simp_all add: opt_ok_def)
  then show ?thesis unfolding rows two by blast
qed

end
