(* ===== verification/Delivery_Observation.thy ===== *)
theory Delivery_Observation
  imports Delivery_Run
begin

text \<open>
  One attempt of the delivery observer (\<open>DeliveryObserverRuntime._observe\<close> of
  \<open>delivery_observer/runtime.py\<close>): the result of a collection is published or recorded as a failure, and
  the job is rescheduled in the same transaction. What the client of the code host returns is an
  argument; delays are in microseconds.
\<close>

section \<open>Delays\<close>

definition UNREACHABLE_CODES :: "string list" where
  "UNREACHABLE_CODES = [''provider_not_found'', ''provider_forbidden'']"

definition UNREACHABLE_BASE :: int where
  "UNREACHABLE_BASE = 300 * 1000000"

definition UNREACHABLE_MAX :: int where
  "UNREACHABLE_MAX = 86400 * 1000000"

definition INTERNAL_ERROR :: string where
  "INTERNAL_ERROR = ''observer_internal_error''"

definition backoff :: "nat \<Rightarrow> int" where
  "backoff failed = min (300 * 1000000) (5 * 1000000 * 2 ^ min failed 6)"

text \<open>What a collection ends with: evidence, an error of the provider with its retry time, a transport
  failure that escaped the client, or a defect of the observer.\<close>

datatype collection =
    CollectedPr pull_request_evidence
  | CollectedContext repository_context_evidence
  | ProviderError string int
  | TransportError
  | ObserverFault

definition settled_delay :: "int \<Rightarrow> collection \<Rightarrow> int \<Rightarrow> int" where
  "settled_delay freshness_seconds c collection_time = (case c of
       CollectedPr ev \<Rightarrow> if pe_integration_sha ev = None then 0 else freshness_seconds div 2 * 1000000 - collection_time
     | _ \<Rightarrow> freshness_seconds div 2 * 1000000 - collection_time)"

definition provider_retry :: "string \<Rightarrow> int \<Rightarrow> nat \<Rightarrow> int" where
  "provider_retry code retry_after failed =
     max retry_after (if code \<in> set UNREACHABLE_CODES then min UNREACHABLE_MAX (UNREACHABLE_BASE * 4 ^ min failed 6) else backoff failed)"

text \<open>The recorded error code, if any, and the retry time. An incomplete context counts as not found.\<close>

definition attempt_code :: "observation_job \<Rightarrow> collection \<Rightarrow> string option \<times> int" where
  "attempt_code j c = (case c of
       ProviderError code retry_after \<Rightarrow>
         (Some (if code \<in> set SAFE_OBSERVATION_ERROR_CODES then code else ''provider_invalid_response''),
          provider_retry code retry_after (oj_failure_count j))
     | TransportError \<Rightarrow> (Some ''provider_unavailable'', backoff (oj_failure_count j))
     | ObserverFault \<Rightarrow> (Some INTERNAL_ERROR, backoff (oj_failure_count j))
     | CollectedPr ev \<Rightarrow> (None, 0)
     | CollectedContext e \<Rightarrow>
         if re_complete e then (None, 0)
         else (Some ''provider_not_found'', provider_retry ''provider_not_found'' (30 * 1000000) (oj_failure_count j)))"

definition attempt_delay :: "int \<Rightarrow> int \<Rightarrow> observation_job \<Rightarrow> collection \<Rightarrow> int \<Rightarrow> int" where
  "attempt_delay poll_seconds freshness_seconds j c collection_time =
     (let (code, retry) = attempt_code j c in
      min MAX_DELAY (max (poll_seconds * 1000000) (if code = None then settled_delay freshness_seconds c collection_time else retry)))"

section \<open>The attempt\<close>

datatype persist_error = PersistEvidence evidence_error | PersistQueue queue_error | PersistAssertion

definition lift_persist :: "(evidence_error, delivery_store \<times> 'a) result \<Rightarrow> (persist_error, delivery_store) result" where
  "lift_persist r = (case r of Inl e \<Rightarrow> Inl (PersistEvidence e) | Inr (st, _) \<Rightarrow> Inr st)"

definition record_attempt ::
    "(int \<Rightarrow> instant) \<Rightarrow> (instant \<Rightarrow> string) \<Rightarrow> receipt_settings \<Rightarrow> delivery_store \<Rightarrow> observation_job \<Rightarrow> collection
     \<Rightarrow> instant \<Rightarrow> instant \<Rightarrow> evidence_ids \<Rightarrow> instant \<Rightarrow> instant \<Rightarrow> (persist_error, delivery_store) result" where
  "record_attempt tz render settings st j c started finished ids decision_time pg_now =
     (case (oj_binding j, fst (attempt_code j c)) of
        (Some b, None) \<Rightarrow> (case c of
            CollectedPr ev \<Rightarrow> lift_persist (publish_observation tz render settings st (ab_id b) (oj_version j) ev
              (Aware started) (Aware finished) ids decision_time pg_now)
          | _ \<Rightarrow> Inl PersistAssertion)
      | (Some b, Some code) \<Rightarrow> lift_persist (record_observation_error st (ab_id b) (oj_version j) code
          (Aware started) (Aware finished) (id_confirmation ids) pg_now)
      | (None, None) \<Rightarrow> (case c of
            CollectedContext e \<Rightarrow> lift_persist (publish_repository_context tz settings st (oj_ticket_id j) (job_context j) e
              (Aware started) (Aware finished) ids decision_time pg_now)
          | _ \<Rightarrow> Inl PersistAssertion)
      | (None, Some code) \<Rightarrow> lift_persist (record_repository_context_error st (oj_ticket_id j) (job_context j) code
          (Aware started) (Aware finished) (id_confirmation ids) pg_now))"

definition persist_attempt ::
    "(int \<Rightarrow> instant) \<Rightarrow> (instant \<Rightarrow> string) \<Rightarrow> receipt_settings \<Rightarrow> delivery_store \<Rightarrow> observation_job \<Rightarrow> collection
     \<Rightarrow> instant \<Rightarrow> instant \<Rightarrow> int \<Rightarrow> evidence_ids \<Rightarrow> instant \<Rightarrow> instant \<Rightarrow> instant \<Rightarrow> (persist_error, delivery_store \<times> bool) result" where
  "persist_attempt tz render settings st j c started finished delay ids decision_time pg_now now =
     res_bind (record_attempt tz render settings st j c started finished ids decision_time pg_now) (\<lambda>st1.
     (case schedule_after st1 j delay (oj_version j + 1) now of Inl e \<Rightarrow> Inl (PersistQueue e) | Inr r \<Rightarrow> Inr r))"

text \<open>A conflict defers the job, another domain error fails it, and the transaction is rolled back; any
  other exception ends the process.\<close>

datatype observe_status = ObsCollected instant | ObsFailed | ObsDeferred | ObsRaised persist_error

definition persist_failure :: "persist_error \<Rightarrow> observe_status" where
  "persist_failure e = (case e of
       PersistEvidence d \<Rightarrow>
         if d \<in> {BindingConflict, BindingSuperseded, ContextConflict, ContextSuperseded} then ObsDeferred
         else if d \<in> {EvidenceSubjectMismatch, InvalidErrorCode, ContextMismatch} then ObsFailed
         else ObsRaised e
     | _ \<Rightarrow> ObsRaised e)"

definition observe ::
    "(int \<Rightarrow> instant) \<Rightarrow> (instant \<Rightarrow> string) \<Rightarrow> receipt_settings \<Rightarrow> int \<Rightarrow> int \<Rightarrow> delivery_store \<Rightarrow> observation_job \<Rightarrow> collection
     \<Rightarrow> instant \<Rightarrow> instant \<Rightarrow> evidence_ids \<Rightarrow> instant \<Rightarrow> instant \<Rightarrow> instant \<Rightarrow> delivery_store \<times> observe_status" where
  "observe tz render settings poll_seconds freshness_seconds st j c started ended ids decision_time pg_now now =
     (let finished = max started ended;
          delay = attempt_delay poll_seconds freshness_seconds j c (finished - started) in
      case persist_attempt tz render settings st j c started finished delay ids decision_time pg_now now of
        Inl e \<Rightarrow> (st, persist_failure e)
      | Inr (st', _) \<Rightarrow> (st', if fst (attempt_code j c) = None then ObsCollected finished else ObsFailed))"

section \<open>Laws\<close>

lemma attempt_delay_bounds:
  assumes "1 \<le> poll_seconds"
  shows "0 < attempt_delay poll_seconds freshness_seconds j c t" "attempt_delay poll_seconds freshness_seconds j c t \<le> MAX_DELAY"
    "min MAX_DELAY (poll_seconds * 1000000) \<le> attempt_delay poll_seconds freshness_seconds j c t"
  using assms by (auto simp: attempt_delay_def MAX_DELAY_def split: prod.split)

text \<open>A publication keeps the due times and advances the version of its subject by one.\<close>

lemma issue_keeps_db:
  assumes "issue_under_scope tz settings st t ids now pg_now = Inr (st', out)" and "system_ok st"
  shows "ds_db st' = ds_db st"
proof -
  obtain freshness where "configured freshness settings" by (cases settings) (auto simp: configured_def opt_ok_def)
  from issued_receipts_backed(2) [OF assms(2,1) this] show ?thesis by (simp add: same_proofs_def)
qed

lemma evidence_beside_db:
  assumes "evidence_beside st st'"
  shows "ds_db st' = ds_db st"
  using arg_cong [OF assms [unfolded evidence_beside_def], of ds_db] by simp

lemma advance_db:
  "ds_db st' = ds_db st \<Longrightarrow> ds_db (advance_subject st' row w confirmation finished evidence pg_now) = ds_db (advance_subject st row w confirmation finished evidence pg_now)"
  "ds_db st' = ds_db st \<Longrightarrow> ds_db (advance_context st' w confirmation finished success code pg_now) = ds_db (advance_context st w confirmation finished success code pg_now)"
  by (simp_all add: advance_subject_def advance_context_def Let_def)

lemma recorded_binding:
  assumes "system_ok st" and "record_attempt tz render settings st j c started finished ids decision_time pg_now = Inr st1" and "oj_binding j = Some b"
  obtains row w t confirmation till evidence where "lock_current_subject st (ab_id b) (oj_version j) = Inr (row, w, t)"
    "ds_db st1 = ds_db (advance_subject st row w confirmation till evidence pg_now)"
proof (cases "fst (attempt_code j c)")
  case None
  with assms(2,3) obtain ev x where "publish_observation tz render settings st (ab_id b) (oj_version j) ev (Aware started) (Aware finished) ids decision_time pg_now = Inr (st1, x)"
    by (auto simp: record_attempt_def lift_persist_def split: collection.splits sum.splits)
  then show ?thesis
  proof (cases rule: publish_observation_Inr)
    case (1 row w t digest st1' sid st2 out)
    note b = put_evidence_beside(1) [OF 1(7)] put_evidence_beside(2) [OF 1(8)]
    have "system_ok (advance_subject st2 row w (id_confirmation ids) (moment (Aware finished)) (Some ev) pg_now)"
      by (intro system_ok_advance_subject system_ok_evidence [OF _ b(2)] system_ok_evidence [OF _ b(1)] assms(1))
    from issue_keeps_db [OF 1(9) this] have "ds_db st1 = ds_db (advance_subject st row w (id_confirmation ids) (moment (Aware finished)) (Some ev) pg_now)"
      using advance_db(1) [of st2 st] evidence_beside_db [OF b(1)] evidence_beside_db [OF b(2)] by simp
    with that 1(1) show ?thesis by blast
  qed
next
  case (Some code)
  with assms(2,3) obtain x where "record_observation_error st (ab_id b) (oj_version j) code (Aware started) (Aware finished) (id_confirmation ids) pg_now = Inr (st1, x)"
    by (auto simp: record_attempt_def lift_persist_def split: sum.splits)
  then show ?thesis
  proof (cases rule: record_observation_error_Inr)
    case (1 row w t st1')
    from 1(5) have "ds_db st1 = ds_db (advance_subject st row w (id_confirmation ids) (moment (Aware finished)) None pg_now)"
      using advance_db(1) [of st1' st] evidence_beside_db [OF put_evidence_beside(2) [OF 1(4)]] by simp
    with that 1(1) show ?thesis by blast
  qed
qed

lemma recorded_context:
  assumes "system_ok st" and "record_attempt tz render settings st j c started finished ids decision_time pg_now = Inr st1" and "oj_binding j = None"
  obtains w t confirmation till success code where "lock_current_context st (oj_ticket_id j) (job_context j) = Inr (w, t)"
    "ds_db st1 = ds_db (advance_context st w confirmation till success code pg_now)"
proof (cases "fst (attempt_code j c)")
  case None
  with assms(2,3) obtain e x where "publish_repository_context tz settings st (oj_ticket_id j) (job_context j) e (Aware started) (Aware finished) ids decision_time pg_now = Inr (st1, x)"
    by (auto simp: record_attempt_def lift_persist_def split: collection.splits sum.splits)
  then show ?thesis
  proof (cases rule: publish_repository_context_Inr)
    case (1 w t digest st1' sid st2 out)
    note b = put_evidence_beside(1) [OF 1(6)] put_evidence_beside(2) [OF 1(7)]
    have "system_ok (advance_context st2 w (id_confirmation ids) (moment (Aware finished)) True None pg_now)"
      by (intro system_ok_advance_context system_ok_evidence [OF _ b(2)] system_ok_evidence [OF _ b(1)] assms(1))
    from issue_keeps_db [OF 1(8) this] have "ds_db st1 = ds_db (advance_context st w (id_confirmation ids) (moment (Aware finished)) True None pg_now)"
      using advance_db(2) [of st2 st] evidence_beside_db [OF b(1)] evidence_beside_db [OF b(2)] by simp
    with that 1(1) show ?thesis by blast
  qed
next
  case (Some code)
  with assms(2,3) obtain x where "record_repository_context_error st (oj_ticket_id j) (job_context j) code (Aware started) (Aware finished) (id_confirmation ids) pg_now = Inr (st1, x)"
    by (auto simp: record_attempt_def lift_persist_def split: sum.splits)
  then show ?thesis
  proof (cases rule: record_repository_context_error_Inr)
    case (1 w t st1')
    from 1(4) have "ds_db st1 = ds_db (advance_context st w (id_confirmation ids) (moment (Aware finished)) False (Some code) pg_now)"
      using advance_db(2) [of st1' st] evidence_beside_db [OF put_evidence_beside(2) [OF 1(3)]] by simp
    with that 1(1) show ?thesis by blast
  qed
qed

lemma observed_row_due:
  "bw_due_at (observed_row confirmation finished evidence version r) = bw_due_at r"
  "bw_active (observed_row confirmation finished evidence version r) = bw_active r"
  "ab_binding_version (bw_binding (observed_row confirmation finished evidence version r)) = version + 1"
  by (simp_all add: observed_row_def Let_def split: option.split)

lemma context_row_due:
  "wf_context_due_at (context_row confirmation finished success code pg_now w) = wf_context_due_at w"
  "wf_context_row_version (context_row confirmation finished success code pg_now w) = wf_context_row_version w + 1"
  "wf_context_set_digest (context_row confirmation finished success code pg_now w) = wf_context_set_digest w"
  "wf_disposition (context_row confirmation finished success code pg_now w) = wf_disposition w"
  by (simp_all add: context_row_def Let_def)

text \<open>An attempt moves the job when the captured due time still stands, and leaves a due time that was written in
  the meantime.\<close>

definition job_due_at :: "delivery_store \<Rightarrow> observation_job \<Rightarrow> instant option" where
  "job_due_at st j = (case oj_kind j of
       ArtifactJob \<Rightarrow> Option.bind (get_binding (db_bindings (ds_db st)) (oj_subject_id j)) bw_due_at
     | ContextJob \<Rightarrow> Option.bind (get_workflow (store_workflows st) (oj_ticket_id j)) wf_context_due_at)"

lemma list_ex_update_rows: "(\<And>r. P (f r) = P r) \<Longrightarrow> list_ex P (update_rows h f rows) = list_ex P rows"
  by (auto simp: list_ex_iff update_rows_def)

lemma update_rows_none: "\<not> list_ex h rows \<Longrightarrow> update_rows h f rows = rows"
  by (auto simp: list_ex_iff update_rows_def intro: map_idI)

lemma generation_open_advanced:
  "ds_db st1 = ds_db (advance_subject st row w confirmation till evidence pg_now) \<Longrightarrow> generation_open st1 j = generation_open st j"
  unfolding generation_open_def store_workflows_def
  by (simp add: advance_subject_def Let_def list_ex_update_rows)

lemma schedule_keeps:
  assumes "schedule_after st j delay expected now = Inr (st', False)"
  shows "job_due_at st' j = job_due_at st j"
proof -
  have "db_bindings (ds_db st') = db_bindings (ds_db st) \<and> store_workflows st' = store_workflows st"
    using assms by (auto simp: schedule_after_def result_simps Let_def store_workflows_def update_rows_none split: if_splits)
  then show ?thesis by (simp add: job_due_at_def split: job_kind.split)
qed

lemma binding_attempt:
  assumes "system_ok st" and "oj_kind j = ArtifactJob" "oj_binding j = Some b" "ab_id b = oj_subject_id j"
    and "record_attempt tz render settings st j c started finished ids decision_time pg_now = Inr st1"
    and "schedule_after st1 j delay (oj_version j + 1) later = Inr (st', moved)"
  shows "moved \<longleftrightarrow> job_due_at st j = Some (oj_due_at j) \<and> generation_open st j" and "job_due_at st1 j = job_due_at st j"
    and "moved \<Longrightarrow> \<forall>x \<in> set (db_bindings (ds_db st')). ab_id (bw_binding x) = oj_subject_id j \<longrightarrow> bw_due_at x = Some (later + delay)"
proof -
  obtain row w t confirmation till evidence where rec: "lock_current_subject st (oj_subject_id j) (oj_version j) = Inr (row, w, t)"
    "ds_db st1 = ds_db (advance_subject st row w confirmation till evidence pg_now)"
    using recorded_binding [OF assms(1,5,3)] assms(4) by metis
  from rec(1) have row: "get_binding (db_bindings (ds_db st)) (oj_subject_id j) = Some row" "ab_binding_version (bw_binding row) = oj_version j" "bw_active row"
    by (auto simp: lock_current_subject_def result_simps split: option.splits)
  have id: "ab_id (bw_binding row) = oj_subject_id j" using binding_rows.get_row_Some [OF row(1)] by simp
  let ?row = "observed_row confirmation till evidence (ab_binding_version (bw_binding row)) row"
  have bindings: "db_bindings (ds_db st1) = update_rows (\<lambda>r. ab_id (bw_binding r) = oj_subject_id j \<and> ab_binding_version (bw_binding r) = oj_version j)
      (observed_row confirmation till evidence (ab_binding_version (bw_binding row))) (db_bindings (ds_db st))"
    unfolding rec(2) by (simp add: advance_subject_def Let_def id row(2))
  have found: "get_binding (db_bindings (ds_db st1)) (oj_subject_id j) = Some ?row"
    unfolding bindings by (rule binding_rows.get_row_update_same) (use row in \<open>simp_all add: observed_row_same\<close>)
  have distinct: "distinct (map (\<lambda>r. ab_id (bw_binding r)) (db_bindings (ds_db st1)))"
    unfolding bindings using system_okD(1) [OF assms(1)] by (simp add: map_update_rows observed_row_same store_ok_def bindings_ok_def)
  have "captured_binding j (oj_version j + 1) ?row \<longleftrightarrow> bw_due_at row = Some (oj_due_at j)"
    using row(2,3) id by (simp add: captured_binding_def observed_row_due observed_row_same)
  moreover have "oj_binding j \<noteq> None" using assms(3) by simp
  note moved = schedule_after_binding [OF assms(6) this distinct found]
  ultimately show "moved \<longleftrightarrow> job_due_at st j = Some (oj_due_at j) \<and> generation_open st j"
    using generation_open_advanced [OF rec(2), of j] assms(2) row(1) by (simp add: job_due_at_def)
  show "job_due_at st1 j = job_due_at st j" using found row(1) assms(2) by (simp add: job_due_at_def observed_row_due)
  show "\<forall>x \<in> set (db_bindings (ds_db st')). ab_id (bw_binding x) = oj_subject_id j \<longrightarrow> bw_due_at x = Some (later + delay)" if "moved"
    using moved(2) [OF that] by blast
qed

lemma context_attempt:
  assumes "system_ok st" and "oj_kind j = ContextJob" "oj_binding j = None" "oj_subject_id j = oj_ticket_id j"
    and "record_attempt tz render settings st j c started finished ids decision_time pg_now = Inr st1"
    and "schedule_after st1 j delay (oj_version j + 1) later = Inr (st', moved)"
  shows "moved \<longleftrightarrow> job_due_at st j = Some (oj_due_at j) \<and> generation_open st j" and "job_due_at st1 j = job_due_at st j"
    and "moved \<Longrightarrow> \<forall>x \<in> set (store_workflows st'). wf_ticket_id x = oj_subject_id j \<longrightarrow> wf_context_due_at x = Some (later + delay)"
proof -
  obtain w t confirmation till success code where rec: "lock_current_context st (oj_ticket_id j) (job_context j) = Inr (w, t)"
    "ds_db st1 = ds_db (advance_context st w confirmation till success code pg_now)"
    using recorded_context [OF assms(1,5,3)] by blast
  from rec(1) have row: "get_workflow (store_workflows st) (oj_ticket_id j) = Some w" "wf_disposition w = DActive"
    "wf_current_revision w = cr_contract_revision (oj_contract j)" "wf_attempt w = oj_attempt j" "wf_context_set_digest w = oj_context_set_digest j"
    "wf_context_row_version w = oj_version j"
    by (auto simp: lock_current_context_def result_simps job_context_def split: option.splits)
  have w: "w \<in> set (store_workflows st)" "wf_ticket_id w = oj_ticket_id j" using workflows.get_row_Some [OF row(1)] by simp_all
  let ?row = "context_row confirmation till success code pg_now w"
  have works: "store_workflows st1 = update_rows (\<lambda>x. wf_ticket_id x = oj_ticket_id j \<and> (wf_row_version x = wf_row_version w \<and>
      wf_context_row_version x = wf_context_row_version w)) (context_row confirmation till success code pg_now) (store_workflows st)"
    unfolding store_workflows_def rec(2) by (simp add: advance_context_def w)
  have found: "get_workflow (store_workflows st1) (oj_ticket_id j) = Some ?row"
    unfolding works by (rule workflows.get_row_update_same) (use row in \<open>simp_all add: context_row_same\<close>)
  have distinct: "distinct (map wf_ticket_id (store_workflows st1))"
    unfolding works using system_okD(5) [OF assms(1)] by (simp add: map_update_rows context_row_same)
  have "captured_context j (oj_version j + 1) ?row \<longleftrightarrow> wf_context_due_at w = Some (oj_due_at j)"
    using row w by (simp add: captured_context_def context_row_due context_row_same)
  moreover have "generation_open st j" using row w by (auto simp: generation_open_def list_ex_iff)
  moreover note moved = schedule_after_context [OF assms(6,3) distinct found]
  ultimately show "moved \<longleftrightarrow> job_due_at st j = Some (oj_due_at j) \<and> generation_open st j"
    using row(1) assms(2) by (simp add: job_due_at_def)
  show "job_due_at st1 j = job_due_at st j" using found row(1) assms(2) by (simp add: job_due_at_def context_row_due)
  show "\<forall>x \<in> set (store_workflows st'). wf_ticket_id x = oj_subject_id j \<longrightarrow> wf_context_due_at x = Some (later + delay)" if "moved"
    using moved(2) [OF that] assms(4) by simp
qed

section \<open>Confirmations are keyed\<close>

definition confirmations_keyed :: "delivery_store \<Rightarrow> bool" where
  "confirmations_keyed st = distinct (map cf_id (ds_confirmations st))"

lemma keyed_same: "ds_confirmations st' = ds_confirmations st \<Longrightarrow> confirmations_keyed st' = confirmations_keyed st"
  by (simp add: confirmations_keyed_def)

lemma store_step_confirmations:
  assumes "store_step tz st st'"
  shows "ds_confirmations st' = ds_confirmations st"
  using assms
proof cases
  case contract_set
  then show ?thesis by (cases rule: set_contract_Inr) (simp_all add: store_contract_def)
next
  case pr_bound
  then show ?thesis by (cases rule: bind_pr_Inr) (simp_all add: put_binding_def Let_def)
qed (simp_all add: refresh_def)

lemma keyed_put:
  "put_snapshot st subject digest evidence fresh_id = Inr (st', sid) \<Longrightarrow> confirmations_keyed st' = confirmations_keyed st"
  "put_confirmation st c = Inr st' \<Longrightarrow> confirmations_keyed st \<Longrightarrow> confirmations_keyed st'"
  by (auto simp: put_snapshot_def put_confirmation_def confirmations_keyed_def result_simps split: option.splits)

lemma keyed_advance [simp]:
  "confirmations_keyed (advance_subject st row w confirmation finished evidence pg_now) = confirmations_keyed st"
  "confirmations_keyed (advance_context st w confirmation finished success code pg_now) = confirmations_keyed st"
  by (simp_all add: confirmations_keyed_def advance_subject_def advance_context_def Let_def)

lemma keyed_issue:
  assumes "issue_under_scope tz settings st t ids now pg_now = Inr (st', out)" and "system_ok st"
  shows "confirmations_keyed st' = confirmations_keyed st"
proof -
  obtain freshness where "configured freshness settings" by (cases settings) (auto simp: configured_def opt_ok_def)
  from issued_receipts_backed(2) [OF assms(2,1) this] show ?thesis by (intro keyed_same) (simp add: same_proofs_def)
qed

lemma attest_confirmations:
  assumes "attest fromisoformat st t call fresh_id pg_now = Inr (st', a)"
  shows "ds_confirmations st' = ds_confirmations st" "ds_slots st' = ds_slots st"
  using assms by (cases rule: attest_Inr; simp)+

lemma keyed_step:
  assumes ok: "system_ok st" and keyed: "confirmations_keyed st" and "delivery_step tz render fromisoformat freshness st st'"
  shows "confirmations_keyed st'"
  using assms(3)
proof cases
  case stored
  then show ?thesis using keyed keyed_same [OF store_step_confirmations] by blast
next
  case (observed settings i expected ev started finished ids now pg_now c)
  from observed(2) show ?thesis
  proof (cases rule: publish_observation_Inr)
    case (1 row w t digest st1 sid st2 out)
    note b = put_evidence_beside(1) [OF 1(7)] put_evidence_beside(2) [OF 1(8)]
    have "system_ok (advance_subject st2 row w (id_confirmation ids) (moment finished) (Some ev) pg_now)"
      by (intro system_ok_advance_subject system_ok_evidence [OF _ b(2)] system_ok_evidence [OF _ b(1)] ok)
    with keyed_issue [OF 1(9)] keyed_put(1) [OF 1(7)] keyed_put(2) [OF 1(8)] keyed show ?thesis by simp
  qed
next
  case (observation_failed i expected code started finished fresh_id pg_now c)
  then show ?thesis by (cases rule: record_observation_error_Inr) (simp add: keyed_put(2) [OF _ keyed])
next
  case (context_observed settings i expected e started finished ids now pg_now c)
  from context_observed(2) show ?thesis
  proof (cases rule: publish_repository_context_Inr)
    case (1 w t digest st1 sid st2 out)
    note b = put_evidence_beside(1) [OF 1(6)] put_evidence_beside(2) [OF 1(7)]
    have "system_ok (advance_context st2 w (id_confirmation ids) (moment finished) True None pg_now)"
      by (intro system_ok_advance_context system_ok_evidence [OF _ b(2)] system_ok_evidence [OF _ b(1)] ok)
    with keyed_issue [OF 1(8)] keyed_put(1) [OF 1(6)] keyed_put(2) [OF 1(7)] keyed show ?thesis by simp
  qed
next
  case (context_failed i expected code started finished fresh_id pg_now c)
  then show ?thesis by (cases rule: record_repository_context_error_Inr) (simp add: keyed_put(2) [OF _ keyed])
next
  case (receipt_issued settings t receipt_ids now pg_now r)
  then have "st' = st \<or> (\<exists>k. issue_under_scope tz settings st k receipt_ids now pg_now = Inr (st', r))"
    by (auto simp: issue_integration_receipt_def result_simps split: if_splits)
  then show ?thesis using keyed keyed_issue [OF _ ok] by blast
next
  case (accepted enabled t acceptance fresh_id now pg_now f)
  then show ?thesis
  proof (cases rule: accept_Inr)
    case (1 k i a integration)
    from 1(12) consider "st' = st" | "insert_receipt st f pg_now = Inr st'" by blast
    then show ?thesis
    proof cases
      case 2
      from insert_receipt_frame(1) [OF 2 system_okD(6) [OF ok]] keyed show ?thesis by (simp add: same_proofs_def confirmations_keyed_def)
    qed (use keyed in simp)
  qed
next
  case attested
  then show ?thesis
  proof (cases rule: brain_delivery_attest_Inr)
    case (1 caller)
    from keyed_same [OF attest_confirmations(1) [OF 1(2)]] keyed show ?thesis by simp
  qed
next
  case (measured candidate tag_name tag_sha tag_date fresh_id pg_now)
  from measured show ?thesis
  proof (cases rule: record_released_Inr)
    case (measured st1 a closed)
    note same = attest_confirmations [OF measured(1)]
    have "same_delivery st1 st'" using close_slots_satisfied_by_Inr(2) [OF measured(2)] same(2) system_okD(6) [OF ok] by simp
    with same(1) keyed show ?thesis by (simp add: same_delivery_def confirmations_keyed_def)
  qed (use keyed in simp)
next
  case (deployed candidate release_sha package_version now fresh_id pg_now)
  then show ?thesis using keyed keyed_same [OF attest_confirmations(1)] by (auto simp: record_deployed_def result_simps split: if_splits)
next
  case slot_opened
  from service_slot_open_write [OF slot_opened] slot_write_same [of st st'] keyed show ?thesis by (auto simp: same_delivery_def confirmations_keyed_def)
next
  case slot_closed
  from slot_write_same [OF service_slot_close_write [OF slot_closed]] keyed show ?thesis by (simp add: same_delivery_def confirmations_keyed_def)
next
  case (slot_rewritten i version body pg_now st1 s h)
  from slot_write_same [OF slot_write.rewritten [OF slot_rewritten(2-5)]] slot_rewritten(1) keyed show ?thesis by (simp add: same_delivery_def confirmations_keyed_def)
next
  case (rescheduled j delay expected now moved)
  then show ?thesis using keyed by (auto simp: schedule_after_def result_simps Let_def confirmations_keyed_def split: if_splits)
next
  case purged
  then show ?thesis using keyed by (simp add: delete_confirmations_def confirmations_keyed_def distinct_map_filter)
next
  case elsewhere
  then show ?thesis using keyed by (simp add: confirmations_keyed_def)
qed

interpretation keyed_system: invariant_system store_start "delivery_step tz render fromisoformat freshness" "\<lambda>st. system_ok st \<and> confirmations_keyed st"
proof unfold_locales
  show "system_ok st \<and> confirmations_keyed st" if "store_start st" for st
    using delivery_system.inv_start [OF that] that by (simp add: store_start_def confirmations_keyed_def)
  show "system_ok st' \<and> confirmations_keyed st'" if "system_ok st \<and> confirmations_keyed st" "delivery_step tz render fromisoformat freshness st st'" for st st'
    using that system_ok_step keyed_step by blast
qed

section \<open>Properties\<close>

lemma map_filter_cong: "(\<And>x. x \<in> set xs \<Longrightarrow> f x = g x) \<Longrightarrow> List.map_filter f xs = List.map_filter g xs"
  by (induction xs) (auto simp: List.map_filter_simps split: option.split)

lemma pruned_due_rows:
  assumes "pruned cutoff st st'"
  shows "due_rows st' now = due_rows st now"
proof -
  note fields = pruned_fields [OF assms]
  from assms obtain ids where ids: "st' = st\<lparr>ds_confirmations := filter (\<lambda>c. cf_id c \<notin> set ids) (ds_confirmations st)\<rparr>"
    "\<forall>c \<in> set (ds_confirmations st). cf_id c \<in> set ids \<longrightarrow> purgeable st cutoff c" unfolding pruned_def by (elim exE conjE)
  have "c \<in> set (ds_confirmations st) \<Longrightarrow> cf_outcome c = OutError \<Longrightarrow> cf_id c \<notin> set ids" for c using ids(2) by (auto simp: purgeable_def)
  then have failed: "failures st' subject last = failures st subject last" for subject last
    unfolding failures_def ids(1) by (simp, intro arg_cong [of _ _ "\<lambda>xs. min 6 (length xs)"] filter_cong) auto
  have proofs: "success_proof st' (bw_success_confirmation r) = success_proof st (bw_success_confirmation r)" if "r \<in> set (db_bindings (ds_db st))" for r
    using that by (intro pruned_success_proof [OF assms] pruned_get_confirmation [OF assms]) (simp add: protected_def in_map_filter)
  have "artifact_due st' now x r = artifact_due st now x r" if "r \<in> set (db_bindings (ds_db st))" for x r
    by (cases x) (simp only: artifact_due_def Let_def prod.case failed proofs [OF that])
  then have "List.map_filter (artifact_due st' now x) (db_bindings (ds_db st)) = List.map_filter (artifact_due st now x) (db_bindings (ds_db st))" for x
    by (rule map_filter_cong)
  moreover have "observed_workflows st' = observed_workflows st" unfolding observed_workflows_def observed_workflow_def fields by (rule refl)
  moreover have "context_job st' now = context_job st now" unfolding context_job_def failed by (rule refl)
  ultimately show ?thesis by (simp add: due_rows_def fields)
qed

text \<open>
  C11: A purge is invisible and exact. It removes only successful confirmations older than the window that no
  binding, workflow, receipt or event refers to; the evaluator input of every ticket and the due work of the
  observer are unchanged; the reported number is the number of removed rows; and a run that does not
  exhaust its quota leaves no candidate other than rows locked by others.
\<close>

theorem purge_is_invisible:
  assumes "reachable store_start (delivery_step tz render fromisoformat freshness) st"
    and "purge st older_than batch_size max_batches dry_run now locked = Inr (st', report)"
  shows "load_inputs st' i enabled f = load_inputs st i enabled f \<and> due_rows st' t = due_rows st t \<and>
    (\<forall>c \<in> set (ds_confirmations st) - set (ds_confirmations st'). cf_outcome c = OutSuccess \<and> cf_collection_finished_at c < now - older_than \<and>
       7 * 86400 * 1000000 \<le> older_than \<and> cf_id c \<notin> set (protected st)) \<and>
    rr_deleted report + length (ds_confirmations st') = length (ds_confirmations st) \<and>
    (\<not> dry_run \<and> int (rr_deleted report) < max_batches * batch_size \<longrightarrow>
       (\<forall>c \<in> set (ds_confirmations st'). purgeable st' (now - older_than) c \<longrightarrow> cf_id c \<in> locked))"
proof -
  from keyed_system.inv_reachable [OF assms(1)] have keyed: "distinct (map cf_id (ds_confirmations st))" by (simp add: confirmations_keyed_def)
  have window: "7 * 86400 * 1000000 \<le> older_than" "1 \<le> batch_size" "1 \<le> max_batches"
    using assms(2) by (auto simp: purge_def result_simps SEVEN_DAYS_def)
  have st': "pruned (now - older_than) st st'"
    using assms(2) pruned_loop [OF keyed] by (cases dry_run) (auto simp: purge_def result_simps Let_def pruned_refl split: prod.splits)
  have counts: "rr_deleted report + length (ds_confirmations st') = length (ds_confirmations st) \<and>
    (\<not> dry_run \<and> int (rr_deleted report) < max_batches * batch_size \<longrightarrow>
       (\<forall>c \<in> set (ds_confirmations st'). purgeable st' (now - older_than) c \<longrightarrow> cf_id c \<in> locked))"
  proof (cases dry_run)
    case True
    then show ?thesis using assms(2) by (auto simp: purge_def result_simps Let_def)
  next
    case False
    then obtain k where run: "purge_loop (now - older_than) (nat batch_size) locked (nat max_batches) st = (st', k, rr_deleted report)"
      using assms(2) by (auto simp: purge_def result_simps Let_def split: prod.splits)
    have "int (rr_deleted report) < max_batches * batch_size \<longleftrightarrow> rr_deleted report < nat max_batches * nat batch_size"
      using window by (simp add: nat_mult_distrib [symmetric] zless_nat_eq_int_zless)
    with purge_loop_counts [OF keyed run] show ?thesis by simp
  qed
  have "cf_outcome c = OutSuccess \<and> cf_collection_finished_at c < now - older_than \<and> cf_id c \<notin> set (protected st)"
    if "c \<in> set (ds_confirmations st) - set (ds_confirmations st')" for c
    using st' that unfolding pruned_def by (auto simp: purgeable_def)
  then show ?thesis using counts window(1) pruned_load_inputs [OF st'] pruned_due_rows [OF st'] by blast
qed

text \<open>
  C14: The jobs that the queue hands out are its oldest due work, in order and each subject once; the
  generation check of their publication accepts every one of them at its version; and with room left in
  the answer, every due subject of the project is handed out, reported as undecodable or excluded.
\<close>

theorem due_work_is_current:
  assumes "reachable store_start (delivery_step tz render fromisoformat freshness) st"
    and "due st now project limit exclude listener = Inr (jobs, reported)"
  shows "sorted (map job_order jobs) \<and> distinct (map job_identity jobs) \<and>
    (\<forall>j \<in> set jobs. job_current st j \<and> oj_due_at j \<le> now) \<and>
    (length jobs + length reported < nat limit \<longrightarrow>
       (\<forall>r \<in> set (due_rows st now). opt_ok ((=) (du_project_key r)) project \<longrightarrow>
          due_identity r \<in> set (map job_identity jobs) \<union> set reported \<union> exclude))"
proof -
  have ok: "store_ok st" using delivery_system.inv_reachable [OF assms(1)] by (rule system_okD(1))
  have "job_current st j \<and> oj_due_at j \<le> now" if j: "j \<in> set jobs" for j
  proof -
    obtain r where r: "r \<in> set (due_rows st now)" "decode_job now r = Some j" using due_job_row [OF assms(2) j] by blast
    have "du_due_at r \<le> now" using r(1) by (cases rule: due_rows_cases) (auto dest: artifact_due_Some(6) context_job_Some(6))
    then show ?thesis using due_job_current [OF ok r] decode_job_Some(6) [OF r(2)] by simp
  qed
  then show ?thesis using due_jobs_order [OF ok assms(2)] due_complete [OF assms(2)] by blast
qed

lemma due_work_captured:
  assumes "reachable store_start (delivery_step tz render fromisoformat freshness) st"
    and "due st now project limit exclude listener = Inr (jobs, reported)" and "j \<in> set jobs"
  shows "job_due_at st j = Some (oj_due_at j) \<and> generation_open st j"
proof -
  have ok: "store_ok st" using delivery_system.inv_reachable [OF assms(1)] by (rule system_okD(1))
  obtain r where r: "r \<in> set (due_rows st now)" "decode_job now r = Some j" using due_job_row [OF assms(2,3)] by blast
  from ok r show ?thesis
  proof (cases rule: due_job_cases)
    case (binding w rv t b)
    then show ?thesis using workflows.get_row_Some [OF binding(2)] eligible_not_terminal [OF binding(8)]
      by (auto simp: job_due_at_def generation_open_def list_ex_iff)
  next
    case (workflow w rv t)
    then show ?thesis using workflows.get_row_Some [OF workflow(2)] eligible_not_terminal [OF workflow(8)]
      by (auto simp: job_due_at_def generation_open_def list_ex_iff)
  qed
qed

text \<open>
  C13: No job is attempted in a busy loop, and no refresh is lost. A job is read as due, collected over the network
  while other writes go on, and its attempt persisted, a success or a failure. The persisted attempt reschedules the
  job exactly when the due time it was read with still stands and its generation is still current; then the job is
  not due again before the poll interval, or a day if that is shorter, has passed. Otherwise the due time that was
  written in the meantime is left as it is.
\<close>

theorem attempted_work_waits:
  assumes "reachable store_start (delivery_step tz render fromisoformat freshness) st0" and "1 \<le> poll_seconds"
    and "due st0 now project limit exclude listener = Inr (jobs, reported)" and "j \<in> set jobs"
    and "(delivery_step tz render fromisoformat freshness)\<^sup>*\<^sup>* st0 st"
    and "persist_attempt tz render settings st j c started finished (attempt_delay poll_seconds freshness_seconds j c collection_time) ids
      decision_time pg_now later = Inr (st', moved)"
  shows "(moved \<longleftrightarrow> job_due_at st j = Some (oj_due_at j) \<and> generation_open st j) \<and>
    (if moved
     then \<forall>now' < later + min 86400 poll_seconds * 1000000. job_identity j \<notin> due_identity ` set (due_rows st' now')
     else job_due_at st' j = job_due_at st j)"
proof -
  let ?delay = "attempt_delay poll_seconds freshness_seconds j c collection_time"
  have ok0: "system_ok st0" by (rule delivery_system.inv_reachable [OF assms(1)])
  have ok: "system_ok st" by (rule delivery_system.inv_rtranclp [OF assms(5) ok0])
  obtain r where r: "r \<in> set (due_rows st0 now)" "decode_job now r = Some j" using due_job_row [OF assms(3,4)] by blast
  obtain st1 where st1: "record_attempt tz render settings st j c started finished ids decision_time pg_now = Inr st1"
    "schedule_after st1 j ?delay (oj_version j + 1) later = Inr (st', moved)"
  proof -
    from assms(6) obtain st1 where rec: "record_attempt tz render settings st j c started finished ids decision_time pg_now = Inr st1"
      "(case schedule_after st1 j ?delay (oj_version j + 1) later of Inl e \<Rightarrow> Inl (PersistQueue e) | Inr r \<Rightarrow> Inr r) = Inr (st', moved)"
      unfolding persist_attempt_def res_bind_eq_Inr by (elim exE conjE)
    from rec(2) have "schedule_after st1 j ?delay (oj_version j + 1) later = Inr (st', moved)"
      by (cases "schedule_after st1 j ?delay (oj_version j + 1) later") simp_all
    with rec(1) show thesis by (rule that)
  qed
  have delay: "min 86400 poll_seconds * 1000000 \<le> ?delay"
    using attempt_delay_bounds(3) [OF assms(2), of freshness_seconds j c collection_time] by (simp add: MAX_DELAY_def min_def split: if_splits)
  have job: "(moved \<longleftrightarrow> job_due_at st j = Some (oj_due_at j) \<and> generation_open st j) \<and> job_due_at st1 j = job_due_at st j \<and>
    (moved \<longrightarrow> (oj_kind j = ArtifactJob \<longrightarrow> (\<forall>x \<in> set (db_bindings (ds_db st')). ab_id (bw_binding x) = oj_subject_id j \<longrightarrow> bw_due_at x = Some (later + ?delay))) \<and>
       (oj_kind j = ContextJob \<longrightarrow> (\<forall>x \<in> set (store_workflows st'). wf_ticket_id x = oj_subject_id j \<longrightarrow> wf_context_due_at x = Some (later + ?delay))))"
    using system_okD(1) [OF ok0] r
  proof (cases rule: due_job_cases)
    case (binding w rv t b)
    have "ab_id (bw_binding b) = oj_subject_id j" using binding_rows.get_row_Some [OF binding(10)] by simp
    from binding_attempt [OF ok binding(1,11) this st1] binding(1) show ?thesis by simp
  next
    case (workflow w rv t)
    from context_attempt [OF ok workflow(1,11,10) st1] workflow(1) show ?thesis by simp
  qed
  have "job_identity j \<notin> due_identity ` set (due_rows st' now')" if "moved" "now' < later + min 86400 poll_seconds * 1000000" for now'
    using job that delay not_due_before [of _ st' now' "oj_kind j" "oj_subject_id j" "later + ?delay"] by (fastforce simp: job_identity_def)
  moreover have "job_due_at st' j = job_due_at st j" if "\<not> moved" using schedule_keeps [of st1 j] st1(2) that job by simp
  ultimately show ?thesis using job by simp
qed

text \<open>
  The liveness report measures the queue: the observer is healthy exactly when the lock is held and no
  due row of the queue is older than the threshold, and a negative threshold is refused.
\<close>

lemma liveness_measures_the_queue:
  "read_observer_liveness st now lock_held overdue_after_seconds =
     (if overdue_after_seconds < 0 then Inl ThresholdNegative
      else let n = length (filter (\<lambda>r. du_due_at r < now - overdue_after_seconds * 1000000) (due_rows st now)) in
        Inr \<lparr>ol_lock_held = lock_held, ol_overdue = n,
          ol_last_confirmation_age = map_option (\<lambda>f. max 0 ((now - f) div 1000000)) (newest_confirmation st), ol_healthy = (lock_held \<and> n = 0)\<rparr>)"
proof (cases "overdue_after_seconds < 0")
  case False
  then have "now - overdue_after_seconds * 1000000 \<le> now" by simp
  note count = overdue_counts_due_rows [OF this, of st]
  define n where "n = length (filter (\<lambda>r. du_due_at r < now - overdue_after_seconds * 1000000) (due_rows st now))"
  show ?thesis using False unfolding read_observer_liveness_def Let_def count n_def [symmetric] by simp
qed (simp add: read_observer_liveness_def)

section \<open>The run of the queue\<close>

text \<open>The bound pull request of the run is due, and its attempt is persisted.\<close>

abbreviation run_bound :: delivery_store where
  "run_bound \<equiv> run_store sample_ticket (run_work 2 3) [run_row] [] [] [] run_events"

definition run_job :: observation_job where
  "run_job = \<lparr>oj_kind = ArtifactJob, oj_subject_id = ''n1'', oj_ticket_id = ''t1'', oj_attempt = 1, oj_version = 1, oj_due_at = 3,
     oj_captured_at = 7000000, oj_contract = run_contract, oj_project_key = ''brain-v42'', oj_context_set_digest = sample_context,
     oj_binding = Some sample_proposal, oj_previous = None, oj_failure_count = 0\<rparr>"

lemma run_due: "due run_bound 7000000 None 10 {} True = Inr ([run_job], [])"
proof -
  have "observed_workflow run_bound (run_work 2 3) = Some (run_revision, sample_ticket)"
    by (simp add: observed_workflow_def run_lookups eligible_ticket_def) (simp add: sample_ticket_def new_ticket_def sample_data_def)
  then have obs: "observed_workflows run_bound = [(run_work 2 3, run_revision, sample_ticket)]"
    by (simp add: observed_workflows_def List.map_filter_simps)
  have idle: "\<not> context_due 7000000 (run_work 2 3) run_revision" by (simp add: context_due_def has_context_def)
  have digest: "wf_context_set_digest (run_work 2 3) = sample_context" by (simp add: run_work_def new_workflow_def)
  have row: "bw_due_at run_row = Some 3" "bw_success_confirmation run_row = None" by (simp_all add: run_row_def)
  let ?row = "\<lparr>du_kind = ArtifactJob, du_subject_id = ''n1'', du_ticket_id = ''t1'', du_attempt = 1, du_context_set_digest = sample_context,
     du_contract = run_contract, du_project_key = ''brain-v42'', du_version = 1, du_due_at = 3, du_binding_row = Some sample_proposal, du_previous = None,
     du_failure_count = 0\<rparr>"
  have "artifact_due run_bound 7000000 (run_work 2 3, run_revision, sample_ticket) run_row = Some ?row"
    using idle by (simp add: artifact_due_def row digest success_proof_def get_confirmation_def failures_def)
  moreover have "context_job run_bound 7000000 (run_work 2 3, run_revision, sample_ticket) = None" using idle by (simp add: context_job_def)
  ultimately have "due_rows run_bound 7000000 = [?row]" by (simp add: due_rows_def obs List.map_filter_simps)
  moreover have "decode_job 7000000 ?row = Some run_job"
  proof -
    have "valid_artifact_binding sample_proposal"
      by (simp add: valid_artifact_binding_def sample_proposal_def in_len_def valid_key_def opt_ok_def is_lower_def)
    then show ?thesis using run_contract_valid by (simp add: decode_job_def opt_ok_def decode_previous_def run_job_def)
  qed
  ultimately show ?thesis by (simp add: due_def due_selection_def opt_ok_def)
qed

lemma run_persist:
  "\<exists>st' moved. persist_attempt (\<lambda>t. t) (\<lambda>_. ''t'') (Some (300, run_observer)) run_bound run_job (CollectedPr sample_evidence) 8000000 9000000
     (attempt_delay 60 600 run_job (CollectedPr sample_evidence) 1000000) \<lparr>id_snapshot = ''s1'', id_confirmation = ''o1'', id_receipts = (''r1'', ''r2'')\<rparr>
     10000000 10000000 11000000 = Inr (st', moved)"
proof -
  let ?st = "run_published sample_ticket 3 10000000 [run_receipt_row]"
  let ?delay = "attempt_delay 60 600 run_job (CollectedPr sample_evidence) 1000000"
  have "oj_version run_job = 1" "oj_binding run_job = Some sample_proposal" by (simp_all add: run_job_def)
  then have "record_attempt (\<lambda>t. t) (\<lambda>_. ''t'') (Some (300, run_observer)) run_bound run_job (CollectedPr sample_evidence) 8000000 9000000
      \<lparr>id_snapshot = ''s1'', id_confirmation = ''o1'', id_receipts = (''r1'', ''r2'')\<rparr> 10000000 10000000 = Inr ?st"
    using run_observe by (auto simp: record_attempt_def attempt_code_def lift_persist_def)
  moreover have "\<exists>st' moved. schedule_after ?st run_job ?delay (oj_version run_job + 1) 11000000 = Inr (st', moved)"
    using attempt_delay_bounds(1,2) [of 60 600 run_job "CollectedPr sample_evidence" 1000000] by (simp add: schedule_after_def Let_def)
  ultimately show ?thesis by (auto simp: persist_attempt_def)
qed

theorem purge_is_invisible_witness:
  "\<exists>st' report. purge (run_published sample_ticket 3 10000000 [run_receipt_row]) 604800000000 100 1 False 900000000000 {} = Inr (st', report) \<and>
     load_inputs st' ''t1'' True 300 = load_inputs (run_published sample_ticket 3 10000000 [run_receipt_row]) ''t1'' True 300 \<and>
     rr_deleted report + length (ds_confirmations st') = 1"
proof -
  let ?st = "run_published sample_ticket 3 10000000 [run_receipt_row]"
  obtain st' report where p: "purge ?st 604800000000 100 1 False 900000000000 {} = Inr (st', report)"
    by (cases "purge_loop 295200000000 100 {} 1 ?st") (auto simp: purge_def SEVEN_DAYS_def Let_def)
  have "length (ds_confirmations ?st) = 1" by (simp add: run_published_def)
  with purge_is_invisible [OF run_reachable(3) [of "\<lambda>_. None"] p, of "''t1''" True 300 0] p show ?thesis by auto
qed

theorem due_work_is_current_witness:
  "due run_bound 7000000 None 10 {} True = Inr ([run_job], []) \<and> job_current run_bound run_job"
  using due_work_is_current [OF run_reachable(1) [of "\<lambda>_. None"] run_due] run_due by simp

theorem attempted_work_waits_witness:
  "\<exists>st'. persist_attempt (\<lambda>t. t) (\<lambda>_. ''t'') (Some (300, run_observer)) run_bound run_job (CollectedPr sample_evidence) 8000000 9000000
     (attempt_delay 60 600 run_job (CollectedPr sample_evidence) 1000000) \<lparr>id_snapshot = ''s1'', id_confirmation = ''o1'', id_receipts = (''r1'', ''r2'')\<rparr>
     10000000 10000000 11000000 = Inr (st', True) \<and> job_identity run_job \<notin> due_identity ` set (due_rows st' 70000000)"
proof -
  obtain st' moved where p: "persist_attempt (\<lambda>t. t) (\<lambda>_. ''t'') (Some (300, run_observer)) run_bound run_job (CollectedPr sample_evidence) 8000000 9000000
     (attempt_delay 60 600 run_job (CollectedPr sample_evidence) 1000000) \<lparr>id_snapshot = ''s1'', id_confirmation = ''o1'', id_receipts = (''r1'', ''r2'')\<rparr>
     10000000 10000000 11000000 = Inr (st', moved)" using run_persist by (elim exE)
  have "job_due_at run_bound run_job = Some (oj_due_at run_job)" "generation_open run_bound run_job"
    using due_work_captured [OF run_reachable(1) [of "\<lambda>_. None"] run_due, of run_job] by simp_all
  moreover have "(moved \<longleftrightarrow> job_due_at run_bound run_job = Some (oj_due_at run_job) \<and> generation_open run_bound run_job) \<and>
    (if moved then \<forall>now' < 11000000 + min 86400 60 * 1000000. job_identity run_job \<notin> due_identity ` set (due_rows st' now')
     else job_due_at st' run_job = job_due_at run_bound run_job)"
    by (rule attempted_work_waits [OF run_reachable(1) [of "\<lambda>_. None"] _ run_due _ rtranclp.rtrancl_refl p]) simp_all
  ultimately show ?thesis using p by simp
qed

end
