(* ===== verification/Ascii_Json.thy ===== *)
theory Ascii_Json
  imports Canonical_Json
begin

text \<open>
  \<open>json.dumps\<close> with its default \<open>ensure_ascii=True\<close>: every character outside printable ASCII is
  escaped, a code point beyond the basic plane as a surrogate pair, and the items of a mapping keep
  their order. The separators are arguments. The programme publisher measures such a text and the
  knowledge layer hashes one.
\<close>

definition ascii_escape :: "nat \<Rightarrow> utext" where
  "ascii_escape c =
     (if c = 34 then [92, 34] else if c = 92 then [92, 92]
      else if c = 8 then [92, 98] else if c = 9 then [92, 116] else if c = 10 then [92, 110]
      else if c = 12 then [92, 102] else if c = 13 then [92, 114]
      else if 32 \<le> c \<and> c \<le> 126 then [c]
      else if c < 65536 then [92, 117] @ codes (hex_nat 4 c)
      else [92, 117] @ codes (hex_nat 4 (55296 + (c - 65536) div 1024)) @
           [92, 117] @ codes (hex_nat 4 (56320 + (c - 65536) mod 1024)))"

definition ascii_str :: "utext \<Rightarrow> utext" where
  "ascii_str s = [34] @ concat (map ascii_escape s) @ [34]"

fun dumps_ascii :: "utext \<Rightarrow> utext \<Rightarrow> json \<Rightarrow> utext" where
  "dumps_ascii item_sep key_sep JNull = codes ''null''"
| "dumps_ascii item_sep key_sep (JBool b) = (if b then codes ''true'' else codes ''false'')"
| "dumps_ascii item_sep key_sep (JInt i) = codes (show_int i)"
| "dumps_ascii item_sep key_sep (JStr s) = ascii_str s"
| "dumps_ascii item_sep key_sep (JArr vs) = [91] @ join item_sep (map (dumps_ascii item_sep key_sep) vs) @ [93]"
| "dumps_ascii item_sep key_sep (JObj kvs) =
     [123] @ join item_sep (map (\<lambda>kv. ascii_str (fst kv) @ key_sep @ dumps_ascii item_sep key_sep (snd kv)) kvs) @ [125]"

text \<open>An upper bound of the published size that evaluates by rewriting.\<close>

fun dump_bound :: "json \<Rightarrow> nat" where
  "dump_bound JNull = 4"
| "dump_bound (JBool b) = 5"
| "dump_bound (JInt i) = length (show_int i)"
| "dump_bound (JStr s) = 12 * length s + 2"
| "dump_bound (JArr vs) = 2 + sum_list (map (\<lambda>v. dump_bound v + 2) vs)"
| "dump_bound (JObj kvs) = 2 + sum_list (map (\<lambda>kv. 12 * length (fst kv) + 6 + dump_bound (snd kv)) kvs)"

lemma length_join: "length (join sep xs) \<le> sum_list (map (\<lambda>x. length x + length sep) xs)"
  by (induction sep xs rule: join.induct) auto

lemma length_codes [simp]: "length (codes s) = length s"
  by (simp add: codes_def)

lemma length_ascii_str: "length (ascii_str s) \<le> 12 * length s + 2"
proof -
  have one: "length (ascii_escape c) \<le> 12" for c by (simp add: ascii_escape_def)
  have "length (concat (map ascii_escape s)) \<le> 12 * length s"
  proof (induction s)
    case (Cons c s)
    then show ?case using one [of c] by simp
  qed simp
  then show ?thesis by (simp add: ascii_str_def)
qed

lemma length_dumps_ascii:
  assumes "length item_sep \<le> 2" and "length key_sep \<le> 2"
  shows "length (dumps_ascii item_sep key_sep v) \<le> dump_bound v"
proof (induction v)
  case (JStr s)
  then show ?case using length_ascii_str [of s] by simp
next
  case (JArr vs)
  let ?texts = "map (dumps_ascii item_sep key_sep) vs"
  have "length (join item_sep ?texts) \<le> sum_list (map (\<lambda>v. length (dumps_ascii item_sep key_sep v) + length item_sep) vs)"
    using length_join [of item_sep ?texts] by (simp add: comp_def)
  also have "\<dots> \<le> sum_list (map (\<lambda>v. dump_bound v + 2) vs)"
    using JArr assms(1) by (intro sum_list_mono add_mono) auto
  finally show ?case by simp
next
  case (JObj kvs)
  let ?item = "\<lambda>kv. ascii_str (fst kv) @ key_sep @ dumps_ascii item_sep key_sep (snd kv)"
  have "length (join item_sep (map ?item kvs)) \<le> sum_list (map (\<lambda>kv. length (?item kv) + length item_sep) kvs)"
    using length_join [of item_sep "map ?item kvs"] by (simp add: comp_def)
  also have "\<dots> \<le> sum_list (map (\<lambda>kv. 12 * length (fst kv) + 6 + dump_bound (snd kv)) kvs)"
  proof (intro sum_list_mono)
    fix kv assume "kv \<in> set kvs"
    then have "length (dumps_ascii item_sep key_sep (snd kv)) \<le> dump_bound (snd kv)"
      using JObj [of kv "snd kv"] by (cases kv rule: prod.exhaust) simp
    then show "length (?item kv) + length item_sep \<le> 12 * length (fst kv) + 6 + dump_bound (snd kv)"
      using length_ascii_str [of "fst kv"] assms by simp
  qed
  finally show ?case by simp
qed simp_all

end
