(* ===== verification/Programme.thy ===== *)
theory Programme
  imports Delivery_Model Project_Key Dependency_Graph Ascii_Json
begin

text \<open>
  Programmes and their gates: \<open>src/brain_v42/models/programme.py\<close> (the limits and the checks of a
  declared text), \<open>src/brain_v42/services/programme_service.py\<close> (the caller and every input, checked
  before a write) and \<open>src/brain_v42/repositories/pg_programme.py\<close> (authority, caps, transitions and
  the published shape), over the two tables of \<open>src/brain_v42/db/tables.py\<close>.

  \<^item> Declared texts and keys are lists of code points. The general category of a code point
    (\<open>unicodedata.category\<close>, a table of the Unicode database) is the parameter \<open>category\<close>.
  \<^item> Columns that a CHECK keeps null together and that every statement writes together are one field:
    a gate's request, its progress, and a programme's last change.
  \<^item> A repository call holds the write lock until its transaction ends, so it is one step on the
    database. Its arguments \<open>fresh_id\<close> and \<open>pg_now\<close> are the identifier the database draws and the
    transaction's clock.
  \<^item> \<open>statement\<close> is an INSERT or UPDATE that the constraints of the tables let through.
\<close>

section \<open>Limits and vocabulary\<close>

datatype gate_state = GTodo | GInProgress | GBlocked | GDone
datatype programme_state = PmActive | PmPaused | PmDone

definition gate_state_text :: "gate_state \<Rightarrow> string" where
  "gate_state_text s = (case s of GTodo \<Rightarrow> ''todo'' | GInProgress \<Rightarrow> ''in_progress''
     | GBlocked \<Rightarrow> ''blocked'' | GDone \<Rightarrow> ''done'')"

definition programme_state_text :: "programme_state \<Rightarrow> string" where
  "programme_state_text s = (case s of PmActive \<Rightarrow> ''active'' | PmPaused \<Rightarrow> ''paused'' | PmDone \<Rightarrow> ''done'')"

definition GATE_STATES :: "gate_state list" where
  "GATE_STATES = [GTodo, GInProgress, GBlocked, GDone]"

definition PROGRAMME_STATES :: "programme_state list" where
  "PROGRAMME_STATES = [PmActive, PmPaused, PmDone]"

definition PROGRAMME_KEY_MAX :: nat where "PROGRAMME_KEY_MAX = 64"
definition GATE_KEY_MAX :: nat where "GATE_KEY_MAX = 32"
definition TITLE_MAX :: nat where "TITLE_MAX = 120"
definition LINE_MAX :: nat where "LINE_MAX = 200"
definition UNIT_MAX :: nat where "UNIT_MAX = 24"
definition DEPENDS_ON_MAX :: nat where "DEPENDS_ON_MAX = 12"
definition POSITION_MAX :: int where "POSITION_MAX = 9999"
definition DONE_PROGRAMMES_PUBLISHED :: nat where "DONE_PROGRAMMES_PUBLISHED = 4"
definition DONE_PUBLISHED_DAYS :: int where "DONE_PUBLISHED_DAYS = 7"
definition PROGRESS_TOTAL_MAX :: int where "PROGRESS_TOTAL_MAX = 100000"

text \<open>The caps of the repository, with the defaults of its constructor.\<close>

record programme_limits =
  max_live :: nat
  max_gates :: nat
  max_bytes :: nat
  max_live_per_coordinator :: nat
  max_programmes_per_coordinator :: nat

definition contract_limits :: programme_limits where
  "contract_limits = \<lparr>max_live = 8, max_gates = 32, max_bytes = 16 * 1024,
     max_live_per_coordinator = 4, max_programmes_per_coordinator = 40\<rparr>"

datatype programme_error =
    InvalidKey | InvalidText | InvalidWeight | InvalidProgress | InvalidState | InvalidPosition
  | InvalidOwner | ConflictingArguments | NothingToReport | CallerUnidentified
  | ProgrammeIncomplete | ProgrammeLimitReached | CoordinatorLimitReached | GateIncomplete
  | GateLimitReached | ProgrammeNotFound | GateNotFound | NotCoordinator | NotGateOwner
  | OwnerUnknown | InvalidDependencies | UnknownDependency | DependencyCycle utext
  | RecursionLimit | ProgrammeTooLarge nat | DatabaseRefused

section \<open>Declared texts\<close>

definition FORBIDDEN_CATEGORIES :: "string list" where
  "FORBIDDEN_CATEGORIES = [''Cc'', ''Cf'', ''Cs'', ''Co'', ''Cn'', ''Zl'', ''Zp'']"

definition BLANK_FILLERS :: "nat list" where
  "BLANK_FILLERS = [0x034F, 0x115F, 0x1160, 0x2800, 0x3164, 0xFFA0]"

definition forbidden :: "(nat \<Rightarrow> string) \<Rightarrow> nat \<Rightarrow> bool" where
  "forbidden category c = (category c \<in> set FORBIDDEN_CATEGORIES \<or> c \<in> set BLANK_FILLERS)"

text \<open>The characters \<open>str.strip\<close> removes, and the grammar of a key.\<close>

definition u_space :: "nat \<Rightarrow> bool" where
  "u_space c = ((9 \<le> c \<and> c \<le> 13) \<or> (28 \<le> c \<and> c \<le> 32) \<or> (8192 \<le> c \<and> c \<le> 8202) \<or>
     c \<in> set [133, 160, 5760, 8232, 8233, 8239, 8287, 12288])"

definition u_strip :: "utext \<Rightarrow> utext" where
  "u_strip s = rev (dropWhile u_space (rev (dropWhile u_space s)))"

definition key_start :: "nat \<Rightarrow> bool" where
  "key_start c = ((65 \<le> c \<and> c \<le> 90) \<or> (97 \<le> c \<and> c \<le> 122) \<or> (48 \<le> c \<and> c \<le> 57))"

definition is_key :: "utext \<Rightarrow> bool" where
  "is_key s = (case s of [] \<Rightarrow> False
     | c # cs \<Rightarrow> key_start c \<and> list_all (\<lambda>d. key_start d \<or> d \<in> set [46, 95, 45]) cs)"

definition checked_key :: "nat \<Rightarrow> pyval \<Rightarrow> (programme_error, utext) result" where
  "checked_key limit v = (case v of
       PStr s \<Rightarrow> if limit < length s \<or> \<not> is_key s then Inl InvalidKey else Inr s
     | _ \<Rightarrow> Inl InvalidKey)"

definition programme_key :: "pyval \<Rightarrow> (programme_error, utext) result" where
  "programme_key = checked_key PROGRAMME_KEY_MAX"

definition gate_key :: "pyval \<Rightarrow> (programme_error, utext) result" where
  "gate_key = checked_key GATE_KEY_MAX"

definition declared_line :: "(nat \<Rightarrow> string) \<Rightarrow> nat \<Rightarrow> pyval \<Rightarrow> (programme_error, utext) result" where
  "declared_line category limit v = (case v of
       PStr s \<Rightarrow>
         if s = [] \<or> limit < length s then Inl InvalidText
         else if u_strip s \<noteq> s then Inl InvalidText
         else if list_ex (forbidden category) s then Inl InvalidText
         else Inr s
     | _ \<Rightarrow> Inl InvalidText)"

definition checked_weight :: "pyval \<Rightarrow> (programme_error, int) result" where
  "checked_weight v = (case v of
       PInt n \<Rightarrow> if 1 \<le> n \<and> n \<le> 100 then Inr n else Inl InvalidWeight
     | _ \<Rightarrow> Inl InvalidWeight)"

record gate_progress =
  gp_done :: int
  gp_total :: int
  gp_unit :: utext

definition checked_progress ::
    "(nat \<Rightarrow> string) \<Rightarrow> pyval \<Rightarrow> pyval \<Rightarrow> pyval \<Rightarrow> (programme_error, gate_progress) result" where
  "checked_progress category finished whole unit = (case (finished, whole) of
       (PInt d, PInt t) \<Rightarrow>
         if \<not> (1 \<le> t \<and> t \<le> PROGRESS_TOTAL_MAX) \<or> \<not> (0 \<le> d \<and> d \<le> t) then Inl InvalidProgress
         else res_bind (declared_line category UNIT_MAX unit)
                (\<lambda>u. Inr \<lparr>gp_done = d, gp_total = t, gp_unit = u\<rparr>)
     | _ \<Rightarrow> Inl InvalidProgress)"

section \<open>Tables\<close>

record last_change =
  lc_gate :: utext
  lc_from :: gate_state
  lc_to :: gate_state
  lc_at :: instant
  lc_by :: string

record programme_row =
  pm_id :: uuid
  pm_key :: utext
  pm_title :: utext
  pm_coordinator :: string
  pm_state :: programme_state
  pm_position :: int
  pm_last_change :: "last_change option"
  pm_created_at :: instant
  pm_updated_at :: instant
  pm_updated_by :: string

record gate_row =
  gt_id :: uuid
  gt_programme :: uuid
  gt_key :: utext
  gt_title :: utext
  gt_owner :: string
  gt_state :: gate_state
  gt_depends_on :: "utext list"
  gt_weight :: int
  gt_waiting :: "(utext \<times> instant) option"
  gt_progress :: "gate_progress option"
  gt_note :: "utext option"
  gt_position :: int
  gt_created_at :: instant
  gt_updated_at :: instant
  gt_updated_by :: string

record programme_db =
  pb_projects :: "string list"
  pb_programmes :: "programme_row list"
  pb_gates :: "gate_row list"

text \<open>The constraints: the CHECKs as their regular expressions read, the widths of the columns, the
  keys and the references.\<close>

definition edge_space :: "nat \<Rightarrow> bool" where
  "edge_space c = ((8192 \<le> c \<and> c \<le> 8202) \<or> c \<in> set [32, 160, 5760, 8239, 8287, 12288])"

definition db_forbidden :: "nat \<Rightarrow> bool" where
  "db_forbidden c = ((1 \<le> c \<and> c \<le> 31) \<or> (127 \<le> c \<and> c \<le> 159) \<or> (8203 \<le> c \<and> c \<le> 8207) \<or>
     (8232 \<le> c \<and> c \<le> 8233) \<or> (8234 \<le> c \<and> c \<le> 8238) \<or> (8294 \<le> c \<and> c \<le> 8297) \<or> c = 65279)"

definition db_line :: "nat \<Rightarrow> utext \<Rightarrow> bool" where
  "db_line limit s =
     (s \<noteq> [] \<and> \<not> edge_space (hd s) \<and> \<not> edge_space (last s) \<and> length s \<le> limit \<and>
      \<not> list_ex db_forbidden s)"

definition key_fits :: "nat \<Rightarrow> utext \<Rightarrow> bool" where
  "key_fits limit s = (is_key s \<and> length s \<le> limit)"

definition project_fits :: "string \<Rightarrow> bool" where
  "project_fits s = (is_kebab s \<and> length s \<le> 50)"

definition position_fits :: "int \<Rightarrow> bool" where
  "position_fits n = (0 \<le> n \<and> n < 2 ^ 31)"

definition db_depends_on :: "utext \<Rightarrow> utext list \<Rightarrow> bool" where
  "db_depends_on key ds =
     (let joined = join [44] ds; parts = (if joined = [] then [] else split_on 44 joined) in
      length ds \<le> 12 \<and> length parts = length ds \<and> list_all (key_fits 32) parts \<and> key \<notin> set ds)"

definition programme_checks :: "programme_row \<Rightarrow> bool" where
  "programme_checks p =
     (key_fits 64 (pm_key p) \<and> db_line 120 (pm_title p) \<and> position_fits (pm_position p) \<and>
      project_fits (pm_updated_by p) \<and>
      opt_ok (\<lambda>c. key_fits 32 (lc_gate c) \<and> project_fits (lc_by c) \<and> lc_from c \<noteq> lc_to c) (pm_last_change p))"

definition gate_checks :: "gate_row \<Rightarrow> bool" where
  "gate_checks g =
     (key_fits 32 (gt_key g) \<and> db_line 120 (gt_title g) \<and> db_depends_on (gt_key g) (gt_depends_on g) \<and>
      1 \<le> gt_weight g \<and> gt_weight g \<le> 100 \<and> opt_ok (\<lambda>w. db_line 200 (fst w)) (gt_waiting g) \<and>
      opt_ok (\<lambda>p. 1 \<le> gp_total p \<and> gp_total p \<le> 100000 \<and> 0 \<le> gp_done p \<and> gp_done p \<le> gp_total p \<and>
        db_line 24 (gp_unit p)) (gt_progress g) \<and>
      opt_ok (db_line 200) (gt_note g) \<and> position_fits (gt_position g) \<and> project_fits (gt_updated_by g))"

definition db_valid :: "programme_db \<Rightarrow> bool" where
  "db_valid db =
     (distinct (map pm_id (pb_programmes db)) \<and> distinct (map pm_key (pb_programmes db)) \<and>
      list_all programme_checks (pb_programmes db) \<and>
      list_all (\<lambda>p. pm_coordinator p \<in> set (pb_projects db)) (pb_programmes db) \<and>
      distinct (map gt_id (pb_gates db)) \<and> distinct (map (\<lambda>g. (gt_programme g, gt_key g)) (pb_gates db)) \<and>
      list_all gate_checks (pb_gates db) \<and>
      list_all (\<lambda>g. gt_owner g \<in> set (pb_projects db) \<and> gt_programme g \<in> pm_id ` set (pb_programmes db))
        (pb_gates db))"

definition statement :: "programme_db \<Rightarrow> (programme_error, programme_db) result" where
  "statement db = (if db_valid db then Inr db else Inl DatabaseRefused)"

section \<open>The published shape\<close>

definition jtext :: "string \<Rightarrow> json" where
  "jtext s = JStr (codes s)"

definition jopt :: "('a \<Rightarrow> json) \<Rightarrow> 'a option \<Rightarrow> json" where
  "jopt f x = (case x of None \<Rightarrow> JNull | Some y \<Rightarrow> f y)"

definition jobj :: "(string \<times> json) list \<Rightarrow> json" where
  "jobj kvs = JObj (map (\<lambda>(k, v). (codes k, v)) kvs)"

definition jinstant :: "instant \<Rightarrow> json" where
  "jinstant t = jtext (isoformat_utc t)"

definition published_gate :: "gate_row \<Rightarrow> json" where
  "published_gate g = jobj
     [(''key'', JStr (gt_key g)), (''title'', JStr (gt_title g)), (''owner'', jtext (gt_owner g)),
      (''state'', jtext (gate_state_text (gt_state g))),
      (''depends_on'', JArr (map JStr (gt_depends_on g))), (''weight'', JInt (gt_weight g)),
      (''waiting_on_operator'', jopt (\<lambda>(ask, since). jobj [(''ask'', JStr ask), (''since'', jinstant since)])
         (gt_waiting g)),
      (''progress'', jopt (\<lambda>p. jobj [(''done'', JInt (gp_done p)), (''total'', JInt (gp_total p)),
         (''unit'', JStr (gp_unit p))]) (gt_progress g)),
      (''note'', jopt JStr (gt_note g)), (''updated_at'', jinstant (gt_updated_at g)),
      (''updated_by'', jtext (gt_updated_by g))]"

definition published_programme :: "programme_row \<Rightarrow> gate_row list \<Rightarrow> json" where
  "published_programme p gates = jobj
     [(''key'', JStr (pm_key p)), (''title'', JStr (pm_title p)), (''coordinator'', jtext (pm_coordinator p)),
      (''state'', jtext (programme_state_text (pm_state p))),
      (''last_change'', jopt (\<lambda>c. jobj [(''gate'', JStr (lc_gate c)),
         (''from'', jtext (gate_state_text (lc_from c))), (''to'', jtext (gate_state_text (lc_to c))),
         (''at'', jinstant (lc_at c)), (''by'', jtext (lc_by c))]) (pm_last_change p)),
      (''gates'', JArr (map published_gate gates))]"

text \<open>\<open>json.dumps(v)\<close> with its defaults; its text is ASCII, so its encoded size is its length.\<close>

definition dumps_default :: "json \<Rightarrow> utext" where
  "dumps_default = dumps_ascii [44, 32] [58, 32]"

definition programme_order :: "programme_row \<Rightarrow> int \<times> instant \<times> utext" where
  "programme_order p = (pm_position p, pm_created_at p, pm_key p)"

definition gate_order :: "gate_row \<Rightarrow> int \<times> instant \<times> utext" where
  "gate_order g = (gt_position g, gt_created_at g, gt_key g)"

definition gates_of :: "programme_db \<Rightarrow> uuid \<Rightarrow> gate_row list" where
  "gates_of db pid = filter (\<lambda>g. gt_programme g = pid) (pb_gates db)"

definition published :: "programme_db \<Rightarrow> programme_row \<Rightarrow> json" where
  "published db p = published_programme p (sort_key gate_order (gates_of db (pm_id p)))"

section \<open>Reads\<close>

definition is_live :: "programme_state \<Rightarrow> bool" where
  "is_live s = (s \<in> set [PmActive, PmPaused])"

definition list_programmes :: "programme_db \<Rightarrow> bool \<Rightarrow> utext option \<Rightarrow> json list" where
  "list_programmes db include_done key =
     map (published db) (sort_key programme_order (filter (\<lambda>p. case key of
         Some k \<Rightarrow> pm_key p = k
       | None \<Rightarrow> include_done \<or> is_live (pm_state p)) (pb_programmes db)))"

definition recent_done :: "programme_db \<Rightarrow> instant \<Rightarrow> programme_row list" where
  "recent_done db now =
     take DONE_PROGRAMMES_PUBLISHED (sort_key (\<lambda>p. (- pm_updated_at p, pm_key p))
       (filter (\<lambda>p. pm_state p = PmDone \<and> now - DONE_PUBLISHED_DAYS * 86400000000 < pm_updated_at p)
          (pb_programmes db)))"

definition block_rows :: "programme_db \<Rightarrow> instant \<Rightarrow> programme_row list" where
  "block_rows db now =
     sort_key programme_order (filter (\<lambda>p. is_live (pm_state p) \<or> pm_id p \<in> pm_id ` set (recent_done db now))
       (pb_programmes db))"

definition published_block :: "programme_db \<Rightarrow> instant \<Rightarrow> json" where
  "published_block db now = jobj
     [(''version'', jtext ''programmes/v1''), (''programmes'', JArr (map (published db) (block_rows db now)))]"

section \<open>Writes\<close>

definition programme_by_key :: "programme_row list \<Rightarrow> utext \<Rightarrow> programme_row option" where
  "programme_by_key rows key = find_row (\<lambda>p. pm_key p = key) rows"

definition existing_programme :: "programme_db \<Rightarrow> utext \<Rightarrow> (programme_error, programme_row) result" where
  "existing_programme db key = (case programme_by_key (pb_programmes db) key of
       None \<Rightarrow> Inl ProgrammeNotFound | Some p \<Rightarrow> Inr p)"

definition gate_by_key :: "gate_row list \<Rightarrow> uuid \<times> utext \<Rightarrow> gate_row option" where
  "gate_by_key rows k = find_row (\<lambda>g. (gt_programme g, gt_key g) = k) rows"

definition existing_gate :: "programme_db \<Rightarrow> uuid \<Rightarrow> utext \<Rightarrow> (programme_error, gate_row) result" where
  "existing_gate db pid key = (case gate_by_key (pb_gates db) (pid, key) of
       None \<Rightarrow> Inl GateNotFound | Some g \<Rightarrow> Inr g)"

definition coordinator :: "programme_row \<Rightarrow> string \<Rightarrow> (programme_error, unit) result" where
  "coordinator p caller = ensure (pm_coordinator p = caller) NotCoordinator"

definition owner_or_coordinator :: "programme_row \<Rightarrow> gate_row \<Rightarrow> string \<Rightarrow> (programme_error, unit) result" where
  "owner_or_coordinator p g caller = ensure (caller \<in> {gt_owner g, pm_coordinator p}) NotGateOwner"

definition live_programmes :: "programme_db \<Rightarrow> programme_row list" where
  "live_programmes db = filter (\<lambda>p. is_live (pm_state p)) (pb_programmes db)"

definition coordinated_by :: "string \<Rightarrow> programme_row list \<Rightarrow> programme_row list" where
  "coordinated_by project rows = filter (\<lambda>p. pm_coordinator p = project) rows"

definition live_cap :: "programme_limits \<Rightarrow> programme_db \<Rightarrow> string \<Rightarrow> (programme_error, unit) result" where
  "live_cap lim db project =
     res_bind (ensure (length (live_programmes db) < max_live lim) ProgrammeLimitReached) (\<lambda>_.
     ensure (length (coordinated_by project (live_programmes db)) < max_live_per_coordinator lim)
       CoordinatorLimitReached)"

definition coordinator_total_cap :: "programme_limits \<Rightarrow> programme_db \<Rightarrow> string \<Rightarrow> (programme_error, unit) result" where
  "coordinator_total_cap lim db project =
     ensure (length (coordinated_by project (pb_programmes db)) < max_programmes_per_coordinator lim)
       CoordinatorLimitReached"

definition known_project :: "programme_db \<Rightarrow> string \<Rightarrow> (programme_error, unit) result" where
  "known_project db project = ensure (project \<in> set (pb_projects db)) OwnerUnknown"

definition dependency_graph :: "programme_db \<Rightarrow> uuid \<Rightarrow> utext graph" where
  "dependency_graph db pid = dict_of (map (\<lambda>g. (gt_key g, gt_depends_on g)) (gates_of db pid))"

definition dependencies ::
    "programme_db \<Rightarrow> uuid \<Rightarrow> utext \<Rightarrow> utext list \<Rightarrow> (programme_error, unit) result" where
  "dependencies db pid gate depends_on =
     (if DEPENDS_ON_MAX < length depends_on \<or> \<not> distinct depends_on then Inl InvalidDependencies
      else
        let graph = dependency_graph db pid;
            unknown = filter (\<lambda>k. k \<notin> fst ` set graph \<and> k \<noteq> gate) depends_on
        in if unknown \<noteq> [] then Inl UnknownDependency
           else (case acyclic_or_refuse (AList.update gate depends_on graph) of
                   Inl (CycleThrough k) \<Rightarrow> Inl (DependencyCycle k)
                 | Inl DepthExhausted \<Rightarrow> Inl RecursionLimit
                 | Inr _ \<Rightarrow> Inr ()))"

definition next_position :: "int list \<Rightarrow> int" where
  "next_position positions =
     (case positions of [] \<Rightarrow> 0 | p # ps \<Rightarrow> min (fold max ps p + 1) POSITION_MAX)"

definition checked :: "programme_limits \<Rightarrow> programme_db \<Rightarrow> utext \<Rightarrow> (programme_error, programme_db \<times> json) result" where
  "checked lim db key = res_bind (existing_programme db key) (\<lambda>p.
     let size = length (dumps_default (published db p)) in
     if max_bytes lim < size then Inl (ProgrammeTooLarge size) else Inr (db, published db p))"

definition put_programme ::
    "programme_db \<Rightarrow> uuid \<Rightarrow> (programme_row \<Rightarrow> programme_row) \<Rightarrow> (programme_error, programme_db) result" where
  "put_programme db pid f =
     statement (db\<lparr>pb_programmes := update_rows (\<lambda>p. pm_id p = pid) f (pb_programmes db)\<rparr>)"

definition touch :: "programme_db \<Rightarrow> uuid \<Rightarrow> string \<Rightarrow> instant \<Rightarrow> (programme_error, programme_db) result" where
  "touch db pid caller pg_now =
     put_programme db pid (\<lambda>p. p\<lparr>pm_updated_at := pg_now, pm_updated_by := caller\<rparr>)"

text \<open>A gate write: the caller's columns, the state when given, the signature; a changed state is the
  programme's last change.\<close>

definition write_gate ::
    "programme_db \<Rightarrow> programme_row \<Rightarrow> gate_row \<Rightarrow> string \<Rightarrow> gate_state option
     \<Rightarrow> (gate_row \<Rightarrow> gate_row) \<Rightarrow> instant \<Rightarrow> (programme_error, programme_db) result" where
  "write_gate db p g caller state changes pg_now =
     res_bind (statement (db\<lparr>pb_gates := update_rows (\<lambda>x. gt_id x = gt_id g)
        (\<lambda>x. (case state of None \<Rightarrow> changes x | Some s \<Rightarrow> (changes x)\<lparr>gt_state := s\<rparr>)
              \<lparr>gt_updated_at := pg_now, gt_updated_by := caller\<rparr>) (pb_gates db)\<rparr>)) (\<lambda>db1.
     case state of
       None \<Rightarrow> Inr db1
     | Some s \<Rightarrow>
         if s = gt_state g then Inr db1
         else put_programme db1 (pm_id p) (\<lambda>q. q\<lparr>pm_last_change := Some
           \<lparr>lc_gate = gt_key g, lc_from = gt_state g, lc_to = s, lc_at = pg_now, lc_by = caller\<rparr>\<rparr>))"

definition set_opt :: "('a \<Rightarrow> 'r \<Rightarrow> 'r) \<Rightarrow> 'a option \<Rightarrow> 'r \<Rightarrow> 'r" where
  "set_opt f x r = (case x of None \<Rightarrow> r | Some v \<Rightarrow> f v r)"

definition upsert_programme ::
    "programme_limits \<Rightarrow> programme_db \<Rightarrow> string \<Rightarrow> utext \<Rightarrow> utext option \<Rightarrow> programme_state option \<Rightarrow> int option
     \<Rightarrow> uuid \<Rightarrow> instant \<Rightarrow> (programme_error, programme_db \<times> json) result" where
  "upsert_programme lim db caller key title state position fresh_id pg_now =
     (case programme_by_key (pb_programmes db) key of
        None \<Rightarrow>
          (case title of
             None \<Rightarrow> Inl ProgrammeIncomplete
           | Some t \<Rightarrow>
               let new_state = (case state of None \<Rightarrow> PmActive | Some s \<Rightarrow> s) in
               res_bind (coordinator_total_cap lim db caller) (\<lambda>_.
               res_bind (if is_live new_state then live_cap lim db caller else Inr ()) (\<lambda>_.
               res_bind (statement (db\<lparr>pb_programmes := pb_programmes db @
                   [\<lparr>pm_id = fresh_id, pm_key = key, pm_title = t, pm_coordinator = caller,
                     pm_state = new_state,
                     pm_position = (case position of Some n \<Rightarrow> n
                       | None \<Rightarrow> next_position (map pm_position (pb_programmes db))),
                     pm_last_change = None, pm_created_at = pg_now, pm_updated_at = pg_now,
                     pm_updated_by = caller\<rparr>]\<rparr>)) (\<lambda>db'.
               checked lim db' key))))
      | Some p \<Rightarrow>
          res_bind (coordinator p caller) (\<lambda>_.
          res_bind (case state of
              Some s \<Rightarrow> if is_live s \<and> \<not> is_live (pm_state p) then live_cap lim db (pm_coordinator p) else Inr ()
            | None \<Rightarrow> Inr ()) (\<lambda>_.
          res_bind (put_programme db (pm_id p) (\<lambda>q.
              set_opt (\<lambda>n. pm_position_update (\<lambda>_. n)) position
                (set_opt (\<lambda>s. pm_state_update (\<lambda>_. s)) state
                  (set_opt (\<lambda>t. pm_title_update (\<lambda>_. t)) title
                    (q\<lparr>pm_updated_at := pg_now, pm_updated_by := caller\<rparr>))))) (\<lambda>db'.
          checked lim db' key))))"

definition gate_structure ::
    "utext option \<Rightarrow> string option \<Rightarrow> utext list option \<Rightarrow> int option \<Rightarrow> int option \<Rightarrow> gate_row \<Rightarrow> gate_row" where
  "gate_structure title owner depends_on wgt position g =
     set_opt (\<lambda>ds. gt_depends_on_update (\<lambda>_. ds)) depends_on
       (set_opt (\<lambda>n. gt_position_update (\<lambda>_. n)) position
         (set_opt (\<lambda>w. gt_weight_update (\<lambda>_. w)) wgt
           (set_opt (\<lambda>w. gt_owner_update (\<lambda>_. w)) owner
             (set_opt (\<lambda>t. gt_title_update (\<lambda>_. t)) title g))))"

definition upsert_gate ::
    "programme_limits \<Rightarrow> programme_db \<Rightarrow> string \<Rightarrow> utext \<Rightarrow> utext \<Rightarrow> utext option \<Rightarrow> string option
     \<Rightarrow> utext list option \<Rightarrow> int option \<Rightarrow> int option \<Rightarrow> gate_state option \<Rightarrow> uuid \<Rightarrow> instant
     \<Rightarrow> (programme_error, programme_db \<times> json) result" where
  "upsert_gate lim db caller programme gate title owner depends_on wgt position state fresh_id pg_now =
     res_bind (existing_programme db programme) (\<lambda>p.
     res_bind (coordinator p caller) (\<lambda>_.
     res_bind (case owner of None \<Rightarrow> Inr () | Some w \<Rightarrow> known_project db w) (\<lambda>_.
     res_bind (case depends_on of None \<Rightarrow> Inr () | Some ds \<Rightarrow> dependencies db (pm_id p) gate ds) (\<lambda>_.
     res_bind
       (case gate_by_key (pb_gates db) (pm_id p, gate) of
          None \<Rightarrow>
            (case (title, owner) of
               (Some t, Some w) \<Rightarrow>
                 res_bind (ensure (length (gates_of db (pm_id p)) < max_gates lim) GateLimitReached) (\<lambda>_.
                 statement (db\<lparr>pb_gates := pb_gates db @
                   [\<lparr>gt_id = fresh_id, gt_programme = pm_id p, gt_key = gate, gt_title = t, gt_owner = w,
                     gt_state = (case state of None \<Rightarrow> GTodo | Some s \<Rightarrow> s),
                     gt_depends_on = (case depends_on of None \<Rightarrow> [] | Some ds \<Rightarrow> ds),
                     gt_weight = (case wgt of None \<Rightarrow> 1 | Some n \<Rightarrow> n),
                     gt_waiting = None, gt_progress = None, gt_note = None,
                     gt_position = (case position of Some n \<Rightarrow> n
                       | None \<Rightarrow> next_position (map gt_position (gates_of db (pm_id p)))),
                     gt_created_at = pg_now, gt_updated_at = pg_now, gt_updated_by = caller\<rparr>]\<rparr>))
             | _ \<Rightarrow> Inl GateIncomplete)
        | Some g \<Rightarrow> write_gate db p g caller state (gate_structure title owner depends_on wgt position) pg_now) (\<lambda>db1.
     res_bind (touch db1 (pm_id p) caller pg_now) (\<lambda>db2.
     checked lim db2 programme))))))"

text \<open>The gate operations of an owner: a report and the request to the operator share the reading,
  the authority check, the write, the signature of the programme and the size check.\<close>

definition gate_report ::
    "gate_progress option \<Rightarrow> bool \<Rightarrow> utext option \<Rightarrow> bool \<Rightarrow> gate_row \<Rightarrow> gate_row" where
  "gate_report progress clear_progress note clear_note g =
     (let g1 = (if clear_progress then g\<lparr>gt_progress := None\<rparr>
                else set_opt (\<lambda>p. gt_progress_update (\<lambda>_. Some p)) progress g)
      in if clear_note then g1\<lparr>gt_note := None\<rparr> else set_opt (\<lambda>n. gt_note_update (\<lambda>_. Some n)) note g1)"

definition report_gate ::
    "programme_limits \<Rightarrow> programme_db \<Rightarrow> string \<Rightarrow> utext \<Rightarrow> utext \<Rightarrow> gate_state option \<Rightarrow> gate_progress option
     \<Rightarrow> bool \<Rightarrow> utext option \<Rightarrow> bool \<Rightarrow> instant \<Rightarrow> (programme_error, programme_db \<times> json) result" where
  "report_gate lim db caller programme gate state progress clear_progress note clear_note pg_now =
     res_bind (existing_programme db programme) (\<lambda>p.
     res_bind (existing_gate db (pm_id p) gate) (\<lambda>g.
     res_bind (owner_or_coordinator p g caller) (\<lambda>_.
     res_bind (write_gate db p g caller state (gate_report progress clear_progress note clear_note) pg_now) (\<lambda>db1.
     res_bind (touch db1 (pm_id p) caller pg_now) (\<lambda>db2.
     checked lim db2 programme)))))"

definition gate_request :: "utext option \<Rightarrow> utext option \<Rightarrow> instant \<Rightarrow> gate_row \<Rightarrow> gate_row" where
  "gate_request current ask pg_now g =
     (case ask of
        None \<Rightarrow> g\<lparr>gt_waiting := None\<rparr>
      | Some a \<Rightarrow> if Some a = current then g else g\<lparr>gt_waiting := Some (a, pg_now)\<rparr>)"

definition operator_request ::
    "programme_limits \<Rightarrow> programme_db \<Rightarrow> string \<Rightarrow> utext \<Rightarrow> utext \<Rightarrow> utext option \<Rightarrow> instant
     \<Rightarrow> (programme_error, programme_db \<times> json) result" where
  "operator_request lim db caller programme gate ask pg_now =
     res_bind (existing_programme db programme) (\<lambda>p.
     res_bind (existing_gate db (pm_id p) gate) (\<lambda>g.
     res_bind (owner_or_coordinator p g caller) (\<lambda>_.
     res_bind (write_gate db p g caller None (gate_request (map_option fst (gt_waiting g)) ask pg_now) pg_now) (\<lambda>db1.
     res_bind (touch db1 (pm_id p) caller pg_now) (\<lambda>db2.
     checked lim db2 programme)))))"

interpretation programmes: keyed_table pm_key programme_by_key
  by unfold_locales (simp add: programme_by_key_def)

interpretation gates: keyed_table "\<lambda>g. (gt_programme g, gt_key g)" gate_by_key
  by unfold_locales (simp add: gate_by_key_def)

section \<open>The service\<close>

text \<open>What the credential layer resolved for the request: the principal and the project of its actor.\<close>

record request_identity =
  ri_principal :: "string option"
  ri_actor_project :: "string option"

definition current_caller :: "request_identity \<Rightarrow> (programme_error, string) result" where
  "current_caller ri = (case (ri_principal ri, ri_actor_project ri) of
       (Some _, Some project) \<Rightarrow> if project = [] then Inl CallerUnidentified else Inr project
     | _ \<Rightarrow> Inl CallerUnidentified)"

definition res_opt :: "('a \<Rightarrow> ('e, 'b) result) \<Rightarrow> 'a option \<Rightarrow> ('e, 'b option) result" where
  "res_opt f x = (case x of None \<Rightarrow> Inr None | Some v \<Rightarrow> res_bind (f v) (\<lambda>y. Inr (Some y)))"

definition checked_state :: "('s \<Rightarrow> string) \<Rightarrow> 's list \<Rightarrow> string \<Rightarrow> (programme_error, 's) result" where
  "checked_state text_of allowed value = (case List.find (\<lambda>s. text_of s = value) allowed of
       None \<Rightarrow> Inl InvalidState | Some s \<Rightarrow> Inr s)"

definition checked_position :: "pyval \<Rightarrow> (programme_error, int) result" where
  "checked_position v = (case v of
       PInt n \<Rightarrow> if 0 \<le> n \<and> n \<le> POSITION_MAX then Inr n else Inl InvalidPosition
     | _ \<Rightarrow> Inl InvalidPosition)"

definition checked_owner :: "string \<Rightarrow> (programme_error, string) result" where
  "checked_owner v = (case canonicalize_project_key True v of
       None \<Rightarrow> Inl InvalidOwner
     | Some c \<Rightarrow> if c \<noteq> v \<or> 50 < length v then Inl InvalidOwner else Inr v)"

definition service_list_programmes ::
    "programme_db \<Rightarrow> bool \<Rightarrow> pyval option \<Rightarrow> (programme_error, json list) result" where
  "service_list_programmes db include_done key =
     res_bind (res_opt programme_key key) (\<lambda>k. Inr (list_programmes db include_done k))"

definition service_upsert_programme ::
    "(nat \<Rightarrow> string) \<Rightarrow> programme_limits \<Rightarrow> programme_db \<Rightarrow> request_identity \<Rightarrow> pyval \<Rightarrow> pyval option
     \<Rightarrow> string option \<Rightarrow> pyval option \<Rightarrow> uuid \<Rightarrow> instant \<Rightarrow> (programme_error, programme_db \<times> json) result" where
  "service_upsert_programme category lim db ri key title state position fresh_id pg_now =
     res_bind (programme_key key) (\<lambda>k.
     res_bind (res_opt (declared_line category TITLE_MAX) title) (\<lambda>t.
     res_bind (res_opt (checked_state programme_state_text PROGRAMME_STATES) state) (\<lambda>s.
     res_bind (res_opt checked_position position) (\<lambda>n.
     res_bind (current_caller ri) (\<lambda>caller.
     upsert_programme lim db caller k t s n fresh_id pg_now)))))"

definition service_upsert_gate ::
    "(nat \<Rightarrow> string) \<Rightarrow> programme_limits \<Rightarrow> programme_db \<Rightarrow> request_identity \<Rightarrow> pyval \<Rightarrow> pyval
     \<Rightarrow> pyval option \<Rightarrow> string option \<Rightarrow> pyval list option \<Rightarrow> pyval option \<Rightarrow> pyval option \<Rightarrow> string option
     \<Rightarrow> uuid \<Rightarrow> instant \<Rightarrow> (programme_error, programme_db \<times> json) result" where
  "service_upsert_gate category lim db ri programme gate title owner depends_on wgt position state
     fresh_id pg_now =
     res_bind (programme_key programme) (\<lambda>k.
     res_bind (gate_key gate) (\<lambda>gk.
     res_bind (res_opt (declared_line category TITLE_MAX) title) (\<lambda>t.
     res_bind (res_opt checked_owner owner) (\<lambda>w.
     res_bind (res_opt (res_map gate_key) depends_on) (\<lambda>ds.
     res_bind (res_opt checked_weight wgt) (\<lambda>wt.
     res_bind (res_opt checked_position position) (\<lambda>n.
     res_bind (res_opt (checked_state gate_state_text GATE_STATES) state) (\<lambda>s.
     res_bind (current_caller ri) (\<lambda>caller.
     upsert_gate lim db caller k gk t w ds wt n s fresh_id pg_now)))))))))"

definition service_report_gate ::
    "(nat \<Rightarrow> string) \<Rightarrow> programme_limits \<Rightarrow> programme_db \<Rightarrow> request_identity \<Rightarrow> pyval \<Rightarrow> pyval
     \<Rightarrow> string option \<Rightarrow> (pyval \<times> pyval \<times> pyval) option \<Rightarrow> bool \<Rightarrow> pyval option \<Rightarrow> bool
     \<Rightarrow> instant \<Rightarrow> (programme_error, programme_db \<times> json) result" where
  "service_report_gate category lim db ri programme gate state progress clear_progress note clear_note pg_now =
     (if (progress \<noteq> None \<and> clear_progress) \<or> (note \<noteq> None \<and> clear_note) then Inl ConflictingArguments
      else if state = None \<and> progress = None \<and> note = None \<and> \<not> (clear_progress \<or> clear_note)
      then Inl NothingToReport
      else
        res_bind (programme_key programme) (\<lambda>k.
        res_bind (gate_key gate) (\<lambda>gk.
        res_bind (res_opt (checked_state gate_state_text GATE_STATES) state) (\<lambda>s.
        res_bind (res_opt (\<lambda>(d, t, u). checked_progress category d t u) progress) (\<lambda>pr.
        res_bind (res_opt (declared_line category LINE_MAX) note) (\<lambda>n.
        res_bind (current_caller ri) (\<lambda>caller.
        report_gate lim db caller k gk s pr clear_progress n clear_note pg_now)))))))"

definition service_request ::
    "(nat \<Rightarrow> string) \<Rightarrow> programme_limits \<Rightarrow> programme_db \<Rightarrow> request_identity \<Rightarrow> pyval \<Rightarrow> pyval
     \<Rightarrow> pyval option \<Rightarrow> instant \<Rightarrow> (programme_error, programme_db \<times> json) result" where
  "service_request category lim db ri programme gate ask pg_now =
     res_bind (programme_key programme) (\<lambda>k.
     res_bind (gate_key gate) (\<lambda>gk.
     res_bind (res_opt (declared_line category LINE_MAX) ask) (\<lambda>a.
     res_bind (current_caller ri) (\<lambda>caller.
     operator_request lim db caller k gk a pg_now))))"

end
