(* ===== verification/Programme_Board.thy ===== *)
theory Programme_Board
  imports Programme
begin

text \<open>
  The board of programmes as a transition system whose steps are the successful calls of the
  repository. \<open>board_ok\<close> is its invariant (an instance of \<open>invariant_system\<close>): the constraints of
  the tables, the caps, and for every programme the number of its gates, an acyclic dependency graph
  over its own gates, and the size of what is published of it. The theory then says who may change
  which row, what the last change of a programme records, and what the published block selects.
\<close>

section \<open>What a successful call wrote\<close>

lemma statement_Inr [result_simps]: "statement db = Inr db' \<longleftrightarrow> db' = db \<and> db_valid db"
  by (auto simp: statement_def)

lemma existing_programme_Inr:
  "existing_programme db key = Inr p \<Longrightarrow> p \<in> set (pb_programmes db) \<and> pm_key p = key"
  by (auto simp: existing_programme_def split: option.splits dest: programmes.get_row_Some)

lemma existing_gate_Inr:
  "existing_gate db pid key = Inr g \<Longrightarrow> g \<in> set (pb_gates db) \<and> gt_programme g = pid \<and> gt_key g = key"
  by (auto simp: existing_gate_def split: option.splits dest: gates.get_row_Some)

lemma checked_Inr:
  "checked lim db key = Inr (db', j) \<longleftrightarrow>
   db' = db \<and> (\<exists>p. existing_programme db key = Inr p \<and> j = published db p \<and>
     length (dumps_default (published db p)) \<le> max_bytes lim)"
  by (cases "existing_programme db key") (auto simp: checked_def Let_def)

text \<open>The row a gate write leaves, and the row of its programme.\<close>

definition signed_gate :: "string \<Rightarrow> gate_state option \<Rightarrow> (gate_row \<Rightarrow> gate_row) \<Rightarrow> instant \<Rightarrow> gate_row \<Rightarrow> gate_row" where
  "signed_gate caller state changes pg_now x =
     (case state of None \<Rightarrow> changes x | Some s \<Rightarrow> (changes x)\<lparr>gt_state := s\<rparr>)
       \<lparr>gt_updated_at := pg_now, gt_updated_by := caller\<rparr>"

definition state_change :: "gate_row \<Rightarrow> string \<Rightarrow> gate_state option \<Rightarrow> instant \<Rightarrow> last_change option" where
  "state_change g caller state pg_now = (case state of
       None \<Rightarrow> None
     | Some s \<Rightarrow> if s = gt_state g then None
         else Some \<lparr>lc_gate = gt_key g, lc_from = gt_state g, lc_to = s, lc_at = pg_now, lc_by = caller\<rparr>)"

definition signed_programme :: "string \<Rightarrow> last_change option \<Rightarrow> instant \<Rightarrow> programme_row \<Rightarrow> programme_row" where
  "signed_programme caller change pg_now p =
     p\<lparr>pm_last_change := (case change of None \<Rightarrow> pm_last_change p | Some c \<Rightarrow> Some c),
       pm_updated_at := pg_now, pm_updated_by := caller\<rparr>"

definition gate_written ::
    "programme_db \<Rightarrow> programme_row \<Rightarrow> gate_row \<Rightarrow> string \<Rightarrow> gate_state option \<Rightarrow> (gate_row \<Rightarrow> gate_row)
     \<Rightarrow> instant \<Rightarrow> programme_db" where
  "gate_written db p g caller state changes pg_now =
     db\<lparr>pb_gates := update_rows (\<lambda>x. gt_id x = gt_id g) (signed_gate caller state changes pg_now) (pb_gates db),
        pb_programmes := update_rows (\<lambda>q. pm_id q = pm_id p)
          (signed_programme caller (state_change g caller state pg_now) pg_now) (pb_programmes db)\<rparr>"

definition gate_added :: "programme_db \<Rightarrow> programme_row \<Rightarrow> gate_row \<Rightarrow> string \<Rightarrow> instant \<Rightarrow> programme_db" where
  "gate_added db p g caller pg_now =
     db\<lparr>pb_gates := pb_gates db @ [g],
        pb_programmes := update_rows (\<lambda>q. pm_id q = pm_id p) (signed_programme caller None pg_now) (pb_programmes db)\<rparr>"

lemma write_gate_touch:
  "res_bind (write_gate db p g caller state changes pg_now) (\<lambda>db1. touch db1 (pm_id p) caller pg_now) = Inr db2
   \<Longrightarrow> db2 = gate_written db p g caller state changes pg_now \<and> db_valid db2"
  by (cases state)
    (auto simp: write_gate_def touch_def put_programme_def gate_written_def result_simps signed_gate_def [abs_def]
      state_change_def signed_programme_def [abs_def] row_simps comp_def split: if_splits)

lemma gate_write_Inr:
  assumes "res_bind (write_gate db p g caller state changes pg_now) (\<lambda>db1.
     res_bind (touch db1 (pm_id p) caller pg_now) (\<lambda>db2. checked lim db2 key)) = Inr (db', j)"
  shows "db' = gate_written db p g caller state changes pg_now \<and> db_valid db' \<and> checked lim db' key = Inr (db', j)"
proof -
  from assms obtain db2 where "res_bind (write_gate db p g caller state changes pg_now)
      (\<lambda>db1. touch db1 (pm_id p) caller pg_now) = Inr db2" "checked lim db2 key = Inr (db', j)"
    by (auto simp: res_bind_assoc [symmetric] res_bind_eq_Inr [of _ "\<lambda>db2. checked lim db2 key"])
  with write_gate_touch show ?thesis by (metis checked_Inr)
qed

lemma report_gate_Inr:
  assumes "report_gate lim db caller programme gate state progress clear_progress note clear_note pg_now = Inr (db', j)"
  obtains p g where "p \<in> set (pb_programmes db)" "pm_key p = programme"
    "g \<in> set (pb_gates db)" "gt_programme g = pm_id p" "gt_key g = gate" "caller \<in> {gt_owner g, pm_coordinator p}"
    "db' = gate_written db p g caller state (gate_report progress clear_progress note clear_note) pg_now"
    "db_valid db'" "checked lim db' programme = Inr (db', j)"
proof -
  from assms obtain p g where pg: "existing_programme db programme = Inr p" "existing_gate db (pm_id p) gate = Inr g"
    "caller \<in> {gt_owner g, pm_coordinator p}"
    and w: "res_bind (write_gate db p g caller state (gate_report progress clear_progress note clear_note) pg_now) (\<lambda>db1.
     res_bind (touch db1 (pm_id p) caller pg_now) (\<lambda>db2. checked lim db2 programme)) = Inr (db', j)"
    by (auto simp: report_gate_def res_bind_eq_Inr ensure_eq owner_or_coordinator_def)
  from gate_write_Inr [OF w] pg existing_programme_Inr [OF pg(1)] existing_gate_Inr [OF pg(2)] show ?thesis
    by (intro that [of p g]) auto
qed

lemma operator_request_Inr:
  assumes "operator_request lim db caller programme gate ask pg_now = Inr (db', j)"
  obtains p g where "p \<in> set (pb_programmes db)" "pm_key p = programme"
    "g \<in> set (pb_gates db)" "gt_programme g = pm_id p" "gt_key g = gate" "caller \<in> {gt_owner g, pm_coordinator p}"
    "db' = gate_written db p g caller None (gate_request (map_option fst (gt_waiting g)) ask pg_now) pg_now"
    "db_valid db'" "checked lim db' programme = Inr (db', j)"
proof -
  from assms obtain p g where pg: "existing_programme db programme = Inr p" "existing_gate db (pm_id p) gate = Inr g"
    "caller \<in> {gt_owner g, pm_coordinator p}"
    and w: "res_bind (write_gate db p g caller None (gate_request (map_option fst (gt_waiting g)) ask pg_now) pg_now) (\<lambda>db1.
     res_bind (touch db1 (pm_id p) caller pg_now) (\<lambda>db2. checked lim db2 programme)) = Inr (db', j)"
    by (auto simp: operator_request_def res_bind_eq_Inr ensure_eq owner_or_coordinator_def)
  from gate_write_Inr [OF w] pg existing_programme_Inr [OF pg(1)] existing_gate_Inr [OF pg(2)] show ?thesis
    by (intro that [of p g]) auto
qed

definition new_gate ::
    "programme_db \<Rightarrow> programme_row \<Rightarrow> string \<Rightarrow> utext \<Rightarrow> utext \<Rightarrow> string \<Rightarrow> utext list option \<Rightarrow> int option
     \<Rightarrow> int option \<Rightarrow> gate_state option \<Rightarrow> uuid \<Rightarrow> instant \<Rightarrow> gate_row" where
  "new_gate db p caller gate t w depends_on wgt position state fresh_id pg_now =
     \<lparr>gt_id = fresh_id, gt_programme = pm_id p, gt_key = gate, gt_title = t, gt_owner = w,
      gt_state = (case state of None \<Rightarrow> GTodo | Some s \<Rightarrow> s),
      gt_depends_on = (case depends_on of None \<Rightarrow> [] | Some ds \<Rightarrow> ds),
      gt_weight = (case wgt of None \<Rightarrow> 1 | Some n \<Rightarrow> n), gt_waiting = None, gt_progress = None, gt_note = None,
      gt_position = (case position of Some n \<Rightarrow> n | None \<Rightarrow> next_position (map gt_position (gates_of db (pm_id p)))),
      gt_created_at = pg_now, gt_updated_at = pg_now, gt_updated_by = caller\<rparr>"

lemma add_gate_Inr:
  assumes "res_bind (statement (db\<lparr>pb_gates := pb_gates db @ [g]\<rparr>)) (\<lambda>db1.
     res_bind (touch db1 (pm_id p) caller pg_now) (\<lambda>db2. checked lim db2 key)) = Inr (db', j)"
  shows "db' = gate_added db p g caller pg_now \<and> db_valid db' \<and> checked lim db' key = Inr (db', j)"
  using assms
  by (auto simp: touch_def put_programme_def gate_added_def signed_programme_def [abs_def] res_bind_eq_Inr statement_Inr)
    (auto simp: checked_Inr)

lemma upsert_gate_Inr:
  assumes "upsert_gate lim db caller programme gate title owner depends_on wgt position state fresh_id pg_now = Inr (db', j)"
  obtains p where "p \<in> set (pb_programmes db)" "pm_key p = programme" "pm_coordinator p = caller"
    "\<forall>ds. depends_on = Some ds \<longrightarrow> dependencies db (pm_id p) gate ds = Inr ()"
    "db_valid db'" "checked lim db' programme = Inr (db', j)"
    "(\<exists>t w. title = Some t \<and> owner = Some w \<and> gate_by_key (pb_gates db) (pm_id p, gate) = None \<and>
        length (gates_of db (pm_id p)) < max_gates lim \<and>
        db' = gate_added db p (new_gate db p caller gate t w depends_on wgt position state fresh_id pg_now) caller pg_now) \<or>
     (\<exists>g. gate_by_key (pb_gates db) (pm_id p, gate) = Some g \<and>
        db' = gate_written db p g caller state (gate_structure title owner depends_on wgt position) pg_now)"
proof -
  from assms obtain p where p: "existing_programme db programme = Inr p" "pm_coordinator p = caller"
    "\<forall>ds. depends_on = Some ds \<longrightarrow> dependencies db (pm_id p) gate ds = Inr ()"
    by (auto simp: upsert_gate_def res_bind_eq_Inr ensure_eq coordinator_def split: option.splits)
  note row = existing_programme_Inr [OF p(1)]
  show ?thesis
  proof (cases "gate_by_key (pb_gates db) (pm_id p, gate)")
    case None
    with assms p(1) obtain t w where tw: "title = Some t" "owner = Some w" "length (gates_of db (pm_id p)) < max_gates lim"
      "res_bind (statement (db\<lparr>pb_gates := pb_gates db @
         [new_gate db p caller gate t w depends_on wgt position state fresh_id pg_now]\<rparr>)) (\<lambda>db1.
       res_bind (touch db1 (pm_id p) caller pg_now) (\<lambda>db2. checked lim db2 programme)) = Inr (db', j)"
      by (cases title; cases owner) (auto simp: upsert_gate_def res_bind_eq_Inr ensure_eq new_gate_def)
    from add_gate_Inr [OF tw(4)] tw None p row show ?thesis by (intro that [of p]) auto
  next
    case (Some g)
    with assms p(1) have "res_bind (write_gate db p g caller state (gate_structure title owner depends_on wgt position) pg_now)
      (\<lambda>db1. res_bind (touch db1 (pm_id p) caller pg_now) (\<lambda>db2. checked lim db2 programme)) = Inr (db', j)"
      by (auto simp: upsert_gate_def res_bind_const_Inr)
    from gate_write_Inr [OF this] Some p row show ?thesis by (intro that [of p]) auto
  qed
qed

definition new_programme ::
    "programme_db \<Rightarrow> string \<Rightarrow> utext \<Rightarrow> utext \<Rightarrow> programme_state option \<Rightarrow> int option \<Rightarrow> uuid \<Rightarrow> instant \<Rightarrow> programme_row" where
  "new_programme db caller key t state position fresh_id pg_now =
     \<lparr>pm_id = fresh_id, pm_key = key, pm_title = t, pm_coordinator = caller,
      pm_state = (case state of None \<Rightarrow> PmActive | Some s \<Rightarrow> s),
      pm_position = (case position of Some n \<Rightarrow> n | None \<Rightarrow> next_position (map pm_position (pb_programmes db))),
      pm_last_change = None, pm_created_at = pg_now, pm_updated_at = pg_now, pm_updated_by = caller\<rparr>"

definition changed_programme ::
    "string \<Rightarrow> utext option \<Rightarrow> programme_state option \<Rightarrow> int option \<Rightarrow> instant \<Rightarrow> programme_row \<Rightarrow> programme_row" where
  "changed_programme caller title state position pg_now q =
     set_opt (\<lambda>n. pm_position_update (\<lambda>_. n)) position
       (set_opt (\<lambda>s. pm_state_update (\<lambda>_. s)) state
         (set_opt (\<lambda>t. pm_title_update (\<lambda>_. t)) title
           (q\<lparr>pm_updated_at := pg_now, pm_updated_by := caller\<rparr>)))"

lemma upsert_programme_Inr:
  assumes "upsert_programme lim db caller key title state position fresh_id pg_now = Inr (db', j)"
  shows "db_valid db' \<and> checked lim db' key = Inr (db', j) \<and>
    ((\<exists>t. programme_by_key (pb_programmes db) key = None \<and> title = Some t \<and>
        length (coordinated_by caller (pb_programmes db)) < max_programmes_per_coordinator lim \<and>
        (is_live (pm_state (new_programme db caller key t state position fresh_id pg_now)) \<longrightarrow> live_cap lim db caller = Inr ()) \<and>
        db' = db\<lparr>pb_programmes := pb_programmes db @ [new_programme db caller key t state position fresh_id pg_now]\<rparr>) \<or>
     (\<exists>p. programme_by_key (pb_programmes db) key = Some p \<and> pm_coordinator p = caller \<and>
        (\<forall>s. state = Some s \<and> is_live s \<and> \<not> is_live (pm_state p) \<longrightarrow> live_cap lim db caller = Inr ()) \<and>
        db' = db\<lparr>pb_programmes := update_rows (\<lambda>q. pm_id q = pm_id p)
          (changed_programme caller title state position pg_now) (pb_programmes db)\<rparr>))"
proof (cases "programme_by_key (pb_programmes db) key")
  case None
  with assms show ?thesis
    by (cases title)
      (auto simp: upsert_programme_def new_programme_def coordinator_total_cap_def res_bind_eq_Inr ensure_eq statement_Inr
        Let_def checked_Inr split: if_splits)
next
  case (Some p)
  with assms show ?thesis
    by (cases state)
      (auto simp: upsert_programme_def changed_programme_def [abs_def] coordinator_def put_programme_def res_bind_eq_Inr ensure_eq
        statement_Inr Let_def checked_Inr split: if_splits)
qed

section \<open>The invariant of the board\<close>

definition caps_ok :: "programme_limits \<Rightarrow> programme_db \<Rightarrow> bool" where
  "caps_ok lim db =
     (length (live_programmes db) \<le> max_live lim \<and>
      (\<forall>c. length (coordinated_by c (live_programmes db)) \<le> max_live_per_coordinator lim) \<and>
      (\<forall>c. length (coordinated_by c (pb_programmes db)) \<le> max_programmes_per_coordinator lim))"

definition graph_ok :: "utext graph \<Rightarrow> bool" where
  "graph_ok gr = ((\<forall>(k, ds) \<in> set gr. length ds \<le> DEPENDS_ON_MAX \<and> distinct ds \<and> set ds \<subseteq> fst ` set gr) \<and>
     acyclic (edges gr))"

definition programme_ok :: "programme_limits \<Rightarrow> programme_db \<Rightarrow> programme_row \<Rightarrow> bool" where
  "programme_ok lim db p =
     (length (gates_of db (pm_id p)) \<le> max_gates lim \<and> graph_ok (dependency_graph db (pm_id p)) \<and>
      length (dumps_default (published db p)) \<le> max_bytes lim)"

definition board_ok :: "programme_limits \<Rightarrow> programme_db \<Rightarrow> bool" where
  "board_ok lim db = (db_valid db \<and> caps_ok lim db \<and> (\<forall>p \<in> set (pb_programmes db). programme_ok lim db p))"

inductive board_step :: "programme_limits \<Rightarrow> string \<Rightarrow> instant \<Rightarrow> programme_db \<Rightarrow> programme_db \<Rightarrow> bool"
  for lim caller pg_now where
  programme_upserted: "upsert_programme lim db caller key title state position fresh_id pg_now = Inr (db', j) \<Longrightarrow>
    board_step lim caller pg_now db db'"
| gate_upserted: "upsert_gate lim db caller programme gate title owner depends_on wgt position state fresh_id pg_now = Inr (db', j) \<Longrightarrow>
    board_step lim caller pg_now db db'"
| gate_reported: "report_gate lim db caller programme gate state progress clear_progress note clear_note pg_now = Inr (db', j) \<Longrightarrow>
    board_step lim caller pg_now db db'"
| request_made: "operator_request lim db caller programme gate ask pg_now = Inr (db', j) \<Longrightarrow>
    board_step lim caller pg_now db db'"

definition board_start :: "programme_db \<Rightarrow> bool" where
  "board_start db = (pb_programmes db = [] \<and> pb_gates db = [])"

subsection \<open>Rows of one programme\<close>

lemma gates_of_distinct:
  assumes "db_valid db"
  shows "distinct (map gt_key (gates_of db pid))" "distinct (map gt_id (gates_of db pid))"
proof -
  have "distinct (map (\<lambda>g. (gt_programme g, gt_key g)) (gates_of db pid))"
    unfolding gates_of_def using assms by (intro distinct_map_filter) (simp add: db_valid_def)
  then show "distinct (map gt_key (gates_of db pid))"
    by (auto simp: gates_of_def distinct_map inj_on_def)
  show "distinct (map gt_id (gates_of db pid))"
    unfolding gates_of_def using assms by (intro distinct_map_filter) (simp add: db_valid_def)
qed

lemma dependency_graph_valid:
  "db_valid db \<Longrightarrow> dependency_graph db pid = map (\<lambda>g. (gt_key g, gt_depends_on g)) (gates_of db pid)"
  unfolding dependency_graph_def by (rule dict_of_distinct) (simp add: comp_def gates_of_distinct)

definition keeps_identity :: "(gate_row \<Rightarrow> gate_row) \<Rightarrow> bool" where
  "keeps_identity f = (\<forall>g. gt_id (f g) = gt_id g \<and> gt_programme (f g) = gt_programme g \<and> gt_key (f g) = gt_key g)"

lemma keeps_identity_signed: "keeps_identity changes \<Longrightarrow> keeps_identity (signed_gate caller state changes pg_now)"
  by (simp add: keeps_identity_def signed_gate_def split: option.splits)

lemma keeps_identity_values:
  "keeps_identity (gate_structure title owner depends_on wgt position)"
  "keeps_identity (gate_report progress clear_progress note clear_note)"
  "keeps_identity (gate_request current ask pg_now)"
  by (auto simp: keeps_identity_def gate_structure_def gate_report_def gate_request_def set_opt_def Let_def
      split: option.splits)

lemma gates_of_written:
  assumes "keeps_identity changes"
  shows "gates_of (gate_written db p g caller state changes pg_now) pid =
    update_rows (\<lambda>x. gt_id x = gt_id g) (signed_gate caller state changes pg_now) (gates_of db pid)"
  using keeps_identity_signed [OF assms]
  by (simp add: gates_of_def gate_written_def filter_update_rows keeps_identity_def)

lemma gates_of_written_other:
  assumes "db_valid db" and "g \<in> set (pb_gates db)" and "keeps_identity changes" and "pid \<noteq> gt_programme g"
  shows "gates_of (gate_written db p g caller state changes pg_now) pid = gates_of db pid"
proof -
  have "inj_on gt_id (set (pb_gates db))" using assms(1) by (simp add: db_valid_def distinct_map)
  then have "gt_id x \<noteq> gt_id g" if "x \<in> set (gates_of db pid)" for x
    using that assms(2,4) inj_onD [of gt_id "set (pb_gates db)" x g] by (auto simp: gates_of_def)
  then show ?thesis by (simp add: gates_of_written [OF assms(3)] update_rows_no_match)
qed

lemma gates_of_added:
  "gates_of (gate_added db p g caller pg_now) pid = gates_of db pid @ (if gt_programme g = pid then [g] else [])"
  by (simp add: gates_of_def gate_added_def)

subsection \<open>A write touches one programme\<close>

definition touches_only :: "uuid \<Rightarrow> programme_db \<Rightarrow> programme_db \<Rightarrow> bool" where
  "touches_only pid db db' =
     ((\<forall>q. pm_id q \<noteq> pid \<longrightarrow> q \<in> set (pb_programmes db') \<longleftrightarrow> q \<in> set (pb_programmes db)) \<and>
      (\<forall>other. other \<noteq> pid \<longrightarrow> gates_of db' other = gates_of db other))"

lemma programme_ok_elsewhere:
  assumes "touches_only pid db db'" and "pm_id q \<noteq> pid" and "programme_ok lim db q"
  shows "programme_ok lim db' q"
  using assms by (simp add: touches_only_def programme_ok_def published_def dependency_graph_def)

lemma update_rows_elsewhere:
  assumes "\<And>q. pm_id (f q) = pm_id q" and "pm_id q \<noteq> pid"
  shows "q \<in> set (update_rows (\<lambda>q. pm_id q = pid) f rows) \<longleftrightarrow> q \<in> set rows"
  using assms by (auto simp: set_update_rows)

lemma signed_programme_keeps [simp]:
  "pm_id (signed_programme caller change pg_now q) = pm_id q"
  "pm_key (signed_programme caller change pg_now q) = pm_key q"
  "pm_coordinator (signed_programme caller change pg_now q) = pm_coordinator q"
  "pm_state (signed_programme caller change pg_now q) = pm_state q"
  by (simp_all add: signed_programme_def)

lemma changed_programme_keeps [simp]:
  "pm_id (changed_programme caller title state position pg_now q) = pm_id q"
  "pm_key (changed_programme caller title state position pg_now q) = pm_key q"
  "pm_coordinator (changed_programme caller title state position pg_now q) = pm_coordinator q"
  "pm_state (changed_programme caller title state position pg_now q) = (case state of None \<Rightarrow> pm_state q | Some s \<Rightarrow> s)"
  by (simp_all add: changed_programme_def set_opt_def split: option.splits)

lemma written_touches_only:
  assumes "db_valid db" and "g \<in> set (pb_gates db)" and "keeps_identity changes" and "gt_programme g = pm_id p"
  shows "touches_only (pm_id p) db (gate_written db p g caller state changes pg_now)"
  using gates_of_written_other [OF assms(1-3)] assms(4)
  by (simp add: touches_only_def) (simp add: gate_written_def update_rows_elsewhere)

lemma added_touches_only:
  assumes "gt_programme g = pm_id p"
  shows "touches_only (pm_id p) db (gate_added db p g caller pg_now)"
  using assms by (simp add: touches_only_def gates_of_added) (simp add: gate_added_def update_rows_elsewhere)

text \<open>A successful write ends in \<open>checked\<close>; with the caps and the touched programme's gates in
  order, the whole board is.\<close>

lemma board_ok_write:
  assumes ok: "board_ok lim db" and valid: "db_valid db'" and only: "touches_only pid db db'"
    and ck: "checked lim db' key = Inr (db', j)" and caps: "caps_ok lim db'"
    and key: "\<And>q. q \<in> set (pb_programmes db') \<Longrightarrow> pm_id q = pid \<Longrightarrow> pm_key q = key"
    and gates: "length (gates_of db' pid) \<le> max_gates lim" "graph_ok (dependency_graph db' pid)"
  shows "board_ok lim db'"
proof -
  from ck obtain p where p: "p \<in> set (pb_programmes db')" "pm_key p = key"
    "length (dumps_default (published db' p)) \<le> max_bytes lim"
    by (auto simp: checked_Inr dest: existing_programme_Inr)
  have "programme_ok lim db' q" if q: "q \<in> set (pb_programmes db')" for q
  proof (cases "pm_id q = pid")
    case True
    with key q have "pm_key q = pm_key p" by (simp add: p(2))
    with p(1) q valid have "q = p" by (auto simp: db_valid_def distinct_map dest: inj_onD)
    with p(3) gates True show ?thesis by (simp add: programme_ok_def)
  next
    case False
    with only q have "q \<in> set (pb_programmes db)" by (simp add: touches_only_def)
    with ok only False show ?thesis by (auto simp: board_ok_def intro: programme_ok_elsewhere)
  qed
  with valid caps show ?thesis by (simp add: board_ok_def)
qed

subsection \<open>Caps\<close>

lemma caps_ok_same:
  assumes "map (\<lambda>p. (pm_coordinator p, pm_state p)) (pb_programmes db') =
     map (\<lambda>p. (pm_coordinator p, pm_state p)) (pb_programmes db)"
  shows "caps_ok lim db' = caps_ok lim db"
proof -
  have count: "length (filter (\<lambda>p. P (pm_coordinator p) (pm_state p)) rows) =
      length (filter (\<lambda>(c, s). P c s) (map (\<lambda>p. (pm_coordinator p, pm_state p)) rows))" for P rows
    by (simp add: filter_map comp_def)
  show ?thesis
    using assms
    by (simp add: caps_ok_def live_programmes_def coordinated_by_def count [of "\<lambda>_ s. is_live s"]
        count [of "\<lambda>c _. c = _"] count [of "\<lambda>c s. is_live s \<and> c = _"])
qed

lemma live_cap_Inr:
  "live_cap lim db project = Inr () \<longleftrightarrow> length (live_programmes db) < max_live lim \<and>
     length (coordinated_by project (live_programmes db)) < max_live_per_coordinator lim"
  by (auto simp: live_cap_def res_bind_eq_Inr ensure_eq)

lemma caps_ok_new:
  assumes "caps_ok lim db" and "is_live (pm_state p) \<Longrightarrow> live_cap lim db (pm_coordinator p) = Inr ()"
    and "length (coordinated_by (pm_coordinator p) (pb_programmes db)) < max_programmes_per_coordinator lim"
  shows "caps_ok lim (db\<lparr>pb_programmes := pb_programmes db @ [p]\<rparr>)"
  using assms by (auto simp: caps_ok_def live_programmes_def coordinated_by_def live_cap_Inr Suc_le_eq)

lemma caps_ok_changed:
  assumes "caps_ok lim db" and "db_valid db" and "p \<in> set (pb_programmes db)"
    and "\<And>q. pm_id (f q) = pm_id q" and "\<And>q. pm_coordinator (f q) = pm_coordinator q"
    and cap: "is_live (pm_state (f p)) \<Longrightarrow> \<not> is_live (pm_state p) \<Longrightarrow> live_cap lim db (pm_coordinator p) = Inr ()"
  shows "caps_ok lim (db\<lparr>pb_programmes := update_rows (\<lambda>q. pm_id q = pm_id p) f (pb_programmes db)\<rparr>)"
proof -
  have count: "length (filter P (update_rows (\<lambda>q. pm_id q = pm_id p) f (pb_programmes db)))
      \<le> length (filter P (pb_programmes db)) + (if P (f p) \<and> \<not> P p then 1 else 0)" for P
    using assms(2-4) by (intro length_filter_update_row) (simp_all add: db_valid_def)
  let ?db = "db\<lparr>pb_programmes := update_rows (\<lambda>q. pm_id q = pm_id p) f (pb_programmes db)\<rparr>"
  have "length (live_programmes ?db) \<le> max_live lim"
    using count [of "\<lambda>p. is_live (pm_state p)"] assms(1) cap
    by (simp add: caps_ok_def live_programmes_def live_cap_Inr split: if_splits)
  moreover have "length (coordinated_by c (live_programmes ?db)) \<le> max_live_per_coordinator lim" for c
  proof -
    have "length (coordinated_by c (live_programmes db)) \<le> max_live_per_coordinator lim"
      using assms(1) by (simp add: caps_ok_def)
    with count [of "\<lambda>p. is_live (pm_state p) \<and> pm_coordinator p = c"] cap assms(5) [of p] show ?thesis
      by (cases "pm_coordinator p = c") (simp_all add: live_programmes_def coordinated_by_def live_cap_Inr split: if_splits)
  qed
  moreover have "length (coordinated_by c (pb_programmes ?db)) \<le> max_programmes_per_coordinator lim" for c
  proof -
    have "length (coordinated_by c (pb_programmes db)) \<le> max_programmes_per_coordinator lim"
      using assms(1) by (simp add: caps_ok_def)
    with count [of "\<lambda>p. pm_coordinator p = c"] assms(5) [of p] show ?thesis
      by (simp add: coordinated_by_def split: if_splits)
  qed
  ultimately show ?thesis by (simp add: caps_ok_def)
qed

subsection \<open>Dependency graphs\<close>

lemma dependencies_Inr:
  assumes "dependencies db pid gate ds = Inr ()"
  shows "length ds \<le> DEPENDS_ON_MAX \<and> distinct ds \<and> set ds \<subseteq> insert gate (fst ` set (dependency_graph db pid)) \<and>
    acyclic (edges (AList.update gate ds (dependency_graph db pid)))"
  using assms
  by (auto simp: dependencies_def Let_def filter_empty_conv acyclic_or_refuse_ok_iff [symmetric]
      split: if_splits sum.splits visit_error.splits)

lemma graph_ok_update:
  assumes "graph_ok gr" and "length ds \<le> DEPENDS_ON_MAX" and "distinct ds" and "set ds \<subseteq> insert gate (fst ` set gr)"
    and "acyclic (edges (AList.update gate ds gr))"
  shows "graph_ok (AList.update gate ds gr)"
proof -
  have keys: "fst ` set (AList.update gate ds gr) = insert gate (fst ` set gr)"
    by (simp add: dom_update)
  have mem: "x \<in> set gr \<or> x = (gate, ds)" if "x \<in> set (AList.update gate ds gr)" for x
    using that by (induction gr) (auto split: if_splits)
  have old: "length (snd x) \<le> DEPENDS_ON_MAX \<and> distinct (snd x) \<and> set (snd x) \<subseteq> fst ` set gr" if "x \<in> set gr" for x
    using that assms(1) by (simp add: graph_ok_def case_prod_beta)
  have "length (snd x) \<le> DEPENDS_ON_MAX \<and> distinct (snd x) \<and> set (snd x) \<subseteq> insert gate (fst ` set gr)"
    if "x \<in> set (AList.update gate ds gr)" for x
    using mem [OF that] old [of x] assms(2-4) by (elim disjE) auto
  with assms(5) show ?thesis by (simp add: graph_ok_def keys case_prod_beta)
qed

lemma graph_ok_isolated:
  assumes "graph_ok gr" and "gate \<notin> fst ` set gr"
  shows "graph_ok (gr @ [(gate, [])])"
proof -
  have "successors (gr @ [(gate, [])]) k = successors gr k" for k
    using assms(2) by (auto simp: successors_def map_of_eq_None_iff [symmetric] map_add_def split: option.splits)
  then have "edges (gr @ [(gate, [])]) = edges gr" by (simp add: edges_def)
  with assms(1) show ?thesis by (auto simp: graph_ok_def)
qed

lemma graph_ok_written:
  assumes "db_valid db" and "db_valid (gate_written db p g caller state changes pg_now)" and "g \<in> set (pb_gates db)"
    and "gt_programme g = pm_id p" and "keeps_identity changes" and "graph_ok (dependency_graph db (pm_id p))"
    and deps: "gt_depends_on (changes g) = gt_depends_on g \<or> dependencies db (pm_id p) (gt_key g) (gt_depends_on (changes g)) = Inr ()"
  shows "graph_ok (dependency_graph (gate_written db p g caller state changes pg_now) (pm_id p))"
proof -
  let ?h = "\<lambda>g. (gt_key g, gt_depends_on g)" and ?f = "signed_gate caller state changes pg_now"
  have g: "g \<in> set (gates_of db (pm_id p))" using assms(3,4) by (simp add: gates_of_def)
  have f: "gt_depends_on (?f g) = gt_depends_on (changes g)" by (simp add: signed_gate_def split: option.splits)
  have graph: "dependency_graph (gate_written db p g caller state changes pg_now) (pm_id p) =
      AList.update (gt_key g) (gt_depends_on (changes g)) (dependency_graph db (pm_id p))"
    unfolding dependency_graph_valid [OF assms(1)] dependency_graph_valid [OF assms(2)] gates_of_written [OF assms(5)] f [symmetric]
    using map_update_row_dict [of gt_id "gates_of db (pm_id p)" g ?h ?f] g gates_of_distinct [OF assms(1), of "pm_id p"]
      keeps_identity_signed [OF assms(5)] by (simp add: comp_def keeps_identity_def)
  show ?thesis
  proof (cases "gt_depends_on (changes g) = gt_depends_on g")
    case True
    have "map_of (dependency_graph db (pm_id p)) (gt_key g) = Some (gt_depends_on g)"
      unfolding dependency_graph_valid [OF assms(1)] using g gates_of_distinct [OF assms(1)]
      by (intro map_of_is_SomeI) (auto simp: comp_def)
    then have "AList.update (gt_key g) (gt_depends_on g) (dependency_graph db (pm_id p)) = dependency_graph db (pm_id p)"
      by (rule AList_update_id)
    with graph True assms(6) show ?thesis by simp
  next
    case False
    with deps have "dependencies db (pm_id p) (gt_key g) (gt_depends_on (changes g)) = Inr ()" by simp
    from dependencies_Inr [OF this] show ?thesis
      unfolding graph by (intro graph_ok_update [OF assms(6)]) simp_all
  qed
qed

subsection \<open>Every operation keeps the board in order\<close>

lemma programme_unique:
  assumes "db_valid db" and "p \<in> set (pb_programmes db)" and "q \<in> set (pb_programmes db)" and "pm_id q = pm_id p"
  shows "q = p"
  using assms inj_onD [of pm_id "set (pb_programmes db)" q p] by (simp add: db_valid_def distinct_map)

lemma update_programme_key:
  assumes "db_valid db" and "p \<in> set (pb_programmes db)" and "\<And>q. pm_id (f q) = pm_id q" and "\<And>q. pm_key (f q) = pm_key q"
    and "q \<in> set (update_rows (\<lambda>q. pm_id q = pm_id p) f (pb_programmes db))" and "pm_id q = pm_id p"
  shows "pm_key q = pm_key p"
proof -
  from assms(3,5,6) obtain q0 where "q0 \<in> set (pb_programmes db)" "q = f q0" "pm_id q0 = pm_id p"
    by (auto simp: set_update_rows)
  with programme_unique [OF assms(1,2)] assms(4) show ?thesis by auto
qed

lemma written_programme_key:
  assumes "db_valid db" and "p \<in> set (pb_programmes db)" and "pm_id q = pm_id p"
  shows "q \<in> set (pb_programmes (gate_written db p g caller state changes pg_now)) \<Longrightarrow> pm_key q = pm_key p"
    and "q \<in> set (pb_programmes (gate_added db p g' caller pg_now)) \<Longrightarrow> pm_key q = pm_key p"
  using update_programme_key [OF assms(1,2) signed_programme_keeps(1,2) _ assms(3)]
  by (simp_all add: gate_written_def gate_added_def)

lemma caps_ok_gate_ops [simp]:
  "caps_ok lim (gate_written db p g caller state changes pg_now) = caps_ok lim db"
  "caps_ok lim (gate_added db p g' caller pg_now) = caps_ok lim db"
  by (rule caps_ok_same, simp add: gate_written_def gate_added_def row_simps)+

lemma board_ok_programme: "board_ok lim db \<Longrightarrow> p \<in> set (pb_programmes db) \<Longrightarrow> programme_ok lim db p"
  by (simp add: board_ok_def)

lemma board_ok_valid: "board_ok lim db \<Longrightarrow> db_valid db"
  by (simp add: board_ok_def)

lemma board_ok_gate_written:
  assumes ok: "board_ok lim db" and p: "p \<in> set (pb_programmes db)" "pm_key p = key"
    and g: "g \<in> set (pb_gates db)" "gt_programme g = pm_id p" and changes: "keeps_identity changes"
    and deps: "gt_depends_on (changes g) = gt_depends_on g \<or> dependencies db (pm_id p) (gt_key g) (gt_depends_on (changes g)) = Inr ()"
    and db': "db' = gate_written db p g caller state changes pg_now" "db_valid db'" "checked lim db' key = Inr (db', j)"
  shows "board_ok lim db'"
proof (rule board_ok_write [OF ok db'(2) _ db'(3)])
  note valid = board_ok_valid [OF ok] and pok = board_ok_programme [OF ok p(1)]
  show "touches_only (pm_id p) db db'" unfolding db'(1) by (rule written_touches_only [OF valid g(1) changes g(2)])
  show "caps_ok lim db'" using ok unfolding db'(1) by (simp add: board_ok_def)
  show "pm_key q = key" if "q \<in> set (pb_programmes db')" "pm_id q = pm_id p" for q
    using written_programme_key(1) [OF valid p(1) that(2)] that(1) p(2) unfolding db'(1) by simp
  show "length (gates_of db' (pm_id p)) \<le> max_gates lim"
    using pok unfolding db'(1) by (simp add: gates_of_written [OF changes] programme_ok_def)
  show "graph_ok (dependency_graph db' (pm_id p))"
    using pok graph_ok_written [OF valid _ g changes _ deps] db'(2) unfolding db'(1) by (simp add: programme_ok_def)
qed

lemma graph_ok_added:
  assumes "db_valid db" and "db_valid (gate_added db p g caller pg_now)" and "gt_programme g = pm_id p"
    and "gate_by_key (pb_gates db) (pm_id p, gt_key g) = None" and "graph_ok (dependency_graph db (pm_id p))"
    and deps: "gt_depends_on g = [] \<or> dependencies db (pm_id p) (gt_key g) (gt_depends_on g) = Inr ()"
  shows "graph_ok (dependency_graph (gate_added db p g caller pg_now) (pm_id p))"
proof -
  have fresh: "gt_key g \<notin> fst ` set (dependency_graph db (pm_id p))"
    using assms(4) by (auto simp: dependency_graph_valid [OF assms(1)] gates_of_def gates.get_row_None image_iff)
  have graph: "dependency_graph (gate_added db p g caller pg_now) (pm_id p) =
      dependency_graph db (pm_id p) @ [(gt_key g, gt_depends_on g)]"
    unfolding dependency_graph_valid [OF assms(1)] dependency_graph_valid [OF assms(2)] gates_of_added by (simp add: assms(3))
  show ?thesis
  proof (cases "gt_depends_on g = []")
    case True
    then show ?thesis unfolding graph using graph_ok_isolated [OF assms(5) fresh] by simp
  next
    case False
    with deps have "dependencies db (pm_id p) (gt_key g) (gt_depends_on g) = Inr ()" by simp
    from dependencies_Inr [OF this] show ?thesis
      unfolding graph AList_update_new [OF fresh, symmetric] by (intro graph_ok_update [OF assms(5)]) simp_all
  qed
qed

lemma board_ok_gate_added:
  assumes ok: "board_ok lim db" and p: "p \<in> set (pb_programmes db)" "pm_key p = key"
    and g: "gt_programme g = pm_id p" "gate_by_key (pb_gates db) (pm_id p, gt_key g) = None"
    and room: "length (gates_of db (pm_id p)) < max_gates lim"
    and deps: "gt_depends_on g = [] \<or> dependencies db (pm_id p) (gt_key g) (gt_depends_on g) = Inr ()"
    and db': "db' = gate_added db p g caller pg_now" "db_valid db'" "checked lim db' key = Inr (db', j)"
  shows "board_ok lim db'"
proof (rule board_ok_write [OF ok db'(2) _ db'(3)])
  note valid = board_ok_valid [OF ok] and pok = board_ok_programme [OF ok p(1)]
  show "touches_only (pm_id p) db db'" unfolding db'(1) by (rule added_touches_only [OF g(1)])
  show "caps_ok lim db'" using ok unfolding db'(1) by (simp add: board_ok_def)
  show "pm_key q = key" if "q \<in> set (pb_programmes db')" "pm_id q = pm_id p" for q
    using written_programme_key(2) [OF valid p(1) that(2)] that(1) p(2) unfolding db'(1) by simp
  show "length (gates_of db' (pm_id p)) \<le> max_gates lim" using room g(1) by (simp add: db'(1) gates_of_added)
  show "graph_ok (dependency_graph db' (pm_id p))"
    using pok graph_ok_added [OF valid _ g _ deps] db'(2) unfolding db'(1) by (simp add: programme_ok_def)
qed

lemma gates_of_programmes_update [simp]: "gates_of (db\<lparr>pb_programmes := rows\<rparr>) = gates_of db"
  by (simp add: gates_of_def fun_eq_iff)

lemma dependency_graph_programmes_update [simp]: "dependency_graph (db\<lparr>pb_programmes := rows\<rparr>) = dependency_graph db"
  by (simp add: dependency_graph_def fun_eq_iff)

lemma no_gates_before_programme:
  assumes "db_valid db" and "pid \<notin> pm_id ` set (pb_programmes db)"
  shows "gates_of db pid = []"
  using assms by (auto simp: gates_of_def filter_empty_conv db_valid_def list_all_iff)

lemma board_ok_upsert_programme:
  assumes ok: "board_ok lim db" and up: "upsert_programme lim db caller key title state position fresh_id pg_now = Inr (db', j)"
  shows "board_ok lim db'"
proof -
  note valid = board_ok_valid [OF ok] and U = upsert_programme_Inr [OF up]
  from U consider (new) t where "programme_by_key (pb_programmes db) key = None"
      "length (coordinated_by caller (pb_programmes db)) < max_programmes_per_coordinator lim"
      "is_live (pm_state (new_programme db caller key t state position fresh_id pg_now)) \<longrightarrow> live_cap lim db caller = Inr ()"
      "db' = db\<lparr>pb_programmes := pb_programmes db @ [new_programme db caller key t state position fresh_id pg_now]\<rparr>"
    | (old) p where "programme_by_key (pb_programmes db) key = Some p" "pm_coordinator p = caller"
      "\<forall>s. state = Some s \<and> is_live s \<and> \<not> is_live (pm_state p) \<longrightarrow> live_cap lim db caller = Inr ()"
      "db' = db\<lparr>pb_programmes := update_rows (\<lambda>q. pm_id q = pm_id p)
          (changed_programme caller title state position pg_now) (pb_programmes db)\<rparr>" by blast
  then show ?thesis
  proof cases
    case new
    let ?p = "new_programme db caller key t state position fresh_id pg_now"
    have p: "pm_id ?p = fresh_id" "pm_coordinator ?p = caller" "pm_key ?p = key" by (simp_all add: new_programme_def)
    have fresh: "fresh_id \<notin> pm_id ` set (pb_programmes db)" using U new(4) p(1) by (auto simp: db_valid_def)
    note none = no_gates_before_programme [OF valid fresh]
    have "dependency_graph db fresh_id = []" by (simp add: dependency_graph_def none dict_of_def)
    then show ?thesis
      using U ok new p fresh none
      by (intro board_ok_write [OF ok, of _ fresh_id key j])
        (auto simp: touches_only_def board_ok_def graph_ok_def edges_def successors_def acyclic_def intro!: caps_ok_new)
  next
    case old
    from programmes.get_row_Some [OF old(1)] have p: "p \<in> set (pb_programmes db)" "pm_key p = key" by simp_all
    show ?thesis
    proof (rule board_ok_write [OF ok, of _ "pm_id p" key j])
      show "touches_only (pm_id p) db db'" by (simp add: old(4) touches_only_def update_rows_elsewhere)
      show "caps_ok lim db'"
        unfolding old(4) using ok old(2,3) p valid
        by (intro caps_ok_changed) (auto simp: board_ok_def split: option.splits)
      show "pm_key q = key" if "q \<in> set (pb_programmes db')" "pm_id q = pm_id p" for q
        using update_programme_key [OF valid p(1) changed_programme_keeps(1,2) _ that(2)] that(1) p(2) by (simp add: old(4))
    qed (use U board_ok_programme [OF ok p(1)] in \<open>simp_all add: old(4) programme_ok_def\<close>)
  qed
qed

lemma board_ok_step:
  assumes ok: "board_ok lim db" and "board_step lim caller pg_now db db'"
  shows "board_ok lim db'"
  using assms(2)
proof cases
  case (programme_upserted key title state position fresh_id j)
  then show ?thesis using board_ok_upsert_programme [OF ok] by blast
next
  case (gate_upserted programme gate title owner depends_on wgt position state fresh_id j)
  then show ?thesis
  proof (cases rule: upsert_gate_Inr)
    case (1 p)
    from 1(7) show ?thesis
    proof (elim disjE exE conjE)
      fix t w assume "gate_by_key (pb_gates db) (pm_id p, gate) = None" "length (gates_of db (pm_id p)) < max_gates lim"
        "db' = gate_added db p (new_gate db p caller gate t w depends_on wgt position state fresh_id pg_now) caller pg_now"
      with 1(1-6) ok show ?thesis
        by (intro board_ok_gate_added [OF ok 1(1,2)]) (auto simp: new_gate_def split: option.splits)
    next
      fix g assume g: "gate_by_key (pb_gates db) (pm_id p, gate) = Some g"
        and db': "db' = gate_written db p g caller state (gate_structure title owner depends_on wgt position) pg_now"
      from gates.get_row_Some [OF g] have g': "g \<in> set (pb_gates db)" "gt_programme g = pm_id p" "gt_key g = gate" by simp_all
      show ?thesis
        by (rule board_ok_gate_written [OF ok 1(1,2) g'(1,2) keeps_identity_values(1) _ db' 1(5,6)])
          (use 1(4) g'(3) in \<open>auto simp: gate_structure_def set_opt_def split: option.splits\<close>)
    qed
  qed
next
  case (gate_reported programme gate state progress clear_progress remark clear_note j)
  then show ?thesis
  proof (cases rule: report_gate_Inr)
    case (1 p g)
    show ?thesis
      by (rule board_ok_gate_written [OF ok 1(1-4) keeps_identity_values(2) _ 1(7-9)])
        (simp add: gate_report_def set_opt_def Let_def split: option.splits)
  qed
next
  case (request_made programme gate ask j)
  then show ?thesis
  proof (cases rule: operator_request_Inr)
    case (1 p g)
    show ?thesis
      by (rule board_ok_gate_written [OF ok 1(1-4) keeps_identity_values(3) _ 1(7-9)])
        (simp add: gate_request_def split: option.splits)
  qed
qed

lemma board_ok_start: "board_start db \<Longrightarrow> board_ok lim db"
  by (simp add: board_start_def board_ok_def db_valid_def caps_ok_def live_programmes_def coordinated_by_def)

interpretation board: invariant_system board_start "\<lambda>db db'. \<exists>caller pg_now. board_step lim caller pg_now db db'" "board_ok lim"
  by unfold_locales (auto intro: board_ok_start board_ok_step)

section \<open>Who may change what\<close>

definition structure_of :: "gate_row \<Rightarrow> utext \<times> string \<times> utext list \<times> int \<times> int" where
  "structure_of g = (gt_title g, gt_owner g, gt_depends_on g, gt_weight g, gt_position g)"

definition declared_of :: "programme_row \<Rightarrow> utext \<times> programme_state \<times> int" where
  "declared_of p = (pm_title p, pm_state p, pm_position p)"

lemma changes_keep_state:
  "gt_state (gate_structure title owner depends_on wgt position g) = gt_state g"
  "gt_state (gate_report progress clear_progress remark clear_note g) = gt_state g"
  "gt_state (gate_request current ask pg_now g) = gt_state g"
  "structure_of (gate_report progress clear_progress remark clear_note g) = structure_of g"
  "structure_of (gate_request current ask pg_now g) = structure_of g"
  by (simp_all add: gate_structure_def gate_report_def gate_request_def structure_of_def set_opt_def Let_def
      split: option.splits)

text \<open>The four shapes a successful step can have.\<close>

lemma board_step_shape:
  assumes "board_step lim caller pg_now db db'"
  obtains
    (new) q where "pm_id q \<notin> pm_id ` set (pb_programmes db)" "db' = db\<lparr>pb_programmes := pb_programmes db @ [q]\<rparr>"
  | (changed) p title state position where "p \<in> set (pb_programmes db)" "pm_coordinator p = caller"
      "db' = db\<lparr>pb_programmes := update_rows (\<lambda>q. pm_id q = pm_id p)
          (changed_programme caller title state position pg_now) (pb_programmes db)\<rparr>"
  | (added) p g where "p \<in> set (pb_programmes db)" "pm_coordinator p = caller" "gt_id g \<notin> gt_id ` set (pb_gates db)"
      "db' = gate_added db p g caller pg_now"
  | (written) p g state changes where "p \<in> set (pb_programmes db)" "g \<in> set (pb_gates db)" "gt_programme g = pm_id p"
      "caller \<in> {gt_owner g, pm_coordinator p}" "keeps_identity changes" "\<And>x. gt_state (changes x) = gt_state x"
      "caller = pm_coordinator p \<or> (\<forall>x. structure_of (changes x) = structure_of x)"
      "db' = gate_written db p g caller state changes pg_now"
  using assms
proof cases
  case (programme_upserted key title state position fresh_id j)
  note U = upsert_programme_Inr [OF this]
  then show ?thesis
  proof (elim conjE disjE exE)
    fix t assume db': "db' = db\<lparr>pb_programmes := pb_programmes db @ [new_programme db caller key t state position fresh_id pg_now]\<rparr>"
    show ?thesis using U db' by (intro new [OF _ db']) (auto simp: db_valid_def)
  next
    fix p assume "programme_by_key (pb_programmes db) key = Some p" and p: "pm_coordinator p = caller"
      and db': "db' = db\<lparr>pb_programmes := update_rows (\<lambda>q. pm_id q = pm_id p)
          (changed_programme caller title state position pg_now) (pb_programmes db)\<rparr>"
    from programmes.get_row_Some [OF this(1)] have "p \<in> set (pb_programmes db)" by simp
    from changed [OF this p db'] show ?thesis .
  qed
next
  case (gate_upserted programme gate title owner depends_on wgt position state fresh_id j)
  then show ?thesis
  proof (cases rule: upsert_gate_Inr)
    case (1 p)
    from 1(7) show ?thesis
    proof (elim disjE exE conjE)
      fix t w assume db': "db' = gate_added db p (new_gate db p caller gate t w depends_on wgt position state fresh_id pg_now) caller pg_now"
      show ?thesis using 1(5) by (intro added [OF 1(1,3) _ db']) (auto simp: db' gate_added_def db_valid_def)
    next
      fix g assume g: "gate_by_key (pb_gates db) (pm_id p, gate) = Some g"
        and db': "db' = gate_written db p g caller state (gate_structure title owner depends_on wgt position) pg_now"
      from gates.get_row_Some [OF g] have "g \<in> set (pb_gates db)" "gt_programme g = pm_id p" by simp_all
      with 1(1,3) show ?thesis by (intro written [OF _ _ _ _ keeps_identity_values(1) _ _ db'] changes_keep_state) simp_all
    qed
  qed
next
  case (gate_reported programme gate state progress clear_progress remark clear_note j)
  then show ?thesis
  proof (cases rule: report_gate_Inr)
    case (1 p g)
    then show ?thesis
      by (intro written [OF 1(1,3,4,6) keeps_identity_values(2) _ _ 1(7)]) (simp_all add: changes_keep_state)
  qed
next
  case (request_made programme gate ask j)
  then show ?thesis
  proof (cases rule: operator_request_Inr)
    case (1 p g)
    then show ?thesis
      by (intro written [OF 1(1,3,4,6) keeps_identity_values(3) _ _ 1(7)]) (simp_all add: changes_keep_state)
  qed
qed

lemma gate_unique:
  assumes "db_valid db" and "g \<in> set (pb_gates db)" and "x \<in> set (pb_gates db)" and "gt_id x = gt_id g"
  shows "x = g"
  using assms inj_onD [of gt_id "set (pb_gates db)" x g] by (simp add: db_valid_def distinct_map)

lemma signed_gate_fields:
  assumes "keeps_identity changes" and "\<And>x. gt_state (changes x) = gt_state x"
  shows "gt_id (signed_gate caller state changes pg_now g) = gt_id g"
    "gt_key (signed_gate caller state changes pg_now g) = gt_key g"
    "gt_programme (signed_gate caller state changes pg_now g) = gt_programme g"
    "gt_updated_by (signed_gate caller state changes pg_now g) = caller"
    "gt_updated_at (signed_gate caller state changes pg_now g) = pg_now"
    "structure_of (signed_gate caller state changes pg_now g) = structure_of (changes g)"
    "gt_state (signed_gate caller state changes pg_now g) = (case state of None \<Rightarrow> gt_state g | Some s \<Rightarrow> s)"
  using assms by (simp_all add: signed_gate_def keeps_identity_def structure_of_def split: option.splits)

lemma written_gate:
  assumes "db_valid db" and "x \<in> set (pb_gates db)" and "g \<in> set (pb_gates db)" and "keeps_identity changes"
    and "x' \<in> set (pb_gates (gate_written db p g caller state changes pg_now))" and "gt_id x' = gt_id x"
  shows "x' = (if x = g then signed_gate caller state changes pg_now g else x)"
proof -
  from assms(5) obtain y where y: "y \<in> set (pb_gates db)"
    "x' = (if gt_id y = gt_id g then signed_gate caller state changes pg_now y else y)"
    by (auto simp: gate_written_def update_rows_def)
  have "gt_id x' = gt_id y" using y(2) keeps_identity_signed [OF assms(4)] by (simp add: keeps_identity_def)
  with assms(6) have "y = x" using gate_unique [OF assms(1,2) y(1)] by simp
  with y(2) assms(1-3) gate_unique [OF assms(1) assms(3) assms(2)] show ?thesis by auto
qed

lemma updated_programme:
  assumes "db_valid db" and "q \<in> set (pb_programmes db)" and "p \<in> set (pb_programmes db)"
    and "\<And>q. pm_id (f q) = pm_id q"
    and "q' \<in> set (update_rows (\<lambda>q. pm_id q = pm_id p) f (pb_programmes db))" and "pm_id q' = pm_id q"
  shows "q' = (if q = p then f p else q)"
proof -
  from assms(5) obtain y where y: "y \<in> set (pb_programmes db)" "q' = (if pm_id y = pm_id p then f y else y)"
    by (auto simp: update_rows_def)
  have "pm_id q' = pm_id y" using y(2) assms(4) by simp
  with assms(6) have "y = q" using programme_unique [OF assms(1,2) y(1)] by simp
  with y(2) programme_unique [OF assms(1,3,2)] show ?thesis by auto
qed

lemma signed_row:
  assumes "db_valid db" and "q \<in> set (pb_programmes db)" and "p \<in> set (pb_programmes db)" and "pm_id q' = pm_id q"
    and "q' \<in> set (update_rows (\<lambda>q. pm_id q = pm_id p) (signed_programme caller change pg_now) (pb_programmes db))"
  shows "q' = (if q = p then signed_programme caller change pg_now p else q)"
  by (rule updated_programme [OF assms(1-3) _ assms(5,4)]) simp

lemma changed_row:
  assumes "db_valid db" and "q \<in> set (pb_programmes db)" and "p \<in> set (pb_programmes db)" and "pm_id q' = pm_id q"
    and "q' \<in> set (update_rows (\<lambda>q. pm_id q = pm_id p) (changed_programme caller title state position pg_now) (pb_programmes db))"
  shows "q' = (if q = p then changed_programme caller title state position pg_now p else q)"
  by (rule updated_programme [OF assms(1-3) _ assms(5,4)]) simp

lemma gate_change_authorised:
  assumes ok: "board_ok lim db" and step: "board_step lim caller pg_now db db'"
    and x: "x \<in> set (pb_gates db)" "x' \<in> set (pb_gates db')" "gt_id x' = gt_id x" "x' \<noteq> x"
  shows "\<exists>p \<in> set (pb_programmes db). pm_id p = gt_programme x \<and> caller \<in> {gt_owner x, pm_coordinator p} \<and>
    (structure_of x' \<noteq> structure_of x \<longrightarrow> caller = pm_coordinator p) \<and>
    gt_key x' = gt_key x \<and> gt_programme x' = gt_programme x \<and> gt_updated_by x' = caller \<and> gt_updated_at x' = pg_now"
  using step
proof (cases rule: board_step_shape)
  case (written p g state changes)
  from written_gate [OF board_ok_valid [OF ok] x(1) written(2,5) x(2)[unfolded written(8)] x(3)] x(4)
  have "x = g" "x' = signed_gate caller state changes pg_now g" by (auto split: if_splits)
  with written(1,3,4,7) signed_gate_fields [OF written(5,6)] show ?thesis by (intro bexI [of _ p]) auto
next
  case (added p g)
  have "x' \<in> set (pb_gates db)" using x added(3,4) by (auto simp: gate_added_def)
  with gate_unique [OF board_ok_valid [OF ok] x(1)] x(3,4) show ?thesis by simp
qed (use x gate_unique [OF board_ok_valid [OF ok] x(1)] in auto)

lemma programme_change_authorised:
  assumes ok: "board_ok lim db" and step: "board_step lim caller pg_now db db'"
    and q: "q \<in> set (pb_programmes db)" "q' \<in> set (pb_programmes db')" "pm_id q' = pm_id q" "q' \<noteq> q"
  shows "pm_key q' = pm_key q \<and> pm_coordinator q' = pm_coordinator q \<and> pm_updated_by q' = caller \<and>
    pm_updated_at q' = pg_now \<and> (declared_of q' \<noteq> declared_of q \<longrightarrow> caller = pm_coordinator q)"
  using step
proof (cases rule: board_step_shape)
  case (new p)
  with q have "q' \<in> set (pb_programmes db)" by auto
  with programme_unique [OF board_ok_valid [OF ok] q(1)] q(3,4) show ?thesis by simp
next
  case (changed p title state position)
  have "q' \<in> set (update_rows (\<lambda>q. pm_id q = pm_id p) (changed_programme caller title state position pg_now) (pb_programmes db))"
    using q(2) by (simp add: changed(3))
  from changed_row [OF board_ok_valid [OF ok] q(1) changed(1) q(3) this] q(4)
  have "q = p" "q' = changed_programme caller title state position pg_now p" by (simp_all split: if_splits)
  with changed(2) show ?thesis by (simp add: changed_programme_def set_opt_def split: option.splits)
next
  case (added p g)
  have "q' \<in> set (update_rows (\<lambda>q. pm_id q = pm_id p) (signed_programme caller None pg_now) (pb_programmes db))"
    using q(2) by (simp add: added(4) gate_added_def)
  from signed_row [OF board_ok_valid [OF ok] q(1) added(1) q(3) this] q(4)
  have "q' = signed_programme caller None pg_now q" by (simp split: if_splits)
  then show ?thesis by (simp add: signed_programme_def declared_of_def)
next
  case (written p g state changes)
  let ?change = "state_change g caller state pg_now"
  have "q' \<in> set (update_rows (\<lambda>q. pm_id q = pm_id p) (signed_programme caller ?change pg_now) (pb_programmes db))"
    using q(2) by (simp add: written(8) gate_written_def)
  from signed_row [OF board_ok_valid [OF ok] q(1) written(1) q(3) this] q(4)
  have "q' = signed_programme caller ?change pg_now q" by (simp split: if_splits)
  then show ?thesis by (simp add: signed_programme_def declared_of_def)
qed

text \<open>The last change of a programme is the last transition of one of its gates.\<close>

lemma last_change_exact:
  assumes ok: "board_ok lim db" and step: "board_step lim caller pg_now db db'"
    and q: "q \<in> set (pb_programmes db)" "q' \<in> set (pb_programmes db')" "pm_id q' = pm_id q"
  shows "(pm_last_change q' = pm_last_change q \<and>
      (\<forall>x \<in> set (gates_of db (pm_id q)). \<forall>x' \<in> set (pb_gates db'). gt_id x' = gt_id x \<longrightarrow> gt_state x' = gt_state x)) \<or>
    (\<exists>x x'. x \<in> set (gates_of db (pm_id q)) \<and> x' \<in> set (pb_gates db') \<and> gt_id x' = gt_id x \<and> gt_state x' \<noteq> gt_state x \<and>
      pm_last_change q' = Some \<lparr>lc_gate = gt_key x, lc_from = gt_state x, lc_to = gt_state x', lc_at = pg_now, lc_by = caller\<rparr>)"
  using step
proof (cases rule: board_step_shape)
  case (written p g state changes)
  note valid = board_ok_valid [OF ok]
  let ?f = "signed_gate caller state changes pg_now"
  have q': "q' = (if q = p then signed_programme caller (state_change g caller state pg_now) pg_now p else q)"
    by (rule signed_row [OF valid q(1) written(1) q(3)]) (use q(2) in \<open>simp add: written(8) gate_written_def\<close>)
  have gate: "x' = (if x = g then ?f g else x)"
    if "x \<in> set (gates_of db (pm_id q))" "x' \<in> set (pb_gates db')" "gt_id x' = gt_id x" for x x'
    using written_gate [OF valid _ written(2,5)] that written(8) by (auto simp: gates_of_def)
  show ?thesis
  proof (cases "q = p \<and> state_change g caller state pg_now \<noteq> None")
    case True
    then obtain s where s: "state = Some s" "s \<noteq> gt_state g"
      by (auto simp: state_change_def split: option.splits if_splits)
    have "?f g \<in> set (pb_gates db')" using written(2,8) by (auto simp: gate_written_def update_rows_def)
    moreover have "g \<in> set (gates_of db (pm_id q))" using True written(2,3) by (simp add: gates_of_def)
    ultimately show ?thesis
      using True s signed_gate_fields [OF written(5,6)] q'
      by (intro disjI2 exI [of _ g] exI [of _ "?f g"]) (simp add: signed_programme_def state_change_def)
  next
    case False
    have "pm_last_change q' = pm_last_change q" using False q' by (auto simp: signed_programme_def)
    moreover have "gt_state x' = gt_state x"
      if "x \<in> set (gates_of db (pm_id q))" "x' \<in> set (pb_gates db')" "gt_id x' = gt_id x" for x x'
    proof (cases "x = g")
      case True
      then have "pm_id q = pm_id p" using that(1) written(3) by (simp add: gates_of_def)
      then have "q = p" using programme_unique [OF valid written(1) q(1)] by simp
      with False have "state = None \<or> state = Some (gt_state g)" by (auto simp: state_change_def split: option.splits if_splits)
      with gate [OF that] True signed_gate_fields(7) [OF written(5,6)] show ?thesis by (auto split: option.splits)
    qed (use gate [OF that] in simp)
    ultimately show ?thesis by blast
  qed
next
  case (added p g)
  note valid = board_ok_valid [OF ok]
  have "q' = (if q = p then signed_programme caller None pg_now p else q)"
    by (rule signed_row [OF valid q(1) added(1) q(3)]) (use q(2) in \<open>simp add: added(4) gate_added_def\<close>)
  then have "pm_last_change q' = pm_last_change q" by (auto simp: signed_programme_def)
  moreover have "x' = x" if "x \<in> set (gates_of db (pm_id q))" "x' \<in> set (pb_gates db')" "gt_id x' = gt_id x" for x x'
    using that added(3,4) gate_unique [OF valid, of x x'] by (auto simp: gates_of_def gate_added_def)
  ultimately show ?thesis by blast
next
  case (new p)
  with q have "q' = q" using programme_unique [OF board_ok_valid [OF ok] q(1)] by auto
  moreover have "x' = x" if "x \<in> set (gates_of db (pm_id q))" "x' \<in> set (pb_gates db')" "gt_id x' = gt_id x" for x x'
    using that new(2) gate_unique [OF board_ok_valid [OF ok], of x x'] by (simp add: gates_of_def)
  ultimately show ?thesis by blast
next
  case (changed p title state position)
  have "q' = (if q = p then changed_programme caller title state position pg_now p else q)"
    by (rule changed_row [OF board_ok_valid [OF ok] q(1) changed(1) q(3)]) (use q(2) in \<open>simp add: changed(3)\<close>)
  then have "pm_last_change q' = pm_last_change q" by (auto simp: changed_programme_def set_opt_def split: option.splits)
  moreover have "x' = x" if "x \<in> set (gates_of db (pm_id q))" "x' \<in> set (pb_gates db')" "gt_id x' = gt_id x" for x x'
    using that changed(3) gate_unique [OF board_ok_valid [OF ok], of x x'] by (simp add: gates_of_def)
  ultimately show ?thesis by blast
qed

section \<open>Published programmes\<close>

definition recent :: "programme_db \<Rightarrow> instant \<Rightarrow> programme_row set" where
  "recent db now = {p \<in> set (pb_programmes db). pm_state p = PmDone \<and>
     now - DONE_PUBLISHED_DAYS * 86400000000 < pm_updated_at p}"

lemma recent_done_mem:
  assumes "db_valid db"
  shows "p \<in> set (recent_done db now) \<longleftrightarrow> p \<in> recent db now \<and>
    card {q \<in> recent db now. (- pm_updated_at q, pm_key q) < (- pm_updated_at p, pm_key p)} < 4"
proof -
  let ?xs = "filter (\<lambda>p. pm_state p = PmDone \<and> now - DONE_PUBLISHED_DAYS * 86400000000 < pm_updated_at p) (pb_programmes db)"
  let ?f = "\<lambda>p. (- pm_updated_at p, pm_key p)"
  have set: "set ?xs = recent db now" by (auto simp: recent_def)
  have "inj_on pm_key (set (pb_programmes db))" "distinct (pb_programmes db)"
    using assms by (auto simp: db_valid_def distinct_map)
  then have "distinct ?xs" "inj_on ?f (set ?xs)" by (auto simp: inj_on_def)
  note take = take_sort_key [OF this, of p DONE_PROGRAMMES_PUBLISHED, unfolded set]
  have sub: "p \<in> set (recent_done db now) \<longrightarrow> p \<in> recent db now"
    by (auto simp: recent_done_def recent_def dest!: in_set_takeD)
  show ?thesis
  proof (cases "p \<in> recent db now")
    case True
    with take show ?thesis by (simp add: recent_done_def DONE_PROGRAMMES_PUBLISHED_def)
  qed (use sub in blast)
qed

lemma block_rows_mem:
  assumes "db_valid db"
  shows "p \<in> set (block_rows db now) \<longleftrightarrow> p \<in> set (pb_programmes db) \<and> (is_live (pm_state p) \<or> p \<in> set (recent_done db now))"
proof -
  have sub: "set (recent_done db now) \<subseteq> set (pb_programmes db)"
    using recent_done_mem [OF assms] by (auto simp: recent_def)
  have "pm_id p \<in> pm_id ` set (recent_done db now) \<longleftrightarrow> p \<in> set (recent_done db now)" if "p \<in> set (pb_programmes db)"
  proof
    assume "pm_id p \<in> pm_id ` set (recent_done db now)"
    then obtain q where "q \<in> set (recent_done db now)" "pm_id q = pm_id p" by auto
    with sub programme_unique [OF assms that, of q] show "p \<in> set (recent_done db now)" by auto
  qed simp
  then show ?thesis by (auto simp: block_rows_def)
qed

lemma block_rows_sorted:
  assumes "db_valid db"
  shows "distinct (block_rows db now)" "sorted_wrt (\<lambda>p q. programme_order p < programme_order q) (block_rows db now)"
proof -
  have inj: "inj_on pm_key (set (pb_programmes db))" and d: "distinct (pb_programmes db)"
    using assms by (auto simp: db_valid_def distinct_map)
  show dist: "distinct (block_rows db now)" using d by (simp add: block_rows_def)
  have "distinct (map programme_order (block_rows db now))"
    using dist inj by (auto simp: distinct_map inj_on_def programme_order_def block_rows_def)
  moreover have "sorted (map programme_order (block_rows db now))" by (simp add: block_rows_def)
  ultimately have "sorted_wrt (<) (map programme_order (block_rows db now))"
    by (simp add: strict_sorted_iff)
  then show "sorted_wrt (\<lambda>p q. programme_order p < programme_order q) (block_rows db now)" by (simp add: sorted_wrt_map)
qed

lemma recent_done_length: "length (recent_done db now) \<le> 4"
  by (simp add: recent_done_def DONE_PROGRAMMES_PUBLISHED_def)

lemma block_rows_length:
  assumes "board_ok lim db"
  shows "length (block_rows db now) \<le> max_live lim + 4"
proof -
  note valid = board_ok_valid [OF assms]
  have "set (block_rows db now) \<subseteq> set (live_programmes db) \<union> set (recent_done db now)"
    by (auto simp: block_rows_mem [OF valid] live_programmes_def)
  then have "card (set (block_rows db now)) \<le> card (set (live_programmes db)) + card (set (recent_done db now))"
    by (meson List.finite_set card_Un_le card_mono finite_Un order_trans)
  also have "\<dots> \<le> length (live_programmes db) + length (recent_done db now)"
    by (intro add_mono card_length)
  also have "\<dots> \<le> max_live lim + 4"
    using assms recent_done_length [of db now] by (intro add_mono) (simp_all add: board_ok_def caps_ok_def)
  finally show ?thesis using distinct_card [OF block_rows_sorted(1) [OF valid]] by simp
qed

end
