(* ===== verification/Programme_Checks.thy ===== *)
theory Programme_Checks
  imports Programme_Board
begin

text \<open>
  The checks of the service against the constraints of the tables. A declared text, a key, a weight,
  a position or a progress that passed the service satisfies the CHECK of its column, and a statement
  built from checked values keeps every constraint: \<open>accepted\<close> says of a call that it is not refused
  by the database. \<open>category_laws\<close> is what the Unicode database says of the characters the tables
  refuse.
\<close>

section \<open>Checked inputs fit the tables\<close>

text \<open>What the Unicode database says of the characters the tables refuse.\<close>

definition category_laws :: "(nat \<Rightarrow> string) \<Rightarrow> bool" where
  "category_laws category =
     ((\<forall>c. (1 \<le> c \<and> c \<le> 31) \<or> (127 \<le> c \<and> c \<le> 159) \<longrightarrow> category c = ''Cc'') \<and>
      (\<forall>c. (8203 \<le> c \<and> c \<le> 8207) \<or> (8234 \<le> c \<and> c \<le> 8238) \<or> (8294 \<le> c \<and> c \<le> 8297) \<or> c = 65279 \<longrightarrow>
         category c = ''Cf'') \<and>
      category 8232 = ''Zl'' \<and> category 8233 = ''Zp'')"

lemma db_forbidden_forbidden:
  assumes laws: "category_laws category" and c: "db_forbidden c"
  shows "forbidden category c"
proof -
  let ?cc = "(1 \<le> c \<and> c \<le> 31) \<or> (127 \<le> c \<and> c \<le> 159)"
  let ?cf = "(8203 \<le> c \<and> c \<le> 8207) \<or> (8234 \<le> c \<and> c \<le> 8238) \<or> (8294 \<le> c \<and> c \<le> 8297) \<or> c = 65279"
  have "?cc \<or> ?cf \<or> c = 8232 \<or> c = 8233" using c unfolding db_forbidden_def by presburger
  moreover have "?cc \<Longrightarrow> category c = ''Cc''" "?cf \<Longrightarrow> category c = ''Cf''"
    "category 8232 = ''Zl''" "category 8233 = ''Zp''"
    using laws unfolding category_laws_def by blast+
  ultimately have "category c \<in> {''Cc'', ''Cf'', ''Zl'', ''Zp''}" by blast
  then show ?thesis by (auto simp: forbidden_def FORBIDDEN_CATEGORIES_def)
qed

lemma edge_space_u_space: "edge_space c \<Longrightarrow> u_space c"
  by (auto simp: edge_space_def u_space_def)

lemma length_dropWhile_hd: "s \<noteq> [] \<Longrightarrow> P (hd s) \<Longrightarrow> length (dropWhile P s) < length s"
  by (cases s) (auto simp: length_dropWhile_le le_imp_less_Suc)

lemma u_strip_ends:
  assumes "u_strip s = s" and "s \<noteq> []"
  shows "\<not> u_space (hd s)" "\<not> u_space (last s)"
proof -
  have len: "length s \<le> length (dropWhile u_space s)"
    using length_dropWhile_le [of u_space "rev (dropWhile u_space s)"] arg_cong [OF assms(1), of length]
    by (simp add: u_strip_def)
  then show hd: "\<not> u_space (hd s)" using length_dropWhile_hd [of s u_space] assms(2) by linarith
  then have "dropWhile u_space s = s" using assms(2) by (cases s) auto
  with assms(1) have "length (dropWhile u_space (rev s)) = length (rev s)"
    by (metis length_rev u_strip_def)
  then show "\<not> u_space (last s)" using length_dropWhile_hd [of "rev s" u_space] assms(2) by (auto simp: hd_rev)
qed

lemma declared_line_fits:
  assumes "declared_line category n v = Inr s" and "category_laws category"
  shows "db_line n s"
proof -
  from assms(1) have s: "s \<noteq> []" "length s \<le> n" "u_strip s = s" "\<not> list_ex (forbidden category) s"
    by (auto simp: declared_line_def split: pyval.splits if_splits)
  from s(4) have "\<not> list_ex db_forbidden s"
    using db_forbidden_forbidden [OF assms(2)] by (auto simp: list_ex_iff)
  with s u_strip_ends [OF s(3,1)] show ?thesis by (auto simp: db_line_def dest: edge_space_u_space)
qed

lemma checked_key_fits: "checked_key n v = Inr s \<Longrightarrow> key_fits n s"
  by (auto simp: checked_key_def key_fits_def split: pyval.splits if_splits)

lemma key_no_comma: "is_key s \<Longrightarrow> 44 \<notin> set s"
  by (auto simp: is_key_def key_start_def list_all_iff split: list.splits)

lemma db_depends_on_fits:
  assumes "list_all (key_fits 32) ds" and "length ds \<le> 12" and "gate \<notin> set ds"
  shows "db_depends_on gate ds"
proof (cases "ds = []")
  case False
  have keys: "is_key d" "44 \<notin> set d" if "d \<in> set ds" for d
    using that assms(1) key_no_comma by (auto simp: list_all_iff key_fits_def)
  then have "split_on 44 (join [44] ds) = ds" using False by (intro split_on_join) auto
  moreover have "join [44] ds \<noteq> []"
    using keys(1) [of "hd ds"] False by (cases ds rule: list.exhaust; cases "tl ds") (auto simp: is_key_def)
  ultimately show ?thesis using assms by (simp add: db_depends_on_def)
qed (simp add: db_depends_on_def)

lemma acyclic_no_self: "acyclic (edges (AList.update gate ds gr)) \<Longrightarrow> gate \<notin> set ds"
proof
  assume "acyclic (edges (AList.update gate ds gr))" "gate \<in> set ds"
  moreover then have "(gate, gate) \<in> edges (AList.update gate ds gr)"
    by (simp add: edges_iff successors_def update_conv')
  ultimately show False by (auto simp: acyclic_def)
qed

lemma dependencies_fit:
  assumes "dependencies db pid gate ds = Inr ()" and "list_all (key_fits 32) ds"
  shows "db_depends_on gate ds"
  using dependencies_Inr [OF assms(1)] assms(2) acyclic_no_self [of gate ds "dependency_graph db pid"]
  by (intro db_depends_on_fits) (simp_all add: DEPENDS_ON_MAX_def)

lemma fold_max_nonneg: "0 \<le> (a::int) \<Longrightarrow> 0 \<le> fold max xs a"
  by (induction xs arbitrary: a) auto

lemma next_position_fits: "(\<And>n. n \<in> set ns \<Longrightarrow> 0 \<le> n) \<Longrightarrow> position_fits (next_position ns)"
  using fold_max_nonneg
  by (cases ns) (auto simp: next_position_def position_fits_def POSITION_MAX_def min_def)

lemma checked_position_fits: "checked_position v = Inr n \<Longrightarrow> position_fits n"
  by (auto simp: checked_position_def position_fits_def POSITION_MAX_def split: pyval.splits if_splits)

subsection \<open>Statements the constraints let through\<close>

lemma valid_put_programme:
  assumes "db_valid db" and "p \<in> set (pb_programmes db)" and "programme_checks (f p)"
    and "\<And>q. pm_id (f q) = pm_id q" and "\<And>q. pm_key (f q) = pm_key q" and "\<And>q. pm_coordinator (f q) = pm_coordinator q"
  shows "db_valid (db\<lparr>pb_programmes := update_rows (\<lambda>q. pm_id q = pm_id p) f (pb_programmes db)\<rparr>)"
proof -
  let ?rows = "update_rows (\<lambda>q. pm_id q = pm_id p) f (pb_programmes db)"
  have "list_all programme_checks ?rows"
    using assms(1,3) programme_unique [OF assms(1,2)] by (intro list_all_update_rows) (auto simp: db_valid_def)
  moreover have "list_all (\<lambda>q. pm_coordinator q \<in> set (pb_projects db)) ?rows"
    using assms(1,6) by (intro list_all_update_rows) (simp_all add: db_valid_def)
  moreover have maps: "map pm_id ?rows = map pm_id (pb_programmes db)" "map pm_key ?rows = map pm_key (pb_programmes db)"
    by (simp_all add: map_update_rows assms(4,5))
  moreover have "pm_id ` set ?rows = pm_id ` set (pb_programmes db)" using maps(1) by (metis set_map)
  ultimately show ?thesis using assms(1) by (simp add: db_valid_def)
qed

lemma valid_put_gate:
  assumes "db_valid db" and "g \<in> set (pb_gates db)" and "gate_checks (f g)" and "gt_owner (f g) \<in> set (pb_projects db)"
    and "keeps_identity f"
  shows "db_valid (db\<lparr>pb_gates := update_rows (\<lambda>x. gt_id x = gt_id g) f (pb_gates db)\<rparr>)"
proof -
  let ?rows = "update_rows (\<lambda>x. gt_id x = gt_id g) f (pb_gates db)"
  have "list_all gate_checks ?rows"
    using assms(1,3) gate_unique [OF assms(1,2)] by (intro list_all_update_rows) (auto simp: db_valid_def)
  moreover have "list_all (\<lambda>g. gt_owner g \<in> set (pb_projects db) \<and> gt_programme g \<in> pm_id ` set (pb_programmes db)) ?rows"
    using assms(1,4,5) gate_unique [OF assms(1,2)]
    by (intro list_all_update_rows) (auto simp: db_valid_def keeps_identity_def)
  moreover have "map gt_id ?rows = map gt_id (pb_gates db)"
    "map (\<lambda>g. (gt_programme g, gt_key g)) ?rows = map (\<lambda>g. (gt_programme g, gt_key g)) (pb_gates db)"
    using assms(5) by (simp_all add: map_update_rows keeps_identity_def)
  ultimately show ?thesis using assms(1) by (simp add: db_valid_def)
qed

lemma valid_checks:
  "db_valid db \<Longrightarrow> p \<in> set (pb_programmes db) \<Longrightarrow> programme_checks p"
  "db_valid db \<Longrightarrow> g \<in> set (pb_gates db) \<Longrightarrow> gate_checks g \<and> gt_owner g \<in> set (pb_projects db)"
  by (auto simp: db_valid_def list_all_iff)

lemma valid_write_gate:
  assumes valid: "db_valid db" and p: "p \<in> set (pb_programmes db)" and g: "g \<in> set (pb_gates db)"
    and f: "keeps_identity changes" "gate_checks (signed_gate caller state changes pg_now g)"
      "gt_owner (changes g) \<in> set (pb_projects db)" and caller: "project_fits caller"
  shows "res_bind (write_gate db p g caller state changes pg_now) (\<lambda>db1. touch db1 (pm_id p) caller pg_now) =
    Inr (gate_written db p g caller state changes pg_now)"
proof -
  let ?f = "signed_gate caller state changes pg_now"
  let ?db1 = "db\<lparr>pb_gates := update_rows (\<lambda>x. gt_id x = gt_id g) ?f (pb_gates db)\<rparr>"
  have 1: "db_valid ?db1"
    using f(3) by (intro valid_put_gate [OF valid g f(2) _ keeps_identity_signed [OF f(1)]])
      (simp add: signed_gate_def split: option.splits)
  have key: "key_fits 32 (gt_key g)" using valid_checks(2) [OF valid g] by (simp add: gate_checks_def)
  have checks: "programme_checks (signed_programme caller change pg_now p)"
    "programme_checks (p\<lparr>pm_last_change := (case change of None \<Rightarrow> pm_last_change p | Some c \<Rightarrow> Some c)\<rparr>)"
    if "change \<in> {None, state_change g caller state pg_now}" for change
    using valid_checks(1) [OF valid p] caller key that
    by (auto simp: programme_checks_def signed_programme_def state_change_def opt_ok_def split: option.splits if_splits)
  have 2: "db_valid (?db1\<lparr>pb_programmes := update_rows (\<lambda>q. pm_id q = pm_id p) (\<lambda>q. q\<lparr>pm_last_change :=
      (case state_change g caller state pg_now of None \<Rightarrow> pm_last_change q | Some c \<Rightarrow> Some c)\<rparr>) (pb_programmes ?db1)\<rparr>)"
    using checks(2) p by (intro valid_put_programme [OF 1]) simp_all
  have 3: "db_valid (?db1\<lparr>pb_programmes := update_rows (\<lambda>q. pm_id q = pm_id p)
      (signed_programme caller (state_change g caller state pg_now) pg_now) (pb_programmes ?db1)\<rparr>)"
    using checks(1) p by (intro valid_put_programme [OF 1]) simp_all
  note defs = write_gate_def touch_def put_programme_def statement_def gate_written_def signed_gate_def [abs_def]
    state_change_def signed_programme_def [abs_def] update_rows_update_rows comp_def
  consider "state = None" | "state = Some (gt_state g)" | s where "state = Some s" "s \<noteq> gt_state g" by (cases state) auto
  then show ?thesis by cases (use 1 2 3 in \<open>simp_all add: defs\<close>)
qed

lemma valid_add_gate:
  assumes valid: "db_valid db" and p: "p \<in> set (pb_programmes db)"
    and g: "gt_id g \<notin> gt_id ` set (pb_gates db)" "gt_programme g = pm_id p" "gate_by_key (pb_gates db) (pm_id p, gt_key g) = None"
      "gate_checks g" "gt_owner g \<in> set (pb_projects db)" and caller: "project_fits caller"
  shows "res_bind (statement (db\<lparr>pb_gates := pb_gates db @ [g]\<rparr>)) (\<lambda>db1. touch db1 (pm_id p) caller pg_now) =
    Inr (gate_added db p g caller pg_now)"
proof -
  let ?db1 = "db\<lparr>pb_gates := pb_gates db @ [g]\<rparr>"
  have "(pm_id p, gt_key g) \<notin> (\<lambda>g. (gt_programme g, gt_key g)) ` set (pb_gates db)"
    using g(3) by (simp add: gates.get_row_None)
  then have 1: "db_valid ?db1" using valid p g by (auto simp: db_valid_def)
  have "programme_checks (signed_programme caller None pg_now p)"
    using valid_checks(1) [OF valid p] caller by (simp add: programme_checks_def signed_programme_def)
  then have "db_valid (?db1\<lparr>pb_programmes := update_rows (\<lambda>q. pm_id q = pm_id p) (signed_programme caller None pg_now) (pb_programmes ?db1)\<rparr>)"
    using p by (intro valid_put_programme [OF 1]) simp_all
  with 1 show ?thesis
    by (simp add: statement_def touch_def put_programme_def gate_added_def signed_programme_def [abs_def])
qed

subsection \<open>Calls with checked inputs\<close>

definition accepted :: "(programme_error, 'a) result \<Rightarrow> bool" where
  "accepted r = (r \<noteq> Inl DatabaseRefused \<and> r \<noteq> Inl RecursionLimit)"

lemma accepted_bind: "accepted m \<Longrightarrow> (\<And>x. m = Inr x \<Longrightarrow> accepted (f x)) \<Longrightarrow> accepted (res_bind m f)"
  by (cases m) (auto simp: accepted_def)

lemma accepted_simps [simp]:
  "accepted (Inr x)" "accepted (ensure b e) \<longleftrightarrow> b \<or> e \<notin> {DatabaseRefused, RecursionLimit}"
  by (auto simp: accepted_def ensure_def)

lemma accepted_lookups:
  "accepted (existing_programme db key)" "accepted (existing_gate db pid k)" "accepted (checked lim db key)"
  "accepted (coordinator p caller)" "accepted (owner_or_coordinator p g caller)" "accepted (live_cap lim db c)"
  "accepted (coordinator_total_cap lim db c)" "accepted (known_project db w)" "accepted (current_caller ri)"
  by (auto simp: accepted_def existing_programme_def existing_gate_def checked_def coordinator_def owner_or_coordinator_def
      live_cap_def coordinator_total_cap_def known_project_def current_caller_def ensure_def res_bind_def Let_def
      split: option.splits sum.splits if_splits)

lemma accepted_dependencies: "accepted (dependencies db pid gate ds)"
  using acyclic_or_refuse_cases [of "AList.update gate ds (dependency_graph db pid)"]
  by (auto simp: accepted_def dependencies_def Let_def)

lemma accepted_inputs:
  "accepted (checked_key n v)" "accepted (declared_line category n v)" "accepted (checked_weight v)"
  "accepted (checked_position v)" "accepted (checked_owner w)" "accepted (checked_state text_of allowed st)"
  by (auto simp: accepted_def checked_key_def declared_line_def checked_weight_def checked_position_def checked_owner_def
      checked_state_def split: pyval.splits option.splits)

lemma accepted_progress: "accepted (checked_progress category d t u)"
  using accepted_inputs(2) [of category UNIT_MAX u]
  by (auto simp: checked_progress_def accepted_def res_bind_eq_Inl split: pyval.splits)

lemma accepted_res_opt: "(\<And>v. accepted (f v)) \<Longrightarrow> accepted (res_opt f x)"
  by (auto simp: res_opt_def intro!: accepted_bind split: option.splits)

lemma accepted_res_map: "(\<And>v. accepted (f v)) \<Longrightarrow> accepted (res_map f xs)"
proof (induction xs)
  case (Cons x xs)
  from Cons.prems [of x] Cons.IH [OF Cons.prems] show ?case
    by (auto simp: accepted_def split: sum.splits)
qed simp

lemmas accepted_rules = accepted_bind accepted_lookups accepted_dependencies accepted_inputs accepted_progress
  accepted_res_opt accepted_res_map

lemma accepted_gate_write:
  assumes "db_valid db" and "p \<in> set (pb_programmes db)" and "g \<in> set (pb_gates db)" and "keeps_identity changes"
    and "gate_checks (signed_gate caller state changes pg_now g)" and "gt_owner (changes g) \<in> set (pb_projects db)"
    and "project_fits caller"
  shows "accepted (res_bind (write_gate db p g caller state changes pg_now) (\<lambda>db1.
     res_bind (touch db1 (pm_id p) caller pg_now) (\<lambda>db2. checked lim db2 key)))"
  using valid_write_gate [OF assms] accepted_lookups(3) by (simp add: res_bind_assoc [symmetric])

lemma accepted_upsert_programme:
  assumes valid: "db_valid db" and caller: "caller \<in> set (pb_projects db)" "project_fits caller"
    and inputs: "key_fits 64 key" "opt_ok (db_line 120) title" "opt_ok position_fits position"
    and fresh: "fresh_id \<notin> pm_id ` set (pb_programmes db)"
  shows "accepted (upsert_programme lim db caller key title state position fresh_id pg_now)"
proof (cases "programme_by_key (pb_programmes db) key")
  case None
  show ?thesis
  proof (cases title)
    case (Some t)
    let ?p = "new_programme db caller key t state position fresh_id pg_now"
    have positions: "position_fits (next_position (map pm_position (pb_programmes db)))"
      using valid_checks(1) [OF valid] by (intro next_position_fits) (auto simp: programme_checks_def position_fits_def)
    have "programme_checks ?p"
      using inputs caller(2) Some positions
      by (auto simp: programme_checks_def new_programme_def opt_ok_def split: option.splits)
    moreover have "key \<notin> pm_key ` set (pb_programmes db)" using None by (simp add: programmes.get_row_None)
    ultimately have "db_valid (db\<lparr>pb_programmes := pb_programmes db @ [?p]\<rparr>)"
      using valid caller(1) fresh by (auto simp: db_valid_def new_programme_def list_all_iff)
    then show ?thesis
      using None Some
      by (auto simp: upsert_programme_def Let_def statement_def new_programme_def intro!: accepted_rules)
  qed (use None in \<open>simp add: upsert_programme_def accepted_def\<close>)
next
  case (Some p)
  from programmes.get_row_Some [OF this] have p: "p \<in> set (pb_programmes db)" by simp
  let ?f = "changed_programme caller title state position pg_now"
  have "programme_checks (?f p)"
    using valid_checks(1) [OF valid p] inputs caller(2)
    by (auto simp: programme_checks_def changed_programme_def set_opt_def opt_ok_def split: option.splits)
  then have "db_valid (db\<lparr>pb_programmes := update_rows (\<lambda>q. pm_id q = pm_id p) ?f (pb_programmes db)\<rparr>)"
    using p by (intro valid_put_programme [OF valid]) simp_all
  then show ?thesis
    using Some
    by (auto simp: upsert_programme_def put_programme_def statement_def changed_programme_def [abs_def]
        intro!: accepted_rules split: option.splits)
qed

lemma accepted_new_gate:
  assumes valid: "db_valid db" and p: "p \<in> set (pb_programmes db)" and caller: "project_fits caller"
    and inputs: "key_fits 32 gate" "db_line 120 t" "w \<in> set (pb_projects db)" "opt_ok (db_depends_on gate) depends_on"
      "opt_ok (\<lambda>n. 1 \<le> n \<and> n \<le> 100) wgt" "opt_ok position_fits position"
    and fresh: "fresh_id \<notin> gt_id ` set (pb_gates db)" "gate_by_key (pb_gates db) (pm_id p, gate) = None"
  shows "accepted (res_bind (statement (db\<lparr>pb_gates := pb_gates db @
       [new_gate db p caller gate t w depends_on wgt position state fresh_id pg_now]\<rparr>)) (\<lambda>db1.
     res_bind (touch db1 (pm_id p) caller pg_now) (\<lambda>db2. checked lim db2 key)))"
proof -
  let ?g = "new_gate db p caller gate t w depends_on wgt position state fresh_id pg_now"
  have positions: "position_fits (next_position (map gt_position (gates_of db (pm_id p))))"
    using valid_checks(2) [OF valid]
    by (intro next_position_fits) (auto simp: gates_of_def gate_checks_def position_fits_def)
  have "db_depends_on gate []" by (simp add: db_depends_on_def)
  then have "gate_checks ?g"
    using inputs caller positions by (auto simp: gate_checks_def new_gate_def opt_ok_def split: option.splits)
  then have "res_bind (statement (db\<lparr>pb_gates := pb_gates db @ [?g]\<rparr>)) (\<lambda>db1. touch db1 (pm_id p) caller pg_now) =
      Inr (gate_added db p ?g caller pg_now)"
    using inputs(3) fresh by (intro valid_add_gate [OF valid p _ _ _ _ _ caller]) (simp_all add: new_gate_def)
  then show ?thesis using accepted_lookups(3) by (simp add: res_bind_assoc [symmetric])
qed

lemma gate_checks_structure:
  assumes "gate_checks g" and "gt_key g = gate" and "project_fits caller" and "opt_ok (db_line 120) title"
    and "opt_ok (db_depends_on gate) depends_on" and "opt_ok (\<lambda>n. 1 \<le> n \<and> n \<le> 100) wgt" and "opt_ok position_fits position"
  shows "gate_checks (signed_gate caller state (gate_structure title owner depends_on wgt position) pg_now g)"
proof -
  have "gate_checks (gate_structure title owner depends_on wgt position g)"
    using assms by (simp add: gate_checks_def gate_structure_def set_opt_def opt_ok_def split: option.splits)
  with assms(3) show ?thesis by (simp add: signed_gate_def gate_checks_def split: option.splits)
qed

lemma accepted_upsert_gate:
  assumes valid: "db_valid db" and caller: "project_fits caller"
    and inputs: "key_fits 32 gate" "opt_ok (db_line 120) title" "opt_ok (list_all (key_fits 32)) depends_on"
      "opt_ok (\<lambda>n. 1 \<le> n \<and> n \<le> 100) wgt" "opt_ok position_fits position"
    and fresh: "fresh_id \<notin> gt_id ` set (pb_gates db)"
  shows "accepted (upsert_gate lim db caller programme gate title owner depends_on wgt position state fresh_id pg_now)"
  unfolding upsert_gate_def
proof (rule accepted_bind [OF accepted_lookups(1)], rule accepted_bind [OF accepted_lookups(4)],
    rule accepted_bind, goal_cases owner rest)
  case (owner p)
  then show ?case by (auto split: option.splits intro: accepted_lookups)
next
  case (rest p)
  then have p: "p \<in> set (pb_programmes db)" by (auto dest: existing_programme_Inr)
  have known: "opt_ok (\<lambda>w. w \<in> set (pb_projects db)) owner"
    using rest(3) by (auto simp: opt_ok_def known_project_def ensure_eq split: option.splits)
  show ?case
  proof (rule accepted_bind, goal_cases deps rest)
    case deps
    then show ?case by (auto split: option.splits intro: accepted_dependencies)
  next
    case rest
    then have ds: "opt_ok (db_depends_on gate) depends_on"
      using inputs(3) by (auto simp: opt_ok_def split: option.splits intro: dependencies_fit)
    show ?case
    proof (cases "gate_by_key (pb_gates db) (pm_id p, gate)")
      case None
      note new = accepted_new_gate [OF valid p caller inputs(1) _ _ ds inputs(4,5) fresh None]
      show ?thesis
        using None known inputs(2) new
        by (cases title; cases owner)
          (simp_all add: opt_ok_def res_bind_assoc new_gate_def accepted_bind, simp_all add: accepted_def)
    next
      case (Some g)
      from gates.get_row_Some [OF this] have g: "g \<in> set (pb_gates db)" "gt_key g = gate" by simp_all
      note row = valid_checks(2) [OF valid g(1)]
      have "accepted (res_bind (write_gate db p g caller state (gate_structure title owner depends_on wgt position) pg_now) (\<lambda>db1.
         res_bind (touch db1 (pm_id p) caller pg_now) (\<lambda>db2. checked lim db2 programme)))"
        using row known gate_checks_structure [OF _ g(2) caller inputs(2) ds inputs(4,5)]
        by (intro accepted_gate_write [OF valid p g(1) keeps_identity_values(1) _ _ caller])
          (auto simp: gate_structure_def set_opt_def opt_ok_def split: option.splits)
      with Some show ?thesis by simp
    qed
  qed
qed

lemma accepted_report_gate:
  assumes valid: "db_valid db" and caller: "project_fits caller" and inputs: "opt_ok (db_line 200) remark"
      "opt_ok (\<lambda>p. 1 \<le> gp_total p \<and> gp_total p \<le> 100000 \<and> 0 \<le> gp_done p \<and> gp_done p \<le> gp_total p \<and> db_line 24 (gp_unit p)) progress"
  shows "accepted (report_gate lim db caller programme gate state progress clear_progress remark clear_note pg_now)"
  unfolding report_gate_def
proof (rule accepted_bind [OF accepted_lookups(1)], rule accepted_bind [OF accepted_lookups(2)],
    rule accepted_bind [OF accepted_lookups(5)])
  fix p g assume "existing_programme db programme = Inr p" and g: "existing_gate db (pm_id p) gate = Inr g"
  then have p: "p \<in> set (pb_programmes db)" and g: "g \<in> set (pb_gates db)"
    by (auto dest: existing_programme_Inr existing_gate_Inr)
  have "gate_checks (gate_report progress clear_progress remark clear_note g)"
    using valid_checks(2) [OF valid g] inputs
    by (simp add: gate_checks_def gate_report_def set_opt_def opt_ok_def Let_def split: option.splits)
  then have "gate_checks (signed_gate caller state (gate_report progress clear_progress remark clear_note) pg_now g)"
    using caller by (simp add: signed_gate_def gate_checks_def split: option.splits)
  with valid_checks(2) [OF valid g]
  show "accepted (res_bind (write_gate db p g caller state (gate_report progress clear_progress remark clear_note) pg_now) (\<lambda>db1.
     res_bind (touch db1 (pm_id p) caller pg_now) (\<lambda>db2. checked lim db2 programme)))"
    by (intro accepted_gate_write [OF valid p g keeps_identity_values(2) _ _ caller])
      (simp_all add: gate_report_def set_opt_def Let_def split: option.splits)
qed

lemma accepted_operator_request:
  assumes valid: "db_valid db" and caller: "project_fits caller" and ask: "opt_ok (db_line 200) ask"
  shows "accepted (operator_request lim db caller programme gate ask pg_now)"
  unfolding operator_request_def
proof (rule accepted_bind [OF accepted_lookups(1)], rule accepted_bind [OF accepted_lookups(2)],
    rule accepted_bind [OF accepted_lookups(5)])
  fix p g assume "existing_programme db programme = Inr p" and g: "existing_gate db (pm_id p) gate = Inr g"
  then have p: "p \<in> set (pb_programmes db)" and g: "g \<in> set (pb_gates db)"
    by (auto dest: existing_programme_Inr existing_gate_Inr)
  let ?f = "gate_request (map_option fst (gt_waiting g)) ask pg_now"
  have "gate_checks (signed_gate caller None ?f pg_now g)"
    using valid_checks(2) [OF valid g] ask caller
    by (simp add: signed_gate_def gate_checks_def gate_request_def opt_ok_def split: option.splits)
  with valid_checks(2) [OF valid g]
  show "accepted (res_bind (write_gate db p g caller None ?f pg_now) (\<lambda>db1.
     res_bind (touch db1 (pm_id p) caller pg_now) (\<lambda>db2. checked lim db2 programme)))"
    by (intro accepted_gate_write [OF valid p g keeps_identity_values(3) _ _ caller])
      (simp_all add: gate_request_def split: option.splits)
qed

subsection \<open>The calls of the service\<close>

lemma res_opt_ok: "res_opt f x = Inr y \<Longrightarrow> (\<And>v s. f v = Inr s \<Longrightarrow> P s) \<Longrightarrow> opt_ok P y"
  by (cases x) (auto simp: res_opt_def opt_ok_def res_bind_eq_Inr)

lemma gate_keys_fit: "res_map gate_key ds = Inr ks \<Longrightarrow> list_all (key_fits 32) ks"
  by (auto simp: res_map_Inr_iff list_all2_conv_all_nth list_all_length gate_key_def GATE_KEY_MAX_def dest: checked_key_fits)

lemma checked_weight_fits: "checked_weight v = Inr n \<Longrightarrow> 1 \<le> n \<and> n \<le> 100"
  by (auto simp: checked_weight_def split: pyval.splits if_splits)

lemma checked_progress_fits:
  assumes "category_laws category" and "checked_progress category d t u = Inr p"
  shows "1 \<le> gp_total p \<and> gp_total p \<le> 100000 \<and> 0 \<le> gp_done p \<and> gp_done p \<le> gp_total p \<and> db_line 24 (gp_unit p)"
  using assms(2) declared_line_fits [OF _ assms(1)]
  by (auto simp: checked_progress_def PROGRESS_TOTAL_MAX_def UNIT_MAX_def res_bind_eq_Inr split: pyval.splits if_splits)

lemmas service_limits = PROGRAMME_KEY_MAX_def GATE_KEY_MAX_def TITLE_MAX_def LINE_MAX_def programme_key_def gate_key_def


lemma service_upsert_programme_accepted:
  assumes laws: "category_laws category" and valid: "db_valid db"
    and caller: "\<And>project. current_caller ri = Inr project \<Longrightarrow> project \<in> set (pb_projects db) \<and> project_fits project"
    and fresh: "fresh_id \<notin> pm_id ` set (pb_programmes db)"
  shows "accepted (service_upsert_programme category lim db ri key title state position fresh_id pg_now)"
  unfolding service_upsert_programme_def service_limits
  by (intro accepted_bind accepted_inputs accepted_res_opt accepted_lookups accepted_upsert_programme [OF valid _ _ _ _ _ fresh])
    (auto dest: caller checked_key_fits elim!: res_opt_ok intro: declared_line_fits [OF _ laws] checked_position_fits)

lemma service_upsert_gate_accepted:
  assumes laws: "category_laws category" and valid: "db_valid db"
    and caller: "\<And>project. current_caller ri = Inr project \<Longrightarrow> project \<in> set (pb_projects db) \<and> project_fits project"
    and fresh: "fresh_id \<notin> gt_id ` set (pb_gates db)"
  shows "accepted (service_upsert_gate category lim db ri key gate title owner depends_on wgt position state fresh_id pg_now)"
  unfolding service_upsert_gate_def service_limits
  by (intro accepted_bind accepted_inputs accepted_res_opt accepted_res_map accepted_lookups
      accepted_upsert_gate [OF valid _ _ _ _ _ _ fresh])
    (auto dest: caller checked_key_fits elim!: res_opt_ok intro: declared_line_fits [OF _ laws] checked_position_fits
      gate_keys_fit [unfolded service_limits] dest!: checked_weight_fits)

lemma service_report_gate_accepted:
  assumes laws: "category_laws category" and valid: "db_valid db"
    and caller: "\<And>project. current_caller ri = Inr project \<Longrightarrow> project \<in> set (pb_projects db) \<and> project_fits project"
  shows "accepted (service_report_gate category lim db ri key gate state progress clear_progress remark clear_note pg_now)"
proof -
  have "accepted (res_bind (programme_key key) (\<lambda>k. res_bind (gate_key gate) (\<lambda>gk.
      res_bind (res_opt (checked_state gate_state_text GATE_STATES) state) (\<lambda>s.
      res_bind (res_opt (\<lambda>(d, t, u). checked_progress category d t u) progress) (\<lambda>pr.
      res_bind (res_opt (declared_line category LINE_MAX) remark) (\<lambda>n.
      res_bind (current_caller ri) (\<lambda>caller.
      report_gate lim db caller k gk s pr clear_progress n clear_note pg_now)))))))"
    unfolding service_limits
    by (intro accepted_bind accepted_inputs accepted_res_opt accepted_lookups accepted_report_gate [OF valid])
      (auto dest: caller elim!: res_opt_ok intro: accepted_progress declared_line_fits [OF _ laws] dest!: checked_progress_fits [OF laws])
  then show ?thesis by (simp add: service_report_gate_def accepted_def)
qed

lemma service_request_accepted:
  assumes laws: "category_laws category" and valid: "db_valid db"
    and caller: "\<And>project. current_caller ri = Inr project \<Longrightarrow> project \<in> set (pb_projects db) \<and> project_fits project"
  shows "accepted (service_request category lim db ri key gate ask pg_now)"
  unfolding service_request_def service_limits
  by (intro accepted_bind accepted_inputs accepted_res_opt accepted_lookups accepted_operator_request [OF valid])
    (auto dest: caller elim!: res_opt_ok intro: declared_line_fits [OF _ laws])

end
