(* ===== verification/Programme_Properties.thy ===== *)
theory Programme_Properties
  imports Programme_Checks
begin

text \<open>
  What the programme board guarantees, each property with a concrete board: a programme of two
  gates, reached from empty tables by the calls of the repository, and a report on its first gate.
\<close>

section \<open>A sample board\<close>

definition sample_programme :: "gate_row list \<Rightarrow> programme_db" where
  "sample_programme gates = \<lparr>pb_projects = [''brain-v42'', ''red-rail''],
     pb_programmes = [\<lparr>pm_id = ''p1'', pm_key = codes ''mv'', pm_title = codes ''Move'', pm_coordinator = ''brain-v42'',
       pm_state = PmActive, pm_position = 0, pm_last_change = None, pm_created_at = 0, pm_updated_at = 0,
       pm_updated_by = ''brain-v42''\<rparr>],
     pb_gates = gates\<rparr>"

definition sample_gate :: "uuid \<Rightarrow> string \<Rightarrow> utext list \<Rightarrow> int \<Rightarrow> gate_row" where
  "sample_gate i key ds position = \<lparr>gt_id = i, gt_programme = ''p1'', gt_key = codes key, gt_title = codes ''Ship'',
     gt_owner = ''red-rail'', gt_state = GTodo, gt_depends_on = ds, gt_weight = 1, gt_waiting = None, gt_progress = None,
     gt_note = None, gt_position = position, gt_created_at = 0, gt_updated_at = 0, gt_updated_by = ''brain-v42''\<rparr>"

definition sample_gates :: "gate_row list" where
  "sample_gates = [sample_gate ''g1'' ''a'' [] 0, sample_gate ''g2'' ''b'' [codes ''a''] 1]"

lemma length_pad_nat [simp]: "length (pad_nat k n) = k"
  by (induction k arbitrary: n) auto

lemma length_isoformat: "length (isoformat_utc t) = (if t mod 1000000 = 0 then 25 else 32)"
  by (simp add: isoformat_utc_def Let_def split: prod.splits)

lemma checked_bound:
  assumes "existing_programme db key = Inr p" and "dump_bound (published db p) \<le> max_bytes lim"
  shows "checked lim db key = Inr (db, published db p)"
  using assms length_dumps_ascii [of "[44, 32]" "[58, 32]" "published db p"] by (simp add: checked_Inr dumps_default_def)

lemmas board_eval = db_valid_def sample_programme_def programme_checks_def key_fits_def is_key_def db_line_def project_fits_def
  sample_gates_def sample_gate_def position_fits_def is_kebab_def is_kebab_char_def codes_def key_start_def edge_space_def
  db_forbidden_def opt_ok_def gate_checks_def db_depends_on_def

lemmas size_eval = published_def published_programme_def jobj_def jtext_def jopt_def gates_of_def programme_state_text_def
  published_gate_def gate_state_text_def jinstant_def length_isoformat gate_order_def contract_limits_def

lemma show_one [simp]: "length (show_int 1) = 1"
  by (simp add: show_int_def, subst show_nat.simps) simp

lemma sample_valid: "db_valid (sample_programme [])" "db_valid (sample_programme sample_gates)"
  by (simp_all add: board_eval)

lemma sample_sizes:
  assumes "gs \<in> {[], take 1 sample_gates, sample_gates}"
  shows "dump_bound (published (sample_programme gs) (hd (pb_programmes (sample_programme gs)))) \<le> max_bytes contract_limits"
  using assms by (elim insertE) (simp_all add: size_eval sample_programme_def sample_gates_def sample_gate_def)

definition sample_start :: programme_db where
  "sample_start = \<lparr>pb_projects = [''brain-v42'', ''red-rail''], pb_programmes = [], pb_gates = []\<rparr>"

lemma sample_existing: "existing_programme (sample_programme gs) (codes ''mv'') = Inr (hd (pb_programmes (sample_programme gs)))"
  by (simp add: existing_programme_def programme_by_key_def find_row_def sample_programme_def)

lemma sample_checked:
  "gs \<in> {[], take 1 sample_gates, sample_gates} \<Longrightarrow> \<exists>j. checked contract_limits (sample_programme gs) (codes ''mv'') = Inr (sample_programme gs, j)"
  using checked_bound [OF sample_existing sample_sizes] by blast

lemma sample_created:
  "\<exists>j. upsert_programme contract_limits sample_start ''brain-v42'' (codes ''mv'') (Some (codes ''Move'')) None None ''p1'' 0 =
     Inr (sample_programme [], j)"
proof -
  have "upsert_programme contract_limits sample_start ''brain-v42'' (codes ''mv'') (Some (codes ''Move'')) None None ''p1'' 0 =
      res_bind (statement (sample_programme [])) (\<lambda>db'. checked contract_limits db' (codes ''mv''))"
    by (simp add: upsert_programme_def programme_by_key_def find_row_def coordinator_total_cap_def live_cap_def is_live_def
        coordinated_by_def live_programmes_def sample_start_def contract_limits_def next_position_def sample_programme_def)
  with sample_valid(1) sample_checked [of "[]"] show ?thesis by (simp add: statement_def)
qed

lemma sample_touch:
  assumes "db_valid (sample_programme gs)"
  shows "touch (sample_programme gs) ''p1'' ''brain-v42'' 0 = Inr (sample_programme gs)"
proof -
  have "(sample_programme gs)\<lparr>pb_programmes := update_rows (\<lambda>p. pm_id p = ''p1'')
     (\<lambda>p. p\<lparr>pm_updated_at := 0, pm_updated_by := ''brain-v42''\<rparr>) (pb_programmes (sample_programme gs))\<rparr> = sample_programme gs"
    by (simp add: sample_programme_def update_rows_def)
  with assms show ?thesis by (simp add: touch_def put_programme_def statement_def)
qed

lemma sample_valid_one: "db_valid (sample_programme (take 1 sample_gates))"
  by (simp add: board_eval)

lemma sample_gate_added:
  assumes "db_valid (sample_programme (gs @ [sample_gate i key ds (int (length gs))]))" and "gs = [] \<or> gs = take 1 sample_gates"
    and "gs @ [sample_gate i key ds (int (length gs))] \<in> {take 1 sample_gates, sample_gates}"
    and "ds \<noteq> [] \<Longrightarrow> dependencies (sample_programme gs) ''p1'' (codes key) ds = Inr ()"
    and "gate_by_key gs (''p1'', codes key) = None"
  shows "\<exists>j. upsert_gate contract_limits (sample_programme gs) ''brain-v42'' (codes ''mv'') (codes key) (Some (codes ''Ship''))
     (Some ''red-rail'') (if ds = [] then None else Some ds) None None None i 0 =
     Inr (sample_programme (gs @ [sample_gate i key ds (int (length gs))]), j)"
proof -
  let ?gs = "gs @ [sample_gate i key ds (int (length gs))]"
  have "upsert_gate contract_limits (sample_programme gs) ''brain-v42'' (codes ''mv'') (codes key) (Some (codes ''Ship''))
     (Some ''red-rail'') (if ds = [] then None else Some ds) None None None i 0 =
     res_bind (statement (sample_programme ?gs)) (\<lambda>db1. res_bind (touch db1 ''p1'' ''brain-v42'' 0)
       (\<lambda>db2. checked contract_limits db2 (codes ''mv'')))"
    using assms(2,4,5)
    by (elim disjE; cases "ds = []")
      (simp_all add: upsert_gate_def existing_programme_def programme_by_key_def find_row_def coordinator_def known_project_def gates_of_def contract_limits_def
        sample_programme_def sample_gate_def sample_gates_def next_position_def POSITION_MAX_def)
  moreover have "\<exists>j. checked contract_limits (sample_programme ?gs) (codes ''mv'') = Inr (sample_programme ?gs, j)"
    using assms(3) by (intro sample_checked) blast
  ultimately show ?thesis using assms(1) sample_touch by (simp add: statement_def)
qed

lemma sample_dependencies: "dependencies (sample_programme (take 1 sample_gates)) ''p1'' (codes ''b'') [codes ''a''] = Inr ()"
  by (simp add: dependencies_def DEPENDS_ON_MAX_def Let_def dependency_graph_def gates_of_def sample_programme_def
      sample_gates_def sample_gate_def dict_of_def codes_def acyclic_or_refuse_def successors_def)

lemma sample_steps:
  "board_step contract_limits ''brain-v42'' 0 sample_start (sample_programme [])"
  "board_step contract_limits ''brain-v42'' 0 (sample_programme []) (sample_programme (take 1 sample_gates))"
  "board_step contract_limits ''brain-v42'' 0 (sample_programme (take 1 sample_gates)) (sample_programme sample_gates)"
proof -
  show "board_step contract_limits ''brain-v42'' 0 sample_start (sample_programme [])"
    using sample_created by (blast intro: programme_upserted)
  have one: "take 1 sample_gates = [] @ [sample_gate ''g1'' ''a'' [] (int (length ([] :: gate_row list)))]"
    by (simp add: sample_gates_def)
  have two: "sample_gates = take 1 sample_gates @ [sample_gate ''g2'' ''b'' [codes ''a''] (int (length (take 1 sample_gates)))]"
    by (simp add: sample_gates_def)
  show "board_step contract_limits ''brain-v42'' 0 (sample_programme []) (sample_programme (take 1 sample_gates))"
    using sample_gate_added [of "[]" "''g1''" "''a''" "[]", folded one] sample_valid_one
    by (auto simp: gate_by_key_def find_row_def intro: gate_upserted)
  show "board_step contract_limits ''brain-v42'' 0 (sample_programme (take 1 sample_gates)) (sample_programme sample_gates)"
    using sample_gate_added [of "take 1 sample_gates" "''g2''" "''b''" "[codes ''a'']", folded two] sample_valid(2) sample_dependencies
    by (auto simp: gate_by_key_def find_row_def sample_gates_def sample_gate_def codes_def intro: gate_upserted)
qed

lemma sample_board_reachable:
  "reachable board_start (\<lambda>db db'. \<exists>caller pg_now. board_step contract_limits caller pg_now db db') (sample_programme sample_gates)"
proof -
  have "board_start sample_start" by (simp add: board_start_def sample_start_def)
  then show ?thesis
    using sample_steps by (blast intro: reachable_start reachable_step)
qed

lemma sample_ok: "board_ok contract_limits (sample_programme sample_gates)"
  using board.inv_reachable [OF sample_board_reachable] .

definition sample_row :: programme_row where
  "sample_row = hd (pb_programmes (sample_programme sample_gates))"

definition sample_reported :: programme_db where
  "sample_reported = gate_written (sample_programme sample_gates) sample_row (hd sample_gates) ''red-rail'' (Some GDone)
     (gate_report None False None False) 1000000"

definition sample_category :: "nat \<Rightarrow> string" where
  "sample_category c =
     (if c \<le> 31 \<or> (127 \<le> c \<and> c \<le> 159) then ''Cc''
      else if (8203 \<le> c \<and> c \<le> 8207) \<or> (8234 \<le> c \<and> c \<le> 8238) \<or> (8294 \<le> c \<and> c \<le> 8297) \<or> c = 65279 then ''Cf''
      else if c = 8232 then ''Zl'' else if c = 8233 then ''Zp'' else ''Ll'')"

lemma sample_category_laws: "category_laws sample_category"
  by (simp add: category_laws_def sample_category_def)

lemma sample_row_mem: "sample_row \<in> set (pb_programmes (sample_programme sample_gates))" "hd sample_gates \<in> set (pb_gates (sample_programme sample_gates))"
  by (simp_all add: sample_row_def sample_programme_def sample_gates_def)

lemma sample_report:
  "\<exists>j. report_gate contract_limits (sample_programme sample_gates) ''red-rail'' (codes ''mv'') (codes ''a'') (Some GDone) None False
     None False 1000000 = Inr (sample_reported, j)"
proof -
  let ?db = "sample_programme sample_gates" and ?f = "gate_report None False None False"
  have checks: "gate_checks (signed_gate ''red-rail'' (Some GDone) ?f 1000000 (hd sample_gates))" "project_fits ''red-rail''"
    "gt_owner (?f (hd sample_gates)) \<in> set (pb_projects ?db)"
    by (simp_all add: signed_gate_def gate_report_def set_opt_def board_eval)
  have lookups: "existing_programme ?db (codes ''mv'') = Inr sample_row" "existing_gate ?db (pm_id sample_row) (codes ''a'') = Inr (hd sample_gates)"
    "owner_or_coordinator sample_row (hd sample_gates) ''red-rail'' = Inr ()"
    by (simp_all add: existing_programme_def programme_by_key_def existing_gate_def gate_by_key_def find_row_def sample_row_def
        owner_or_coordinator_def sample_programme_def sample_gates_def sample_gate_def)
  have stored: "res_bind (write_gate ?db sample_row (hd sample_gates) ''red-rail'' (Some GDone) ?f 1000000)
      (\<lambda>db1. touch db1 (pm_id sample_row) ''red-rail'' 1000000) = Inr sample_reported"
    unfolding sample_reported_def
    by (rule valid_write_gate [OF sample_valid(2) sample_row_mem keeps_identity_values(2) checks(1,3,2)])
  have "existing_programme sample_reported (codes ''mv'') = Inr (hd (pb_programmes sample_reported))"
    by (simp add: existing_programme_def programme_by_key_def find_row_def sample_reported_def gate_written_def sample_programme_def
        update_rows_def signed_programme_def)
  moreover have "dump_bound (published sample_reported (hd (pb_programmes sample_reported))) \<le> max_bytes contract_limits"
    by (simp add: size_eval sample_reported_def gate_written_def sample_row_def sample_programme_def sample_gates_def sample_gate_def
        update_rows_def signed_gate_def signed_programme_def gate_report_def set_opt_def state_change_def)
  ultimately have "\<exists>j. checked contract_limits sample_reported (codes ''mv'') = Inr (sample_reported, j)"
    using checked_bound by blast
  then show ?thesis using stored by (simp add: report_gate_def lookups res_bind_assoc [symmetric])
qed

lemma sample_report_step: "board_step contract_limits ''red-rail'' 1000000 (sample_programme sample_gates) sample_reported"
  using sample_report by (blast intro: gate_reported)

section \<open>Properties\<close>

lemma edges_dependency_graph:
  assumes "db_valid db"
  shows "edges (dependency_graph db pid) = {(gt_key g, d) | g d. g \<in> set (gates_of db pid) \<and> d \<in> set (gt_depends_on g)}"
proof -
  have "(k, d) \<in> edges (dependency_graph db pid) \<longleftrightarrow> (\<exists>ds. map_of (dependency_graph db pid) k = Some ds \<and> d \<in> set ds)" for k d
    by (cases "map_of (dependency_graph db pid) k") (simp_all add: edges_iff successors_def)
  moreover have "map_of (dependency_graph db pid) k = Some ds \<longleftrightarrow> (k, ds) \<in> (\<lambda>g. (gt_key g, gt_depends_on g)) ` set (gates_of db pid)" for k ds
    using gates_of_distinct(1) [OF assms] unfolding dependency_graph_valid [OF assms]
    by (subst map_of_eq_Some_iff) (simp_all add: comp_def)
  ultimately show ?thesis by auto
qed

text \<open>
  C23: In every state that calls of the repository reach from empty tables, every cap of the contract holds: the live
  programmes overall and per coordinator, the programmes per coordinator, the gates of a programme and its
  published size; and the dependencies of a programme's gates name its own gates, at most twelve of
  them, without a cycle.
\<close>

theorem programmes_within_limits:
  assumes "reachable board_start (\<lambda>db db'. \<exists>caller pg_now. board_step lim caller pg_now db db') db"
  shows "length (live_programmes db) \<le> max_live lim \<and>
    (\<forall>c. length (coordinated_by c (live_programmes db)) \<le> max_live_per_coordinator lim \<and>
         length (coordinated_by c (pb_programmes db)) \<le> max_programmes_per_coordinator lim) \<and>
    (\<forall>p \<in> set (pb_programmes db).
       length (gates_of db (pm_id p)) \<le> max_gates lim \<and>
       length (dumps_default (published db p)) \<le> max_bytes lim \<and>
       (\<forall>g \<in> set (gates_of db (pm_id p)). length (gt_depends_on g) \<le> 12 \<and>
          set (gt_depends_on g) \<subseteq> gt_key ` set (gates_of db (pm_id p))) \<and>
       acyclic {(gt_key g, d) | g d. g \<in> set (gates_of db (pm_id p)) \<and> d \<in> set (gt_depends_on g)})"
proof -
  have ok: "board_ok lim db" using board.inv_reachable [OF assms] .
  note valid = board_ok_valid [OF ok]
  have "length (gt_depends_on g) \<le> 12 \<and> set (gt_depends_on g) \<subseteq> gt_key ` set (gates_of db (pm_id p))"
    if "p \<in> set (pb_programmes db)" "g \<in> set (gates_of db (pm_id p))" for p g
    using board_ok_programme [OF ok that(1)] that(2)
    by (auto simp: programme_ok_def graph_ok_def dependency_graph_valid [OF valid] DEPENDS_ON_MAX_def image_image)
  then show ?thesis
    using ok board_ok_programme [OF ok]
    by (simp add: board_ok_def caps_ok_def programme_ok_def graph_ok_def edges_dependency_graph [OF valid, symmetric])
qed

theorem programmes_within_limits_witness:
  "length (live_programmes (sample_programme sample_gates)) \<le> 8 \<and>
   length (dumps_default (published (sample_programme sample_gates) sample_row)) \<le> 16384"
proof -
  have "max_live contract_limits = 8" "max_bytes contract_limits = 16384" by (simp_all add: contract_limits_def)
  with programmes_within_limits [OF sample_board_reachable] sample_row_mem(1) show ?thesis by metis
qed

text \<open>
  C24: Gate and programme rows change only under the authority of the contract: a changed gate was
  written by its owner or by the coordinator of its programme, and its structure (title, owner,
  dependencies, weight, position) by the coordinator alone; the title, state and position of a
  programme are the coordinator's, the coordinator never changes, and every changed row is signed
  with the caller and the transaction's time.
\<close>

theorem board_changes_authorised:
  assumes "board_ok lim db" and "board_step lim caller pg_now db db'"
  shows "(\<forall>g \<in> set (pb_gates db). \<forall>g' \<in> set (pb_gates db'). gt_id g' = gt_id g \<and> g' \<noteq> g \<longrightarrow>
      (\<exists>p \<in> set (pb_programmes db). pm_id p = gt_programme g \<and> caller \<in> {gt_owner g, pm_coordinator p} \<and>
        (structure_of g' \<noteq> structure_of g \<longrightarrow> caller = pm_coordinator p) \<and>
        gt_key g' = gt_key g \<and> gt_programme g' = gt_programme g \<and> gt_updated_by g' = caller \<and> gt_updated_at g' = pg_now)) \<and>
    (\<forall>p \<in> set (pb_programmes db). \<forall>p' \<in> set (pb_programmes db'). pm_id p' = pm_id p \<and> p' \<noteq> p \<longrightarrow>
      pm_key p' = pm_key p \<and> pm_coordinator p' = pm_coordinator p \<and> pm_updated_by p' = caller \<and>
      pm_updated_at p' = pg_now \<and> (declared_of p' \<noteq> declared_of p \<longrightarrow> caller = pm_coordinator p))"
  using gate_change_authorised [OF assms] programme_change_authorised [OF assms] by blast

theorem board_changes_authorised_witness:
  "\<exists>g'. g' \<in> set (pb_gates sample_reported) \<and> gt_id g' = ''g1'' \<and> g' \<noteq> hd sample_gates \<and> gt_updated_by g' = ''red-rail''"
proof -
  let ?g = "hd sample_gates" and ?g' = "hd (pb_gates sample_reported)"
  have g': "?g' \<in> set (pb_gates sample_reported)" "gt_id ?g = ''g1''" "gt_id ?g' = gt_id ?g" "gt_state ?g' \<noteq> gt_state ?g"
    by (simp_all add: sample_reported_def gate_written_def sample_programme_def sample_gates_def sample_gate_def update_rows_def
        signed_gate_def gate_report_def set_opt_def)
  have "gt_updated_by ?g' = ''red-rail''"
    using board_changes_authorised [OF sample_ok sample_report_step] sample_row_mem(2) g' by metis
  with g' show ?thesis by (intro exI [of _ ?g']) auto
qed

text \<open>
  A programme's last change is exact: a call either leaves it and every gate state of the
  programme as they were, or moves one gate and records that gate, its old and new state, the
  transaction's time and the caller.
\<close>

lemma last_change_is_the_transition:
  assumes "board_ok lim db" and "board_step lim caller pg_now db db'"
    and "p \<in> set (pb_programmes db)" and "p' \<in> set (pb_programmes db')" and "pm_id p' = pm_id p"
  shows "(pm_last_change p' = pm_last_change p \<and>
      (\<forall>g \<in> set (gates_of db (pm_id p)). \<forall>g' \<in> set (pb_gates db'). gt_id g' = gt_id g \<longrightarrow> gt_state g' = gt_state g)) \<or>
    (\<exists>g g'. g \<in> set (gates_of db (pm_id p)) \<and> g' \<in> set (pb_gates db') \<and> gt_id g' = gt_id g \<and> gt_state g' \<noteq> gt_state g \<and>
      pm_last_change p' = Some \<lparr>lc_gate = gt_key g, lc_from = gt_state g, lc_to = gt_state g', lc_at = pg_now, lc_by = caller\<rparr>)"
  by (rule last_change_exact [OF assms])

lemma last_change_is_the_transition_sample:
  "\<exists>g g'. g \<in> set sample_gates \<and> g' \<in> set (pb_gates sample_reported) \<and>
     pm_last_change (hd (pb_programmes sample_reported)) =
       Some \<lparr>lc_gate = gt_key g, lc_from = gt_state g, lc_to = gt_state g', lc_at = 1000000, lc_by = ''red-rail''\<rparr>"
proof -
  let ?p' = "hd (pb_programmes sample_reported)"
  have p': "?p' \<in> set (pb_programmes sample_reported)" "pm_id ?p' = pm_id sample_row" "pm_last_change ?p' \<noteq> pm_last_change sample_row"
    by (simp_all add: sample_reported_def gate_written_def sample_row_def sample_programme_def sample_gates_def sample_gate_def
        update_rows_def signed_programme_def state_change_def)
  have "set (gates_of (sample_programme sample_gates) (pm_id sample_row)) \<subseteq> set sample_gates"
    by (simp add: gates_of_def sample_programme_def)
  with last_change_is_the_transition [OF sample_ok sample_report_step sample_row_mem(1) p'(1,2)] p'(3) show ?thesis by blast
qed

text \<open>
  C33: A write whose inputs passed the service's checks is never refused by the constraints of the
  tables: every service call by an existing, well-formed project ends in success or in an error of
  the contract.
\<close>

theorem checked_writes_fit_the_tables:
  assumes "category_laws category" and "db_valid db"
    and "\<And>project. current_caller ri = Inr project \<Longrightarrow> project \<in> set (pb_projects db) \<and> project_fits project"
    and "fresh_programme \<notin> pm_id ` set (pb_programmes db)" and "fresh_gate \<notin> gt_id ` set (pb_gates db)"
  shows "service_upsert_programme category lim db ri key title pstate position fresh_programme pg_now \<noteq> Inl DatabaseRefused \<and>
    service_upsert_gate category lim db ri key gate title owner depends_on wgt position state fresh_gate pg_now \<noteq> Inl DatabaseRefused \<and>
    service_report_gate category lim db ri key gate state progress clear_progress remark clear_note pg_now \<noteq> Inl DatabaseRefused \<and>
    service_request category lim db ri key gate ask pg_now \<noteq> Inl DatabaseRefused"
  using service_upsert_programme_accepted [OF assms(1-3)] service_upsert_gate_accepted [OF assms(1-3)]
    service_report_gate_accepted [OF assms(1-3)] service_request_accepted [OF assms(1-3)] assms(4,5)
  by (simp add: accepted_def)

theorem checked_writes_fit_the_tables_witness:
  "service_upsert_gate sample_category contract_limits (sample_programme sample_gates)
     \<lparr>ri_principal = Some ''key-1'', ri_actor_project = Some ''brain-v42''\<rparr> (pstr ''mv'') (pstr ''c'') (Some (pstr ''Cut over''))
     (Some ''red-rail'') (Some [pstr ''b'']) (Some (PInt 4)) None (Some ''todo'') ''g3'' 2000000 \<noteq> Inl DatabaseRefused"
proof -
  let ?db = "sample_programme sample_gates" and ?ri = "\<lparr>ri_principal = Some ''key-1'', ri_actor_project = Some ''brain-v42''\<rparr>"
  have "project \<in> set (pb_projects ?db) \<and> project_fits project" if "current_caller ?ri = Inr project" for project
    using that by (auto simp: current_caller_def board_eval)
  moreover have "''p2'' \<notin> pm_id ` set (pb_programmes ?db)" "''g3'' \<notin> gt_id ` set (pb_gates ?db)"
    by (simp_all add: sample_programme_def sample_gates_def sample_gate_def)
  ultimately show ?thesis
    by (intro checked_writes_fit_the_tables [OF sample_category_laws sample_valid(2), THEN conjunct2, THEN conjunct1])
qed

text \<open>
  The published block holds exactly the live programmes and, of the programmes done in the last
  seven days, the four most recently updated; each once, in the order of position, creation and key,
  and at most \<open>max_live + 4\<close> of them.
\<close>

lemma published_block_exact:
  assumes "board_ok lim db"
  shows "(\<forall>p. p \<in> set (block_rows db now) \<longleftrightarrow> p \<in> set (pb_programmes db) \<and>
      (pm_state p \<in> {PmActive, PmPaused} \<or>
       (p \<in> recent db now \<and>
        card {q \<in> recent db now. (- pm_updated_at q, pm_key q) < (- pm_updated_at p, pm_key p)} < 4))) \<and>
    distinct (block_rows db now) \<and>
    sorted_wrt (\<lambda>p q. programme_order p < programme_order q) (block_rows db now) \<and>
    length (block_rows db now) \<le> max_live lim + 4"
  using block_rows_mem [OF board_ok_valid [OF assms]] recent_done_mem [OF board_ok_valid [OF assms]]
    block_rows_sorted [OF board_ok_valid [OF assms]] block_rows_length [OF assms]
  by (simp add: is_live_def)

lemma published_block_exact_sample:
  "sample_row \<in> set (block_rows (sample_programme sample_gates) 0) \<and> length (block_rows (sample_programme sample_gates) 0) \<le> 12"
proof -
  have "pm_state sample_row = PmActive" "max_live contract_limits = 8"
    by (simp_all add: sample_row_def sample_programme_def contract_limits_def)
  then show ?thesis using published_block_exact [OF sample_ok, of 0] sample_row_mem(1) by simp
qed

end
