(* ===== verification/Knowledge_Decision.thy ===== *)
theory Knowledge_Decision
  imports Delivery_Model Ascii_Json
begin

text \<open>
  The lifecycle decision of a knowledge entry: \<open>src/brain_v42/knowledge/ranks.py\<close> (the reliability
  order and the vocabulary), \<open>src/brain_v42/knowledge/decide.py\<close> (the resolution of an evaluation's
  observations), \<open>src/brain_v42/knowledge/hysteresis.py\<close> (the agreement required before a check
  applies) and \<open>src/brain_v42/knowledge/structural.py\<close> (observations from the structure of a row).

  A \<open>date\<close> is its day count from 1970-01-01; a \<open>datetime\<close> of a row is an aware instant in UTC. An
  effective polarity is a value of \<open>effective\<close>: the polarity shared by the top observations of an
  assertion, or a tie. \<open>lifecycle_state_spec\<close> states without any ordering what the decision's state
  must be; \<open>decide\<close> is shown to implement it.
\<close>

section \<open>Vocabulary\<close>

datatype lifecycle_state = LValid | LContested | LObsolete | LRefuted | LUnverifiable
datatype polarity = Supports | Contradicts | Ends | NoPolarity
datatype centrality = Core | Incidental
datatype temporal = Transient | Durable
datatype precision = ExactDate | FirstObserved | UnknownDate
datatype layer = StructuralLayer | CheckLayer | PropagationLayer
datatype structural_rule = RMerged | RSupersededDecision | RSupersededAdr | RDeprecatedAdr | RDecayArchived

definition RANKS :: "(string \<times> int) list" where
  "RANKS = [(''structure'', 7), (''measured'', 6), (''config'', 5), (''code'', 4), (''pr'', 3), (''ticket'', 3),
     (''decision'', 3), (''propagation'', 2), (''decay'', 1)]"

definition state_text :: "lifecycle_state \<Rightarrow> string" where
  "state_text s = (case s of LValid \<Rightarrow> ''valid'' | LContested \<Rightarrow> ''contested'' | LObsolete \<Rightarrow> ''obsolete''
     | LRefuted \<Rightarrow> ''refuted'' | LUnverifiable \<Rightarrow> ''unverifiable'')"

definition polarity_text :: "polarity \<Rightarrow> string" where
  "polarity_text p = (case p of Supports \<Rightarrow> ''supports'' | Contradicts \<Rightarrow> ''contradicts'' | Ends \<Rightarrow> ''ends''
     | NoPolarity \<Rightarrow> ''none'')"

definition rule_text :: "structural_rule \<Rightarrow> string" where
  "rule_text r = (case r of RMerged \<Rightarrow> ''merged'' | RSupersededDecision \<Rightarrow> ''superseded_decision''
     | RSupersededAdr \<Rightarrow> ''superseded_adr'' | RDeprecatedAdr \<Rightarrow> ''deprecated_adr'' | RDecayArchived \<Rightarrow> ''decay_archived'')"

section \<open>Observations and decisions\<close>

type_synonym day = int

record observation =
  ob_id :: string
  ob_assertion_key :: "string option"
  ob_polarity :: polarity
  ob_source_kind :: string
  ob_source_rank :: int
  ob_source_ref :: string
  ob_centrality :: "centrality option"
  ob_temporal :: "temporal option"
  ob_valid_from :: "day option"
  ob_valid_from_precision :: precision
  ob_rule :: "structural_rule option"
  ob_propagated_from :: "string option"
  ob_observed_value :: "string option"

record decision =
  de_state :: lifecycle_state
  de_reason :: string
  de_observation_ids :: "string list"
  de_end_date :: "day option"
  de_end_date_precision :: "precision option"
  de_layer :: layer

datatype effective = EffTied | EffPolarity polarity

record effective_assertion =
  ea_key :: string
  ea_polarity :: effective
  ea_observations :: "observation list"

definition text_or_empty :: "string option \<Rightarrow> string" where
  "text_or_empty x = (case x of None \<Rightarrow> [] | Some s \<Rightarrow> s)"

definition sorted_ids :: "observation list \<Rightarrow> string list" where
  "sorted_ids obs = sort (map ob_id obs)"

section \<open>Resolution of assertions\<close>

definition exempt :: "observation \<Rightarrow> bool" where
  "exempt o1 = (ob_polarity o1 \<notin> {Supports, Contradicts} \<or>
     (ob_source_kind o1 = ''decision'' \<and> ob_temporal o1 = Some Durable \<and> ob_polarity o1 = Contradicts))"

definition assertion_of :: "bool \<Rightarrow> observation \<Rightarrow> string option" where
  "assertion_of include_propagation o1 =
     (if ob_source_kind o1 = ''decay'' then None
      else if ob_source_kind o1 = ''propagation'' \<and> \<not> include_propagation then None
      else ob_assertion_key o1)"

definition group_observation ::
    "bool \<Rightarrow> observation \<Rightarrow> (string \<times> observation list) list \<Rightarrow> (string \<times> observation list) list" where
  "group_observation include_propagation o1 grouped =
     (case assertion_of include_propagation o1 of
        None \<Rightarrow> grouped
      | Some k \<Rightarrow>
          (let d = (if k \<in> fst ` set grouped then grouped else grouped @ [(k, [])]) in
           if exempt o1 then d else AList.update k (dict_get d k @ [o1]) d))"

definition top_ranked :: "observation list \<Rightarrow> observation list" where
  "top_ranked members =
     (let rank = Max (ob_source_rank ` set members) in
      sort_key (\<lambda>o1. (ob_source_kind o1, ob_source_ref o1, ob_id o1)) (filter (\<lambda>o1. ob_source_rank o1 = rank) members))"

definition resolve_group :: "string \<times> observation list \<Rightarrow> effective_assertion" where
  "resolve_group kg =
     (case kg of (k, members) \<Rightarrow>
        if members = [] then \<lparr>ea_key = k, ea_polarity = EffPolarity NoPolarity, ea_observations = []\<rparr>
        else let top = top_ranked members in
          \<lparr>ea_key = k,
           ea_polarity = (if 1 < card (ob_polarity ` set top) then EffTied else EffPolarity (ob_polarity (hd top))),
           ea_observations = top\<rparr>)"

definition resolve_assertions :: "bool \<Rightarrow> observation list \<Rightarrow> effective_assertion list" where
  "resolve_assertions include_propagation obs =
     map resolve_group (sort_key fst (fold (group_observation include_propagation) obs []))"

section \<open>The decision\<close>

datatype decide_error = PropagationMixed | PropagationWithoutParent | PropagationWithRule | EndingWithoutRule

definition evidence_order :: "observation \<Rightarrow> int \<times> string \<times> string \<times> string \<times> string \<times> string" where
  "evidence_order o1 = (- ob_source_rank o1, ob_source_kind o1, ob_source_ref o1,
     text_or_empty (map_option rule_text (ob_rule o1)), text_or_empty (ob_propagated_from o1), ob_id o1)"

definition check_propagation :: "observation list \<Rightarrow> (decide_error, unit) result" where
  "check_propagation propagation =
     res_bind (res_map (\<lambda>o1.
        if ob_propagated_from o1 = None then Inl PropagationWithoutParent
        else if ob_rule o1 \<noteq> None then Inl PropagationWithRule else Inr ()) propagation) (\<lambda>_. Inr ())"

definition endings_of :: "observation list \<Rightarrow> observation list" where
  "endings_of evidence =
     sort_key (\<lambda>o1. (- ob_source_rank o1, ob_id o1))
       (filter (\<lambda>o1. ob_polarity o1 = Ends \<and> ob_source_kind o1 \<noteq> ''propagation'') evidence)"

definition ended_by :: "day \<Rightarrow> observation \<Rightarrow> decision" where
  "ended_by observed_day o1 =
     \<lparr>de_state = LObsolete, de_reason = text_or_empty (map_option rule_text (ob_rule o1)), de_observation_ids = [ob_id o1],
      de_end_date = Some (case ob_valid_from o1 of Some d \<Rightarrow> d | None \<Rightarrow> observed_day),
      de_end_date_precision = Some (if ob_valid_from o1 \<noteq> None then ob_valid_from_precision o1 else FirstObserved),
      de_layer = StructuralLayer\<rparr>"

definition refuting :: "effective_assertion \<Rightarrow> observation list" where
  "refuting item = filter (\<lambda>o1. ob_centrality o1 = Some Core \<and> ob_temporal o1 = Some Durable \<and> 5 \<le> ob_source_rank o1)
     (ea_observations item)"

definition pending_ended :: "effective_assertion \<Rightarrow> observation list" where
  "pending_ended item = filter (\<lambda>o1. ob_centrality o1 = Some Core \<and> ob_temporal o1 = Some Transient \<and> 3 \<le> ob_source_rank o1)
     (ea_observations item)"

definition contesting :: "effective_assertion \<Rightarrow> observation list" where
  "contesting item =
     filter (\<lambda>o1. \<not> (ob_centrality o1 = Some Incidental \<and> ob_temporal o1 = Some Transient)) (ea_observations item)"

definition plain_decision :: "lifecycle_state \<Rightarrow> string \<Rightarrow> string list \<Rightarrow> layer \<Rightarrow> decision" where
  "plain_decision s reason ids l =
     \<lparr>de_state = s, de_reason = reason, de_observation_ids = ids, de_end_date = None, de_end_date_precision = None, de_layer = l\<rparr>"

definition pending_decision :: "day \<Rightarrow> observation list \<Rightarrow> decision" where
  "pending_decision observed_day ending =
     (let exact_dates = List.map_filter ob_valid_from (filter (\<lambda>o1. ob_valid_from_precision o1 = ExactDate) ending) in
      \<lparr>de_state = LObsolete, de_reason = ''pending_state_ended_'' @ ob_source_kind (hd ending),
       de_observation_ids = sorted_ids ending,
       de_end_date = Some (if exact_dates \<noteq> [] then Max (set exact_dates) else observed_day),
       de_end_date_precision = Some (if exact_dates \<noteq> [] then ExactDate else FirstObserved),
       de_layer = CheckLayer\<rparr>)"

text \<open>The third loop over the resolved assertions: the first tie or contested assertion, in key order.\<close>

fun first_contested :: "effective_assertion list \<Rightarrow> decision option" where
  "first_contested [] = None"
| "first_contested (item # items) =
     (if ea_polarity item = EffTied
      then Some (plain_decision LContested ''tied'' (sorted_ids (ea_observations item)) CheckLayer)
      else if ea_polarity item = EffPolarity Contradicts \<and> contesting item \<noteq> []
      then Some (plain_decision LContested (''contested_by_'' @ ob_source_kind (hd (contesting item)))
             (sorted_ids (contesting item)) CheckLayer)
      else first_contested items)"

definition decide_checks :: "observation list \<Rightarrow> observation list \<Rightarrow> day \<Rightarrow> decision" where
  "decide_checks evidence propagation observed_day =
     (let resolved = resolve_assertions False evidence;
          contradictions = filter (\<lambda>item. ea_polarity item = EffPolarity Contradicts) resolved
      in case List.find (\<lambda>item. refuting item \<noteq> []) contradictions of
           Some item \<Rightarrow> plain_decision LRefuted (''contradicted_by_'' @ ob_source_ref (hd (refuting item)))
             (sorted_ids (refuting item)) CheckLayer
         | None \<Rightarrow>
       (case List.find (\<lambda>item. pending_ended item \<noteq> []) contradictions of
           Some item \<Rightarrow> pending_decision observed_day (pending_ended item)
         | None \<Rightarrow>
       (case first_contested resolved of
           Some d \<Rightarrow> d
         | None \<Rightarrow>
       (case List.find (\<lambda>o1. ob_polarity o1 = Contradicts) propagation of
           Some o1 \<Rightarrow> plain_decision LContested (''propagated_from_'' @ text_or_empty (ob_propagated_from o1))
             [ob_id o1] PropagationLayer
         | None \<Rightarrow>
             (let valid_by = filter (\<lambda>o1. ob_centrality o1 = Some Core \<and> 4 \<le> ob_source_rank o1)
                    (concat (map ea_observations (filter (\<lambda>item. ea_polarity item = EffPolarity Supports) resolved)))
              in if valid_by \<noteq> [] then plain_decision LValid ''core_checked'' (sorted_ids valid_by) CheckLayer
                 else plain_decision LValid ''declaration_only'' []
                   (if propagation \<noteq> [] then PropagationLayer else CheckLayer))))))"

definition decide :: "observation list \<Rightarrow> day \<Rightarrow> (decide_error, decision) result" where
  "decide observations observed_day =
     (let evidence = sort_key evidence_order observations;
          propagation = filter (\<lambda>o1. ob_source_kind o1 = ''propagation'') evidence;
          endings = endings_of evidence
      in if propagation \<noteq> [] \<and> length propagation \<noteq> length evidence then Inl PropagationMixed
         else res_bind (check_propagation propagation) (\<lambda>_.
              if list_ex (\<lambda>o1. ob_rule o1 = None) endings then Inl EndingWithoutRule
              else case endings of
                  e # _ \<Rightarrow> Inr (ended_by observed_day e)
                | [] \<Rightarrow>
                    (case List.find (\<lambda>o1. ob_rule o1 = Some RDecayArchived) evidence of
                       Some o1 \<Rightarrow> Inr (plain_decision LUnverifiable ''decay_archived'' [ob_id o1] StructuralLayer)
                     | None \<Rightarrow> Inr (decide_checks evidence propagation observed_day))))"

definition effective_text :: "effective \<Rightarrow> string" where
  "effective_text e = (case e of EffTied \<Rightarrow> ''tied'' | EffPolarity p \<Rightarrow> polarity_text p)"

definition decision_fingerprint :: "decision \<Rightarrow> observation list \<Rightarrow> string" where
  "decision_fingerprint d observations =
     (let pairs = map (\<lambda>item. JArr [JStr (codes (ea_key item)), JStr (codes (effective_text (ea_polarity item)))])
            (resolve_assertions True observations)
      in sha256_hex (utf8 (dumps_ascii [44] [58]
           (JArr [JStr (codes (state_text (de_state d))), JStr (codes (de_reason d)), JArr pairs]))))"

section \<open>Confirmation\<close>

record evaluation_record =
  er_observed_day :: day
  er_entry_digest :: string
  er_fingerprint :: string
  er_complete :: bool
  er_invalidated :: bool
  er_layer :: layer

definition void_record :: "evaluation_record \<Rightarrow> bool" where
  "void_record r = (\<not> er_complete r \<or> er_invalidated r \<or> er_layer r = PropagationLayer)"

definition agrees_with :: "evaluation_record \<Rightarrow> evaluation_record \<Rightarrow> bool" where
  "agrees_with candidate r =
     (er_entry_digest r = er_entry_digest candidate \<and> er_fingerprint r = er_fingerprint candidate)"

text \<open>The loop over the reversed history: void records are skipped, the first disagreement stops it.\<close>

fun agreeing_days :: "evaluation_record \<Rightarrow> evaluation_record list \<Rightarrow> day list \<Rightarrow> day list" where
  "agreeing_days candidate [] days = days"
| "agreeing_days candidate (r # rs) days =
     (if void_record r then agreeing_days candidate rs days
      else if \<not> agrees_with candidate r then days
      else agreeing_days candidate rs (List.insert (er_observed_day r) days))"

definition confirmed :: "evaluation_record list \<Rightarrow> evaluation_record \<Rightarrow> bool" where
  "confirmed history candidate =
     (if er_layer candidate \<in> {StructuralLayer, PropagationLayer} then True
      else if \<not> er_complete candidate \<or> er_invalidated candidate then False
      else 2 \<le> length (agreeing_days candidate (rev history) [er_observed_day candidate]))"

section \<open>Structural observations\<close>

datatype at_value = AtDate day | AtDatetime instant

record structural_row =
  sr_id :: string
  sr_merged_into :: "string option"
  sr_status :: "string option"
  sr_superseded_by :: "string option"
  sr_successor_exists :: bool
  sr_successor_created_at :: "at_value option"
  sr_freshness_status :: "string option"
  sr_freshness_status_updated_at :: "at_value option"

definition day_of :: "at_value option \<Rightarrow> day option" where
  "day_of a = map_option (\<lambda>v. case v of AtDate d \<Rightarrow> d | AtDatetime t \<Rightarrow> t div 86400000000) a"

definition iso_date :: "day \<Rightarrow> string" where
  "iso_date d = (case civil_of_days d of (y, m, dd) \<Rightarrow>
     pad_nat 4 (nat y) @ ''-'' @ pad_nat 2 (nat m) @ ''-'' @ pad_nat 2 (nat dd))"

definition emit :: "string \<Rightarrow> structural_row \<Rightarrow> structural_rule \<Rightarrow> string \<Rightarrow> at_value option \<Rightarrow> observation" where
  "emit table row rule observed at =
     (let d = day_of at;
          kind = (if rule = RDecayArchived then ''decay'' else ''structure'');
          source_ref = table @ '':'' @ sr_id row @ '':'' @ rule_text rule @ '':'' @ observed;
          payload = dumps_ascii [44] [58] (JArr [JStr (codes source_ref),
            (case d of None \<Rightarrow> JNull | Some x \<Rightarrow> JStr (codes (iso_date x)))])
      in \<lparr>ob_id = sha256_hex (utf8 payload), ob_assertion_key = None,
          ob_polarity = (if kind = ''decay'' then Contradicts else Ends), ob_source_kind = kind,
          ob_source_rank = (case map_of RANKS kind of None \<Rightarrow> 0 | Some n \<Rightarrow> n), ob_source_ref = source_ref, ob_centrality = None,
          ob_temporal = None, ob_valid_from = d, ob_valid_from_precision = (if d \<noteq> None then ExactDate else UnknownDate),
          ob_rule = Some rule, ob_propagated_from = None, ob_observed_value = Some observed\<rparr>)"

definition structural_observations :: "string \<Rightarrow> structural_row \<Rightarrow> observation list" where
  "structural_observations table row =
     (let merged = (case sr_merged_into row of Some s \<Rightarrow> if strip s = [] then None else Some s | None \<Rightarrow> None) in
      (case merged of Some s \<Rightarrow> [emit table row RMerged s (sr_freshness_status_updated_at row)] | None \<Rightarrow> []) @
      (case sr_superseded_by row of
         Some s \<Rightarrow>
           if table \<in> {''decisions'', ''adrs''} \<and> sr_status row = Some ''superseded'' \<and> sr_successor_exists row
           then [emit table row (if table = ''decisions'' then RSupersededDecision else RSupersededAdr) s
                   (sr_successor_created_at row)]
           else []
       | None \<Rightarrow> []) @
      (if table = ''adrs'' \<and> sr_status row = Some ''deprecated''
       then [emit table row RDeprecatedAdr ''deprecated'' (sr_freshness_status_updated_at row)] else []) @
      (if sr_freshness_status row = Some ''archived'' \<and> merged = None
       then [emit table row RDecayArchived ''archived'' (sr_freshness_status_updated_at row)] else []))"

end
