(* ===== verification/Knowledge_Spec.thy ===== *)
theory Knowledge_Spec
  imports Knowledge_Decision
begin

text \<open>
  What the lifecycle decision means. The specification reads the observations as a set: which of
  them count for an assertion, which of those rank highest, and whether they all contradict it. The
  theory shows that the grouping and sorting of \<open>resolve_assertions\<close> and the loops of \<open>decide\<close> and
  \<open>confirmed\<close> compute exactly that.
\<close>

section \<open>Grouping\<close>

definition counted :: "bool \<Rightarrow> observation list \<Rightarrow> string \<Rightarrow> observation list" where
  "counted inc obs k = filter (\<lambda>o1. assertion_of inc o1 = Some k \<and> \<not> exempt o1) obs"

lemma dict_get_new [simp]: "dict_get (d @ [(k, [])]) k' = dict_get d k'"
  by (simp add: dict_get_def map_add_def split: option.splits)

lemma dict_get_update: "dict_get (AList.update k v d) k' = (if k = k' then v else dict_get d k')"
  by (simp add: dict_get_def update_conv')

lemma group_observation_keys:
  "fst ` set (group_observation inc o1 d) = fst ` set d \<union> {k. assertion_of inc o1 = Some k}"
  by (auto simp: group_observation_def Let_def dom_update split: option.splits)

lemma group_observation_distinct:
  "distinct (map fst d) \<Longrightarrow> distinct (map fst (group_observation inc o1 d))"
  by (auto simp: group_observation_def Let_def distinct_update split: option.splits)

lemma group_observation_get:
  "dict_get (group_observation inc o1 d) k = dict_get d k @ counted inc [o1] k"
  by (auto simp: group_observation_def Let_def counted_def dict_get_update split: option.splits)

lemma grouped_fold:
  "fst ` set (fold (group_observation inc) obs d) = fst ` set d \<union> {k. \<exists>o1 \<in> set obs. assertion_of inc o1 = Some k}"
  "distinct (map fst d) \<Longrightarrow> distinct (map fst (fold (group_observation inc) obs d))"
  "dict_get (fold (group_observation inc) obs d) k = dict_get d k @ counted inc obs k"
  by (induction obs arbitrary: d)
    (auto simp: group_observation_keys group_observation_distinct group_observation_get counted_def)

lemma dict_get_mem: "distinct (map fst d) \<Longrightarrow> (k, v) \<in> set d \<Longrightarrow> dict_get d k = v"
  by (simp add: dict_get_def)

lemma resolve_assertions_set:
  "set (resolve_assertions inc obs) =
   (\<lambda>k. resolve_group (k, counted inc obs k)) ` {k. \<exists>o1 \<in> set obs. assertion_of inc o1 = Some k}"
proof -
  let ?d = "fold (group_observation inc) obs []"
  have d: "distinct (map fst ?d)" "dict_get ?d k = counted inc obs k" for k
    using grouped_fold(2) [of "[]"] grouped_fold(3) [of inc obs "[]"] by (simp_all add: dict_get_def)
  have "kv = (fst kv, counted inc obs (fst kv))" if "kv \<in> set ?d" for kv
    using dict_get_mem [OF d(1), of "fst kv" "snd kv"] that d(2) [of "fst kv"] by (cases kv rule: prod.exhaust) simp
  then have "set ?d = (\<lambda>k. (k, counted inc obs k)) ` (fst ` set ?d)" unfolding image_image by force
  also have "fst ` set ?d = {k. \<exists>o1 \<in> set obs. assertion_of inc o1 = Some k}" using grouped_fold(1) [of inc obs "[]"] by simp
  finally show ?thesis by (simp add: resolve_assertions_def image_image)
qed

section \<open>The specification\<close>

definition counting :: "observation set \<Rightarrow> string \<Rightarrow> observation set" where
  "counting S k = {o1 \<in> S. assertion_of False o1 = Some k \<and> \<not> exempt o1}"

definition top_of :: "observation set \<Rightarrow> string \<Rightarrow> observation set" where
  "top_of S k = {o1 \<in> counting S k. \<forall>o2 \<in> counting S k. ob_source_rank o2 \<le> ob_source_rank o1}"

definition contradicted :: "observation set \<Rightarrow> string \<Rightarrow> bool" where
  "contradicted S k = (top_of S k \<noteq> {} \<and> (\<forall>o1 \<in> top_of S k. ob_polarity o1 = Contradicts))"

definition tied :: "observation set \<Rightarrow> string \<Rightarrow> bool" where
  "tied S k = (\<exists>o1 \<in> top_of S k. \<exists>o2 \<in> top_of S k. ob_polarity o1 = Supports \<and> ob_polarity o2 = Contradicts)"

definition lifecycle_state_spec :: "observation set \<Rightarrow> lifecycle_state" where
  "lifecycle_state_spec S =
     (if \<exists>o1 \<in> S. ob_polarity o1 = Ends \<and> ob_source_kind o1 \<noteq> ''propagation'' then LObsolete
      else if \<exists>o1 \<in> S. ob_rule o1 = Some RDecayArchived then LUnverifiable
      else if \<exists>k. contradicted S k \<and> (\<exists>o1 \<in> top_of S k. ob_centrality o1 = Some Core \<and> ob_temporal o1 = Some Durable \<and>
           5 \<le> ob_source_rank o1) then LRefuted
      else if \<exists>k. contradicted S k \<and> (\<exists>o1 \<in> top_of S k. ob_centrality o1 = Some Core \<and> ob_temporal o1 = Some Transient \<and>
           3 \<le> ob_source_rank o1) then LObsolete
      else if \<exists>k. tied S k \<or> (contradicted S k \<and>
           (\<exists>o1 \<in> top_of S k. \<not> (ob_centrality o1 = Some Incidental \<and> ob_temporal o1 = Some Transient))) then LContested
      else if \<exists>o1 \<in> S. ob_source_kind o1 = ''propagation'' \<and> ob_polarity o1 = Contradicts then LContested
      else LValid)"

definition evidence_ok :: "observation set \<Rightarrow> bool" where
  "evidence_ok S =
     (((\<exists>o1 \<in> S. ob_source_kind o1 = ''propagation'') \<longrightarrow>
        (\<forall>o1 \<in> S. ob_source_kind o1 = ''propagation'' \<and> ob_propagated_from o1 \<noteq> None \<and> ob_rule o1 = None)) \<and>
      (\<forall>o1 \<in> S. ob_polarity o1 = Ends \<and> ob_source_kind o1 \<noteq> ''propagation'' \<longrightarrow> ob_rule o1 \<noteq> None))"

section \<open>Resolution computes the specification\<close>

lemma set_counted: "set (counted False obs k) = counting (set obs) k"
  by (auto simp: counted_def counting_def)

lemma set_top_ranked:
  assumes "members \<noteq> []"
  shows "set (top_ranked members) = {o1 \<in> set members. \<forall>o2 \<in> set members. ob_source_rank o2 \<le> ob_source_rank o1}"
proof -
  have max: "ob_source_rank o2 \<le> Max (ob_source_rank ` set members)" if "o2 \<in> set members" for o2
    using that by simp
  have "Max (ob_source_rank ` set members) \<in> ob_source_rank ` set members"
    using assms by (intro Max_in) simp_all
  then obtain m where m: "m \<in> set members" "ob_source_rank m = Max (ob_source_rank ` set members)" by force
  have "ob_source_rank o1 = Max (ob_source_rank ` set members) \<longleftrightarrow> (\<forall>o2 \<in> set members. ob_source_rank o2 \<le> ob_source_rank o1)"
    if "o1 \<in> set members" for o1
    using max [OF that] max m by (metis order.antisym)
  then show ?thesis by (auto simp: top_ranked_def Let_def)
qed

lemma resolved_observations: "set (ea_observations (resolve_group (k, counted False obs k))) = top_of (set obs) k"
proof (cases "counted False obs k = []")
  case True
  then have "counting (set obs) k = {}" by (metis empty_set set_counted)
  with True show ?thesis by (simp add: resolve_group_def top_of_def)
next
  case False
  then show ?thesis by (simp add: resolve_group_def Let_def set_top_ranked set_counted top_of_def)
qed

lemma top_polarities: "o1 \<in> top_of S k \<Longrightarrow> ob_polarity o1 \<in> {Supports, Contradicts}"
  by (auto simp: top_of_def counting_def exempt_def)

lemma card_polarities:
  assumes "finite A" and "A \<subseteq> {Supports, Contradicts}"
  shows "1 < card A \<longleftrightarrow> A = {Supports, Contradicts}"
proof
  assume "1 < card A"
  moreover have "card {Supports, Contradicts} = 2" by simp
  ultimately show "A = {Supports, Contradicts}" using assms by (intro card_seteq) auto
qed simp

lemma subset_pair: "A \<subseteq> {x, y} \<Longrightarrow> A \<noteq> {x, y} \<Longrightarrow> y \<in> A \<Longrightarrow> A = {y}"
  by blast

lemma resolved_polarity:
  assumes "item = resolve_group (k, counted False obs k)"
  shows "ea_polarity item = EffTied \<longleftrightarrow> tied (set obs) k"
    and "ea_polarity item = EffPolarity Contradicts \<longleftrightarrow> contradicted (set obs) k"
proof -
  let ?T = "top_of (set obs) k"
  have set: "set (ea_observations item) = ?T" using resolved_observations assms by simp
  have fin: "finite ?T" using set by (metis List.finite_set)
  have sub: "ob_polarity ` ?T \<subseteq> {Supports, Contradicts}" using top_polarities by auto
  have "(ea_polarity item = EffTied \<longleftrightarrow> tied (set obs) k) \<and>
    (ea_polarity item = EffPolarity Contradicts \<longleftrightarrow> contradicted (set obs) k)"
  proof (cases "counted False obs k = []")
    case True
    then have "?T = {}" using set assms by (simp add: resolve_group_def)
    with True assms show ?thesis by (simp add: resolve_group_def tied_def contradicted_def)
  next
    case False
    let ?top = "top_ranked (counted False obs k)"
    have top: "set ?top = ?T" using set assms False by (simp add: resolve_group_def Let_def)
    have "counted False obs k \<noteq> []" by (rule False)
    then obtain m where "m \<in> set (counted False obs k)" "ob_source_rank m = Max (ob_source_rank ` set (counted False obs k))"
      by (metis (no_types) List.finite_set Max_in finite_imageI image_iff image_is_empty set_empty)
    then have "m \<in> set ?top" by (simp add: top_ranked_def Let_def)
    then have ne: "?top \<noteq> []" "?T \<noteq> {}" using top by auto
    then have hd: "hd ?top \<in> ?T" using top by (metis list.set_sel(1))
    have pol: "ea_polarity item = (if ob_polarity ` ?T = {Supports, Contradicts} then EffTied else EffPolarity (ob_polarity (hd ?top)))"
      using False assms card_polarities [OF finite_imageI [OF fin] sub] by (simp add: resolve_group_def Let_def top)
    have "tied (set obs) k \<longleftrightarrow> Supports \<in> ob_polarity ` ?T \<and> Contradicts \<in> ob_polarity ` ?T"
      unfolding tied_def image_iff by metis
    then have tied: "ob_polarity ` ?T = {Supports, Contradicts} \<longleftrightarrow> tied (set obs) k" using sub by blast
    have "contradicted (set obs) k \<longleftrightarrow> ob_polarity ` ?T \<noteq> {Supports, Contradicts} \<and> ob_polarity (hd ?top) = Contradicts"
    proof
      assume "contradicted (set obs) k"
      then have "ob_polarity ` ?T = {Contradicts}" using hd by (auto simp: contradicted_def)
      with hd show "ob_polarity ` ?T \<noteq> {Supports, Contradicts} \<and> ob_polarity (hd ?top) = Contradicts" by auto
    next
      assume h: "ob_polarity ` ?T \<noteq> {Supports, Contradicts} \<and> ob_polarity (hd ?top) = Contradicts"
      then have "Contradicts \<in> ob_polarity ` ?T" using hd by force
      with h have "ob_polarity ` ?T = {Contradicts}" using subset_pair [OF sub] by simp
      with ne(2) show "contradicted (set obs) k" by (auto simp: contradicted_def)
    qed
    with pol tied show ?thesis by auto
  qed
  then show "ea_polarity item = EffTied \<longleftrightarrow> tied (set obs) k"
    and "ea_polarity item = EffPolarity Contradicts \<longleftrightarrow> contradicted (set obs) k" by blast+
qed

section \<open>The decision implements the specification\<close>

lemma asserted_keys:
  "tied (set obs) k \<or> contradicted (set obs) k \<Longrightarrow> \<exists>o1 \<in> set obs. assertion_of False o1 = Some k"
  by (auto simp: contradicted_def tied_def top_of_def counting_def)

lemma contradictions_set:
  "set (filter (\<lambda>item. ea_polarity item = EffPolarity Contradicts) (resolve_assertions False obs)) =
   (\<lambda>k. resolve_group (k, counted False obs k)) ` {k. contradicted (set obs) k}"
  using asserted_keys [of obs] by (auto simp: resolve_assertions_set resolved_polarity(2) [OF refl])

lemma find_contradiction:
  "List.find (\<lambda>item. filter P (ea_observations item) \<noteq> [])
     (filter (\<lambda>item. ea_polarity item = EffPolarity Contradicts) (resolve_assertions False obs)) \<noteq> None \<longleftrightarrow>
   (\<exists>k. contradicted (set obs) k \<and> (\<exists>o1 \<in> top_of (set obs) k. P o1))"
proof -
  have "filter P (ea_observations (resolve_group (k, counted False obs k))) \<noteq> [] \<longleftrightarrow> (\<exists>o1 \<in> top_of (set obs) k. P o1)" for k
    using resolved_observations [of k obs] by (auto simp: filter_empty_conv)
  then show ?thesis unfolding find_None_iff contradictions_set by auto
qed

lemma first_contested_None:
  "first_contested items = None \<longleftrightarrow>
   (\<forall>item \<in> set items. ea_polarity item \<noteq> EffTied \<and>
      \<not> (ea_polarity item = EffPolarity Contradicts \<and> contesting item \<noteq> []))"
  by (induction items) auto

lemma first_contested_state: "first_contested items = Some d \<Longrightarrow> de_state d = LContested"
  by (induction items) (auto simp: plain_decision_def split: if_splits)

lemma contested_iff:
  "first_contested (resolve_assertions False obs) \<noteq> None \<longleftrightarrow>
   (\<exists>k. tied (set obs) k \<or> (contradicted (set obs) k \<and>
      (\<exists>o1 \<in> top_of (set obs) k. \<not> (ob_centrality o1 = Some Incidental \<and> ob_temporal o1 = Some Transient))))"
proof -
  let ?item = "\<lambda>k. resolve_group (k, counted False obs k)"
  have "contesting (?item k) \<noteq> [] \<longleftrightarrow> (\<exists>o1 \<in> top_of (set obs) k. \<not> (ob_centrality o1 = Some Incidental \<and> ob_temporal o1 = Some Transient))" for k
    using resolved_observations [of k obs] by (auto simp: contesting_def filter_empty_conv)
  then have item: "ea_polarity (?item k) = EffTied \<or> (ea_polarity (?item k) = EffPolarity Contradicts \<and> contesting (?item k) \<noteq> []) \<longleftrightarrow>
     tied (set obs) k \<or> (contradicted (set obs) k \<and>
      (\<exists>o1 \<in> top_of (set obs) k. \<not> (ob_centrality o1 = Some Incidental \<and> ob_temporal o1 = Some Transient)))" for k
    using resolved_polarity [of "?item k" k obs] by simp
  have "first_contested (resolve_assertions False obs) \<noteq> None \<longleftrightarrow>
      (\<exists>item \<in> set (resolve_assertions False obs). ea_polarity item = EffTied \<or>
        (ea_polarity item = EffPolarity Contradicts \<and> contesting item \<noteq> []))"
    by (auto simp: first_contested_None)
  also have "\<dots> \<longleftrightarrow> (\<exists>k. (\<exists>o1 \<in> set obs. assertion_of False o1 = Some k) \<and> (ea_polarity (?item k) = EffTied \<or>
        (ea_polarity (?item k) = EffPolarity Contradicts \<and> contesting (?item k) \<noteq> [])))"
    unfolding resolve_assertions_set by auto
  finally show ?thesis unfolding item using asserted_keys [of obs] by blast
qed

lemma decide_checks_state:
  assumes "\<not> (\<exists>o1 \<in> set obs. ob_polarity o1 = Ends \<and> ob_source_kind o1 \<noteq> ''propagation'')"
    and "\<not> (\<exists>o1 \<in> set obs. ob_rule o1 = Some RDecayArchived)"
    and "set propagation = {o1 \<in> set obs. ob_source_kind o1 = ''propagation''}"
  shows "de_state (decide_checks obs propagation observed_day) = lifecycle_state_spec (set obs)"
proof -
  let ?contradictions = "filter (\<lambda>item. ea_polarity item = EffPolarity Contradicts) (resolve_assertions False obs)"
  note refuted = find_contradiction [of "\<lambda>o1. ob_centrality o1 = Some Core \<and> ob_temporal o1 = Some Durable \<and> 5 \<le> ob_source_rank o1" obs,
      folded refuting_def]
  note pending = find_contradiction [of "\<lambda>o1. ob_centrality o1 = Some Core \<and> ob_temporal o1 = Some Transient \<and> 3 \<le> ob_source_rank o1" obs,
      folded pending_ended_def]
  have propagated: "List.find (\<lambda>o1. ob_polarity o1 = Contradicts) propagation \<noteq> None \<longleftrightarrow>
      (\<exists>o1 \<in> set obs. ob_source_kind o1 = ''propagation'' \<and> ob_polarity o1 = Contradicts)"
    using assms(3) by (auto simp: find_None_iff)
  show ?thesis
    unfolding lifecycle_state_spec_def decide_checks_def Let_def
      refuted [symmetric] pending [symmetric] contested_iff [symmetric] propagated [symmetric]
    using assms(1,2)
    by (auto simp: plain_decision_def pending_decision_def Let_def dest: first_contested_state split: option.splits)
qed

lemma check_propagation_ok:
  "is_ok (check_propagation ps) \<longleftrightarrow> (\<forall>o1 \<in> set ps. ob_propagated_from o1 \<noteq> None \<and> ob_rule o1 = None)"
  unfolding check_propagation_def is_ok_res_bind_Inr
  by (induction ps) (auto simp: is_ok_def split: sum.splits)

lemma length_filter_all: "length (filter P xs) = length xs \<longleftrightarrow> (\<forall>x \<in> set xs. P x)"
proof (induction xs)
  case (Cons x xs)
  have "length (filter P xs) \<noteq> Suc (length xs)" using length_filter_le [of P xs] by linarith
  with Cons show ?case by auto
qed simp

lemma is_ok_res_bind_const: "is_ok (res_bind m (\<lambda>_. r)) \<longleftrightarrow> is_ok m \<and> is_ok r"
  by (cases m) auto

lemma decide_ok_iff: "is_ok (decide obs observed_day) \<longleftrightarrow> evidence_ok (set obs)"
proof -
  let ?propagated = "filter (\<lambda>o1. ob_source_kind o1 = ''propagation'') (sort_key evidence_order obs)"
  have mixed: "?propagated \<noteq> [] \<and> length ?propagated \<noteq> length (sort_key evidence_order obs) \<longleftrightarrow>
      (\<exists>o1 \<in> set obs. ob_source_kind o1 = ''propagation'') \<and> \<not> (\<forall>o1 \<in> set obs. ob_source_kind o1 = ''propagation'')"
    unfolding length_filter_all filter_empty_conv set_sort by blast
  have rest: "is_ok (if list_ex (\<lambda>o1. ob_rule o1 = None) (endings_of (sort_key evidence_order obs)) then Inl EndingWithoutRule
      else case endings_of (sort_key evidence_order obs) of e # _ \<Rightarrow> Inr (ended_by observed_day e)
         | [] \<Rightarrow> (case List.find (\<lambda>o1. ob_rule o1 = Some RDecayArchived) (sort_key evidence_order obs) of
              Some o1 \<Rightarrow> Inr (plain_decision LUnverifiable ''decay_archived'' [ob_id o1] StructuralLayer)
            | None \<Rightarrow> Inr (decide_checks (sort_key evidence_order obs) ?propagated observed_day))) \<longleftrightarrow>
      (\<forall>o1 \<in> set obs. ob_polarity o1 = Ends \<and> ob_source_kind o1 \<noteq> ''propagation'' \<longrightarrow> ob_rule o1 \<noteq> None)"
    by (auto simp: list_ex_iff endings_of_def split: list.splits option.splits)
  have "is_ok (decide obs observed_day) \<longleftrightarrow>
      \<not> (?propagated \<noteq> [] \<and> length ?propagated \<noteq> length (sort_key evidence_order obs)) \<and> is_ok (check_propagation ?propagated) \<and>
      (\<forall>o1 \<in> set obs. ob_polarity o1 = Ends \<and> ob_source_kind o1 \<noteq> ''propagation'' \<longrightarrow> ob_rule o1 \<noteq> None)"
    unfolding decide_def Let_def by (simp add: is_ok_res_bind_const rest del: length_sort)
  then show ?thesis unfolding mixed check_propagation_ok evidence_ok_def by auto
qed

lemma spec_sorted [simp]: "lifecycle_state_spec (set (sort_key f obs)) = lifecycle_state_spec (set obs)"
  by simp

lemma decide_state:
  assumes "decide obs observed_day = Inr d"
  shows "de_state d = lifecycle_state_spec (set obs)"
proof -
  let ?ev = "sort_key evidence_order obs"
  let ?propagated = "filter (\<lambda>o1. ob_source_kind o1 = ''propagation'') ?ev"
  have set_endings: "set (endings_of ?ev) = {o1 \<in> set obs. ob_polarity o1 = Ends \<and> ob_source_kind o1 \<noteq> ''propagation''}"
    by (auto simp: endings_of_def)
  show ?thesis
  proof (cases "endings_of ?ev")
    case (Cons e es)
    then have "e \<in> set (endings_of ?ev)" by simp
    then have "\<exists>o1 \<in> set obs. ob_polarity o1 = Ends \<and> ob_source_kind o1 \<noteq> ''propagation''" by (auto simp: set_endings)
    then have "lifecycle_state_spec (set obs) = LObsolete" by (simp add: lifecycle_state_spec_def)
    moreover have "de_state d = LObsolete"
      using assms Cons by (auto simp: decide_def Let_def res_bind_eq_Inr ended_by_def split: if_splits)
    ultimately show ?thesis by simp
  next
    case Nil
    then have none: "\<not> (\<exists>o1 \<in> set obs. ob_polarity o1 = Ends \<and> ob_source_kind o1 \<noteq> ''propagation'')"
      using set_endings by auto
    show ?thesis
    proof (cases "List.find (\<lambda>o1. ob_rule o1 = Some RDecayArchived) ?ev")
      case None
      then have "\<not> (\<exists>o1 \<in> set ?ev. ob_rule o1 = Some RDecayArchived)" by (simp add: find_None_iff)
      moreover have "d = decide_checks ?ev ?propagated observed_day"
        using assms Nil None by (auto simp: decide_def Let_def res_bind_eq_Inr split: if_splits)
      ultimately show ?thesis using none decide_checks_state [of ?ev ?propagated observed_day] by simp
    next
      case (Some o1)
      then have "\<exists>o1 \<in> set obs. ob_rule o1 = Some RDecayArchived" using find_row_Some [of _ ?ev o1, unfolded find_row_def] by fastforce
      with none have "lifecycle_state_spec (set obs) = LUnverifiable" by (simp add: lifecycle_state_spec_def)
      moreover have "de_state d = LUnverifiable"
        using assms Nil Some by (auto simp: decide_def Let_def res_bind_eq_Inr plain_decision_def split: if_splits)
      ultimately show ?thesis by simp
    qed
  qed
qed

lemma decide_perm:
  assumes "mset xs = mset ys" and "distinct (map ob_id xs)"
  shows "decide xs observed_day = decide ys observed_day"
proof -
  have "inj_on evidence_order (set xs)"
    using assms(2) by (auto simp: inj_on_def evidence_order_def distinct_map)
  then have "sort_key evidence_order xs = sort_key evidence_order ys" by (rule sort_key_perm_eq [OF assms(1)])
  then show ?thesis by (simp add: decide_def)
qed

section \<open>Confirmation\<close>

definition agreeing_suffix :: "evaluation_record list \<Rightarrow> evaluation_record \<Rightarrow> nat \<Rightarrow> bool" where
  "agreeing_suffix history candidate i =
     (i < length history \<and> \<not> void_record (history ! i) \<and>
      (\<forall>j. i \<le> j \<and> j < length history \<and> \<not> void_record (history ! j) \<longrightarrow> agrees_with candidate (history ! j)))"

lemma agreeing_days_set:
  "set (agreeing_days candidate rs days) = set days \<union> er_observed_day `
     set (takeWhile (agrees_with candidate) (filter (\<lambda>r. \<not> void_record r) rs))"
  by (induction candidate rs days rule: agreeing_days.induct) auto

lemma agreeing_days_distinct: "distinct days \<Longrightarrow> distinct (agreeing_days candidate rs days)"
  by (induction candidate rs days rule: agreeing_days.induct) auto

lemma takeWhile_filter_rev:
  "x \<in> set (takeWhile P (filter Q (rev xs))) \<longleftrightarrow>
   (\<exists>i < length xs. xs ! i = x \<and> Q (xs ! i) \<and> (\<forall>j. i \<le> j \<and> j < length xs \<and> Q (xs ! j) \<longrightarrow> P (xs ! j)))"
proof (induction xs rule: rev_induct)
  case (snoc y ys)
  let ?R = "\<lambda>xs. \<exists>i < length xs. xs ! i = x \<and> Q (xs ! i) \<and> (\<forall>j. i \<le> j \<and> j < length xs \<and> Q (xs ! j) \<longrightarrow> P (xs ! j))"
  have "?R (ys @ [y]) \<longleftrightarrow> (Q y \<longrightarrow> P y) \<and> ((Q y \<and> x = y) \<or> ?R ys)"
  proof
    assume "?R (ys @ [y])"
    then obtain i where i: "i \<le> length ys" "(ys @ [y]) ! i = x" "Q ((ys @ [y]) ! i)"
      "\<And>j. i \<le> j \<Longrightarrow> j \<le> length ys \<Longrightarrow> Q ((ys @ [y]) ! j) \<Longrightarrow> P ((ys @ [y]) ! j)" by (auto simp: less_Suc_eq_le)
    have "Q y \<longrightarrow> P y" using i(4) [of "length ys"] i(1) by simp
    moreover have "?R ys" if "i < length ys"
    proof (intro exI [of _ i] conjI allI impI)
      fix j assume j: "i \<le> j \<and> j < length ys \<and> Q (ys ! j)"
      then show "P (ys ! j)" using i(4) [of j] by (simp add: nth_append)
    qed (use i that in \<open>simp_all add: nth_append\<close>)
    moreover have "Q y \<and> x = y" if "i = length ys" using i that by auto
    ultimately show "(Q y \<longrightarrow> P y) \<and> ((Q y \<and> x = y) \<or> ?R ys)"
      using i(1) by (cases "i = length ys") simp_all
  next
    assume h: "(Q y \<longrightarrow> P y) \<and> ((Q y \<and> x = y) \<or> ?R ys)"
    show "?R (ys @ [y])"
    proof (cases "Q y \<and> x = y")
      case True
      with h show ?thesis by (intro exI [of _ "length ys"]) (auto simp: nth_append less_Suc_eq)
    next
      case False
      with h obtain i where i: "i < length ys" "ys ! i = x" "Q (ys ! i)" "\<forall>j. i \<le> j \<and> j < length ys \<and> Q (ys ! j) \<longrightarrow> P (ys ! j)"
        by auto
      show ?thesis
        by (intro exI [of _ i]) (use i h in \<open>auto simp: nth_append less_Suc_eq\<close>)
    qed
  qed
  with snoc show ?case by auto
qed simp

lemma length_two_iff: "distinct xs \<Longrightarrow> a \<in> set xs \<Longrightarrow> 2 \<le> length xs \<longleftrightarrow> (\<exists>b \<in> set xs. b \<noteq> a)"
proof
  assume d: "distinct xs" and a: "a \<in> set xs"
  {
    assume "2 \<le> length xs"
    then have "set xs \<noteq> {a}" using distinct_card [OF d] by (metis One_nat_def Suc_1 card.empty card_insert_disjoint empty_iff finite.emptyI not_less_eq_eq order_refl)
    with a show "\<exists>b \<in> set xs. b \<noteq> a" by blast
  }
  assume "\<exists>b \<in> set xs. b \<noteq> a"
  then obtain b where "b \<in> set xs" "b \<noteq> a" by blast
  with a have "card {a, b} \<le> card (set xs)" by (intro card_mono) auto
  with \<open>b \<noteq> a\<close> distinct_card [OF d] show "2 \<le> length xs" by simp
qed

lemma confirmed_iff:
  "confirmed history candidate \<longleftrightarrow>
   er_layer candidate \<in> {StructuralLayer, PropagationLayer} \<or>
   (er_complete candidate \<and> \<not> er_invalidated candidate \<and>
    (\<exists>i. agreeing_suffix history candidate i \<and> er_observed_day (history ! i) \<noteq> er_observed_day candidate))"
proof -
  let ?days = "agreeing_days candidate (rev history) [er_observed_day candidate]"
  have set: "set ?days = insert (er_observed_day candidate) (er_observed_day ` {r. \<exists>i. agreeing_suffix history candidate i \<and> r = history ! i})"
  proof -
    have "set (takeWhile (agrees_with candidate) (filter (\<lambda>r. \<not> void_record r) (rev history))) =
        {r. \<exists>i. agreeing_suffix history candidate i \<and> r = history ! i}"
      by (rule set_eqI, unfold takeWhile_filter_rev) (auto simp: agreeing_suffix_def)
    then show ?thesis unfolding agreeing_days_set by simp
  qed
  have "2 \<le> length ?days \<longleftrightarrow> (\<exists>d \<in> set ?days. d \<noteq> er_observed_day candidate)"
    by (rule length_two_iff) (simp_all add: agreeing_days_distinct agreeing_days_set)
  also have "\<dots> \<longleftrightarrow> (\<exists>i. agreeing_suffix history candidate i \<and> er_observed_day (history ! i) \<noteq> er_observed_day candidate)"
    unfolding set by auto
  finally show ?thesis by (cases "er_layer candidate") (auto simp: confirmed_def)
qed

section \<open>Structural observations\<close>

definition structurally_ended :: "string \<Rightarrow> structural_row \<Rightarrow> bool" where
  "structurally_ended table row =
     ((\<exists>s. sr_merged_into row = Some s \<and> strip s \<noteq> []) \<or>
      (table \<in> {''decisions'', ''adrs''} \<and> sr_status row = Some ''superseded'' \<and> sr_superseded_by row \<noteq> None \<and>
       sr_successor_exists row) \<or>
      (table = ''adrs'' \<and> sr_status row = Some ''deprecated''))"

lemma emit_fields [simp]:
  "ob_rule (emit table row rule observed at) = Some rule"
  "ob_propagated_from (emit table row rule observed at) = None"
  "ob_source_kind (emit table row rule observed at) = (if rule = RDecayArchived then ''decay'' else ''structure'')"
  "ob_polarity (emit table row rule observed at) = (if rule = RDecayArchived then Contradicts else Ends)"
  "ob_assertion_key (emit table row rule observed at) = None"
  by (simp_all add: emit_def Let_def)

lemma structural_fields:
  assumes "o1 \<in> set (structural_observations table row)"
  shows "ob_rule o1 \<noteq> None \<and> ob_source_kind o1 \<noteq> ''propagation'' \<and> ob_assertion_key o1 = None"
proof -
  have "\<exists>rule observed at. o1 = emit table row rule observed at"
    using assms by (auto simp: structural_observations_def Let_def split: if_splits option.splits)
  then show ?thesis by (auto split: if_splits)
qed

lemma structural_ended_iff:
  "(\<exists>o1 \<in> set (structural_observations table row). ob_polarity o1 = Ends) \<longleftrightarrow> structurally_ended table row"
  by (cases "sr_superseded_by row"; cases "sr_merged_into row")
    (auto simp: structural_observations_def structurally_ended_def Let_def split: if_splits)

lemma structural_archived_iff:
  "\<not> structurally_ended table row \<Longrightarrow>
   (\<exists>o1 \<in> set (structural_observations table row). ob_rule o1 = Some RDecayArchived) \<longleftrightarrow> sr_freshness_status row = Some ''archived''"
  by (cases "sr_superseded_by row"; cases "sr_merged_into row")
    (auto simp: structural_observations_def structurally_ended_def Let_def split: if_splits)

lemma structural_evidence_ok: "evidence_ok (set (structural_observations table row))"
  using structural_fields by (auto simp: evidence_ok_def)

lemma structural_no_assertions: "top_of (set (structural_observations table row)) k = {}"
  using structural_fields [of _ table row] by (auto simp: top_of_def counting_def assertion_of_def)

lemma structural_state:
  "lifecycle_state_spec (set (structural_observations table row)) =
     (if structurally_ended table row then LObsolete
      else if sr_freshness_status row = Some ''archived'' then LUnverifiable else LValid)"
proof -
  let ?S = "set (structural_observations table row)"
  have kind: "ob_source_kind o1 \<noteq> ''propagation''" if "o1 \<in> ?S" for o1 using structural_fields [OF that] by simp
  then have ends: "(\<exists>o1 \<in> ?S. ob_polarity o1 = Ends \<and> ob_source_kind o1 \<noteq> ''propagation'') \<longleftrightarrow> structurally_ended table row"
    unfolding structural_ended_iff [symmetric] by blast
  have unpropagated: "\<not> (\<exists>o1 \<in> ?S. ob_source_kind o1 = ''propagation'' \<and> ob_polarity o1 = Contradicts)" using kind by blast
  show ?thesis
    unfolding lifecycle_state_spec_def ends
    using structural_archived_iff [of table row] unpropagated
    by (simp add: contradicted_def tied_def structural_no_assertions) blast
qed

section \<open>Properties\<close>

text \<open>
  C35: The lifecycle decision implements its specification: it is refused exactly on evidence that
  mixes propagation with other kinds, propagates without a parent or with a rule, or ends without a
  rule; otherwise its state is the one the highest-ranked countable observations of each assertion
  determine, structural endings first, then refutation, the end of a pending state, contestation and
  propagation.
\<close>

theorem decide_implements_spec:
  "case decide obs observed_day of
     Inl _ \<Rightarrow> \<not> evidence_ok (set obs)
   | Inr d \<Rightarrow> evidence_ok (set obs) \<and> de_state d = lifecycle_state_spec (set obs)"
  using decide_ok_iff [of obs observed_day] decide_state [of obs observed_day]
  by (cases "decide obs observed_day") auto

text \<open>
  The decision, its reason, the observations it cites and its dates do not depend on the order in
  which the observations of an evaluation are supplied.
\<close>

lemma decide_order_independent:
  assumes "mset xs = mset ys" and "distinct (map ob_id xs)"
  shows "decide xs observed_day = decide ys observed_day"
  by (rule decide_perm [OF assms])

definition sample_observation :: "string \<Rightarrow> polarity \<Rightarrow> string \<Rightarrow> int \<Rightarrow> observation" where
  "sample_observation i p kind rank = \<lparr>ob_id = i, ob_assertion_key = Some ''k'', ob_polarity = p, ob_source_kind = kind,
     ob_source_rank = rank, ob_source_ref = ''r'', ob_centrality = Some Core, ob_temporal = Some Durable,
     ob_valid_from = None, ob_valid_from_precision = UnknownDate, ob_rule = None, ob_propagated_from = None,
     ob_observed_value = None\<rparr>"

lemma decide_order_independent_sample:
  "let a = sample_observation ''a'' Supports ''code'' 4; b = sample_observation ''b'' Contradicts ''measured'' 6
   in decide [a, b] 0 = decide [b, a] 0"
proof -
  let ?a = "sample_observation ''a'' Supports ''code'' 4" and ?b = "sample_observation ''b'' Contradicts ''measured'' 6"
  have "mset [?a, ?b] = mset [?b, ?a]" "distinct (map ob_id [?a, ?b])" by (simp_all add: sample_observation_def)
  from decide_order_independent [OF this] show ?thesis by simp
qed

text \<open>
  A check-based change is confirmed exactly when its evaluation is complete and not invalidated
  and some earlier counted evaluation of another day agrees with it, with no counted disagreement in
  between; structural and propagated changes apply at once.
\<close>

lemma confirmed_exact:
  "confirmed history candidate \<longleftrightarrow>
   er_layer candidate \<in> {StructuralLayer, PropagationLayer} \<or>
   (er_complete candidate \<and> \<not> er_invalidated candidate \<and>
    (\<exists>i. agreeing_suffix history candidate i \<and> er_observed_day (history ! i) \<noteq> er_observed_day candidate))"
  by (rule confirmed_iff)

text \<open>
  A row's structure alone always yields a decision: obsolete when the row is merged, superseded by
  an existing successor or deprecated, unverifiable when it is only archived, valid otherwise.
\<close>

lemma structural_decision:
  "\<exists>d. decide (structural_observations table row) observed_day = Inr d \<and>
     de_state d = (if structurally_ended table row then LObsolete
       else if sr_freshness_status row = Some ''archived'' then LUnverifiable else LValid)"
proof -
  have "is_ok (decide (structural_observations table row) observed_day)"
    using decide_ok_iff structural_evidence_ok by blast
  then obtain d where d: "decide (structural_observations table row) observed_day = Inr d" by (auto simp: is_ok_iff)
  with decide_state [OF d] structural_state show ?thesis by auto
qed

end
