(* ===== verification/Knowledge_Ledger.thy ===== *)
theory Knowledge_Ledger
  imports Knowledge_Decision
begin

text \<open>
  \<open>repositories/pg_knowledge_lifecycle.py\<close>: the lifecycle tables of \<open>db/tables.py\<close> and every method of the
  repository. A call is one transaction on the whole \<open>ledger\<close>; an error leaves it unchanged, as the
  savepoint of the call does. \<open>_append_event\<close> runs under the lock of the entry that its caller took with
  \<open>lock_apply_inputs\<close>, so its reads are of one state.

  The identifiers a sequence draws and the clocks are arguments. A JSONB number is its coefficient and its
  scale; an object is an association list with distinct keys. A timeout of a lock (\<open>ApplyDeferred\<close>) ends the
  transaction and writes nothing: it has no case here.
\<close>

section \<open>JSONB\<close>

datatype jsonb =
    BNull | BBool bool | BNum int nat | BText string
  | BArr "jsonb list" | BObj "(string \<times> jsonb) list"

type_synonym jobject = "(string \<times> jsonb) list"
type_synonym decimal = "int \<times> nat"

text \<open>\<open>||\<close> and \<open>-\<close> of PostgreSQL; the second fails on a scalar.\<close>

definition merge_object :: "jobject \<Rightarrow> jobject \<Rightarrow> jobject" where
  "merge_object d new = fold (\<lambda>(k, v). AList.update k v) new d"

definition as_array :: "jsonb \<Rightarrow> jsonb list" where
  "as_array j = (case j of BArr xs \<Rightarrow> xs | _ \<Rightarrow> [j])"

definition jsonb_concat :: "jsonb \<Rightarrow> jsonb \<Rightarrow> jsonb" where
  "jsonb_concat a b = (case (a, b) of
       (BObj d, BObj e) \<Rightarrow> BObj (merge_object d e)
     | _ \<Rightarrow> BArr (as_array a @ as_array b))"

definition jsonb_minus :: "jsonb \<Rightarrow> string \<Rightarrow> jsonb option" where
  "jsonb_minus j key = (case j of
       BObj d \<Rightarrow> Some (BObj (AList.delete key d))
     | BArr xs \<Rightarrow> Some (BArr (filter (\<lambda>x. x \<noteq> BText key) xs))
     | _ \<Rightarrow> None)"

text \<open>Python's \<open>==\<close> on decoded values: numbers by value, a boolean as a number, objects in any order.\<close>

fun canonical_number :: "int \<Rightarrow> nat \<Rightarrow> jsonb" where
  "canonical_number m 0 = BNum m 0"
| "canonical_number m (Suc s) = (if m mod 10 = 0 then canonical_number (m div 10) s else BNum m (Suc s))"

primrec canonical_value :: "jsonb \<Rightarrow> jsonb" where
  "canonical_value BNull = BNull"
| "canonical_value (BBool b) = BNum (if b then 1 else 0) 0"
| "canonical_value (BNum m s) = canonical_number m s"
| "canonical_value (BText t) = BText t"
| "canonical_value (BArr xs) = BArr (map canonical_value xs)"
| "canonical_value (BObj d) = BObj (sort_key fst (map (map_prod id canonical_value) d))"

definition python_equal :: "jsonb \<Rightarrow> jsonb \<Rightarrow> bool" where
  "python_equal a b = (canonical_value a = canonical_value b)"

text \<open>\<open>CAST(text AS bigint)\<close>, and the counter of a statistics object.\<close>

definition in_bigint :: "int \<Rightarrow> bool" where
  "in_bigint i = (- (2 ^ 63) \<le> i \<and> i < 2 ^ 63)"

definition bigint_of_text :: "string \<Rightarrow> int option" where
  "bigint_of_text t =
     (let s = strip t;
          negative = startswith s ''-'';
          digits = (if negative \<or> startswith s ''+'' then drop 1 s else s);
          i = (if negative then - int (read_nat digits) else int (read_nat digits))
      in if digits \<noteq> [] \<and> list_all is_digit digits \<and> in_bigint i then Some i else None)"

definition counter_value :: "jobject \<Rightarrow> string \<Rightarrow> int option" where
  "counter_value counts counter = (case map_of counts counter of
       None \<Rightarrow> Some 0
     | Some BNull \<Rightarrow> Some 0
     | Some (BNum m 0) \<Rightarrow> if in_bigint m then Some m else None
     | Some (BText t) \<Rightarrow> bigint_of_text t
     | Some _ \<Rightarrow> None)"

section \<open>Vocabulary\<close>

datatype run_status =
    RunCreated | RunManifestFrozen | RunSubmitting | RunSubmitted | RunResultsStored | RunEvaluated
  | RunApplying | RunApplied | RunFailed | RunInvalidated

definition RUN_STATUSES :: "(string \<times> run_status) list" where
  "RUN_STATUSES = [(''created'', RunCreated), (''manifest_frozen'', RunManifestFrozen), (''submitting'', RunSubmitting),
     (''submitted'', RunSubmitted), (''results_stored'', RunResultsStored), (''evaluated'', RunEvaluated),
     (''applying'', RunApplying), (''applied'', RunApplied), (''failed'', RunFailed), (''invalidated'', RunInvalidated)]"

definition run_status_of :: "string \<Rightarrow> run_status option" where
  "run_status_of t = map_of RUN_STATUSES t"

definition NEXT_STATUS :: "(run_status \<times> run_status) list" where
  "NEXT_STATUS = [(RunCreated, RunManifestFrozen), (RunManifestFrozen, RunSubmitting), (RunSubmitting, RunSubmitted),
     (RunSubmitted, RunResultsStored), (RunResultsStored, RunEvaluated), (RunEvaluated, RunApplying), (RunApplying, RunApplied)]"

definition status_edge :: "run_status \<Rightarrow> run_status \<Rightarrow> bool \<Rightarrow> bool" where
  "status_edge source target invalidation =
     (if target = RunInvalidated then invalidation \<and> source \<in> {RunApplied, RunFailed}
      else map_of NEXT_STATUS source = Some target \<or> (source \<in> fst ` set NEXT_STATUS \<and> target = RunFailed))"

definition transition_allowed :: "string \<Rightarrow> string \<Rightarrow> bool \<Rightarrow> bool" where
  "transition_allowed source target invalidation =
     (case (run_status_of source, run_status_of target) of
        (Some s, Some t) \<Rightarrow> status_edge s t invalidation
      | _ \<Rightarrow> False)"

datatype run_mode = DryRun | ApplyRun

definition mode_of :: "string \<Rightarrow> run_mode option" where
  "mode_of t = (if t = ''dry_run'' then Some DryRun else if t = ''apply'' then Some ApplyRun else None)"

datatype entry_type = Decisions | Learnings | Snippets | Runbooks | Adrs

definition entry_type_text :: "entry_type \<Rightarrow> string" where
  "entry_type_text k = (case k of Decisions \<Rightarrow> ''decisions'' | Learnings \<Rightarrow> ''learnings'' | Snippets \<Rightarrow> ''snippets''
     | Runbooks \<Rightarrow> ''runbooks'' | Adrs \<Rightarrow> ''adrs'')"

definition ENTRY_TYPES :: "entry_type list" where
  "ENTRY_TYPES = [Decisions, Learnings, Snippets, Runbooks, Adrs]"

definition GRAPH_TYPES :: "(entry_type \<times> string) list" where
  "GRAPH_TYPES = [(Decisions, ''decision''), (Learnings, ''learning''), (Snippets, ''snippet''), (Runbooks, ''runbook''), (Adrs, ''adr'')]"

definition TEXT_FIELDS :: "entry_type \<Rightarrow> string list" where
  "TEXT_FIELDS k = (case k of
       Decisions \<Rightarrow> [''title'', ''description'', ''reasoning'', ''alternatives'', ''consequences'']
     | Learnings \<Rightarrow> [''topic'', ''insight'', ''source'']
     | Snippets \<Rightarrow> [''title'', ''intention'', ''code'', ''language'', ''dependencies'', ''usage_example'', ''gotchas'']
     | Runbooks \<Rightarrow> [''title'', ''description'', ''trigger'', ''prerequisites'', ''steps'', ''rollback_steps'', ''estimated_duration'']
     | Adrs \<Rightarrow> [''title'', ''context'', ''decision'', ''consequences'', ''alternatives_considered''])"

definition REQUEST_STATUSES :: "string list" where
  "REQUEST_STATUSES = [''succeeded'', ''errored'', ''expired'', ''canceled'', ''missing'', ''invalid'']"

type_synonym entry_key = "entry_type \<times> uuid"

definition key_order :: "entry_key \<Rightarrow> string \<times> uuid" where
  "key_order k = (entry_type_text (fst k), snd k)"

section \<open>Tables\<close>

record lifecycle_run =
  kr_run_id :: string
  kr_mode :: run_mode
  kr_scope :: jobject
  kr_status :: run_status
  kr_manifest_digest :: string
  kr_batch_ids :: "string list"
  kr_usage :: jobject
  kr_real_cost :: "decimal option"
  kr_counts :: jobject
  kr_started_at :: instant
  kr_ended_at :: "instant option"
  kr_invalidated_at :: "instant option"
  kr_invalidation_reason :: "string option"

record request_row =
  kq_run_id :: string
  kq_custom_id :: string
  kq_manifest_entry :: jobject
  kq_status :: string
  kq_result_stored_at :: "instant option"

record extraction_row =
  kx_id :: int
  kx_run_id :: string
  kx_entry :: entry_key
  kx_entry_digest :: string
  kx_model :: string
  kx_prompt_version :: string
  kx_assertions :: "jsonb list"

record evaluation_row =
  ke_id :: int
  ke_run_id :: string
  ke_entry :: entry_key
  ke_entry_digest :: string
  ke_extraction_id :: "int option"
  ke_expected_cache_revision :: int
  ke_rules_version :: string
  ke_ranks_version :: string
  ke_registry_version :: string
  ke_origin_main_sha :: string
  ke_observed_day :: day
  ke_complete :: bool
  ke_state :: lifecycle_state
  ke_reason :: string
  ke_fingerprint :: string

record justification_row =
  kj_id :: int
  kj_evaluation_id :: int
  kj_entry :: entry_key
  kj_assertion_key :: "string option"
  kj_polarity :: polarity
  kj_source_kind :: string
  kj_source_rank :: int
  kj_source_ref :: string
  kj_observed_value :: jsonb
  kj_valid_from :: "day option"
  kj_valid_from_precision :: precision

datatype event_kind = TransitionEvent | CompensationEvent

record lifecycle_event =
  kv_id :: int
  kv_evaluation_id :: int
  kv_entry :: entry_key
  kv_kind :: event_kind
  kv_from_state :: "lifecycle_state option"
  kv_to_state :: lifecycle_state
  kv_reason :: string
  kv_valid_from :: "day option"
  kv_valid_from_precision :: precision
  kv_compensates_event_id :: "int option"
  kv_invalidated_run_id :: "string option"
  kv_recorded_at :: instant

record cache_row =
  kc_entry :: entry_key
  kc_state :: lifecycle_state
  kc_reason :: string
  kc_since :: instant
  kc_entry_content_updated_at :: instant
  kc_event_id :: int
  kc_revision :: int

text \<open>The columns of the five entry tables that the repository reads. A decision names its successor by
  identifier, an ADR by number within its project.\<close>

datatype successor = SuccessorId uuid | SuccessorNumber int

record entry_row =
  en_type :: entry_type
  en_id :: uuid
  en_number :: "int option"
  en_texts :: jobject
  en_project_key :: "string option"
  en_created_at :: instant
  en_content_updated_at :: "instant option"
  en_merged_into :: "uuid option"
  en_freshness_status :: "string option"
  en_freshness_status_updated_at :: "instant option"
  en_status :: "string option"
  en_superseded_by :: "successor option"

record graph_entity =
  gn_id :: uuid
  gn_entity_type :: string
  gn_source_uuid :: "uuid option"
  gn_lifecycle :: string
  gn_deleted_at :: "instant option"

record graph_relation =
  gr_source_entity_id :: uuid
  gr_target_entity_id :: uuid
  gr_relation_type :: string
  gr_lifecycle :: string
  gr_deleted_at :: "instant option"

record ledger =
  kl_runs :: "lifecycle_run list"
  kl_requests :: "request_row list"
  kl_extractions :: "extraction_row list"
  kl_evaluations :: "evaluation_row list"
  kl_justifications :: "justification_row list"
  kl_events :: "lifecycle_event list"
  kl_cache :: "cache_row list"
  kl_entries :: "entry_row list"
  kl_graph_entities :: "graph_entity list"
  kl_graph_relations :: "graph_relation list"

datatype ledger_error =
    RunNotFound | MissingKey | InvalidRunTransition | StaleRunState | ManifestDigestRefused | ReasonMissing
  | CustomIdRefused | FrozenRequestChanged | NotTerminalStatus | EntryMissing | EvaluationEntryMismatch | StaleAtApply
  | InvalidApply | AssertionFailed | ConstraintViolated | DataError

section \<open>Runs\<close>

definition get_run :: "lifecycle_run list \<Rightarrow> string \<Rightarrow> lifecycle_run option" where
  "get_run rows k = find_row (\<lambda>r. kr_run_id r = k) rows"

definition create_run :: "ledger \<Rightarrow> string \<Rightarrow> string \<Rightarrow> jobject \<Rightarrow> instant \<Rightarrow> (ledger_error, ledger \<times> lifecycle_run) result" where
  "create_run led run_id mode scope now = (case mode_of mode of
       None \<Rightarrow> Inl ConstraintViolated
     | Some m \<Rightarrow>
        (let row = \<lparr>kr_run_id = run_id, kr_mode = m, kr_scope = scope, kr_status = RunCreated, kr_manifest_digest = [],
           kr_batch_ids = [], kr_usage = [], kr_real_cost = None, kr_counts = [], kr_started_at = now, kr_ended_at = None,
           kr_invalidated_at = None, kr_invalidation_reason = None\<rparr> in
         if get_run (kl_runs led) run_id \<noteq> None then Inl ConstraintViolated
         else Inr (led\<lparr>kl_runs := kl_runs led @ [row]\<rparr>, row)))"

definition read_run :: "ledger \<Rightarrow> string \<Rightarrow> (ledger_error, lifecycle_run) result" where
  "read_run led run_id = (case get_run (kl_runs led) run_id of None \<Rightarrow> Inl RunNotFound | Some r \<Rightarrow> Inr r)"

definition text_given :: "string option \<Rightarrow> bool" where
  "text_given x = (case x of None \<Rightarrow> False | Some s \<Rightarrow> strip s \<noteq> [])"

definition moved_run :: "run_status \<Rightarrow> string option \<Rightarrow> string option \<Rightarrow> instant \<Rightarrow> lifecycle_run \<Rightarrow> lifecycle_run" where
  "moved_run target reason manifest_digest now r =
     r\<lparr>kr_status := target,
       kr_manifest_digest := (case manifest_digest of None \<Rightarrow> kr_manifest_digest r | Some d \<Rightarrow> d),
       kr_counts := (if target = RunFailed
         then merge_object (kr_counts r) [(''failure_reason'', BText (text_or_empty reason))] else kr_counts r),
       kr_ended_at := (if target \<in> {RunFailed, RunApplied} then Some now else kr_ended_at r)\<rparr>"

definition transition_run ::
    "ledger \<Rightarrow> string \<Rightarrow> string \<Rightarrow> string \<Rightarrow> string option \<Rightarrow> string option \<Rightarrow> instant \<Rightarrow> (ledger_error, ledger \<times> lifecycle_run) result" where
  "transition_run led run_id from_status to_status reason manifest_digest now =
     (case (run_status_of from_status, run_status_of to_status) of
        (Some source, Some target) \<Rightarrow>
          res_bind (ensure (transition_allowed from_status to_status False) InvalidRunTransition) (\<lambda>_.
          res_bind (ensure (if target = RunManifestFrozen then text_given manifest_digest else manifest_digest = None)
            ManifestDigestRefused) (\<lambda>_.
          res_bind (ensure (target = RunFailed \<longrightarrow> text_given reason) ReasonMissing) (\<lambda>_.
          let hit = (\<lambda>r. kr_run_id r = run_id \<and> kr_status r = source) in
          case find_row hit (kl_runs led) of
            None \<Rightarrow> Inl StaleRunState
          | Some r \<Rightarrow> Inr (led\<lparr>kl_runs := update_rows hit (moved_run target reason manifest_digest now) (kl_runs led)\<rparr>,
              moved_run target reason manifest_digest now r))))
      | _ \<Rightarrow> Inl InvalidRunTransition)"

record run_metadata =
  rm_batch_id :: "string option"
  rm_usage :: "jobject option"
  rm_real_cost :: "decimal option"
  rm_counts :: "jobject option"

definition recorded_run :: "run_metadata \<Rightarrow> lifecycle_run \<Rightarrow> lifecycle_run" where
  "recorded_run md r =
     r\<lparr>kr_batch_ids := (case rm_batch_id md of None \<Rightarrow> kr_batch_ids r
         | Some b \<Rightarrow> if b \<in> set (kr_batch_ids r) then kr_batch_ids r else kr_batch_ids r @ [b]),
       kr_usage := (case rm_usage md of None \<Rightarrow> kr_usage r | Some u \<Rightarrow> merge_object (kr_usage r) u),
       kr_counts := (case rm_counts md of None \<Rightarrow> kr_counts r | Some c \<Rightarrow> merge_object (kr_counts r) c),
       kr_real_cost := (case rm_real_cost md of None \<Rightarrow> kr_real_cost r | Some c \<Rightarrow> Some c)\<rparr>"

definition record_run :: "ledger \<Rightarrow> string \<Rightarrow> run_metadata \<Rightarrow> (ledger_error, ledger \<times> lifecycle_run) result" where
  "record_run led run_id md =
     (case get_run (kl_runs led) run_id of
        None \<Rightarrow> Inl (if rm_batch_id md = None \<and> rm_usage md = None \<and> rm_counts md = None \<and> rm_real_cost md = None
          then RunNotFound else MissingKey)
      | Some r \<Rightarrow> Inr (led\<lparr>kl_runs := update_rows (\<lambda>r. kr_run_id r = run_id) (recorded_run md) (kl_runs led)\<rparr>, recorded_run md r))"

definition nested_counter :: "jobject \<Rightarrow> string \<Rightarrow> string \<Rightarrow> jsonb option \<Rightarrow> jsonb option" where
  "nested_counter counts section key value =
     (let current = (case map_of counts section of None \<Rightarrow> BObj [] | Some j \<Rightarrow> j) in
      case value of None \<Rightarrow> jsonb_minus current key | Some v \<Rightarrow> Some (jsonb_concat current (BObj [(key, v)])))"

definition set_count_key :: "ledger \<Rightarrow> string \<Rightarrow> string \<Rightarrow> string \<Rightarrow> jsonb option \<Rightarrow> (ledger_error, ledger) result" where
  "set_count_key led run_id section key value =
     (case get_run (kl_runs led) run_id of
        None \<Rightarrow> Inl MissingKey
      | Some r \<Rightarrow> (case nested_counter (kr_counts r) section key value of
            None \<Rightarrow> Inl DataError
          | Some nested \<Rightarrow> Inr (led\<lparr>kl_runs := update_rows (\<lambda>r. kr_run_id r = run_id)
              (\<lambda>r. r\<lparr>kr_counts := AList.update section nested (kr_counts r)\<rparr>) (kl_runs led)\<rparr>)))"

definition invalidated_run :: "instant \<Rightarrow> string \<Rightarrow> lifecycle_run \<Rightarrow> lifecycle_run" where
  "invalidated_run now reason r =
     r\<lparr>kr_status := RunInvalidated, kr_invalidated_at := Some now, kr_invalidation_reason := Some reason\<rparr>"

definition invalidate_run :: "ledger \<Rightarrow> string \<Rightarrow> string \<Rightarrow> instant \<Rightarrow> (ledger_error, ledger \<times> bool) result" where
  "invalidate_run led run_id reason now =
     res_bind (ensure (strip reason \<noteq> []) ReasonMissing) (\<lambda>_.
     case get_run (kl_runs led) run_id of
       None \<Rightarrow> Inl MissingKey
     | Some r \<Rightarrow>
         if kr_status r = RunInvalidated then Inr (led, False)
         else if \<not> status_edge (kr_status r) RunInvalidated True then Inl InvalidRunTransition
         else Inr (led\<lparr>kl_runs := update_rows (\<lambda>x. kr_run_id x = run_id \<and> kr_status x = kr_status r)
           (invalidated_run now reason) (kl_runs led)\<rparr>, True))"

section \<open>Requests\<close>

definition get_request :: "request_row list \<Rightarrow> string \<times> string \<Rightarrow> request_row option" where
  "get_request rows k = find_row (\<lambda>q. (kq_run_id q, kq_custom_id q) = k) rows"

definition custom_id_ok :: "string \<Rightarrow> string \<Rightarrow> bool" where
  "custom_id_ok run_id custom_id =
     (let prefix = run_id @ ''-''; suffix = (if startswith custom_id prefix then drop (length prefix) custom_id else custom_id) in
      startswith custom_id prefix \<and> suffix \<noteq> [] \<and> list_all is_digit suffix)"

definition insert_request :: "lifecycle_run \<Rightarrow> string \<times> jobject \<Rightarrow> request_row list \<Rightarrow> (ledger_error, request_row list) result" where
  "insert_request run = (\<lambda>(custom_id, manifest_entry) rows.
     res_bind (ensure (custom_id_ok (kr_run_id run) custom_id) CustomIdRefused) (\<lambda>_.
     case get_request rows (kr_run_id run, custom_id) of
       Some q \<Rightarrow> if python_equal (BObj (kq_manifest_entry q)) (BObj manifest_entry) then Inr rows else Inl FrozenRequestChanged
     | None \<Rightarrow>
         if kr_status run \<noteq> RunCreated then Inl InvalidRunTransition
         else Inr (rows @ [\<lparr>kq_run_id = kr_run_id run, kq_custom_id = custom_id, kq_manifest_entry = manifest_entry,
           kq_status = ''pending'', kq_result_stored_at = None\<rparr>])))"

definition insert_requests :: "ledger \<Rightarrow> string \<Rightarrow> (string \<times> jobject) list \<Rightarrow> (ledger_error, ledger) result" where
  "insert_requests led run_id requests =
     (case get_run (kl_runs led) run_id of
        None \<Rightarrow> Inl MissingKey
      | Some run \<Rightarrow> res_bind (res_fold (insert_request run) requests (kl_requests led)) (\<lambda>rows. Inr (led\<lparr>kl_requests := rows\<rparr>)))"

definition checkpoint_request ::
    "ledger \<Rightarrow> string \<Rightarrow> string \<Rightarrow> string \<Rightarrow> instant \<Rightarrow> (ledger_error, ledger \<times> bool) result" where
  "checkpoint_request led run_id custom_id status now =
     res_bind (ensure (status \<in> set REQUEST_STATUSES) NotTerminalStatus) (\<lambda>_.
     let hit = (\<lambda>q. (kq_run_id q, kq_custom_id q) = (run_id, custom_id) \<and> kq_result_stored_at q = None) in
     if find_row hit (kl_requests led) \<noteq> None
     then Inr (led\<lparr>kl_requests := update_rows hit (\<lambda>q. q\<lparr>kq_status := status, kq_result_stored_at := Some now\<rparr>) (kl_requests led)\<rparr>, True)
     else if get_request (kl_requests led) (run_id, custom_id) = None then Inl MissingKey
     else Inr (led, False))"

definition pending_requests :: "ledger \<Rightarrow> string \<Rightarrow> request_row list" where
  "pending_requests led run_id =
     sort_key kq_custom_id (filter (\<lambda>q. kq_run_id q = run_id \<and> kq_result_stored_at q = None) (kl_requests led))"

section \<open>Extractions and evaluations\<close>

definition extraction_key :: "extraction_row \<Rightarrow> entry_key \<times> string \<times> string \<times> string" where
  "extraction_key x = (kx_entry x, kx_entry_digest x, kx_model x, kx_prompt_version x)"

definition read_extraction :: "ledger \<Rightarrow> entry_key \<Rightarrow> string \<Rightarrow> string \<Rightarrow> string \<Rightarrow> extraction_row option" where
  "read_extraction led k entry_digest model prompt_version =
     find_row (\<lambda>x. extraction_key x = (k, entry_digest, model, prompt_version)) (kl_extractions led)"

definition insert_extraction :: "ledger \<Rightarrow> extraction_row \<Rightarrow> (ledger_error, ledger \<times> int) result" where
  "insert_extraction led x =
     (case read_extraction led (kx_entry x) (kx_entry_digest x) (kx_model x) (kx_prompt_version x) of
        Some old \<Rightarrow> Inr (led, kx_id old)
      | None \<Rightarrow>
          if get_run (kl_runs led) (kx_run_id x) = None then Inl ConstraintViolated
          else Inr (led\<lparr>kl_extractions := kl_extractions led @ [x]\<rparr>, kx_id x))"

definition evaluation_key :: "evaluation_row \<Rightarrow> string \<times> entry_key" where
  "evaluation_key e = (ke_run_id e, ke_entry e)"

text \<open>The composite foreign key to the extraction holds when the extraction is absent.\<close>

definition extraction_of_evaluation :: "ledger \<Rightarrow> evaluation_row \<Rightarrow> bool" where
  "extraction_of_evaluation led e = (case ke_extraction_id e of
       None \<Rightarrow> True
     | Some i \<Rightarrow> list_ex (\<lambda>x. kx_id x = i \<and> kx_entry x = ke_entry e \<and> kx_entry_digest x = ke_entry_digest e) (kl_extractions led))"

definition justification_key :: "justification_row \<Rightarrow> int \<times> string option \<times> string \<times> string" where
  "justification_key j = (kj_evaluation_id j, kj_assertion_key j, kj_source_kind j, kj_source_ref j)"

definition insert_justification ::
    "evaluation_row \<Rightarrow> justification_row \<Rightarrow> justification_row list \<Rightarrow> (ledger_error, justification_row list) result" where
  "insert_justification e j rows =
     (let row = j\<lparr>kj_evaluation_id := ke_id e, kj_entry := ke_entry e\<rparr> in
      if map_of RANKS (kj_source_kind row) = Some (kj_source_rank row) \<and> justification_key row \<notin> justification_key ` set rows
      then Inr (rows @ [row]) else Inl ConstraintViolated)"

text \<open>The check constraint is read before the conflict, the foreign keys after it.\<close>

definition insert_evaluation ::
    "ledger \<Rightarrow> evaluation_row \<Rightarrow> justification_row list \<Rightarrow> (ledger_error, ledger \<times> evaluation_row) result" where
  "insert_evaluation led e justifications =
     res_bind (ensure (0 \<le> ke_expected_cache_revision e) ConstraintViolated) (\<lambda>_.
     case find_row (\<lambda>x. evaluation_key x = evaluation_key e) (kl_evaluations led) of
       Some old \<Rightarrow> Inr (led, old)
     | None \<Rightarrow>
         res_bind (ensure (get_run (kl_runs led) (ke_run_id e) \<noteq> None \<and> extraction_of_evaluation led e) ConstraintViolated) (\<lambda>_.
         res_bind (res_fold (insert_justification e) justifications (kl_justifications led)) (\<lambda>rows.
         Inr (led\<lparr>kl_evaluations := kl_evaluations led @ [e], kl_justifications := rows\<rparr>, e))))"

definition get_evaluation :: "evaluation_row list \<Rightarrow> int \<Rightarrow> evaluation_row option" where
  "get_evaluation rows k = find_row (\<lambda>e. ke_id e = k) rows"

definition read_evaluation :: "ledger \<Rightarrow> int \<Rightarrow> (ledger_error, evaluation_row) result" where
  "read_evaluation led i = (case get_evaluation (kl_evaluations led) i of None \<Rightarrow> Inl MissingKey | Some e \<Rightarrow> Inr e)"

record entry_evaluation =
  ee_evaluation :: evaluation_row
  ee_mode :: run_mode
  ee_run_status :: run_status
  ee_invalidated :: bool

definition evaluations_for_entry :: "ledger \<Rightarrow> entry_key \<Rightarrow> entry_evaluation list" where
  "evaluations_for_entry led k =
     List.map_filter (\<lambda>e. map_option (\<lambda>r. \<lparr>ee_evaluation = e, ee_mode = kr_mode r, ee_run_status = kr_status r,
         ee_invalidated = (kr_invalidated_at r \<noteq> None \<or> kr_status r = RunInvalidated)\<rparr>) (get_run (kl_runs led) (ke_run_id e)))
       (sort_key ke_id (filter (\<lambda>e. ke_entry e = k) (kl_evaluations led)))"

definition read_justifications :: "ledger \<Rightarrow> int \<Rightarrow> justification_row list" where
  "read_justifications led i = sort_key kj_id (filter (\<lambda>j. kj_evaluation_id j = i) (kl_justifications led))"

definition entries_for_run :: "ledger \<Rightarrow> string \<Rightarrow> entry_key list" where
  "entries_for_run led run_id = sort_key key_order (map ke_entry (filter (\<lambda>e. ke_run_id e = run_id) (kl_evaluations led)))"

section \<open>Entries\<close>

definition get_cache :: "cache_row list \<Rightarrow> entry_key \<Rightarrow> cache_row option" where
  "get_cache rows k = find_row (\<lambda>c. kc_entry c = k) rows"

definition read_cache :: "ledger \<Rightarrow> entry_key \<Rightarrow> cache_row option" where
  "read_cache led k = get_cache (kl_cache led) k"

definition get_entry :: "entry_row list \<Rightarrow> entry_key \<Rightarrow> entry_row option" where
  "get_entry rows k = find_row (\<lambda>e. (en_type e, en_id e) = k) rows"

text \<open>The row a caller compares: the selected columns with the successor resolved and the content time
  replaced by the creation time where it is unknown.\<close>

record entry_inputs =
  ei_entry :: entry_key
  ei_text_fields :: "(string \<times> jsonb option) list"
  ei_entry_project_key :: "string option"
  ei_created_at :: instant
  ei_content_updated_at :: instant
  ei_merged_into :: "uuid option"
  ei_freshness_status :: "string option"
  ei_freshness_status_updated_at :: "instant option"
  ei_status :: "string option"
  ei_superseded_by :: "successor option"
  ei_successor_exists :: bool
  ei_successor_created_at :: "instant option"

definition successor_row :: "ledger \<Rightarrow> entry_row \<Rightarrow> entry_row option" where
  "successor_row led e = (case (en_type e, en_superseded_by e) of
       (Decisions, Some (SuccessorId i)) \<Rightarrow> find_row (\<lambda>x. en_type x = Decisions \<and> en_id x = i) (kl_entries led)
     | (Adrs, Some (SuccessorNumber n)) \<Rightarrow>
         find_row (\<lambda>x. en_type x = Adrs \<and> en_number x = Some n \<and> en_project_key x = en_project_key e \<and> en_project_key e \<noteq> None)
           (kl_entries led)
     | _ \<Rightarrow> None)"

definition entry_inputs_of :: "ledger \<Rightarrow> entry_row \<Rightarrow> entry_inputs" where
  "entry_inputs_of led e =
     \<lparr>ei_entry = (en_type e, en_id e), ei_text_fields = map (\<lambda>f. (f, map_of (en_texts e) f)) (TEXT_FIELDS (en_type e)),
      ei_entry_project_key = en_project_key e, ei_created_at = en_created_at e,
      ei_content_updated_at = (case en_content_updated_at e of None \<Rightarrow> en_created_at e | Some t \<Rightarrow> t),
      ei_merged_into = en_merged_into e, ei_freshness_status = en_freshness_status e,
      ei_freshness_status_updated_at = en_freshness_status_updated_at e,
      ei_status = (if en_type e \<in> {Decisions, Adrs} then en_status e else None),
      ei_superseded_by = (if en_type e \<in> {Decisions, Adrs} then en_superseded_by e else None),
      ei_successor_exists = (successor_row led e \<noteq> None), ei_successor_created_at = map_option en_created_at (successor_row led e)\<rparr>"

record locked_inputs =
  li_entry :: entry_key
  li_inputs :: entry_inputs
  li_cache :: "cache_row option"

definition li_revision :: "locked_inputs \<Rightarrow> int" where
  "li_revision li = (case li_cache li of None \<Rightarrow> 0 | Some c \<Rightarrow> kc_revision c)"

definition lock_apply_inputs :: "ledger \<Rightarrow> entry_key \<Rightarrow> (ledger_error, locked_inputs) result" where
  "lock_apply_inputs led k = (case get_entry (kl_entries led) k of
       None \<Rightarrow> Inl EntryMissing
     | Some e \<Rightarrow> Inr \<lparr>li_entry = k, li_inputs = entry_inputs_of led e, li_cache = read_cache led k\<rparr>)"

definition list_entries :: "ledger \<Rightarrow> string option \<Rightarrow> entry_inputs list" where
  "list_entries led project_key =
     concat (map (\<lambda>k. map (entry_inputs_of led) (sort_key en_id
       (filter (\<lambda>e. en_type e = k \<and> (project_key = None \<or> en_project_key e = project_key)) (kl_entries led)))) ENTRY_TYPES)"

text \<open>One hop from a relying entry to the entry it relies on, in the graph tables.\<close>

definition graph_edge :: "ledger \<Rightarrow> entry_key \<Rightarrow> graph_relation \<Rightarrow> graph_entity \<Rightarrow> bool" where
  "graph_edge led k r source =
     (gn_id source = gr_source_entity_id r \<and>
      gn_entity_type source \<in> snd ` set GRAPH_TYPES \<and> gn_source_uuid source \<noteq> None \<and>
      gr_relation_type r \<in> {''MOTIVATED_BY'', ''IMPLEMENTS'', ''DEPENDS_ON''} \<and> gr_lifecycle r = ''active'' \<and> gr_deleted_at r = None \<and>
      gn_lifecycle source \<noteq> ''deleted'' \<and> gn_deleted_at source = None \<and>
      list_ex (\<lambda>target. gn_id target = gr_target_entity_id r \<and> map_of GRAPH_TYPES (fst k) = Some (gn_entity_type target) \<and>
        gn_source_uuid target = Some (snd k) \<and> gn_lifecycle target \<noteq> ''deleted'' \<and> gn_deleted_at target = None) (kl_graph_entities led))"

definition graph_type_of :: "string \<Rightarrow> entry_type option" where
  "graph_type_of t = map_of (map (\<lambda>(k, v). (v, k)) GRAPH_TYPES) t"

definition dependent_key :: "graph_entity \<Rightarrow> entry_key option" where
  "dependent_key g = (case (graph_type_of (gn_entity_type g), gn_source_uuid g) of (Some k, Some i) \<Rightarrow> Some (k, i) | _ \<Rightarrow> None)"

definition direct_dependents :: "ledger \<Rightarrow> entry_key \<Rightarrow> entry_key list" where
  "direct_dependents led k =
     sort_key (\<lambda>d. (case map_of GRAPH_TYPES (fst d) of None \<Rightarrow> [] | Some t \<Rightarrow> t, snd d))
       (remdups (List.map_filter dependent_key
         (filter (\<lambda>g. list_ex (\<lambda>r. graph_edge led k r g) (kl_graph_relations led)) (kl_graph_entities led))))"

section \<open>Events\<close>

definition events_for_entry :: "ledger \<Rightarrow> entry_key \<Rightarrow> lifecycle_event list" where
  "events_for_entry led k = sort_key kv_id (filter (\<lambda>v. kv_entry v = k) (kl_events led))"

definition compensations_for_run :: "ledger \<Rightarrow> string \<Rightarrow> lifecycle_event list" where
  "compensations_for_run led run_id = sort_key kv_id (filter (\<lambda>v. kv_invalidated_run_id v = Some run_id) (kl_events led))"

text \<open>A request for an event: what \<open>append_transition\<close> and \<open>append_compensation\<close> pass on.\<close>

datatype event_cause = ByTransition | ByCompensation string int

record event_request =
  rq_to_state :: lifecycle_state
  rq_reason :: string
  rq_valid_from :: "day option"
  rq_valid_from_precision :: precision

definition cause_kind :: "event_cause \<Rightarrow> event_kind" where
  "cause_kind c = (case c of ByTransition \<Rightarrow> TransitionEvent | ByCompensation _ _ \<Rightarrow> CompensationEvent)"

definition replayed_event :: "ledger \<Rightarrow> evaluation_row \<Rightarrow> entry_key \<Rightarrow> event_cause \<Rightarrow> lifecycle_event option" where
  "replayed_event led e k cause = (case cause of
       ByTransition \<Rightarrow> find_row (\<lambda>v. kv_evaluation_id v = ke_id e \<and> kv_kind v = TransitionEvent) (kl_events led)
     | ByCompensation run_id _ \<Rightarrow> find_row (\<lambda>v. kv_invalidated_run_id v = Some run_id \<and> kv_entry v = k) (kl_events led))"

definition run_admits :: "lifecycle_run option \<Rightarrow> evaluation_row \<Rightarrow> event_cause \<Rightarrow> bool" where
  "run_admits run e cause = (case run of
       None \<Rightarrow> False
     | Some r \<Rightarrow> kr_mode r = ApplyRun \<and> ke_complete e \<and>
         (cause = ByTransition \<longrightarrow> kr_status r = RunApplying \<and> kr_invalidated_at r = None))"

definition new_event ::
    "locked_inputs \<Rightarrow> evaluation_row \<Rightarrow> event_cause \<Rightarrow> event_request \<Rightarrow> int \<Rightarrow> instant \<Rightarrow> lifecycle_event" where
  "new_event current e cause rq new_id now =
     \<lparr>kv_id = new_id, kv_evaluation_id = ke_id e, kv_entry = li_entry current, kv_kind = cause_kind cause,
      kv_from_state = map_option kc_state (li_cache current), kv_to_state = rq_to_state rq, kv_reason = rq_reason rq,
      kv_valid_from = rq_valid_from rq, kv_valid_from_precision = rq_valid_from_precision rq,
      kv_compensates_event_id = (case cause of ByTransition \<Rightarrow> None | ByCompensation _ i \<Rightarrow> Some i),
      kv_invalidated_run_id = (case cause of ByTransition \<Rightarrow> None | ByCompensation r _ \<Rightarrow> Some r), kv_recorded_at = now\<rparr>"

text \<open>\<open>INSERT \<dots> ON CONFLICT DO NOTHING\<close>: the check of the obsolete date, then the unique keys, then the
  foreign key of the compensated event.\<close>

definition event_conflicts :: "lifecycle_event \<Rightarrow> lifecycle_event \<Rightarrow> bool" where
  "event_conflicts v x =
     (kv_id x = kv_id v \<or>
      (kv_kind v = TransitionEvent \<and> kv_kind x = TransitionEvent \<and> kv_evaluation_id x = kv_evaluation_id v) \<or>
      (kv_invalidated_run_id v \<noteq> None \<and> kv_invalidated_run_id x = kv_invalidated_run_id v \<and> kv_entry x = kv_entry v))"

definition insert_event :: "ledger \<Rightarrow> lifecycle_event \<Rightarrow> (ledger_error, ledger option) result" where
  "insert_event led v =
     (if kv_to_state v = LObsolete \<and> kv_valid_from v = None then Inl ConstraintViolated
      else if list_ex (event_conflicts v) (kl_events led) then Inr None
      else (case kv_compensates_event_id v of
          None \<Rightarrow> Inr (Some (led\<lparr>kl_events := kl_events led @ [v]\<rparr>))
        | Some i \<Rightarrow> if list_ex (\<lambda>x. kv_id x = i \<and> kv_entry x = kv_entry v) (kl_events led)
            then Inr (Some (led\<lparr>kl_events := kl_events led @ [v]\<rparr>)) else Inl ConstraintViolated))"

definition cache_of_event :: "lifecycle_event \<Rightarrow> instant \<Rightarrow> int \<Rightarrow> cache_row" where
  "cache_of_event v content_at revision =
     \<lparr>kc_entry = kv_entry v, kc_state = kv_to_state v, kc_reason = kv_reason v, kc_since = kv_recorded_at v,
      kc_entry_content_updated_at = content_at, kc_event_id = kv_id v, kc_revision = revision\<rparr>"

definition write_cache :: "ledger \<Rightarrow> cache_row option \<Rightarrow> int \<Rightarrow> cache_row \<Rightarrow> ledger option" where
  "write_cache led current expected row =
     (case current of
        None \<Rightarrow> if get_cache (kl_cache led) (kc_entry row) = None then Some (led\<lparr>kl_cache := kl_cache led @ [row]\<rparr>) else None
      | Some _ \<Rightarrow>
          (let hit = (\<lambda>c. kc_entry c = kc_entry row \<and> kc_revision c = expected) in
           if find_row hit (kl_cache led) = None then None else Some (led\<lparr>kl_cache := update_rows hit (\<lambda>_. row) (kl_cache led)\<rparr>)))"

definition count_event :: "ledger \<Rightarrow> string \<Rightarrow> string \<Rightarrow> (ledger_error, ledger) result" where
  "count_event led run_id counter =
     (case get_run (kl_runs led) run_id of
        None \<Rightarrow> Inr led
      | Some r \<Rightarrow> (case counter_value (kr_counts r) counter of
            None \<Rightarrow> Inl DataError
          | Some n \<Rightarrow> if in_bigint (n + 1)
              then Inr (led\<lparr>kl_runs := update_rows (\<lambda>r. kr_run_id r = run_id)
                (\<lambda>r. r\<lparr>kr_counts := merge_object (kr_counts r) [(counter, BNum (n + 1) 0)]\<rparr>) (kl_runs led)\<rparr>)
              else Inl DataError))"

definition event_counter :: "event_cause \<Rightarrow> string" where
  "event_counter cause = (case cause of ByTransition \<Rightarrow> ''applied_events'' | ByCompensation _ _ \<Rightarrow> ''compensation_events'')"

definition counted_run :: "evaluation_row \<Rightarrow> event_cause \<Rightarrow> string" where
  "counted_run e cause = (case cause of ByTransition \<Rightarrow> ke_run_id e | ByCompensation r _ \<Rightarrow> r)"

definition compensated_run_ok :: "ledger \<Rightarrow> event_cause \<Rightarrow> (ledger_error, unit) result" where
  "compensated_run_ok led cause = (case cause of
       ByTransition \<Rightarrow> Inr ()
     | ByCompensation r _ \<Rightarrow> res_bind (read_run led r) (\<lambda>run. ensure (kr_status run = RunInvalidated) InvalidRunTransition))"

definition write_event ::
    "ledger \<Rightarrow> evaluation_row \<Rightarrow> event_cause \<Rightarrow> locked_inputs \<Rightarrow> lifecycle_event \<Rightarrow> (ledger_error, ledger \<times> lifecycle_event) result" where
  "write_event led e cause current v =
     res_bind (insert_event led v) (\<lambda>inserted.
     case inserted of
       None \<Rightarrow> (case replayed_event led e (li_entry current) cause of None \<Rightarrow> Inl AssertionFailed | Some x \<Rightarrow> Inr (led, x))
     | Some led1 \<Rightarrow>
         (case write_cache led1 (li_cache current) (li_revision current)
            (cache_of_event v (ei_content_updated_at (li_inputs current)) (li_revision current + 1)) of
            None \<Rightarrow> Inl StaleAtApply
          | Some led2 \<Rightarrow> res_bind (count_event led2 (counted_run e cause) (event_counter cause)) (\<lambda>led3. Inr (led3, v))))"

definition append_event ::
    "ledger \<Rightarrow> evaluation_row \<Rightarrow> locked_inputs \<Rightarrow> int \<Rightarrow> event_cause \<Rightarrow> event_request \<Rightarrow> int \<Rightarrow> instant
     \<Rightarrow> (ledger_error, ledger \<times> lifecycle_event) result" where
  "append_event led e inputs expected cause rq new_id now =
     res_bind (ensure (ke_entry e = li_entry inputs) EvaluationEntryMismatch) (\<lambda>_.
     case replayed_event led e (li_entry inputs) cause of
       Some v \<Rightarrow> Inr (led, v)
     | None \<Rightarrow>
         res_bind (ensure (run_admits (get_run (kl_runs led) (ke_run_id e)) e cause) InvalidApply) (\<lambda>_.
         res_bind (lock_apply_inputs led (li_entry inputs)) (\<lambda>current.
         res_bind (ensure (li_revision current = expected \<and> li_inputs current = li_inputs inputs) StaleAtApply) (\<lambda>_.
         res_bind (compensated_run_ok led cause) (\<lambda>_.
         write_event led e cause current (new_event current e cause rq new_id now))))))"

definition append_transition ::
    "ledger \<Rightarrow> int \<Rightarrow> locked_inputs \<Rightarrow> event_request \<Rightarrow> int \<Rightarrow> instant \<Rightarrow> (ledger_error, ledger \<times> lifecycle_event) result" where
  "append_transition led evaluation_id inputs rq new_id now =
     res_bind (read_evaluation led evaluation_id) (\<lambda>e.
     append_event led e inputs (ke_expected_cache_revision e) ByTransition rq new_id now)"

definition append_compensation ::
    "ledger \<Rightarrow> int \<Rightarrow> locked_inputs \<Rightarrow> string \<Rightarrow> int \<Rightarrow> int \<Rightarrow> event_request \<Rightarrow> int \<Rightarrow> instant
     \<Rightarrow> (ledger_error, ledger \<times> lifecycle_event) result" where
  "append_compensation led evaluation_id inputs invalidated_run_id compensates_event_id expected_cache_revision rq new_id now =
     res_bind (read_evaluation led evaluation_id) (\<lambda>e.
     append_event led e inputs expected_cache_revision (ByCompensation invalidated_run_id compensates_event_id) rq new_id now)"

section \<open>Replay of the cache\<close>

text \<open>What a replay recomputes of a cache row; the content time of the entry is not in the events.\<close>

record projection =
  pj_state :: lifecycle_state
  pj_reason :: string
  pj_since :: instant
  pj_event_id :: int
  pj_revision :: int

definition replay_event :: "lifecycle_event \<Rightarrow> (entry_key \<times> projection) list \<Rightarrow> (entry_key \<times> projection) list" where
  "replay_event v result =
     AList.update (kv_entry v)
       \<lparr>pj_state = kv_to_state v, pj_reason = kv_reason v, pj_since = kv_recorded_at v, pj_event_id = kv_id v,
        pj_revision = (case map_of result (kv_entry v) of None \<Rightarrow> 0 | Some p \<Rightarrow> pj_revision p) + 1\<rparr> result"

definition replay_cache :: "ledger \<Rightarrow> (entry_key \<times> projection) list" where
  "replay_cache led = fold replay_event (sort_key kv_id (kl_events led)) []"

text \<open>The latest event of each entry with the number of its events, joined in full with the cache.\<close>

definition latest_event :: "ledger \<Rightarrow> entry_key \<Rightarrow> projection option" where
  "latest_event led k =
     (let vs = filter (\<lambda>v. kv_entry v = k) (kl_events led) in
      case rev (sort_key kv_id vs) of
        [] \<Rightarrow> None
      | v # _ \<Rightarrow> Some \<lparr>pj_state = kv_to_state v, pj_reason = kv_reason v, pj_since = kv_recorded_at v, pj_event_id = kv_id v,
          pj_revision = int (length vs)\<rparr>)"

definition cache_projection :: "cache_row \<Rightarrow> projection" where
  "cache_projection c = \<lparr>pj_state = kc_state c, pj_reason = kc_reason c, pj_since = kc_since c, pj_event_id = kc_event_id c,
     pj_revision = kc_revision c\<rparr>"

definition mismatch :: "projection option \<Rightarrow> projection option \<Rightarrow> bool" where
  "mismatch latest cached = (case (latest, cached) of
       (Some l, Some c) \<Rightarrow> pj_state l \<noteq> pj_state c \<or> pj_reason l \<noteq> pj_reason c \<or> pj_since l \<noteq> pj_since c \<or>
         pj_event_id l \<noteq> pj_event_id c \<or> pj_revision l \<noteq> pj_revision c
     | _ \<Rightarrow> True)"

definition cache_mismatches :: "ledger \<Rightarrow> entry_key list" where
  "cache_mismatches led =
     (let latest = remdups (map kv_entry (kl_events led)); cached = map kc_entry (kl_cache led) in
      sort_key key_order
        (filter (\<lambda>k. mismatch (latest_event led k) (map_option cache_projection (read_cache led k)))
          (latest @ filter (\<lambda>k. k \<notin> set latest) cached)))"

end
