(* ===== verification/Knowledge_History.thy ===== *)
theory Knowledge_History
  imports Knowledge_Ledger
begin

text \<open>
  The lifecycle ledger as a transition system. Every write of the repository is a step; entries and the
  graph change at will between them. The invariant says that the cache is the replay of the events, that
  every event is backed by a complete evaluation, and that runs follow their protocol.
\<close>

section \<open>Tables\<close>

interpretation lifecycle_runs: keyed_table kr_run_id get_run
  by unfold_locales (simp add: get_run_def)

interpretation lifecycle_evaluations: keyed_table ke_id get_evaluation
  by unfold_locales (simp add: get_evaluation_def)

interpretation lifecycle_caches: keyed_table kc_entry get_cache
  by unfold_locales (simp add: get_cache_def)

interpretation lifecycle_requests: keyed_table "\<lambda>q. (kq_run_id q, kq_custom_id q)" get_request
  by unfold_locales (simp add: get_request_def)

interpretation lifecycle_entries: keyed_table "\<lambda>e. (en_type e, en_id e)" get_entry
  by unfold_locales (simp add: get_entry_def)

section \<open>The replay\<close>

text \<open>The projection of the events of one entry, in the order of their identifiers.\<close>

definition project_events :: "lifecycle_event list \<Rightarrow> projection option" where
  "project_events vs = (if vs = [] then None else Some
     \<lparr>pj_state = kv_to_state (last vs), pj_reason = kv_reason (last vs), pj_since = kv_recorded_at (last vs),
      pj_event_id = kv_id (last vs), pj_revision = int (length vs)\<rparr>)"

lemma map_of_replay_event:
  "map_of (replay_event v d) k =
     (if k = kv_entry v
      then Some \<lparr>pj_state = kv_to_state v, pj_reason = kv_reason v, pj_since = kv_recorded_at v, pj_event_id = kv_id v,
        pj_revision = (case map_of d k of None \<Rightarrow> 0 | Some p \<Rightarrow> pj_revision p) + 1\<rparr>
      else map_of d k)"
  by (simp add: replay_event_def update_conv')

lemma map_of_replay:
  "map_of (fold replay_event vs []) k = project_events (filter (\<lambda>v. kv_entry v = k) vs)"
proof (induction vs rule: rev_induct)
  case Nil
  show ?case by (simp add: project_events_def)
next
  case (snoc v vs)
  then show ?case by (auto simp: map_of_replay_event project_events_def)
qed

lemma distinct_replay: "distinct (map fst (fold replay_event vs []))"
proof (induction vs rule: rev_induct)
  case (snoc v vs)
  then show ?case by (simp add: replay_event_def distinct_update)
qed simp

lemma filter_sort_events: "filter (\<lambda>v. kv_entry v = k) (sort_key kv_id vs) = sort_key kv_id (filter (\<lambda>v. kv_entry v = k) vs)"
  by (rule filter_sort)

lemma map_of_replay_cache: "map_of (replay_cache led) k = project_events (events_for_entry led k)"
  by (simp add: replay_cache_def map_of_replay events_for_entry_def filter_sort)

lemma latest_event_projection: "latest_event led k = project_events (events_for_entry led k)"
proof (cases "sort_key kv_id (filter (\<lambda>v. kv_entry v = k) (kl_events led))" rule: rev_cases)
  case Nil
  then show ?thesis by (simp add: latest_event_def events_for_entry_def project_events_def)
next
  case (snoc vs v)
  then have "length (filter (\<lambda>v. kv_entry v = k) (kl_events led)) = Suc (length vs)"
    by (metis length_append_singleton length_sort)
  with snoc show ?thesis by (simp add: latest_event_def events_for_entry_def project_events_def Let_def)
qed

lemma mismatch_iff: "mismatch l c \<longleftrightarrow> l \<noteq> c \<or> (l = None \<and> c = None)"
  by (auto simp: mismatch_def split: option.splits)

lemma inj_key_order: "inj key_order"
proof (rule injI)
  fix a b assume "key_order a = key_order b"
  then show "a = b"
    by (cases a; cases b) (auto simp: key_order_def entry_type_text_def split: entry_type.splits)
qed

lemma project_events_None: "project_events (events_for_entry led k) = None \<longleftrightarrow> k \<notin> kv_entry ` set (kl_events led)"
proof -
  have "events_for_entry led k = [] \<longleftrightarrow> k \<notin> kv_entry ` set (kl_events led)"
  proof -
    have "events_for_entry led k = [] \<longleftrightarrow> filter (\<lambda>v. kv_entry v = k) (kl_events led) = []"
      by (metis events_for_entry_def length_0_conv length_sort)
    then show ?thesis by (auto simp: filter_empty_conv)
  qed
  then show ?thesis by (simp add: project_events_def)
qed

lemma read_cache_None: "map_option cache_projection (read_cache led k) = None \<longleftrightarrow> k \<notin> kc_entry ` set (kl_cache led)"
  by (simp add: read_cache_def lifecycle_caches.get_row_None)

lemma set_cache_mismatches:
  "set (cache_mismatches led) = {k. map_of (replay_cache led) k \<noteq> map_option cache_projection (read_cache led k)}"
proof -
  have "set (cache_mismatches led) =
    {k. (k \<in> kv_entry ` set (kl_events led) \<or> k \<in> kc_entry ` set (kl_cache led)) \<and>
        mismatch (latest_event led k) (map_option cache_projection (read_cache led k))}"
    by (auto simp: cache_mismatches_def Let_def)
  also have "\<dots> = {k. map_of (replay_cache led) k \<noteq> map_option cache_projection (read_cache led k)}"
  proof (rule Collect_cong)
    fix k
    show "((k \<in> kv_entry ` set (kl_events led) \<or> k \<in> kc_entry ` set (kl_cache led)) \<and>
        mismatch (latest_event led k) (map_option cache_projection (read_cache led k))) =
      (map_of (replay_cache led) k \<noteq> map_option cache_projection (read_cache led k))"
      unfolding mismatch_iff latest_event_projection map_of_replay_cache
      using project_events_None [of led k] read_cache_None [of led k] by argo
  qed
  finally show ?thesis .
qed

lemma distinct_cache_mismatches:
  "distinct (map kc_entry (kl_cache led)) \<Longrightarrow> distinct (cache_mismatches led)"
  by (auto simp: cache_mismatches_def Let_def)

section \<open>What a call writes\<close>

text \<open>One step of a run: its identity, mode and scope stay, its status stays or follows an edge, and its
  manifest digest is written only by the edge that freezes the manifest.\<close>

definition run_step :: "lifecycle_run \<Rightarrow> lifecycle_run \<Rightarrow> bool" where
  "run_step r r' =
     (kr_run_id r' = kr_run_id r \<and> kr_mode r' = kr_mode r \<and> kr_scope r' = kr_scope r \<and> kr_started_at r' = kr_started_at r \<and>
      (kr_status r \<noteq> RunCreated \<longrightarrow> kr_manifest_digest r' = kr_manifest_digest r) \<and>
      (kr_status r' \<noteq> kr_status r \<longrightarrow> status_edge (kr_status r) (kr_status r') (kr_status r' = RunInvalidated)))"

definition run_ok :: "lifecycle_run \<Rightarrow> bool" where
  "run_ok r =
     ((kr_invalidated_at r \<noteq> None) = (kr_status r = RunInvalidated) \<and>
      (kr_invalidation_reason r \<noteq> None) = (kr_status r = RunInvalidated) \<and>
      (kr_ended_at r \<noteq> None) = (kr_status r \<in> {RunApplied, RunFailed, RunInvalidated}) \<and>
      (kr_status r \<notin> {RunCreated, RunFailed, RunInvalidated} \<longrightarrow> strip (kr_manifest_digest r) \<noteq> []))"

definition runs_advance :: "lifecycle_run list \<Rightarrow> lifecycle_run list \<Rightarrow> bool" where
  "runs_advance rs rs' =
     (\<exists>f new. rs' = map f rs @ new \<and> (\<forall>r \<in> set rs. run_step r (f r) \<and> (run_ok r \<longrightarrow> run_ok (f r))) \<and>
       distinct (map kr_run_id (rs @ new)) = distinct (map kr_run_id rs) \<and> (\<forall>r \<in> set new. run_ok r))"

lemma run_step_refl [simp]: "run_step r r"
  by (simp add: run_step_def)

lemma runs_advance_refl [simp]: "runs_advance rs rs"
  by (auto simp: runs_advance_def intro!: exI [of _ id] exI [of _ "[]"])

lemma runs_advance_update:
  assumes "\<And>r. r \<in> set rs \<Longrightarrow> p r \<Longrightarrow> run_step r (f r) \<and> (run_ok r \<longrightarrow> run_ok (f r))"
  shows "runs_advance rs (update_rows p f rs)"
  unfolding runs_advance_def update_rows_def
  using assms by (intro exI [of _ "\<lambda>r. if p r then f r else r"] exI [of _ "[]"]) auto

lemma runs_advance_new:
  assumes "kr_run_id r \<notin> kr_run_id ` set rs" and "run_ok r"
  shows "runs_advance rs (rs @ [r])"
  unfolding runs_advance_def using assms by (intro exI [of _ id] exI [of _ "[r]"]) auto

lemma run_step_counts [simp]: "run_step r (r\<lparr>kr_counts := c\<rparr>)"
  by (simp add: run_step_def)

lemma run_ok_counts [simp]: "run_ok (r\<lparr>kr_counts := c\<rparr>) = run_ok r"
  by (simp add: run_ok_def)

lemma run_step_recorded [simp]: "run_step r (recorded_run md r)"
  by (simp add: run_step_def recorded_run_def)

lemma run_ok_recorded [simp]: "run_ok (recorded_run md r) = run_ok r"
  by (simp add: run_ok_def recorded_run_def)

lemma status_edge_cases:
  assumes "status_edge s t False"
  shows "t \<noteq> RunInvalidated" "s \<notin> {RunApplied, RunFailed, RunInvalidated}" "t \<noteq> RunCreated" "t \<noteq> s"
    "t = RunManifestFrozen \<longrightarrow> s = RunCreated" "t \<notin> {RunManifestFrozen, RunFailed} \<longrightarrow> s \<noteq> RunCreated"
  using assms by (cases s; cases t; simp add: status_edge_def NEXT_STATUS_def)+

lemma run_step_moved:
  assumes "status_edge (kr_status r) t False" and "t = RunManifestFrozen \<or> d = None"
  shows "run_step r (moved_run t reason d now r)"
  using assms status_edge_cases [OF assms(1)] by (auto simp: run_step_def moved_run_def)

lemma run_ok_moved:
  assumes "status_edge (kr_status r) t False" and "if t = RunManifestFrozen then text_given d else d = None" and "run_ok r"
  shows "run_ok (moved_run t reason d now r)"
proof -
  note edge = status_edge_cases [OF assms(1)]
  have "strip (kr_manifest_digest (moved_run t reason d now r)) \<noteq> []" if "t \<noteq> RunFailed"
  proof (cases "t = RunManifestFrozen")
    case True
    with assms(2) show ?thesis by (auto simp: moved_run_def text_given_def split: option.splits)
  next
    case False
    with assms(2,3) edge that show ?thesis by (auto simp: moved_run_def run_ok_def)
  qed
  with assms(3) edge show ?thesis by (auto simp: run_ok_def moved_run_def)
qed

lemma run_invalidated:
  assumes "status_edge (kr_status r) RunInvalidated True"
  shows "run_step r (invalidated_run now reason r)" "run_ok r \<Longrightarrow> run_ok (invalidated_run now reason r)"
  using assms by (auto simp: run_step_def run_ok_def invalidated_run_def status_edge_def)

text \<open>Requests of a run that has left its first state keep their content, and a stored result is final.\<close>

definition request_content :: "request_row \<Rightarrow> string \<times> string \<times> jobject" where
  "request_content q = (kq_run_id q, kq_custom_id q, kq_manifest_entry q)"

definition request_step :: "request_row \<Rightarrow> request_row \<Rightarrow> bool" where
  "request_step q q' = (request_content q' = request_content q \<and> (kq_result_stored_at q \<noteq> None \<longrightarrow> q' = q))"

definition request_ok :: "request_row \<Rightarrow> bool" where
  "request_ok q = (custom_id_ok (kq_run_id q) (kq_custom_id q) \<and> (kq_status q = ''pending'') = (kq_result_stored_at q = None) \<and>
     (kq_status q = ''pending'' \<or> kq_status q \<in> set REQUEST_STATUSES))"

definition requests_advance :: "lifecycle_run list \<Rightarrow> request_row list \<Rightarrow> request_row list \<Rightarrow> bool" where
  "requests_advance runs qs qs' =
     (\<exists>f new. qs' = map f qs @ new \<and> (\<forall>q \<in> set qs. request_step q (f q) \<and> (request_ok q \<longrightarrow> request_ok (f q))) \<and>
       (\<forall>q \<in> set new. request_ok q \<and> (\<exists>r. get_run runs (kq_run_id q) = Some r \<and> kr_status r = RunCreated)))"

lemma requests_advance_refl [simp]: "requests_advance runs qs qs"
  by (auto simp: requests_advance_def request_step_def intro!: exI [of _ id] exI [of _ "[]"])

lemma requests_advance_map:
  "(\<And>q. q \<in> set qs \<Longrightarrow> request_step q (f q) \<and> (request_ok q \<longrightarrow> request_ok (f q))) \<Longrightarrow> requests_advance runs qs (map f qs)"
  by (auto simp: requests_advance_def intro!: exI [of _ f] exI [of _ "[]"])

lemma insert_request_new:
  assumes "insert_request run x rows = Inr rows'"
  shows "\<exists>new. rows' = rows @ new \<and> (\<forall>q \<in> set new. request_ok q \<and> kq_run_id q = kr_run_id run \<and> kr_status run = RunCreated)"
  using assms
  by (auto simp: insert_request_def ensure_def request_ok_def split: prod.splits option.splits if_splits)

lemma insert_requests_new:
  assumes "res_fold (insert_request run) xs rows = Inr rows'"
  shows "\<exists>new. rows' = rows @ new \<and> (\<forall>q \<in> set new. request_ok q \<and> kq_run_id q = kr_run_id run \<and> kr_status run = RunCreated)"
  using assms
proof (induction xs arbitrary: rows)
  case (Cons x xs)
  then obtain rows1 where one: "insert_request run x rows = Inr rows1" "res_fold (insert_request run) xs rows1 = Inr rows'"
    by (auto simp: res_bind_eq_Inr)
  from insert_request_new [OF one(1)] Cons.IH [OF one(2)] show ?case by auto
qed simp

lemma requests_advance_insert:
  assumes "insert_requests led run_id xs = Inr led'"
  shows "requests_advance (kl_runs led) (kl_requests led) (kl_requests led')"
proof -
  from assms obtain run rows where run: "get_run (kl_runs led) run_id = Some run"
    and fold: "res_fold (insert_request run) xs (kl_requests led) = Inr rows" and led': "kl_requests led' = rows"
    by (auto simp: insert_requests_def res_bind_eq_Inr split: option.splits)
  have id: "kr_run_id run = run_id" using lifecycle_runs.get_row_Some [OF run] by simp
  from insert_requests_new [OF fold] obtain new where "rows = kl_requests led @ new"
    "\<forall>q \<in> set new. request_ok q \<and> kq_run_id q = kr_run_id run \<and> kr_status run = RunCreated" by blast
  with run id led' show ?thesis
    by (auto simp: requests_advance_def request_step_def intro!: exI [of _ id] exI [of _ new])
qed

lemma requests_advance_checkpoint:
  assumes "checkpoint_request led run_id custom_id status now = Inr (led', stored)"
  shows "requests_advance runs (kl_requests led) (kl_requests led')"
proof -
  let ?hit = "\<lambda>q. (kq_run_id q, kq_custom_id q) = (run_id, custom_id) \<and> kq_result_stored_at q = None"
  let ?f = "\<lambda>q. if ?hit q then q\<lparr>kq_status := status, kq_result_stored_at := Some now\<rparr> else q"
  have status: "status \<in> set REQUEST_STATUSES" using assms by (auto simp: checkpoint_request_def ensure_def split: if_splits)
  have "led' = led \<or> kl_requests led' = map ?f (kl_requests led)"
    using assms by (auto simp: checkpoint_request_def ensure_def Let_def update_rows_def split: if_splits)
  moreover have "request_step q (?f q) \<and> (request_ok q \<longrightarrow> request_ok (?f q))" for q
    using status by (auto simp: request_step_def request_content_def request_ok_def REQUEST_STATUSES_def)
  ultimately show ?thesis by (metis (no_types, lifting) requests_advance_refl requests_advance_map)
qed

section \<open>Appending an event\<close>

text \<open>What an appended event found and wrote. \<open>li\<close> is what the call read under the lock of the entry.\<close>

definition appended ::
    "ledger \<Rightarrow> ledger \<Rightarrow> evaluation_row \<Rightarrow> locked_inputs \<Rightarrow> event_cause \<Rightarrow> event_request \<Rightarrow> int \<Rightarrow> instant \<Rightarrow> lifecycle_event \<Rightarrow> bool" where
  "appended led led' e li cause rq new_id now v =
     (lock_apply_inputs led (ke_entry e) = Inr li \<and> run_admits (get_run (kl_runs led) (ke_run_id e)) e cause \<and>
      compensated_run_ok led cause = Inr () \<and> v = new_event li e cause rq new_id now \<and>
      \<not> list_ex (event_conflicts v) (kl_events led) \<and> (kv_to_state v = LObsolete \<longrightarrow> kv_valid_from v \<noteq> None) \<and>
      (\<forall>i. kv_compensates_event_id v = Some i \<longrightarrow> (\<exists>x \<in> set (kl_events led). kv_id x = i \<and> kv_entry x = ke_entry e)) \<and>
      kl_events led' = kl_events led @ [v] \<and>
      (\<exists>led1. write_cache (led\<lparr>kl_events := kl_events led @ [v]\<rparr>) (li_cache li) (li_revision li)
        (cache_of_event v (ei_content_updated_at (li_inputs li)) (li_revision li + 1)) = Some led1 \<and>
        count_event led1 (counted_run e cause) (event_counter cause) = Inr led'))"

lemma li_entry_locked: "lock_apply_inputs led k = Inr li \<Longrightarrow> li_entry li = k \<and> li_cache li = read_cache led k"
  by (auto simp: lock_apply_inputs_def split: option.splits)

lemma insert_event_Some:
  assumes "insert_event led v = Inr (Some led1)"
  shows "led1 = led\<lparr>kl_events := kl_events led @ [v]\<rparr>" "\<not> list_ex (event_conflicts v) (kl_events led)"
    "kv_to_state v = LObsolete \<longrightarrow> kv_valid_from v \<noteq> None"
    "kv_compensates_event_id v = Some i \<Longrightarrow> \<exists>x \<in> set (kl_events led). kv_id x = i \<and> kv_entry x = kv_entry v"
  using assms by (auto simp: insert_event_def list_ex_iff split: if_splits option.splits)

lemma count_event_frame:
  assumes "count_event led run_id counter = Inr led'"
  shows "kl_events led' = kl_events led" "kl_cache led' = kl_cache led" "kl_evaluations led' = kl_evaluations led"
    "kl_requests led' = kl_requests led" "kl_extractions led' = kl_extractions led" "kl_justifications led' = kl_justifications led"
    "kl_entries led' = kl_entries led" "runs_advance (kl_runs led) (kl_runs led')"
  using assms by (auto simp: count_event_def split: option.splits if_splits intro!: runs_advance_update)

lemma write_cache_frame:
  assumes "write_cache led c n row = Some led'"
  shows "kl_events led' = kl_events led" "kl_runs led' = kl_runs led" "kl_evaluations led' = kl_evaluations led"
    "kl_requests led' = kl_requests led" "kl_extractions led' = kl_extractions led" "kl_justifications led' = kl_justifications led"
    "kl_entries led' = kl_entries led"
  using assms by (auto simp: write_cache_def Let_def split: option.splits if_splits)

lemma write_event_cases:
  assumes "write_event led e cause li v = Inr (led', x)" and "replayed_event led e (li_entry li) cause = None"
  shows "x = v" "\<not> list_ex (event_conflicts v) (kl_events led)" "kv_to_state v = LObsolete \<longrightarrow> kv_valid_from v \<noteq> None"
    "kv_compensates_event_id v = Some i \<Longrightarrow> \<exists>y \<in> set (kl_events led). kv_id y = i \<and> kv_entry y = kv_entry v"
    "\<exists>led1. write_cache (led\<lparr>kl_events := kl_events led @ [v]\<rparr>) (li_cache li) (li_revision li)
        (cache_of_event v (ei_content_updated_at (li_inputs li)) (li_revision li + 1)) = Some led1 \<and>
        count_event led1 (counted_run e cause) (event_counter cause) = Inr led'"
    "kl_events led' = kl_events led @ [v]"
proof -
  from assms obtain led1 led2 where ins: "insert_event led v = Inr (Some led1)"
    and w: "write_cache led1 (li_cache li) (li_revision li)
        (cache_of_event v (ei_content_updated_at (li_inputs li)) (li_revision li + 1)) = Some led2"
    and c: "count_event led2 (counted_run e cause) (event_counter cause) = Inr led'" and x: "x = v"
    by (auto simp: write_event_def res_bind_eq_Inr split: option.splits)
  note new = insert_event_Some [OF ins]
  show "x = v" by (rule x)
  show "\<not> list_ex (event_conflicts v) (kl_events led)" "kv_to_state v = LObsolete \<longrightarrow> kv_valid_from v \<noteq> None"
    by (rule new)+
  show "kv_compensates_event_id v = Some i \<Longrightarrow> \<exists>y \<in> set (kl_events led). kv_id y = i \<and> kv_entry y = kv_entry v"
    by (rule new(4))
  show "\<exists>led1. write_cache (led\<lparr>kl_events := kl_events led @ [v]\<rparr>) (li_cache li) (li_revision li)
        (cache_of_event v (ei_content_updated_at (li_inputs li)) (li_revision li + 1)) = Some led1 \<and>
        count_event led1 (counted_run e cause) (event_counter cause) = Inr led'"
    using w c unfolding new(1) by blast
  show "kl_events led' = kl_events led @ [v]"
    using count_event_frame(1) [OF c] write_cache_frame(1) [OF w] new(1) by simp
qed

lemma append_event_cases:
  assumes "append_event led e inputs expected cause rq new_id now = Inr (led', v)"
  obtains (replayed) "led' = led" "replayed_event led e (ke_entry e) cause = Some v"
  | (appended) li where "appended led led' e li cause rq new_id now v" "li_revision li = expected" "li_inputs li = li_inputs inputs"
      "replayed_event led e (ke_entry e) cause = None" "li_entry inputs = ke_entry e"
proof -
  have entry: "li_entry inputs = ke_entry e" using assms unfolding append_event_def by (auto simp only: res_bind_eq_Inr ensure_eq)
  show ?thesis
  proof (cases "replayed_event led e (ke_entry e) cause")
    case (Some x)
    with assms entry show ?thesis by (intro replayed) (simp_all add: append_event_def)
  next
    case None
    from assms have "res_bind (ensure (run_admits (get_run (kl_runs led) (ke_run_id e)) e cause) InvalidApply) (\<lambda>_.
         res_bind (lock_apply_inputs led (ke_entry e)) (\<lambda>current.
         res_bind (ensure (li_revision current = expected \<and> li_inputs current = li_inputs inputs) StaleAtApply) (\<lambda>_.
         res_bind (compensated_run_ok led cause) (\<lambda>_.
         write_event led e cause current (new_event current e cause rq new_id now))))) = Inr (led', v)"
      by (simp add: append_event_def entry None)
    then obtain li where admits: "run_admits (get_run (kl_runs led) (ke_run_id e)) e cause"
      and li: "lock_apply_inputs led (ke_entry e) = Inr li"
      and fresh: "li_revision li = expected" "li_inputs li = li_inputs inputs"
      and comp: "compensated_run_ok led cause = Inr ()"
      and w: "write_event led e cause li (new_event li e cause rq new_id now) = Inr (led', v)"
      unfolding res_bind_eq_Inr ensure_eq by auto
    note locked = li_entry_locked [OF li]
    note new = write_event_cases [OF w] 
    have none: "replayed_event led e (li_entry li) cause = None" using None locked by simp
    have v: "v = new_event li e cause rq new_id now" by (rule new(1) [OF none])
    have "kv_entry (new_event li e cause rq new_id now) = ke_entry e" using locked by (simp add: new_event_def)
    then have "appended led led' e li cause rq new_id now v"
      unfolding appended_def v using admits li comp new [OF none] by auto
    with fresh None entry show ?thesis by (intro appended)
  qed
qed

lemma appended_frame:
  assumes "appended led led' e li cause rq new_id now v"
  shows "kl_evaluations led' = kl_evaluations led" "kl_requests led' = kl_requests led" "kl_extractions led' = kl_extractions led"
    "kl_justifications led' = kl_justifications led" "runs_advance (kl_runs led) (kl_runs led')"
    "kl_events led' = kl_events led @ [v]" "kv_entry v = ke_entry e"
proof -
  from assms obtain led1 where w: "write_cache (led\<lparr>kl_events := kl_events led @ [v]\<rparr>) (li_cache li) (li_revision li)
        (cache_of_event v (ei_content_updated_at (li_inputs li)) (li_revision li + 1)) = Some led1"
    and c: "count_event led1 (counted_run e cause) (event_counter cause) = Inr led'"
    unfolding appended_def by (elim conjE exE)
  note frames = write_cache_frame [OF w] count_event_frame [OF c]
  show "kl_evaluations led' = kl_evaluations led" "kl_requests led' = kl_requests led" "kl_extractions led' = kl_extractions led"
    "kl_justifications led' = kl_justifications led" using frames by simp_all
  show "runs_advance (kl_runs led) (kl_runs led')" using frames by simp
  show "kl_events led' = kl_events led @ [v]" using assms unfolding appended_def by (elim conjE)
  have "v = new_event li e cause rq new_id now" using assms unfolding appended_def by (elim conjE)
  moreover have "lock_apply_inputs led (ke_entry e) = Inr li" using assms unfolding appended_def by (elim conjE)
  ultimately show "kv_entry v = ke_entry e" using li_entry_locked by (auto simp: new_event_def)
qed

section \<open>The transition system\<close>

definition ledger_start :: "ledger \<Rightarrow> bool" where
  "ledger_start led = (kl_runs led = [] \<and> kl_requests led = [] \<and> kl_extractions led = [] \<and> kl_evaluations led = [] \<and>
     kl_justifications led = [] \<and> kl_events led = [] \<and> kl_cache led = [])"

text \<open>A sequence never draws a value twice; the lock of an entry orders the draws for its events.\<close>

definition fresh_event_id :: "ledger \<Rightarrow> entry_key \<Rightarrow> int \<Rightarrow> bool" where
  "fresh_event_id led k i = (list_all (\<lambda>v. kv_id v \<noteq> i) (kl_events led) \<and> list_all (\<lambda>v. kv_entry v = k \<longrightarrow> kv_id v < i) (kl_events led))"

inductive ledger_step :: "ledger \<Rightarrow> ledger \<Rightarrow> bool" where
  created: "create_run led run_id mode scope now = Inr (led', r) \<Longrightarrow> ledger_step led led'"
| moved: "transition_run led run_id from_status to_status reason digest now = Inr (led', r) \<Longrightarrow> ledger_step led led'"
| annotated: "record_run led run_id md = Inr (led', r) \<Longrightarrow> ledger_step led led'"
| counted: "set_count_key led run_id section key value = Inr led' \<Longrightarrow> ledger_step led led'"
| requested: "insert_requests led run_id requests = Inr led' \<Longrightarrow> ledger_step led led'"
| checkpointed: "checkpoint_request led run_id custom_id status now = Inr (led', stored) \<Longrightarrow> ledger_step led led'"
| extracted: "insert_extraction led x = Inr (led', i) \<Longrightarrow> kx_id x \<notin> kx_id ` set (kl_extractions led) \<Longrightarrow> ledger_step led led'"
| evaluated: "insert_evaluation led e js = Inr (led', e') \<Longrightarrow> ke_id e \<notin> ke_id ` set (kl_evaluations led) \<Longrightarrow> ledger_step led led'"
| transitioned: "append_transition led i inputs rq new_id now = Inr (led', v) \<Longrightarrow> fresh_event_id led (li_entry inputs) new_id
    \<Longrightarrow> ledger_step led led'"
| compensated: "append_compensation led i inputs run_id event_id expected rq new_id now = Inr (led', v)
    \<Longrightarrow> fresh_event_id led (li_entry inputs) new_id \<Longrightarrow> ledger_step led led'"
| invalidated: "invalidate_run led run_id reason now = Inr (led', b) \<Longrightarrow> ledger_step led led'"
| edited: "ledger_step led (led\<lparr>kl_entries := es, kl_graph_entities := ns, kl_graph_relations := rs\<rparr>)"

text \<open>Every step keeps the events, or appends one.\<close>

definition quiet_step :: "ledger \<Rightarrow> ledger \<Rightarrow> bool" where
  "quiet_step led led' =
     (kl_events led' = kl_events led \<and> kl_cache led' = kl_cache led \<and> runs_advance (kl_runs led) (kl_runs led') \<and>
      requests_advance (kl_runs led) (kl_requests led) (kl_requests led') \<and>
      (\<exists>es. kl_evaluations led' = kl_evaluations led @ es \<and> (distinct (map ke_id (kl_evaluations led)) \<longrightarrow> distinct (map ke_id (kl_evaluations led'))) \<and>
        (distinct (map evaluation_key (kl_evaluations led)) \<longrightarrow> distinct (map evaluation_key (kl_evaluations led'))) \<and>
        (\<forall>e \<in> set es. get_run (kl_runs led) (ke_run_id e) \<noteq> None)) \<and>
      (\<exists>xs. kl_extractions led' = kl_extractions led @ xs) \<and> (\<exists>js. kl_justifications led' = kl_justifications led @ js))"

lemma quiet_runs:
  assumes "runs_advance (kl_runs led) rs"
  shows "quiet_step led (led\<lparr>kl_runs := rs\<rparr>)"
  using assms by (simp add: quiet_step_def)

lemma quiet_refl: "quiet_step led led"
  by (simp add: quiet_step_def)

lemma quiet_created: "create_run led run_id mode scope now = Inr (led', r) \<Longrightarrow> quiet_step led led'"
  by (auto simp: create_run_def Let_def lifecycle_runs.get_row_None run_ok_def split: option.splits if_splits
    intro!: quiet_runs runs_advance_new)

lemma quiet_moved:
  assumes "transition_run led run_id from_status to_status reason digest now = Inr (led', r)"
  shows "quiet_step led led'"
proof -
  from assms obtain source target where st: "run_status_of from_status = Some source" "run_status_of to_status = Some target"
    by (auto simp: transition_run_def split: option.splits)
  let ?hit = "\<lambda>r. kr_run_id r = run_id \<and> kr_status r = source"
  from assms st have edge: "status_edge source target False"
    and digest: "if target = RunManifestFrozen then text_given digest else digest = None"
    and led': "led' = led\<lparr>kl_runs := update_rows ?hit (moved_run target reason digest now) (kl_runs led)\<rparr>"
    by (auto simp: transition_run_def transition_allowed_def res_bind_eq_Inr ensure_eq Let_def split: option.splits)
  have "runs_advance (kl_runs led) (update_rows ?hit (moved_run target reason digest now) (kl_runs led))"
  proof (rule runs_advance_update)
    fix r :: lifecycle_run assume "kr_run_id r = run_id \<and> kr_status r = source"
    then have "status_edge (kr_status r) target False" using edge by simp
    moreover have "target = RunManifestFrozen \<or> digest = None" using digest by presburger
    ultimately show "run_step r (moved_run target reason digest now r) \<and> (run_ok r \<longrightarrow> run_ok (moved_run target reason digest now r))"
      using digest run_step_moved run_ok_moved by blast
  qed
  then show ?thesis unfolding led' by (rule quiet_runs)
qed

lemma quiet_annotated: "record_run led run_id md = Inr (led', r) \<Longrightarrow> quiet_step led led'"
  by (auto simp: record_run_def split: option.splits intro!: quiet_runs runs_advance_update)

lemma quiet_counted: "set_count_key led run_id section key value = Inr led' \<Longrightarrow> quiet_step led led'"
  by (auto simp: set_count_key_def split: option.splits intro!: quiet_runs runs_advance_update)

lemma quiet_requested:
  assumes "insert_requests led run_id requests = Inr led'"
  shows "quiet_step led led'"
proof -
  from assms obtain rows where "led' = led\<lparr>kl_requests := rows\<rparr>"
    by (auto simp: insert_requests_def res_bind_eq_Inr split: option.splits)
  with requests_advance_insert [OF assms] show ?thesis by (simp add: quiet_step_def)
qed

lemma quiet_checkpointed:
  assumes "checkpoint_request led run_id custom_id status now = Inr (led', stored)"
  shows "quiet_step led led'"
proof -
  from assms obtain rows where "led' = led\<lparr>kl_requests := rows\<rparr> \<or> led' = led"
    by (auto simp: checkpoint_request_def ensure_def Let_def split: if_splits)
  with requests_advance_checkpoint [OF assms] show ?thesis by (auto simp: quiet_step_def)
qed

lemma quiet_extracted: "insert_extraction led x = Inr (led', i) \<Longrightarrow> quiet_step led led'"
  by (auto simp: insert_extraction_def quiet_step_def split: option.splits if_splits)

lemma insert_justifications_new:
  "res_fold (insert_justification e) js rows = Inr rows' \<Longrightarrow> \<exists>new. rows' = rows @ new"
proof (induction js arbitrary: rows)
  case (Cons j js)
  then obtain rows1 where "insert_justification e j rows = Inr rows1" "res_fold (insert_justification e) js rows1 = Inr rows'"
    by (auto simp: res_bind_eq_Inr)
  with Cons.IH show ?case by (fastforce simp: insert_justification_def Let_def split: if_splits)
qed simp

lemma quiet_evaluated:
  assumes "insert_evaluation led e js = Inr (led', e')" and "ke_id e \<notin> ke_id ` set (kl_evaluations led)"
  shows "quiet_step led led'"
proof (cases "find_row (\<lambda>x. evaluation_key x = evaluation_key e) (kl_evaluations led)")
  case (Some old)
  with assms have "led' = led" by (auto simp: insert_evaluation_def res_bind_eq_Inr)
  then show ?thesis by (simp add: quiet_refl)
next
  case None
  with assms obtain rows where led': "led' = led\<lparr>kl_evaluations := kl_evaluations led @ [e], kl_justifications := rows\<rparr>"
    and rows: "res_fold (insert_justification e) js (kl_justifications led) = Inr rows"
    and run: "get_run (kl_runs led) (ke_run_id e) \<noteq> None"
    by (auto simp: insert_evaluation_def res_bind_eq_Inr ensure_eq)
  from None have "evaluation_key e \<notin> evaluation_key ` set (kl_evaluations led)" by (force simp: find_row_None)
  with assms(2) run insert_justifications_new [OF rows] show ?thesis
    unfolding led' quiet_step_def by auto
qed

lemma quiet_invalidated: "invalidate_run led run_id reason now = Inr (led', b) \<Longrightarrow> quiet_step led led'"
  by (auto simp: invalidate_run_def res_bind_eq_Inr ensure_eq run_invalidated split: option.splits if_splits
    intro!: quiet_runs quiet_refl runs_advance_update)

lemma quiet_edited: "quiet_step led (led\<lparr>kl_entries := es, kl_graph_entities := ns, kl_graph_relations := rs\<rparr>)"
  by (simp add: quiet_step_def)

lemmas quiet_intros = quiet_created quiet_moved quiet_annotated quiet_counted quiet_requested quiet_checkpointed quiet_extracted
  quiet_evaluated quiet_invalidated quiet_edited quiet_refl

lemma read_evaluation_Inr: "read_evaluation led i = Inr e \<longleftrightarrow> get_evaluation (kl_evaluations led) i = Some e"
  by (auto simp: read_evaluation_def split: option.splits)

lemma step_cases:
  assumes "ledger_step led led'"
  obtains (quiet) "quiet_step led led'"
  | (appended) e li cause rq new_id now v where "appended led led' e li cause rq new_id now v" "fresh_event_id led (ke_entry e) new_id"
      "get_evaluation (kl_evaluations led) (ke_id e) = Some e" "replayed_event led e (ke_entry e) cause = None"
      "cause = ByTransition \<longrightarrow> li_revision li = ke_expected_cache_revision e"
  using assms
proof (cases rule: ledger_step.cases)
  case (transitioned i inputs rq new_id now v)
  then obtain e where e: "get_evaluation (kl_evaluations led) i = Some e"
    and a: "append_event led e inputs (ke_expected_cache_revision e) ByTransition rq new_id now = Inr (led', v)"
    by (auto simp: append_transition_def res_bind_eq_Inr read_evaluation_Inr)
  have i: "ke_id e = i" using lifecycle_evaluations.get_row_Some [OF e] by simp
  from a show ?thesis
  proof (cases rule: append_event_cases)
    case replayed
    then show ?thesis by (intro quiet) (simp add: quiet_refl)
  next
    case (appended li)
    with e i transitioned(2) that(2) show ?thesis by metis
  qed
next
  case (compensated i inputs run_id event_id expected rq new_id now v)
  then obtain e where e: "get_evaluation (kl_evaluations led) i = Some e"
    and a: "append_event led e inputs expected (ByCompensation run_id event_id) rq new_id now = Inr (led', v)"
    by (auto simp: append_compensation_def res_bind_eq_Inr read_evaluation_Inr)
  have i: "ke_id e = i" using lifecycle_evaluations.get_row_Some [OF e] by simp
  from a show ?thesis
  proof (cases rule: append_event_cases)
    case replayed
    then show ?thesis by (intro quiet) (simp add: quiet_refl)
  next
    case (appended li)
    with e i compensated(2) that(2) show ?thesis by (metis event_cause.distinct(1))
  qed
next
  case edited
  then show ?thesis by (intro quiet) (simp only: quiet_edited)
next
  case evaluated
  then show ?thesis by (intro quiet) (rule quiet_evaluated)
qed (rule quiet, erule quiet_intros)+

end
