(* ===== verification/Knowledge_Replay.thy ===== *)
theory Knowledge_Replay
  imports Knowledge_History
begin

text \<open>
  The invariant of the lifecycle ledger and what follows from it: in every reachable state the cache is the
  replay of the events, and \<open>cache_mismatches\<close> is an exact test of this in any state.
\<close>

section \<open>The invariant\<close>

definition entry_history :: "ledger \<Rightarrow> entry_key \<Rightarrow> lifecycle_event list" where
  "entry_history led k = filter (\<lambda>v. kv_entry v = k) (kl_events led)"

fun chained :: "lifecycle_state option \<Rightarrow> lifecycle_event list \<Rightarrow> bool" where
  "chained s [] = True"
| "chained s (v # vs) = (kv_from_state v = s \<and> chained (Some (kv_to_state v)) vs)"

definition history_ok :: "ledger \<Rightarrow> entry_key \<Rightarrow> bool" where
  "history_ok led k =
     (sorted_wrt (<) (map kv_id (entry_history led k)) \<and> chained None (entry_history led k) \<and>
      map_option cache_projection (read_cache led k) = project_events (entry_history led k))"

definition compensates :: "ledger \<Rightarrow> lifecycle_event \<Rightarrow> string \<Rightarrow> bool" where
  "compensates led v i =
     (kv_invalidated_run_id v = Some i \<and> (\<exists>r. get_run (kl_runs led) i = Some r \<and> kr_status r = RunInvalidated) \<and>
      (\<exists>x \<in> set (kl_events led). kv_compensates_event_id v = Some (kv_id x) \<and> kv_entry x = kv_entry v \<and> kv_id x < kv_id v))"

definition event_backed :: "ledger \<Rightarrow> lifecycle_event \<Rightarrow> bool" where
  "event_backed led v =
     ((kv_to_state v = LObsolete \<longrightarrow> kv_valid_from v \<noteq> None) \<and>
      (\<exists>e r. get_evaluation (kl_evaluations led) (kv_evaluation_id v) = Some e \<and> ke_entry e = kv_entry v \<and> ke_complete e \<and>
        get_run (kl_runs led) (ke_run_id e) = Some r \<and> kr_mode r = ApplyRun \<and>
        (if kv_kind v = TransitionEvent
         then kv_invalidated_run_id v = None \<and> kr_status r \<in> {RunApplying, RunApplied, RunFailed, RunInvalidated}
         else \<exists>i. compensates led v i)))"

definition transition_evaluations :: "ledger \<Rightarrow> int list" where
  "transition_evaluations led = map kv_evaluation_id (filter (\<lambda>v. kv_kind v = TransitionEvent) (kl_events led))"

definition compensation_keys :: "ledger \<Rightarrow> (string option \<times> entry_key) list" where
  "compensation_keys led =
     map (\<lambda>v. (kv_invalidated_run_id v, kv_entry v)) (filter (\<lambda>v. kv_kind v = CompensationEvent) (kl_events led))"

definition ledger_keyed :: "ledger \<Rightarrow> bool" where
  "ledger_keyed led =
     (distinct (map kr_run_id (kl_runs led)) \<and> distinct (map ke_id (kl_evaluations led)) \<and>
      distinct (map evaluation_key (kl_evaluations led)) \<and> distinct (map kc_entry (kl_cache led)) \<and> distinct (map kv_id (kl_events led)))"

definition ledger_ok :: "ledger \<Rightarrow> bool" where
  "ledger_ok led =
     (ledger_keyed led \<and> (\<forall>k. history_ok led k) \<and> distinct (transition_evaluations led) \<and> distinct (compensation_keys led) \<and>
      (\<forall>v \<in> set (kl_events led). event_backed led v) \<and> (\<forall>r \<in> set (kl_runs led). run_ok r) \<and> (\<forall>q \<in> set (kl_requests led). request_ok q))"

lemma chained_snoc:
  "chained s (vs @ [v]) \<longleftrightarrow> chained s vs \<and> kv_from_state v = (if vs = [] then s else Some (kv_to_state (last vs)))"
  by (induction vs arbitrary: s) auto

lemma events_for_entry_history:
  assumes "sorted_wrt (<) (map kv_id (entry_history led k))"
  shows "events_for_entry led k = entry_history led k"
proof -
  have "sorted (map kv_id (entry_history led k))" using assms by (rule strict_sorted_imp_sorted)
  then show ?thesis unfolding events_for_entry_def entry_history_def [symmetric] by (rule sort_key_id_if_sorted)
qed

section \<open>Runs under a step\<close>

lemma find_row_append: "find_row p rows = Some r \<Longrightarrow> find_row p (rows @ new) = Some r"
  by (induction rows) (auto simp: find_row_def split: if_splits)

lemma find_row_snoc:
  "find_row p (rows @ [r]) = (case find_row p rows of None \<Rightarrow> if p r then Some r else None | Some x \<Rightarrow> Some x)"
  by (induction rows) (auto simp: find_row_def)

lemma get_run_advance:
  assumes "runs_advance rs rs'" and "get_run rs i = Some r"
  shows "\<exists>r'. get_run rs' i = Some r' \<and> run_step r r'"
proof -
  from assms(1) obtain f new where rs': "rs' = map f rs @ new" and f: "\<forall>r \<in> set rs. run_step r (f r)"
    unfolding runs_advance_def by blast
  have "get_run (map f rs) i = Some (f r)"
    using assms(2) f by (induction rs) (auto simp: get_run_def find_row_def run_step_def split: if_splits)
  then have "get_run rs' i = Some (f r)" unfolding rs' get_run_def by (rule find_row_append)
  moreover have "run_step r (f r)" using f lifecycle_runs.get_row_Some [OF assms(2)] by blast
  ultimately show ?thesis by blast
qed

lemma run_step_applied:
  assumes "run_step r r'"
  shows "kr_status r \<in> {RunApplying, RunApplied, RunFailed, RunInvalidated} \<Longrightarrow> kr_status r' \<in> {RunApplying, RunApplied, RunFailed, RunInvalidated}"
    "kr_status r = RunInvalidated \<Longrightarrow> kr_status r' = RunInvalidated" "kr_mode r' = kr_mode r"
  using assms by (auto simp: run_step_def status_edge_def NEXT_STATUS_def split: if_splits)

lemma runs_advance_ok:
  assumes "runs_advance rs rs'" and "\<forall>r \<in> set rs. run_ok r"
  shows "\<forall>r \<in> set rs'. run_ok r"
  using assms unfolding runs_advance_def by auto

lemma runs_advance_distinct:
  assumes "runs_advance rs rs'" and "distinct (map kr_run_id rs)"
  shows "distinct (map kr_run_id rs')"
proof -
  from assms(1) obtain f new where rs': "rs' = map f rs @ new" and f: "\<forall>r \<in> set rs. run_step r (f r)"
    and d: "distinct (map kr_run_id (rs @ new)) = distinct (map kr_run_id rs)" unfolding runs_advance_def by blast
  have "map kr_run_id (map f rs) = map kr_run_id rs" using f by (simp add: run_step_def)
  then have "map kr_run_id rs' = map kr_run_id (rs @ new)" by (simp add: rs')
  with d assms(2) show ?thesis by simp
qed

lemma requests_advance_ok:
  assumes "requests_advance runs qs qs'" and "\<forall>q \<in> set qs. request_ok q"
  shows "\<forall>q \<in> set qs'. request_ok q"
  using assms unfolding requests_advance_def by auto

section \<open>Preservation\<close>

lemma event_backed_advance:
  assumes "event_backed led v" and "runs_advance (kl_runs led) (kl_runs led')"
    and "kl_evaluations led' = kl_evaluations led @ es" and "set (kl_events led) \<subseteq> set (kl_events led')"
  shows "event_backed led' v"
proof -
  from assms(1) obtain e r where e: "get_evaluation (kl_evaluations led) (kv_evaluation_id v) = Some e" "ke_entry e = kv_entry v" "ke_complete e"
    and r: "get_run (kl_runs led) (ke_run_id e) = Some r" "kr_mode r = ApplyRun"
    and kind: "if kv_kind v = TransitionEvent
         then kv_invalidated_run_id v = None \<and> kr_status r \<in> {RunApplying, RunApplied, RunFailed, RunInvalidated}
         else \<exists>i. compensates led v i"
    and obs: "kv_to_state v = LObsolete \<longrightarrow> kv_valid_from v \<noteq> None"
    unfolding event_backed_def by (elim conjE exE)
  from get_run_advance [OF assms(2) r(1)] obtain r' where r': "get_run (kl_runs led') (ke_run_id e) = Some r'" "run_step r r'" by blast
  have e': "get_evaluation (kl_evaluations led') (kv_evaluation_id v) = Some e"
    using e(1) unfolding assms(3) get_evaluation_def by (rule find_row_append)
  have "compensates led' v i" if "compensates led v i" for i
  proof -
    from that obtain run where run: "get_run (kl_runs led) i = Some run" "kr_status run = RunInvalidated"
      unfolding compensates_def by blast
    from get_run_advance [OF assms(2) run(1)] obtain run' where "get_run (kl_runs led') i = Some run'" "run_step run run'" by blast
    with run_step_applied(2) run(2) that assms(4) show ?thesis unfolding compensates_def by blast
  qed
  then have "if kv_kind v = TransitionEvent
         then kv_invalidated_run_id v = None \<and> kr_status r' \<in> {RunApplying, RunApplied, RunFailed, RunInvalidated}
         else \<exists>i. compensates led' v i"
    using kind run_step_applied(1) [OF r'(2)] by (cases "kv_kind v = TransitionEvent") auto
  with e' e(2,3) r' r(2) run_step_applied(3) [OF r'(2)] obs show ?thesis unfolding event_backed_def by auto
qed

lemma quiet_ok:
  assumes "quiet_step led led'" and "ledger_ok led"
  shows "ledger_ok led'"
proof -
  from assms(1) obtain es where q: "kl_events led' = kl_events led" "kl_cache led' = kl_cache led"
      "runs_advance (kl_runs led) (kl_runs led')" "requests_advance (kl_runs led) (kl_requests led) (kl_requests led')"
    and es: "kl_evaluations led' = kl_evaluations led @ es"
      "distinct (map ke_id (kl_evaluations led)) \<longrightarrow> distinct (map ke_id (kl_evaluations led'))"
      "distinct (map evaluation_key (kl_evaluations led)) \<longrightarrow> distinct (map evaluation_key (kl_evaluations led'))"
    unfolding quiet_step_def by (elim conjE exE)
  have same: "entry_history led' k = entry_history led k" "read_cache led' k = read_cache led k"
    "transition_evaluations led' = transition_evaluations led" "compensation_keys led' = compensation_keys led" for k
    using q by (simp_all add: entry_history_def read_cache_def transition_evaluations_def compensation_keys_def)
  have "\<forall>v \<in> set (kl_events led'). event_backed led' v"
    using assms(2) event_backed_advance [OF _ q(3) es(1)] q(1) by (auto simp: ledger_ok_def)
  with assms(2) es q same runs_advance_ok [OF q(3)] runs_advance_distinct [OF q(3)] requests_advance_ok [OF q(4)] show ?thesis
    unfolding ledger_ok_def ledger_keyed_def history_ok_def by simp
qed

lemma write_cache_read:
  assumes "write_cache led c n row = Some led'" and n: "n = (case c of None \<Rightarrow> 0 | Some x \<Rightarrow> kc_revision x)"
    and c: "c = read_cache led (kc_entry row)" and d: "distinct (map kc_entry (kl_cache led))"
  shows "read_cache led' k = (if k = kc_entry row then Some row else read_cache led k)" "distinct (map kc_entry (kl_cache led'))"
proof -
  have "read_cache led' k = (if k = kc_entry row then Some row else read_cache led k) \<and> distinct (map kc_entry (kl_cache led'))"
  proof (cases c)
    case None
    with assms(1) have cache: "kl_cache led' = kl_cache led @ [row]" by (auto simp: write_cache_def split: if_splits)
    from None c have none: "get_cache (kl_cache led) (kc_entry row) = None" by (simp add: read_cache_def)
    then have "get_cache (kl_cache led @ [row]) k = (if k = kc_entry row then Some row else get_cache (kl_cache led) k)" for k
      by (auto simp: get_cache_def find_row_snoc split: option.splits)
    with cache none d show ?thesis
      by (auto simp: read_cache_def lifecycle_caches.get_row_None)
  next
    case (Some x)
    let ?hit = "\<lambda>y. kc_entry y = kc_entry row \<and> kc_revision y = kc_revision x"
    let ?f = "\<lambda>y. if kc_entry y = kc_entry row then row else y"
    from Some assms(1) n have cache: "kl_cache led' = update_rows ?hit (\<lambda>_. row) (kl_cache led)"
      by (auto simp: write_cache_def Let_def split: if_splits)
    have x: "get_cache (kl_cache led) (kc_entry row) = Some x" using Some c by (simp add: read_cache_def)
    have same: "kl_cache led' = update_rows ?hit ?f (kl_cache led)" unfolding cache by (simp add: update_rows_def)
    have key: "kc_entry (?f y) = kc_entry y" for y by simp
    have "get_cache (kl_cache led') (kc_entry row) = Some (?f x)"
      unfolding same by (rule lifecycle_caches.get_row_update_same [OF key x]) simp
    moreover have "kc_entry x = kc_entry row" using lifecycle_caches.get_row_Some [OF x] by simp
    moreover have "get_cache (kl_cache led') k = get_cache (kl_cache led) k" if "k \<noteq> kc_entry row"
      unfolding same using key that by (rule lifecycle_caches.get_row_update_other)
    moreover have "map kc_entry (kl_cache led') = map kc_entry (kl_cache led)"
      unfolding same using key by (rule lifecycle_caches.keys_update_rows)
    ultimately show ?thesis using d by (simp add: read_cache_def)
  qed
  then show "read_cache led' k = (if k = kc_entry row then Some row else read_cache led k)" "distinct (map kc_entry (kl_cache led'))"
    by blast+
qed

text \<open>The parts of an appended event, and the ledger it leaves.\<close>

lemma appendedD:
  assumes "appended led led' e li cause rq new_id now v"
  shows "lock_apply_inputs led (ke_entry e) = Inr li" "run_admits (get_run (kl_runs led) (ke_run_id e)) e cause"
    "compensated_run_ok led cause = Inr ()" "v = new_event li e cause rq new_id now"
    "kv_to_state v = LObsolete \<longrightarrow> kv_valid_from v \<noteq> None"
    "\<forall>i. kv_compensates_event_id v = Some i \<longrightarrow> (\<exists>x \<in> set (kl_events led). kv_id x = i \<and> kv_entry x = ke_entry e)"
  using assms unfolding appended_def by blast+

lemma new_event_fields [simp]:
  "kv_id (new_event li e cause rq new_id now) = new_id"
  "kv_evaluation_id (new_event li e cause rq new_id now) = ke_id e"
  "kv_entry (new_event li e cause rq new_id now) = li_entry li"
  "kv_kind (new_event li e cause rq new_id now) = cause_kind cause"
  "kv_from_state (new_event li e cause rq new_id now) = map_option kc_state (li_cache li)"
  "kv_to_state (new_event li e cause rq new_id now) = rq_to_state rq"
  "kv_valid_from (new_event li e cause rq new_id now) = rq_valid_from rq"
  "kv_compensates_event_id (new_event li e cause rq new_id now) = (case cause of ByTransition \<Rightarrow> None | ByCompensation _ i \<Rightarrow> Some i)"
  "kv_invalidated_run_id (new_event li e cause rq new_id now) = (case cause of ByTransition \<Rightarrow> None | ByCompensation r _ \<Rightarrow> Some r)"
  by (simp_all add: new_event_def)

lemma cause_kind_simps [simp]:
  "cause_kind ByTransition = TransitionEvent" "cause_kind (ByCompensation r i) = CompensationEvent"
  by (simp_all add: cause_kind_def)

lemma li_revision_cases: "li_revision li = (case li_cache li of None \<Rightarrow> 0 | Some x \<Rightarrow> kc_revision x)"
  by (simp add: li_revision_def)

lemma appended_cache:
  assumes a: "appended led led' e li cause rq new_id now v" and keyed: "ledger_keyed led"
  shows "read_cache led' k = (if k = ke_entry e
      then Some (cache_of_event v (ei_content_updated_at (li_inputs li)) (li_revision li + 1)) else read_cache led k)"
    "distinct (map kc_entry (kl_cache led'))"
proof -
  let ?row = "cache_of_event v (ei_content_updated_at (li_inputs li)) (li_revision li + 1)"
  from a obtain led1 where w: "write_cache (led\<lparr>kl_events := kl_events led @ [v]\<rparr>) (li_cache li) (li_revision li) ?row = Some led1"
    and c: "count_event led1 (counted_run e cause) (event_counter cause) = Inr led'"
    unfolding appended_def by (elim conjE exE)
  have row: "kc_entry ?row = ke_entry e" using appended_frame(7) [OF a] by (simp add: cache_of_event_def)
  have li: "li_cache li = read_cache (led\<lparr>kl_events := kl_events led @ [v]\<rparr>) (kc_entry ?row)"
    using li_entry_locked [OF appendedD(1) [OF a]] row by (simp add: read_cache_def)
  have d: "distinct (map kc_entry (kl_cache (led\<lparr>kl_events := kl_events led @ [v]\<rparr>)))" using keyed by (simp add: ledger_keyed_def)
  note read = write_cache_read [OF w li_revision_cases li d]
  have same: "read_cache led' k = read_cache led1 k" "kl_cache led' = kl_cache led1"
    using count_event_frame(2) [OF c] by (simp_all add: read_cache_def)
  show "read_cache led' k = (if k = ke_entry e then Some ?row else read_cache led k)"
    using read(1) [of k] row by (simp add: same read_cache_def li_revision_cases)
  show "distinct (map kc_entry (kl_cache led'))" using read(2) same by simp
qed

lemma appended_history:
  assumes "appended led led' e li cause rq new_id now v"
  shows "entry_history led' k = entry_history led k @ (if k = ke_entry e then [v] else [])"
  using appended_frame(6,7) [OF assms] by (auto simp: entry_history_def)

lemma appended_history_ok:
  assumes a: "appended led led' e li cause rq new_id now v" and keyed: "ledger_keyed led"
    and fresh: "fresh_event_id led (ke_entry e) new_id" and ok: "history_ok led k"
  shows "history_ok led' k"
proof (cases "k = ke_entry e")
  case False
  with ok appended_history [OF a, of k] appended_cache(1) [OF a keyed, of k] show ?thesis by (simp add: history_ok_def)
next
  case True
  let ?h = "entry_history led k"
  have v: "v = new_event li e cause rq new_id now" by (rule appendedD(4) [OF a])
  have cached: "li_cache li = read_cache led k" using li_entry_locked [OF appendedD(1) [OF a]] True by simp
  have hist: "entry_history led' k = ?h @ [v]" using appended_history [OF a, of k] True by simp
  have proj: "map_option cache_projection (read_cache led k) = project_events ?h" using ok by (simp add: history_ok_def)
  have ids: "\<forall>x \<in> set ?h. kv_id x < new_id" using fresh True by (auto simp: fresh_event_id_def entry_history_def list_all_iff)
  have revision: "li_revision li = int (length ?h)"
    using proj cached by (cases "read_cache led k"; cases "?h = []")
      (simp_all add: li_revision_def project_events_def cache_projection_def split: option.splits)
  have from_state: "kv_from_state v = (if ?h = [] then None else Some (kv_to_state (last ?h)))"
    using proj cached v by (cases "read_cache led k"; cases "?h = []")
      (simp_all add: project_events_def cache_projection_def)
  have "map_option cache_projection (read_cache led' k) = project_events (?h @ [v])"
    using appended_cache(1) [OF a keyed, of k] True revision
    by (simp add: cache_projection_def cache_of_event_def project_events_def)
  moreover have "chained None (?h @ [v])" using ok from_state by (simp add: history_ok_def chained_snoc)
  moreover have "sorted_wrt (<) (map kv_id (?h @ [v]))" using ok ids v by (simp add: history_ok_def sorted_wrt_append)
  ultimately show ?thesis unfolding history_ok_def hist by blast
qed

lemma appended_unique:
  assumes a: "appended led led' e li cause rq new_id now v" and none: "replayed_event led e (ke_entry e) cause = None"
    and d: "distinct (transition_evaluations led)" "distinct (compensation_keys led)"
  shows "distinct (transition_evaluations led')" "distinct (compensation_keys led')"
proof -
  have v: "v = new_event li e cause rq new_id now" by (rule appendedD(4) [OF a])
  have li: "li_entry li = ke_entry e" using li_entry_locked [OF appendedD(1) [OF a]] by simp
  note events = appended_frame(6) [OF a]
  show "distinct (transition_evaluations led')"
    using d(1) none by (cases cause) (auto simp: transition_evaluations_def events v replayed_event_def find_row_None)
  show "distinct (compensation_keys led')"
    using d(2) none li by (cases cause) (auto simp: compensation_keys_def events v replayed_event_def find_row_None)
qed

lemma appended_backed:
  assumes a: "appended led led' e li cause rq new_id now v" and e: "get_evaluation (kl_evaluations led) (ke_id e) = Some e"
    and fresh: "fresh_event_id led (ke_entry e) new_id"
  shows "event_backed led' v"
proof -
  note D = appendedD [OF a] and frame = appended_frame [OF a]
  have li: "li_entry li = ke_entry e" using li_entry_locked [OF D(1)] by simp
  from D(2) obtain r where r: "get_run (kl_runs led) (ke_run_id e) = Some r" "kr_mode r = ApplyRun" "ke_complete e"
      "cause = ByTransition \<longrightarrow> kr_status r = RunApplying" by (auto simp: run_admits_def split: option.splits)
  from get_run_advance [OF frame(5) r(1)] obtain r' where r': "get_run (kl_runs led') (ke_run_id e) = Some r'" "run_step r r'" by blast
  have "if kv_kind v = TransitionEvent
         then kv_invalidated_run_id v = None \<and> kr_status r' \<in> {RunApplying, RunApplied, RunFailed, RunInvalidated}
         else \<exists>i. compensates led' v i"
  proof (cases cause)
    case ByTransition
    with D(4) r(4) run_step_applied(1) [OF r'(2)] show ?thesis by auto
  next
    case (ByCompensation i j)
    from D(3) obtain run where run: "get_run (kl_runs led) i = Some run" "kr_status run = RunInvalidated"
      unfolding ByCompensation compensated_run_ok_def by (auto simp: res_bind_eq_Inr ensure_eq read_run_def split: option.splits)
    from get_run_advance [OF frame(5) run(1)] obtain run' where run': "get_run (kl_runs led') i = Some run'" "run_step run run'" by blast
    from D(4,6) ByCompensation obtain x where x: "x \<in> set (kl_events led)" "kv_id x = j" "kv_entry x = ke_entry e" by auto
    have "kv_id x < new_id" using fresh x by (auto simp: fresh_event_id_def list_all_iff)
    with x run' run run_step_applied(2) D(4) ByCompensation li frame(6) have "compensates led' v i"
      unfolding compensates_def by auto
    with D(4) ByCompensation show ?thesis by auto
  qed
  with D(4,5) r r' e frame(1) li run_step_applied(3) [OF r'(2)] show ?thesis unfolding event_backed_def by auto
qed

lemma appended_ok:
  assumes a: "appended led led' e li cause rq new_id now v" and fresh: "fresh_event_id led (ke_entry e) new_id"
    and e: "get_evaluation (kl_evaluations led) (ke_id e) = Some e" and none: "replayed_event led e (ke_entry e) cause = None"
    and ok: "ledger_ok led"
  shows "ledger_ok led'"
proof -
  note frame = appended_frame [OF a]
  from ok have keyed: "ledger_keyed led" and hist: "\<And>k. history_ok led k" and uniq: "distinct (transition_evaluations led)" "distinct (compensation_keys led)"
    and backed: "\<And>x. x \<in> set (kl_events led) \<Longrightarrow> event_backed led x" and runs: "\<forall>r \<in> set (kl_runs led). run_ok r"
    and requests: "\<forall>q \<in> set (kl_requests led). request_ok q"
    unfolding ledger_ok_def by blast+
  have "ledger_keyed led'"
    using keyed frame runs_advance_distinct [OF frame(5)] appended_cache(2) [OF a keyed] appendedD(4) [OF a] fresh
    unfolding ledger_keyed_def by (auto simp: fresh_event_id_def list_all_iff)
  moreover have "event_backed led' x" if "x \<in> set (kl_events led')" for x
  proof (cases "x = v")
    case True
    then show ?thesis using appended_backed [OF a e fresh] by simp
  next
    case False
    with that frame(6) have "x \<in> set (kl_events led)" by simp
    from event_backed_advance [OF backed [OF this] frame(5), of "[]"] frame(1,6) show ?thesis by auto
  qed
  moreover have "\<forall>r \<in> set (kl_runs led'). run_ok r" by (rule runs_advance_ok [OF frame(5) runs])
  ultimately show ?thesis
    unfolding ledger_ok_def using appended_history_ok [OF a keyed fresh hist] appended_unique [OF a none uniq] requests frame(2) by auto
qed

lemma start_ok: "ledger_start led \<Longrightarrow> ledger_ok led"
  by (simp add: ledger_start_def ledger_ok_def ledger_keyed_def history_ok_def entry_history_def read_cache_def get_cache_def find_row_def
    project_events_def transition_evaluations_def compensation_keys_def)

lemma step_ok:
  assumes "ledger_ok led" and "ledger_step led led'"
  shows "ledger_ok led'"
  using assms(2)
proof (cases rule: step_cases)
  case quiet
  then show ?thesis using assms(1) by (rule quiet_ok)
next
  case (appended e li cause rq new_id now v)
  show ?thesis by (rule appended_ok [OF appended(1-4) assms(1)])
qed

interpretation lifecycle_ledger: invariant_system ledger_start ledger_step ledger_ok
  by unfold_locales (rule start_ok, assumption, rule step_ok)

section \<open>The cache and its replay\<close>

text \<open>C16: In any lifecycle ledger with one cache row per entry, \<open>cache_mismatches\<close> lists exactly the entries for
  which the cache differs from what \<open>replay_cache\<close> rebuilds from the events: an entry without a cache row, a
  cache row without events, or another state, reason, time, event or revision. Each is listed once, in the
  order of type and identifier.\<close>

theorem cache_mismatches_exact:
  assumes "distinct (map kc_entry (kl_cache led))"
  shows "set (cache_mismatches led) = {k. map_of (replay_cache led) k \<noteq> map_option cache_projection (read_cache led k)}
    \<and> distinct (cache_mismatches led) \<and> sorted (map key_order (cache_mismatches led))
    \<and> distinct (map fst (replay_cache led))"
  using set_cache_mismatches [of led] distinct_cache_mismatches [OF assms] distinct_replay
  by (simp add: cache_mismatches_def replay_cache_def Let_def)

text \<open>C6: In every reachable ledger, whatever runs, requests, evaluations, invalidations and edits of entries
  came before, the cache is the replay of the events and no mismatch is found; the revision of an entry is the
  number of its events, whose identifiers increase and whose states chain from one to the next; an evaluation
  has at most one transition, and an invalidated run compensates an entry at most once.\<close>

theorem lifecycle_cache_is_replay:
  assumes "reachable ledger_start ledger_step led"
  shows "cache_mismatches led = [] \<and>
    (\<forall>k. map_option cache_projection (read_cache led k) = map_of (replay_cache led) k \<and> chained None (events_for_entry led k) \<and>
      sorted_wrt (<) (map kv_id (events_for_entry led k)) \<and>
      (case read_cache led k of None \<Rightarrow> events_for_entry led k = []
       | Some c \<Rightarrow> kc_revision c = int (length (events_for_entry led k)) \<and> events_for_entry led k \<noteq> [] \<and>
           kc_state c = kv_to_state (last (events_for_entry led k)))) \<and>
    distinct (transition_evaluations led) \<and> distinct (compensation_keys led)"
proof -
  have ok: "ledger_ok led" using assms by (rule lifecycle_ledger.inv_reachable)
  have hist: "history_ok led k" for k using ok unfolding ledger_ok_def by blast
  have same: "events_for_entry led k = entry_history led k" for k
    using hist [of k] unfolding history_ok_def by (blast intro: events_for_entry_history)
  have proj: "map_option cache_projection (read_cache led k) = map_of (replay_cache led) k" for k
    using hist [of k] unfolding history_ok_def map_of_replay_cache same by blast
  then have "set (cache_mismatches led) = {}" unfolding set_cache_mismatches by simp
  moreover have "case read_cache led k of None \<Rightarrow> events_for_entry led k = []
       | Some c \<Rightarrow> kc_revision c = int (length (events_for_entry led k)) \<and> events_for_entry led k \<noteq> [] \<and>
           kc_state c = kv_to_state (last (events_for_entry led k))" for k
    using proj [of k] unfolding map_of_replay_cache
    by (cases "read_cache led k"; cases "events_for_entry led k = []") (auto simp: project_events_def cache_projection_def)
  ultimately show ?thesis using proj hist ok unfolding history_ok_def ledger_ok_def same by simp
qed

text \<open>C12: The history is append-only and every event is backed. A step keeps all events, evaluations, extractions
  and justifications and adds at most one event. The event is of a complete evaluation of the same entry and
  of an apply-mode run, starts from the cached state and raises its revision by one. A transition comes from a
  run that is applying and not invalidated, on the revision that its evaluation expects, and is the first of
  its evaluation; a compensation names an invalidated run and an earlier event of the entry.\<close>

theorem lifecycle_events_are_backed:
  assumes "reachable ledger_start ledger_step led" and "ledger_step led led'"
  shows "(\<exists>es xs js. kl_evaluations led' = kl_evaluations led @ es \<and> kl_extractions led' = kl_extractions led @ xs \<and>
      kl_justifications led' = kl_justifications led @ js) \<and>
    (kl_events led' = kl_events led \<and> kl_cache led' = kl_cache led \<or>
     (\<exists>v e r. kl_events led' = kl_events led @ [v] \<and> get_evaluation (kl_evaluations led) (kv_evaluation_id v) = Some e \<and>
       ke_entry e = kv_entry v \<and> ke_complete e \<and> get_run (kl_runs led) (ke_run_id e) = Some r \<and> kr_mode r = ApplyRun \<and>
       kv_from_state v = map_option kc_state (read_cache led (kv_entry v)) \<and>
       map_option kc_revision (read_cache led' (kv_entry v)) = Some (int (length (events_for_entry led (kv_entry v))) + 1) \<and>
       (if kv_kind v = TransitionEvent
        then kr_status r = RunApplying \<and> kr_invalidated_at r = None \<and> kv_evaluation_id v \<notin> set (transition_evaluations led) \<and>
          ke_expected_cache_revision e = int (length (events_for_entry led (kv_entry v)))
        else \<exists>i. compensates led' v i \<and> (Some i, kv_entry v) \<notin> set (compensation_keys led))))"
  using assms(2)
proof (cases rule: step_cases)
  case quiet
  then show ?thesis unfolding quiet_step_def by blast
next
  case (appended e li cause rq new_id now v)
  have ok: "ledger_ok led" using assms(1) by (rule lifecycle_ledger.inv_reachable)
  then have keyed: "ledger_keyed led" and hist: "history_ok led (ke_entry e)" unfolding ledger_ok_def by blast+
  note D = appendedD [OF appended(1)] and frame = appended_frame [OF appended(1)]
  have li: "li_entry li = ke_entry e" "li_cache li = read_cache led (ke_entry e)" using li_entry_locked [OF D(1)] by simp_all
  from D(2) obtain r where r: "get_run (kl_runs led) (ke_run_id e) = Some r" "kr_mode r = ApplyRun" "ke_complete e"
      "cause = ByTransition \<longrightarrow> kr_status r = RunApplying \<and> kr_invalidated_at r = None" by (auto simp: run_admits_def split: option.splits)
  have same: "events_for_entry led (ke_entry e) = entry_history led (ke_entry e)"
    using hist unfolding history_ok_def by (blast intro: events_for_entry_history)
  have rev: "li_revision li = int (length (events_for_entry led (ke_entry e)))"
    using hist unfolding same history_ok_def li_revision_def li(2)
    by (auto simp: project_events_def cache_projection_def split: option.splits if_splits)
  have cache: "map_option kc_revision (read_cache led' (kv_entry v)) = Some (int (length (events_for_entry led (kv_entry v))) + 1)"
    using appended_cache(1) [OF appended(1) keyed, of "ke_entry e"] rev frame(7) by (simp add: cache_of_event_def)
  have backed: "event_backed led' v" by (rule appended_backed [OF appended(1,3,2)])
  have "if kv_kind v = TransitionEvent
        then kr_status r = RunApplying \<and> kr_invalidated_at r = None \<and> kv_evaluation_id v \<notin> set (transition_evaluations led) \<and>
          ke_expected_cache_revision e = int (length (events_for_entry led (kv_entry v)))
        else \<exists>i. compensates led' v i \<and> (Some i, kv_entry v) \<notin> set (compensation_keys led)"
  proof (cases cause)
    case ByTransition
    with D(4) r(4) rev appended(4,5) frame(7) show ?thesis
      by (auto simp: replayed_event_def find_row_None transition_evaluations_def)
  next
    case (ByCompensation i j)
    with backed D(4) have "compensates led' v i" by (auto simp: event_backed_def compensates_def)
    moreover have "(Some i, kv_entry v) \<notin> set (compensation_keys led)"
      using appended(4) frame(7) ByCompensation by (auto simp: replayed_event_def find_row_None compensation_keys_def)
    ultimately show ?thesis using D(4) ByCompensation by auto
  qed
  moreover have "kv_evaluation_id v = ke_id e" "kv_from_state v = map_option kc_state (read_cache led (kv_entry v))"
    using D(4) li frame(7) by simp_all
  ultimately show ?thesis using frame(1,3,4,6,7) appended(3) r cache by auto
qed

text \<open>C18: A run keeps its identity, mode and scope; its status follows the edges of the protocol, an invalidated
  run stays invalidated, and its manifest digest is written only when the manifest is frozen. From then on no
  request is added to it; the content of a request never changes, and a stored result is final.\<close>

theorem lifecycle_runs_follow_protocol:
  assumes "ledger_step led led'" and "get_run (kl_runs led) i = Some r"
  shows "(\<exists>r'. get_run (kl_runs led') i = Some r' \<and> run_step r r' \<and> (kr_status r = RunInvalidated \<longrightarrow> kr_status r' = RunInvalidated)) \<and>
    (kr_status r \<noteq> RunCreated \<longrightarrow>
      map request_content (filter (\<lambda>q. kq_run_id q = i) (kl_requests led')) = map request_content (filter (\<lambda>q. kq_run_id q = i) (kl_requests led))) \<and>
    (\<forall>q \<in> set (kl_requests led). \<exists>q' \<in> set (kl_requests led'). request_step q q')"
proof -
  have advance: "runs_advance (kl_runs led) (kl_runs led') \<and> requests_advance (kl_runs led) (kl_requests led) (kl_requests led')"
    using assms(1)
  proof (cases rule: step_cases)
    case quiet
    then show ?thesis unfolding quiet_step_def by blast
  next
    case (appended e li cause rq new_id now v)
    from appended_frame(2,5) [OF appended(1)] show ?thesis by simp
  qed
  then have runs: "runs_advance (kl_runs led) (kl_runs led')" ..
  from get_run_advance [OF runs assms(2)] obtain r' where r': "get_run (kl_runs led') i = Some r'" "run_step r r'" by blast
  from advance obtain f new where qs: "kl_requests led' = map f (kl_requests led) @ new"
    and f: "\<forall>q \<in> set (kl_requests led). request_step q (f q)"
    and new: "\<forall>q \<in> set new. \<exists>r. get_run (kl_runs led) (kq_run_id q) = Some r \<and> kr_status r = RunCreated"
    unfolding requests_advance_def by blast
  have "\<forall>q \<in> set qs. request_step q (f q) \<Longrightarrow> map request_content (filter (\<lambda>q. kq_run_id q = i) (map f qs))
      = map request_content (filter (\<lambda>q. kq_run_id q = i) qs)" for qs
    by (induction qs) (auto simp: request_step_def request_content_def)
  note this [OF f]
  moreover have "kr_status r \<noteq> RunCreated \<Longrightarrow> filter (\<lambda>q. kq_run_id q = i) new = []"
    using new assms(2) by (force simp: filter_empty_conv)
  ultimately show ?thesis using r' run_step_applied(2) [OF r'(2)] qs f by auto
qed

section \<open>A run\<close>

definition demo_run :: "run_status \<Rightarrow> lifecycle_run" where
  "demo_run s = \<lparr>kr_run_id = ''r'', kr_mode = ApplyRun, kr_scope = [], kr_status = s,
     kr_manifest_digest = (if s = RunCreated then [] else ''d''), kr_batch_ids = [], kr_usage = [], kr_real_cost = None, kr_counts = [],
     kr_started_at = 0, kr_ended_at = None, kr_invalidated_at = None, kr_invalidation_reason = None\<rparr>"

definition demo_entry :: entry_row where
  "demo_entry = \<lparr>en_type = Learnings, en_id = ''e'', en_number = None, en_texts = [(''topic'', BText ''t'')], en_project_key = None,
     en_created_at = 5, en_content_updated_at = None, en_merged_into = None, en_freshness_status = None,
     en_freshness_status_updated_at = None, en_status = None, en_superseded_by = None\<rparr>"

definition demo_evaluation :: evaluation_row where
  "demo_evaluation = \<lparr>ke_id = 1, ke_run_id = ''r'', ke_entry = (Learnings, ''e''), ke_entry_digest = ''x'', ke_extraction_id = None,
     ke_expected_cache_revision = 0, ke_rules_version = [], ke_ranks_version = [], ke_registry_version = [], ke_origin_main_sha = [],
     ke_observed_day = 20000, ke_complete = True, ke_state = LRefuted, ke_reason = ''q'', ke_fingerprint = ''f''\<rparr>"

definition demo_ledger :: "lifecycle_run list \<Rightarrow> evaluation_row list \<Rightarrow> ledger" where
  "demo_ledger rs es = \<lparr>kl_runs = rs, kl_requests = [], kl_extractions = [], kl_evaluations = es, kl_justifications = [], kl_events = [],
     kl_cache = [], kl_entries = [demo_entry], kl_graph_entities = [], kl_graph_relations = []\<rparr>"

definition demo_inputs :: locked_inputs where
  "demo_inputs = \<lparr>li_entry = (Learnings, ''e''), li_inputs = entry_inputs_of (demo_ledger [] []) demo_entry, li_cache = None\<rparr>"

definition demo_request :: event_request where
  "demo_request = \<lparr>rq_to_state = LRefuted, rq_reason = ''q'', rq_valid_from = None, rq_valid_from_precision = UnknownDate\<rparr>"

definition demo_event :: lifecycle_event where
  "demo_event = new_event demo_inputs demo_evaluation ByTransition demo_request 7 9"

definition demo_applied :: ledger where
  "demo_applied = (demo_ledger [(demo_run RunApplying)\<lparr>kr_counts := [(''applied_events'', BNum 1 0)]\<rparr>] [demo_evaluation])
     \<lparr>kl_events := [demo_event], kl_cache := [cache_of_event demo_event 5 1]\<rparr>"

lemma demo_created: "create_run (demo_ledger [] []) ''r'' ''apply'' [] 0 = Inr (demo_ledger [demo_run RunCreated] [], demo_run RunCreated)"
  by code_simp

lemma demo_moves:
  "transition_run (demo_ledger [demo_run RunCreated] []) ''r'' ''created'' ''manifest_frozen'' None (Some ''d'') 1
     = Inr (demo_ledger [demo_run RunManifestFrozen] [], demo_run RunManifestFrozen)"
  "transition_run (demo_ledger [demo_run RunManifestFrozen] []) ''r'' ''manifest_frozen'' ''submitting'' None None 1
     = Inr (demo_ledger [demo_run RunSubmitting] [], demo_run RunSubmitting)"
  "transition_run (demo_ledger [demo_run RunSubmitting] []) ''r'' ''submitting'' ''submitted'' None None 1
     = Inr (demo_ledger [demo_run RunSubmitted] [], demo_run RunSubmitted)"
  "transition_run (demo_ledger [demo_run RunSubmitted] []) ''r'' ''submitted'' ''results_stored'' None None 1
     = Inr (demo_ledger [demo_run RunResultsStored] [], demo_run RunResultsStored)"
  "transition_run (demo_ledger [demo_run RunResultsStored] []) ''r'' ''results_stored'' ''evaluated'' None None 1
     = Inr (demo_ledger [demo_run RunEvaluated] [], demo_run RunEvaluated)"
  "transition_run (demo_ledger [demo_run RunEvaluated] []) ''r'' ''evaluated'' ''applying'' None None 1
     = Inr (demo_ledger [demo_run RunApplying] [], demo_run RunApplying)"
  by code_simp+

lemma demo_evaluated:
  "insert_evaluation (demo_ledger [demo_run RunApplying] []) demo_evaluation []
     = Inr (demo_ledger [demo_run RunApplying] [demo_evaluation], demo_evaluation)"
  by code_simp

lemma demo_transitioned:
  "append_transition (demo_ledger [demo_run RunApplying] [demo_evaluation]) 1 demo_inputs demo_request 7 9 = Inr (demo_applied, demo_event)"
  by code_simp

lemma demo_applying: "reachable ledger_start ledger_step (demo_ledger [demo_run RunApplying] [])"
proof -
  have "ledger_start (demo_ledger [] [])" by (simp add: ledger_start_def demo_ledger_def)
  then have "reachable ledger_start ledger_step (demo_ledger [] [])" by (rule reachable_start)
  from reachable_step [OF this created [OF demo_created]]
  have "reachable ledger_start ledger_step (demo_ledger [demo_run RunCreated] [])" .
  from reachable_step [OF this moved [OF demo_moves(1)]] have "reachable ledger_start ledger_step (demo_ledger [demo_run RunManifestFrozen] [])" .
  from reachable_step [OF this moved [OF demo_moves(2)]] have "reachable ledger_start ledger_step (demo_ledger [demo_run RunSubmitting] [])" .
  from reachable_step [OF this moved [OF demo_moves(3)]] have "reachable ledger_start ledger_step (demo_ledger [demo_run RunSubmitted] [])" .
  from reachable_step [OF this moved [OF demo_moves(4)]] have "reachable ledger_start ledger_step (demo_ledger [demo_run RunResultsStored] [])" .
  from reachable_step [OF this moved [OF demo_moves(5)]] have "reachable ledger_start ledger_step (demo_ledger [demo_run RunEvaluated] [])" .
  from reachable_step [OF this moved [OF demo_moves(6)]] show ?thesis .
qed

lemma demo_reachable: "reachable ledger_start ledger_step (demo_ledger [demo_run RunApplying] [demo_evaluation])"
proof -
  have "ledger_step (demo_ledger [demo_run RunApplying] []) (demo_ledger [demo_run RunApplying] [demo_evaluation])"
    by (rule evaluated [OF demo_evaluated]) (simp add: demo_ledger_def)
  with demo_applying show ?thesis by (rule reachable_step)
qed

lemma demo_step: "ledger_step (demo_ledger [demo_run RunApplying] [demo_evaluation]) demo_applied"
  by (rule transitioned [OF demo_transitioned]) (simp add: fresh_event_id_def demo_ledger_def)

theorem lifecycle_cache_is_replay_witness:
  "cache_mismatches demo_applied = [] \<and> map_of (replay_cache demo_applied) (Learnings, ''e'') = Some (cache_projection (cache_of_event demo_event 5 1))"
proof -
  have "read_cache demo_applied (Learnings, ''e'') = Some (cache_of_event demo_event 5 1)" by code_simp
  with lifecycle_cache_is_replay [OF reachable_step [OF demo_reachable demo_step]] show ?thesis
    by (metis option.simps(9))
qed

theorem lifecycle_events_are_backed_witness:
  "\<exists>v (e :: evaluation_row) r. kl_events demo_applied = kl_events (demo_ledger [demo_run RunApplying] [demo_evaluation]) @ [v] \<and> ke_complete e \<and>
     get_run (kl_runs (demo_ledger [demo_run RunApplying] [demo_evaluation])) (ke_run_id e) = Some r \<and> kr_mode r = ApplyRun"
proof -
  have "kl_events demo_applied \<noteq> kl_events (demo_ledger [demo_run RunApplying] [demo_evaluation])"
    by (simp add: demo_applied_def demo_ledger_def)
  with lifecycle_events_are_backed [OF demo_reachable demo_step, THEN conjunct2] show ?thesis
  proof (elim disjE conjE exE, goal_cases)
    case 1
    then show ?case by simp
  next
    case (2 v e r)
    then show ?case by (intro exI [of _ v] exI [of _ e] exI [of _ r] conjI)
  qed
qed

theorem lifecycle_runs_follow_protocol_witness:
  "\<exists>r'. get_run (kl_runs (demo_ledger [demo_run RunManifestFrozen] [])) ''r'' = Some r' \<and> run_step (demo_run RunCreated) r'"
proof -
  have "get_run (kl_runs (demo_ledger [demo_run RunCreated] [])) ''r'' = Some (demo_run RunCreated)"
    by (simp add: demo_ledger_def get_run_def find_row_def demo_run_def)
  from lifecycle_runs_follow_protocol [OF moved [OF demo_moves(1)] this] show ?thesis by blast
qed

theorem cache_mismatches_exact_witness:
  "set (cache_mismatches (demo_applied\<lparr>kl_cache := []\<rparr>)) \<noteq> {} \<and> distinct (cache_mismatches (demo_applied\<lparr>kl_cache := []\<rparr>))"
proof -
  have "map_of (replay_cache (demo_applied\<lparr>kl_cache := []\<rparr>)) (Learnings, ''e'') \<noteq> map_option cache_projection (read_cache (demo_applied\<lparr>kl_cache := []\<rparr>) (Learnings, ''e''))"
    by code_simp
  moreover have "distinct (map kc_entry (kl_cache (demo_applied\<lparr>kl_cache := []\<rparr>)))" by simp
  note cache_mismatches_exact [OF this]
  ultimately show ?thesis by auto
qed

end
