(* ===== verification/Knowledge_Apply.thy ===== *)
theory Knowledge_Apply
  imports Knowledge_Replay
begin

text \<open>
  The decisions that \<open>services/knowledge_lifecycle_pipeline.py\<close> writes to the ledger, with the encodings of
  \<open>services/knowledge_lifecycle_evidence.py\<close>: the evidence of a stored evaluation, the apply transaction of one
  entry and its loop, the baseline and the recomputed state of an entry, the compensation after an invalidation
  and the decision of a propagation.

  \<open>float_text\<close> is Python's text of a JSON number with a fraction. The gates, the clocks and the drawn
  identifiers are arguments. A stored rule outside the vocabulary is refused here, where the source would
  carry its text.
\<close>

section \<open>Encodings\<close>

datatype pipeline_error =
    LedgerError ledger_error | DecideError decide_error | WindowClosed | GateRefused string | MalformedMetadata | MalformedObservation

definition lift_ledger :: "(ledger_error, 'a) result \<Rightarrow> (pipeline_error, 'a) result" where
  "lift_ledger r = (case r of Inl e \<Rightarrow> Inl (LedgerError e) | Inr x \<Rightarrow> Inr x)"

definition apply_window_open :: "int \<Rightarrow> bool" where
  "apply_window_open time_of_day = (\<not> (50 * 60 * 1000000 \<le> time_of_day \<and> time_of_day < 4 * 3600 * 1000000))"

definition check_apply_window :: "instant \<Rightarrow> bool" where
  "check_apply_window clock_timestamp = apply_window_open (clock_timestamp mod 86400000000)"

definition chunk_window_open :: "instant \<Rightarrow> bool" where
  "chunk_window_open t =
     (let time_of_day = t mod 86400000000 in \<not> (45 * 60 * 1000000 \<le> time_of_day \<and> time_of_day < 4 * 3600 * 1000000))"

text \<open>\<open>json.dumps\<close> with sorted keys, compact separators and no ASCII escapes.\<close>

primrec dump_jsonb :: "(int \<Rightarrow> nat \<Rightarrow> utext) \<Rightarrow> jsonb \<Rightarrow> utext" where
  "dump_jsonb float_text BNull = codes ''null''"
| "dump_jsonb float_text (BBool b) = (if b then codes ''true'' else codes ''false'')"
| "dump_jsonb float_text (BNum m s) = (if s = 0 then codes (show_int m) else float_text m s)"
| "dump_jsonb float_text (BText t) = dump_str (codes t)"
| "dump_jsonb float_text (BArr xs) = [91] @ join [44] (map (dump_jsonb float_text) xs) @ [93]"
| "dump_jsonb float_text (BObj d) =
     [123] @ join [44] (map (\<lambda>(k, t). dump_str (codes k) @ [58] @ t) (sort_key fst (map (map_prod id (dump_jsonb float_text)) d))) @ [125]"

definition TEXT_LIMIT :: nat where
  "TEXT_LIMIT = 6000"

definition sent_text :: "utext \<Rightarrow> utext" where
  "sent_text t = (if TEXT_LIMIT < length t then take TEXT_LIMIT t @ codes ''[truncated]'' else t)"

definition entry_text :: "(int \<Rightarrow> nat \<Rightarrow> utext) \<Rightarrow> entry_inputs \<Rightarrow> utext" where
  "entry_text float_text row =
     dump_jsonb float_text (BObj (map (\<lambda>(f, v). (f, case v of None \<Rightarrow> BNull | Some j \<Rightarrow> j)) (ei_text_fields row)))"

definition entry_digest :: "(int \<Rightarrow> nat \<Rightarrow> utext) \<Rightarrow> entry_inputs \<Rightarrow> string" where
  "entry_digest float_text row = sha256_hex (utf8 (sent_text (entry_text float_text row)))"

definition optional_text :: "string option \<Rightarrow> jsonb" where
  "optional_text x = (case x of None \<Rightarrow> BNull | Some t \<Rightarrow> BText t)"

definition centrality_text :: "centrality \<Rightarrow> string" where
  "centrality_text c = (case c of Core \<Rightarrow> ''core'' | Incidental \<Rightarrow> ''incidental'')"

definition temporal_text :: "temporal \<Rightarrow> string" where
  "temporal_text t = (case t of Transient \<Rightarrow> ''transient'' | Durable \<Rightarrow> ''durable'')"

definition pack_observation :: "observation \<Rightarrow> justification_row" where
  "pack_observation ob =
     \<lparr>kj_id = 0, kj_evaluation_id = 0, kj_entry = (Decisions, []), kj_assertion_key = ob_assertion_key ob, kj_polarity = ob_polarity ob,
      kj_source_kind = ob_source_kind ob, kj_source_rank = ob_source_rank ob, kj_source_ref = ob_source_ref ob,
      kj_observed_value = BObj [(''value'', optional_text (ob_observed_value ob)), (''observation_id'', BText (ob_id ob)),
        (''centrality'', optional_text (map_option centrality_text (ob_centrality ob))),
        (''temporal'', optional_text (map_option temporal_text (ob_temporal ob))),
        (''rule'', optional_text (map_option rule_text (ob_rule ob))),
        (''propagated_from'', optional_text (ob_propagated_from ob))],
      kj_valid_from = ob_valid_from ob, kj_valid_from_precision = ob_valid_from_precision ob\<rparr>"

text \<open>A member that is absent, null or the empty text is no value; another text must be in the vocabulary.\<close>

definition vocabulary_value :: "('a \<Rightarrow> string) \<Rightarrow> 'a list \<Rightarrow> jsonb option \<Rightarrow> (pipeline_error, 'a option) result" where
  "vocabulary_value show_value xs j = (case j of
       None \<Rightarrow> Inr None
     | Some BNull \<Rightarrow> Inr None
     | Some (BText t) \<Rightarrow>
         if t = [] then Inr None
         else (case List.find (\<lambda>x. show_value x = t) xs of None \<Rightarrow> Inl MalformedObservation | Some x \<Rightarrow> Inr (Some x))
     | Some _ \<Rightarrow> Inl MalformedObservation)"

definition text_value :: "jsonb option \<Rightarrow> (pipeline_error, string option) result" where
  "text_value j = (case j of None \<Rightarrow> Inr None | Some BNull \<Rightarrow> Inr None | Some (BText t) \<Rightarrow> Inr (Some t) | Some _ \<Rightarrow> Inl MalformedObservation)"

text \<open>An observed integer is kept as its decimal text.\<close>

definition observed_value_of :: "jsonb \<Rightarrow> (pipeline_error, string option) result" where
  "observed_value_of j = (case j of
       BNull \<Rightarrow> Inr None | BText t \<Rightarrow> Inr (Some t) | BNum m 0 \<Rightarrow> Inr (Some (show_int m)) | _ \<Rightarrow> Inl MalformedObservation)"

definition observation_id_of :: "int \<Rightarrow> jsonb option \<Rightarrow> (pipeline_error, string) result" where
  "observation_id_of row_id j = (case j of
       None \<Rightarrow> Inr (show_int row_id)
     | Some BNull \<Rightarrow> Inr ''None''
     | Some (BText t) \<Rightarrow> Inr t
     | Some (BNum m 0) \<Rightarrow> Inr (show_int m)
     | Some _ \<Rightarrow> Inl MalformedObservation)"

definition unpack_observation :: "justification_row \<Rightarrow> (pipeline_error, observation) result" where
  "unpack_observation j =
     (let metadata = (case kj_observed_value j of BObj d \<Rightarrow> d | _ \<Rightarrow> []) in
      res_bind (observation_id_of (kj_id j) (map_of metadata ''observation_id'')) (\<lambda>oid.
      res_bind (vocabulary_value centrality_text [Core, Incidental] (map_of metadata ''centrality'')) (\<lambda>centrality.
      res_bind (vocabulary_value temporal_text [Transient, Durable] (map_of metadata ''temporal'')) (\<lambda>temporal.
      res_bind (vocabulary_value rule_text [RMerged, RSupersededDecision, RSupersededAdr, RDeprecatedAdr, RDecayArchived]
        (map_of metadata ''rule'')) (\<lambda>rule.
      res_bind (text_value (map_of metadata ''propagated_from'')) (\<lambda>propagated_from.
      res_bind (observed_value_of (case map_of metadata ''value'' of None \<Rightarrow> kj_observed_value j | Some v \<Rightarrow> v)) (\<lambda>observed.
      Inr \<lparr>ob_id = oid, ob_assertion_key = kj_assertion_key j, ob_polarity = kj_polarity j,
        ob_source_kind = kj_source_kind j, ob_source_rank = kj_source_rank j, ob_source_ref = kj_source_ref j, ob_centrality = centrality,
        ob_temporal = temporal, ob_valid_from = kj_valid_from j, ob_valid_from_precision = kj_valid_from_precision j, ob_rule = rule,
        ob_propagated_from = propagated_from, ob_observed_value = observed\<rparr>)))))))"

definition successor_text :: "successor \<Rightarrow> string" where
  "successor_text s = (case s of SuccessorId i \<Rightarrow> i | SuccessorNumber n \<Rightarrow> show_int n)"

definition structural_row_of :: "entry_inputs \<Rightarrow> structural_row" where
  "structural_row_of row =
     \<lparr>sr_id = snd (ei_entry row), sr_merged_into = ei_merged_into row, sr_status = ei_status row,
      sr_superseded_by = map_option successor_text (ei_superseded_by row), sr_successor_exists = ei_successor_exists row,
      sr_successor_created_at = map_option AtDatetime (ei_successor_created_at row), sr_freshness_status = ei_freshness_status row,
      sr_freshness_status_updated_at = map_option AtDatetime (ei_freshness_status_updated_at row)\<rparr>"

definition entry_structure :: "entry_inputs \<Rightarrow> observation list" where
  "entry_structure row = structural_observations (entry_type_text (fst (ei_entry row))) (structural_row_of row)"

definition structural_signature :: "observation list \<Rightarrow> jsonb" where
  "structural_signature obs = BArr (map BText (sort (map ob_id obs)))"

text \<open>\<open>str\<close> of a time separates the date by a space.\<close>

definition datetime_text :: "instant \<Rightarrow> string" where
  "datetime_text t = map (\<lambda>c. if c = CHR ''T'' then CHR '' '' else c) (isoformat_utc t)"

definition structural_inputs :: "entry_inputs \<Rightarrow> jobject" where
  "structural_inputs row =
     [(''project_key'', optional_text (ei_entry_project_key row)), (''status'', optional_text (ei_status row)),
      (''merged_into'', optional_text (ei_merged_into row)),
      (''superseded_by'', optional_text (map_option successor_text (ei_superseded_by row))),
      (''freshness_status'', optional_text (ei_freshness_status row)),
      (''freshness_status_updated_at'', optional_text (map_option datetime_text (ei_freshness_status_updated_at row))),
      (''successor_exists'', BText (if ei_successor_exists row then ''True'' else ''False'')),
      (''successor_created_at'', optional_text (map_option datetime_text (ei_successor_created_at row)))]"

section \<open>Evidence\<close>

definition evidence :: "ledger \<Rightarrow> evaluation_row \<Rightarrow> (pipeline_error, decision \<times> observation list) result" where
  "evidence led e =
     res_bind (res_map unpack_observation (read_justifications led (ke_id e))) (\<lambda>obs.
     case decide obs (ke_observed_day e) of
       Inl err \<Rightarrow> Inl (DecideError err)
     | Inr d \<Rightarrow> Inr (d\<lparr>de_state := ke_state e, de_reason := ke_reason e\<rparr>, obs))"

definition evaluation_record_of :: "entry_evaluation \<Rightarrow> decision \<Rightarrow> evaluation_record" where
  "evaluation_record_of ev d =
     (let e = ee_evaluation ev in
      \<lparr>er_observed_day = ke_observed_day e, er_entry_digest = ke_entry_digest e, er_fingerprint = ke_fingerprint e,
       er_complete = ke_complete e, er_invalidated = ee_invalidated ev, er_layer = de_layer d\<rparr>)"

definition evaluation_history :: "ledger \<Rightarrow> entry_key \<Rightarrow> (pipeline_error, (entry_evaluation \<times> decision \<times> evaluation_record) list) result" where
  "evaluation_history led k =
     res_map (\<lambda>ev. res_bind (evidence led (ee_evaluation ev)) (\<lambda>(d, _). Inr (ev, d, evaluation_record_of ev d))) (evaluations_for_entry led k)"

definition prior_records :: "(entry_evaluation \<times> decision \<times> evaluation_record) list \<Rightarrow> int \<Rightarrow> evaluation_record list" where
  "prior_records hist i = map (\<lambda>(_, _, r). r) (filter (\<lambda>(ev, _, _). ke_id (ee_evaluation ev) < i) hist)"

definition run_evaluations :: "ledger \<Rightarrow> string \<Rightarrow> entry_evaluation list" where
  "run_evaluations led run_id =
     sort_key (\<lambda>ev. ke_id (ee_evaluation ev)) (concat (map (\<lambda>k. filter (\<lambda>ev. ke_run_id (ee_evaluation ev) = run_id) (evaluations_for_entry led k))
       (entries_for_run led run_id)))"

definition event_values :: "decision \<Rightarrow> event_request" where
  "event_values d = \<lparr>rq_to_state = de_state d, rq_reason = de_reason d, rq_valid_from = de_end_date d,
     rq_valid_from_precision = (case de_end_date_precision d of None \<Rightarrow> UnknownDate | Some p \<Rightarrow> p)\<rparr>"

section \<open>Applying an evaluation\<close>

definition deferred_key :: "entry_key \<Rightarrow> string" where
  "deferred_key k = entry_type_text (fst k) @ '':'' @ snd k"

definition undefer :: "ledger \<Rightarrow> string \<Rightarrow> entry_key \<Rightarrow> (pipeline_error, ledger) result" where
  "undefer led run_id k = lift_ledger (set_count_key led run_id ''deferred'' (deferred_key k) None)"

definition defer_entry :: "ledger \<Rightarrow> string \<Rightarrow> entry_key \<Rightarrow> string \<Rightarrow> (pipeline_error, ledger) result" where
  "defer_entry led run_id k cause = lift_ledger (set_count_key led run_id ''deferred'' (deferred_key k) (Some (BText cause)))"

definition entry_snapshot :: "entry_inputs \<Rightarrow> jsonb" where
  "entry_snapshot row = BObj [(''structure'', structural_signature (entry_structure row)), (''structural_inputs'', BObj (structural_inputs row)),
     (''content_updated_at'', BText (isoformat_utc (ei_content_updated_at row)))]"

definition save_snapshot :: "ledger \<Rightarrow> string \<Rightarrow> int \<Rightarrow> entry_inputs \<Rightarrow> (pipeline_error, ledger) result" where
  "save_snapshot led run_id evaluation_id row =
     lift_ledger (set_count_key led run_id ''snapshots'' (show_int evaluation_id) (Some (entry_snapshot row)))"

definition json_member :: "jsonb \<Rightarrow> string \<Rightarrow> (pipeline_error, jsonb) result" where
  "json_member j key = (case j of
       BObj d \<Rightarrow> (case map_of d key of None \<Rightarrow> Inl MalformedMetadata | Some v \<Rightarrow> Inr v)
     | _ \<Rightarrow> Inl MalformedMetadata)"

definition saved_snapshot :: "lifecycle_run \<Rightarrow> int \<Rightarrow> (pipeline_error, jsonb option) result" where
  "saved_snapshot run evaluation_id = (case map_of (kr_counts run) ''snapshots'' of
       None \<Rightarrow> Inr None
     | Some (BObj d) \<Rightarrow> Inr (case map_of d (show_int evaluation_id) of None \<Rightarrow> None | Some BNull \<Rightarrow> None | Some s \<Rightarrow> Some s)
     | Some _ \<Rightarrow> Inl MalformedMetadata)"

definition stale_inputs ::
    "(int \<Rightarrow> nat \<Rightarrow> utext) \<Rightarrow> jsonb option \<Rightarrow> evaluation_row \<Rightarrow> locked_inputs \<Rightarrow> (pipeline_error, bool) result" where
  "stale_inputs float_text snapshot e inputs =
     (let row = li_inputs inputs in case snapshot of
        None \<Rightarrow> Inr True
      | Some s \<Rightarrow>
          if entry_digest float_text row \<noteq> ke_entry_digest e then Inr True
          else res_bind (json_member s ''structure'') (\<lambda>structure.
            if \<not> python_equal (structural_signature (entry_structure row)) structure then Inr True
            else res_bind (json_member s ''structural_inputs'') (\<lambda>saved.
            if \<not> python_equal (BObj (structural_inputs row)) saved then Inr True
            else res_bind (json_member s ''content_updated_at'') (\<lambda>at.
            Inr (\<not> python_equal (BText (isoformat_utc (ei_content_updated_at row))) at \<or> li_revision inputs \<noteq> ke_expected_cache_revision e)))))"

definition cache_shows :: "cache_row option \<Rightarrow> decision \<Rightarrow> bool" where
  "cache_shows c d = (case c of None \<Rightarrow> False | Some c \<Rightarrow> kc_state c = de_state d \<and> kc_reason c = de_reason d)"

definition apply_confirmed ::
    "(int \<Rightarrow> nat \<Rightarrow> utext) \<Rightarrow> ledger \<Rightarrow> lifecycle_run \<Rightarrow> evaluation_row \<Rightarrow> decision \<Rightarrow> int \<Rightarrow> instant \<Rightarrow> instant \<Rightarrow> (pipeline_error, ledger) result" where
  "apply_confirmed float_text led run e decision new_id now commit_time =
     res_bind (lift_ledger (lock_apply_inputs led (ke_entry e))) (\<lambda>inputs.
     res_bind (saved_snapshot run (ke_id e)) (\<lambda>snapshot.
     res_bind (stale_inputs float_text snapshot e inputs) (\<lambda>stale.
     if stale then Inl (LedgerError StaleAtApply)
     else if cache_shows (li_cache inputs) decision then undefer led (kr_run_id run) (ke_entry e)
     else res_bind (lift_ledger (append_transition led (ke_id e) inputs (event_values decision) new_id now)) (\<lambda>(led1, v).
       res_bind (undefer led1 (kr_run_id run) (ke_entry e)) (\<lambda>led2.
       if check_apply_window commit_time then Inr led2 else Inl WindowClosed)))))"

definition apply_evaluation ::
    "(int \<Rightarrow> nat \<Rightarrow> utext) \<Rightarrow> ledger \<Rightarrow> lifecycle_run \<Rightarrow> entry_evaluation \<Rightarrow> int \<Rightarrow> instant \<Rightarrow> instant \<Rightarrow> (pipeline_error, ledger) result" where
  "apply_evaluation float_text led run ev new_id now commit_time =
     (let e = ee_evaluation ev; k = ke_entry e in
      if list_ex (\<lambda>v. kv_evaluation_id v = ke_id e \<and> kv_kind v = TransitionEvent) (events_for_entry led k)
      then undefer led (kr_run_id run) k
      else res_bind (evidence led e) (\<lambda>(decision, _).
        res_bind (evaluation_history led k) (\<lambda>hist.
        if \<not> ke_complete e \<or> \<not> confirmed (prior_records hist (ke_id e)) (evaluation_record_of ev decision) then Inr led
        else apply_confirmed float_text led run e decision new_id now commit_time)))"

text \<open>A stale entry, or one whose transaction met a lock timeout or a cancellation (\<open>contention\<close>, the SQLSTATE),
  is deferred in a transaction of its own and the loop goes on; a closed window ends it.\<close>

definition apply_or_defer ::
    "(int \<Rightarrow> nat \<Rightarrow> utext) \<Rightarrow> ledger \<Rightarrow> lifecycle_run \<Rightarrow> entry_evaluation \<Rightarrow> int \<Rightarrow> instant \<Rightarrow> instant \<Rightarrow> string option
     \<Rightarrow> (pipeline_error, ledger \<times> bool) result" where
  "apply_or_defer float_text led run ev new_id now commit_time contention =
     (let deferred = (\<lambda>cause. res_bind (defer_entry led (kr_run_id run) (ke_entry (ee_evaluation ev)) cause) (\<lambda>led'. Inr (led', True))) in
      case contention of
        Some sqlstate \<Rightarrow> deferred sqlstate
      | None \<Rightarrow>
          (case apply_evaluation float_text led run ev new_id now commit_time of
             Inr led' \<Rightarrow> Inr (led', True)
           | Inl WindowClosed \<Rightarrow> Inr (led, False)
           | Inl (LedgerError err) \<Rightarrow>
               if err \<in> {StaleAtApply, EntryMissing, EvaluationEntryMismatch} then deferred ''stale_at_apply'' else Inl (LedgerError err)
           | Inl err \<Rightarrow> Inl err))"

record apply_work =
  aw_evaluation :: entry_evaluation
  aw_new_id :: int
  aw_now :: instant
  aw_commit_time :: instant
  aw_contention :: "string option"

record apply_chunk =
  ac_refusal :: string
  ac_clock :: instant
  ac_works :: "apply_work list"

fun apply_works :: "(int \<Rightarrow> nat \<Rightarrow> utext) \<Rightarrow> lifecycle_run \<Rightarrow> apply_work list \<Rightarrow> ledger \<Rightarrow> (pipeline_error, ledger \<times> bool) result" where
  "apply_works float_text run [] led = Inr (led, True)"
| "apply_works float_text run (w # ws) led =
     res_bind (apply_or_defer float_text led run (aw_evaluation w) (aw_new_id w) (aw_now w) (aw_commit_time w) (aw_contention w)) (\<lambda>(led', go_on).
     if go_on then apply_works float_text run ws led' else Inr (led', False))"

fun apply_chunks :: "(int \<Rightarrow> nat \<Rightarrow> utext) \<Rightarrow> lifecycle_run \<Rightarrow> apply_chunk list \<Rightarrow> ledger \<Rightarrow> (pipeline_error, ledger \<times> bool) result" where
  "apply_chunks float_text run [] led = Inr (led, True)"
| "apply_chunks float_text run (c # cs) led =
     (if ac_refusal c \<noteq> [] then Inl (GateRefused (ac_refusal c))
      else if \<not> chunk_window_open (ac_clock c) then Inr (led, False)
      else res_bind (apply_works float_text run (ac_works c) led) (\<lambda>(led', go_on).
        if go_on then apply_chunks float_text run cs led' else Inr (led', False)))"

section \<open>Baselines and compensation\<close>

definition ENDING :: "lifecycle_state list" where
  "ENDING = [LObsolete, LRefuted]"

definition default_decision :: decision where
  "default_decision = plain_decision LValid ''declaration_only'' [] CheckLayer"

fun baseline_loop :: "ledger \<Rightarrow> entry_evaluation list \<Rightarrow> lifecycle_event list \<Rightarrow> (pipeline_error, decision) result" where
  "baseline_loop led evs [] = Inr default_decision"
| "baseline_loop led evs (v # vs) =
     (case find_row (\<lambda>ev. ke_id (ee_evaluation ev) = kv_evaluation_id v) evs of
        None \<Rightarrow> Inl (LedgerError MissingKey)
      | Some ev \<Rightarrow>
          if kv_kind v = TransitionEvent \<and> ee_invalidated ev then baseline_loop led evs vs
          else res_bind (evidence led (ee_evaluation ev)) (\<lambda>(d, _).
            if de_layer d \<noteq> PropagationLayer
            then Inr \<lparr>de_state = kv_to_state v, de_reason = kv_reason v, de_observation_ids = [], de_end_date = kv_valid_from v,
              de_end_date_precision = Some (kv_valid_from_precision v), de_layer = CheckLayer\<rparr>
            else baseline_loop led evs vs))"

definition baseline :: "ledger \<Rightarrow> entry_key \<Rightarrow> (pipeline_error, decision) result" where
  "baseline led k = baseline_loop led (evaluations_for_entry led k) (rev (events_for_entry led k))"

text \<open>The recomputed state replays the confirmed evaluations of apply runs that took effect.\<close>

definition is_deferred :: "jobject \<Rightarrow> string \<Rightarrow> (pipeline_error, bool) result" where
  "is_deferred counts key = (case map_of counts ''deferred'' of
       None \<Rightarrow> Inr False
     | Some (BObj d) \<Rightarrow> Inr (key \<in> fst ` set d)
     | Some (BArr xs) \<Rightarrow> Inr (BText key \<in> set xs)
     | Some _ \<Rightarrow> Inl MalformedMetadata)"

definition took_effect :: "ledger \<Rightarrow> entry_key \<Rightarrow> int list \<Rightarrow> entry_evaluation \<Rightarrow> (pipeline_error, bool) result" where
  "took_effect led k applied ev =
     res_bind (lift_ledger (read_run led (ke_run_id (ee_evaluation ev)))) (\<lambda>run.
     res_bind (is_deferred (kr_counts run) (deferred_key k)) (\<lambda>deferred.
     Inr (ke_id (ee_evaluation ev) \<in> set applied \<or> (ee_run_status ev = RunApplied \<and> \<not> deferred))))"

fun recompute_loop ::
    "ledger \<Rightarrow> entry_key \<Rightarrow> int list \<Rightarrow> (entry_evaluation \<times> decision \<times> evaluation_record) list \<Rightarrow> evaluation_record list
     \<Rightarrow> decision \<times> string option \<Rightarrow> (pipeline_error, decision \<times> string option) result" where
  "recompute_loop led k applied [] history best = Inr best"
| "recompute_loop led k applied ((ev, d, r) # rest) history best =
     (if ee_mode ev = ApplyRun \<and> de_layer d \<noteq> PropagationLayer \<and> confirmed history r \<and> ke_complete (ee_evaluation ev) \<and> \<not> ee_invalidated ev
      then res_bind (took_effect led k applied ev) (\<lambda>effective.
        recompute_loop led k applied rest (history @ [r]) (if effective then (d, Some (ke_entry_digest (ee_evaluation ev))) else best))
      else recompute_loop led k applied rest (history @ [r]) best)"

definition recomputed :: "(int \<Rightarrow> nat \<Rightarrow> utext) \<Rightarrow> ledger \<Rightarrow> entry_key \<Rightarrow> (pipeline_error, decision) result" where
  "recomputed float_text led k =
     res_bind (lift_ledger (lock_apply_inputs led k)) (\<lambda>inputs.
     let applied = map kv_evaluation_id (filter (\<lambda>v. kv_kind v = TransitionEvent) (events_for_entry led k)) in
     res_bind (evaluation_history led k) (\<lambda>hist.
     res_bind (recompute_loop led k applied hist [] (default_decision, None)) (\<lambda>(d, digest).
     if digest \<noteq> None \<and> digest \<noteq> Some (entry_digest float_text (li_inputs inputs)) then Inl (LedgerError StaleAtApply) else Inr d)))"

definition same_inputs :: "locked_inputs option \<Rightarrow> locked_inputs \<Rightarrow> bool" where
  "same_inputs expected inputs = (case expected of
       None \<Rightarrow> True | Some x \<Rightarrow> li_inputs inputs = li_inputs x \<and> li_revision inputs = li_revision x)"

definition write_compensation ::
    "(int \<Rightarrow> nat \<Rightarrow> utext) \<Rightarrow> ledger \<Rightarrow> string \<Rightarrow> entry_key \<Rightarrow> locked_inputs \<Rightarrow> cache_row \<Rightarrow> decision \<Rightarrow> int \<Rightarrow> instant \<Rightarrow> instant
     \<Rightarrow> (pipeline_error, ledger) result" where
  "write_compensation float_text led run_id k inputs cached decision new_id now commit_time =
     (case find_row (\<lambda>v. kv_id v = kc_event_id cached) (events_for_entry led k) of
        None \<Rightarrow> Inl (LedgerError AssertionFailed)
      | Some latest \<Rightarrow>
          res_bind (lift_ledger (read_evaluation led (kv_evaluation_id latest))) (\<lambda>e.
          if ke_entry_digest e \<noteq> entry_digest float_text (li_inputs inputs) then Inl (LedgerError StaleAtApply)
          else res_bind (lift_ledger (append_compensation led (kv_evaluation_id latest) inputs run_id (kv_id latest) (li_revision inputs)
              (event_values decision) new_id now)) (\<lambda>(led1, v).
            res_bind (undefer led1 run_id k) (\<lambda>led2.
            if check_apply_window commit_time then Inr led2 else Inl WindowClosed))))"

definition compensate ::
    "(int \<Rightarrow> nat \<Rightarrow> utext) \<Rightarrow> ledger \<Rightarrow> string \<Rightarrow> entry_key \<Rightarrow> decision option \<Rightarrow> locked_inputs option \<Rightarrow> int \<Rightarrow> instant \<Rightarrow> instant
     \<Rightarrow> (pipeline_error, ledger) result" where
  "compensate float_text led run_id k propagated expected new_id now commit_time =
     res_bind (lift_ledger (lock_apply_inputs led k)) (\<lambda>inputs.
     if \<not> same_inputs expected inputs then Inl (LedgerError StaleAtApply)
     else case li_cache inputs of
       None \<Rightarrow> Inr led
     | Some cached \<Rightarrow>
         if list_ex (\<lambda>v. kv_invalidated_run_id v = Some run_id) (events_for_entry led k) then undefer led run_id k
         else res_bind (case propagated of Some d \<Rightarrow> Inr d | None \<Rightarrow> recomputed float_text led k) (\<lambda>decision.
           if cache_shows (Some cached) decision then undefer led run_id k
           else write_compensation float_text led run_id k inputs cached decision new_id now commit_time))"

section \<open>Propagation\<close>

definition propagation_order :: "entry_key \<Rightarrow> string \<times> string" where
  "propagation_order k = (entry_type_text (fst k), snd k)"

definition parent_observation :: "entry_key \<Rightarrow> observation" where
  "parent_observation p =
     (let ref = entry_type_text (fst p) @ '':'' @ snd p in
      \<lparr>ob_id = ''propagation:'' @ ref, ob_assertion_key = Some (''propagation:'' @ ref), ob_polarity = Contradicts,
       ob_source_kind = ''propagation'', ob_source_rank = 2, ob_source_ref = ref, ob_centrality = Some Incidental, ob_temporal = Some Durable,
       ob_valid_from = None, ob_valid_from_precision = UnknownDate, ob_rule = None, ob_propagated_from = Some (snd p),
       ob_observed_value = None\<rparr>)"

definition lift_observation :: "entry_key \<Rightarrow> observation" where
  "lift_observation k =
     \<lparr>ob_id = ''propagation:lift:'' @ snd k, ob_assertion_key = None, ob_polarity = NoPolarity, ob_source_kind = ''propagation'',
      ob_source_rank = 2, ob_source_ref = ''applied_parent_states'', ob_centrality = None, ob_temporal = None, ob_valid_from = None,
      ob_valid_from_precision = UnknownDate, ob_rule = None, ob_propagated_from = Some (snd k), ob_observed_value = None\<rparr>"

definition propagation_observations :: "entry_key \<Rightarrow> entry_key list \<Rightarrow> observation list" where
  "propagation_observations k parents =
     (if parents = [] then [lift_observation k] else map parent_observation (sort_key propagation_order parents))"

definition propagation_decision ::
    "(int \<Rightarrow> nat \<Rightarrow> utext) \<Rightarrow> ledger \<Rightarrow> entry_key \<Rightarrow> entry_key list \<Rightarrow> day \<Rightarrow> bool \<Rightarrow> (pipeline_error, decision option) result" where
  "propagation_decision float_text led k parents today invalidating =
     res_bind (baseline led k) (\<lambda>first.
     if de_state first \<in> set ENDING then Inr None
     else res_bind (if invalidating then recomputed float_text led k else Inr first) (\<lambda>base.
     if de_state base \<in> set ENDING then Inr None
     else case decide (propagation_observations k parents) today of
         Inl err \<Rightarrow> Inl (DecideError err)
       | Inr d \<Rightarrow> Inr (Some (if de_state d = LValid then base\<lparr>de_layer := PropagationLayer\<rparr> else d))))"

end
