(* ===== verification/Knowledge_Guarantees.thy ===== *)
theory Knowledge_Guarantees
  imports Knowledge_Apply
begin

text \<open>
  What the writes of the pipeline guarantee: an applied state is the confirmed decision of a complete
  evaluation of the present text of the entry, a compensation leaves the recomputed state, a propagation never
  ends an entry, and stored evidence is decided as it was observed.
\<close>

section \<open>Stored evidence\<close>

lemma vocabulary_value_pack:
  assumes "x = None \<or> (\<exists>a \<in> set xs. x = Some a)" and "\<And>a. a \<in> set xs \<Longrightarrow> show_value a \<noteq> []" and "inj_on show_value (set xs)"
  shows "vocabulary_value show_value xs (Some (optional_text (map_option show_value x))) = Inr x"
proof (cases x)
  case None
  then show ?thesis by (simp add: vocabulary_value_def optional_text_def)
next
  case (Some a)
  with assms(1) have a: "a \<in> set xs" by auto
  have "List.find (\<lambda>y. show_value y = show_value a) xs = Some a"
  proof (cases "List.find (\<lambda>y. show_value y = show_value a) xs")
    case None
    with a show ?thesis by (auto simp: find_None_iff)
  next
    case (Some b)
    then have "b \<in> set xs" "show_value b = show_value a" by (auto simp: find_Some_iff)
    with assms(3) a Some show ?thesis by (auto simp: inj_on_def)
  qed
  with Some a assms(2) show ?thesis by (simp add: vocabulary_value_def optional_text_def)
qed

lemma unpack_pack: "unpack_observation ((pack_observation ob)\<lparr>kj_id := i, kj_evaluation_id := n, kj_entry := k\<rparr>) = Inr ob"
proof -
  let ?xs = "[RMerged, RSupersededDecision, RSupersededAdr, RDeprecatedAdr, RDecayArchived]"
  have c: "vocabulary_value centrality_text [Core, Incidental] (Some (optional_text (map_option centrality_text (ob_centrality ob)))) = Inr (ob_centrality ob)"
    by (rule vocabulary_value_pack) (cases "ob_centrality ob", simp, metis centrality.exhaust list.set_intros option.exhaust set_ConsD,
      auto simp: centrality_text_def inj_on_def split: centrality.splits)
  have t: "vocabulary_value temporal_text [Transient, Durable] (Some (optional_text (map_option temporal_text (ob_temporal ob)))) = Inr (ob_temporal ob)"
    by (rule vocabulary_value_pack) (cases "ob_temporal ob", simp, metis temporal.exhaust list.set_intros option.exhaust set_ConsD,
      auto simp: temporal_text_def inj_on_def split: temporal.splits)
  have r: "vocabulary_value rule_text ?xs (Some (optional_text (map_option rule_text (ob_rule ob)))) = Inr (ob_rule ob)"
  proof (rule vocabulary_value_pack)
    show "ob_rule ob = None \<or> (\<exists>a \<in> set ?xs. ob_rule ob = Some a)"
    proof (cases "ob_rule ob")
      case (Some a)
      then show ?thesis by (cases a) auto
    qed simp
    show "\<And>a. a \<in> set ?xs \<Longrightarrow> rule_text a \<noteq> []" by (auto simp: rule_text_def)
    show "inj_on rule_text (set ?xs)" by (auto simp: inj_on_def rule_text_def split: structural_rule.splits)
  qed
  have p: "text_value (Some (optional_text x)) = Inr x" "observed_value_of (optional_text x) = Inr x" for x
    by (cases x; simp add: text_value_def observed_value_of_def optional_text_def)+
  show ?thesis using c t r p
    by (simp add: unpack_observation_def pack_observation_def observation_id_of_def)
qed

definition stored_row :: "evaluation_row \<Rightarrow> justification_row \<Rightarrow> justification_row" where
  "stored_row e j = j\<lparr>kj_evaluation_id := ke_id e, kj_entry := ke_entry e\<rparr>"

lemma insert_justifications_rows:
  "res_fold (insert_justification e) js rows = Inr rows' \<Longrightarrow> rows' = rows @ map (stored_row e) js"
proof (induction js arbitrary: rows)
  case (Cons j js)
  then obtain rows1 where one: "insert_justification e j rows = Inr rows1" "res_fold (insert_justification e) js rows1 = Inr rows'"
    by (auto simp: res_bind_eq_Inr)
  from one(1) have "rows1 = rows @ [stored_row e j]" by (auto simp: insert_justification_def stored_row_def Let_def split: if_splits)
  with Cons.IH [OF one(2)] show ?case by simp
qed simp

lemma res_map_unpack:
  "length ids = length obs \<Longrightarrow>
   res_map unpack_observation (map (stored_row e) (map2 (\<lambda>i ob. (pack_observation ob)\<lparr>kj_id := i\<rparr>) ids obs)) = Inr obs"
proof (induction ids obs rule: list_induct2)
  case (Cons i ids ob obs)
  have "unpack_observation (stored_row e ((pack_observation ob)\<lparr>kj_id := i\<rparr>)) = Inr ob"
    using unpack_pack [where ob = ob and i = i and n = "ke_id e" and k = "ke_entry e"] by (simp add: stored_row_def)
  with Cons.IH show ?case by simp
qed simp

text \<open>C19: Evidence that an evaluation stores is read back as it was observed: after the evaluation is inserted with the
  packed observations, its evidence is the decision of the same observations in the same order, under the
  state and reason the evaluation recorded.\<close>

theorem stored_evidence_round_trip:
  assumes "insert_evaluation led e (map2 (\<lambda>i ob. (pack_observation ob)\<lparr>kj_id := i\<rparr>) ids obs) = Inr (led', e)"
    and "ke_id e \<notin> ke_id ` set (kl_evaluations led)" and "ke_id e \<notin> kj_evaluation_id ` set (kl_justifications led)"
    and "length ids = length obs" and "sorted ids"
  shows "evidence led' e = (case decide obs (ke_observed_day e) of
      Inl err \<Rightarrow> Inl (DecideError err) | Inr d \<Rightarrow> Inr (d\<lparr>de_state := ke_state e, de_reason := ke_reason e\<rparr>, obs))"
proof -
  let ?js = "map2 (\<lambda>i ob. (pack_observation ob)\<lparr>kj_id := i\<rparr>) ids obs"
  have "find_row (\<lambda>x. evaluation_key x = evaluation_key e) (kl_evaluations led) \<noteq> Some e"
    using assms(2) by (auto dest!: find_row_Some)
  with assms(1) obtain rows where rows: "res_fold (insert_justification e) ?js (kl_justifications led) = Inr rows"
    and led': "kl_justifications led' = rows"
    by (auto simp: insert_evaluation_def res_bind_eq_Inr ensure_eq split: option.splits)
  have "filter (\<lambda>j. kj_evaluation_id j = ke_id e) (kl_justifications led) = []"
    using assms(3) by (auto simp: filter_empty_conv intro: rev_image_eqI)
  then have "filter (\<lambda>j. kj_evaluation_id j = ke_id e) (kl_justifications led') = map (stored_row e) ?js"
    unfolding led' insert_justifications_rows [OF rows] by (auto simp: stored_row_def filter_id_conv)
  moreover have "map kj_id (map (stored_row e) ?js) = ids"
    using assms(4) by (induction ids obs rule: list_induct2) (simp_all add: stored_row_def)
  ultimately have "read_justifications led' (ke_id e) = map (stored_row e) ?js"
    unfolding read_justifications_def using assms(5) by (metis sort_key_id_if_sorted)
  then show ?thesis unfolding evidence_def by (simp only: res_map_unpack [OF assms(4)] res_bind_simps)
qed

section \<open>Propagation\<close>

lemma check_propagation_accepts:
  "(\<And>ob. ob \<in> set obs \<Longrightarrow> ob_propagated_from ob \<noteq> None \<and> ob_rule ob = None) \<Longrightarrow> check_propagation obs = Inr ()"
proof -
  assume "\<And>ob. ob \<in> set obs \<Longrightarrow> ob_propagated_from ob \<noteq> None \<and> ob_rule ob = None"
  then have "is_ok (res_map (\<lambda>ob. if ob_propagated_from ob = None then Inl PropagationWithoutParent
        else if ob_rule ob \<noteq> None then Inl PropagationWithRule else Inr ()) obs)"
    by (intro res_map_ok) simp
  then show ?thesis by (auto simp: check_propagation_def is_ok_iff)
qed

definition propagated_only :: "observation list \<Rightarrow> bool" where
  "propagated_only obs = (\<forall>ob \<in> set obs. ob_source_kind ob = ''propagation'' \<and> ob_propagated_from ob \<noteq> None \<and> ob_rule ob = None)"

lemma resolve_propagated: "propagated_only obs \<Longrightarrow> resolve_assertions False obs = []"
proof -
  assume "propagated_only obs"
  then have "fold (group_observation False) obs [] = []"
    by (induction obs) (simp_all add: propagated_only_def group_observation_def assertion_of_def)
  then show ?thesis by (simp add: resolve_assertions_def)
qed

lemma decide_propagated:
  assumes "propagated_only obs"
  shows "decide obs today = Inr (case List.find (\<lambda>ob. ob_polarity ob = Contradicts) (sort_key evidence_order obs) of
      Some ob \<Rightarrow> plain_decision LContested (''propagated_from_'' @ text_or_empty (ob_propagated_from ob)) [ob_id ob] PropagationLayer
    | None \<Rightarrow> plain_decision LValid ''declaration_only'' [] (if obs \<noteq> [] then PropagationLayer else CheckLayer))"
proof -
  let ?ev = "sort_key evidence_order obs"
  have all: "propagated_only ?ev" using assms by (simp add: propagated_only_def)
  then have kept: "filter (\<lambda>ob. ob_source_kind ob = ''propagation'') ?ev = ?ev" by (simp add: propagated_only_def filter_id_conv)
  have "endings_of ?ev = []" using all by (simp add: endings_of_def propagated_only_def filter_empty_conv)
  moreover have "List.find (\<lambda>ob. ob_rule ob = Some RDecayArchived) ?ev = None" using all by (simp add: propagated_only_def find_None_iff)
  moreover have "check_propagation ?ev = Inr ()" using all by (intro check_propagation_accepts) (simp add: propagated_only_def)
  moreover have "?ev = [] \<longleftrightarrow> obs = []" by (metis length_0_conv length_sort)
  ultimately show ?thesis
    by (simp add: decide_def Let_def kept decide_checks_def resolve_propagated [OF all] split: option.split)
qed

lemma propagation_observations_propagated: "propagated_only (propagation_observations k parents)"
  by (simp add: propagated_only_def propagation_observations_def lift_observation_def parent_observation_def Let_def)

text \<open>C17: A propagation never ends an entry. Whatever the parents and the history of the entry, the decision it yields
  contests the entry when a parent has ended, restores its state otherwise, and is never obsolete or refuted:
  the cap on propagation cannot be exceeded.\<close>

theorem propagation_never_ends_an_entry:
  assumes "propagation_decision float_text led k parents today invalidating = Inr (Some d)"
  shows "de_state d \<notin> set ENDING \<and> de_layer d = PropagationLayer \<and> (parents \<noteq> [] \<longrightarrow> de_state d = LContested) \<and>
    (parents = [] \<longrightarrow> (\<exists>base. (if invalidating then recomputed float_text led k else baseline led k) = Inr base \<and>
      d = base\<lparr>de_layer := PropagationLayer\<rparr>))"
proof -
  let ?obs = "propagation_observations k parents"
  obtain dp where dp: "decide ?obs today = Inr dp" unfolding decide_propagated [OF propagation_observations_propagated] by blast
  from assms obtain first where first: "baseline led k = Inr first" "de_state first \<notin> set ENDING"
    and rest: "res_bind (if invalidating then recomputed float_text led k else Inr first) (\<lambda>base.
      if de_state base \<in> set ENDING then Inr None
      else Inr (Some (if de_state dp = LValid then base\<lparr>de_layer := PropagationLayer\<rparr> else dp))) = Inr (Some d)"
    unfolding propagation_decision_def dp sum.case by (cases "baseline led k") (auto split: if_splits)
  from rest obtain base where base: "(if invalidating then recomputed float_text led k else Inr first) = Inr base" "de_state base \<notin> set ENDING"
    and d: "d = (if de_state dp = LValid then base\<lparr>de_layer := PropagationLayer\<rparr> else dp)"
    unfolding res_bind_eq_Inr by (auto split: if_splits)
  show ?thesis
  proof (cases "parents = []")
    case True
    then have "de_state dp = LValid"
      using dp unfolding decide_propagated [OF propagation_observations_propagated]
      by (auto simp: propagation_observations_def lift_observation_def plain_decision_def)
    with True d base first show ?thesis by (auto split: if_splits)
  next
    case False
    obtain p where "p \<in> set parents" using False by (cases parents) auto
    then have "parent_observation p \<in> set (sort_key evidence_order ?obs)" using False by (simp add: propagation_observations_def)
    then have "List.find (\<lambda>ob. ob_polarity ob = Contradicts) (sort_key evidence_order ?obs) \<noteq> None"
      by (auto simp: find_None_iff parent_observation_def Let_def)
    then have "de_state dp = LContested" "de_layer dp = PropagationLayer"
      using dp unfolding decide_propagated [OF propagation_observations_propagated] by (auto simp: plain_decision_def split: option.splits)
    with False d show ?thesis by (simp add: ENDING_def)
  qed
qed

section \<open>Applying\<close>

lemma lift_ledger_Inr [simp]: "lift_ledger r = Inr x \<longleftrightarrow> r = Inr x"
  by (cases r) (simp_all add: lift_ledger_def)

lemma undefer_step:
  assumes "undefer led run_id k = Inr led'"
  shows "ledger_step led led'" "kl_events led' = kl_events led" "kl_cache led' = kl_cache led"
proof -
  have set: "set_count_key led run_id ''deferred'' (deferred_key k) None = Inr led'" using assms by (simp add: undefer_def)
  then show "ledger_step led led'" by (rule counted)
  from quiet_counted [OF set] show "kl_events led' = kl_events led" "kl_cache led' = kl_cache led" by (simp_all add: quiet_step_def)
qed

lemma stale_inputs_fresh:
  assumes "stale_inputs float_text snapshot e inputs = Inr False"
  shows "entry_digest float_text (li_inputs inputs) = ke_entry_digest e" "li_revision inputs = ke_expected_cache_revision e"
    "\<exists>s structure saved at. snapshot = Some s \<and> json_member s ''structure'' = Inr structure \<and>
       python_equal (structural_signature (entry_structure (li_inputs inputs))) structure \<and>
       json_member s ''structural_inputs'' = Inr saved \<and> python_equal (BObj (structural_inputs (li_inputs inputs))) saved \<and>
       json_member s ''content_updated_at'' = Inr at \<and> python_equal (BText (isoformat_utc (ei_content_updated_at (li_inputs inputs)))) at"
  using assms by (auto simp: stale_inputs_def Let_def res_bind_eq_Inr split: option.splits if_splits)

lemma evidence_state:
  assumes "evidence led e = Inr (d, obs)"
  shows "de_state d = ke_state e" "de_reason d = ke_reason e"
proof -
  from assms obtain xs where xs: "res_map unpack_observation (read_justifications led (ke_id e)) = Inr xs"
    by (auto simp: evidence_def res_bind_eq_Inr)
  with assms show "de_state d = ke_state e" "de_reason d = ke_reason e"
    by (cases "decide xs (ke_observed_day e)"; auto simp: evidence_def)+
qed

lemma events_append_only: "ledger_step\<^sup>*\<^sup>* led led' \<Longrightarrow> set (kl_events led) \<subseteq> set (kl_events led')"
proof (induction rule: rtranclp_induct)
  case (step led1 led2)
  from step.hyps(2) have "set (kl_events led1) \<subseteq> set (kl_events led2)"
  proof (cases rule: step_cases)
    case quiet
    then show ?thesis by (simp add: quiet_step_def)
  next
    case (appended e li cause rq new_id now v)
    from appended_frame(6) [OF appended(1)] show ?thesis by auto
  qed
  with step.IH show ?case by (rule subset_trans)
qed simp

lemma set_events_for_entry: "set (events_for_entry led k) = {v \<in> set (kl_events led). kv_entry v = k}"
  by (auto simp: events_for_entry_def)

lemma reapplied:
  assumes "v \<in> set (kl_events led)" and "kv_evaluation_id v = ke_id (ee_evaluation ev)" and "kv_kind v = TransitionEvent"
    and "kv_entry v = ke_entry (ee_evaluation ev)" and "apply_evaluation float_text led run ev new_id now commit_time = Inr led'"
  shows "kl_events led' = kl_events led"
proof -
  have "list_ex (\<lambda>v. kv_evaluation_id v = ke_id (ee_evaluation ev) \<and> kv_kind v = TransitionEvent) (events_for_entry led (ke_entry (ee_evaluation ev)))"
    using assms(1-4) by (auto simp: list_ex_iff set_events_for_entry)
  with assms(5) have "undefer led (kr_run_id run) (ke_entry (ee_evaluation ev)) = Inr led'" by (simp add: apply_evaluation_def)
  then show ?thesis by (rule undefer_step(2))
qed

text \<open>The two ways an apply transaction commits.\<close>

lemma apply_evaluation_cases:
  assumes "apply_evaluation float_text led run ev new_id now commit_time = Inr led'" and "ee_evaluation ev = e"
  obtains (kept) "led' = led \<or> undefer led (kr_run_id run) (ke_entry e) = Inr led'"
  | (written) d obs hist inputs snapshot led1 v where "evidence led e = Inr (d, obs)" "evaluation_history led (ke_entry e) = Inr hist"
      "ke_complete e" "confirmed (prior_records hist (ke_id e)) (evaluation_record_of ev d)"
      "lock_apply_inputs led (ke_entry e) = Inr inputs" "saved_snapshot run (ke_id e) = Inr snapshot"
      "stale_inputs float_text snapshot e inputs = Inr False"
      "append_transition led (ke_id e) inputs (event_values d) new_id now = Inr (led1, v)"
      "undefer led1 (kr_run_id run) (ke_entry e) = Inr led'" "check_apply_window commit_time"
proof (cases "list_ex (\<lambda>v. kv_evaluation_id v = ke_id e \<and> kv_kind v = TransitionEvent) (events_for_entry led (ke_entry e))")
  case True
  with assms show ?thesis by (intro kept) (simp add: apply_evaluation_def)
next
  case False
  from assms(1) have "res_bind (evidence led e) (\<lambda>(decision, _).
        res_bind (evaluation_history led (ke_entry e)) (\<lambda>hist.
        if \<not> ke_complete e \<or> \<not> confirmed (prior_records hist (ke_id e)) (evaluation_record_of ev decision) then Inr led
        else apply_confirmed float_text led run e decision new_id now commit_time)) = Inr led'"
    unfolding apply_evaluation_def Let_def assms(2) by (simp only: False if_False)
  then obtain d obs hist where ev: "evidence led e = Inr (d, obs)" and hist: "evaluation_history led (ke_entry e) = Inr hist"
    and rest: "(if \<not> ke_complete e \<or> \<not> confirmed (prior_records hist (ke_id e)) (evaluation_record_of ev d) then Inr led
        else apply_confirmed float_text led run e d new_id now commit_time) = Inr led'"
    by (cases "evidence led e"; cases "evaluation_history led (ke_entry e)") auto
  show ?thesis
  proof (cases "\<not> ke_complete e \<or> \<not> confirmed (prior_records hist (ke_id e)) (evaluation_record_of ev d)")
    case True
    with rest show ?thesis by (intro kept) simp
  next
    case go: False
    with rest have "apply_confirmed float_text led run e d new_id now commit_time = Inr led'" by simp
    then obtain inputs snapshot stale where inputs: "lock_apply_inputs led (ke_entry e) = Inr inputs"
      and snapshot: "saved_snapshot run (ke_id e) = Inr snapshot" and stale: "stale_inputs float_text snapshot e inputs = Inr stale"
      and rest: "(if stale then Inl (LedgerError StaleAtApply)
         else if cache_shows (li_cache inputs) d then undefer led (kr_run_id run) (ke_entry e)
         else res_bind (lift_ledger (append_transition led (ke_id e) inputs (event_values d) new_id now)) (\<lambda>(led1, v).
           res_bind (undefer led1 (kr_run_id run) (ke_entry e)) (\<lambda>led2.
           if check_apply_window commit_time then Inr led2 else Inl WindowClosed))) = Inr led'"
      unfolding apply_confirmed_def res_bind_eq_Inr lift_ledger_Inr by blast
    show ?thesis
    proof (cases "cache_shows (li_cache inputs) d")
      case True
      with rest show ?thesis by (intro kept) (simp split: if_splits)
    next
      case False
      with rest obtain led1 v where "append_transition led (ke_id e) inputs (event_values d) new_id now = Inr (led1, v)"
          "undefer led1 (kr_run_id run) (ke_entry e) = Inr led'" "check_apply_window commit_time" and "\<not> stale"
        by (auto simp: res_bind_eq_Inr split: if_splits)
      moreover have "ke_complete e" "confirmed (prior_records hist (ke_id e)) (evaluation_record_of ev d)" using go by blast+
      moreover have "stale_inputs float_text snapshot e inputs = Inr False" using stale \<open>\<not> stale\<close> by simp
      ultimately show ?thesis using ev hist inputs snapshot by (intro written)
    qed
  qed
qed

lemma append_transition_event:
  assumes "append_transition led (ke_id e) inputs rq new_id now = Inr (led', v)" and "get_evaluation (kl_evaluations led) (ke_id e) = Some e"
    and "\<not> list_ex (\<lambda>v. kv_evaluation_id v = ke_id e \<and> kv_kind v = TransitionEvent) (kl_events led)"
  obtains li where "appended led led' e li ByTransition rq new_id now v"
proof -
  have a: "append_event led e inputs (ke_expected_cache_revision e) ByTransition rq new_id now = Inr (led', v)"
    using assms(1,2) by (auto simp: append_transition_def res_bind_eq_Inr read_evaluation_Inr)
  from a show ?thesis
  proof (cases rule: append_event_cases)
    case replayed
    with assms(3) show ?thesis by (auto simp: replayed_event_def list_ex_iff dest!: find_row_Some)
  next
    case (appended li)
    then show ?thesis by (intro that)
  qed
qed

text \<open>C7: A state is applied only when it is confirmed. When the apply transaction of an evaluation commits, it leaves the
  events as they are or appends one transition with the state and reason of the evaluation; then the evaluation is
  complete and confirmed by the earlier evaluations of the entry, its run is an apply run that is applying, the
  text of the entry has the digest that was evaluated, the cache has the revision that was expected, and the
  window was open at the commit. Applying the same evaluation again in any later state appends nothing.\<close>

theorem applied_states_are_confirmed:
  assumes "apply_evaluation float_text led run ev new_id now commit_time = Inr led'" and "ee_evaluation ev = e"
    and "get_evaluation (kl_evaluations led) (ke_id e) = Some e" and "fresh_event_id led (ke_entry e) new_id"
  shows "ledger_step\<^sup>*\<^sup>* led led' \<and>
    (kl_events led' = kl_events led \<or>
     (\<exists>v d obs hist inputs r. kl_events led' = kl_events led @ [v] \<and> kv_kind v = TransitionEvent \<and> kv_evaluation_id v = ke_id e \<and>
       kv_entry v = ke_entry e \<and> kv_to_state v = ke_state e \<and> kv_reason v = ke_reason e \<and> evidence led e = Inr (d, obs) \<and>
       evaluation_history led (ke_entry e) = Inr hist \<and> ke_complete e \<and>
       confirmed (prior_records hist (ke_id e)) (evaluation_record_of ev d) \<and>
       lock_apply_inputs led (ke_entry e) = Inr inputs \<and> entry_digest float_text (li_inputs inputs) = ke_entry_digest e \<and>
       li_revision inputs = ke_expected_cache_revision e \<and> check_apply_window commit_time \<and>
       get_run (kl_runs led) (ke_run_id e) = Some r \<and> kr_mode r = ApplyRun \<and> kr_status r = RunApplying \<and> kr_invalidated_at r = None \<and>
       (\<forall>led2 run2 new_id2 now2 open2 led3. ledger_step\<^sup>*\<^sup>* led' led2 \<longrightarrow>
          apply_evaluation float_text led2 run2 ev new_id2 now2 open2 = Inr led3 \<longrightarrow> kl_events led3 = kl_events led2)))"
  using assms(1,2)
proof (cases rule: apply_evaluation_cases)
  case kept
  then show ?thesis using undefer_step by (elim disjE) (blast, metis r_into_rtranclp)
next
  case (written d obs hist inputs snapshot led1 v)
  have step1: "ledger_step led led1"
    using transitioned [OF written(8)] assms(4) li_entry_locked [OF written(5)] by simp
  note step2 = undefer_step [OF written(9)]
  have steps: "ledger_step\<^sup>*\<^sup>* led led'" using step1 step2(1) by (meson rtranclp.simps)
  note fresh = stale_inputs_fresh [OF written(7)]
  show ?thesis
  proof (cases "list_ex (\<lambda>v. kv_evaluation_id v = ke_id e \<and> kv_kind v = TransitionEvent) (kl_events led)")
    case True
    then have "replayed_event led e (ke_entry e) ByTransition \<noteq> None" by (auto simp: replayed_event_def list_ex_iff find_row_None)
    then obtain x where "replayed_event led e (ke_entry e) ByTransition = Some x" by blast
    moreover have "append_event led e inputs (ke_expected_cache_revision e) ByTransition (event_values d) new_id now = Inr (led1, v)"
      using written(8) assms(3) by (auto simp: append_transition_def res_bind_eq_Inr read_evaluation_Inr)
    ultimately have "led1 = led" by (elim append_event_cases) simp_all
    with step2(2) steps show ?thesis by simp
  next
    case False
    from append_transition_event [OF written(8) assms(3) False] obtain li where a: "appended led led1 e li ByTransition (event_values d) new_id now v" .
    note D = appendedD [OF a] and frame = appended_frame [OF a]
    from D(2) obtain r where r: "get_run (kl_runs led) (ke_run_id e) = Some r" "kr_mode r = ApplyRun" "kr_status r = RunApplying" "kr_invalidated_at r = None"
      by (auto simp: run_admits_def split: option.splits)
    have fields: "kv_kind v = TransitionEvent" "kv_evaluation_id v = ke_id e" "kv_entry v = ke_entry e" "kv_to_state v = ke_state e" "kv_reason v = ke_reason e"
      using D(4) frame(7) evidence_state [OF written(1)] by (simp_all add: event_values_def new_event_def)
    have events: "kl_events led' = kl_events led @ [v]" using step2(2) frame(6) by simp
    have later: "kl_events led3 = kl_events led2" if "ledger_step\<^sup>*\<^sup>* led' led2" "apply_evaluation float_text led2 run2 ev new_id2 now2 open2 = Inr led3"
      for led2 run2 new_id2 now2 open2 led3
    proof -
      have "v \<in> set (kl_events led2)" using events_append_only [OF that(1)] events by auto
      with that(2) fields assms(2) show ?thesis by (intro reapplied [of v]) simp_all
    qed
    from steps events fields written(1-5,10) fresh(1,2) r later show ?thesis
      by (intro conjI disjI2 exI [of _ v] exI [of _ d] exI [of _ obs] exI [of _ hist] exI [of _ inputs] exI [of _ r]) blast+
  qed
qed

section \<open>Compensation\<close>

lemma write_compensation_cases:
  assumes "write_compensation float_text led run_id k inputs cached d new_id now commit_time = Inr led'"
  obtains latest led1 v where "latest \<in> set (events_for_entry led k)" "kv_id latest = kc_event_id cached"
    "append_compensation led (kv_evaluation_id latest) inputs run_id (kv_id latest) (li_revision inputs) (event_values d) new_id now = Inr (led1, v)"
    "undefer led1 run_id k = Inr led'" "check_apply_window commit_time"
proof (cases "find_row (\<lambda>v. kv_id v = kc_event_id cached) (events_for_entry led k)")
  case None
  with assms show ?thesis by (simp add: write_compensation_def)
next
  case (Some latest)
  with assms obtain e where "read_evaluation led (kv_evaluation_id latest) = Inr e"
    and rest: "(if ke_entry_digest e \<noteq> entry_digest float_text (li_inputs inputs) then Inl (LedgerError StaleAtApply)
          else res_bind (lift_ledger (append_compensation led (kv_evaluation_id latest) inputs run_id (kv_id latest) (li_revision inputs)
              (event_values d) new_id now)) (\<lambda>(led1, v).
            res_bind (undefer led1 run_id k) (\<lambda>led2.
            if check_apply_window commit_time then Inr led2 else Inl WindowClosed))) = Inr led'"
    unfolding write_compensation_def by (auto simp only: option.case res_bind_eq_Inr lift_ledger_Inr)
  from rest obtain led1 v where "append_compensation led (kv_evaluation_id latest) inputs run_id (kv_id latest) (li_revision inputs) (event_values d) new_id now = Inr (led1, v)"
    "undefer led1 run_id k = Inr led'" "check_apply_window commit_time"
    by (auto simp: res_bind_eq_Inr split: if_splits)
  with find_row_Some [OF Some] that show ?thesis by blast
qed

lemma compensate_cases:
  assumes "compensate float_text led run_id k propagated expected new_id now commit_time = Inr led'"
  obtains inputs where "lock_apply_inputs led k = Inr inputs" "li_cache inputs = None" "led' = led"
  | (compensated) "list_ex (\<lambda>v. kv_invalidated_run_id v = Some run_id) (events_for_entry led k)" "undefer led run_id k = Inr led'"
  | (decided) inputs cached d where "lock_apply_inputs led k = Inr inputs" "li_cache inputs = Some cached"
      "\<not> list_ex (\<lambda>v. kv_invalidated_run_id v = Some run_id) (events_for_entry led k)"
      "(case propagated of Some d \<Rightarrow> Inr d | None \<Rightarrow> recomputed float_text led k) = Inr d"
      "if cache_shows (Some cached) d then undefer led run_id k = Inr led'
       else write_compensation float_text led run_id k inputs cached d new_id now commit_time = Inr led'"
proof -
  from assms obtain inputs where inputs: "lock_apply_inputs led k = Inr inputs"
    and rest: "(if \<not> same_inputs expected inputs then Inl (LedgerError StaleAtApply)
     else case li_cache inputs of
       None \<Rightarrow> Inr led
     | Some cached \<Rightarrow>
         if list_ex (\<lambda>v. kv_invalidated_run_id v = Some run_id) (events_for_entry led k) then undefer led run_id k
         else res_bind (case propagated of Some d \<Rightarrow> Inr d | None \<Rightarrow> recomputed float_text led k) (\<lambda>decision.
           if cache_shows (Some cached) decision then undefer led run_id k
           else write_compensation float_text led run_id k inputs cached decision new_id now commit_time)) = Inr led'"
    unfolding compensate_def res_bind_eq_Inr lift_ledger_Inr by blast
  show ?thesis
  proof (cases "li_cache inputs")
    case None
    with rest inputs that(1) show ?thesis by (simp split: if_splits)
  next
    case (Some cached)
    show ?thesis
    proof (cases "list_ex (\<lambda>v. kv_invalidated_run_id v = Some run_id) (events_for_entry led k)")
      case True
      with rest Some that(2) show ?thesis by (simp split: if_splits)
    next
      case False
      with rest Some have "res_bind (case propagated of Some d \<Rightarrow> Inr d | None \<Rightarrow> recomputed float_text led k) (\<lambda>decision.
           if cache_shows (Some cached) decision then undefer led run_id k
           else write_compensation float_text led run_id k inputs cached decision new_id now commit_time) = Inr led'"
        by (simp split: if_splits)
      then obtain d where "(case propagated of Some d \<Rightarrow> Inr d | None \<Rightarrow> recomputed float_text led k) = Inr d"
          "(if cache_shows (Some cached) d then undefer led run_id k
           else write_compensation float_text led run_id k inputs cached d new_id now commit_time) = Inr led'"
        unfolding res_bind_eq_Inr by blast
      with inputs Some False that(3) show ?thesis by (simp split: if_splits)
    qed
  qed
qed

section \<open>Surviving evidence\<close>

text \<open>What the evidence of an entry gives after an invalidation, read from the tables. The evaluation at position
  \<open>n\<close> of the history survives when its run is an apply run that is not invalidated, it is complete, is no
  propagation and was confirmed by the evaluations before it, and it took effect: a transition was written for it,
  or its run was applied without deferring the entry. The newest surviving evaluation decides, and it must be of
  the present text; without one the entry is valid by declaration.\<close>

definition survives :: "ledger \<Rightarrow> entry_key \<Rightarrow> (entry_evaluation \<times> decision \<times> evaluation_record) list \<Rightarrow> nat \<Rightarrow> bool" where
  "survives led k hist n =
     (n < length hist \<and>
      (\<exists>ev d r run deferred. hist ! n = (ev, d, r) \<and> get_run (kl_runs led) (ke_run_id (ee_evaluation ev)) = Some run \<and>
         kr_mode run = ApplyRun \<and> kr_status run \<noteq> RunInvalidated \<and> kr_invalidated_at run = None \<and>
         ke_complete (ee_evaluation ev) \<and> de_layer d \<noteq> PropagationLayer \<and> confirmed (map (\<lambda>x. snd (snd x)) (take n hist)) r \<and>
         is_deferred (kr_counts run) (deferred_key k) = Inr deferred \<and>
         ((\<exists>v \<in> set (kl_events led). kv_entry v = k \<and> kv_kind v = TransitionEvent \<and> kv_evaluation_id v = ke_id (ee_evaluation ev)) \<or>
          (kr_status run = RunApplied \<and> \<not> deferred))))"

definition surviving_decision :: "(int \<Rightarrow> nat \<Rightarrow> utext) \<Rightarrow> ledger \<Rightarrow> entry_key \<Rightarrow> decision \<Rightarrow> bool" where
  "surviving_decision float_text led k d =
     (\<exists>hist inputs. evaluation_history led k = Inr hist \<and> lock_apply_inputs led k = Inr inputs \<and>
        ((\<exists>n. survives led k hist n \<and> (\<forall>m > n. \<not> survives led k hist m) \<and> d = fst (snd (hist ! n)) \<and>
            ke_entry_digest (ee_evaluation (fst (hist ! n))) = entry_digest float_text (li_inputs inputs)) \<or>
         (\<forall>n. \<not> survives led k hist n) \<and> d = default_decision))"

definition loop_candidate ::
    "ledger \<Rightarrow> entry_key \<Rightarrow> int list \<Rightarrow> (entry_evaluation \<times> decision \<times> evaluation_record) list \<Rightarrow> nat \<Rightarrow> bool" where
  "loop_candidate led k applied hist n = (case hist ! n of (ev, d, r) \<Rightarrow>
     ee_mode ev = ApplyRun \<and> de_layer d \<noteq> PropagationLayer \<and> confirmed (map (\<lambda>x. snd (snd x)) (take n hist)) r \<and>
     ke_complete (ee_evaluation ev) \<and> \<not> ee_invalidated ev \<and> took_effect led k applied ev = Inr True)"

lemma recompute_loop_newest:
  assumes "recompute_loop led k applied rest (map (\<lambda>x. snd (snd x)) done_part) best = Inr out"
  shows "(\<exists>n \<ge> length done_part. n < length (done_part @ rest) \<and> loop_candidate led k applied (done_part @ rest) n \<and>
      (\<forall>m > n. m < length (done_part @ rest) \<longrightarrow> \<not> loop_candidate led k applied (done_part @ rest) m) \<and>
      out = (fst (snd ((done_part @ rest) ! n)), Some (ke_entry_digest (ee_evaluation (fst ((done_part @ rest) ! n)))))) \<or>
    ((\<forall>n \<ge> length done_part. n < length (done_part @ rest) \<longrightarrow> \<not> loop_candidate led k applied (done_part @ rest) n) \<and> out = best)"
  using assms
proof (induction rest arbitrary: done_part best)
  case (Cons x rest)
  obtain ev d r where x: "x = (ev, d, r)" by (cases x)
  let ?hist = "done_part @ x # rest" and ?n = "length done_part"
  define best' where "best' = (if loop_candidate led k applied ?hist ?n then (d, Some (ke_entry_digest (ee_evaluation ev))) else best)"
  have here: "loop_candidate led k applied ?hist ?n \<longleftrightarrow> ee_mode ev = ApplyRun \<and> de_layer d \<noteq> PropagationLayer \<and> confirmed (map (\<lambda>x. snd (snd x)) done_part) r \<and>
      ke_complete (ee_evaluation ev) \<and> \<not> ee_invalidated ev \<and> took_effect led k applied ev = Inr True"
    by (simp add: loop_candidate_def x)
  have "recompute_loop led k applied rest (map (\<lambda>x. snd (snd x)) (done_part @ [x])) best' = Inr out"
    using Cons.prems unfolding best'_def here by (auto simp: x res_bind_eq_Inr split: if_splits)
  from Cons.IH [OF this] have ih: "(\<exists>n > ?n. n < length ?hist \<and> loop_candidate led k applied ?hist n \<and>
      (\<forall>m > n. m < length ?hist \<longrightarrow> \<not> loop_candidate led k applied ?hist m) \<and>
      out = (fst (snd (?hist ! n)), Some (ke_entry_digest (ee_evaluation (fst (?hist ! n)))))) \<or>
    ((\<forall>n > ?n. n < length ?hist \<longrightarrow> \<not> loop_candidate led k applied ?hist n) \<and> out = best')"
    by (simp add: Suc_le_eq)
  then show ?case
  proof (elim disjE exE conjE)
    fix n assume "?n < n" "n < length ?hist" "loop_candidate led k applied ?hist n"
      "\<forall>m > n. m < length ?hist \<longrightarrow> \<not> loop_candidate led k applied ?hist m"
      "out = (fst (snd (?hist ! n)), Some (ke_entry_digest (ee_evaluation (fst (?hist ! n)))))"
    then show ?thesis by (intro disjI1 exI [of _ n]) simp
  next
    assume none: "\<forall>n > ?n. n < length ?hist \<longrightarrow> \<not> loop_candidate led k applied ?hist n" and out: "out = best'"
    show ?thesis
    proof (cases "loop_candidate led k applied ?hist ?n")
      case True
      with none out show ?thesis by (intro disjI1 exI [of _ ?n]) (simp add: best'_def x)
    next
      case False
      with none out show ?thesis by (intro disjI2) (auto simp: best'_def le_less)
    qed
  qed
qed simp

lemma evaluation_history_row:
  assumes "evaluation_history led k = Inr hist" and "n < length hist" and "hist ! n = (ev, d, r)"
  obtains run where "get_run (kl_runs led) (ke_run_id (ee_evaluation ev)) = Some run" "ee_mode ev = kr_mode run" "ee_run_status ev = kr_status run"
    "ee_invalidated ev \<longleftrightarrow> kr_invalidated_at run \<noteq> None \<or> kr_status run = RunInvalidated"
proof -
  have "list_all2 (\<lambda>ev x. fst x = ev) (evaluations_for_entry led k) hist"
    using assms(1) unfolding evaluation_history_def res_map_Inr_iff
    by (rule list_all2_mono) (auto simp: res_bind_eq_Inr)
  then have at: "n < length (evaluations_for_entry led k)" "fst (hist ! n) = evaluations_for_entry led k ! n"
    using assms(2) by (simp_all add: list_all2_conv_all_nth)
  have "ev \<in> set (evaluations_for_entry led k)" using nth_mem [OF at(1)] at(2) assms(3) by simp
  then obtain e run where "get_run (kl_runs led) (ke_run_id e) = Some run" "ev = \<lparr>ee_evaluation = e, ee_mode = kr_mode run, ee_run_status = kr_status run,
         ee_invalidated = (kr_invalidated_at run \<noteq> None \<or> kr_status run = RunInvalidated)\<rparr>"
    by (auto simp: evaluations_for_entry_def List.map_filter_def)
  with that show ?thesis by simp
qed

lemma image_Collect_iff: "x \<in> f ` {v. v \<in> {v \<in> S. P v} \<and> Q v} \<longleftrightarrow> (\<exists>v \<in> S. (P v \<and> Q v) \<and> f v = x)"
  by auto

lemma candidate_survives:
  assumes "evaluation_history led k = Inr hist"
  shows "n < length hist \<and> loop_candidate led k (map kv_evaluation_id (filter (\<lambda>v. kv_kind v = TransitionEvent) (events_for_entry led k))) hist n
    \<longleftrightarrow> survives led k hist n"
proof (cases "n < length hist")
  case True
  obtain ev d r where x: "hist ! n = (ev, d, r)" by (cases "hist ! n")
  obtain run where run: "get_run (kl_runs led) (ke_run_id (ee_evaluation ev)) = Some run" "ee_mode ev = kr_mode run" "ee_run_status ev = kr_status run"
    "ee_invalidated ev \<longleftrightarrow> kr_invalidated_at run \<noteq> None \<or> kr_status run = RunInvalidated" by (rule evaluation_history_row [OF assms True x])
  let ?applied = "map kv_evaluation_id (filter (\<lambda>v. kv_kind v = TransitionEvent) (events_for_entry led k))"
  have applied: "ke_id (ee_evaluation ev) \<in> set ?applied \<longleftrightarrow>
      (\<exists>v \<in> set (kl_events led). kv_entry v = k \<and> kv_kind v = TransitionEvent \<and> kv_evaluation_id v = ke_id (ee_evaluation ev))"
    unfolding set_map set_filter set_events_for_entry image_Collect_iff by (simp add: conj_assoc)
  have "took_effect led k ?applied ev = Inr True \<longleftrightarrow> (\<exists>deferred. is_deferred (kr_counts run) (deferred_key k) = Inr deferred \<and>
      (ke_id (ee_evaluation ev) \<in> set ?applied \<or> (kr_status run = RunApplied \<and> \<not> deferred)))"
    by (simp add: took_effect_def res_bind_eq_Inr read_run_def run)
  then show ?thesis using True unfolding applied by (auto simp: loop_candidate_def survives_def x run)
qed (simp add: survives_def)

lemma recomputed_survives:
  assumes "recomputed float_text led k = Inr d"
  shows "surviving_decision float_text led k d"
proof -
  let ?applied = "map kv_evaluation_id (filter (\<lambda>v. kv_kind v = TransitionEvent) (events_for_entry led k))"
  from assms obtain inputs hist digest where loop: "lock_apply_inputs led k = Inr inputs" "evaluation_history led k = Inr hist"
    "recompute_loop led k ?applied hist [] (default_decision, None) = Inr (d, digest)"
    "digest = None \<or> digest = Some (entry_digest float_text (li_inputs inputs))"
    unfolding recomputed_def Let_def by (auto simp: res_bind_eq_Inr split: if_splits)
  have "(\<exists>n. survives led k hist n \<and> (\<forall>m > n. \<not> survives led k hist m) \<and>
      (d, digest) = (fst (snd (hist ! n)), Some (ke_entry_digest (ee_evaluation (fst (hist ! n)))))) \<or>
    (\<forall>n. \<not> survives led k hist n) \<and> (d, digest) = (default_decision, None)"
    using recompute_loop_newest [of led k ?applied hist "[]" "(default_decision, None)" "(d, digest)"] loop(3)
    unfolding candidate_survives [OF loop(2), symmetric] by auto
  with loop show ?thesis unfolding surviving_decision_def by (intro exI [of _ hist] exI [of _ inputs]) auto
qed

text \<open>C15: After an invalidation, compensating an entry leaves the state that the surviving evidence gives. When the transaction
  commits, the entry has no cached state, or it was compensated for this run before and its events and cached state
  stay, or its cached state and reason are those of the propagated decision, where one is given, and else of the newest
  surviving evaluation: complete, confirmed by the evaluations before it, from an apply run that is not invalidated, in
  effect and of the present text, or valid by declaration where none survives. A written compensation names the
  invalidated run and the event it compensates, and is the only new event.\<close>

theorem compensation_restores_the_recomputed_state:
  assumes "reachable ledger_start ledger_step led" and "fresh_event_id led k new_id"
    and "compensate float_text led run_id k propagated expected new_id now commit_time = Inr led'"
  shows "ledger_step\<^sup>*\<^sup>* led led' \<and>
    (read_cache led k = None \<and> led' = led \<or>
     (\<exists>v \<in> set (events_for_entry led k). kv_invalidated_run_id v = Some run_id) \<and> kl_events led' = kl_events led \<and>
       read_cache led' k = read_cache led k \<or>
     (\<exists>d c. (case propagated of Some p \<Rightarrow> d = p | None \<Rightarrow> surviving_decision float_text led k d) \<and>
       read_cache led' k = Some c \<and> kc_state c = de_state d \<and> kc_reason c = de_reason d \<and>
       (kl_events led' = kl_events led \<or>
        (\<exists>v old r. kl_events led' = kl_events led @ [v] \<and> kv_entry v = k \<and> kv_kind v = CompensationEvent \<and> check_apply_window commit_time \<and>
          kv_invalidated_run_id v = Some run_id \<and> get_run (kl_runs led) run_id = Some r \<and> kr_status r = RunInvalidated \<and>
          read_cache led k = Some old \<and> kv_compensates_event_id v = Some (kc_event_id old)))))"
  using assms(3)
proof (cases rule: compensate_cases)
  case (1 inputs)
  with li_entry_locked [OF 1(1)] show ?thesis by simp
next
  case compensated
  then show ?thesis using undefer_step [OF compensated(2)] by (auto simp: list_ex_iff read_cache_def)
next
  case (decided inputs cached d)
  have d: "case propagated of Some p \<Rightarrow> d = p | None \<Rightarrow> surviving_decision float_text led k d"
    using decided(4) recomputed_survives by (auto split: option.splits)
  note locked = li_entry_locked [OF decided(1)]
  show ?thesis
  proof (cases "cache_shows (Some cached) d")
    case True
    with decided(5) have "undefer led run_id k = Inr led'" by simp
    note u = undefer_step [OF this]
    have "read_cache led' k = Some cached" using u(3) locked decided(2) by (simp add: read_cache_def)
    moreover have "kc_state cached = de_state d" "kc_reason cached = de_reason d" using True by (simp_all add: cache_shows_def)
    ultimately show ?thesis using d u(1,2) by blast
  next
    case False
    with decided(5) have "write_compensation float_text led run_id k inputs cached d new_id now commit_time = Inr led'" by simp
    then obtain latest led1 v where latest: "latest \<in> set (events_for_entry led k)" "kv_id latest = kc_event_id cached"
      and c: "append_compensation led (kv_evaluation_id latest) inputs run_id (kv_id latest) (li_revision inputs) (event_values d) new_id now = Inr (led1, v)"
      and u: "undefer led1 run_id k = Inr led'" and op: "check_apply_window commit_time" by (rule write_compensation_cases)
    note ustep = undefer_step [OF u]
    have step1: "ledger_step led led1" using ledger_step.compensated [OF c] assms(2) locked by simp
    from c obtain e where a: "append_event led e inputs (li_revision inputs) (ByCompensation run_id (kv_id latest)) (event_values d) new_id now = Inr (led1, v)"
      by (auto simp: append_compensation_def res_bind_eq_Inr)
    have keyed: "ledger_keyed led" using lifecycle_ledger.inv_reachable [OF assms(1)] by (simp add: ledger_ok_def)
    from a show ?thesis
    proof (cases rule: append_event_cases)
      case replayed
      have "list_ex (\<lambda>v. kv_invalidated_run_id v = Some run_id) (events_for_entry led k)"
        using find_row_Some [OF replayed(2) [unfolded replayed_event_def event_cause.case]] a locked
        by (auto simp: list_ex_iff set_events_for_entry append_event_def res_bind_eq_Inr ensure_eq)
      with decided(3) show ?thesis by blast
    next
      case (appended li)
      note D = appendedD [OF appended(1)] and frame = appended_frame [OF appended(1)]
      have ke: "ke_entry e = k" using appended(5) locked by simp
      have cache: "read_cache led' k = Some (cache_of_event v (ei_content_updated_at (li_inputs li)) (li_revision li + 1))"
        using appended_cache(1) [OF appended(1) keyed, of k] ke ustep(3) by (simp add: read_cache_def)
      from D(3) obtain r where r: "get_run (kl_runs led) run_id = Some r" "kr_status r = RunInvalidated"
        by (auto simp: compensated_run_ok_def res_bind_eq_Inr ensure_eq read_run_def split: option.splits)
      have "\<exists>v old r. kl_events led' = kl_events led @ [v] \<and> kv_entry v = k \<and> kv_kind v = CompensationEvent \<and> check_apply_window commit_time \<and>
          kv_invalidated_run_id v = Some run_id \<and> get_run (kl_runs led) run_id = Some r \<and> kr_status r = RunInvalidated \<and>
          read_cache led k = Some old \<and> kv_compensates_event_id v = Some (kc_event_id old)"
        using ustep(2) frame(6,7) ke D(4) op r locked decided(2) latest(2)
        by (intro exI [of _ v] exI [of _ cached] exI [of _ r]) auto
      moreover have "ledger_step\<^sup>*\<^sup>* led led'" using step1 ustep(1) by (meson rtranclp.simps)
      ultimately show ?thesis using d cache D(4)
        by (intro conjI disjI2 exI [of _ d] exI [of _ "cache_of_event v (ei_content_updated_at (li_inputs li)) (li_revision li + 1)"])
          (auto simp: cache_of_event_def event_values_def new_event_def)
    qed
  qed
qed

end
