(* ===== verification/Knowledge_Run.thy ===== *)
theory Knowledge_Run
  imports Knowledge_Guarantees
begin

text \<open>
  A run of the lifecycle ledger at concrete inputs: an entry found merged is evaluated, applied, its run
  invalidated and the entry compensated. It shows that the guarantees of the pipeline are met by real runs.
\<close>

section \<open>An entry found merged\<close>

lemma five_open [simp]: "check_apply_window 18000000000"
  by (simp add: check_apply_window_def apply_window_open_def)

definition demo_observation :: observation where
  "demo_observation = \<lparr>ob_id = ''o'', ob_assertion_key = None, ob_polarity = Ends, ob_source_kind = ''structure'', ob_source_rank = 7,
     ob_source_ref = ''learnings:e'', ob_centrality = None, ob_temporal = None, ob_valid_from = Some 20000,
     ob_valid_from_precision = ExactDate, ob_rule = Some RMerged, ob_propagated_from = None, ob_observed_value = Some ''f''\<rparr>"

definition merged_evaluation :: "string \<Rightarrow> evaluation_row" where
  "merged_evaluation digest = demo_evaluation\<lparr>ke_entry_digest := digest, ke_state := LObsolete, ke_reason := ''merged''\<rparr>"

definition merged_run :: "jobject \<Rightarrow> lifecycle_run" where
  "merged_run counts = (demo_run RunApplying)\<lparr>kr_counts := counts\<rparr>"

definition merged_ledger :: "string \<Rightarrow> jobject \<Rightarrow> ledger" where
  "merged_ledger digest counts = (demo_ledger [merged_run counts] [merged_evaluation digest])
     \<lparr>kl_justifications := [stored_row (merged_evaluation digest) ((pack_observation demo_observation)\<lparr>kj_id := 1\<rparr>)]\<rparr>"

definition merged_decision :: decision where
  "merged_decision = \<lparr>de_state = LObsolete, de_reason = ''merged'', de_observation_ids = [''o''], de_end_date = Some 20000,
     de_end_date_precision = Some ExactDate, de_layer = StructuralLayer\<rparr>"

definition merged_event :: lifecycle_event where
  "merged_event = \<lparr>kv_id = 7, kv_evaluation_id = 1, kv_entry = (Learnings, ''e''), kv_kind = TransitionEvent, kv_from_state = None,
     kv_to_state = LObsolete, kv_reason = ''merged'', kv_valid_from = Some 20000, kv_valid_from_precision = ExactDate,
     kv_compensates_event_id = None, kv_invalidated_run_id = None, kv_recorded_at = 9\<rparr>"

definition merged_evaluation_view :: "string \<Rightarrow> entry_evaluation" where
  "merged_evaluation_view digest = \<lparr>ee_evaluation = merged_evaluation digest, ee_mode = ApplyRun, ee_run_status = RunApplying, ee_invalidated = False\<rparr>"

lemma merged_evaluation_fields [simp]:
  "ke_id (merged_evaluation digest) = 1" "ke_run_id (merged_evaluation digest) = ''r''" "ke_entry (merged_evaluation digest) = (Learnings, ''e'')"
  "ke_entry_digest (merged_evaluation digest) = digest" "ke_expected_cache_revision (merged_evaluation digest) = 0"
  "ke_observed_day (merged_evaluation digest) = 20000" "ke_complete (merged_evaluation digest)"
  "ke_state (merged_evaluation digest) = LObsolete" "ke_reason (merged_evaluation digest) = ''merged''"
  by (simp_all add: merged_evaluation_def demo_evaluation_def)

lemma merged_run_fields [simp]:
  "kr_run_id (merged_run counts) = ''r''" "kr_mode (merged_run counts) = ApplyRun" "kr_status (merged_run counts) = RunApplying"
  "kr_counts (merged_run counts) = counts" "kr_invalidated_at (merged_run counts) = None"
  "merged_run counts\<lparr>kr_counts := counts'\<rparr> = merged_run counts'"
  by (simp_all add: merged_run_def demo_run_def)

lemma merged_ledger_fields [simp]:
  "kl_runs (merged_ledger digest counts) = [merged_run counts]" "kl_evaluations (merged_ledger digest counts) = [merged_evaluation digest]"
  "kl_events (merged_ledger digest counts) = []" "kl_cache (merged_ledger digest counts) = []"
  "kl_entries (merged_ledger digest counts) = [demo_entry]"
  by (simp_all add: merged_ledger_def demo_ledger_def)

lemma merged_evidence: "evidence (merged_ledger digest counts) (merged_evaluation digest) = Inr (merged_decision, [demo_observation])"
proof -
  have rows: "read_justifications (merged_ledger digest counts) (ke_id (merged_evaluation digest))
      = [stored_row (merged_evaluation digest) ((pack_observation demo_observation)\<lparr>kj_id := 1\<rparr>)]"
    by (simp add: read_justifications_def merged_ledger_def demo_ledger_def stored_row_def)
  have unpack: "unpack_observation (stored_row (merged_evaluation digest) ((pack_observation demo_observation)\<lparr>kj_id := 1\<rparr>)) = Inr demo_observation"
    using res_map_unpack [of "[1]" "[demo_observation]" "merged_evaluation digest"] by (auto split: sum.splits)
  have "decide [demo_observation] 20000 = Inr merged_decision" by code_simp
  with rows unpack show ?thesis by (simp add: evidence_def) (simp add: merged_decision_def)
qed

lemma merged_history:
  "evaluation_history (merged_ledger digest counts) (Learnings, ''e'')
     = Inr [(merged_evaluation_view digest, merged_decision, evaluation_record_of (merged_evaluation_view digest) merged_decision)]"
proof -
  have "evaluations_for_entry (merged_ledger digest counts) (Learnings, ''e'') = [merged_evaluation_view digest]"
    by (simp add: evaluations_for_entry_def get_run_def find_row_def merged_evaluation_view_def List.map_filter_simps)
  then show ?thesis by (simp add: evaluation_history_def merged_evaluation_view_def merged_evidence)
qed

lemma merged_locked:
  "lock_apply_inputs (merged_ledger digest counts) (Learnings, ''e'') = Inr demo_inputs"
  by (simp add: lock_apply_inputs_def get_entry_def find_row_def demo_entry_def demo_inputs_def
    entry_inputs_of_def successor_row_def read_cache_def get_cache_def)

definition merged_applied :: "string \<Rightarrow> jobject \<Rightarrow> ledger" where
  "merged_applied digest counts = (merged_ledger digest counts)\<lparr>kl_events := [merged_event], kl_cache := [cache_of_event merged_event 5 1]\<rparr>"

lemma demo_inputs_fields [simp]:
  "li_entry demo_inputs = (Learnings, ''e'')" "li_cache demo_inputs = None" "li_revision demo_inputs = 0"
  "ei_content_updated_at (li_inputs demo_inputs) = 5"
  by (simp_all add: demo_inputs_def li_revision_def entry_inputs_of_def demo_entry_def)

lemma merged_new_event: "new_event demo_inputs (merged_evaluation digest) ByTransition (event_values merged_decision) 7 9 = merged_event"
  by (simp add: new_event_def merged_event_def event_values_def merged_decision_def)

lemma merged_ledger_update:
  "merged_ledger digest counts\<lparr>kl_runs := [merged_run counts']\<rparr> = merged_ledger digest counts'"
  "(merged_applied digest counts)\<lparr>kl_runs := [merged_run counts']\<rparr> = merged_applied digest counts'"
  by (simp_all add: merged_ledger_def merged_applied_def demo_ledger_def)

lemma merged_written:
  "write_event (merged_ledger digest [(''snapshots'', s)]) (merged_evaluation digest) ByTransition demo_inputs merged_event
     = Inr (merged_applied digest [(''snapshots'', s), (''applied_events'', BNum 1 0)], merged_event)"
proof -
  have ins: "insert_event (merged_ledger digest [(''snapshots'', s)]) merged_event = Inr (Some ((merged_ledger digest [(''snapshots'', s)])\<lparr>kl_events := [merged_event]\<rparr>))"
    by (simp add: insert_event_def merged_event_def)
  have cache: "write_cache ((merged_ledger digest [(''snapshots'', s)])\<lparr>kl_events := [merged_event]\<rparr>) None 0 (cache_of_event merged_event 5 1)
      = Some (merged_applied digest [(''snapshots'', s)])"
    by (simp add: write_cache_def get_cache_def find_row_def merged_applied_def)
  have "count_event (merged_applied digest [(''snapshots'', s)]) ''r'' ''applied_events''
      = Inr (merged_applied digest [(''snapshots'', s), (''applied_events'', BNum 1 0)])"
    by (simp add: count_event_def get_run_def find_row_def counter_value_def in_bigint_def merge_object_def update_rows_def
      merged_applied_def merged_ledger_def demo_ledger_def)
  with ins cache show ?thesis by (simp add: write_event_def counted_run_def event_counter_def)
qed

lemma merged_appended:
  "append_transition (merged_ledger digest [(''snapshots'', s)]) 1 demo_inputs (event_values merged_decision) 7 9
     = Inr (merged_applied digest [(''snapshots'', s), (''applied_events'', BNum 1 0)], merged_event)"
proof -
  have e: "read_evaluation (merged_ledger digest [(''snapshots'', s)]) 1 = Inr (merged_evaluation digest)"
    by (simp add: read_evaluation_def get_evaluation_def find_row_def)
  have none: "replayed_event (merged_ledger digest [(''snapshots'', s)]) (merged_evaluation digest) (Learnings, ''e'') ByTransition = None"
    by (simp add: replayed_event_def find_row_def)
  have admits: "run_admits (get_run (kl_runs (merged_ledger digest [(''snapshots'', s)])) ''r'') (merged_evaluation digest) ByTransition"
    by (simp add: get_run_def find_row_def run_admits_def)
  show ?thesis
    using admits by (simp add: append_transition_def e append_event_def none merged_locked compensated_run_ok_def merged_new_event merged_written)
qed

section \<open>Witnesses\<close>

lemma python_equal_refl [simp]: "python_equal j j"
  by (simp add: python_equal_def)

lemma merged_stale:
  "stale_inputs float_text (Some (entry_snapshot (li_inputs demo_inputs)))
     (merged_evaluation (entry_digest float_text (li_inputs demo_inputs))) demo_inputs = Inr False"
  by (simp add: stale_inputs_def entry_snapshot_def json_member_def Let_def)

definition merged_counts :: jobject where
  "merged_counts = [(''snapshots'', BObj [(''1'', entry_snapshot (li_inputs demo_inputs))])]"

lemma merged_snapshot: "saved_snapshot (merged_run merged_counts) 1 = Inr (Some (entry_snapshot (li_inputs demo_inputs)))"
proof -
  have "show_int 1 = ''1''" by code_simp
  then show ?thesis by (simp add: saved_snapshot_def merged_counts_def) (simp add: entry_snapshot_def)
qed

lemma merged_undeferred:
  "undefer (merged_applied digest [(''snapshots'', s), (''applied_events'', n)]) ''r'' (Learnings, ''e'')
     = Inr (merged_applied digest [(''snapshots'', s), (''applied_events'', n), (''deferred'', BObj [])])"
  by (simp add: undefer_def lift_ledger_def set_count_key_def get_run_def find_row_def nested_counter_def jsonb_minus_def update_rows_def
    merged_applied_def merged_ledger_def demo_ledger_def)

lemma merged_apply:
  "apply_evaluation float_text (merged_ledger (entry_digest float_text (li_inputs demo_inputs)) merged_counts) (merged_run merged_counts)
     (merged_evaluation_view (entry_digest float_text (li_inputs demo_inputs))) 7 9 18000000000
   = Inr (merged_applied (entry_digest float_text (li_inputs demo_inputs)) (merged_counts @ [(''applied_events'', BNum 1 0), (''deferred'', BObj [])]))"
proof -
  define q where "q = entry_digest float_text (li_inputs demo_inputs)"
  have stale: "stale_inputs float_text (Some (entry_snapshot (li_inputs demo_inputs))) (merged_evaluation q) demo_inputs = Inr False"
    unfolding q_def by (rule merged_stale)
  have conf: "confirmed hist (evaluation_record_of (merged_evaluation_view q) merged_decision)" for hist
    by (simp add: confirmed_def evaluation_record_of_def merged_decision_def Let_def)
  have app: "append_transition (merged_ledger q merged_counts) 1 demo_inputs (event_values merged_decision) 7 9
     = Inr (merged_applied q (merged_counts @ [(''applied_events'', BNum 1 0)]), merged_event)"
    using merged_appended [of q] by (simp add: merged_counts_def)
  have und: "undefer (merged_applied q (merged_counts @ [(''applied_events'', BNum 1 0)])) ''r'' (Learnings, ''e'')
     = Inr (merged_applied q (merged_counts @ [(''applied_events'', BNum 1 0), (''deferred'', BObj [])]))"
    using merged_undeferred [of q] by (simp add: merged_counts_def)
  have "apply_confirmed float_text (merged_ledger q merged_counts) (merged_run merged_counts) (merged_evaluation q) merged_decision 7 9 18000000000
     = Inr (merged_applied q (merged_counts @ [(''applied_events'', BNum 1 0), (''deferred'', BObj [])]))"
    using stale app und
    by (simp add: apply_confirmed_def lift_ledger_def merged_locked merged_snapshot cache_shows_def)
  moreover have "ee_evaluation (merged_evaluation_view q) = merged_evaluation q" by (simp add: merged_evaluation_view_def)
  moreover have "events_for_entry (merged_ledger q merged_counts) (Learnings, ''e'') = []" by (simp add: events_for_entry_def)
  ultimately show ?thesis unfolding q_def [symmetric]
    by (simp add: apply_evaluation_def merged_evidence merged_history conf)
qed

theorem applied_states_are_confirmed_witness:
  "\<exists>v led'. apply_evaluation (\<lambda>_ _. []) (merged_ledger (entry_digest (\<lambda>_ _. []) (li_inputs demo_inputs)) merged_counts) (merged_run merged_counts)
     (merged_evaluation_view (entry_digest (\<lambda>_ _. []) (li_inputs demo_inputs))) 7 9 18000000000 = Inr led' \<and>
     kl_events led' = [v] \<and> kv_to_state v = LObsolete \<and> kv_reason v = ''merged''"
proof -
  define q where "q = entry_digest (\<lambda>_ _. []) (li_inputs demo_inputs)"
  note run = merged_apply [of "\<lambda>_ _. []", folded q_def]
  have view: "ee_evaluation (merged_evaluation_view q) = merged_evaluation q" by (simp add: merged_evaluation_view_def)
  have got: "get_evaluation (kl_evaluations (merged_ledger q merged_counts)) (ke_id (merged_evaluation q)) = Some (merged_evaluation q)"
    by (simp add: get_evaluation_def find_row_def)
  have fresh: "fresh_event_id (merged_ledger q merged_counts) (ke_entry (merged_evaluation q)) 7" by (simp add: fresh_event_id_def)
  have ne: "kl_events (merged_applied q (merged_counts @ [(''applied_events'', BNum 1 0), (''deferred'', BObj [])])) \<noteq> kl_events (merged_ledger q merged_counts)"
    by (simp add: merged_applied_def)
  from applied_states_are_confirmed [OF run view got fresh] ne obtain v where
    "kl_events (merged_applied q (merged_counts @ [(''applied_events'', BNum 1 0), (''deferred'', BObj [])])) = kl_events (merged_ledger q merged_counts) @ [v]"
    "kv_to_state v = ke_state (merged_evaluation q)" "kv_reason v = ke_reason (merged_evaluation q)" by blast
  with run show ?thesis unfolding q_def [symmetric] by auto
qed

theorem stored_evidence_round_trip_witness:
  "evidence (merged_ledger ''d'' []) (merged_evaluation ''d'') = Inr (merged_decision, [demo_observation])"
proof -
  have ins: "insert_evaluation (demo_ledger [demo_run RunApplying] []) (merged_evaluation ''d'') (map2 (\<lambda>i ob. (pack_observation ob)\<lparr>kj_id := i\<rparr>) [1] [demo_observation])
      = Inr (merged_ledger ''d'' [], merged_evaluation ''d'')" by code_simp
  have dec: "decide [demo_observation] 20000 = Inr merged_decision" by code_simp
  have "evidence (merged_ledger ''d'' []) (merged_evaluation ''d'') = (case decide [demo_observation] (ke_observed_day (merged_evaluation ''d'')) of
      Inl err \<Rightarrow> Inl (DecideError err) | Inr d \<Rightarrow> Inr (d\<lparr>de_state := ke_state (merged_evaluation ''d''), de_reason := ke_reason (merged_evaluation ''d'')\<rparr>, [demo_observation]))"
    by (rule stored_evidence_round_trip [OF ins]) (simp_all add: demo_ledger_def)
  with dec show ?thesis by simp (simp add: merged_decision_def)
qed

theorem propagation_never_ends_an_entry_witness:
  "\<exists>d. propagation_decision (\<lambda>_ _. []) (demo_ledger [] []) (Learnings, ''e'') [(Decisions, ''p'')] 20000 False = Inr (Some d) \<and> de_state d = LContested"
proof -
  have d: "propagation_decision (\<lambda>_ _. []) (demo_ledger [] []) (Learnings, ''e'') [(Decisions, ''p'')] 20000 False
      = Inr (Some (plain_decision LContested ''propagated_from_p'' [''propagation:decisions:p''] PropagationLayer))" by code_simp
  from propagation_never_ends_an_entry [OF d] d show ?thesis by auto
qed

text \<open>The run is applied and then invalidated; its entry is compensated.\<close>

lemma merged_inserted:
  "insert_evaluation (demo_ledger [demo_run RunApplying] []) (merged_evaluation q) [(pack_observation demo_observation)\<lparr>kj_id := 1\<rparr>]
     = Inr (merged_ledger q [], merged_evaluation q)"
  by (simp add: insert_evaluation_def demo_ledger_def find_row_def get_run_def demo_run_def extraction_of_evaluation_def insert_justification_def
    pack_observation_def demo_observation_def RANKS_def Let_def merged_ledger_def merged_run_def stored_row_def merged_evaluation_def demo_evaluation_def)

lemma merged_saved:
  "set_count_key (merged_ledger q []) ''r'' ''snapshots'' ''1'' (Some (entry_snapshot (li_inputs demo_inputs))) = Inr (merged_ledger q merged_counts)"
  by (simp add: set_count_key_def get_run_def find_row_def nested_counter_def jsonb_concat_def merge_object_def update_rows_def merged_counts_def
    merged_ledger_def demo_ledger_def)

definition applied_counts :: jobject where
  "applied_counts = merged_counts @ [(''applied_events'', BNum 1 0)]"

lemma merged_applied_reachable: "reachable ledger_start ledger_step (merged_applied q applied_counts)"
proof -
  have "ledger_step (demo_ledger [demo_run RunApplying] []) (merged_ledger q [])"
    by (rule evaluated [OF merged_inserted]) (simp add: demo_ledger_def)
  from reachable_step [OF demo_applying this] have "reachable ledger_start ledger_step (merged_ledger q [])" .
  from reachable_step [OF this counted [OF merged_saved]] have saved: "reachable ledger_start ledger_step (merged_ledger q merged_counts)" .
  have "append_transition (merged_ledger q merged_counts) 1 demo_inputs (event_values merged_decision) 7 9 = Inr (merged_applied q applied_counts, merged_event)"
    using merged_appended [of q] by (simp add: merged_counts_def applied_counts_def)
  then have "ledger_step (merged_ledger q merged_counts) (merged_applied q applied_counts)"
    by (rule transitioned) (simp add: fresh_event_id_def)
  with saved show ?thesis by (rule reachable_step)
qed

definition void_run :: "jobject \<Rightarrow> lifecycle_run" where
  "void_run counts = (merged_run counts)\<lparr>kr_status := RunInvalidated, kr_ended_at := Some 10, kr_invalidated_at := Some 11,
     kr_invalidation_reason := Some ''bad''\<rparr>"

definition void_ledger :: "string \<Rightarrow> ledger" where
  "void_ledger q = (merged_applied q applied_counts)\<lparr>kl_runs := [void_run applied_counts]\<rparr>"

lemma void_reachable: "reachable ledger_start ledger_step (void_ledger q)"
proof -
  let ?done = "(merged_run applied_counts)\<lparr>kr_status := RunApplied, kr_ended_at := Some 10\<rparr>"
  let ?led = "(merged_applied q applied_counts)\<lparr>kl_runs := [?done]\<rparr>"
  have runs: "kl_runs (merged_applied q applied_counts) = [merged_run applied_counts]" by (simp add: merged_applied_def)
  have edge: "run_status_of ''applying'' = Some RunApplying" "run_status_of ''applied'' = Some RunApplied"
      "transition_allowed ''applying'' ''applied'' False" by code_simp+
  have "transition_run (merged_applied q applied_counts) ''r'' ''applying'' ''applied'' None None 10 = Inr (?led, ?done)"
    by (simp add: transition_run_def edge runs find_row_def update_rows_def moved_run_def)
  from reachable_step [OF merged_applied_reachable moved [OF this]] have led: "reachable ledger_start ledger_step ?led" .
  have bad: "strip ''bad'' \<noteq> []" by code_simp
  have "invalidate_run ?led ''r'' ''bad'' 11 = Inr (void_ledger q, True)"
    by (simp add: invalidate_run_def bad get_run_def find_row_def status_edge_def update_rows_def invalidated_run_def void_ledger_def void_run_def)
  from reachable_step [OF led invalidated [OF this]] show ?thesis .
qed

lemma void_fields [simp]:
  "kl_runs (void_ledger q) = [void_run applied_counts]" "kl_evaluations (void_ledger q) = [merged_evaluation q]"
  "kl_events (void_ledger q) = [merged_event]" "kl_cache (void_ledger q) = [cache_of_event merged_event 5 1]"
  "kl_entries (void_ledger q) = [demo_entry]" "kl_justifications (void_ledger q) = kl_justifications (merged_ledger q [])"
  "kr_run_id (void_run c) = ''r''" "kr_mode (void_run c) = ApplyRun" "kr_status (void_run c) = RunInvalidated"
  "kr_counts (void_run c) = c" "kr_invalidated_at (void_run c) = Some 11"
  by (simp_all add: void_ledger_def merged_applied_def void_run_def) (simp add: merged_ledger_def)

lemma void_run_counts [simp]: "(void_run c)\<lparr>kr_counts := d\<rparr> = void_run d"
  by (simp add: void_run_def merged_run_def demo_run_def)

lemma merged_event_fields [simp]:
  "kv_id merged_event = 7" "kv_evaluation_id merged_event = 1" "kv_entry merged_event = (Learnings, ''e'')" "kv_kind merged_event = TransitionEvent"
  "kv_invalidated_run_id merged_event = None"
  by (simp_all add: merged_event_def)

definition void_inputs :: locked_inputs where
  "void_inputs = demo_inputs\<lparr>li_cache := Some (cache_of_event merged_event 5 1)\<rparr>"

lemma void_locked: "lock_apply_inputs (void_ledger q) (Learnings, ''e'') = Inr void_inputs"
  by (simp add: lock_apply_inputs_def get_entry_def find_row_def demo_entry_def void_inputs_def demo_inputs_def entry_inputs_of_def successor_row_def
    read_cache_def get_cache_def cache_of_event_def)

lemma void_recomputed: "recomputed float_text (void_ledger q) (Learnings, ''e'') = Inr default_decision"
proof -
  let ?view = "\<lparr>ee_evaluation = merged_evaluation q, ee_mode = ApplyRun, ee_run_status = RunInvalidated, ee_invalidated = True\<rparr>"
  have "evaluations_for_entry (void_ledger q) (Learnings, ''e'') = [?view]"
    by (simp add: evaluations_for_entry_def get_run_def find_row_def List.map_filter_simps)
  moreover have "evidence (void_ledger q) (merged_evaluation q) = evidence (merged_ledger q []) (merged_evaluation q)"
    by (simp add: evidence_def read_justifications_def)
  ultimately have "evaluation_history (void_ledger q) (Learnings, ''e'') = Inr [(?view, merged_decision, evaluation_record_of ?view merged_decision)]"
    by (simp add: evaluation_history_def merged_evidence)
  then show ?thesis by (simp add: recomputed_def void_locked lift_ledger_def Let_def)
qed

lemma void_compensated:
  "\<exists>led'. compensate float_text (void_ledger (entry_digest float_text (li_inputs demo_inputs))) ''r'' (Learnings, ''e'') None None 8 12 18000000000 = Inr led'"
proof -
  define q where "q = entry_digest float_text (li_inputs demo_inputs)"
  let ?c = "ByCompensation ''r'' 7"
  let ?v = "new_event void_inputs (merged_evaluation q) ?c (event_values default_decision) 8 12"
  have locked: "li_entry void_inputs = (Learnings, ''e'')" "li_cache void_inputs = Some (cache_of_event merged_event 5 1)" "li_revision void_inputs = 1"
      "li_inputs void_inputs = li_inputs demo_inputs"
    by (simp_all add: void_inputs_def demo_inputs_def li_revision_def cache_of_event_def)
  have events: "events_for_entry (void_ledger q) (Learnings, ''e'') = [merged_event]" by (simp add: events_for_entry_def)
  have none: "replayed_event (void_ledger q) (merged_evaluation q) (Learnings, ''e'') ?c = None" by (simp add: replayed_event_def find_row_def)
  have ok: "run_admits (get_run (kl_runs (void_ledger q)) ''r'') (merged_evaluation q) ?c" "compensated_run_ok (void_ledger q) ?c = Inr ()"
    by (simp_all add: get_run_def find_row_def run_admits_def compensated_run_ok_def read_run_def)
  have ins: "insert_event (void_ledger q) ?v = Inr (Some ((void_ledger q)\<lparr>kl_events := [merged_event, ?v]\<rparr>))"
    by (simp add: insert_event_def event_conflicts_def locked event_values_def default_decision_def plain_decision_def)
  obtain led1 where cache: "write_cache ((void_ledger q)\<lparr>kl_events := [merged_event, ?v]\<rparr>) (li_cache void_inputs) 1 (cache_of_event ?v 5 2) = Some led1"
      and runs: "kl_runs led1 = [void_run applied_counts]"
    by (simp add: write_cache_def locked find_row_def cache_of_event_def)
  have "counter_value applied_counts ''compensation_events'' = Some 0" by (simp add: counter_value_def applied_counts_def merged_counts_def)
  with runs obtain led2 where counted: "count_event led1 ''r'' ''compensation_events'' = Inr led2"
      and runs2: "kl_runs led2 = [void_run (merge_object applied_counts [(''compensation_events'', BNum 1 0)])]"
    by (simp add: count_event_def get_run_def find_row_def in_bigint_def update_rows_def)
  have w: "write_event (void_ledger q) (merged_evaluation q) ?c void_inputs ?v = Inr (led2, ?v)"
    using ins cache counted locked by (simp add: write_event_def counted_run_def event_counter_def)
  have app: "append_compensation (void_ledger q) 1 void_inputs ''r'' 7 1 (event_values default_decision) 8 12 = Inr (led2, ?v)"
    using w none ok locked void_locked
    by (simp add: append_compensation_def append_event_def read_evaluation_def get_evaluation_def find_row_def)
  obtain led3 where und: "undefer led2 ''r'' (Learnings, ''e'') = Inr led3"
    by (simp add: undefer_def lift_ledger_def set_count_key_def runs2 get_run_def find_row_def nested_counter_def jsonb_minus_def merge_object_def
      applied_counts_def merged_counts_def)
  have "write_compensation float_text (void_ledger q) ''r'' (Learnings, ''e'') void_inputs (cache_of_event merged_event 5 1) default_decision 8 12 18000000000 = Inr led3"
  proof -
    have "read_evaluation (void_ledger q) 1 = Inr (merged_evaluation q)" by (simp add: read_evaluation_def get_evaluation_def find_row_def)
    moreover have "entry_digest float_text (li_inputs void_inputs) = q" by (simp add: locked q_def)
    moreover have "kc_event_id (cache_of_event merged_event 5 1) = 7" by (simp add: cache_of_event_def)
    ultimately show ?thesis using app und locked(3) by (simp add: write_compensation_def events find_row_def lift_ledger_def)
  qed
  moreover have "\<not> cache_shows (Some (cache_of_event merged_event 5 1)) default_decision"
    by (simp add: cache_shows_def cache_of_event_def merged_event_def default_decision_def plain_decision_def)
  ultimately have "compensate float_text (void_ledger q) ''r'' (Learnings, ''e'') None None 8 12 18000000000 = Inr led3"
    by (simp add: compensate_def lift_ledger_def void_locked same_inputs_def locked events void_recomputed)
  then show ?thesis unfolding q_def by blast
qed

lemma void_survivor: "surviving_decision float_text (void_ledger q) (Learnings, ''e'') d \<Longrightarrow> d = default_decision"
  by (auto simp: surviving_decision_def survives_def get_run_def find_row_def split: if_splits)

theorem compensation_restores_the_recomputed_state_witness:
  "\<exists>q led' c. compensate (\<lambda>_ _. []) (void_ledger q) ''r'' (Learnings, ''e'') None None 8 12 18000000000 = Inr led' \<and>
     read_cache led' (Learnings, ''e'') = Some c \<and> kc_state c = LValid"
proof -
  define q where "q = entry_digest (\<lambda>_ _. []) (li_inputs demo_inputs)"
  from void_compensated [of "\<lambda>_ _. []"] obtain led'
    where run: "compensate (\<lambda>_ _. []) (void_ledger q) ''r'' (Learnings, ''e'') None None 8 12 18000000000 = Inr led'"
    unfolding q_def by blast
  have fresh: "fresh_event_id (void_ledger q) (Learnings, ''e'') 8" by (simp add: fresh_event_id_def)
  have "read_cache (void_ledger q) (Learnings, ''e'') \<noteq> None" by (simp add: read_cache_def get_cache_def find_row_def cache_of_event_def)
  moreover have "\<not> (\<exists>v \<in> set (events_for_entry (void_ledger q) (Learnings, ''e'')). kv_invalidated_run_id v = Some ''r'')"
    by (simp add: events_for_entry_def)
  ultimately have "\<exists>d c. surviving_decision (\<lambda>_ _. []) (void_ledger q) (Learnings, ''e'') d \<and> read_cache led' (Learnings, ''e'') = Some c \<and> kc_state c = de_state d"
    using compensation_restores_the_recomputed_state [OF void_reachable fresh run, THEN conjunct2] by (elim disjE conjE exE) auto
  then obtain d c where "d = default_decision" "read_cache led' (Learnings, ''e'') = Some c" "kc_state c = de_state d"
    using void_survivor by blast
  with run show ?thesis by (auto simp: default_decision_def plain_decision_def)
qed

end
