(* ===== verification/Knowledge_Checks.thy ===== *)
theory Knowledge_Checks
  imports Knowledge_Guarantees Knowledge_Spec
begin

text \<open>
  \<open>knowledge/checks.py\<close>: the comparison of an extracted assertion with measured sources, and the evaluation
  of one entry in \<open>services/knowledge_lifecycle_pipeline.py\<close> (\<open>_evaluate\<close>), which decides the structural
  observations of the row together with those of its checks and stores the evaluation.

  An assertion has the members of the extraction schema, each a text; an absent or null member is \<open>None\<close>. A stored
  assertion has passed the schema, so it has all of them, and the evaluation refuses any other JSON value.
  \<open>casefold\<close> is Python's folding of a text. What \<open>_extraction\<close> returned for the entry is an argument.
\<close>

section \<open>Sources and assertions\<close>

datatype fact_source = MeasuredSource | ConfigSource | DecisionSource

definition fact_source_text :: "fact_source \<Rightarrow> string" where
  "fact_source_text s = (case s of MeasuredSource \<Rightarrow> ''measured'' | ConfigSource \<Rightarrow> ''config'' | DecisionSource \<Rightarrow> ''decision'')"

record fact_definition =
  fd_domain :: "string list option"
  fd_source_kind :: fact_source
  fd_source :: string

record sources =
  so_tree :: "string list"
  so_identifiers :: "string list"
  so_prs :: "(int \<times> string \<times> at_value option) list"
  so_tickets :: "(string \<times> string \<times> at_value option) list"
  so_facts :: "(string \<times> string option) list"
  so_registry :: "(string \<times> fact_definition) list"
  so_origin_main_sha :: string

record assertion =
  as_quote :: "string option"
  as_check :: "string option"
  as_repo :: "string option"
  as_ref :: "string option"
  as_asserts :: "string option"
  as_claimed_status :: "string option"
  as_fact_key :: "string option"
  as_claimed_value :: "string option"
  as_centrality :: "string option"
  as_temporal :: "string option"

section \<open>Texts and paths\<close>

text \<open>\<open>str.split()\<close> with no separator, on code points.\<close>

definition unicode_space :: "nat \<Rightarrow> bool" where
  "unicode_space c = ((9 \<le> c \<and> c \<le> 13) \<or> (28 \<le> c \<and> c \<le> 32) \<or> c \<in> {133, 160, 5760, 8232, 8233, 8239, 8287, 12288} \<or> (8192 \<le> c \<and> c \<le> 8202))"

fun split_words :: "utext \<Rightarrow> utext \<Rightarrow> utext list" where
  "split_words w [] = (if w = [] then [] else [w])"
| "split_words w (c # cs) =
     (if unicode_space c then (if w = [] then split_words [] cs else w # split_words [] cs) else split_words (w @ [c]) cs)"

definition normalized :: "(utext \<Rightarrow> utext) \<Rightarrow> utext \<Rightarrow> utext" where
  "normalized casefold t = join [32] (split_words [] (casefold t))"

fun is_infix :: "'a list \<Rightarrow> 'a list \<Rightarrow> bool" where
  "is_infix x [] = (x = [])"
| "is_infix x (c # y) = (startswith (c # y) x \<or> is_infix x y)"

definition parts_digest :: "json list \<Rightarrow> string" where
  "parts_digest parts = sha256_hex (utf8 (dumps_ascii [44] [58] (JArr parts)))"

text \<open>\<open>PurePosixPath\<close>: the root, and the components other than empty ones and dots.\<close>

definition path_root :: "string \<Rightarrow> string" where
  "path_root s = (if startswith s ''//'' \<and> \<not> startswith s ''///'' then ''//'' else if startswith s ''/'' then ''/'' else [])"

definition path_parts :: "string \<Rightarrow> string list" where
  "path_parts s = filter (\<lambda>p. p \<noteq> [] \<and> p \<noteq> ''.'') (split_on CHR ''/'' s)"

definition path_text :: "string \<Rightarrow> string list \<Rightarrow> string" where
  "path_text root parts = (let t = root @ join ''/'' parts in if t = [] then ''.'' else t)"

definition path_suffix :: "string \<Rightarrow> string" where
  "path_suffix s = (case rev (path_parts s) of
       [] \<Rightarrow> []
     | name # _ \<Rightarrow>
        (let after = takeWhile (\<lambda>c. c \<noteq> CHR ''.'') (rev name); before = drop (length after + 1) (rev name) in
         if after \<noteq> [] \<and> before \<noteq> [] \<and> length after < length name then ''.'' @ rev after else []))"

definition strip_char :: "char \<Rightarrow> string \<Rightarrow> string" where
  "strip_char c s = rev (dropWhile ((=) c) (rev (dropWhile ((=) c) s)))"

definition endswith :: "'a list \<Rightarrow> 'a list \<Rightarrow> bool" where
  "endswith s p = startswith (rev s) (rev p)"

definition path_present :: "string \<Rightarrow> string list \<Rightarrow> bool" where
  "path_present ref tree =
     (let text = path_text (path_root ref) (path_parts ref);
          suffix = strip_char CHR ''/'' (if startswith text ''./'' then drop 2 text else text) in
      list_ex (\<lambda>path. list_ex (\<lambda>n. let candidate = path_text (path_root path) (take n (path_parts path)) in
          candidate = suffix \<or> endswith candidate (''/'' @ suffix)) [0..<length (path_parts path) + 1]) tree)"

definition PATH_SUFFIXES :: "string list" where
  "PATH_SUFFIXES = [''.py'', ''.pyi'', ''.yml'', ''.yaml'', ''.json'', ''.toml'', ''.md'', ''.sh'', ''.js'', ''.ts'', ''.tsx'', ''.txt'', ''.cfg'', ''.ini'']"

definition path_like :: "string \<Rightarrow> bool" where
  "path_like ref = (CHR ''/'' \<in> set ref \<or> path_suffix ref \<in> set PATH_SUFFIXES)"

section \<open>The check of an assertion\<close>

text \<open>What one kind of check found: the reference, the observed value and whether it equals the claim, the
  source, and the time since when it holds.\<close>

record finding_of_check =
  fc_ref :: string
  fc_current :: string
  fc_equal :: bool
  fc_source_kind :: string
  fc_source_ref :: string
  fc_at :: "at_value option"

definition fact_check :: "sources \<Rightarrow> assertion \<Rightarrow> finding_of_check option" where
  "fact_check so a =
     Option.bind (as_fact_key a) (\<lambda>key.
     Option.bind (map_of (so_registry so) key) (\<lambda>fd.
     Option.bind (as_claimed_value a) (\<lambda>claimed.
     Option.bind (map_of (so_facts so) key) (\<lambda>fact.
     Option.bind fact (\<lambda>measured.
     if (case fd_domain fd of None \<Rightarrow> False | Some d \<Rightarrow> claimed \<notin> set d \<or> measured \<notin> set d) then None
     else Some \<lparr>fc_ref = key, fc_current = measured, fc_equal = (claimed = measured), fc_source_kind = fact_source_text (fd_source_kind fd),
       fc_source_ref = (let r = key @ '':'' @ fd_source fd in
         if fd_source_kind fd = ConfigSource then ''origin/main@'' @ so_origin_main_sha so @ '':'' @ r else r),
       fc_at = None\<rparr>)))))"

definition code_check :: "sources \<Rightarrow> string \<Rightarrow> string \<Rightarrow> assertion \<Rightarrow> finding_of_check option" where
  "code_check so kind ref a =
     Option.bind (as_asserts a) (\<lambda>claimed.
     if ref = [] \<or> ref \<in> {''.'', ''/''} \<or> claimed \<notin> {''exists'', ''absent''} then None
     else (let path = (kind = ''code_path'' \<or> path_like ref); symbol = last (split_on CHR ''.'' ref) in
       if \<not> path \<and> symbol = [] then None
       else (let present = (if path then path_present ref (so_tree so) else symbol \<in> set (so_identifiers so));
                 current = (if present then ''exists'' else ''absent'') in
         Some \<lparr>fc_ref = ref, fc_current = current, fc_equal = (claimed = current), fc_source_kind = ''code'',
           fc_source_ref = ''origin/main@'' @ so_origin_main_sha so @ '':'' @ (if path then ''path'' else ''identifier'') @ '':'' @ ref,
           fc_at = None\<rparr>)))"

definition pr_reference :: "string \<Rightarrow> int option" where
  "pr_reference ref =
     (let digits = (if startswith ref ''#'' then drop 1 ref else ref) in
      if digits \<noteq> [] \<and> hd digits \<noteq> CHR ''0'' \<and> list_all is_digit digits then Some (int (read_nat digits)) else None)"

definition pr_check :: "sources \<Rightarrow> string \<Rightarrow> assertion \<Rightarrow> finding_of_check option" where
  "pr_check so ref a =
     Option.bind (pr_reference ref) (\<lambda>number.
     Option.bind (map_of (so_prs so) number) (\<lambda>(current, ended_at).
     Option.bind (as_claimed_status a) (\<lambda>claimed.
     if claimed \<notin> {''open'', ''merged'', ''closed''} \<or> current \<notin> {''open'', ''merged'', ''closed''} then None
     else Some \<lparr>fc_ref = show_int number, fc_current = current, fc_equal = (claimed = current), fc_source_kind = ''pr'',
       fc_source_ref = ''brain-v42:pr:'' @ show_int number, fc_at = (if current \<noteq> ''open'' then ended_at else None)\<rparr>)))"

text \<open>\<open>str.lower\<close> on the code points below 256.\<close>

definition lower_char :: "char \<Rightarrow> char" where
  "lower_char c = (let n = (of_char c :: nat) in
     if (65 \<le> n \<and> n \<le> 90) \<or> (192 \<le> n \<and> n \<le> 222 \<and> n \<noteq> 215) then char_of (n + 32) else c)"

definition is_hex :: "char \<Rightarrow> bool" where
  "is_hex c = (is_digit c \<or> (97 \<le> (of_char c :: nat) \<and> (of_char c :: nat) \<le> 102))"

definition TICKET_STATES :: "string list" where
  "TICKET_STATES = [''open'', ''resolved'', ''closed'', ''wontfix'']"

definition ticket_check :: "sources \<Rightarrow> string \<Rightarrow> assertion \<Rightarrow> finding_of_check option" where
  "ticket_check so raw a =
     (let ref = map lower_char raw in
      if length ref \<noteq> 8 \<or> \<not> list_all is_hex ref then None
      else Option.bind (map_of (so_tickets so) ref) (\<lambda>(current, at).
        Option.bind (as_claimed_status a) (\<lambda>claimed.
        if claimed \<notin> set TICKET_STATES \<or> current \<notin> set TICKET_STATES then None
        else Some \<lparr>fc_ref = ref, fc_current = current, fc_equal = ((claimed = ''open'') = (current = ''open'')), fc_source_kind = ''ticket'',
          fc_source_ref = ''brain-v42:ticket:'' @ ref, fc_at = at\<rparr>)))"

definition check_of_kind :: "sources \<Rightarrow> string \<Rightarrow> assertion \<Rightarrow> finding_of_check option" where
  "check_of_kind so kind a =
     (let ref = (case as_ref a of None \<Rightarrow> [] | Some r \<Rightarrow> strip r) in
      if kind = ''fact'' then fact_check so a
      else if kind = ''code_path'' \<or> kind = ''code_symbol'' then code_check so kind ref a
      else if kind = ''pr'' then pr_check so ref a
      else if kind = ''ticket'' then ticket_check so ref a
      else None)"

text \<open>A label outside its vocabulary drops the assertion; an absent one is no label.\<close>

definition label_of :: "('a \<Rightarrow> string) \<Rightarrow> 'a list \<Rightarrow> string option \<Rightarrow> 'a option option" where
  "label_of show_value xs t = (case t of None \<Rightarrow> Some None | Some s \<Rightarrow> map_option Some (List.find (\<lambda>x. show_value x = s) xs))"

definition check_observation ::
    "(utext \<Rightarrow> utext) \<Rightarrow> string \<Rightarrow> string \<Rightarrow> string \<Rightarrow> centrality option \<Rightarrow> temporal option \<Rightarrow> finding_of_check \<Rightarrow> (string \<times> observation) option" where
  "check_observation casefold entry_id kind quote centrality temporal f =
     (let d = day_of (fc_at f);
          polarity = (if fc_equal f then Supports else Contradicts);
          key = parts_digest [JStr (codes entry_id), JStr (codes kind), JStr (normalized casefold (codes (fc_ref f))), JStr (normalized casefold (codes quote))];
          oid = parts_digest [JStr (codes key), JStr (codes (fc_source_kind f)), JStr (codes (fc_source_ref f)), JStr (codes (fc_current f)),
            JStr (codes (polarity_text polarity)), (case d of None \<Rightarrow> JNull | Some x \<Rightarrow> JStr (codes (iso_date x)))]
      in map_option (\<lambda>rank. (key, \<lparr>ob_id = oid, ob_assertion_key = Some key, ob_polarity = polarity, ob_source_kind = fc_source_kind f,
          ob_source_rank = rank, ob_source_ref = fc_source_ref f, ob_centrality = centrality, ob_temporal = temporal, ob_valid_from = d,
          ob_valid_from_precision = (if d \<noteq> None then ExactDate else UnknownDate), ob_rule = None, ob_propagated_from = None,
          ob_observed_value = Some (fc_current f)\<rparr>)) (map_of RANKS (fc_source_kind f)))"

definition quoted :: "(utext \<Rightarrow> utext) \<Rightarrow> utext \<Rightarrow> string \<Rightarrow> bool" where
  "quoted casefold text quote =
     (normalized casefold (codes quote) \<noteq> [] \<and> is_infix (normalized casefold (codes quote)) (normalized casefold text))"

text \<open>\<open>Inr None\<close> is an unmappable claim; a source kind without a rank raises.\<close>

definition check :: "(utext \<Rightarrow> utext) \<Rightarrow> assertion \<Rightarrow> sources \<Rightarrow> utext \<Rightarrow> string \<Rightarrow> (pipeline_error, observation option) result" where
  "check casefold a so text entry_id =
     (case (as_quote a, as_check a) of
        (Some quote, Some kind) \<Rightarrow>
          if \<not> quoted casefold text quote \<or> (kind \<in> {''code_path'', ''code_symbol'', ''pr''} \<and> as_repo a \<noteq> Some ''brain-v42'') then Inr None
          else (case (label_of centrality_text [Core, Incidental] (as_centrality a), label_of temporal_text [Transient, Durable] (as_temporal a)) of
              (Some centrality, Some temporal) \<Rightarrow>
                (case check_of_kind so kind a of
                   None \<Rightarrow> Inr None
                 | Some f \<Rightarrow> (case check_observation casefold entry_id kind quote centrality temporal f of
                       None \<Rightarrow> Inl MalformedMetadata
                     | Some (_, ob) \<Rightarrow> Inr (Some ob)))
            | _ \<Rightarrow> Inr None)
      | _ \<Rightarrow> Inr None)"

section \<open>The evaluation of an entry\<close>

definition text_member :: "jsonb option \<Rightarrow> (pipeline_error, string option) result" where
  "text_member j = (case j of Some (BText t) \<Rightarrow> Inr (Some t) | _ \<Rightarrow> Inl MalformedMetadata)"

definition assertion_of_json :: "jsonb \<Rightarrow> (pipeline_error, assertion) result" where
  "assertion_of_json j = (case j of
       BObj d \<Rightarrow>
         (let member = (\<lambda>k. text_member (map_of d k)) in
          res_bind (member ''quote'') (\<lambda>q. res_bind (member ''check'') (\<lambda>c. res_bind (member ''repo'') (\<lambda>r.
          res_bind (member ''ref'') (\<lambda>f. res_bind (member ''asserts'') (\<lambda>s. res_bind (member ''claimed_status'') (\<lambda>cs.
          res_bind (member ''fact_key'') (\<lambda>fk. res_bind (member ''claimed_value'') (\<lambda>cv. res_bind (member ''centrality'') (\<lambda>ce.
          res_bind (member ''temporal'') (\<lambda>te.
          Inr \<lparr>as_quote = q, as_check = c, as_repo = r, as_ref = f, as_asserts = s, as_claimed_status = cs, as_fact_key = fk,
            as_claimed_value = cv, as_centrality = ce, as_temporal = te\<rparr>)))))))))))
     | _ \<Rightarrow> Inl MalformedMetadata)"

definition check_reference :: "assertion \<Rightarrow> (pipeline_error, string \<times> string) result" where
  "check_reference a = (case (as_check a, if as_check a = Some ''fact'' then as_fact_key a else as_ref a) of
       (Some kind, Some ref) \<Rightarrow> Inr (kind, ref) | _ \<Rightarrow> Inl MalformedMetadata)"

definition lstrip_hash :: "string \<Rightarrow> string" where
  "lstrip_hash s = dropWhile ((=) CHR ''#'') s"

text \<open>\<open>str.isdigit\<close> accepts the superscripts, which \<open>int\<close> refuses.\<close>

definition is_digit_like :: "char \<Rightarrow> bool" where
  "is_digit_like c = (is_digit c \<or> (of_char c :: nat) \<in> {178, 179, 185})"

definition unreachable :: "assertion \<Rightarrow> sources \<Rightarrow> string \<Rightarrow> (pipeline_error, bool) result" where
  "unreachable a so kind =
     (if kind = ''fact'' then Inr (case as_fact_key a of None \<Rightarrow> False
         | Some key \<Rightarrow> map_of (so_registry so) key \<noteq> None \<and> (case map_of (so_facts so) key of Some (Some _) \<Rightarrow> False | _ \<Rightarrow> True))
      else (case as_ref a of
          None \<Rightarrow> Inl MalformedMetadata
        | Some ref \<Rightarrow>
            (let digits = lstrip_hash ref in
             if kind = ''pr'' \<and> digits \<noteq> [] \<and> list_all is_digit_like digits
             then (if list_all is_digit digits then Inr (map_of (so_prs so) (int (read_nat digits)) = None) else Inl MalformedMetadata)
             else if kind = ''ticket'' then Inr (map_of (so_tickets so) (map lower_char ref) = None)
             else Inr False)))"

fun check_loop ::
    "(utext \<Rightarrow> utext) \<Rightarrow> sources \<Rightarrow> string list \<Rightarrow> utext \<Rightarrow> string \<Rightarrow> jsonb list \<Rightarrow> observation list \<times> bool
     \<Rightarrow> (pipeline_error, observation list \<times> bool) result" where
  "check_loop casefold so failed text entry_id [] acc = Inr acc"
| "check_loop casefold so failed text entry_id (j # js) (obs, complete) =
     res_bind (assertion_of_json j) (\<lambda>a.
     res_bind (check_reference a) (\<lambda>(kind, ref).
     if kind \<in> set failed \<or> kind @ '':'' @ ref \<in> set failed then check_loop casefold so failed text entry_id js (obs, False)
     else res_bind (check casefold a so text entry_id) (\<lambda>found. case found of
         Some ob \<Rightarrow> check_loop casefold so failed text entry_id js (obs @ [ob], complete)
       | None \<Rightarrow> res_bind (unreachable a so kind) (\<lambda>missing. check_loop casefold so failed text entry_id js (obs, complete \<and> \<not> missing)))))"

definition lift_decide :: "(decide_error, 'a) result \<Rightarrow> (pipeline_error, 'a) result" where
  "lift_decide r = (case r of Inl e \<Rightarrow> Inl (DecideError e) | Inr x \<Rightarrow> Inr x)"

definition gather ::
    "(int \<Rightarrow> nat \<Rightarrow> utext) \<Rightarrow> (utext \<Rightarrow> utext) \<Rightarrow> sources \<Rightarrow> string list \<Rightarrow> entry_inputs \<Rightarrow> extraction_row option \<Rightarrow> day
     \<Rightarrow> (pipeline_error, observation list \<times> decision \<times> bool) result" where
  "gather float_text casefold so failed row stored today =
     res_bind (lift_decide (decide (entry_structure row) today)) (\<lambda>candidate.
     res_bind (case stored of
         None \<Rightarrow> Inr (entry_structure row, False)
       | Some x \<Rightarrow>
           if de_layer candidate = StructuralLayer then Inr (entry_structure row, True)
           else check_loop casefold so failed (entry_text float_text row) (snd (ei_entry row)) (kx_assertions x) (entry_structure row, True))
       (\<lambda>(obs, complete).
     res_bind (lift_decide (decide obs today)) (\<lambda>d. Inr (obs, d, complete \<or> de_layer d = StructuralLayer))))"

definition KNOWLEDGE_VERSION :: string where
  "KNOWLEDGE_VERSION = ''v1''"

definition evaluation_of ::
    "(int \<Rightarrow> nat \<Rightarrow> utext) \<Rightarrow> string \<Rightarrow> entry_inputs \<Rightarrow> day \<Rightarrow> string \<Rightarrow> observation list \<Rightarrow> decision \<Rightarrow> bool \<Rightarrow> cache_row option
     \<Rightarrow> int option \<Rightarrow> int \<Rightarrow> evaluation_row" where
  "evaluation_of float_text run_id row today sha obs d complete cache extraction_id new_id =
     \<lparr>ke_id = new_id, ke_run_id = run_id, ke_entry = ei_entry row, ke_entry_digest = entry_digest float_text row,
      ke_extraction_id = extraction_id, ke_expected_cache_revision = (case cache of None \<Rightarrow> 0 | Some c \<Rightarrow> kc_revision c),
      ke_rules_version = KNOWLEDGE_VERSION, ke_ranks_version = KNOWLEDGE_VERSION, ke_registry_version = KNOWLEDGE_VERSION,
      ke_origin_main_sha = sha, ke_observed_day = today, ke_complete = complete, ke_state = de_state d, ke_reason = de_reason d,
      ke_fingerprint = decision_fingerprint d obs\<rparr>"

definition numbered_rows :: "int \<Rightarrow> observation list \<Rightarrow> justification_row list" where
  "numbered_rows first obs = map2 (\<lambda>i ob. (pack_observation ob)\<lparr>kj_id := i\<rparr>) (map (\<lambda>n. first + int n) [0..<length obs]) obs"

definition evaluate_entry ::
    "(int \<Rightarrow> nat \<Rightarrow> utext) \<Rightarrow> (utext \<Rightarrow> utext) \<Rightarrow> sources \<Rightarrow> string list \<Rightarrow> ledger \<Rightarrow> string \<Rightarrow> entry_inputs \<Rightarrow> extraction_row option \<Rightarrow> day
     \<Rightarrow> int \<Rightarrow> int \<Rightarrow> (pipeline_error, ledger) result" where
  "evaluate_entry float_text casefold so failed led run_id row stored today new_id first_id =
     (if list_ex (\<lambda>ev. ke_run_id (ee_evaluation ev) = run_id) (evaluations_for_entry led (ei_entry row)) then Inr led
      else res_bind (gather float_text casefold so failed row stored today) (\<lambda>(obs, d, complete).
        res_bind (lift_ledger (insert_evaluation led
          (evaluation_of float_text run_id row today (so_origin_main_sha so) obs d complete (read_cache led (ei_entry row)) (map_option kx_id stored) new_id)
          (numbered_rows first_id obs))) (\<lambda>(led1, e).
        save_snapshot led1 run_id (ke_id e) row)))"

section \<open>What a check observes\<close>

lemma label_of_Some:
  assumes "label_of show_value xs t = Some (Some x)"
  shows "t = Some (show_value x)"
  using assms by (auto simp: label_of_def find_Some_iff split: option.splits)

lemma check_observation_fields:
  assumes "check_observation casefold entry_id kind quote centrality temporal f = Some (key, ob)"
  shows "ob_polarity ob = (if fc_equal f then Supports else Contradicts)" "ob_source_kind ob = fc_source_kind f"
    "map_of RANKS (fc_source_kind f) = Some (ob_source_rank ob)" "ob_centrality ob = centrality" "ob_temporal ob = temporal"
    "ob_rule ob = None" "ob_assertion_key ob = Some key"
  using assms by (auto simp: check_observation_def Let_def)

lemma check_Some:
  assumes "check casefold a so text entry_id = Inr (Some ob)"
  obtains quote kind centrality temporal f key where "as_quote a = Some quote" "as_check a = Some kind" "quoted casefold text quote"
    "label_of centrality_text [Core, Incidental] (as_centrality a) = Some centrality"
    "label_of temporal_text [Transient, Durable] (as_temporal a) = Some temporal" "check_of_kind so kind a = Some f"
    "check_observation casefold entry_id kind quote centrality temporal f = Some (key, ob)"
  using assms by (auto simp: check_def split: option.splits if_splits prod.splits)

lemma ranked_high:
  assumes "map_of RANKS s = Some r" and "5 \<le> r"
  shows "s \<in> {''structure'', ''measured'', ''config''}"
  using assms by (auto simp: RANKS_def split: if_splits)

lemma code_check_source: "code_check so kind ref a = Some f \<Longrightarrow> fc_source_kind f = ''code''"
  by (auto simp: code_check_def Let_def bind_eq_Some_conv split: if_split_asm)

lemma pr_check_source: "pr_check so ref a = Some f \<Longrightarrow> fc_source_kind f = ''pr''"
  by (auto simp: pr_check_def bind_eq_Some_conv split: if_split_asm)

lemma ticket_check_source: "ticket_check so ref a = Some f \<Longrightarrow> fc_source_kind f = ''ticket''"
  by (auto simp: ticket_check_def Let_def bind_eq_Some_conv split: if_split_asm)

lemma other_kinds:
  assumes "check_of_kind so kind a = Some f" and "kind \<noteq> ''fact''"
  shows "fc_source_kind f = ''code'' \<or> fc_source_kind f = ''pr'' \<or> fc_source_kind f = ''ticket''"
  using assms unfolding check_of_kind_def Let_def
  by (simp only: if_False split: if_split_asm) (auto dest: code_check_source pr_check_source ticket_check_source)

lemma fact_check_Some:
  assumes "fact_check so a = Some f"
  obtains key fd claimed measured where "as_fact_key a = Some key" "map_of (so_registry so) key = Some fd" "as_claimed_value a = Some claimed"
    "map_of (so_facts so) key = Some (Some measured)" "fc_source_kind f = fact_source_text (fd_source_kind fd)" "fc_equal f = (claimed = measured)"
  using assms by (auto simp: fact_check_def bind_eq_Some_conv split: if_splits)

definition checked_by ::
    "(utext \<Rightarrow> utext) \<Rightarrow> sources \<Rightarrow> string list \<Rightarrow> utext \<Rightarrow> string \<Rightarrow> jsonb \<Rightarrow> assertion \<Rightarrow> observation \<Rightarrow> bool" where
  "checked_by casefold so failed text entry_id j a ob =
     (assertion_of_json j = Inr a \<and> check casefold a so text entry_id = Inr (Some ob) \<and>
      (\<exists>kind ref. check_reference a = Inr (kind, ref) \<and> kind \<notin> set failed \<and> kind @ '':'' @ ref \<notin> set failed))"

lemma check_loop_observations:
  assumes "check_loop casefold so failed text entry_id js (obs, complete) = Inr (obs', complete')" and "ob \<in> set obs'"
  shows "ob \<in> set obs \<or> (\<exists>j \<in> set js. \<exists>a. checked_by casefold so failed text entry_id j a ob)"
  using assms
proof (induction js arbitrary: obs complete)
  case (Cons j js)
  from Cons.prems(1) obtain a kind ref where a: "assertion_of_json j = Inr a" "check_reference a = Inr (kind, ref)"
    by (auto simp: res_bind_eq_Inr)
  show ?case
  proof (cases "kind \<in> set failed \<or> kind @ '':'' @ ref \<in> set failed")
    case True
    with Cons.prems(1) a have "check_loop casefold so failed text entry_id js (obs, False) = Inr (obs', complete')" by simp
    from Cons.IH [OF this Cons.prems(2)] show ?thesis by auto
  next
    case False
    with Cons.prems(1) a obtain found where found: "check casefold a so text entry_id = Inr found"
      by (auto simp: res_bind_eq_Inr)
    show ?thesis
    proof (cases found)
      case None
      with Cons.prems(1) a False found obtain c where "check_loop casefold so failed text entry_id js (obs, c) = Inr (obs', complete')"
        by (auto simp: res_bind_eq_Inr)
      from Cons.IH [OF this Cons.prems(2)] show ?thesis by auto
    next
      case (Some x)
      with Cons.prems(1) a False found have "check_loop casefold so failed text entry_id js (obs @ [x], complete) = Inr (obs', complete')" by simp
      from Cons.IH [OF this Cons.prems(2)] a False found Some show ?thesis by (auto simp: checked_by_def)
    qed
  qed
qed simp

lemma refuted_evidence:
  assumes "decide obs today = Inr d" and "de_state d = LRefuted"
  shows "\<exists>o1 \<in> set obs. ob_polarity o1 = Contradicts \<and> ob_centrality o1 = Some Core \<and> ob_temporal o1 = Some Durable \<and>
    5 \<le> ob_source_rank o1 \<and> ob_assertion_key o1 \<noteq> None"
proof -
  have "lifecycle_state_spec (set obs) = LRefuted" using decide_state [OF assms(1)] assms(2) by simp
  then obtain k o1 where k: "contradicted (set obs) k" "o1 \<in> top_of (set obs) k" "ob_centrality o1 = Some Core"
    "ob_temporal o1 = Some Durable" "5 \<le> ob_source_rank o1"
    by (auto simp: lifecycle_state_spec_def split: if_splits)
  moreover from k(1,2) have "ob_polarity o1 = Contradicts" by (simp add: contradicted_def)
  moreover from k(2) have "o1 \<in> set obs" "ob_assertion_key o1 \<noteq> None"
    by (auto simp: top_of_def counting_def assertion_of_def split: if_splits)
  ultimately show ?thesis by blast
qed

lemma gather_observations:
  assumes "gather float_text casefold so failed row stored today = Inr (obs, d, complete)"
  shows "decide obs today = Inr d"
    and "ob \<in> set obs \<Longrightarrow> ob \<in> set (entry_structure row) \<or>
      (\<exists>x j a. stored = Some x \<and> j \<in> set (kx_assertions x) \<and>
         checked_by casefold so failed (entry_text float_text row) (snd (ei_entry row)) j a ob)"
  using assms
  by (auto simp: gather_def lift_decide_def res_bind_eq_Inr split: option.splits if_splits sum.splits dest!: check_loop_observations)

lemma core_contradiction_is_measured:
  assumes "checked_by casefold so failed text entry_id j a ob" and "ob_polarity ob = Contradicts" and "ob_centrality ob = Some Core"
    and "ob_temporal ob = Some Durable" and "5 \<le> ob_source_rank ob"
  shows "\<exists>quote key fd claimed measured. assertion_of_json j = Inr a \<and>
    as_check a = Some ''fact'' \<and> as_quote a = Some quote \<and> quoted casefold text quote \<and>
    as_centrality a = Some ''core'' \<and> as_temporal a = Some ''durable'' \<and> as_fact_key a = Some key \<and>
    map_of (so_registry so) key = Some fd \<and> fd_source_kind fd \<in> {MeasuredSource, ConfigSource} \<and>
    as_claimed_value a = Some claimed \<and> map_of (so_facts so) key = Some (Some measured) \<and> claimed \<noteq> measured \<and>
    ''fact'' \<notin> set failed \<and> ''fact:'' @ key \<notin> set failed"
proof -
  from assms(1) have j: "assertion_of_json j = Inr a" and ok: "check casefold a so text entry_id = Inr (Some ob)"
    by (auto simp: checked_by_def)
  from assms(1) obtain kind ref where ref: "check_reference a = Inr (kind, ref)" "kind \<notin> set failed" "kind @ '':'' @ ref \<notin> set failed"
    by (auto simp: checked_by_def)
  from ok obtain quote kind' centrality temporal f key' where c: "as_quote a = Some quote" "as_check a = Some kind'"
    "quoted casefold text quote" "label_of centrality_text [Core, Incidental] (as_centrality a) = Some centrality"
    "label_of temporal_text [Transient, Durable] (as_temporal a) = Some temporal" "check_of_kind so kind' a = Some f"
    "check_observation casefold entry_id kind' quote centrality temporal f = Some (key', ob)" by (rule check_Some)
  note fields = check_observation_fields [OF c(7)]
  have kind: "kind' = ''fact''"
  proof (rule ccontr)
    assume "kind' \<noteq> ''fact''"
    from other_kinds [OF c(6) this] ranked_high [OF fields(3) assms(5)] show False by auto
  qed
  with c(6) have "fact_check so a = Some f" by (simp add: check_of_kind_def)
  then obtain key fd claimed measured where f: "as_fact_key a = Some key" "map_of (so_registry so) key = Some fd"
    "as_claimed_value a = Some claimed" "map_of (so_facts so) key = Some (Some measured)"
    "fc_source_kind f = fact_source_text (fd_source_kind fd)" "fc_equal f = (claimed = measured)" by (rule fact_check_Some)
  from ranked_high [OF fields(3) assms(5)] have "fd_source_kind fd \<in> {MeasuredSource, ConfigSource}"
    by (cases "fd_source_kind fd") (simp_all add: f fact_source_text_def)
  moreover have "claimed \<noteq> measured" using fields(1) assms(2) by (simp add: f split: if_splits)
  moreover have "as_centrality a = Some ''core''" "as_temporal a = Some ''durable''"
    using c(4,5) fields(4,5) assms(3,4) label_of_Some [of centrality_text "[Core, Incidental]" "as_centrality a" Core]
      label_of_Some [of temporal_text "[Transient, Durable]" "as_temporal a" Durable]
    by (simp_all add: centrality_text_def temporal_text_def)
  moreover have "kind = ''fact''" "ref = key" using ref(1) c(2) kind f(1) by (auto simp: check_reference_def split: option.splits)
  ultimately show ?thesis using j c kind f ref by auto
qed

lemma evaluate_entry_new:
  assumes "evaluate_entry float_text casefold so failed led run_id row stored today new_id first_id = Inr led'"
    and "e \<in> set (kl_evaluations led') - set (kl_evaluations led)"
  shows "\<exists>obs d complete. gather float_text casefold so failed row stored today = Inr (obs, d, complete) \<and>
    e = evaluation_of float_text run_id row today (so_origin_main_sha so) obs d complete (read_cache led (ei_entry row)) (map_option kx_id stored) new_id"
proof -
  from assms obtain obs d complete where g: "gather float_text casefold so failed row stored today = Inr (obs, d, complete)"
    by (auto simp: evaluate_entry_def res_bind_eq_Inr split: if_splits)
  define n where "n = evaluation_of float_text run_id row today (so_origin_main_sha so) obs d complete (read_cache led (ei_entry row)) (map_option kx_id stored) new_id"
  from assms g obtain led1 e1 where i: "insert_evaluation led n (numbered_rows first_id obs) = Inr (led1, e1)" "save_snapshot led1 run_id (ke_id e1) row = Inr led'"
    by (auto simp: evaluate_entry_def n_def res_bind_eq_Inr split: if_splits)
  have "set (kl_evaluations led1) \<subseteq> insert n (set (kl_evaluations led))"
    using i(1) by (auto simp: insert_evaluation_def res_bind_eq_Inr split: option.splits)
  moreover have "kl_evaluations led' = kl_evaluations led1"
    using i(2) by (auto simp: save_snapshot_def set_count_key_def split: option.splits)
  ultimately have "e = n" using assms(2) by auto
  with g show ?thesis by (auto simp: n_def)
qed

section \<open>A sample evaluation\<close>

definition port_row :: entry_inputs where
  "port_row = \<lparr>ei_entry = (Learnings, ''e''), ei_text_fields = [(''topic'', Some (BText ''On Port 8000.''))],
     ei_entry_project_key = None, ei_created_at = 0, ei_content_updated_at = 0, ei_merged_into = None, ei_freshness_status = None,
     ei_freshness_status_updated_at = None, ei_status = None, ei_superseded_by = None, ei_successor_exists = False, ei_successor_created_at = None\<rparr>"

definition port_assertion :: assertion where
  "port_assertion = \<lparr>as_quote = Some ''port  8000'', as_check = Some ''fact'', as_repo = Some [], as_ref = Some ''gateway'', as_asserts = Some ''exists'',
     as_claimed_status = Some ''unknown'', as_fact_key = Some ''gateway.port'', as_claimed_value = Some ''8000'',
     as_centrality = Some ''core'', as_temporal = Some ''durable''\<rparr>"

definition port_extraction :: "string \<Rightarrow> extraction_row" where
  "port_extraction digest = \<lparr>kx_id = 3, kx_run_id = ''r'', kx_entry = (Learnings, ''e''), kx_entry_digest = digest, kx_model = ''m'', kx_prompt_version = ''v1'',
     kx_assertions = [BObj [(''assertion_key'', BText ''k''), (''quote'', BText ''port  8000''), (''check'', BText ''fact''), (''repo'', BText []),
       (''ref'', BText ''gateway''), (''asserts'', BText ''exists''), (''claimed_status'', BText ''unknown''), (''fact_key'', BText ''gateway.port''),
       (''claimed_value'', BText ''8000''), (''centrality'', BText ''core''), (''temporal'', BText ''durable'')]]\<rparr>"

definition port_sources :: sources where
  "port_sources = \<lparr>so_tree = [], so_identifiers = [], so_prs = [], so_tickets = [], so_facts = [(''gateway.port'', Some ''8010'')],
     so_registry = [(''gateway.port'', \<lparr>fd_domain = None, fd_source_kind = ConfigSource, fd_source = ''compose.yml''\<rparr>)], so_origin_main_sha = ''abc''\<rparr>"

definition port_ledger :: "string \<Rightarrow> ledger" where
  "port_ledger digest = (demo_ledger [demo_run RunResultsStored] [])\<lparr>kl_extractions := [port_extraction digest]\<rparr>"

definition no_float :: "int \<Rightarrow> nat \<Rightarrow> utext" where
  "no_float m s = []"

lemma port_structure: "entry_structure port_row = []"
  by code_simp

lemma port_assertion_fields [simp]:
  "as_quote port_assertion = Some ''port  8000''" "as_check port_assertion = Some ''fact''"
  "as_centrality port_assertion = Some ''core''" "as_temporal port_assertion = Some ''durable''" "as_fact_key port_assertion = Some ''gateway.port''"
  by (simp_all add: port_assertion_def)

lemma empty_evidence: "\<exists>d. decide [] 20000 = Inr d \<and> de_layer d \<noteq> StructuralLayer"
proof -
  have "(case decide [] 20000 of Inr d \<Rightarrow> de_layer d \<noteq> StructuralLayer | Inl _ \<Rightarrow> False)" by code_simp
  then show ?thesis by (simp split: sum.splits)
qed

definition ascii_fold :: "utext \<Rightarrow> utext" where
  "ascii_fold = map (\<lambda>c. if 65 \<le> c \<and> c \<le> 90 then c + 32 else c)"

lemma port_text: "entry_text no_float port_row = codes (CHR ''{'' # [CHR 0x22] @ ''topic'' @ [CHR 0x22] @ '':'' @ [CHR 0x22] @ ''On Port 8000.'' @ [CHR 0x22] @ ''}'')"
  by code_simp

lemma port_quoted: "quoted ascii_fold (entry_text no_float port_row) ''port  8000''"
  unfolding port_text quoted_def normalized_def ascii_fold_def by (simp add: codes_def unicode_space_def startswith_def)

lemma port_fact:
  "fact_check port_sources port_assertion = Some \<lparr>fc_ref = ''gateway.port'', fc_current = ''8010'', fc_equal = False, fc_source_kind = ''config'',
     fc_source_ref = ''origin/main@abc:gateway.port:compose.yml'', fc_at = None\<rparr>"
  by code_simp

lemma port_checked:
  "\<exists>ob. check ascii_fold port_assertion port_sources (entry_text no_float port_row) ''e'' = Inr (Some ob) \<and> ob_polarity ob = Contradicts \<and>
     ob_source_kind ob = ''config'' \<and> ob_source_rank ob = 5 \<and> ob_centrality ob = Some Core \<and> ob_temporal ob = Some Durable \<and>
     ob_rule ob = None \<and> ob_assertion_key ob \<noteq> None"
proof -
  have labels: "label_of centrality_text [Core, Incidental] (Some ''core'') = Some (Some Core)"
    "label_of temporal_text [Transient, Durable] (Some ''durable'') = Some (Some Durable)" by code_simp+
  have rank: "map_of RANKS ''config'' = Some 5" by code_simp
  have "check ascii_fold port_assertion port_sources (entry_text no_float port_row) ''e'' =
      (case check_observation ascii_fold ''e'' ''fact'' ''port  8000'' (Some Core) (Some Durable) (the (fact_check port_sources port_assertion)) of
         None \<Rightarrow> Inl MalformedMetadata | Some (_, ob) \<Rightarrow> Inr (Some ob))"
    using port_quoted labels by (simp add: check_def check_of_kind_def port_fact)
  then show ?thesis by (simp add: port_fact check_observation_def Let_def rank)
qed

text \<open>C8: An entry is evaluated as refuted only on a measured fact. When the evaluation of an entry stores the refuted
  state, its extraction holds an assertion, quoted from the text of the entry and labelled core and durable, that
  claims a value of a registered fact; the fact was measured or read from the configuration, its source had not
  failed, and the measured value is another one. No code, pull request or ticket check and no decision
  can refute an entry.\<close>

theorem refutation_is_measured:
  assumes "evaluate_entry float_text casefold so failed led run_id row stored today new_id first_id = Inr led'"
    and "e \<in> set (kl_evaluations led') - set (kl_evaluations led)" and "ke_state e = LRefuted"
  shows "\<exists>x j a quote key fd claimed measured. stored = Some x \<and> j \<in> set (kx_assertions x) \<and> assertion_of_json j = Inr a \<and>
    as_check a = Some ''fact'' \<and> as_quote a = Some quote \<and> quoted casefold (entry_text float_text row) quote \<and>
    as_centrality a = Some ''core'' \<and> as_temporal a = Some ''durable'' \<and> as_fact_key a = Some key \<and>
    map_of (so_registry so) key = Some fd \<and> fd_source_kind fd \<in> {MeasuredSource, ConfigSource} \<and>
    as_claimed_value a = Some claimed \<and> map_of (so_facts so) key = Some (Some measured) \<and> claimed \<noteq> measured \<and>
    ''fact'' \<notin> set failed \<and> ''fact:'' @ key \<notin> set failed"
proof -
  from evaluate_entry_new [OF assms(1,2)] obtain obs d complete where
    g: "gather float_text casefold so failed row stored today = Inr (obs, d, complete)" and "ke_state e = de_state d"
    by (auto simp: evaluation_of_def)
  with assms(3) have d: "decide obs today = Inr d" "de_state d = LRefuted" using gather_observations(1) [OF g] by simp_all
  from refuted_evidence [OF d] obtain ob where ob: "ob \<in> set obs" "ob_polarity ob = Contradicts" "ob_centrality ob = Some Core"
    "ob_temporal ob = Some Durable" "5 \<le> ob_source_rank ob" "ob_assertion_key ob \<noteq> None" by blast
  have "ob \<notin> set (entry_structure row)" using ob(6) structural_fields by (auto simp: entry_structure_def)
  then obtain x j a where x: "stored = Some x" "j \<in> set (kx_assertions x)"
    "checked_by casefold so failed (entry_text float_text row) (snd (ei_entry row)) j a ob"
    using gather_observations(2) [OF g ob(1)] by blast
  from core_contradiction_is_measured [OF x(3) ob(2-5)] x(1,2) show ?thesis by blast
qed


lemma port_gathered:
  "\<exists>ob d. gather no_float ascii_fold port_sources [] port_row (Some (port_extraction digest)) 20000 = Inr ([ob], d, True) \<and>
     de_state d = LRefuted \<and> ob_source_kind ob = ''config'' \<and> ob_source_rank ob = 5"
proof -
  obtain ob where ob: "check ascii_fold port_assertion port_sources (entry_text no_float port_row) ''e'' = Inr (Some ob)"
    "ob_polarity ob = Contradicts" "ob_source_kind ob = ''config''" "ob_source_rank ob = 5" "ob_centrality ob = Some Core"
    "ob_temporal ob = Some Durable" "ob_rule ob = None" "ob_assertion_key ob \<noteq> None" using port_checked by blast
  obtain d0 where d0: "decide [] 20000 = Inr d0" "de_layer d0 \<noteq> StructuralLayer" using empty_evidence by blast
  have "evidence_ok (set [ob])" by (simp add: evidence_ok_def ob)
  then have "is_ok (decide [ob] 20000)" by (simp only: decide_ok_iff)
  then obtain d where d: "decide [ob] 20000 = Inr d" by (cases "decide [ob] 20000") auto
  from ob(8) obtain k where k: "ob_assertion_key ob = Some k" by blast
  have top: "top_of {ob} k = {ob}"
    using k ob by (auto simp: top_of_def counting_def assertion_of_def exempt_def)
  have "lifecycle_state_spec (set [ob]) = LRefuted"
  proof -
    have "contradicted {ob} k \<and> (\<exists>o1 \<in> top_of {ob} k. ob_centrality o1 = Some Core \<and> ob_temporal o1 = Some Durable \<and> 5 \<le> ob_source_rank o1)"
      by (simp add: contradicted_def top ob)
    then have "\<exists>k. contradicted {ob} k \<and> (\<exists>o1 \<in> top_of {ob} k. ob_centrality o1 = Some Core \<and> ob_temporal o1 = Some Durable \<and> 5 \<le> ob_source_rank o1)"
      by blast
    then show ?thesis by (simp add: lifecycle_state_spec_def ob)
  qed
  with decide_state [OF d] have "de_state d = LRefuted" by simp
  moreover have "check_loop ascii_fold port_sources [] (entry_text no_float port_row) ''e'' (kx_assertions (port_extraction digest)) ([], True) = Inr ([ob], True)"
  proof -
    obtain j where j: "kx_assertions (port_extraction digest) = [j]" "assertion_of_json j = Inr port_assertion"
      by (simp add: port_extraction_def assertion_of_json_def text_member_def port_assertion_def)
    then show ?thesis using ob(1) by (simp add: check_reference_def)
  qed
  then have "gather no_float ascii_fold port_sources [] port_row (Some (port_extraction digest)) 20000 = Inr ([ob], d, True)"
    using d0 d by (simp add: gather_def port_structure lift_decide_def) (simp add: port_row_def)
  ultimately show ?thesis using ob by blast
qed

theorem refutation_is_measured_witness:
  "\<exists>led' e. evaluate_entry no_float ascii_fold port_sources [] (port_ledger (entry_digest no_float port_row)) ''r'' port_row
       (Some (port_extraction (entry_digest no_float port_row))) 20000 1 1 = Inr led' \<and>
     e \<in> set (kl_evaluations led') - set (kl_evaluations (port_ledger (entry_digest no_float port_row))) \<and> ke_state e = LRefuted \<and>
     (\<exists>j a key. j \<in> set (kx_assertions (port_extraction (entry_digest no_float port_row))) \<and> assertion_of_json j = Inr a \<and> as_fact_key a = Some key)"
proof -
  define q where "q = entry_digest no_float port_row"
  obtain ob d where g: "gather no_float ascii_fold port_sources [] port_row (Some (port_extraction q)) 20000 = Inr ([ob], d, True)"
    "de_state d = LRefuted" "ob_source_kind ob = ''config''" "ob_source_rank ob = 5" using port_gathered by blast
  define e where "e = evaluation_of no_float ''r'' port_row 20000 (so_origin_main_sha port_sources) [ob] d True None (Some 3) 1"
  have e: "ke_run_id e = ''r''" "ke_id e = 1" "ke_entry e = (Learnings, ''e'')" "ke_extraction_id e = Some 3" "ke_entry_digest e = q"
    "ke_expected_cache_revision e = 0" "ke_state e = LRefuted"
    by (simp_all add: e_def evaluation_of_def q_def g(2)) (simp add: port_row_def)
  have rank: "map_of RANKS ''config'' = Some 5" by code_simp
  have ins: "\<exists>led1. insert_evaluation (port_ledger q) e (numbered_rows 1 [ob]) = Inr (led1, e) \<and> kl_evaluations led1 = [e] \<and>
      kl_runs led1 = [demo_run RunResultsStored]"
    by (simp add: insert_evaluation_def port_ledger_def demo_ledger_def e find_row_def get_run_def demo_run_def extraction_of_evaluation_def
      port_extraction_def numbered_rows_def insert_justification_def Let_def pack_observation_def g rank)
  then obtain led1 where led1: "insert_evaluation (port_ledger q) e (numbered_rows 1 [ob]) = Inr (led1, e)" "kl_evaluations led1 = [e]"
    "kl_runs led1 = [demo_run RunResultsStored]" by blast
  have "\<exists>led'. save_snapshot led1 ''r'' 1 port_row = Inr led' \<and> kl_evaluations led' = [e]"
    by (simp add: save_snapshot_def set_count_key_def led1 get_run_def find_row_def demo_run_def nested_counter_def)
  then obtain led' where led': "save_snapshot led1 ''r'' 1 port_row = Inr led'" "kl_evaluations led' = [e]" by blast
  have row: "ei_entry port_row = (Learnings, ''e'')" by (simp add: port_row_def)
  have run: "evaluate_entry no_float ascii_fold port_sources [] (port_ledger q) ''r'' port_row (Some (port_extraction q)) 20000 1 1 = Inr led'"
  proof -
    have none: "evaluations_for_entry (port_ledger q) (Learnings, ''e'') = []" "read_cache (port_ledger q) (Learnings, ''e'') = None"
      by (simp_all add: evaluations_for_entry_def read_cache_def get_cache_def find_row_def port_ledger_def demo_ledger_def List.map_filter_simps)
    have "kx_id (port_extraction q) = 3" by (simp add: port_extraction_def)
    with led1(1) led'(1) e(2) show ?thesis by (simp add: evaluate_entry_def g(1) row none lift_ledger_def flip: e_def)
  qed
  have new: "e \<in> set (kl_evaluations led') - set (kl_evaluations (port_ledger q))" by (simp add: led' port_ledger_def demo_ledger_def)
  from refutation_is_measured [OF run new e(7)] run new e(7) show ?thesis unfolding q_def by blast
qed

end
