(* ===== verification/Merge_Chains.thy ===== *)
theory Merge_Chains
  imports Prelude
begin

text \<open>
  Flattening of merge pointers, \<open>src/brain_v42/maintenance/merge_chain_repair.py\<close>: the inventory of
  the six tables (a recursive query per table) and the approved repair.

  \<^item> A walk of the recursive query has at most one successor, because \<open>id\<close> is the primary key; \<open>walk_end\<close>
    is its last row. The walk is bounded by \<open>MAX_DEPTH\<close>, as in the query.
  \<^item> \<open>repair\<close> takes as arguments whether a transaction is open, whether the table locks were acquired in
    time, and \<open>guard\<close>, the verdict of the deferred merge-chain constraints on the written tables (a
    trigger of the database, when it is installed). The graph ledger entries a registry trigger adds
    are not modelled.
\<close>

section \<open>Tables and walks\<close>

definition MAX_DEPTH :: nat where
  "MAX_DEPTH = 64"

record merge_row =
  mg_id :: uuid
  mg_merged_into :: "uuid option"
  mg_project :: "string option"

record merge_table =
  mt_name :: string
  mt_entity_type :: "string option"
  mt_rows :: "merge_row list"

definition TABLES :: "(string \<times> string option) list" where
  "TABLES = [(''adrs'', Some ''adr''), (''decisions'', Some ''decision''), (''features'', None),
     (''learnings'', Some ''learning''), (''runbooks'', Some ''runbook''), (''snippets'', Some ''snippet'')]"

record log_entry =
  le_source :: uuid
  le_target :: uuid
  le_entity_type :: string

record merge_db =
  md_tables :: "merge_table list"
  md_log :: "log_entry list"

definition get_merge_row :: "merge_row list \<Rightarrow> uuid \<Rightarrow> merge_row option" where
  "get_merge_row rows i = find_row (\<lambda>r. mg_id r = i) rows"

interpretation merge_rows: keyed_table mg_id get_merge_row
  by unfold_locales (simp add: get_merge_row_def)

record walk_row =
  wk_id :: uuid
  wk_merged_into :: uuid
  wk_project :: "string option"
  wk_current :: uuid
  wk_next :: "uuid option"
  wk_current_project :: "string option"
  wk_path :: "uuid list"
  wk_depth :: nat
  wk_cycle :: bool
  wk_dangling :: bool
  wk_transits :: bool
  wk_chained :: bool

definition walk_start :: "merge_row list \<Rightarrow> merge_row \<Rightarrow> uuid \<Rightarrow> walk_row" where
  "walk_start rows r target =
     \<lparr>wk_id = mg_id r, wk_merged_into = target, wk_project = mg_project r, wk_current = mg_id r, wk_next = Some target,
      wk_current_project = mg_project r, wk_path = [mg_id r], wk_depth = 0, wk_cycle = False, wk_dangling = False,
      wk_transits = False,
      wk_chained = (case get_merge_row rows target of None \<Rightarrow> False | Some t \<Rightarrow> mg_merged_into t \<noteq> None)\<rparr>"

text \<open>One step of the recursive term, from a walk whose next identifier is \<open>n\<close>.\<close>

definition walk_step :: "merge_row list \<Rightarrow> walk_row \<Rightarrow> uuid \<Rightarrow> walk_row" where
  "walk_step rows w n =
     (let target = get_merge_row rows n in
      w\<lparr>wk_current := n,
        wk_next := (case target of None \<Rightarrow> None | Some t \<Rightarrow> mg_merged_into t),
        wk_current_project := (case target of None \<Rightarrow> None | Some t \<Rightarrow> mg_project t),
        wk_path := wk_path w @ [n], wk_depth := wk_depth w + 1,
        wk_cycle := n \<in> set (wk_path w), wk_dangling := (target = None),
        wk_transits := wk_transits w \<or> (case target of None \<Rightarrow> False | Some t \<Rightarrow> mg_project t \<noteq> wk_project w)\<rparr>)"

fun walk_end :: "nat \<Rightarrow> merge_row list \<Rightarrow> walk_row \<Rightarrow> walk_row" where
  "walk_end 0 rows w = w"
| "walk_end (Suc k) rows w =
     (case wk_next w of
        None \<Rightarrow> w
      | Some n \<Rightarrow> if wk_cycle w \<or> wk_dangling w then w else walk_end k rows (walk_step rows w n))"

definition walks :: "merge_row list \<Rightarrow> walk_row list" where
  "walks rows = sort_key wk_id (List.map_filter
     (\<lambda>r. map_option (\<lambda>t. walk_end MAX_DEPTH rows (walk_start rows r t)) (mg_merged_into r)) rows)"

section \<open>Inventory\<close>

record chain_pointer =
  cp_id :: uuid
  cp_merged_into :: uuid
  cp_root :: uuid

record table_report =
  tr_table :: string
  tr_merged_count :: nat
  tr_chained_count :: nat
  tr_transits_other_project :: nat
  tr_depth_histogram :: "(nat \<times> nat) list"
  tr_cycles :: "uuid list"
  tr_dangling_roots :: "uuid list"
  tr_cross_project_chains :: "chain_pointer list"
  tr_in_project_chains :: "chain_pointer list"

datatype repair_error =
    TransactionRequired | InvalidExpectedCount | LockTimeout | DepthLimit | CycleFound | DanglingRoot
  | ExpectedCountMismatch string string | ChainsRemain | GuardRefused

definition reached_root :: "walk_row \<Rightarrow> bool" where
  "reached_root w = (\<not> wk_cycle w \<and> \<not> wk_dangling w \<and> wk_next w = None)"

definition pointer_of :: "walk_row \<Rightarrow> chain_pointer" where
  "pointer_of w = \<lparr>cp_id = wk_id w, cp_merged_into = wk_merged_into w, cp_root = wk_current w\<rparr>"

definition table_report_of :: "merge_table \<Rightarrow> (repair_error, table_report) result" where
  "table_report_of t =
     (let rows = walks (mt_rows t);
          rooted = filter reached_root rows;
          chained = filter wk_chained rooted;
          depths = map wk_depth rooted
      in if list_ex (\<lambda>w. \<not> wk_cycle w \<and> \<not> wk_dangling w \<and> wk_next w \<noteq> None) rows then Inl DepthLimit
         else Inr
           \<lparr>tr_table = mt_name t, tr_merged_count = length rows,
            tr_chained_count = length (filter wk_chained rows),
            tr_transits_other_project = length (filter wk_transits rows),
            tr_depth_histogram = map (\<lambda>d. (d, count_list depths d)) (sort (remdups depths)),
            tr_cycles = map wk_id (filter wk_cycle rows),
            tr_dangling_roots = sort (remdups (map wk_current (filter (\<lambda>w. \<not> wk_cycle w \<and> wk_dangling w) rows))),
            tr_cross_project_chains = map pointer_of (filter (\<lambda>w. wk_project w \<noteq> wk_current_project w) chained),
            tr_in_project_chains = map pointer_of (filter (\<lambda>w. wk_project w = wk_current_project w) chained)\<rparr>)"

definition inventory :: "merge_table list \<Rightarrow> (repair_error, table_report list) result" where
  "inventory tables = res_map table_report_of tables"

definition refuse_corrupt :: "table_report list \<Rightarrow> (repair_error, unit) result" where
  "refuse_corrupt reports =
     (if list_ex (\<lambda>t. tr_cycles t \<noteq> []) reports then Inl CycleFound
      else if list_ex (\<lambda>t. tr_dangling_roots t \<noteq> []) reports then Inl DanglingRoot else Inr ())"

section \<open>Repair\<close>

definition approved_count :: "(string \<times> int) list \<Rightarrow> string \<Rightarrow> int" where
  "approved_count counts table = (case map_of counts table of None \<Rightarrow> 0 | Some n \<Rightarrow> n)"

definition check_approval ::
    "(string \<times> int) list \<Rightarrow> (string \<times> int) list \<Rightarrow> table_report \<Rightarrow> (repair_error, unit) result" where
  "check_approval expected expected_cross r =
     (if int (length (tr_in_project_chains r)) \<noteq> approved_count expected (tr_table r)
      then Inl (ExpectedCountMismatch (tr_table r) ''in_project'')
      else if int (length (tr_cross_project_chains r)) \<noteq> approved_count expected_cross (tr_table r)
      then Inl (ExpectedCountMismatch (tr_table r) ''cross_project'') else Inr ())"

definition repoint :: "chain_pointer \<Rightarrow> merge_row list \<Rightarrow> merge_row list" where
  "repoint p rows = update_rows (\<lambda>r. mg_id r = cp_id p) (\<lambda>r. r\<lparr>mg_merged_into := Some (cp_root p)\<rparr>) rows"

definition pointers_of :: "table_report \<Rightarrow> chain_pointer list" where
  "pointers_of r = tr_in_project_chains r @ tr_cross_project_chains r"

definition repair_table :: "merge_table \<Rightarrow> table_report \<Rightarrow> merge_table \<times> log_entry list" where
  "repair_table t r =
     (t\<lparr>mt_rows := fold repoint (pointers_of r) (mt_rows t)\<rparr>,
      (case mt_entity_type t of
         None \<Rightarrow> []
       | Some e \<Rightarrow> map (\<lambda>p. \<lparr>le_source = cp_id p, le_target = cp_root p, le_entity_type = e\<rparr>) (pointers_of r)))"

record repair_report =
  rr_before :: "table_report list"
  rr_after :: "table_report list"
  rr_changed_count :: nat

definition repair ::
    "merge_db \<Rightarrow> bool \<Rightarrow> bool \<Rightarrow> (merge_table list \<Rightarrow> bool) \<Rightarrow> (string \<times> int) list \<Rightarrow> (string \<times> int) list
     \<Rightarrow> (repair_error, merge_db \<times> repair_report) result" where
  "repair db in_transaction locked guard expected expected_cross =
     res_bind (ensure in_transaction TransactionRequired) (\<lambda>_.
     res_bind (ensure (list_all (\<lambda>(table, n). table \<in> fst ` set TABLES \<and> 0 \<le> n) (expected @ expected_cross))
       InvalidExpectedCount) (\<lambda>_.
     res_bind (ensure locked LockTimeout) (\<lambda>_.
     res_bind (inventory (md_tables db)) (\<lambda>before.
     res_bind (refuse_corrupt before) (\<lambda>_.
     res_bind (res_map (check_approval expected expected_cross) before) (\<lambda>_.
     let repaired = map2 repair_table (md_tables db) before;
         tables = map fst repaired;
         db' = db\<lparr>md_tables := tables, md_log := md_log db @ concat (map snd repaired)\<rparr>
     in res_bind (inventory tables) (\<lambda>after.
        res_bind (refuse_corrupt after) (\<lambda>_.
        res_bind (ensure (\<not> list_ex (\<lambda>r. tr_chained_count r \<noteq> 0) after) ChainsRemain) (\<lambda>_.
        let changed = sum_list (map (\<lambda>r. length (pointers_of r)) before) in
        res_bind (ensure (changed = 0 \<or> guard tables) GuardRefused) (\<lambda>_.
        Inr (db', \<lparr>rr_before = before, rr_after = after, rr_changed_count = changed\<rparr>)))))))))))"

section \<open>Pointers\<close>

definition points :: "merge_row list \<Rightarrow> (uuid \<times> uuid) set" where
  "points rows = {(i, j). \<exists>r. get_merge_row rows i = Some r \<and> mg_merged_into r = Some j}"

definition is_root :: "merge_row list \<Rightarrow> uuid \<Rightarrow> bool" where
  "is_root rows i = (\<exists>r. get_merge_row rows i = Some r \<and> mg_merged_into r = None)"

lemma points_deterministic: "(i, j) \<in> points rows \<Longrightarrow> (i, k) \<in> points rows \<Longrightarrow> j = k"
  by (auto simp: points_def)

lemma root_unique:
  assumes "(i, j) \<in> (points rows)\<^sup>*" and "(i, k) \<in> (points rows)\<^sup>*" and "is_root rows j" and "is_root rows k"
  shows "j = k"
  using assms
proof (induction rule: converse_rtrancl_induct)
  case base
  then show ?case by (auto simp: is_root_def points_def elim: converse_rtranclE)
next
  case (step y z)
  have "y \<noteq> k" using step.hyps(1) step.prems(3) by (auto simp: is_root_def points_def)
  with step.prems(1) obtain z' where "(y, z') \<in> points rows" "(z', k) \<in> (points rows)\<^sup>*" by (meson converse_rtranclE)
  with step points_deterministic [OF step.hyps(1)] show ?case by blast
qed

text \<open>What a walk keeps: it has followed pointers to its current row, whose pointer is its next step.\<close>

definition walk_ok :: "merge_row list \<Rightarrow> merge_row \<Rightarrow> walk_row \<Rightarrow> bool" where
  "walk_ok rows r w =
     ((mg_id r, wk_current w) \<in> (points rows)\<^sup>* \<and> wk_id w = mg_id r \<and> Some (wk_merged_into w) = mg_merged_into r \<and>
      wk_project w = mg_project r \<and> (0 < wk_depth w \<longrightarrow> (mg_id r, wk_current w) \<in> (points rows)\<^sup>+) \<and>
      (\<not> wk_dangling w \<longrightarrow> (\<exists>c. get_merge_row rows (wk_current w) = Some c \<and> wk_next w = mg_merged_into c \<and>
         wk_current_project w = mg_project c)) \<and>
      (wk_dangling w \<longrightarrow> get_merge_row rows (wk_current w) = None \<and> wk_next w = None) \<and>
      wk_chained w = (case get_merge_row rows (wk_merged_into w) of None \<Rightarrow> False | Some t \<Rightarrow> mg_merged_into t \<noteq> None))"

lemma walk_ok_start:
  assumes "distinct (map mg_id rows)" and "r \<in> set rows" and "mg_merged_into r = Some t"
  shows "walk_ok rows r (walk_start rows r t)"
  using assms merge_rows.get_row_eqI [OF assms(1,2)] by (simp add: walk_ok_def walk_start_def)

lemma walk_ok_step:
  assumes "walk_ok rows r w" and "wk_next w = Some n" and "\<not> wk_dangling w"
  shows "walk_ok rows r (walk_step rows w n)"
proof -
  from assms have "(wk_current w, n) \<in> points rows" by (auto simp: walk_ok_def points_def)
  with assms(1) have "(mg_id r, n) \<in> (points rows)\<^sup>+" unfolding walk_ok_def by (meson rtrancl_into_trancl1)
  with assms show ?thesis
    by (auto simp: walk_ok_def walk_step_def Let_def trancl_into_rtrancl split: option.splits)
qed

lemma walk_ok_end: "walk_ok rows r w \<Longrightarrow> walk_ok rows r (walk_end k rows w)"
  by (induction k rows w rule: walk_end.induct) (auto intro: walk_ok_step split: option.splits)

lemma walk_end_depth:
  assumes "wk_depth w = 0" and "wk_next w = Some n" and "\<not> wk_cycle w" and "\<not> wk_dangling w"
  shows "0 < wk_depth (walk_end (Suc k) rows w)"
proof -
  have "wk_depth v \<le> wk_depth (walk_end k rows v)" for v
    by (induction k rows v rule: walk_end.induct) (auto simp: walk_step_def Let_def split: option.splits intro: Suc_leD)
  from this [of "walk_step rows w n"] assms show ?thesis by (simp add: walk_step_def Let_def)
qed

section \<open>A table without corruption\<close>

definition walk_of :: "merge_row list \<Rightarrow> merge_row \<Rightarrow> uuid \<Rightarrow> walk_row" where
  "walk_of rows r t = walk_end MAX_DEPTH rows (walk_start rows r t)"

definition all_rooted :: "merge_row list \<Rightarrow> bool" where
  "all_rooted rows = (\<forall>w \<in> set (walks rows). reached_root w)"

lemma walks_set: "set (walks rows) = {walk_of rows r t | r t. r \<in> set rows \<and> mg_merged_into r = Some t}"
  unfolding walks_def walk_of_def set_sort by (rule set_eqI) (simp add: map_filter_mem, blast)

lemma report_rooted:
  "table_report_of t = Inr rep \<and> tr_cycles rep = [] \<and> tr_dangling_roots rep = [] \<longleftrightarrow>
   (all_rooted (mt_rows t) \<and> table_report_of t = Inr rep)"
proof -
  have sort: "sort_key f xs = [] \<longleftrightarrow> xs = []" for f :: "uuid \<Rightarrow> uuid" and xs by (metis set_empty set_sort)
  show ?thesis
    by (auto simp: table_report_of_def Let_def all_rooted_def reached_root_def list_ex_iff filter_empty_conv sort split: if_splits)
qed

lemma all_rooted_report: "all_rooted (mt_rows t) \<Longrightarrow> is_ok (table_report_of t)"
  by (auto simp: table_report_of_def Let_def all_rooted_def reached_root_def list_ex_iff)

lemma rooted_walk:
  assumes "distinct (map mg_id rows)" and "all_rooted rows" and "r \<in> set rows" and "mg_merged_into r = Some t"
  shows "(mg_id r, wk_current (walk_of rows r t)) \<in> (points rows)\<^sup>+" "is_root rows (wk_current (walk_of rows r t))"
    "wk_id (walk_of rows r t) = mg_id r"
    "wk_chained (walk_of rows r t) = (case get_merge_row rows t of None \<Rightarrow> False | Some u \<Rightarrow> mg_merged_into u \<noteq> None)"
proof -
  let ?w = "walk_of rows r t"
  have ok: "walk_ok rows r ?w" unfolding walk_of_def by (intro walk_ok_end walk_ok_start assms)
  have root: "reached_root ?w" using assms(2-4) by (auto simp: all_rooted_def walks_set)
  have "0 < wk_depth ?w" unfolding walk_of_def MAX_DEPTH_def
    using walk_end_depth [of "walk_start rows r t" t 63 rows] by (simp add: walk_start_def)
  with ok root assms(4) show "(mg_id r, wk_current ?w) \<in> (points rows)\<^sup>+" "is_root rows (wk_current ?w)" "wk_id ?w = mg_id r"
    "wk_chained ?w = (case get_merge_row rows t of None \<Rightarrow> False | Some u \<Rightarrow> mg_merged_into u \<noteq> None)"
    by (auto simp: walk_ok_def reached_root_def is_root_def)
qed

text \<open>The row a repair leaves: a merged row points at the root of its chain.\<close>

definition flat :: "merge_row list \<Rightarrow> merge_row \<Rightarrow> merge_row" where
  "flat rows r = (case mg_merged_into r of None \<Rightarrow> r
     | Some t \<Rightarrow> r\<lparr>mg_merged_into := Some (wk_current (walk_of rows r t))\<rparr>)"

lemma flat_simps [simp]: "mg_id (flat rows r) = mg_id r" "mg_project (flat rows r) = mg_project r"
  "mg_merged_into (flat rows r) = None \<longleftrightarrow> mg_merged_into r = None"
  by (auto simp: flat_def split: option.splits)

lemma flat_unchained:
  assumes "distinct (map mg_id rows)" and "all_rooted rows" and "r \<in> set rows" and "mg_merged_into r = Some t"
    and "\<not> wk_chained (walk_of rows r t)"
  shows "flat rows r = r"
proof -
  note w = rooted_walk [OF assms(1-4)]
  have edge: "(mg_id r, t) \<in> points rows"
    using assms(4) merge_rows.get_row_eqI [OF assms(1,3)] by (simp add: points_def)
  from tranclD [OF w(1)] edge have "(t, wk_current (walk_of rows r t)) \<in> (points rows)\<^sup>*"
    using points_deterministic by blast
  moreover have "get_merge_row rows t \<noteq> None"
    using calculation w(2) by (cases rule: converse_rtranclE) (auto simp: is_root_def points_def)
  then have "is_root rows t" using assms(5) w(4) by (auto simp: is_root_def split: option.splits)
  ultimately have "wk_current (walk_of rows r t) = t" using root_unique w(2) by blast
  with assms(4) show ?thesis by (simp add: flat_def)
qed

lemma fold_repoint:
  assumes "distinct (map cp_id ps)"
  shows "fold repoint ps rows =
    map (\<lambda>r. case map_of (map (\<lambda>p. (cp_id p, cp_root p)) ps) (mg_id r) of
      None \<Rightarrow> r | Some x \<Rightarrow> r\<lparr>mg_merged_into := Some x\<rparr>) rows"
  using assms
proof (induction ps arbitrary: rows)
  case (Cons p ps)
  have "map_of (map (\<lambda>p. (cp_id p, cp_root p)) ps) (cp_id p) = None"
    using Cons.prems by (auto simp: map_of_eq_None_iff)
  with Cons show ?case by (auto simp: repoint_def update_rows_def split: option.splits)
qed simp

lemma walk_ids_distinct:
  assumes "distinct (map mg_id rows)"
  shows "distinct (map wk_id (walks rows))"
proof -
  have id: "wk_id (walk_end k rows w) = wk_id w" for k w
    by (induction k rows w rule: walk_end.induct) (auto simp: walk_step_def Let_def split: option.splits)
  have "map wk_id (List.map_filter (\<lambda>r. map_option (\<lambda>t. walk_end MAX_DEPTH rows (walk_start rows r t)) (mg_merged_into r)) xs) =
      map mg_id (filter (\<lambda>r. mg_merged_into r \<noteq> None) xs)" for xs
    by (induction xs) (auto simp: List.map_filter_simps id walk_start_def)
  then have "distinct (map wk_id (List.map_filter
      (\<lambda>r. map_option (\<lambda>t. walk_end MAX_DEPTH rows (walk_start rows r t)) (mg_merged_into r)) rows))"
    using assms by (simp add: distinct_map_filter)
  then show ?thesis by (simp add: walks_def distinct_map)
qed

definition pointer_pairs :: "merge_row list \<Rightarrow> (uuid \<times> uuid) set" where
  "pointer_pairs rows = {(mg_id r, wk_current (walk_of rows r t)) | r t.
     r \<in> set rows \<and> mg_merged_into r = Some t \<and> wk_chained (walk_of rows r t)}"

lemma report_pointers:
  assumes ids: "distinct (map mg_id (mt_rows t))" and rooted: "all_rooted (mt_rows t)" and rep: "table_report_of t = Inr rep"
  shows "(\<lambda>p. (cp_id p, cp_root p)) ` set (pointers_of rep) = pointer_pairs (mt_rows t)"
    and "distinct (map cp_id (pointers_of rep))"
proof -
  let ?ws = "walks (mt_rows t)"
  let ?in = "filter (\<lambda>w. wk_project w = wk_current_project w) (filter wk_chained (filter reached_root ?ws))"
  let ?cross = "filter (\<lambda>w. wk_project w \<noteq> wk_current_project w) (filter wk_chained (filter reached_root ?ws))"
  have pointers: "pointers_of rep = map pointer_of (?in @ ?cross)"
    using rep by (auto simp: table_report_of_def Let_def pointers_of_def split: if_splits)
  have "set (?in @ ?cross) = {w \<in> set ?ws. wk_chained w}" using rooted by (auto simp: all_rooted_def)
  then have "(\<lambda>p. (cp_id p, cp_root p)) ` set (pointers_of rep) = (\<lambda>w. (wk_id w, wk_current w)) ` {w \<in> set ?ws. wk_chained w}"
    unfolding pointers set_map by (simp add: image_image pointer_of_def)
  also have "\<dots> = pointer_pairs (mt_rows t)"
    unfolding walks_set pointer_pairs_def using rooted_walk(3) [OF ids rooted] by (fastforce simp: image_iff)
  finally show "(\<lambda>p. (cp_id p, cp_root p)) ` set (pointers_of rep) = pointer_pairs (mt_rows t)" .
  have "distinct (map wk_id ?ws)" by (rule walk_ids_distinct [OF ids])
  then have "inj_on wk_id (set ?ws)" "distinct ?ws" by (auto simp: distinct_map)
  then have "distinct (map wk_id (?in @ ?cross))"
    by (auto simp: distinct_map inj_on_def)
  then show "distinct (map cp_id (pointers_of rep))" unfolding pointers by (simp add: comp_def pointer_of_def)
qed

lemma repaired_rows:
  assumes ids: "distinct (map mg_id (mt_rows t))" and rooted: "all_rooted (mt_rows t)" and rep: "table_report_of t = Inr rep"
  shows "fold repoint (pointers_of rep) (mt_rows t) = map (flat (mt_rows t)) (mt_rows t)"
proof -
  let ?m = "map_of (map (\<lambda>p. (cp_id p, cp_root p)) (pointers_of rep))"
  note P = report_pointers [OF assms]
  have some: "?m i = Some x \<longleftrightarrow> (i, x) \<in> pointer_pairs (mt_rows t)" for i x
    using P by (subst map_of_eq_Some_iff) (simp_all add: comp_def flip: P(1))
  have "(case ?m (mg_id r) of None \<Rightarrow> r | Some x \<Rightarrow> r\<lparr>mg_merged_into := Some x\<rparr>) = flat (mt_rows t) r" if r: "r \<in> set (mt_rows t)" for r
  proof (cases "?m (mg_id r)")
    case (Some x)
    then obtain r' u where r': "mg_id r' = mg_id r" "r' \<in> set (mt_rows t)" "mg_merged_into r' = Some u"
      "x = wk_current (walk_of (mt_rows t) r' u)" by (auto simp: some pointer_pairs_def)
    with r ids have "r' = r" by (metis distinct_map inj_onD)
    with r' Some show ?thesis by (simp add: flat_def)
  next
    case None
    then have "(mg_id r, x) \<notin> pointer_pairs (mt_rows t)" for x using some by (metis option.distinct(1))
    then have "flat (mt_rows t) r = r"
      using r flat_unchained [OF ids rooted r] by (cases "mg_merged_into r") (auto simp: pointer_pairs_def flat_def)
    with None show ?thesis by simp
  qed
  then show ?thesis by (simp add: fold_repoint [OF P(2)])
qed

section \<open>A flattened table\<close>

lemma get_flat: "get_merge_row (map (flat rows) xs) i = map_option (flat rows) (get_merge_row xs i)"
  by (induction xs) (auto simp: get_merge_row_def find_row_def)

lemma flat_walk:
  assumes ids: "distinct (map mg_id rows)" and rooted: "all_rooted rows" and r: "r \<in> set rows"
    and t: "mg_merged_into (flat rows r) = Some t"
  shows "reached_root (walk_of (map (flat rows) rows) (flat rows r) t)" "\<not> wk_chained (walk_of (map (flat rows) rows) (flat rows r) t)"
proof -
  let ?rows = "map (flat rows) rows"
  obtain u where u: "mg_merged_into r = Some u" and t': "t = wk_current (walk_of rows r u)"
    using t by (auto simp: flat_def split: option.splits)
  obtain c where c: "get_merge_row rows t = Some c" "mg_merged_into c = None"
    using rooted_walk(2) [OF ids rooted r u] t' by (auto simp: is_root_def)
  have "get_merge_row rows (mg_id r) = Some r" by (rule merge_rows.get_row_eqI [OF ids r])
  with c u have "t \<noteq> mg_id r" by auto
  moreover have "get_merge_row ?rows t = Some c" using c by (simp add: get_flat flat_def)
  ultimately have "walk_of ?rows (flat rows r) t = walk_step ?rows (walk_start ?rows (flat rows r) t) t"
    using c by (simp add: walk_of_def MAX_DEPTH_def numeral_eq_Suc walk_start_def walk_step_def)
  then show "reached_root (walk_of ?rows (flat rows r) t)" "\<not> wk_chained (walk_of ?rows (flat rows r) t)"
    using c \<open>t \<noteq> mg_id r\<close> \<open>get_merge_row ?rows t = Some c\<close>
    by (simp_all add: reached_root_def walk_step_def walk_start_def)
qed

lemma flat_report:
  assumes ids: "distinct (map mg_id rows)" and rooted: "all_rooted rows" and t: "mt_rows t = map (flat rows) rows"
  shows "\<exists>rep. table_report_of t = Inr rep \<and> tr_cycles rep = [] \<and> tr_dangling_roots rep = [] \<and> tr_chained_count rep = 0"
proof -
  have ws: "reached_root w \<and> \<not> wk_chained w" if "w \<in> set (walks (mt_rows t))" for w
    using that flat_walk [OF ids rooted] unfolding walks_set t by auto
  then have "all_rooted (mt_rows t)" by (simp add: all_rooted_def)
  with all_rooted_report obtain rep where rep: "table_report_of t = Inr rep" by (auto simp: is_ok_iff)
  with report_rooted [of t rep] \<open>all_rooted (mt_rows t)\<close> have "tr_cycles rep = [] \<and> tr_dangling_roots rep = []" by simp
  moreover have "tr_chained_count rep = 0"
    using rep ws by (auto simp: table_report_of_def Let_def filter_empty_conv split: if_splits)
  ultimately show ?thesis using rep by blast
qed

section \<open>The repair\<close>

definition row_flattened :: "merge_row list \<Rightarrow> merge_row \<Rightarrow> merge_row \<Rightarrow> bool" where
  "row_flattened rows r r' =
     (mg_id r' = mg_id r \<and> mg_project r' = mg_project r \<and>
      ((mg_merged_into r = None \<and> r' = r) \<or>
       (\<exists>root. mg_merged_into r \<noteq> None \<and> mg_merged_into r' = Some root \<and> (mg_id r, root) \<in> (points rows)\<^sup>+ \<and> is_root rows root)))"

lemma flat_flattened:
  assumes "distinct (map mg_id rows)" and "all_rooted rows" and "r \<in> set rows"
  shows "row_flattened rows r (flat rows r)"
  using rooted_walk [OF assms] by (cases "mg_merged_into r") (simp_all add: row_flattened_def flat_def)

lemma refuse_corrupt_Inr:
  "refuse_corrupt reports = Inr () \<longleftrightarrow> (\<forall>rep \<in> set reports. tr_cycles rep = [] \<and> tr_dangling_roots rep = [])"
  by (auto simp: refuse_corrupt_def list_ex_iff)

text \<open>The state between the two inventories.\<close>

lemma inventory_sound:
  assumes ids: "\<And>t. t \<in> set tables \<Longrightarrow> distinct (map mg_id (mt_rows t))"
    and inv: "inventory tables = Inr before" and ok: "refuse_corrupt before = Inr ()"
  shows "list_all2 (\<lambda>t rep. table_report_of t = Inr rep \<and> all_rooted (mt_rows t) \<and> t \<in> set tables) tables before"
proof -
  from inv have all: "list_all2 (\<lambda>t rep. table_report_of t = Inr rep) tables before"
    by (simp add: inventory_def res_map_Inr_iff)
  have "all_rooted (mt_rows t)" if "table_report_of t = Inr rep" "rep \<in> set before" for t rep
    using ok that report_rooted [of t rep] by (auto simp: refuse_corrupt_Inr)
  with all show ?thesis by (auto simp: list_all2_conv_all_nth)
qed

definition repaired_table :: "merge_table \<Rightarrow> merge_table" where
  "repaired_table t = t\<lparr>mt_rows := map (flat (mt_rows t)) (mt_rows t)\<rparr>"

lemma repaired_tables:
  assumes ids: "\<And>t. t \<in> set tables \<Longrightarrow> distinct (map mg_id (mt_rows t))"
    and inv: "inventory tables = Inr before" and ok: "refuse_corrupt before = Inr ()"
  shows "map fst (map2 repair_table tables before) = map repaired_table tables"
    and "\<exists>after. inventory (map repaired_table tables) = Inr after \<and> refuse_corrupt after = Inr () \<and>
      \<not> list_ex (\<lambda>r. tr_chained_count r \<noteq> 0) after"
proof -
  note sound = inventory_sound [OF assms]
  have "repair_table t rep = (repaired_table t, snd (repair_table t rep))"
    if "table_report_of t = Inr rep" "all_rooted (mt_rows t)" "t \<in> set tables" for t rep
    using repaired_rows [OF ids [OF that(3)] that(2,1)] by (simp add: repair_table_def repaired_table_def)
  with sound show "map fst (map2 repair_table tables before) = map repaired_table tables"
    by (induction rule: list_all2_induct) (auto, metis fst_conv)
  have after: "\<exists>rep. table_report_of (repaired_table t) = Inr rep \<and> tr_cycles rep = [] \<and> tr_dangling_roots rep = [] \<and> tr_chained_count rep = 0"
    if "t \<in> set tables" for t
  proof -
    have "all_rooted (mt_rows t)" using sound that by (auto simp: list_all2_conv_all_nth in_set_conv_nth)
    then show ?thesis by (intro flat_report [OF ids [OF that]]) (simp_all add: repaired_table_def)
  qed
  then have "is_ok (inventory (map repaired_table tables))"
    unfolding inventory_def res_map_map by (intro res_map_ok) (fastforce simp: is_ok_iff)
  then obtain reports where reports: "inventory (map repaired_table tables) = Inr reports" by (auto simp: is_ok_iff)
  have "tr_cycles rep = [] \<and> tr_dangling_roots rep = [] \<and> tr_chained_count rep = 0" if "rep \<in> set reports" for rep
  proof -
    from reports have "list_all2 (\<lambda>t rep. table_report_of t = Inr rep) (map repaired_table tables) reports"
      by (simp add: inventory_def res_map_Inr_iff)
    with that obtain t where "t \<in> set tables" "table_report_of (repaired_table t) = Inr rep"
      by (fastforce simp: list_all2_conv_all_nth in_set_conv_nth)
    with after [of t] show ?thesis by auto
  qed
  with reports show "\<exists>after. inventory (map repaired_table tables) = Inr after \<and> refuse_corrupt after = Inr () \<and>
      \<not> list_ex (\<lambda>r. tr_chained_count r \<noteq> 0) after"
    by (auto simp: refuse_corrupt_Inr list_ex_iff)
qed

lemma repair_Inr:
  assumes "repair db in_transaction locked guard expected expected_cross = Inr (db', report)"
    and ids: "\<And>t. t \<in> set (md_tables db) \<Longrightarrow> distinct (map mg_id (mt_rows t))"
  obtains before where "inventory (md_tables db) = Inr before" "refuse_corrupt before = Inr ()"
    "\<And>rep. rep \<in> set before \<Longrightarrow> check_approval expected expected_cross rep = Inr ()"
    "md_tables db' = map repaired_table (md_tables db)"
    "md_log db' = md_log db @ concat (map snd (map2 repair_table (md_tables db) before))"
proof -
  from assms(1) obtain before where before: "inventory (md_tables db) = Inr before" "refuse_corrupt before = Inr ()"
    by (auto simp: repair_def res_bind_eq_Inr ensure_eq)
  note tables = repaired_tables(1) [OF ids before]
  from assms(1) before have approvals: "is_ok (res_map (check_approval expected expected_cross) before)"
    and db': "md_tables db' = map fst (map2 repair_table (md_tables db) before)"
      "md_log db' = md_log db @ concat (map snd (map2 repair_table (md_tables db) before))"
    by (auto simp: repair_def res_bind_eq_Inr ensure_eq Let_def is_ok_iff)
  have "check_approval expected expected_cross rep = Inr ()" if "rep \<in> set before" for rep
    using approvals that by (fastforce simp: is_ok_iff res_map_Inr_iff list_all2_conv_all_nth in_set_conv_nth)
  with before db' tables show ?thesis by (intro that [of before]) simp_all
qed

lemma repair_proceeds:
  assumes ids: "\<And>t. t \<in> set (md_tables db) \<Longrightarrow> distinct (map mg_id (mt_rows t))"
    and before: "inventory (md_tables db) = Inr before" "refuse_corrupt before = Inr ()"
    and approvals: "\<And>rep. rep \<in> set before \<Longrightarrow> check_approval expected expected_cross rep = Inr ()"
    and expected: "list_all (\<lambda>(table, n). table \<in> fst ` set TABLES \<and> 0 \<le> n) (expected @ expected_cross)"
    and guard: "guard (map repaired_table (md_tables db))"
  shows "is_ok (repair db True True guard expected expected_cross)"
proof -
  from approvals have "is_ok (res_map (check_approval expected expected_cross) before)" by (intro res_map_ok) simp
  then obtain us where us: "res_map (check_approval expected expected_cross) before = Inr us" by (auto simp: is_ok_iff)
  obtain after where "inventory (map repaired_table (md_tables db)) = Inr after" "refuse_corrupt after = Inr ()"
    "\<not> list_ex (\<lambda>r. tr_chained_count r \<noteq> 0) after" using repaired_tables(2) [OF ids before] by blast
  with before us expected guard show ?thesis
    using repaired_tables(1) [OF ids before] by (simp add: repair_def Let_def)
qed

section \<open>Properties\<close>

text \<open>
  C36: A repair that returns has flattened every chain and changed nothing else: in every table each
  merged row points at the root its chain of pointers leads to, a row of that table that is not
  merged itself; unmerged rows, identifiers and projects are as they were, and the numbers of chains
  of each table were the approved ones.
\<close>

theorem merge_repair_flattens:
  assumes "repair db in_transaction locked guard expected expected_cross = Inr (db', report)"
    and "\<And>t. t \<in> set (md_tables db) \<Longrightarrow> distinct (map mg_id (mt_rows t))"
  shows "list_all2 (\<lambda>t t'. mt_name t' = mt_name t \<and> list_all2 (row_flattened (mt_rows t)) (mt_rows t) (mt_rows t'))
      (md_tables db) (md_tables db') \<and>
    (\<exists>before. inventory (md_tables db) = Inr before \<and> (\<forall>rep \<in> set before.
       int (length (tr_in_project_chains rep)) = approved_count expected (tr_table rep) \<and>
       int (length (tr_cross_project_chains rep)) = approved_count expected_cross (tr_table rep)))"
proof -
  obtain before where before: "inventory (md_tables db) = Inr before" "refuse_corrupt before = Inr ()"
    and approvals: "\<And>rep. rep \<in> set before \<Longrightarrow> check_approval expected expected_cross rep = Inr ()"
    and db': "md_tables db' = map repaired_table (md_tables db)" using repair_Inr [OF assms] by metis
  have "list_all2 (row_flattened (mt_rows t)) (mt_rows t) (mt_rows (repaired_table t))" if "t \<in> set (md_tables db)" for t
  proof -
    have "all_rooted (mt_rows t)"
      using inventory_sound [OF assms(2) before] that by (auto simp: list_all2_conv_all_nth in_set_conv_nth)
    then have "row_flattened (mt_rows t) r (flat (mt_rows t) r)" if "r \<in> set (mt_rows t)" for r
      using flat_flattened [OF assms(2) [OF \<open>t \<in> set (md_tables db)\<close>]] that by blast
    then show ?thesis by (auto simp: repaired_table_def list_all2_conv_all_nth)
  qed
  then have "list_all2 (\<lambda>t t'. mt_name t' = mt_name t \<and> list_all2 (row_flattened (mt_rows t)) (mt_rows t) (mt_rows t'))
      (md_tables db) (md_tables db')"
    unfolding db' by (auto simp: list_all2_conv_all_nth repaired_table_def)
  moreover have "int (length (tr_in_project_chains rep)) = approved_count expected (tr_table rep) \<and>
      int (length (tr_cross_project_chains rep)) = approved_count expected_cross (tr_table rep)" if "rep \<in> set before" for rep
    using approvals [OF that] by (simp add: check_approval_def split: if_splits)
  ultimately show ?thesis using before(1) by blast
qed

text \<open>
  An approved repair of uncorrupted tables goes through: when the inventory finds neither a cycle
  nor a dangling pointer, the approved counts match and the constraints accept the flattened tables,
  \<open>repair\<close> returns; in particular no chain remains after it.
\<close>

lemma merge_repair_returns:
  assumes "\<And>t. t \<in> set (md_tables db) \<Longrightarrow> distinct (map mg_id (mt_rows t))"
    and "inventory (md_tables db) = Inr before" and "refuse_corrupt before = Inr ()"
    and "\<And>rep. rep \<in> set before \<Longrightarrow> check_approval expected expected_cross rep = Inr ()"
    and "list_all (\<lambda>(table, n). table \<in> fst ` set TABLES \<and> 0 \<le> n) (expected @ expected_cross)"
    and "guard (map repaired_table (md_tables db))"
  shows "\<exists>db' report. repair db True True guard expected expected_cross = Inr (db', report)"
  using repair_proceeds [OF assms(1-5), of guard] assms(6) by (simp add: is_ok_iff)

definition sample_merges :: merge_db where
  "sample_merges = \<lparr>md_tables = [\<lparr>mt_name = ''learnings'', mt_entity_type = Some ''learning'',
       mt_rows = [\<lparr>mg_id = ''a'', mg_merged_into = Some ''b'', mg_project = Some ''p''\<rparr>,
         \<lparr>mg_id = ''b'', mg_merged_into = Some ''c'', mg_project = Some ''p''\<rparr>,
         \<lparr>mg_id = ''c'', mg_merged_into = None, mg_project = Some ''p''\<rparr>]\<rparr>], md_log = []\<rparr>"

lemma sample_inventory:
  "inventory (md_tables sample_merges) = Inr [\<lparr>tr_table = ''learnings'', tr_merged_count = 2, tr_chained_count = 1,
     tr_transits_other_project = 0, tr_depth_histogram = [(1, 1), (2, 1)], tr_cycles = [], tr_dangling_roots = [],
     tr_cross_project_chains = [],
     tr_in_project_chains = [\<lparr>cp_id = ''a'', cp_merged_into = ''b'', cp_root = ''c''\<rparr>]\<rparr>]"
  by code_simp

lemma merge_repair_returns_sample:
  "\<exists>db' report. repair sample_merges True True (\<lambda>_. True) [(''learnings'', 1)] [] = Inr (db', report)"
proof (rule merge_repair_returns [OF _ sample_inventory])
  show "distinct (map mg_id (mt_rows t))" if "t \<in> set (md_tables sample_merges)" for t
    using that by (auto simp: sample_merges_def)
qed (auto simp: refuse_corrupt_def check_approval_def approved_count_def TABLES_def)

theorem merge_repair_flattens_witness:
  "\<exists>db' report r'. repair sample_merges True True (\<lambda>_. True) [(''learnings'', 1)] [] = Inr (db', report) \<and>
     mg_id r' = ''a'' \<and> mg_merged_into r' = Some ''c'' \<and> r' \<in> set (mt_rows (hd (md_tables db')))"
proof -
  have ids: "distinct (map mg_id (mt_rows t))" if "t \<in> set (md_tables sample_merges)" for t
    using that by (auto simp: sample_merges_def)
  have "is_ok (repair sample_merges True True (\<lambda>_. True) [(''learnings'', 1)] [])"
    by (rule repair_proceeds [OF ids sample_inventory])
      (auto simp: refuse_corrupt_def check_approval_def approved_count_def TABLES_def)
  then obtain db' report where r: "repair sample_merges True True (\<lambda>_. True) [(''learnings'', 1)] [] = Inr (db', report)"
    by (auto simp: is_ok_iff)
  let ?rows = "mt_rows (hd (md_tables sample_merges))"
  have first: "md_tables sample_merges = [hd (md_tables sample_merges)]" "?rows = hd ?rows # tl ?rows"
    "mg_id (hd ?rows) = ''a''" "mg_merged_into (hd ?rows) = Some ''b''" by (simp_all add: sample_merges_def)
  have root: "i = ''c''" if "is_root ?rows i" for i
    using that by (auto simp: is_root_def get_merge_row_def find_row_def sample_merges_def split: if_splits)
  have "list_all2 (\<lambda>t t'. mt_name t' = mt_name t \<and> list_all2 (row_flattened (mt_rows t)) (mt_rows t) (mt_rows t'))
      (md_tables sample_merges) (md_tables db')"
    by (rule conjunct1 [OF merge_repair_flattens [OF r]]) (rule ids)
  then have "list_all2 (row_flattened ?rows) ?rows (mt_rows (hd (md_tables db')))"
    by (subst (asm) first(1)) (auto simp: list_all2_Cons1)
  then obtain r' where "r' \<in> set (mt_rows (hd (md_tables db')))" "row_flattened ?rows (hd ?rows) r'"
    by (metis first(2) list.set_intros(1) list_all2_Cons1)
  with r root first(3,4) show ?thesis by (auto simp: row_flattened_def)
qed

end
