(* ===== verification/Spec2Isabelle.thy ===== *)
theory Spec2Isabelle
  imports Delivery_Identity Delivery_System_Properties Delivery_Observation Programme_Properties Knowledge_Spec Knowledge_Run Knowledge_Checks Merge_Chains
begin

text \<open>
  A verification of the coordination core of Brain v42 (\<open>src/brain_v42\<close>): the parts that decide
  whether work between projects is done, who may work on it, where a programme stands, and whether a
  recorded piece of knowledge still holds.

  \<^bold>\<open>Parts and how they interact.\<close> Projects exchange tickets. A ticket may carry a delivery contract;
  then its completion is decided by the delivery evaluator over stored evidence (pull requests,
  checks, reviews, repository documents, receipts of other tickets), and the ticket's transition calls
  the delivery guard under the same locks. The delivery store keeps contract revisions, dependencies,
  bindings of pull requests, the observer's snapshots and confirmations, and the receipts that freeze
  a proved delivery; a receipt closes, in its own transaction, the focus slots that waited for it.
  Workers take fenced, leased claims on the work the evaluator offers. Issuers declare facts in a
  ledger, to which the observer adds the releases and deployments it measures; the observer takes its
  work from a queue of due bindings and workflows, publishes or records each attempt and reschedules the
  job in the same transaction, and a retention job deletes old confirmations. Contracts, deliveries and
  attestations are identified by digests of canonical JSON. Programmes group gates owned by several
  projects; their coordinators and owners write them, operators read a published block.
  The knowledge lifecycle checks the assertions extracted from an entry against measured sources, decides
  the entry from the ranked observations and stores the evaluation; an apply run writes a state to the
  lifecycle ledger after agreement on two days, an invalidated run is compensated, and the cache of states
  is the replay of the events. Merged entries point at their survivor, and a maintenance repair flattens old
  chains of such pointers.

  \<^bold>\<open>Theories and sources\<close> (paths below \<open>src/brain_v42\<close>).
  \<^item> \<open>Prelude\<close>: results (\<open>res_bind\<close>, \<open>ensure\<close>, \<open>res_map\<close>, \<open>res_fold\<close>), Python's dictionaries,
    sorting and text operations, tables of rows with the locale \<open>keyed_table\<close>, reachability with the
    locale \<open>invariant_system\<close>.
  \<^item> \<open>Sha256\<close>, \<open>Canonical_Json\<close>, \<open>Ascii_Json\<close>: \<open>hashlib.sha256\<close>, \<open>models/delivery_hashes.py\<close> and the
    two forms of \<open>json.dumps\<close> the code uses.
  \<^item> \<open>Delivery_Model\<close>: \<open>models/delivery.py\<close>, a record or datatype per class and \<open>valid_\<dots>\<close> for its
    validators. \<open>Delivery_Evaluator\<close>: \<open>models/delivery_evaluator.py\<close>, function by function, from the
    findings of each part to \<open>evaluate_delivery\<close>.
  \<^item> \<open>Delivery_Assurance\<close>, \<open>Delivery_Identity\<close>: what an assessment means, what digests identify, what a
    receipt proves.
  \<^item> \<open>Project_Key\<close>: \<open>models/project_key.py\<close>. \<open>Tickets\<close>: \<open>models/ticket.py\<close>, \<open>services/ticket_service.py\<close>,
    \<open>repositories/pg_ticket.py\<close>, \<open>repositories/delivery_ticket_guard.py\<close>. \<open>Ticket_Lifecycle\<close>: the ticket
    system as a transition system in which a call reads in one step and writes in another.
  \<^item> \<open>Delivery_Claims\<close>: \<open>repositories/pg_delivery_claims.py\<close>.
  \<^item> \<open>Delivery_Store\<close>: the tables of \<open>db/delivery_tables.py\<close> and the contract and binding writes of
    \<open>repositories/pg_delivery.py\<close>; \<open>Delivery_Contracts\<close> and \<open>Delivery_Contract_Properties\<close>: their invariant
    and guarantees. \<open>Delivery_Loading\<close>: the reads of the same file, from the rows to the evaluator's input
    and the view; \<open>Delivery_Loaded\<close>: what a loaded input says of the rows.
  \<^item> \<open>Delivery_Receipts\<close>, \<open>Delivery_Publication\<close>: \<open>repositories/pg_delivery_evidence.py\<close>.
    \<open>Delivery_Attestations\<close>: \<open>repositories/pg_delivery_attestations.py\<close>, \<open>repositories/pg_release_derivation.py\<close>
    and the attest tool of \<open>mcp/tools/delivery_tools.py\<close>.
  \<^item> \<open>Focus_Slots\<close>: \<open>models/focus_slot.py\<close>, \<open>db/focus_slots.py\<close>, \<open>repositories/pg_focus_slot.py\<close>,
    \<open>services/focus_slot_service.py\<close>. \<open>Focus_Slot_Laws\<close>: the slot tables as a transition system.
  \<^item> \<open>Delivery_Moves\<close>, \<open>Delivery_Issuing\<close>, \<open>Delivery_System\<close>: every write above on one store as the step
    relation \<open>delivery_step\<close>, and its invariant. \<open>Delivery_Backing\<close>, \<open>Delivery_System_Properties\<close>: what
    stands behind receipts, closures, observer facts and slots. \<open>Delivery_Run\<close>: one complete run, from the
    contract to the closed ticket, on concrete rows.
  \<^item> \<open>Delivery_Retention\<close>: \<open>repositories/pg_delivery_retention.py\<close>. \<open>Delivery_Queue\<close>:
    \<open>repositories/pg_delivery_queue.py\<close>. \<open>Delivery_Observation\<close>: one attempt of the observer in
    \<open>delivery_observer/runtime.py\<close> on that queue and the evidence store.
  \<^item> \<open>Dependency_Graph\<close>, \<open>Programme\<close>: \<open>models/programme.py\<close>, \<open>services/programme_service.py\<close>,
    \<open>repositories/pg_programme.py\<close> and the constraints of the two tables in \<open>db/tables.py\<close>.
    \<open>Programme_Board\<close>, \<open>Programme_Checks\<close>, \<open>Programme_Properties\<close>: the board as a transition system, the
    accepted calls, the guarantees.
  \<^item> \<open>Knowledge_Decision\<close>, \<open>Knowledge_Spec\<close>: \<open>knowledge/ranks.py\<close>, \<open>knowledge/decide.py\<close>,
    \<open>knowledge/hysteresis.py\<close>, \<open>knowledge/structural.py\<close>, and the specification that reads observations
    as a set.
  \<^item> \<open>Knowledge_Ledger\<close>: the lifecycle tables of \<open>db/tables.py\<close> and \<open>repositories/pg_knowledge_lifecycle.py\<close>.
    \<open>Knowledge_History\<close>, \<open>Knowledge_Replay\<close>: the ledger as a transition system, its invariant and what it
    gives. \<open>Knowledge_Apply\<close>, \<open>Knowledge_Guarantees\<close>: \<open>services/knowledge_lifecycle_evidence.py\<close> and the apply,
    recompute, compensate and propagate decisions of \<open>services/knowledge_lifecycle_pipeline.py\<close>, and their
    guarantees; \<open>Knowledge_Run\<close>: a run at concrete inputs. \<open>Knowledge_Checks\<close>: \<open>knowledge/checks.py\<close> and
    the evaluation of an entry in the pipeline.
  \<^item> \<open>Merge_Chains\<close>: \<open>maintenance/merge_chain_repair.py\<close>.

  \<^bold>\<open>State and operations.\<close> A table is a list of records in insertion order, written by \<open>update_rows\<close> (an
  UPDATE) or by appending (an INSERT); a SELECT by key is \<open>find_row\<close>. A call that raises is \<open>Inl\<close> of an
  error of the component and leaves the old state (its transaction rolls back); a call that returns is
  \<open>Inr\<close> of the new state and the result. Instants are microseconds since 1970 in UTC; a naive
  \<open>datetime\<close> is kept apart from an aware one. Texts that are hashed, measured or checked character by
  character are lists of code points; the other texts are \<open>string\<close>s. An ORDER BY on text is the order
  of code points. Identifiers are texts.

  \<^bold>\<open>Parameters.\<close> Code and services outside the repository appear as arguments: the time zone database
  (\<open>local_utc\<close>, \<open>tz\<close>), the clocks of the process (\<open>now\<close>) and of a transaction (\<open>pg_now\<close>), fresh
  identifiers and tokens, the text of an instant and its parser (\<open>render\<close>, \<open>fromisoformat\<close>), the
  general category of a character (\<open>category\<close>, with the classes the tables rely on as
  \<open>category_laws\<close>), the known projects, the verdict of the deferred merge constraints (\<open>guard\<close>), what the client of the
  code host returned, the rows other transactions have locked, whether a transaction met a lock timeout, the identifiers a sequence draws, Python's
  case folding (\<open>casefold\<close>) and its text of a number with a fraction (\<open>float_text\<close>), and the measured
  sources and extracted assertions of the checks.
  The ticket guard and the claims take the evaluator inputs loaded under locks as the argument
  \<open>loaded\<close>; in the delivery system this argument is \<open>load_locked_decision_inputs\<close> of the store. A call
  is one transaction on the store: its locks make it so.

  \<^bold>\<open>What the lemmas show.\<close>
  \<^item> Deliveries: requirements are satisfied exactly when every part is proved by stored facts, and
    completion is eligible exactly when the needed receipt is current as well; a context declared twice is
    judged by its last declaration; freshness, approvals,
    offered work, termination, finding codes and digests are characterised.
  \<^item> Tickets: the lifecycle invariant under any interleaving of reads and writes, authority and
    compare-and-swap of every write, the grouped view as a partition.
  \<^item> Delivery store: in every reachable store contracts, revisions, dependencies and bindings agree and
    the dependency graph is acyclic; a write is replayed under its key; amending or superseding fences
    claims. Receipts are only appended, each backed by stored evidence of its own generation, and a
    contracted ticket closes as fulfilled only when the store backs it. Facts of the observer are
    measured, never declared; following the pages of the ledger yields every fact once. No open slot
    is left satisfied, and a slot's history is complete.
  \<^item> Claims: along every run only the newest grant of a workflow passes the checks, and while it does no
    other is granted; fencing by epochs.
  \<^item> Programmes: every cap and the acyclicity of dependencies in every reachable state, authority over
    every changed row, the exactness of the last change and of the published block, and that checked
    input is never refused by the tables.
  \<^item> Knowledge: the decision implements an order-free specification and does not depend on the order
    of the observations; confirmation is characterised; the structure of a row always decides. An entry is
    evaluated as refuted only on a measured fact that contradicts a quoted core claim.
  \<^item> Lifecycle ledger: in every reachable ledger the cache is the replay of the events, history is
    append-only, every event is backed by a complete evaluation and runs follow their protocol; the
    comparison query is exact. An applied state is confirmed on the present text and revision, applying it
    again writes nothing, a compensation leaves the state that the surviving evidence gives, a propagation never ends an entry, and
    stored evidence is read back as it was observed.
  \<^item> Observer and retention: the queue returns exactly the current due work; an attempt reschedules the job
    it captured, which then waits at least its interval, and never overwrites a refresh that came in between; a
    purge is invisible to every reader.
  \<^item> Merge chains: a repair that returns leaves every merged row pointing at the root of its chain, and an
    approved repair of uncorrupted tables returns.

  \<^bold>\<open>Bounds and fuel.\<close> \<open>visit\<close> recurses at most once per key of the dependency graph, which is shown to
  be enough. The walk of the merge inventory has the source's own bound of 64 steps, and reaching it is
  the error \<open>DepthLimit\<close>. The validator of canonical JSON is total by a measure on its stack, with the
  source's nesting limit of 64. The frontier search of \<open>cycle_search\<close> ends by the measure of
  unseen nodes of the edges. \<open>attestation_walk\<close> follows at most one page per row, shown to be enough. The purge
  has the source's own bound on its batches. Every other loop is structural recursion.

  \<^bold>\<open>Not modelled.\<close> The HTTP surfaces and the other tools (\<open>mcp\<close>, \<open>metrics\<close>, \<open>codex_gateway\<close>,
  \<open>lifecycle_cli\<close>), the agents and the network side of the delivery observer, embedding, search, reranking
  and decay (floating-point scores around services), the graph ledger with its projection, the migrations
  and operational scripts, and the persistence of sessions, plans, credentials and entity rows: these parts
  either call services outside the repository or keep rows the modelled parts do not read. Within the
  modelled files: the read-only release measurements of \<open>pg_ticket.py\<close>, the listing of views with its signed
  cursor, the briefing of the slots, the order in which locks are taken and their timeouts, the entries
  that database triggers write to the graph ledger, and of the lifecycle pipeline the submission and
  collection of extraction batches, the loop over the entries of a run, the sweep around the propagation
  decision, backups and reports.
\<close>

end
